(* ===== verification/Prelude.thy ===== *)
theory Prelude
  imports Main "HOL-Library.AList" "HOL-Library.Char_ord" "HOL-Library.List_Lexorder"
    "HOL-Library.Product_Lexorder"
begin

text \<open>
  Shared vocabulary of the development: the Python dictionary as an insertion-ordered
  association list, computations that may raise and carry a state, and the generic facts
  on both that the component theories use. Times and durations are whole microseconds.
\<close>

named_theorems dict_simps \<open>how lookups and key lists react to dictionary updates\<close>
named_theorems atomic_intros \<open>when a raising computation leaves its state untouched\<close>

section \<open>Times, durations and dictionaries\<close>

type_synonym time = int
type_synonym duration = int

text \<open>
  A dictionary keeps its insertion order: assigning to a present key keeps the position of
  the key, assigning to a new key appends it, deleting removes it. \<^const>\<open>AList.update\<close> and
  \<^const>\<open>AList.delete\<close> of the library behave exactly so.
\<close>

type_synonym ('k, 'v) dict = "('k \<times> 'v) list"

abbreviation dget :: "('k, 'v) dict \<Rightarrow> 'k \<Rightarrow> 'v option" where
  "dget d k \<equiv> map_of d k"

abbreviation dput :: "'k \<Rightarrow> 'v \<Rightarrow> ('k, 'v) dict \<Rightarrow> ('k, 'v) dict" where
  "dput k v d \<equiv> AList.update k v d"

abbreviation ddel :: "'k \<Rightarrow> ('k, 'v) dict \<Rightarrow> ('k, 'v) dict" where
  "ddel k d \<equiv> AList.delete k d"

abbreviation dkeys :: "('k, 'v) dict \<Rightarrow> 'k list" where
  "dkeys d \<equiv> map fst d"

abbreviation dvalues :: "('k, 'v) dict \<Rightarrow> 'v list" where
  "dvalues d \<equiv> map snd d"

abbreviation dwf :: "('k, 'v) dict \<Rightarrow> bool" where
  "dwf d \<equiv> distinct (map fst d)"

definition dmap :: "('v \<Rightarrow> 'v) \<Rightarrow> ('k, 'v) dict \<Rightarrow> ('k, 'v) dict" where
  "dmap f d = map (\<lambda>(k, v). (k, f v)) d"

text \<open>\<open>dsetdefault\<close> is \<open>dict.setdefault\<close>: it inserts only when the key is absent.\<close>

definition dsetdefault :: "'k \<Rightarrow> 'v \<Rightarrow> ('k, 'v) dict \<Rightarrow> ('k, 'v) dict" where
  "dsetdefault k v d = (case dget d k of None \<Rightarrow> dput k v d | Some _ \<Rightarrow> d)"

text \<open>Lookups stay lookups: the library would otherwise turn them into membership.\<close>

declare map_of_eq_Some_iff [simp del] Some_eq_map_of_iff [simp del]
declare split_paired_All [simp del] split_paired_Ex [simp del]

lemma dget_dput [dict_simps]: "dget (dput k v d) k' = (if k' = k then Some v else dget d k')"
  by (simp add: update_conv')

lemma dget_ddel [dict_simps]: "dget (ddel k d) k' = (if k' = k then None else dget d k')"
  by (simp add: delete_conv')

lemma dget_dmap [dict_simps]: "dget (dmap f d) k = map_option f (dget d k)"
  by (induction d) (auto simp: dmap_def)

lemma dget_dsetdefault [dict_simps]:
  "dget (dsetdefault k v d) k' = (if k' = k \<and> dget d k = None then Some v else dget d k')"
  by (auto simp: dsetdefault_def dget_dput split: option.split)

lemma dkeys_dmap [dict_simps]: "dkeys (dmap f d) = dkeys d"
  by (auto simp: dmap_def case_prod_beta)

lemma length_dmap [dict_simps]: "length (dmap f d) = length d"
  by (simp add: dmap_def)

lemma dwf_dput [dict_simps]: "dwf d \<Longrightarrow> dwf (dput k v d)"
  by (rule distinct_update)

lemma dwf_ddel [dict_simps]: "dwf d \<Longrightarrow> dwf (ddel k d)"
  by (rule distinct_delete)

lemma dwf_dmap [dict_simps]: "dwf (dmap f d) \<longleftrightarrow> dwf d"
  by (simp add: dkeys_dmap)

lemma dwf_dsetdefault [dict_simps]: "dwf d \<Longrightarrow> dwf (dsetdefault k v d)"
  by (auto simp: dsetdefault_def dwf_dput split: option.split)

lemma dput_length:
  "length (dput k v d) = (if dget d k = None then Suc (length d) else length d)"
  by (induction d) auto

lemma dput_new: "dget d k = None \<Longrightarrow> dput k v d = d @ [(k, v)]"
  by (induction d) (auto split: if_splits)

lemma dvalues_dget: "dwf d \<Longrightarrow> v \<in> set (dvalues d) \<longleftrightarrow> (\<exists>k. dget d k = Some v)"
  by (force simp: image_iff intro: map_of_is_SomeI dest: map_of_SomeD)

lemma dget_in_dvalues: "dget d k = Some v \<Longrightarrow> v \<in> set (dvalues d)"
  by (force dest: map_of_SomeD)

lemma dget_in_dkeys: "dget d k = Some v \<Longrightarrow> k \<in> set (dkeys d)"
  by (force dest: map_of_SomeD)

lemma dget_None_iff: "dget d k = None \<longleftrightarrow> k \<notin> set (dkeys d)"
  by (simp add: map_of_eq_None_iff)

lemma dvalues_dmap: "dvalues (dmap f d) = map f (dvalues d)"
  by (auto simp: dmap_def)

section \<open>Computations that raise\<close>

text \<open>
  A checked value is \<open>Inl\<close> of the raised error or \<open>Inr\<close> of the value. A stateful
  operation returns a checked value together with the state it leaves behind: a Python
  method that raises half-way keeps the writes it has already made, so the state is part of
  the result on both branches and "raises without a trace" is a theorem, not a convention.
\<close>

type_synonym ('e, 's, 'a) outcome = "('e + 'a) \<times> 's"

definition check :: "'e + 'a \<Rightarrow> 's \<Rightarrow> ('a \<Rightarrow> ('e, 's, 'b) outcome) \<Rightarrow> ('e, 's, 'b) outcome" where
  "check r s k = (case r of Inl e \<Rightarrow> (Inl e, s) | Inr a \<Rightarrow> k a)"

definition and_then ::
  "('e, 's, 'a) outcome \<Rightarrow> ('a \<Rightarrow> 's \<Rightarrow> ('e, 's, 'b) outcome) \<Rightarrow> ('e, 's, 'b) outcome" where
  "and_then r k = (case r of (Inl e, s) \<Rightarrow> (Inl e, s) | (Inr a, s) \<Rightarrow> k a s)"

definition require :: "bool \<Rightarrow> 'e \<Rightarrow> 'e + unit" where
  "require b e = (if b then Inr () else Inl e)"

definition bindE :: "'e + 'a \<Rightarrow> ('a \<Rightarrow> 'e + 'b) \<Rightarrow> 'e + 'b" where
  "bindE r k = (case r of Inl e \<Rightarrow> Inl e | Inr a \<Rightarrow> k a)"

lemma check_simps [simp]:
  "check (Inl e) s k = (Inl e, s)"
  "check (Inr a) s k = k a"
  by (simp_all add: check_def)

lemma and_then_simps [simp]:
  "and_then (Inl e, s) f = (Inl e, s)"
  "and_then (Inr a, s) f = f a s"
  by (simp_all add: and_then_def)

lemma bindE_simps [simp]:
  "bindE (Inl e) k = Inl e"
  "bindE (Inr a) k = k a"
  by (simp_all add: bindE_def)

lemma require_simps [simp]:
  "require True e = Inr ()"
  "require False e = Inl e"
  by (simp_all add: require_def)

lemma require_Inr_iff [simp]: "require b e = Inr u \<longleftrightarrow> b"
  by (simp add: require_def)

lemma require_Inl_iff [simp]: "require b e = Inl e' \<longleftrightarrow> \<not> b \<and> e' = e"
  by (auto simp: require_def)

lemma bindE_Inr_iff: "bindE r k = Inr b \<longleftrightarrow> (\<exists>a. r = Inr a \<and> k a = Inr b)"
  by (cases r) auto

lemma check_Inr_iff: "check r s k = (Inr b, s') \<longleftrightarrow> (\<exists>a. r = Inr a \<and> k a = (Inr b, s'))"
  by (cases r) auto

lemma and_then_Inr_iff:
  "and_then r k = (Inr b, s') \<longleftrightarrow> (\<exists>a t. r = (Inr a, t) \<and> k a t = (Inr b, s'))"
  by (cases r; cases "fst r") auto

lemma check_cong [fundef_cong]:
  "r = r' \<Longrightarrow> s = s' \<Longrightarrow> (\<And>a. r' = Inr a \<Longrightarrow> k a = k' a) \<Longrightarrow> check r s k = check r' s' k'"
  by (cases r') auto

lemma and_then_cong [fundef_cong]:
  "r = r' \<Longrightarrow> (\<And>a s. r' = (Inr a, s) \<Longrightarrow> k a s = k' a s) \<Longrightarrow> and_then r k = and_then r' k'"
  by (cases r'; cases "fst r'") auto

lemma bindE_cong [fundef_cong]:
  "r = r' \<Longrightarrow> (\<And>a. r' = Inr a \<Longrightarrow> k a = k' a) \<Longrightarrow> bindE r k = bindE r' k'"
  by (cases r') auto

subsection \<open>Whatever is returned\<close>

text \<open>\<open>okE P r\<close>: if the checked value is there, it satisfies \<open>P\<close>. One rule per control construct.\<close>

named_theorems okE_intros \<open>conditions under which a checked computation returns only good values\<close>

definition okE :: "('a \<Rightarrow> bool) \<Rightarrow> 'e + 'a \<Rightarrow> bool" where
  "okE P r \<longleftrightarrow> (\<forall>a. r = Inr a \<longrightarrow> P a)"

lemma okE_D: "okE P r \<Longrightarrow> r = Inr a \<Longrightarrow> P a"
  by (simp add: okE_def)

lemma okE_Inl [okE_intros]: "okE P (Inl e)"
  by (simp add: okE_def)

lemma okE_Inr [okE_intros]: "P a \<Longrightarrow> okE P (Inr a)"
  by (simp add: okE_def)

lemma okE_bindE [okE_intros]: "(\<And>a. r = Inr a \<Longrightarrow> okE P (k a)) \<Longrightarrow> okE P (bindE r k)"
  by (cases r) (auto simp: okE_def)

lemma okE_if [okE_intros]: "(b \<Longrightarrow> okE P r) \<Longrightarrow> (\<not> b \<Longrightarrow> okE P r') \<Longrightarrow> okE P (if b then r else r')"
  by simp

lemma okE_option [okE_intros]:
  "(x = None \<Longrightarrow> okE P r) \<Longrightarrow> (\<And>y. x = Some y \<Longrightarrow> okE P (f y)) \<Longrightarrow> okE P (case x of None \<Rightarrow> r | Some y \<Rightarrow> f y)"
  by (cases x) auto

lemma okE_prod [okE_intros]: "(\<And>a b. x = (a, b) \<Longrightarrow> okE P (f a b)) \<Longrightarrow> okE P (case x of (a, b) \<Rightarrow> f a b)"
  by (cases x) auto

subsection \<open>Raising without a trace\<close>

definition traceless :: "'s \<Rightarrow> ('e, 's, 'a) outcome \<Rightarrow> bool" where
  "traceless s r \<longleftrightarrow> (\<forall>e. fst r = Inl e \<longrightarrow> snd r = s)"

lemma traceless_Inl [atomic_intros]: "traceless s (Inl e, s)"
  by (simp add: traceless_def)

lemma traceless_Inr [atomic_intros]: "traceless s (Inr a, s')"
  by (simp add: traceless_def)

lemma traceless_check [atomic_intros]:
  "(\<And>a. r = Inr a \<Longrightarrow> traceless s (k a)) \<Longrightarrow> traceless s (check r s k)"
  by (cases r) (auto simp: traceless_def)

lemma traceless_if [atomic_intros]:
  "(b \<Longrightarrow> traceless s r) \<Longrightarrow> (\<not> b \<Longrightarrow> traceless s r') \<Longrightarrow> traceless s (if b then r else r')"
  by simp

lemma traceless_option [atomic_intros]:
  "(x = None \<Longrightarrow> traceless s r) \<Longrightarrow> (\<And>y. x = Some y \<Longrightarrow> traceless s (f y)) \<Longrightarrow>
   traceless s (case x of None \<Rightarrow> r | Some y \<Rightarrow> f y)"
  by (cases x) auto

lemma tracelessD: "traceless s r \<Longrightarrow> r = (Inl e, s') \<Longrightarrow> s' = s"
  by (auto simp: traceless_def)

lemma traceless_and_then_ok:
  "r = (Inr a, s') \<Longrightarrow> traceless s (k a s') \<Longrightarrow> traceless s (and_then r k)"
  by simp

lemma traceless_and_then:
  "traceless s r \<Longrightarrow> (\<And>a s'. r = (Inr a, s') \<Longrightarrow> traceless s (k a s')) \<Longrightarrow>
   traceless s (and_then r k)"
  by (cases r; cases "fst r") (auto simp: traceless_def)

section \<open>Lists\<close>

text \<open>
  \<open>dict.fromkeys\<close> on a sequence: the first occurrence of every element, in order.
  Counting is over \<open>int\<close>, as \<open>len\<close> and \<open>sum\<close> return Python integers.
\<close>

fun fromkeys_from :: "'a set \<Rightarrow> 'a list \<Rightarrow> 'a list" where
  "fromkeys_from seen [] = []"
| "fromkeys_from seen (x # xs) =
     (if x \<in> seen then fromkeys_from seen xs else x # fromkeys_from (insert x seen) xs)"

definition fromkeys :: "'a list \<Rightarrow> 'a list" where
  "fromkeys xs = fromkeys_from {} xs"

lemma set_fromkeys_from: "set (fromkeys_from seen xs) = set xs - seen"
  by (induction seen xs rule: fromkeys_from.induct) auto

lemma distinct_fromkeys_from: "distinct (fromkeys_from seen xs)"
  by (induction seen xs rule: fromkeys_from.induct) (auto simp: set_fromkeys_from)

lemma set_fromkeys [simp]: "set (fromkeys xs) = set xs"
  by (simp add: fromkeys_def set_fromkeys_from)

lemma distinct_fromkeys [simp]: "distinct (fromkeys xs)"
  by (simp add: fromkeys_def distinct_fromkeys_from)

lemma fromkeys_eq_Nil [simp]: "fromkeys xs = [] \<longleftrightarrow> xs = []"
  by (metis set_empty set_fromkeys)

definition count_if :: "('a \<Rightarrow> bool) \<Rightarrow> 'a list \<Rightarrow> int" where
  "count_if P xs = int (length (filter P xs))"

lemma count_if_simps [simp]:
  "count_if P [] = 0"
  "count_if P (x # xs) = (if P x then 1 else 0) + count_if P xs"
  "count_if P (xs @ ys) = count_if P xs + count_if P ys"
  by (simp_all add: count_if_def)

lemma count_if_nonneg [simp]: "0 \<le> count_if P xs"
  by (simp add: count_if_def)

lemma count_if_cong: "(\<And>x. x \<in> set xs \<Longrightarrow> P x = Q x) \<Longrightarrow> count_if P xs = count_if Q xs"
  by (simp add: count_if_def cong: filter_cong)

lemma count_if_zero_iff: "count_if P xs = 0 \<longleftrightarrow> (\<forall>x \<in> set xs. \<not> P x)"
  by (simp add: count_if_def filter_empty_conv)

lemma count_if_remove1:
  "count_if P (remove1 x xs) = count_if P xs - (if x \<in> set xs \<and> P x then 1 else 0)"
  by (induction xs) auto

lemma distinct_map_Cons: "distinct (map f (x # xs)) \<Longrightarrow> y \<in> set xs \<Longrightarrow> f y \<noteq> f x"
  by (metis distinct.simps(2) image_eqI list.set_map list.simps(9))

lemma dput_same: "dget d k = Some v \<Longrightarrow> dput k v d = d"
  by (induction d) auto

text \<open>Every entry stays, and changes only as a relation allows.\<close>

definition dict_grows :: "('v \<Rightarrow> 'v \<Rightarrow> bool) \<Rightarrow> ('k, 'v) dict \<Rightarrow> ('k, 'v) dict \<Rightarrow> bool" where
  "dict_grows R d d' \<longleftrightarrow> (\<forall>k v. dget d k = Some v \<longrightarrow> (\<exists>v'. dget d' k = Some v' \<and> R v v'))"

lemma dict_grows_refl: "(\<And>v. R v v) \<Longrightarrow> dict_grows R d d"
  by (simp add: dict_grows_def)

lemma dict_grows_trans:
  "(\<And>a b c. R a b \<Longrightarrow> R b c \<Longrightarrow> R a c) \<Longrightarrow> dict_grows R d1 d2 \<Longrightarrow> dict_grows R d2 d3 \<Longrightarrow> dict_grows R d1 d3"
  by (fastforce simp: dict_grows_def)

lemma dict_grows_put:
  "(\<And>v. R v v) \<Longrightarrow> (\<And>v. dget d k = Some v \<Longrightarrow> R v v') \<Longrightarrow> dict_grows R d (dput k v' d)"
  by (auto simp: dict_grows_def dict_simps)

section \<open>Sums over dictionaries\<close>

definition dsum :: "('v \<Rightarrow> int) \<Rightarrow> ('k, 'v) dict \<Rightarrow> int" where
  "dsum f d = sum_list (map f (dvalues d))"

lemma dsum_Nil [simp]: "dsum f [] = 0"
  by (simp add: dsum_def)

lemma dsum_Cons [simp]: "dsum f (kv # d) = f (snd kv) + dsum f d"
  by (simp add: dsum_def)

lemma dsum_dput: "dsum f (dput k v d) = dsum f d + f v - (case dget d k of None \<Rightarrow> 0 | Some v0 \<Rightarrow> f v0)"
  by (induction d) (auto split: option.split)

lemma dsum_ddel: "dwf d \<Longrightarrow> dsum f (ddel k d) = dsum f d - (case dget d k of None \<Rightarrow> 0 | Some v0 \<Rightarrow> f v0)"
proof (induction d)
  case (Cons kv d)
  then show ?case by (cases kv) (auto simp: delete_simps dest: weak_map_of_SomeI split: option.split)
qed simp

lemma dsum_nonneg: "(\<And>v. 0 \<le> f v) \<Longrightarrow> 0 \<le> dsum f d"
  by (auto simp: dsum_def intro!: sum_list_nonneg)

lemma dsum_one: "dsum (\<lambda>_. 1) d = int (length d)"
  by (induction d) auto

lemma length_dput: "int (length (dput k v d)) = int (length d) + (if dget d k = None then 1 else 0)"
  by (simp add: dput_length)

lemma length_ddel: "dwf d \<Longrightarrow> int (length (ddel k d)) = int (length d) - (if dget d k = None then 0 else 1)"
  using dsum_ddel [of d "\<lambda>_. 1" k] by (auto simp: dsum_one split: option.splits)

section \<open>Text\<close>

text \<open>\<open>str.isspace\<close> on the code points below 256, and \<open>str.strip\<close>.\<close>

definition py_space :: "char \<Rightarrow> bool" where
  "py_space c \<longleftrightarrow>
     (let n = (of_char c :: nat)
      in (9 \<le> n \<and> n \<le> 13) \<or> (28 \<le> n \<and> n \<le> 32) \<or> n = 133 \<or> n = 160)"

definition py_strip :: "string \<Rightarrow> string" where
  "py_strip s = rev (dropWhile py_space (rev (dropWhile py_space s)))"

section \<open>Transition systems\<close>

text \<open>
  The contract every stateful component of the development meets: its initial states satisfy
  the component's invariant and each of its operations keeps it. What follows along whole
  runs is proved here once.
\<close>

locale invariant_system =
  fixes init :: "'s \<Rightarrow> bool" and step :: "'s \<Rightarrow> 's \<Rightarrow> bool" and inv :: "'s \<Rightarrow> bool"
  assumes init_inv: "init s \<Longrightarrow> inv s"
    and step_inv: "inv s \<Longrightarrow> step s s' \<Longrightarrow> inv s'"
begin

lemma run_inv: "step\<^sup>*\<^sup>* s s' \<Longrightarrow> inv s \<Longrightarrow> inv s'"
  by (induction rule: rtranclp_induct) (auto intro: step_inv)

lemma reachable_inv: "init s0 \<Longrightarrow> step\<^sup>*\<^sup>* s0 s \<Longrightarrow> inv s"
  by (blast intro: run_inv init_inv)

lemma run_related:
  assumes run: "step\<^sup>*\<^sup>* s s'" and "inv s"
    and refl: "\<And>a. R a a" and trans: "\<And>a b c. R a b \<Longrightarrow> R b c \<Longrightarrow> R a c"
    and step: "\<And>a b. inv a \<Longrightarrow> step a b \<Longrightarrow> R a b"
  shows "R s s'"
  using run
proof (induction rule: rtranclp_induct)
  case base
  show ?case by (rule refl)
next
  case (step b c)
  then show ?case using assms(2) by (blast intro: trans assms(5) run_inv)
qed

lemma run_stable:
  assumes "step\<^sup>*\<^sup>* s s'" and "inv s" and "P s"
    and "\<And>a b. inv a \<Longrightarrow> step a b \<Longrightarrow> P a \<Longrightarrow> P b"
  shows "P s'"
  using run_related [of s s' "\<lambda>a b. P a \<longrightarrow> P b"] assms by blast

end

text \<open>
  Simulation of an abstract specification: every step of the system shows, at each key, as a finite
  sequence of abstract steps. Whole runs then refine whole abstract runs.
\<close>

locale keyed_simulation = invariant_system init step inv
  for init :: "'s \<Rightarrow> bool" and step :: "'s \<Rightarrow> 's \<Rightarrow> bool" and inv :: "'s \<Rightarrow> bool" +
  fixes view :: "'s \<Rightarrow> 'k \<Rightarrow> 'a" and astep :: "'a \<Rightarrow> 'a \<Rightarrow> bool"
  assumes step_sim: "inv s \<Longrightarrow> step s s' \<Longrightarrow> astep\<^sup>*\<^sup>* (view s k) (view s' k)"
begin

lemma run_sim: "step\<^sup>*\<^sup>* s s' \<Longrightarrow> inv s \<Longrightarrow> astep\<^sup>*\<^sup>* (view s k) (view s' k)"
  by (rule run_related [where R = "\<lambda>a b. astep\<^sup>*\<^sup>* (view a k) (view b k)"]) (auto intro: step_sim)

end

text \<open>
  Leases with fencing: every holder of a key carries a number that never falls and that a
  valid holder must match. The clients' guarantee is that an overtaken holder stays locked out.
\<close>

locale fenced_leases = invariant_system init step inv
  for init :: "'s \<Rightarrow> bool" and step :: "'s \<Rightarrow> 's \<Rightarrow> bool" and inv :: "'s \<Rightarrow> bool" +
  fixes fence :: "'s \<Rightarrow> 'k \<Rightarrow> int" and holds :: "'s \<Rightarrow> 'k \<Rightarrow> int \<Rightarrow> bool"
  assumes fence_step: "inv s \<Longrightarrow> step s s' \<Longrightarrow> fence s k \<le> fence s' k"
    and holds_current: "inv s \<Longrightarrow> holds s k f \<Longrightarrow> f = fence s k"
begin

lemma fence_run: "step\<^sup>*\<^sup>* s s' \<Longrightarrow> inv s \<Longrightarrow> fence s k \<le> fence s' k"
  by (rule run_related [where R = "\<lambda>a b. fence a k \<le> fence b k"]) (auto intro: fence_step)

lemma overtaken_forever:
  assumes "step\<^sup>*\<^sup>* s s'" "inv s" "f < fence s k"
  shows "\<not> holds s' k f"
  using fence_run [OF assms(1,2), of k] holds_current [OF run_inv [OF assms(1,2)], of k f] assms(3) by auto

lemma one_holder: "inv s \<Longrightarrow> holds s k f \<Longrightarrow> holds s k f' \<Longrightarrow> f = f'"
  using holds_current by metis

end

end
