(* ===== verification/Automation_Base.thy ===== *)
theory Automation_Base
  imports Prelude
begin

text \<open>
  What the automation package shares: its failures (\<open>errors.py\<close>), the Python text
  operations its validators use, the JSON boundary check (\<open>_json.py\<close>), and the resource
  and misfire policies (\<open>policies.py\<close>). A string is a list of characters, that is of code
  points below 256; every one of them is encodable, so the validators' UTF-8 branch, which
  only lone surrogates reach, has no counterpart. Arguments are typed, so \<open>isinstance\<close>
  guards have none either.
\<close>

section \<open>Failures\<close>

text \<open>One constructor per exception class that the modelled code raises, with its message.\<close>

datatype automation_error =
    TypeError string
  | ValueError string
  | KeyError string
  | AssertionError
  | OverflowError
  | InvalidScheduleError string
  | TaskNotFoundError string
  | ExecutionNotFoundError string
  | TaskConflictError string
  | RequestConflictError string
  | QueueFullError string
  | StartAlreadyAuthorizedError string
  | ClaimLostError string
  | RetryNotAllowedError string
  | ResolutionNotAllowedError string
  | AutomationStoreError string
  | AutomationLifecycleError string

section \<open>Text\<close>

definition validate_persisted_text ::
  "string \<Rightarrow> string \<Rightarrow> int option \<Rightarrow> automation_error + unit" where
  "validate_persisted_text value nm maximum =
     (if value = [] \<or> value \<noteq> py_strip value
      then Inl (ValueError (nm @ '' must be a non-empty canonical value''))
      else if CHR 0x00 \<in> set value
      then Inl (ValueError (nm @ '' must not contain NUL bytes''))
      else case maximum of
          Some m \<Rightarrow> require (int (length value) \<le> m)
                      (ValueError (nm @ '' must contain at most the allowed characters''))
        | None \<Rightarrow> Inr ())"

lemma validate_persisted_text_ok_iff:
  "validate_persisted_text value nm maximum = Inr u \<longleftrightarrow>
     value \<noteq> [] \<and> value = py_strip value \<and> CHR 0x00 \<notin> set value \<and>
     (\<forall>m. maximum = Some m \<longrightarrow> int (length value) \<le> m)"
  by (cases maximum) (auto simp: validate_persisted_text_def)

section \<open>JSON snapshots\<close>

text \<open>
  The values a JSON snapshot may be built from, and those it may not: a non-finite float, a
  mapping with a key that is no string, an object of another type. Values are trees, so the
  cycle that \<open>_enter_container\<close> refuses cannot be written down.
\<close>

datatype pyfloat = FiniteFloat int int | NaN | PosInf | NegInf

datatype pyobj =
    PNone
  | PBool bool
  | PInt int
  | PFloat pyfloat
  | PStr string
  | PList "pyobj list"
  | PMapping "(pyobj \<times> pyobj) list"
  | POther string

fun json_validate :: "pyobj \<Rightarrow> automation_error + unit"
  and json_validate_list :: "pyobj list \<Rightarrow> automation_error + unit"
  and json_validate_items :: "(pyobj \<times> pyobj) list \<Rightarrow> automation_error + unit" where
  "json_validate PNone = Inr ()"
| "json_validate (PBool b) = Inr ()"
| "json_validate (PInt i) = Inr ()"
| "json_validate (PFloat x) =
     (case x of FiniteFloat m e \<Rightarrow> Inr ()
      | _ \<Rightarrow> Inl (ValueError ''Automation JSON numbers must be finite''))"
| "json_validate (PStr s) = Inr ()"
| "json_validate (PMapping kvs) = json_validate_items kvs"
| "json_validate (PList xs) = json_validate_list xs"
| "json_validate (POther t) = Inl (TypeError ''Automation JSON values must be JSON'')"
| "json_validate_list [] = Inr ()"
| "json_validate_list (x # xs) = bindE (json_validate x) (\<lambda>_. json_validate_list xs)"
| "json_validate_items [] = Inr ()"
| "json_validate_items ((k, v) # kvs) =
     (case k of
        PStr s \<Rightarrow> bindE (json_validate (PStr s))
                   (\<lambda>_. bindE (json_validate v) (\<lambda>_. json_validate_items kvs))
      | _ \<Rightarrow> Inl (TypeError ''Automation JSON object keys must be strings''))"

definition require_finite_json :: "pyobj \<Rightarrow> automation_error + unit" where
  "require_finite_json v = json_validate v"

text \<open>
  What acceptance means, stated on the tree: every float in it is finite, every mapping key
  is a string, and no foreign object occurs anywhere.
\<close>

inductive json_ok :: "pyobj \<Rightarrow> bool" where
  none: "json_ok PNone"
| bool: "json_ok (PBool b)"
| int: "json_ok (PInt i)"
| float: "json_ok (PFloat (FiniteFloat m e))"
| str: "json_ok (PStr s)"
| list: "(\<And>x. x \<in> set xs \<Longrightarrow> json_ok x) \<Longrightarrow> json_ok (PList xs)"
| mapping: "(\<And>k v. (k, v) \<in> set kvs \<Longrightarrow> (\<exists>s. k = PStr s) \<and> json_ok v) \<Longrightarrow> json_ok (PMapping kvs)"

inductive_simps json_ok_simps [simp]:
  "json_ok PNone" "json_ok (PBool b)" "json_ok (PInt i)" "json_ok (PFloat x)"
  "json_ok (PStr s)" "json_ok (PList xs)" "json_ok (PMapping kvs)" "json_ok (POther t)"

lemma json_validate_iff:
  "json_validate v = Inr () \<longleftrightarrow> json_ok v"
  "json_validate_list xs = Inr () \<longleftrightarrow> (\<forall>x \<in> set xs. json_ok x)"
  "json_validate_items kvs = Inr () \<longleftrightarrow> (\<forall>(k, w) \<in> set kvs. (\<exists>s. k = PStr s) \<and> json_ok w)"
proof (induction v and xs and kvs
    rule: json_validate_json_validate_list_json_validate_items.induct)
  case (4 x)
  then show ?case by (cases x) auto
next
  case (12 k v kvs)
  then show ?case by (cases k) (auto simp: bindE_Inr_iff)
qed (auto simp: bindE_Inr_iff)

section \<open>Policies\<close>

datatype misfire_mode = SKIP | LATEST | CATCH_UP

record misfire_policy =
  mp_mode :: misfire_mode
  mp_grace :: duration
  mp_catch_up_window :: duration
  mp_max_catch_up :: int

definition mk_misfire_policy :: "misfire_policy \<Rightarrow> automation_error + misfire_policy" where
  "mk_misfire_policy p =
     (if mp_grace p < 0 then Inl (ValueError ''grace must not be negative'')
      else if mp_catch_up_window p \<le> 0 then Inl (ValueError ''catch_up_window must be positive'')
      else if mp_max_catch_up p < 1 then Inl (ValueError ''max_catch_up must be at least 1'')
      else Inr p)"

record execution_limits =
  el_max_concurrent_runs :: int
  el_max_queued_runs :: int
  el_execution_timeout :: duration
  el_queue_timeout :: duration

definition mk_execution_limits :: "execution_limits \<Rightarrow> automation_error + execution_limits" where
  "mk_execution_limits l =
     (if el_max_concurrent_runs l < 1
      then Inl (ValueError ''max_concurrent_runs must be at least 1'')
      else if el_max_queued_runs l < 0
      then Inl (ValueError ''max_queued_runs must not be negative'')
      else if el_execution_timeout l \<le> 0
      then Inl (ValueError ''execution_timeout must be positive'')
      else if el_queue_timeout l \<le> 0
      then Inl (ValueError ''queue_timeout must be positive'')
      else Inr l)"

text \<open>The defaults of the two dataclasses, in microseconds.\<close>

definition second :: duration where
  "second = 1000000"

definition default_misfire_policy :: misfire_policy where
  "default_misfire_policy =
     \<lparr>mp_mode = LATEST, mp_grace = 60 * second, mp_catch_up_window = 24 * 60 * 60 * second,
      mp_max_catch_up = 100\<rparr>"

definition default_execution_limits :: execution_limits where
  "default_execution_limits =
     \<lparr>el_max_concurrent_runs = 1, el_max_queued_runs = 10,
      el_execution_timeout = 30 * 60 * second, el_queue_timeout = 24 * 60 * 60 * second\<rparr>"

definition valid_misfire_policy :: "misfire_policy \<Rightarrow> bool" where
  "valid_misfire_policy p \<longleftrightarrow> mk_misfire_policy p = Inr p"

definition valid_execution_limits :: "execution_limits \<Rightarrow> bool" where
  "valid_execution_limits l \<longleftrightarrow> mk_execution_limits l = Inr l"

lemma valid_misfire_policy_iff:
  "valid_misfire_policy p \<longleftrightarrow>
     0 \<le> mp_grace p \<and> 0 < mp_catch_up_window p \<and> 1 \<le> mp_max_catch_up p"
  by (auto simp: valid_misfire_policy_def mk_misfire_policy_def)

lemma valid_execution_limits_iff:
  "valid_execution_limits l \<longleftrightarrow>
     1 \<le> el_max_concurrent_runs l \<and> 0 \<le> el_max_queued_runs l \<and>
     0 < el_execution_timeout l \<and> 0 < el_queue_timeout l"
  by (auto simp: valid_execution_limits_def mk_execution_limits_def)

lemma defaults_valid:
  "valid_misfire_policy default_misfire_policy"
  "valid_execution_limits default_execution_limits"
  by (simp_all add: valid_misfire_policy_iff valid_execution_limits_iff
      default_misfire_policy_def default_execution_limits_def second_def)

end
