(* ===== verification/Automation_Schedule.thy ===== *)
theory Automation_Schedule
  imports Automation_Base
begin

text \<open>
  \<open>schedules.py\<close>: the Cron field parser, the three kinds of schedule, the search for the next
  run, previews, and the bounded materialisation of missed runs. Instants are UTC
  microseconds, so \<open>_aware_utc\<close> is the identity on them. A \<open>ZoneInfo\<close> is not part of the
  repository: it is a record of two functions, from an instant to the wall clock and from a
  wall clock (with its \<open>fold\<close>) to an instant, and the database of zones is an argument of
  every function that looks one up.
\<close>

section \<open>Python text operations used by the parser\<close>

definition py_lower_char :: "char \<Rightarrow> char" where
  "py_lower_char c =
     (let n = (of_char c :: nat)
      in if (65 \<le> n \<and> n \<le> 90) \<or> (192 \<le> n \<and> n \<le> 222 \<and> n \<noteq> 215)
         then char_of (n + 32) else c)"

definition py_lower :: "string \<Rightarrow> string" where
  "py_lower s = map py_lower_char s"

fun split_ws :: "string \<Rightarrow> string \<Rightarrow> string list" where
  "split_ws cur [] = (if cur = [] then [] else [rev cur])"
| "split_ws cur (c # cs) =
     (if py_space c then (if cur = [] then split_ws [] cs else rev cur # split_ws [] cs)
      else split_ws (c # cur) cs)"

definition py_split :: "string \<Rightarrow> string list" where
  "py_split s = split_ws [] s"

fun split_char :: "char \<Rightarrow> string \<Rightarrow> string list" where
  "split_char sep [] = [[]]"
| "split_char sep (c # cs) =
     (if c = sep then [] # split_char sep cs
      else case split_char sep cs of [] \<Rightarrow> [[c]] | w # ws \<Rightarrow> (c # w) # ws)"

text \<open>
  \<open>partition_at\<close> is \<open>str.partition\<close>: the text before the separator, whether it occurs, and
  the text after its first occurrence.
\<close>

fun partition_at :: "char \<Rightarrow> string \<Rightarrow> string \<times> bool \<times> string" where
  "partition_at sep [] = ([], False, [])"
| "partition_at sep (c # cs) =
     (if c = sep then ([], True, cs)
      else case partition_at sep cs of (a, found, b) \<Rightarrow> (c # a, found, b))"

definition digit_val :: "char \<Rightarrow> int option" where
  "digit_val c = (let n = (of_char c :: nat) in if 48 \<le> n \<and> n \<le> 57 then Some (int n - 48) else None)"

text \<open>
  \<open>int_digits\<close> reads decimal digits with single underscores between them, as \<open>int\<close> does;
  the boolean says whether the previous character was a digit.
\<close>

fun int_digits :: "bool \<Rightarrow> int \<Rightarrow> string \<Rightarrow> int option" where
  "int_digits prev acc [] = (if prev then Some acc else None)"
| "int_digits prev acc (c # cs) =
     (case digit_val c of
        Some d \<Rightarrow> int_digits True (10 * acc + d) cs
      | None \<Rightarrow> if c = CHR ''_'' \<and> prev then int_digits False acc cs else None)"

definition py_int :: "string \<Rightarrow> int option" where
  "py_int s =
     (case py_strip s of
        [] \<Rightarrow> None
      | c # cs \<Rightarrow>
          if c = CHR ''-'' then map_option uminus (int_digits False 0 cs)
          else if c = CHR ''+'' then int_digits False 0 cs
          else int_digits False 0 (c # cs))"

definition py_isdigit :: "char \<Rightarrow> bool" where
  "py_isdigit c \<longleftrightarrow> (let n = (of_char c :: nat) in (48 \<le> n \<and> n \<le> 57) \<or> n \<in> {178, 179, 185})"

text \<open>\<open>range(start, stop, step)\<close> for a positive step.\<close>

definition py_range :: "int \<Rightarrow> int \<Rightarrow> int \<Rightarrow> int list" where
  "py_range start stop step =
     map (\<lambda>k. start + int k * step) [0..<nat ((stop - start + step - 1) div step)]"

section \<open>Cron fields\<close>

definition MIN_INTERVAL_SECONDS :: int where
  "MIN_INTERVAL_SECONDS = 60"

definition MAX_INTERVAL_SECONDS :: int where
  "MAX_INTERVAL_SECONDS = 365 * 24 * 60 * 60"

definition MAX_CRON_SEARCH_YEARS :: int where
  "MAX_CRON_SEARCH_YEARS = 8"

definition MAX_MISFIRE_SCAN :: nat where
  "MAX_MISFIRE_SCAN = 100000"

definition MONTH_NAMES :: "(string, int) dict" where
  "MONTH_NAMES =
     [(''jan'', 1), (''feb'', 2), (''mar'', 3), (''apr'', 4), (''may'', 5), (''jun'', 6),
      (''jul'', 7), (''aug'', 8), (''sep'', 9), (''oct'', 10), (''nov'', 11), (''dec'', 12)]"

definition WEEKDAY_NAMES :: "(string, int) dict" where
  "WEEKDAY_NAMES =
     [(''mon'', 0), (''tue'', 1), (''wed'', 2), (''thu'', 3), (''fri'', 4), (''sat'', 5), (''sun'', 6)]"

definition parse_value ::
  "int \<Rightarrow> int \<Rightarrow> (string, int) dict option \<Rightarrow> string \<Rightarrow> automation_error + int" where
  "parse_value minimum maximum names value =
     (let normalized = py_lower value
      in case (case names of None \<Rightarrow> None | Some m \<Rightarrow> dget m normalized) of
           Some n \<Rightarrow> Inr n
         | None \<Rightarrow>
             (case py_int normalized of
                None \<Rightarrow> Inl (InvalidScheduleError ''Cron field contains an unsupported value'')
              | Some parsed \<Rightarrow>
                  if minimum \<le> parsed \<and> parsed \<le> maximum then Inr parsed
                  else Inl (InvalidScheduleError ''Cron field value is outside its allowed range'')))"

definition parse_step :: "bool \<Rightarrow> string \<Rightarrow> automation_error + int" where
  "parse_step separator step_text =
     (if separator
      then case py_int step_text of
             None \<Rightarrow> Inl (InvalidScheduleError ''Cron step must be a positive integer'')
           | Some step \<Rightarrow>
               if step < 1 then Inl (InvalidScheduleError ''Cron step must be a positive integer'')
               else Inr step
      else Inr 1)"

definition parse_item ::
  "int \<Rightarrow> int \<Rightarrow> (string, int) dict option \<Rightarrow> string \<Rightarrow> automation_error + int list" where
  "parse_item minimum maximum names item =
     (if item = [] then Inl (InvalidScheduleError ''Cron fields cannot contain empty list items'')
      else case partition_at CHR ''/'' item of (base, separator, step_text) \<Rightarrow>
        bindE (parse_step separator step_text) (\<lambda>step.
        bindE
          (if base = ''*'' then Inr (minimum, maximum)
           else case partition_at CHR ''-'' base of (start_text, dash, stop_text) \<Rightarrow>
             if dash then
               bindE (parse_value minimum maximum names start_text) (\<lambda>start.
               bindE (parse_value minimum maximum names stop_text) (\<lambda>stop.
               if start > stop
               then Inl (InvalidScheduleError ''Cron ranges must be ordered from lower to higher'')
               else Inr (start, stop)))
             else
               bindE (parse_value minimum maximum names base) (\<lambda>start. Inr (start, start)))
          (\<lambda>(start, stop). Inr (py_range start (stop + 1) step))))"

fun parse_items ::
  "int \<Rightarrow> int \<Rightarrow> (string, int) dict option \<Rightarrow> int set \<Rightarrow> string list \<Rightarrow> automation_error + int set" where
  "parse_items minimum maximum names selected [] = Inr selected"
| "parse_items minimum maximum names selected (item # items) =
     bindE (parse_item minimum maximum names item)
       (\<lambda>xs. parse_items minimum maximum names (selected \<union> set xs) items)"

definition parse_field ::
  "int \<Rightarrow> int \<Rightarrow> (string, int) dict option \<Rightarrow> string \<Rightarrow> automation_error + int set" where
  "parse_field minimum maximum names field =
     parse_items minimum maximum names {} (split_char CHR '','' field)"

record compiled_cron =
  cc_minutes :: "int set"
  cc_hours :: "int set"
  cc_days :: "int set"
  cc_months :: "int set"
  cc_weekdays :: "int set"

definition compile_cron :: "string \<Rightarrow> automation_error + compiled_cron" where
  "compile_cron expression =
     (case py_split expression of
        [f0, f1, f2, f3, f4] \<Rightarrow>
          bindE (parse_field 0 59 None f0) (\<lambda>minutes.
          bindE (parse_field 0 23 None f1) (\<lambda>hours.
          bindE (parse_field 1 31 None f2) (\<lambda>days.
          bindE (parse_field 1 12 (Some MONTH_NAMES) f3) (\<lambda>months.
          bindE (parse_field 0 6 (Some WEEKDAY_NAMES) f4) (\<lambda>weekdays.
          Inr \<lparr>cc_minutes = minutes, cc_hours = hours, cc_days = days, cc_months = months,
               cc_weekdays = weekdays\<rparr>)))))
      | _ \<Rightarrow> Inl (InvalidScheduleError ''Cron expression must contain exactly five fields''))"

section \<open>Calendar days and zones\<close>

record date =
  d_year :: int
  d_month :: int
  d_day :: int

type_synonym naive = "date \<times> duration"

record zone =
  z_local :: "time \<Rightarrow> naive"
  z_utc :: "nat \<Rightarrow> naive \<Rightarrow> time"

type_synonym tzdb = "string \<Rightarrow> zone option"

definition leap_year :: "int \<Rightarrow> bool" where
  "leap_year y \<longleftrightarrow> y mod 4 = 0 \<and> (y mod 100 \<noteq> 0 \<or> y mod 400 = 0)"

definition days_in_month :: "int \<Rightarrow> int \<Rightarrow> int" where
  "days_in_month y m =
     (if m = 2 then (if leap_year y then 29 else 28) else if m \<in> {4, 6, 9, 11} then 30 else 31)"

definition days_before_month :: "int \<Rightarrow> int \<Rightarrow> int" where
  "days_before_month y m = sum_list (map (days_in_month y) [1..m - 1])"

definition date_ordinal :: "date \<Rightarrow> int" where
  "date_ordinal d =
     (let p = d_year d - 1
      in p * 365 + p div 4 - p div 100 + p div 400 + days_before_month (d_year d) (d_month d) + d_day d)"

definition weekday :: "date \<Rightarrow> int" where
  "weekday d = (date_ordinal d + 6) mod 7"

text \<open>\<open>current_day + timedelta(days=1)\<close>; the calendar ends with the year 9999.\<close>

definition next_day :: "date \<Rightarrow> date" where
  "next_day d =
     (if d_day d < days_in_month (d_year d) (d_month d) then d\<lparr>d_day := d_day d + 1\<rparr>
      else if d_month d < 12 then d\<lparr>d_month := d_month d + 1, d_day := 1\<rparr>
      else \<lparr>d_year = d_year d + 1, d_month = 1, d_day = 1\<rparr>)"

definition valid_date :: "date \<Rightarrow> bool" where
  "valid_date d \<longleftrightarrow>
     1 \<le> d_month d \<and> d_month d \<le> 12 \<and> 1 \<le> d_day d \<and> d_day d \<le> days_in_month (d_year d) (d_month d)"

definition valid_utc_candidates :: "naive \<Rightarrow> zone \<Rightarrow> time list" where
  "valid_utc_candidates local_value z =
     sort (remdups (filter (\<lambda>c. z_local z c = local_value)
       [z_utc z 0 local_value, z_utc z 1 local_value]))"

section \<open>Schedules and the next run\<close>

datatype schedule =
    OnceSchedule time
  | IntervalSchedule int time
  | CronSchedule string string

text \<open>The field validators of the three schedule models.\<close>

definition mk_interval_schedule :: "int \<Rightarrow> time \<Rightarrow> automation_error + schedule" where
  "mk_interval_schedule every_seconds start_at =
     (if MIN_INTERVAL_SECONDS \<le> every_seconds \<and> every_seconds \<le> MAX_INTERVAL_SECONDS
      then Inr (IntervalSchedule every_seconds start_at)
      else Inl (ValueError ''every_seconds is outside its bounds''))"

definition expression_has_five_fields :: "string \<Rightarrow> automation_error + string" where
  "expression_has_five_fields value =
     (if value \<noteq> py_strip value \<or> length (py_split value) \<noteq> 5
      then Inl (ValueError ''expression must contain exactly five Cron fields'')
      else if list_ex py_isdigit (py_lower (py_split value ! 4))
      then Inl (ValueError ''day of week must use mon through sun names'')
      else bindE (compile_cron (py_lower value)) (\<lambda>_. Inr (py_lower value)))"

definition timezone_is_available :: "tzdb \<Rightarrow> string \<Rightarrow> automation_error + string" where
  "timezone_is_available db value =
     (if value \<noteq> py_strip value
      then Inl (ValueError ''timezone must not contain surrounding whitespace'')
      else case db value of
             None \<Rightarrow> Inl (InvalidScheduleError ''Unknown IANA timezone'')
           | Some _ \<Rightarrow> Inr value)"

definition mk_cron_schedule :: "tzdb \<Rightarrow> string \<Rightarrow> string \<Rightarrow> automation_error + schedule" where
  "mk_cron_schedule db expression tz =
     (if length expression < 9 \<or> 256 < length expression
      then Inl (ValueError ''expression length is outside its bounds'')
      else bindE (expression_has_five_fields expression) (\<lambda>e.
        if length tz < 1 \<or> 128 < length tz
        then Inl (ValueError ''timezone length is outside its bounds'')
        else bindE (timezone_is_available db tz) (\<lambda>z. Inr (CronSchedule e z))))"

fun valid_schedule :: "tzdb \<Rightarrow> schedule \<Rightarrow> bool" where
  "valid_schedule db (OnceSchedule at) = True"
| "valid_schedule db (IntervalSchedule every start) =
     (MIN_INTERVAL_SECONDS \<le> every \<and> every \<le> MAX_INTERVAL_SECONDS)"
| "valid_schedule db (CronSchedule e tz) = (\<exists>c z. compile_cron e = Inr c \<and> db tz = Some z)"

text \<open>The two inner loops over hours and minutes of one day, and the loop over days.\<close>

fun scan_times :: "zone \<Rightarrow> time \<Rightarrow> date \<Rightarrow> (int \<times> int) list \<Rightarrow> time option" where
  "scan_times z after_utc day [] = None"
| "scan_times z after_utc day ((hour, minute) # rest) =
     (case valid_utc_candidates (day, (hour * 60 + minute) * 60 * second) z of
        c # _ \<Rightarrow> if c > after_utc then Some c else scan_times z after_utc day rest
      | [] \<Rightarrow> scan_times z after_utc day rest)"

definition times_of_day :: "compiled_cron \<Rightarrow> (int \<times> int) list" where
  "times_of_day c =
     concat (map (\<lambda>h. map (\<lambda>m. (h, m)) (sorted_list_of_set (cc_minutes c)))
       (sorted_list_of_set (cc_hours c)))"

definition day_matches :: "compiled_cron \<Rightarrow> date \<Rightarrow> bool" where
  "day_matches c d \<longleftrightarrow>
     d_month d \<in> cc_months c \<and> d_day d \<in> cc_days c \<and> weekday d \<in> cc_weekdays c"

function scan_days ::
  "compiled_cron \<Rightarrow> zone \<Rightarrow> time \<Rightarrow> int \<Rightarrow> date \<Rightarrow> automation_error + time" where
  "scan_days c z after_utc end_year day =
     (if d_year day \<le> end_year then
        case (if day_matches c day then scan_times z after_utc day (times_of_day c) else None) of
          Some t \<Rightarrow> Inr t
        | None \<Rightarrow>
            if d_year day = 9999 \<and> d_month day = 12 \<and> d_day day = 31 then Inl OverflowError
            else scan_days c z after_utc end_year (next_day day)
      else Inl (InvalidScheduleError
             ''Cron schedule has no run time within the supported search range''))"
  by pat_completeness auto
termination
proof (relation "measures [\<lambda>(c, z, a, e, d). nat (e + 1 - d_year d),
    \<lambda>(c, z, a, e, d). nat (12 - d_month d), \<lambda>(c, z, a, e, d). nat (32 - d_day d)]", goal_cases)
  case 1
  show ?case by simp
next
  case (2 c z a e d)
  have "days_in_month (d_year d) (d_month d) \<le> 31"
    by (simp add: days_in_month_def)
  with 2 show ?case by (auto simp: next_day_def)
qed

declare scan_days.simps [simp del]

definition next_run_after :: "tzdb \<Rightarrow> schedule \<Rightarrow> time \<Rightarrow> automation_error + time option" where
  "next_run_after db sched after_utc =
     (case sched of
        OnceSchedule at \<Rightarrow> Inr (if at > after_utc then Some at else None)
      | IntervalSchedule every_seconds start_at \<Rightarrow>
          if after_utc < start_at then Inr (Some start_at)
          else
            let steps = max 1 ((after_utc - start_at) div (every_seconds * second) + 1)
            in Inr (Some (start_at + steps * every_seconds * second))
      | CronSchedule expression tz \<Rightarrow>
          bindE (compile_cron expression) (\<lambda>compiled.
          case db tz of
            None \<Rightarrow> Inl (KeyError ''ZoneInfoNotFoundError'')
          | Some z \<Rightarrow>
              let start_day = fst (z_local z after_utc)
              in bindE (scan_days compiled z after_utc
                   (d_year start_day + MAX_CRON_SEARCH_YEARS) start_day) (\<lambda>t. Inr (Some t))))"

section \<open>Previews and materialisation\<close>

fun preview_loop :: "tzdb \<Rightarrow> schedule \<Rightarrow> nat \<Rightarrow> time \<Rightarrow> automation_error + time list" where
  "preview_loop db sched 0 cursor = Inr []"
| "preview_loop db sched (Suc n) cursor =
     bindE (next_run_after db sched cursor) (\<lambda>candidate.
       case candidate of
         None \<Rightarrow> Inr []
       | Some t \<Rightarrow> bindE (preview_loop db sched n t) (\<lambda>ts. Inr (t # ts)))"

definition preview_schedule :: "tzdb \<Rightarrow> schedule \<Rightarrow> time \<Rightarrow> int \<Rightarrow> automation_error + time list" where
  "preview_schedule db sched after count =
     (if 1 \<le> count \<and> count \<le> 100 then preview_loop db sched (nat count) after
      else Inl (ValueError ''count must be between 1 and 100''))"

record materialized_schedule =
  ms_due_at :: "time list"
  ms_next_run_at :: "time option"
  ms_skipped_before :: "time option"

definition latest_interval_due :: "int \<Rightarrow> time \<Rightarrow> time \<Rightarrow> time" where
  "latest_interval_due every_seconds first_due now =
     (let steps = max 0 ((now - first_due) div (every_seconds * second))
      in first_due + steps * every_seconds * second)"

fun misfire_scan ::
  "tzdb \<Rightarrow> schedule \<Rightarrow> time \<Rightarrow> nat \<Rightarrow> time \<Rightarrow> automation_error + time list" where
  "misfire_scan db sched now_utc 0 cursor =
     Inl (InvalidScheduleError ''Misfire scan exceeded its bounded candidate limit'')"
| "misfire_scan db sched now_utc (Suc n) cursor =
     bindE (next_run_after db sched cursor) (\<lambda>candidate.
       case candidate of
         None \<Rightarrow> Inr []
       | Some t \<Rightarrow>
           if t > now_utc then Inr []
           else bindE (misfire_scan db sched now_utc n t) (\<lambda>ts. Inr (t # ts)))"

definition materialize_schedule ::
  "tzdb \<Rightarrow> schedule \<Rightarrow> time \<Rightarrow> time \<Rightarrow> misfire_policy \<Rightarrow> automation_error + materialized_schedule" where
  "materialize_schedule db sched first_due now_utc policy =
     (if first_due > now_utc
      then Inr \<lparr>ms_due_at = [], ms_next_run_at = Some first_due, ms_skipped_before = None\<rparr>
      else
        bindE (next_run_after db sched now_utc) (\<lambda>future.
        let grace_boundary = now_utc - mp_grace policy;
            window_boundary = now_utc - mp_catch_up_window policy
        in if mp_mode policy = SKIP then
             let due = (if first_due < grace_boundary then [] else [first_due])
             in Inr \<lparr>ms_due_at = due, ms_next_run_at = future,
                     ms_skipped_before = (if due = [] then Some first_due else None)\<rparr>
           else case (mp_mode policy, sched) of
             (LATEST, IntervalSchedule every_seconds start_at) \<Rightarrow>
               let latest = latest_interval_due every_seconds first_due now_utc
               in Inr \<lparr>ms_due_at = (if latest \<ge> window_boundary then [latest] else []),
                       ms_next_run_at = future,
                       ms_skipped_before = (if latest \<noteq> first_due then Some first_due else None)\<rparr>
           | _ \<Rightarrow>
               let scan_start = max first_due window_boundary
               in bindE (misfire_scan db sched now_utc MAX_MISFIRE_SCAN (scan_start - 1)) (\<lambda>due_times.
                  let selected =
                    (if mp_mode policy = LATEST
                     then (if due_times = [] then [] else [last due_times])
                     else take (nat (mp_max_catch_up policy)) due_times)
                  in Inr \<lparr>ms_due_at = selected, ms_next_run_at = future,
                          ms_skipped_before =
                            (if first_due < scan_start \<or> length due_times > length selected
                             then Some first_due else None)\<rparr>)))"

end
