(* ===== verification/Automation_Model.thy ===== *)
theory Automation_Model
  imports Automation_Schedule
begin

text \<open>
  The value objects of \<open>models.py\<close> and \<open>store.py\<close>: tasks, executions, work kinds, claims,
  and the validation that constructing or replacing one of them runs. Fields carry the name
  of the dataclass field behind a short prefix, because record fields of a theory share one
  name space.
\<close>

section \<open>Statuses\<close>

datatype task_status = ENABLED | PAUSED

datatype execution_status =
    QUEUED | RUNNING | INTERRUPTED | CANCEL_REQUESTED | SUCCEEDED | FAILED | TIMED_OUT
  | CANCELLED | NEEDS_ATTENTION

fun is_terminal :: "execution_status \<Rightarrow> bool" where
  "is_terminal SUCCEEDED = True"
| "is_terminal FAILED = True"
| "is_terminal TIMED_OUT = True"
| "is_terminal CANCELLED = True"
| "is_terminal _ = False"

datatype execution_origin = SCHEDULED | MANUAL | ONE_TIME | RETRY

datatype attention_resolution = RESOLVE_SUCCEEDED | RESOLVE_FAILED | RESOLVE_CANCELLED

text \<open>\<open>ExecutionStatus(resolution.value)\<close>: the two enumerations share their values.\<close>

fun resolution_status :: "attention_resolution \<Rightarrow> execution_status" where
  "resolution_status RESOLVE_SUCCEEDED = SUCCEEDED"
| "resolution_status RESOLVE_FAILED = FAILED"
| "resolution_status RESOLVE_CANCELLED = CANCELLED"

section \<open>Tasks and executions\<close>

record run_identity =
  ri_namespace :: string
  ri_thread_id :: string
  ri_run_id :: string

record automation_task =
  t_task_id :: string
  t_namespace :: string
  t_owner_id :: string
  t_name :: string
  t_target :: string
  t_input :: pyobj
  t_schedule :: schedule
  t_status :: task_status
  t_revision :: int
  t_next_run_at :: "time option"
  t_misfire_policy :: misfire_policy
  t_limits :: execution_limits
  t_created_at :: time
  t_updated_at :: time

record automation_execution =
  e_execution_id :: string
  e_task_id :: "string option"
  e_namespace :: string
  e_owner_id :: string
  e_identity :: run_identity
  e_target :: string
  e_input :: pyobj
  e_limits :: execution_limits
  e_origin :: execution_origin
  e_status :: execution_status
  e_attempt :: int
  e_retry_of :: "string option"
  e_scheduled_for :: "time option"
  e_queued_at :: time
  e_queue_deadline :: time
  e_execution_started_at :: "time option"
  e_execution_deadline :: "time option"
  e_finished_at :: "time option"
  e_failure_code :: "string option"
  e_failure_message :: "string option"
  e_result :: pyobj
  e_interrupt_ids :: "string list"
  e_start_authorized_at :: "time option"
  e_start_token :: "string option"
  e_created_at :: time
  e_updated_at :: time

text \<open>
  \<open>__post_init__\<close> of the two dataclasses. Dataclass construction and \<open>replace\<close> both run it, so
  \<open>mk_task\<close> and \<open>mk_execution\<close> stand wherever the code builds or replaces such a value.
\<close>

definition mk_task :: "automation_task \<Rightarrow> automation_error + automation_task" where
  "mk_task t =
     bindE (validate_persisted_text (t_task_id t) ''task_id'' (Some 36)) (\<lambda>_.
     bindE (validate_persisted_text (t_namespace t) ''namespace'' (Some 128)) (\<lambda>_.
     bindE (validate_persisted_text (t_owner_id t) ''owner_id'' (Some 191)) (\<lambda>_.
     bindE (validate_persisted_text (t_name t) ''name'' (Some 255)) (\<lambda>_.
     bindE (validate_persisted_text (t_target t) ''target'' (Some 191)) (\<lambda>_.
     bindE (require_finite_json (t_input t)) (\<lambda>_. Inr t))))))"

definition validate_optional :: "string option \<Rightarrow> string \<Rightarrow> int option \<Rightarrow> automation_error + unit" where
  "validate_optional v nm maximum =
     (case v of None \<Rightarrow> Inr () | Some s \<Rightarrow> validate_persisted_text s nm maximum)"

fun validate_interrupt_ids :: "string list \<Rightarrow> automation_error + unit" where
  "validate_interrupt_ids [] = Inr ()"
| "validate_interrupt_ids (i # is) =
     bindE (validate_persisted_text i ''interrupt_ids'' None) (\<lambda>_. validate_interrupt_ids is)"

definition mk_execution :: "automation_execution \<Rightarrow> automation_error + automation_execution" where
  "mk_execution e =
     bindE (validate_persisted_text (e_execution_id e) ''execution_id'' (Some 36)) (\<lambda>_.
     bindE (validate_optional (e_task_id e) ''task_id'' (Some 36)) (\<lambda>_.
     bindE (validate_persisted_text (e_namespace e) ''namespace'' (Some 128)) (\<lambda>_.
     bindE (validate_persisted_text (e_owner_id e) ''owner_id'' (Some 191)) (\<lambda>_.
     bindE (validate_persisted_text (e_target e) ''target'' (Some 191)) (\<lambda>_.
     bindE (validate_persisted_text (ri_namespace (e_identity e)) ''identity.namespace'' (Some 128)) (\<lambda>_.
     bindE (validate_persisted_text (ri_thread_id (e_identity e)) ''identity.thread_id'' None) (\<lambda>_.
     bindE (validate_persisted_text (ri_run_id (e_identity e)) ''identity.run_id'' None) (\<lambda>_.
     bindE (validate_optional (e_retry_of e) ''retry_of'' (Some 36)) (\<lambda>_.
     bindE (require (ri_namespace (e_identity e) = e_namespace e)
        (ValueError ''identity.namespace must match namespace'')) (\<lambda>_.
     bindE (validate_optional (e_failure_code e) ''failure_code'' None) (\<lambda>_.
     bindE (validate_optional (e_failure_message e) ''failure_message'' None) (\<lambda>_.
     bindE (validate_interrupt_ids (e_interrupt_ids e)) (\<lambda>_.
     bindE (require_finite_json (e_input e)) (\<lambda>_.
     bindE (require_finite_json (e_result e)) (\<lambda>_. Inr e)))))))))))))))"

definition valid_task :: "automation_task \<Rightarrow> bool" where
  "valid_task t \<longleftrightarrow> mk_task t = Inr t"

definition valid_execution :: "automation_execution \<Rightarrow> bool" where
  "valid_execution e \<longleftrightarrow> mk_execution e = Inr e"

definition text_ok :: "string \<Rightarrow> int option \<Rightarrow> bool" where
  "text_ok s maximum \<longleftrightarrow>
     s \<noteq> [] \<and> s = py_strip s \<and> CHR 0x00 \<notin> set s \<and> 
     (case maximum of None \<Rightarrow> True | Some m \<Rightarrow> int (length s) \<le> m)"

lemma validate_text_ok [simp]:
  "validate_persisted_text s nm maximum = Inr u \<longleftrightarrow> text_ok s maximum"
  by (simp add: validate_persisted_text_ok_iff text_ok_def split: option.split)

lemma check_text_ok [simp]:
  "text_ok x maximum \<Longrightarrow> check (validate_persisted_text x nm maximum) s k = k ()"
  by (metis check_simps(2) validate_text_ok)

lemma check_text_bad:
  "\<not> text_ok x maximum \<Longrightarrow> \<exists>err. \<forall>s k. check (validate_persisted_text x nm maximum) s k = (Inl err, s)"
  by (metis check_simps(1) obj_sumE validate_text_ok)

lemma validate_optional_ok [simp]:
  "validate_optional v nm maximum = Inr u \<longleftrightarrow> (\<forall>s. v = Some s \<longrightarrow> text_ok s maximum)"
  by (cases v) (auto simp: validate_optional_def)

lemma validate_interrupt_ids_ok [simp]:
  "validate_interrupt_ids ids = Inr u \<longleftrightarrow> (\<forall>i \<in> set ids. text_ok i None)"
  by (induction ids) (auto simp: bindE_Inr_iff)

lemma require_finite_json_ok [simp]: "require_finite_json v = Inr u \<longleftrightarrow> json_ok v"
  by (simp add: require_finite_json_def json_validate_iff)

lemma mk_execution_result: "mk_execution e = Inr e' \<Longrightarrow> e' = e"
  by (auto simp: mk_execution_def bindE_Inr_iff)

lemma mk_execution_ok: "mk_execution e = Inr e' \<longleftrightarrow> e' = e \<and> valid_execution e"
  by (auto simp: valid_execution_def dest: mk_execution_result)

lemma valid_execution_iff:
  "valid_execution e \<longleftrightarrow>
     text_ok (e_execution_id e) (Some 36) \<and> (\<forall>s. e_task_id e = Some s \<longrightarrow> text_ok s (Some 36)) \<and>
     text_ok (e_namespace e) (Some 128) \<and> text_ok (e_owner_id e) (Some 191) \<and>
     text_ok (e_target e) (Some 191) \<and> text_ok (ri_namespace (e_identity e)) (Some 128) \<and>
     text_ok (ri_thread_id (e_identity e)) None \<and> text_ok (ri_run_id (e_identity e)) None \<and>
     (\<forall>s. e_retry_of e = Some s \<longrightarrow> text_ok s (Some 36)) \<and>
     ri_namespace (e_identity e) = e_namespace e \<and>
     (\<forall>s. e_failure_code e = Some s \<longrightarrow> text_ok s None) \<and>
     (\<forall>s. e_failure_message e = Some s \<longrightarrow> text_ok s None) \<and>
     (\<forall>i \<in> set (e_interrupt_ids e). text_ok i None) \<and> json_ok (e_input e) \<and> json_ok (e_result e)"
  unfolding valid_execution_def mk_execution_def by (simp add: bindE_Inr_iff)

section \<open>Work, claims and results of the store\<close>

datatype work_kind = EXECUTE | EXPIRE_INTERRUPT

record work_item_claim =
  c_work_item_id :: string
  c_namespace :: string
  c_execution_id :: string
  c_kind :: work_kind
  c_claim_token :: string
  c_fence :: int
  c_lease_until :: time

record start_authorization =
  sa_execution :: automation_execution
  sa_start_token :: string

record scheduled_execution =
  se_execution :: automation_execution
  se_occurrence_key :: string

record materialization_result =
  mr_task :: automation_task
  mr_executions :: "automation_execution list"

record 'a page =
  pg_items :: "'a list"
  pg_next_cursor :: "string option"

end
