(* ===== verification/Automation_Rules.thy ===== *)
theory Automation_Rules
  imports Automation_Model
begin

text \<open>
  \<open>_rules.py\<close>: the pure decisions of the automation stores. Every rule that builds a new
  execution snapshot runs the dataclass validation on it (\<^const>\<open>mk_execution\<close>), so a rule may
  raise a \<open>ValueError\<close>; the second half shows when it cannot, and what each rule keeps.
\<close>

section \<open>The rules\<close>

datatype complete_work = CompleteNone | CompleteCurrent | CompleteAll

record execution_transition =
  x_execution :: automation_execution
  x_complete_work :: complete_work
  x_release_capacity :: bool
  x_deadline_work_at :: "time option"

definition keep_transition :: "automation_execution \<Rightarrow> complete_work \<Rightarrow> execution_transition" where
  "keep_transition e c =
     \<lparr>x_execution = e, x_complete_work = c, x_release_capacity = False, x_deadline_work_at = None\<rparr>"

definition require_task_revision :: "automation_task \<Rightarrow> int option \<Rightarrow> automation_error + unit" where
  "require_task_revision task expected_revision =
     (case expected_revision of
        None \<Rightarrow> Inr ()
      | Some n \<Rightarrow>
          if n < 1 then Inl (ValueError ''expected_revision must be positive'')
          else require (t_revision task = n) (TaskConflictError ''Task revision changed''))"

definition execution_scope :: "automation_execution \<Rightarrow> string \<times> string" where
  "execution_scope e =
     (case e_task_id e of None \<Rightarrow> (''owner'', e_owner_id e) | Some t \<Rightarrow> (''task'', t))"

definition same_execution_scope :: "automation_execution \<Rightarrow> automation_execution \<Rightarrow> bool" where
  "same_execution_scope candidate e \<longleftrightarrow>
     e_namespace candidate = e_namespace e \<and> execution_scope candidate = execution_scope e"

definition materialization_is_current ::
  "automation_task \<Rightarrow> automation_task \<Rightarrow> time \<Rightarrow> bool" where
  "materialization_is_current current proposed expected_next_run_at \<longleftrightarrow>
     t_next_run_at current = Some expected_next_run_at \<and>
     t_revision current = t_revision proposed \<and> t_status current = ENABLED"

fun pending_loop :: "string set \<Rightarrow> scheduled_execution list \<Rightarrow> scheduled_execution list" where
  "pending_loop seen [] = []"
| "pending_loop seen (item # items) =
     (if se_occurrence_key item \<notin> seen
      then item # pending_loop (insert (se_occurrence_key item) seen) items
      else pending_loop seen items)"

definition pending_occurrences :: "scheduled_execution list \<Rightarrow> string set \<Rightarrow> scheduled_execution list" where
  "pending_occurrences executions existing = pending_loop existing executions"

definition require_queue_capacity :: "int \<Rightarrow> int \<Rightarrow> int \<Rightarrow> string \<Rightarrow> automation_error + unit" where
  "require_queue_capacity queued additional maximum scope_id =
     (if queued + additional > maximum then Inl (QueueFullError scope_id) else Inr ())"

definition expire_queued :: "automation_execution \<Rightarrow> time \<Rightarrow> automation_error + execution_transition" where
  "expire_queued e now =
     bindE (mk_execution (e\<lparr>e_status := TIMED_OUT, e_finished_at := Some now,
         e_failure_code := Some ''automation.queue_timeout'',
         e_failure_message := Some ''Execution exceeded its queue deadline'',
         e_updated_at := now\<rparr>)) (\<lambda>e'.
     Inr \<lparr>x_execution = e', x_complete_work = CompleteCurrent, x_release_capacity = True,
          x_deadline_work_at = None\<rparr>)"

definition claim_candidate ::
  "automation_execution \<Rightarrow> work_kind \<Rightarrow> time \<Rightarrow> automation_error + execution_transition option" where
  "claim_candidate e kind now =
     (if kind = EXECUTE then
        if e_status e \<noteq> QUEUED then Inr (Some (keep_transition e CompleteCurrent))
        else if e_queue_deadline e \<le> now then bindE (expire_queued e now) (\<lambda>t. Inr (Some t))
        else Inr None
      else if e_status e \<noteq> INTERRUPTED then Inr (Some (keep_transition e CompleteCurrent))
      else Inr None)"

definition authorize_start ::
  "automation_execution \<Rightarrow> work_kind \<Rightarrow> bool \<Rightarrow> time \<Rightarrow> duration \<Rightarrow> string \<Rightarrow>
   automation_error + start_authorization" where
  "authorize_start e kind admitted now execution_timeout start_token =
     (if kind \<noteq> EXECUTE then Inl (ClaimLostError ''Only executable work can authorize a target'')
      else if e_start_authorized_at e \<noteq> None
      then Inl (StartAlreadyAuthorizedError ''Execution start was already authorized'')
      else if e_status e \<noteq> QUEUED \<or> \<not> admitted
      then Inl (ClaimLostError ''Execution is no longer eligible to start'')
      else
        bindE (mk_execution (e\<lparr>e_status := RUNNING, e_execution_started_at := Some now,
            e_execution_deadline := Some (now + execution_timeout),
            e_start_authorized_at := Some now, e_start_token := Some start_token,
            e_updated_at := now\<rparr>)) (\<lambda>started.
        Inr \<lparr>sa_execution = started, sa_start_token = start_token\<rparr>))"

definition interrupt_execution ::
  "automation_execution \<Rightarrow> string list \<Rightarrow> time \<Rightarrow> automation_error + execution_transition" where
  "interrupt_execution e interrupt_ids now =
     (if interrupt_ids = [] then Inl (ValueError ''interrupt_ids must not be empty'')
      else case e_execution_deadline e of
             None \<Rightarrow> Inl (ClaimLostError ''Execution has no active deadline'')
           | Some deadline \<Rightarrow>
               bindE (mk_execution (e\<lparr>e_status := INTERRUPTED,
                   e_interrupt_ids := fromkeys interrupt_ids, e_updated_at := now\<rparr>)) (\<lambda>e'.
               Inr \<lparr>x_execution = e', x_complete_work = CompleteCurrent,
                    x_release_capacity = False, x_deadline_work_at = Some deadline\<rparr>))"

definition finish_execution ::
  "automation_execution \<Rightarrow> execution_status \<Rightarrow> time \<Rightarrow> pyobj \<Rightarrow> string option \<Rightarrow> string option \<Rightarrow>
   automation_error + execution_transition" where
  "finish_execution e status now res failure_code failure_message =
     (if \<not> is_terminal status \<and> status \<noteq> NEEDS_ATTENTION
      then Inl (ValueError ''finish status must be terminal or needs_attention'')
      else
        bindE (mk_execution (e\<lparr>e_status := status, e_result := res,
            e_failure_code := failure_code, e_failure_message := failure_message,
            e_finished_at := (if is_terminal status then Some now else None),
            e_updated_at := now\<rparr>)) (\<lambda>e'.
        Inr \<lparr>x_execution = e', x_complete_work = CompleteAll,
             x_release_capacity = is_terminal status, x_deadline_work_at = None\<rparr>))"

definition cancel_execution ::
  "automation_execution \<Rightarrow> time \<Rightarrow> automation_error + execution_transition" where
  "cancel_execution e now =
     (if e_status e = NEEDS_ATTENTION
      then Inl (ResolutionNotAllowedError ''Uncertain execution requires explicit resolution'')
      else if e_status e \<in> {QUEUED, INTERRUPTED} then
        bindE (mk_execution (e\<lparr>e_status := CANCELLED, e_finished_at := Some now,
            e_updated_at := now\<rparr>)) (\<lambda>e'.
        Inr \<lparr>x_execution = e', x_complete_work = CompleteAll, x_release_capacity = True,
             x_deadline_work_at = None\<rparr>)
      else if e_status e = RUNNING then
        bindE (mk_execution (e\<lparr>e_status := CANCEL_REQUESTED, e_updated_at := now\<rparr>)) (\<lambda>e'.
        Inr (keep_transition e' CompleteNone))
      else Inr (keep_transition e CompleteNone))"

definition resolve_execution ::
  "automation_execution \<Rightarrow> attention_resolution \<Rightarrow> string \<Rightarrow> time \<Rightarrow>
   automation_error + execution_transition" where
  "resolve_execution e resolution reason now =
     (if reason = [] \<or> reason \<noteq> py_strip reason
      then Inl (ValueError ''reason must be a non-empty canonical value'')
      else if e_status e \<noteq> NEEDS_ATTENTION
      then Inl (ResolutionNotAllowedError ''Only uncertain execution can be resolved'')
      else
        let status = resolution_status resolution
        in bindE (mk_execution (e\<lparr>e_status := status,
               e_failure_code := (if status = FAILED then Some ''automation.explicit_resolution''
                                  else e_failure_code e),
               e_failure_message := (if status = FAILED then Some reason else None),
               e_finished_at := Some now, e_updated_at := now\<rparr>)) (\<lambda>e'.
           Inr \<lparr>x_execution = e', x_complete_work = CompleteNone, x_release_capacity = True,
                x_deadline_work_at = None\<rparr>))"

definition recover_expired_claim ::
  "automation_execution \<Rightarrow> work_kind \<Rightarrow> time \<Rightarrow> automation_error + execution_transition" where
  "recover_expired_claim e kind now =
     (if kind = EXECUTE \<and> e_start_authorized_at e \<noteq> None then
        bindE (mk_execution (e\<lparr>e_status := NEEDS_ATTENTION,
            e_failure_code := Some ''automation.claim_lost_after_start'',
            e_failure_message := Some ''Execution ownership expired after start'',
            e_updated_at := now\<rparr>)) (\<lambda>e'.
        Inr (keep_transition e' CompleteCurrent))
      else Inr (keep_transition e CompleteNone))"

section \<open>What a rule may change\<close>

text \<open>
  The fields that no rule writes: identity, ownership, scope, limits and origin of an
  execution. \<open>start_kept\<close> is the once-only start: an issued authorization and its token
  survive every later snapshot.
\<close>

definition same_subject :: "automation_execution \<Rightarrow> automation_execution \<Rightarrow> bool" where
  "same_subject e e' \<longleftrightarrow>
     e_execution_id e' = e_execution_id e \<and> e_task_id e' = e_task_id e \<and>
     e_namespace e' = e_namespace e \<and> e_owner_id e' = e_owner_id e \<and>
     e_identity e' = e_identity e \<and> e_target e' = e_target e \<and> e_input e' = e_input e \<and>
     e_limits e' = e_limits e \<and> e_origin e' = e_origin e \<and> e_attempt e' = e_attempt e \<and>
     e_retry_of e' = e_retry_of e \<and> e_queued_at e' = e_queued_at e \<and>
     e_queue_deadline e' = e_queue_deadline e"

definition start_kept :: "automation_execution \<Rightarrow> automation_execution \<Rightarrow> bool" where
  "start_kept e e' \<longleftrightarrow>
     (e_start_authorized_at e \<noteq> None \<longrightarrow>
        e_start_authorized_at e' = e_start_authorized_at e \<and> e_start_token e' = e_start_token e)"

definition frame_kept :: "automation_execution \<Rightarrow> automation_execution \<Rightarrow> bool" where
  "frame_kept e e' \<longleftrightarrow> same_subject e e' \<and> start_kept e e'"

lemma same_subject_refl [simp]: "same_subject e e"
  by (simp add: same_subject_def)

lemma frame_kept_refl [simp]: "frame_kept e e"
  by (simp add: frame_kept_def start_kept_def)

lemma same_subject_trans: "same_subject a b \<Longrightarrow> same_subject b c \<Longrightarrow> same_subject a c"
  by (simp add: same_subject_def)

lemma frame_kept_trans: "frame_kept a b \<Longrightarrow> frame_kept b c \<Longrightarrow> frame_kept a c"
  by (auto simp: frame_kept_def start_kept_def dest: same_subject_trans)

lemma same_subject_scope: "same_subject e e' \<Longrightarrow> execution_scope e' = execution_scope e"
  by (simp add: same_subject_def execution_scope_def split: option.split)

lemmas rule_defs =
  expire_queued_def claim_candidate_def authorize_start_def interrupt_execution_def
  finish_execution_def cancel_execution_def resolve_execution_def recover_expired_claim_def
  keep_transition_def

lemmas rule_frame_simps =
  rule_defs bindE_Inr_iff mk_execution_ok frame_kept_def same_subject_def start_kept_def Let_def

lemma expire_queued_frame: "expire_queued e now = Inr x \<Longrightarrow> frame_kept e (x_execution x)"
  by (auto simp: rule_frame_simps)

lemma claim_candidate_frame: "claim_candidate e k now = Inr (Some x) \<Longrightarrow> frame_kept e (x_execution x)"
  by (auto simp: rule_frame_simps split: if_splits)

lemma authorize_start_frame:
  "authorize_start e k adm now d tok = Inr a \<Longrightarrow> frame_kept e (sa_execution a)"
  by (auto simp: rule_frame_simps split: if_splits)

lemma interrupt_execution_frame:
  "interrupt_execution e ids now = Inr x \<Longrightarrow> frame_kept e (x_execution x)"
  by (auto simp: rule_frame_simps split: if_splits option.splits)

lemma finish_execution_frame:
  "finish_execution e st now r c m = Inr x \<Longrightarrow> frame_kept e (x_execution x)"
  by (auto simp: rule_frame_simps split: if_splits)

lemma cancel_execution_frame: "cancel_execution e now = Inr x \<Longrightarrow> frame_kept e (x_execution x)"
  by (auto simp: rule_frame_simps split: if_splits)

lemma resolve_execution_frame:
  "resolve_execution e r reason now = Inr x \<Longrightarrow> frame_kept e (x_execution x)"
  by (auto simp: rule_frame_simps split: if_splits)

lemma recover_expired_claim_frame:
  "recover_expired_claim e k now = Inr x \<Longrightarrow> frame_kept e (x_execution x)"
  by (auto simp: rule_frame_simps split: if_splits)

lemmas rule_frames =
  expire_queued_frame claim_candidate_frame authorize_start_frame interrupt_execution_frame
  finish_execution_frame cancel_execution_frame resolve_execution_frame recover_expired_claim_frame

end
