(* ===== verification/Automation_Store.thy ===== *)
theory Automation_Store
  imports Automation_Rules
begin

text \<open>
  \<open>memory.py\<close>: the in-memory automation store, one definition per method. All methods run
  under one lock without yielding, so each is one step on the store record. The clock, the
  UUID source and the token source are not part of the store: every reading of the clock and
  every generated identifier is an argument of the operation that takes it (functions of a
  counter where a loop takes several). Deep copies (\<open>_snapshot\<close>) are the identity on values.
  Items of \<open>_work\<close> are mutable objects: they are addressed by their dictionary key, so an
  update through one reference is seen through every other.
\<close>

section \<open>State\<close>

record memory_store_limits =
  l_max_tasks :: int
  l_max_executions :: int
  l_max_work_items :: int
  l_max_operations :: int

definition mk_memory_store_limits ::
  "memory_store_limits \<Rightarrow> automation_error + memory_store_limits" where
  "mk_memory_store_limits l =
     (if l_max_tasks l < 1 then Inl (ValueError ''max_tasks must be at least 1'')
      else if l_max_executions l < 1 then Inl (ValueError ''max_executions must be at least 1'')
      else if l_max_work_items l < 1 then Inl (ValueError ''max_work_items must be at least 1'')
      else if l_max_operations l < 1 then Inl (ValueError ''max_operations must be at least 1'')
      else Inr l)"

datatype work_status = PENDING | CLAIMED | COMPLETED

record work_item =
  w_work_item_id :: string
  w_namespace :: string
  w_execution_id :: string
  w_kind :: work_kind
  w_available_at :: time
  w_created_at :: time
  w_status :: work_status
  w_worker_id :: "string option"
  w_claim_token :: "string option"
  w_fence :: int
  w_lease_until :: "time option"

datatype op_result = TaskResult automation_task | ExecutionResult automation_execution | TextResult string

record operation =
  o_input_digest :: string
  o_result :: op_result

type_synonym scope_key = "string \<times> string \<times> string"

record store =
  s_limits :: memory_store_limits
  s_tasks :: "(string, automation_task) dict"
  s_executions :: "(string, automation_execution) dict"
  s_occurrences :: "(string \<times> string, string) dict"
  s_work :: "(string, work_item) dict"
  s_work_keys :: "(string \<times> string \<times> work_kind, string) dict"
  s_operations :: "(string \<times> string \<times> string, operation) dict"
  s_scope_allocations :: "(scope_key, int) dict"
  s_admitted :: "string set"
  s_closed :: bool

type_synonym 'a store_outcome = "(automation_error, store, 'a) outcome"

definition init_store :: "memory_store_limits \<Rightarrow> store" where
  "init_store limits =
     \<lparr>s_limits = limits, s_tasks = [], s_executions = [], s_occurrences = [], s_work = [],
      s_work_keys = [], s_operations = [], s_scope_allocations = [], s_admitted = {},
      s_closed = False\<rparr>"

section \<open>Guards and lookups\<close>

definition validate_scope :: "string \<Rightarrow> string \<Rightarrow> automation_error + unit" where
  "validate_scope ns owner_id =
     bindE (validate_persisted_text ns ''namespace'' (Some 128)) (\<lambda>_.
     validate_persisted_text owner_id ''owner_id'' (Some 191))"

definition ensure_open :: "store \<Rightarrow> automation_error + unit" where
  "ensure_open s =
     require (\<not> s_closed s) (AutomationStoreError ''Memory Automation Store is closed'')"

definition ensure_capacity :: "nat \<Rightarrow> int \<Rightarrow> automation_error + unit" where
  "ensure_capacity current maximum =
     require (int current < maximum)
       (AutomationStoreError ''Memory Automation Store capacity is exhausted'')"

definition owned_task :: "store \<Rightarrow> string \<Rightarrow> string \<Rightarrow> string \<Rightarrow> automation_error + automation_task" where
  "owned_task s ns owner_id task_id =
     (case dget (s_tasks s) task_id of
        None \<Rightarrow> Inl (TaskNotFoundError ''Task was not found'')
      | Some t \<Rightarrow>
          if t_namespace t \<noteq> ns \<or> t_owner_id t \<noteq> owner_id
          then Inl (TaskNotFoundError ''Task was not found'') else Inr t)"

definition owned_execution ::
  "store \<Rightarrow> string \<Rightarrow> string \<Rightarrow> string \<Rightarrow> automation_error + automation_execution" where
  "owned_execution s ns owner_id execution_id =
     (case dget (s_executions s) execution_id of
        None \<Rightarrow> Inl (ExecutionNotFoundError ''Execution was not found'')
      | Some e \<Rightarrow>
          if e_namespace e \<noteq> ns \<or> e_owner_id e \<noteq> owner_id
          then Inl (ExecutionNotFoundError ''Execution was not found'') else Inr e)"

definition execution_of :: "store \<Rightarrow> string \<Rightarrow> automation_error + automation_execution" where
  "execution_of s execution_id =
     (case dget (s_executions s) execution_id of None \<Rightarrow> Inl (KeyError execution_id) | Some e \<Rightarrow> Inr e)"

definition operation_result ::
  "store \<Rightarrow> string \<Rightarrow> string \<Rightarrow> string option \<Rightarrow> string \<Rightarrow> automation_error + op_result option" where
  "operation_result s ns owner_id request_id input_digest =
     (case request_id of
        None \<Rightarrow> Inr None
      | Some r \<Rightarrow>
          (case dget (s_operations s) (ns, owner_id, r) of
             None \<Rightarrow> Inr None
           | Some op \<Rightarrow>
               if o_input_digest op \<noteq> input_digest
               then Inl (RequestConflictError ''Request ID was reused with different input'')
               else Inr (Some (o_result op))))"

definition require_operation_capacity :: "store \<Rightarrow> string option \<Rightarrow> automation_error + unit" where
  "require_operation_capacity s request_id =
     (if request_id \<noteq> None
      then ensure_capacity (length (s_operations s)) (l_max_operations (s_limits s)) else Inr ())"

definition save_operation ::
  "string \<Rightarrow> string \<Rightarrow> string option \<Rightarrow> string \<Rightarrow> op_result \<Rightarrow> store \<Rightarrow> unit store_outcome" where
  "save_operation ns owner_id request_id input_digest res s =
     (case request_id of
        None \<Rightarrow> (Inr (), s)
      | Some r \<Rightarrow>
          check (ensure_capacity (length (s_operations s)) (l_max_operations (s_limits s))) s (\<lambda>_.
          (Inr (), s\<lparr>s_operations :=
             dput (ns, owner_id, r) \<lparr>o_input_digest = input_digest, o_result = res\<rparr> (s_operations s)\<rparr>)))"

definition invalid_result :: automation_error where
  "invalid_result = AutomationStoreError ''Stored operation result has an invalid type''"

fun expect_task :: "op_result \<Rightarrow> automation_error + automation_task" where
  "expect_task (TaskResult t) = Inr t"
| "expect_task _ = Inl invalid_result"

fun expect_execution :: "op_result \<Rightarrow> automation_error + automation_execution" where
  "expect_execution (ExecutionResult e) = Inr e"
| "expect_execution _ = Inl invalid_result"

fun expect_text :: "op_result \<Rightarrow> automation_error + unit" where
  "expect_text (TextResult t) = Inr ()"
| "expect_text _ = Inl invalid_result"

section \<open>Work items, capacity scopes and transitions\<close>

definition complete_item :: "work_item \<Rightarrow> work_item" where
  "complete_item w =
     w\<lparr>w_status := COMPLETED, w_worker_id := None, w_claim_token := None, w_lease_until := None\<rparr>"

definition update_item :: "string \<Rightarrow> (work_item \<Rightarrow> work_item) \<Rightarrow> store \<Rightarrow> store" where
  "update_item k f s =
     (case dget (s_work s) k of None \<Rightarrow> s | Some w \<Rightarrow> s\<lparr>s_work := dput k (f w) (s_work s)\<rparr>)"

definition complete_execution_work :: "string \<Rightarrow> store \<Rightarrow> store" where
  "complete_execution_work execution_id s =
     s\<lparr>s_work := dmap (\<lambda>w. if w_execution_id w = execution_id then complete_item w else w) (s_work s)\<rparr>"

definition create_work ::
  "automation_execution \<Rightarrow> work_kind \<Rightarrow> time \<Rightarrow> string \<Rightarrow> time \<Rightarrow> store \<Rightarrow> unit store_outcome" where
  "create_work e kind available_at uuid now s =
     (let key = (e_namespace e, e_execution_id e, kind)
      in case dget (s_work_keys s) key of
           Some existing_id \<Rightarrow>
             (case dget (s_work s) existing_id of
                None \<Rightarrow> (Inl (KeyError existing_id), s)
              | Some w \<Rightarrow>
                  (Inr (), s\<lparr>s_work := dput existing_id
                     (w\<lparr>w_available_at := available_at, w_status := PENDING, w_worker_id := None,
                        w_claim_token := None, w_lease_until := None\<rparr>) (s_work s)\<rparr>))
         | None \<Rightarrow>
             check (ensure_capacity (length (s_work s)) (l_max_work_items (s_limits s))) s (\<lambda>_.
             (Inr (), s\<lparr>
                s_work := dput uuid
                  \<lparr>w_work_item_id = uuid, w_namespace = e_namespace e,
                   w_execution_id = e_execution_id e, w_kind = kind,
                   w_available_at = available_at, w_created_at = now, w_status = PENDING,
                   w_worker_id = None, w_claim_token = None, w_fence = 0, w_lease_until = None\<rparr>
                  (s_work s),
                s_work_keys := dput key uuid (s_work_keys s)\<rparr>)))"

definition allocated :: "store \<Rightarrow> scope_key \<Rightarrow> int" where
  "allocated s k = (case dget (s_scope_allocations s) k of None \<Rightarrow> 0 | Some n \<Rightarrow> n)"

definition global_key :: "automation_execution \<Rightarrow> scope_key" where
  "global_key e = (e_namespace e, ''global'', ''global'')"

definition scope_key_of :: "automation_execution \<Rightarrow> scope_key" where
  "scope_key_of e = (e_namespace e, execution_scope e)"

definition reserve_scopes :: "automation_execution \<Rightarrow> int \<Rightarrow> store \<Rightarrow> bool \<times> store" where
  "reserve_scopes e global_concurrency s =
     (if e_execution_id e \<in> s_admitted s then (True, s)
      else if allocated s (global_key e) \<ge> global_concurrency then (False, s)
      else if allocated s (scope_key_of e) \<ge> el_max_concurrent_runs (e_limits e) then (False, s)
      else
        let s1 = s\<lparr>s_scope_allocations :=
                dput (global_key e) (allocated s (global_key e) + 1) (s_scope_allocations s)\<rparr>;
            s2 = s1\<lparr>s_scope_allocations :=
                dput (scope_key_of e) (allocated s1 (scope_key_of e) + 1) (s_scope_allocations s1)\<rparr>
        in (True, s2\<lparr>s_admitted := insert (e_execution_id e) (s_admitted s2)\<rparr>))"

definition release_key :: "scope_key \<Rightarrow> store \<Rightarrow> store" where
  "release_key k s =
     (if allocated s k \<le> 1 then s\<lparr>s_scope_allocations := ddel k (s_scope_allocations s)\<rparr>
      else s\<lparr>s_scope_allocations := dput k (allocated s k - 1) (s_scope_allocations s)\<rparr>)"

definition release_scopes :: "automation_execution \<Rightarrow> store \<Rightarrow> store" where
  "release_scopes e s =
     (if e_execution_id e \<notin> s_admitted s then s
      else
        let s1 = release_key (scope_key_of e) (release_key (global_key e) s)
        in s1\<lparr>s_admitted := s_admitted s1 - {e_execution_id e}\<rparr>)"

definition complete_step :: "execution_transition \<Rightarrow> string option \<Rightarrow> store \<Rightarrow> unit store_outcome" where
  "complete_step x item s =
     (case x_complete_work x of
        CompleteAll \<Rightarrow> (Inr (), complete_execution_work (e_execution_id (x_execution x)) s)
      | CompleteCurrent \<Rightarrow>
          (case item of None \<Rightarrow> (Inl AssertionError, s)
           | Some k \<Rightarrow> (Inr (), update_item k complete_item s))
      | CompleteNone \<Rightarrow> (Inr (), s))"

definition apply_transition ::
  "execution_transition \<Rightarrow> string option \<Rightarrow> string \<Rightarrow> time \<Rightarrow> store \<Rightarrow> automation_execution store_outcome" where
  "apply_transition x item uuid now s =
     (let e = x_execution x
      in check
           (if x_deadline_work_at x \<noteq> None \<and>
               dget (s_work_keys s) (e_namespace e, e_execution_id e, EXPIRE_INTERRUPT) = None
            then ensure_capacity (length (s_work s)) (l_max_work_items (s_limits s)) else Inr ()) s (\<lambda>_.
         and_then (complete_step x item (s\<lparr>s_executions := dput (e_execution_id e) e (s_executions s)\<rparr>)) (\<lambda>_ s2.
         let s3 = (if x_release_capacity x then release_scopes e s2 else s2)
         in case x_deadline_work_at x of
              None \<Rightarrow> (Inr e, s3)
            | Some d \<Rightarrow> and_then (create_work e EXPIRE_INTERRUPT d uuid now s3) (\<lambda>_ s4. (Inr e, s4)))))"

section \<open>Tasks\<close>

definition store_setup :: "store \<Rightarrow> unit store_outcome" where
  "store_setup s = (ensure_open s, s)"

definition store_current_time :: "time \<Rightarrow> store \<Rightarrow> time store_outcome" where
  "store_current_time now s = check (ensure_open s) s (\<lambda>_. (Inr now, s))"

definition store_create_task ::
  "automation_task \<Rightarrow> string option \<Rightarrow> string \<Rightarrow> store \<Rightarrow> automation_task store_outcome" where
  "store_create_task task request_id input_digest s =
     check (ensure_open s) s (\<lambda>_.
     check (operation_result s (t_namespace task) (t_owner_id task) request_id input_digest) s (\<lambda>previous.
     case previous of
       Some p \<Rightarrow> (expect_task p, s)
     | None \<Rightarrow>
         check (require (dget (s_tasks s) (t_task_id task) = None)
           (TaskConflictError ''Task identity already exists'')) s (\<lambda>_.
         check (ensure_capacity (length (s_tasks s)) (l_max_tasks (s_limits s))) s (\<lambda>_.
         check (require_operation_capacity s request_id) s (\<lambda>_.
         and_then (save_operation (t_namespace task) (t_owner_id task) request_id input_digest
             (TaskResult task) (s\<lparr>s_tasks := dput (t_task_id task) task (s_tasks s)\<rparr>)) (\<lambda>_ s'.
         (Inr task, s')))))))"

definition store_update_task ::
  "automation_task \<Rightarrow> int \<Rightarrow> string option \<Rightarrow> string \<Rightarrow> store \<Rightarrow> automation_task store_outcome" where
  "store_update_task task expected_revision request_id input_digest s =
     check (ensure_open s) s (\<lambda>_.
     check (operation_result s (t_namespace task) (t_owner_id task) request_id input_digest) s (\<lambda>previous.
     case previous of
       Some p \<Rightarrow> (expect_task p, s)
     | None \<Rightarrow>
         check (owned_task s (t_namespace task) (t_owner_id task) (t_task_id task)) s (\<lambda>current.
         check (require (t_revision current = expected_revision)
           (TaskConflictError ''Task revision changed'')) s (\<lambda>_.
         check (require (t_revision task = expected_revision + 1)
           (TaskConflictError ''Replacement task must advance revision exactly once'')) s (\<lambda>_.
         check (require_operation_capacity s request_id) s (\<lambda>_.
         and_then (save_operation (t_namespace task) (t_owner_id task) request_id input_digest
             (TaskResult task) (s\<lparr>s_tasks := dput (t_task_id task) task (s_tasks s)\<rparr>)) (\<lambda>_ s'.
         (Inr task, s'))))))))"

fun cancel_queued :: "string \<Rightarrow> time \<Rightarrow> automation_execution list \<Rightarrow> store \<Rightarrow> unit store_outcome" where
  "cancel_queued task_id now [] s = (Inr (), s)"
| "cancel_queued task_id now (e # es) s =
     (if e_task_id e \<noteq> Some task_id \<or> e_status e \<noteq> QUEUED then cancel_queued task_id now es s
      else
        check (cancel_execution e now) s (\<lambda>x.
        and_then (apply_transition x None [] now s) (\<lambda>_ s'. cancel_queued task_id now es s')))"

definition store_delete_task ::
  "string \<Rightarrow> string \<Rightarrow> string \<Rightarrow> int \<Rightarrow> string option \<Rightarrow> string \<Rightarrow> time \<Rightarrow> store \<Rightarrow> unit store_outcome" where
  "store_delete_task ns owner_id task_id expected_revision request_id input_digest now s =
     check (validate_scope ns owner_id) s (\<lambda>_.
     check (ensure_open s) s (\<lambda>_.
     check (operation_result s ns owner_id request_id input_digest) s (\<lambda>previous.
     case previous of
       Some p \<Rightarrow> (expect_text p, s)
     | None \<Rightarrow>
         check (owned_task s ns owner_id task_id) s (\<lambda>task.
         check (require (t_revision task = expected_revision)
           (TaskConflictError ''Task revision changed'')) s (\<lambda>_.
         check (require_operation_capacity s request_id) s (\<lambda>_.
         and_then (cancel_queued task_id now (dvalues (s_executions s))
             (s\<lparr>s_tasks := ddel task_id (s_tasks s)\<rparr>)) (\<lambda>_ s'.
         save_operation ns owner_id request_id input_digest (TextResult task_id) s')))))))"

definition store_get_task ::
  "string \<Rightarrow> string \<Rightarrow> string \<Rightarrow> store \<Rightarrow> automation_task store_outcome" where
  "store_get_task ns owner_id task_id s =
     check (validate_scope ns owner_id) s (\<lambda>_.
     check (ensure_open s) s (\<lambda>_. (owned_task s ns owner_id task_id, s)))"

definition validate_page_limit :: "int \<Rightarrow> automation_error + unit" where
  "validate_page_limit limit =
     require (1 \<le> limit \<and> limit \<le> 100) (ValueError ''limit must be between 1 and 100'')"

definition page_after :: "('a \<Rightarrow> string) \<Rightarrow> 'a list \<Rightarrow> string option \<Rightarrow> int \<Rightarrow> 'a list" where
  "page_after item_id items cursor limit =
     (case cursor of
        None \<Rightarrow> take (nat (limit + 1)) items
      | Some c \<Rightarrow>
          (case dropWhile (\<lambda>x. item_id x \<noteq> c) items of
             [] \<Rightarrow> []
           | _ # rest \<Rightarrow> take (nat (limit + 1)) rest))"

definition page_of :: "('a \<Rightarrow> string) \<Rightarrow> 'a list \<Rightarrow> int \<Rightarrow> 'a page" where
  "page_of item_id xs limit =
     \<lparr>pg_items = take (nat limit) xs,
      pg_next_cursor =
        (if int (length xs) > limit then Some (item_id (xs ! nat (limit - 1))) else None)\<rparr>"

definition store_list_tasks ::
  "string \<Rightarrow> string \<Rightarrow> int \<Rightarrow> string option \<Rightarrow> store \<Rightarrow> automation_task page store_outcome" where
  "store_list_tasks ns owner_id limit cursor s =
     check (validate_scope ns owner_id) s (\<lambda>_.
     check (validate_page_limit limit) s (\<lambda>_.
     check (ensure_open s) s (\<lambda>_.
     let items = sort_key (\<lambda>t. (t_created_at t, t_task_id t))
           (filter (\<lambda>t. t_namespace t = ns \<and> t_owner_id t = owner_id) (dvalues (s_tasks s)))
     in (Inr (page_of t_task_id (page_after t_task_id items cursor limit) limit), s))))"

definition store_get_scheduled_task :: "string \<Rightarrow> string \<Rightarrow> store \<Rightarrow> automation_task store_outcome" where
  "store_get_scheduled_task ns task_id s =
     check (validate_persisted_text ns ''namespace'' (Some 128)) s (\<lambda>_.
     check (ensure_open s) s (\<lambda>_.
     case dget (s_tasks s) task_id of
       None \<Rightarrow> (Inl (TaskNotFoundError ''Task was not found''), s)
     | Some t \<Rightarrow>
         if t_namespace t \<noteq> ns then (Inl (TaskNotFoundError ''Task was not found''), s)
         else (Inr t, s)))"

definition store_list_scheduled_tasks ::
  "string \<Rightarrow> int \<Rightarrow> string option \<Rightarrow> store \<Rightarrow> automation_task page store_outcome" where
  "store_list_scheduled_tasks ns limit cursor s =
     check (validate_persisted_text ns ''namespace'' (Some 128)) s (\<lambda>_.
     check (validate_page_limit limit) s (\<lambda>_.
     check (ensure_open s) s (\<lambda>_.
     let items = sort_key (\<lambda>t. (t_created_at t, t_task_id t))
           (filter (\<lambda>t. t_namespace t = ns \<and> t_status t = ENABLED) (dvalues (s_tasks s)))
     in (Inr (page_of t_task_id (page_after t_task_id items cursor limit) limit), s))))"

section \<open>Executions\<close>

fun create_pending ::
  "string \<Rightarrow> (nat \<Rightarrow> string) \<Rightarrow> (nat \<Rightarrow> time) \<Rightarrow> nat \<Rightarrow> scheduled_execution list \<Rightarrow> store \<Rightarrow>
   unit store_outcome" where
  "create_pending ns uuids clock i [] s = (Inr (), s)"
| "create_pending ns uuids clock i (item # items) s =
     (let e = se_execution item
      in and_then (create_work e EXECUTE (e_queued_at e) (uuids i) (clock i)
           (s\<lparr>s_executions := dput (e_execution_id e) e (s_executions s),
              s_occurrences := dput (ns, se_occurrence_key item) (e_execution_id e) (s_occurrences s)\<rparr>)) (\<lambda>_ s'.
         create_pending ns uuids clock (Suc i) items s'))"

definition materialize_pending ::
  "automation_task \<Rightarrow> scheduled_execution list \<Rightarrow> store \<Rightarrow> scheduled_execution list" where
  "materialize_pending task executions s =
     pending_occurrences executions {k. (t_namespace task, k) \<in> set (dkeys (s_occurrences s))}"

definition store_materialize_task ::
  "automation_task \<Rightarrow> time \<Rightarrow> scheduled_execution list \<Rightarrow> (nat \<Rightarrow> string) \<Rightarrow> (nat \<Rightarrow> time) \<Rightarrow> store \<Rightarrow>
   materialization_result store_outcome" where
  "store_materialize_task task expected_next_run_at executions uuids clock s =
     check (ensure_open s) s (\<lambda>_.
     check (owned_task s (t_namespace task) (t_owner_id task) (t_task_id task)) s (\<lambda>current.
     if \<not> materialization_is_current current task expected_next_run_at
     then (Inr \<lparr>mr_task = current, mr_executions = []\<rparr>, s)
     else
       let pending = materialize_pending task executions s;
           queued = count_if (\<lambda>e. e_task_id e = Some (t_task_id task) \<and> e_status e = QUEUED)
             (dvalues (s_executions s))
       in check (require_queue_capacity queued (int (length pending))
              (el_max_queued_runs (t_limits task)) (t_task_id task)) s (\<lambda>_.
          check (require (int (length (s_executions s) + length pending) \<le> l_max_executions (s_limits s))
              (AutomationStoreError ''Memory Automation Store capacity is exhausted'')) s (\<lambda>_.
          check (require (int (length (s_work s) + length pending) \<le> l_max_work_items (s_limits s))
              (AutomationStoreError ''Memory Automation Store capacity is exhausted'')) s (\<lambda>_.
          and_then (create_pending (t_namespace task) uuids clock 0 pending
              (s\<lparr>s_tasks := dput (t_task_id task) task (s_tasks s)\<rparr>)) (\<lambda>_ s'.
          (Inr \<lparr>mr_task = task, mr_executions = map se_execution pending\<rparr>, s')))))))"

definition enqueue_task_guard ::
  "automation_execution \<Rightarrow> int option \<Rightarrow> store \<Rightarrow> automation_error + unit" where
  "enqueue_task_guard e expected_task_revision s =
     (case (e_retry_of e, e_task_id e) of
        (None, Some t) \<Rightarrow>
          bindE (owned_task s (e_namespace e) (e_owner_id e) t)
            (\<lambda>task. require_task_revision task expected_task_revision)
      | _ \<Rightarrow>
          require (expected_task_revision = None)
            (ValueError ''expected_task_revision requires new task-backed work''))"

definition store_enqueue_execution ::
  "automation_execution \<Rightarrow> string \<Rightarrow> string option \<Rightarrow> string \<Rightarrow> int option \<Rightarrow> string \<Rightarrow> time \<Rightarrow> store \<Rightarrow>
   automation_execution store_outcome" where
  "store_enqueue_execution e occurrence_key request_id input_digest expected_task_revision uuid now s =
     check (ensure_open s) s (\<lambda>_.
     check (operation_result s (e_namespace e) (e_owner_id e) request_id input_digest) s (\<lambda>previous.
     case previous of
       Some p \<Rightarrow> (expect_execution p, s)
     | None \<Rightarrow>
         (case dget (s_occurrences s) (e_namespace e, occurrence_key) of
            Some existing_id \<Rightarrow> (execution_of s existing_id, s)
          | None \<Rightarrow>
              check (require (e_status e = QUEUED) (ValueError ''new execution status must be queued'')) s (\<lambda>_.
              check (require (dget (s_executions s) (e_execution_id e) = None)
                (RequestConflictError ''Execution identity already exists'')) s (\<lambda>_.
              check (enqueue_task_guard e expected_task_revision s) s (\<lambda>_.
              check (require_queue_capacity
                  (count_if (\<lambda>i. same_execution_scope i e \<and> e_status i = QUEUED) (dvalues (s_executions s)))
                  1 (el_max_queued_runs (e_limits e))
                  (case e_task_id e of None \<Rightarrow> e_owner_id e | Some t \<Rightarrow> if t = [] then e_owner_id e else t)) s (\<lambda>_.
              check (ensure_capacity (length (s_executions s)) (l_max_executions (s_limits s))) s (\<lambda>_.
              check (require_operation_capacity s request_id) s (\<lambda>_.
              check (ensure_capacity (length (s_work s)) (l_max_work_items (s_limits s))) s (\<lambda>_.
              and_then (create_work e EXECUTE (e_queued_at e) uuid now
                  (s\<lparr>s_executions := dput (e_execution_id e) e (s_executions s),
                     s_occurrences := dput (e_namespace e, occurrence_key) (e_execution_id e)
                       (s_occurrences s)\<rparr>)) (\<lambda>_ s1.
              and_then (save_operation (e_namespace e) (e_owner_id e) request_id input_digest
                  (ExecutionResult e) s1) (\<lambda>_ s2.
              (Inr e, s2)))))))))))))"

definition store_get_execution ::
  "string \<Rightarrow> string \<Rightarrow> string \<Rightarrow> store \<Rightarrow> automation_execution store_outcome" where
  "store_get_execution ns owner_id execution_id s =
     check (validate_scope ns owner_id) s (\<lambda>_.
     check (ensure_open s) s (\<lambda>_. (owned_execution s ns owner_id execution_id, s)))"

definition store_get_scheduled_execution ::
  "string \<Rightarrow> string \<Rightarrow> store \<Rightarrow> automation_execution store_outcome" where
  "store_get_scheduled_execution ns execution_id s =
     check (validate_persisted_text ns ''namespace'' (Some 128)) s (\<lambda>_.
     check (ensure_open s) s (\<lambda>_.
     case dget (s_executions s) execution_id of
       None \<Rightarrow> (Inl (ExecutionNotFoundError ''Execution was not found''), s)
     | Some e \<Rightarrow>
         if e_namespace e \<noteq> ns then (Inl (ExecutionNotFoundError ''Execution was not found''), s)
         else (Inr e, s)))"

definition store_list_executions ::
  "string \<Rightarrow> string \<Rightarrow> string option \<Rightarrow> int \<Rightarrow> string option \<Rightarrow> store \<Rightarrow>
   automation_execution page store_outcome" where
  "store_list_executions ns owner_id task_id limit cursor s =
     check (validate_scope ns owner_id) s (\<lambda>_.
     check (validate_page_limit limit) s (\<lambda>_.
     check (ensure_open s) s (\<lambda>_.
     let items = rev (sort_key (\<lambda>e. (e_queued_at e, e_execution_id e))
           (rev (filter (\<lambda>e. e_namespace e = ns \<and> e_owner_id e = owner_id \<and>
               (task_id = None \<or> e_task_id e = task_id)) (dvalues (s_executions s)))))
     in (Inr (page_of e_execution_id (page_after e_execution_id items cursor limit) limit), s))))"

section \<open>Claims\<close>

definition recover_item :: "complete_work \<Rightarrow> work_item \<Rightarrow> work_item" where
  "recover_item c w =
     (if c = CompleteNone then w\<lparr>w_status := PENDING\<rparr> else w)
       \<lparr>w_worker_id := None, w_claim_token := None, w_lease_until := None\<rparr>"

definition claim_expired :: "string \<Rightarrow> time \<Rightarrow> work_item \<Rightarrow> bool" where
  "claim_expired ns now w \<longleftrightarrow>
     w_namespace w = ns \<and> w_status w = CLAIMED \<and>
     (case w_lease_until w of None \<Rightarrow> False | Some l \<Rightarrow> l \<le> now)"

fun recover_expired_claims :: "string \<Rightarrow> time \<Rightarrow> string list \<Rightarrow> store \<Rightarrow> unit store_outcome" where
  "recover_expired_claims ns now [] s = (Inr (), s)"
| "recover_expired_claims ns now (k # ks) s =
     (case dget (s_work s) k of
        None \<Rightarrow> recover_expired_claims ns now ks s
      | Some w \<Rightarrow>
          if claim_expired ns now w then
            check (execution_of s (w_execution_id w)) s (\<lambda>e.
            check (recover_expired_claim e (w_kind w) now) s (\<lambda>x.
            and_then (apply_transition x (Some k) [] now s) (\<lambda>_ s'.
            recover_expired_claims ns now ks (update_item k (recover_item (x_complete_work x)) s'))))
          else recover_expired_claims ns now ks s)"

definition claim_from :: "work_item \<Rightarrow> automation_error + work_item_claim" where
  "claim_from w =
     (case (w_claim_token w, w_lease_until w) of
        (Some tok, Some l) \<Rightarrow>
          Inr \<lparr>c_work_item_id = w_work_item_id w, c_namespace = w_namespace w,
               c_execution_id = w_execution_id w, c_kind = w_kind w, c_claim_token = tok,
               c_fence = w_fence w, c_lease_until = l\<rparr>
      | _ \<Rightarrow> Inl AssertionError)"

definition claim_item :: "string \<Rightarrow> string \<Rightarrow> time \<Rightarrow> work_item \<Rightarrow> work_item" where
  "claim_item worker_id claim_token lease_until w =
     w\<lparr>w_status := CLAIMED, w_worker_id := Some worker_id, w_claim_token := Some claim_token,
       w_fence := w_fence w + 1, w_lease_until := Some lease_until\<rparr>"

definition claim_candidates :: "string \<Rightarrow> time \<Rightarrow> store \<Rightarrow> string list" where
  "claim_candidates ns now s =
     map fst (sort_key (\<lambda>(k, w). (w_available_at w, w_created_at w, w_work_item_id w))
       (filter (\<lambda>(k, w). w_namespace w = ns \<and> w_status w = PENDING \<and> w_available_at w \<le> now) (s_work s)))"

fun claim_loop ::
  "string \<Rightarrow> nat \<Rightarrow> duration \<Rightarrow> int \<Rightarrow> time \<Rightarrow> (nat \<Rightarrow> string) \<Rightarrow> work_item_claim list \<Rightarrow> string list \<Rightarrow>
   store \<Rightarrow> work_item_claim list store_outcome" where
  "claim_loop worker_id limit lease_duration gc now tokens claims [] s = (Inr claims, s)"
| "claim_loop worker_id limit lease_duration gc now tokens claims (k # ks) s =
     (if limit \<le> length claims then (Inr claims, s)
      else case dget (s_work s) k of
        None \<Rightarrow> claim_loop worker_id limit lease_duration gc now tokens claims ks s
      | Some w \<Rightarrow>
          check (execution_of s (w_execution_id w)) s (\<lambda>e.
          check (claim_candidate e (w_kind w) now) s (\<lambda>transition.
          case transition of
            Some x \<Rightarrow>
              and_then (apply_transition x (Some k) [] now s) (\<lambda>_ s'.
              claim_loop worker_id limit lease_duration gc now tokens claims ks s')
          | None \<Rightarrow>
              (case (if w_kind w = EXECUTE then reserve_scopes e gc s else (True, s)) of (granted, s1) \<Rightarrow>
                 if \<not> granted then claim_loop worker_id limit lease_duration gc now tokens claims ks s1
                 else
                   let w' = claim_item worker_id (tokens (length claims)) (now + lease_duration) w;
                       s2 = s1\<lparr>s_work := dput k w' (s_work s1)\<rparr>
                   in check (claim_from w') s2 (\<lambda>c.
                      claim_loop worker_id limit lease_duration gc now tokens (claims @ [c]) ks s2)))))"

definition store_claim_work ::
  "string \<Rightarrow> string \<Rightarrow> int \<Rightarrow> duration \<Rightarrow> int \<Rightarrow> time \<Rightarrow> (nat \<Rightarrow> string) \<Rightarrow> store \<Rightarrow>
   work_item_claim list store_outcome" where
  "store_claim_work ns worker_id limit lease_duration gc now tokens s =
     check (validate_persisted_text ns ''namespace'' (Some 128)) s (\<lambda>_.
     check (validate_persisted_text worker_id ''worker_id'' (Some 191)) s (\<lambda>_.
     check (require (1 \<le> limit) (ValueError ''limit must be at least 1'')) s (\<lambda>_.
     check (require (0 < lease_duration) (ValueError ''lease_duration must be positive'')) s (\<lambda>_.
     check (require (1 \<le> gc) (ValueError ''global_concurrency must be at least 1'')) s (\<lambda>_.
     check (ensure_open s) s (\<lambda>_.
     and_then (recover_expired_claims ns now (dkeys (s_work s)) s) (\<lambda>_ s1.
     claim_loop worker_id (nat limit) lease_duration gc now tokens [] (claim_candidates ns now s1) s1)))))))"

definition claim_matches :: "work_item_claim \<Rightarrow> time \<Rightarrow> work_item \<Rightarrow> bool" where
  "claim_matches c now w \<longleftrightarrow>
     w_namespace w = c_namespace c \<and> w_execution_id w = c_execution_id c \<and> w_status w = CLAIMED \<and>
     w_claim_token w = Some (c_claim_token c) \<and> w_fence w = c_fence c \<and>
     (case w_lease_until w of None \<Rightarrow> False | Some l \<Rightarrow> now < l)"

definition valid_claim :: "store \<Rightarrow> work_item_claim \<Rightarrow> time \<Rightarrow> automation_error + work_item" where
  "valid_claim s c now =
     bindE (ensure_open s) (\<lambda>_.
     case dget (s_work s) (c_work_item_id c) of
       None \<Rightarrow> Inl (ClaimLostError ''Work item claim is no longer valid'')
     | Some w \<Rightarrow>
         if claim_matches c now w then Inr w
         else Inl (ClaimLostError ''Work item claim is no longer valid''))"

definition store_renew_claim ::
  "work_item_claim \<Rightarrow> duration \<Rightarrow> time \<Rightarrow> time \<Rightarrow> store \<Rightarrow> work_item_claim store_outcome" where
  "store_renew_claim c lease_duration t0 t1 s =
     check (require (0 < lease_duration) (ValueError ''lease_duration must be positive'')) s (\<lambda>_.
     check (valid_claim s c t0) s (\<lambda>w.
     let w' = w\<lparr>w_lease_until := Some (t1 + lease_duration)\<rparr>;
         s' = s\<lparr>s_work := dput (c_work_item_id c) w' (s_work s)\<rparr>
     in (claim_from w', s')))"

definition store_authorize_start ::
  "work_item_claim \<Rightarrow> duration \<Rightarrow> time \<Rightarrow> time \<Rightarrow> string \<Rightarrow> store \<Rightarrow> start_authorization store_outcome" where
  "store_authorize_start c execution_timeout t0 t1 start_token s =
     check (require (0 < execution_timeout) (ValueError ''execution_timeout must be positive'')) s (\<lambda>_.
     check (valid_claim s c t0) s (\<lambda>w.
     check (execution_of s (w_execution_id w)) s (\<lambda>e.
     check (authorize_start e (w_kind w) (e_execution_id e \<in> s_admitted s) t1 execution_timeout
        start_token) s (\<lambda>a.
     (Inr a, s\<lparr>s_executions := dput (e_execution_id e) (sa_execution a) (s_executions s)\<rparr>)))))"

definition store_mark_interrupted ::
  "work_item_claim \<Rightarrow> string list \<Rightarrow> time \<Rightarrow> time \<Rightarrow> time \<Rightarrow> string \<Rightarrow> store \<Rightarrow> automation_execution store_outcome" where
  "store_mark_interrupted c interrupt_ids t0 t1 t2 uuid s =
     check (require (interrupt_ids \<noteq> []) (ValueError ''interrupt_ids must not be empty'')) s (\<lambda>_.
     check (valid_claim s c t0) s (\<lambda>w.
     check (execution_of s (w_execution_id w)) s (\<lambda>e.
     check (interrupt_execution e interrupt_ids t1) s (\<lambda>x.
     apply_transition x (Some (c_work_item_id c)) uuid t2 s))))"

definition store_finish_execution ::
  "work_item_claim \<Rightarrow> execution_status \<Rightarrow> pyobj \<Rightarrow> string option \<Rightarrow> string option \<Rightarrow> time \<Rightarrow> time \<Rightarrow> store \<Rightarrow>
   automation_execution store_outcome" where
  "store_finish_execution c status res failure_code failure_message t0 t1 s =
     check (require (is_terminal status \<or> status = NEEDS_ATTENTION)
        (ValueError ''finish status must be terminal or needs_attention'')) s (\<lambda>_.
     check (valid_claim s c t0) s (\<lambda>w.
     check (execution_of s (w_execution_id w)) s (\<lambda>e.
     check (finish_execution e status t1 res failure_code failure_message) s (\<lambda>x.
     apply_transition x (Some (c_work_item_id c)) [] t1 s))))"

definition store_cancel_execution ::
  "string \<Rightarrow> string \<Rightarrow> string \<Rightarrow> string option \<Rightarrow> string \<Rightarrow> time \<Rightarrow> store \<Rightarrow> automation_execution store_outcome" where
  "store_cancel_execution ns owner_id execution_id request_id input_digest now s =
     check (validate_scope ns owner_id) s (\<lambda>_.
     check (ensure_open s) s (\<lambda>_.
     check (operation_result s ns owner_id request_id input_digest) s (\<lambda>previous.
     case previous of
       Some p \<Rightarrow> (expect_execution p, s)
     | None \<Rightarrow>
         check (owned_execution s ns owner_id execution_id) s (\<lambda>e.
         check (cancel_execution e now) s (\<lambda>x.
         check (require_operation_capacity s request_id) s (\<lambda>_.
         and_then (apply_transition x None [] now s) (\<lambda>updated s1.
         and_then (save_operation ns owner_id request_id input_digest (ExecutionResult updated) s1) (\<lambda>_ s2.
         (Inr updated, s2)))))))))"

definition store_resolve_execution ::
  "string \<Rightarrow> string \<Rightarrow> string \<Rightarrow> attention_resolution \<Rightarrow> string \<Rightarrow> string \<Rightarrow> string \<Rightarrow> time \<Rightarrow> store \<Rightarrow>
   automation_execution store_outcome" where
  "store_resolve_execution ns owner_id execution_id resolution request_id input_digest reason now s =
     check (validate_scope ns owner_id) s (\<lambda>_.
     check (validate_persisted_text reason ''reason'' None) s (\<lambda>_.
     check (ensure_open s) s (\<lambda>_.
     check (operation_result s ns owner_id (Some request_id) input_digest) s (\<lambda>previous.
     case previous of
       Some p \<Rightarrow> (expect_execution p, s)
     | None \<Rightarrow>
         check (owned_execution s ns owner_id execution_id) s (\<lambda>e.
         check (resolve_execution e resolution reason now) s (\<lambda>x.
         check (require_operation_capacity s (Some request_id)) s (\<lambda>_.
         and_then (apply_transition x None [] now s) (\<lambda>updated s1.
         and_then (save_operation ns owner_id (Some request_id) input_digest (ExecutionResult updated) s1) (\<lambda>_ s2.
         (Inr updated, s2))))))))))"

definition store_close :: "store \<Rightarrow> unit store_outcome" where
  "store_close s = (Inr (), s\<lparr>s_closed := True\<rparr>)"

end
