(* ===== verification/Automation_Store_Inv.thy ===== *)
theory Automation_Store_Inv
  imports Automation_Store
begin

text \<open>
  What the in-memory automation store keeps true: how work items, keys and executions are
  linked, and the lifecycle table that relates the status of an execution to its work items,
  its start authorization and its admission. Every mutation of the store touches one
  execution; \<open>local_to\<close> says so, and the table is then re-established for that one only.
\<close>

section \<open>The invariant\<close>

definition work_of :: "store \<Rightarrow> automation_execution \<Rightarrow> work_kind \<Rightarrow> work_item option" where
  "work_of s e kind =
     (case dget (s_work_keys s) (e_namespace e, e_execution_id e, kind) of
        None \<Rightarrow> None | Some k \<Rightarrow> dget (s_work s) k)"

definition item_key :: "work_item \<Rightarrow> string \<times> string \<times> work_kind" where
  "item_key w = (w_namespace w, w_execution_id w, w_kind w)"

definition item_wf :: "work_item \<Rightarrow> bool" where
  "item_wf w \<longleftrightarrow>
     0 \<le> w_fence w \<and>
     (w_claim_token w \<noteq> None \<longleftrightarrow> w_status w = CLAIMED) \<and>
     (w_worker_id w \<noteq> None \<longleftrightarrow> w_status w = CLAIMED) \<and>
     (w_lease_until w \<noteq> None \<longleftrightarrow> w_status w = CLAIMED)"

definition ids_inv :: "store \<Rightarrow> bool" where
  "ids_inv s \<longleftrightarrow>
     dwf (s_tasks s) \<and> dwf (s_executions s) \<and> dwf (s_work s) \<and> dwf (s_work_keys s) \<and>
     (\<forall>k t. dget (s_tasks s) k = Some t \<longrightarrow> t_task_id t = k) \<and>
     (\<forall>k e. dget (s_executions s) k = Some e \<longrightarrow> e_execution_id e = k \<and> valid_execution e)"

definition item_linked :: "store \<Rightarrow> string \<Rightarrow> work_item \<Rightarrow> bool" where
  "item_linked s k w \<longleftrightarrow>
     w_work_item_id w = k \<and> item_wf w \<and> dget (s_work_keys s) (item_key w) = Some k \<and>
     (\<exists>e. dget (s_executions s) (w_execution_id w) = Some e \<and> e_namespace e = w_namespace w)"

definition items_inv :: "store \<Rightarrow> bool" where
  "items_inv s \<longleftrightarrow> (\<forall>k w. dget (s_work s) k = Some w \<longrightarrow> item_linked s k w)"

definition keys_inv :: "store \<Rightarrow> bool" where
  "keys_inv s \<longleftrightarrow>
     (\<forall>key k. dget (s_work_keys s) key = Some k \<longrightarrow>
        (\<exists>w. dget (s_work s) k = Some w \<and> item_key w = key))"

definition occurrences_inv :: "store \<Rightarrow> bool" where
  "occurrences_inv s \<longleftrightarrow>
     (\<forall>key i. dget (s_occurrences s) key = Some i \<longrightarrow> (\<exists>e. dget (s_executions s) i = Some e))"

definition link_inv :: "store \<Rightarrow> bool" where
  "link_inv s \<longleftrightarrow> ids_inv s \<and> items_inv s \<and> keys_inv s \<and> occurrences_inv s"

definition active :: "work_item option \<Rightarrow> bool" where
  "active w \<longleftrightarrow> (\<exists>i. w = Some i \<and> w_status i \<noteq> COMPLETED)"

definition claimed :: "work_item option \<Rightarrow> bool" where
  "claimed w \<longleftrightarrow> (\<exists>i. w = Some i \<and> w_status i = CLAIMED)"

definition started :: "automation_execution \<Rightarrow> bool" where
  "started e \<longleftrightarrow> e_start_authorized_at e \<noteq> None"

text \<open>
  The lifecycle table: \<open>exec_ok e admitted x d\<close> relates an execution to its executable work
  item \<open>x\<close> and its deadline work item \<open>d\<close>.
\<close>

fun status_ok :: "execution_status \<Rightarrow> bool \<Rightarrow> bool \<Rightarrow> work_item option \<Rightarrow> work_item option \<Rightarrow> bool" where
  "status_ok QUEUED st adm x d \<longleftrightarrow> \<not> st \<and> active x \<and> d = None"
| "status_ok RUNNING st adm x d \<longleftrightarrow> st \<and> claimed x \<and> d = None"
| "status_ok CANCEL_REQUESTED st adm x d \<longleftrightarrow> st \<and> claimed x \<and> d = None"
| "status_ok INTERRUPTED st adm x d \<longleftrightarrow> st \<and> adm \<and> \<not> active x \<and> active d"
| "status_ok NEEDS_ATTENTION st adm x d \<longleftrightarrow> adm \<and> \<not> active x \<and> \<not> active d"
| "status_ok _ st adm x d \<longleftrightarrow> \<not> adm \<and> \<not> active x \<and> \<not> active d"

definition exec_ok ::
  "automation_execution \<Rightarrow> bool \<Rightarrow> work_item option \<Rightarrow> work_item option \<Rightarrow> bool" where
  "exec_ok e adm x d \<longleftrightarrow>
     x \<noteq> None \<and>
     (e_execution_deadline e \<noteq> None \<longleftrightarrow> started e) \<and>
     (e_finished_at e \<noteq> None \<longleftrightarrow> is_terminal (e_status e)) \<and>
     (claimed x \<longrightarrow> adm) \<and>
     status_ok (e_status e) (started e) adm x d"

definition exec_ok_at :: "store \<Rightarrow> automation_execution \<Rightarrow> bool" where
  "exec_ok_at s e \<longleftrightarrow>
     exec_ok e (e_execution_id e \<in> s_admitted s) (work_of s e EXECUTE) (work_of s e EXPIRE_INTERRUPT)"

definition life_inv :: "store \<Rightarrow> bool" where
  "life_inv s \<longleftrightarrow> (\<forall>k e. dget (s_executions s) k = Some e \<longrightarrow> exec_ok_at s e)"

text \<open>Capacity accounting: every counter is the number of admitted executions in its scope.\<close>

definition scope_keys :: "automation_execution \<Rightarrow> scope_key set" where
  "scope_keys e = {global_key e, scope_key_of e}"

definition holders :: "store \<Rightarrow> scope_key \<Rightarrow> string set" where
  "holders s k = {i \<in> s_admitted s. \<exists>e. dget (s_executions s) i = Some e \<and> k \<in> scope_keys e}"

definition scope_inv :: "store \<Rightarrow> bool" where
  "scope_inv s \<longleftrightarrow>
     finite (s_admitted s) \<and>
     (\<forall>i \<in> s_admitted s. dget (s_executions s) i \<noteq> None) \<and>
     (\<forall>k. allocated s k = int (card (holders s k)))"

definition size_inv :: "store \<Rightarrow> bool" where
  "size_inv s \<longleftrightarrow>
     int (length (s_tasks s)) \<le> l_max_tasks (s_limits s) \<and>
     int (length (s_executions s)) \<le> l_max_executions (s_limits s) \<and>
     int (length (s_work s)) \<le> l_max_work_items (s_limits s) \<and>
     int (length (s_operations s)) \<le> l_max_operations (s_limits s)"

definition store_inv :: "store \<Rightarrow> bool" where
  "store_inv s \<longleftrightarrow> link_inv s \<and> life_inv s \<and> scope_inv s \<and> size_inv s"

section \<open>Locality\<close>

definition local_to :: "string \<Rightarrow> store \<Rightarrow> store \<Rightarrow> bool" where
  "local_to i s s' \<longleftrightarrow>
     s_limits s' = s_limits s \<and>
     (\<forall>j. j \<noteq> i \<longrightarrow>
        dget (s_executions s') j = dget (s_executions s) j \<and>
        (j \<in> s_admitted s' \<longleftrightarrow> j \<in> s_admitted s) \<and>
        (\<forall>ns kd. dget (s_work_keys s') (ns, j, kd) = dget (s_work_keys s) (ns, j, kd))) \<and>
     (\<forall>k w. dget (s_work s) k = Some w \<longrightarrow> w_execution_id w \<noteq> i \<longrightarrow> dget (s_work s') k = Some w)"

lemma local_to_refl [simp]: "local_to i s s"
  by (simp add: local_to_def)

lemma local_to_trans: "local_to i a b \<Longrightarrow> local_to i b c \<Longrightarrow> local_to i a c"
  by (auto simp: local_to_def)

lemma work_of_local:
  assumes "link_inv s" "local_to i s s'" "e_execution_id e \<noteq> i"
  shows "work_of s' e kd = work_of s e kd"
proof (cases "dget (s_work_keys s) (e_namespace e, e_execution_id e, kd)")
  case None
  then show ?thesis using assms by (simp add: work_of_def local_to_def)
next
  case (Some k)
  then obtain w where w: "dget (s_work s) k = Some w" "item_key w = (e_namespace e, e_execution_id e, kd)"
    using assms(1) unfolding link_inv_def keys_inv_def by blast
  then have "w_execution_id w \<noteq> i" using assms(3) by (simp add: item_key_def)
  then show ?thesis using assms Some w by (simp add: work_of_def local_to_def)
qed

lemma life_inv_local:
  assumes "link_inv s" "life_inv s" "local_to i s s'" "link_inv s'"
    and "\<And>e. dget (s_executions s') i = Some e \<Longrightarrow> exec_ok_at s' e"
  shows "life_inv s'"
  unfolding life_inv_def
proof (intro allI impI)
  fix k e assume e: "dget (s_executions s') k = Some e"
  then have k: "e_execution_id e = k" using assms(4) by (auto simp: link_inv_def ids_inv_def)
  show "exec_ok_at s' e"
  proof (cases "k = i")
    case True then show ?thesis using assms(5) e by simp
  next
    case False
    then have "dget (s_executions s) k = Some e" "(k \<in> s_admitted s') = (k \<in> s_admitted s)"
      using assms(3) e by (auto simp: local_to_def)
    moreover have "work_of s' e kd = work_of s e kd" for kd
      using work_of_local [OF assms(1,3)] False k by simp
    moreover have "exec_ok_at s e" using assms(2) calculation(1) by (auto simp: life_inv_def)
    ultimately show ?thesis using k by (simp add: exec_ok_at_def)
  qed
qed

lemma link_exec: "link_inv s \<Longrightarrow> dget (s_executions s) k = Some e \<Longrightarrow> e_execution_id e = k \<and> valid_execution e"
  by (simp add: link_inv_def ids_inv_def)

lemma link_item:
  assumes "link_inv s" "dget (s_work s) k = Some w"
  obtains e where "w_work_item_id w = k" "item_wf w" "dget (s_work_keys s) (item_key w) = Some k"
    "dget (s_executions s) (w_execution_id w) = Some e" "e_namespace e = w_namespace w"
    "e_execution_id e = w_execution_id w" "work_of s e (w_kind w) = Some w"
proof -
  from assms obtain e where e: "dget (s_executions s) (w_execution_id w) = Some e" "e_namespace e = w_namespace w"
    and w: "w_work_item_id w = k" "item_wf w" "dget (s_work_keys s) (item_key w) = Some k"
    unfolding link_inv_def items_inv_def item_linked_def by blast
  moreover have "e_execution_id e = w_execution_id w" using assms(1) e(1) by (simp add: link_exec)
  ultimately show ?thesis using assms(2) that [of e] by (simp add: work_of_def item_key_def)
qed

lemma key_item:
  "link_inv s \<Longrightarrow> dget (s_work_keys s) key = Some k \<Longrightarrow> \<exists>w. dget (s_work s) k = Some w \<and> item_key w = key"
  unfolding link_inv_def keys_inv_def by blast

lemma work_ofD: "work_of s e kd = Some w \<Longrightarrow> \<exists>k. dget (s_work_keys s) (e_namespace e, e_execution_id e, kd) = Some k \<and> dget (s_work s) k = Some w"
  by (simp add: work_of_def split: option.splits)

section \<open>Primitive updates\<close>

definition same_item :: "work_item \<Rightarrow> work_item \<Rightarrow> bool" where
  "same_item w w' \<longleftrightarrow>
     w_work_item_id w' = w_work_item_id w \<and> w_namespace w' = w_namespace w \<and>
     w_execution_id w' = w_execution_id w \<and> w_kind w' = w_kind w"

abbreviation put_exec :: "automation_execution \<Rightarrow> store \<Rightarrow> store" where
  "put_exec e s \<equiv> s\<lparr>s_executions := dput (e_execution_id e) e (s_executions s)\<rparr>"

abbreviation put_item :: "string \<Rightarrow> work_item \<Rightarrow> store \<Rightarrow> store" where
  "put_item k w s \<equiv> s\<lparr>s_work := dput k w (s_work s)\<rparr>"

lemma link_inv_put_exec:
  assumes "link_inv s" "dget (s_executions s) (e_execution_id e) = Some e0"
    "e_namespace e = e_namespace e0" "valid_execution e"
  shows "link_inv (put_exec e s)"
proof -
  have "ids_inv (put_exec e s)" "keys_inv (put_exec e s)" "occurrences_inv (put_exec e s)"
    using assms by (simp_all add: link_inv_def ids_inv_def keys_inv_def occurrences_inv_def dict_simps)
  moreover have "items_inv (put_exec e s)"
    using assms by (force simp: link_inv_def items_inv_def item_linked_def dict_simps)
  ultimately show ?thesis by (simp add: link_inv_def)
qed

lemma local_to_put_exec [simp]: "local_to (e_execution_id e) s (put_exec e s)"
  by (simp add: local_to_def dict_simps)

lemma work_of_put_exec [simp]: "work_of (s\<lparr>s_executions := d\<rparr>) e kd = work_of s e kd"
  by (simp add: work_of_def split: option.split)

lemma work_of_frame [simp]:
  "work_of (s\<lparr>s_admitted := a\<rparr>) e kd = work_of s e kd"
  "work_of (s\<lparr>s_scope_allocations := m\<rparr>) e kd = work_of s e kd"
  "work_of (s\<lparr>s_operations := p\<rparr>) e kd = work_of s e kd"
  "work_of (s\<lparr>s_tasks := q\<rparr>) e kd = work_of s e kd"
  "work_of (s\<lparr>s_occurrences := o'\<rparr>) e kd = work_of s e kd"
  by (simp_all add: work_of_def split: option.split)

lemma link_inv_frame [simp]:
  "link_inv (s\<lparr>s_admitted := a\<rparr>) = link_inv s"
  "link_inv (s\<lparr>s_scope_allocations := m\<rparr>) = link_inv s"
  "link_inv (s\<lparr>s_operations := p\<rparr>) = link_inv s"
  "link_inv (s\<lparr>s_closed := c\<rparr>) = link_inv s"
  by (simp_all add: link_inv_def ids_inv_def items_inv_def item_linked_def keys_inv_def occurrences_inv_def)

lemma key_unique:
  "link_inv s \<Longrightarrow> dget (s_work s) k = Some w \<Longrightarrow> dget (s_work_keys s) key = Some k \<Longrightarrow> key = item_key w"
  unfolding link_inv_def keys_inv_def by (metis option.inject)

lemma link_inv_put_item:
  assumes "link_inv s" "dget (s_work s) k = Some w" "same_item w w'" "item_wf w'"
  shows "link_inv (put_item k w' s)"
proof -
  have key: "item_key w' = item_key w" using assms(3) by (simp add: same_item_def item_key_def)
  have "ids_inv (put_item k w' s)" "occurrences_inv (put_item k w' s)"
    using assms by (simp_all add: link_inv_def ids_inv_def occurrences_inv_def dict_simps)
  moreover have "items_inv (put_item k w' s)"
    using assms key
    by (simp add: link_inv_def items_inv_def item_linked_def same_item_def dict_simps)
  moreover have "keys_inv (put_item k w' s)"
    using assms(1) key key_unique [OF assms(1,2)]
    by (auto simp: link_inv_def keys_inv_def dict_simps)
  ultimately show ?thesis by (simp add: link_inv_def)
qed

lemma local_to_put_item:
  "dget (s_work s) k = Some w \<Longrightarrow> w_execution_id w = i \<Longrightarrow> local_to i s (put_item k w' s)"
  by (auto simp: local_to_def dict_simps)

lemma work_of_put_item:
  assumes "link_inv s" "dget (s_work s) k = Some w"
  shows "work_of (put_item k w' s) e kd =
    (if (e_namespace e, e_execution_id e, kd) = item_key w then Some w' else work_of s e kd)"
proof -
  obtain e0 where k: "dget (s_work_keys s) (item_key w) = Some k" by (rule link_item [OF assms])
  show ?thesis
  proof (cases "(e_namespace e, e_execution_id e, kd) = item_key w")
    case True
    then show ?thesis using k by (simp add: work_of_def dict_simps)
  next
    case False
    then have "dget (s_work_keys s) (e_namespace e, e_execution_id e, kd) \<noteq> Some k"
      using key_unique [OF assms] by blast
    then show ?thesis using False by (simp add: work_of_def dict_simps split: option.split)
  qed
qed

lemma item_wf_complete [simp]: "item_wf w \<Longrightarrow> item_wf (complete_item w)"
  by (simp add: item_wf_def complete_item_def)

lemma same_item_complete [simp]: "same_item w (complete_item w)"
  by (simp add: same_item_def complete_item_def)

lemma complete_item_status [simp]:
  "w_status (complete_item w) = COMPLETED" "w_execution_id (complete_item w) = w_execution_id w"
  "w_fence (complete_item w) = w_fence w" "item_key (complete_item w) = item_key w"
  by (simp_all add: complete_item_def item_key_def)

lemma active_simps [simp]:
  "\<not> active None" "active (Some w) \<longleftrightarrow> w_status w \<noteq> COMPLETED"
  "\<not> claimed None" "claimed (Some w) \<longleftrightarrow> w_status w = CLAIMED"
  by (simp_all add: active_def claimed_def)

lemma claimed_active: "claimed x \<Longrightarrow> active x"
  by (auto simp: claimed_def active_def)

lemma complete_execution_work_fields [simp]:
  "s_executions (complete_execution_work i s) = s_executions s"
  "s_admitted (complete_execution_work i s) = s_admitted s"
  "s_work_keys (complete_execution_work i s) = s_work_keys s"
  "s_limits (complete_execution_work i s) = s_limits s"
  "s_tasks (complete_execution_work i s) = s_tasks s"
  "s_occurrences (complete_execution_work i s) = s_occurrences s"
  "s_operations (complete_execution_work i s) = s_operations s"
  "s_scope_allocations (complete_execution_work i s) = s_scope_allocations s"
  "s_closed (complete_execution_work i s) = s_closed s"
  "length (s_work (complete_execution_work i s)) = length (s_work s)"
  by (simp_all add: complete_execution_work_def dict_simps)

lemma get_complete_execution_work:
  "dget (s_work (complete_execution_work i s)) k =
     map_option (\<lambda>w. if w_execution_id w = i then complete_item w else w) (dget (s_work s) k)"
  by (simp add: complete_execution_work_def dict_simps)

lemma item_linked_complete:
  "item_linked s k w \<Longrightarrow> item_linked (complete_execution_work i s) k (if w_execution_id w = i then complete_item w else w)"
  by (auto simp: item_linked_def complete_item_def item_wf_def item_key_def)

lemma link_inv_complete_execution_work:
  assumes "link_inv s" shows "link_inv (complete_execution_work i s)"
proof -
  let ?t = "complete_execution_work i s"
  have "dwf (s_work ?t) = dwf (s_work s)"
    by (simp add: complete_execution_work_def dict_simps)
  then have "ids_inv ?t" "occurrences_inv ?t"
    using assms by (simp_all add: link_inv_def ids_inv_def occurrences_inv_def)
  moreover have "items_inv ?t"
    unfolding items_inv_def
  proof (intro allI impI)
    fix k w assume "dget (s_work ?t) k = Some w"
    then obtain v where "dget (s_work s) k = Some v" "w = (if w_execution_id v = i then complete_item v else v)"
      by (auto simp: get_complete_execution_work)
    then show "item_linked ?t k w"
      using assms item_linked_complete [of s k v i] by (simp add: link_inv_def items_inv_def)
  qed
  moreover have "keys_inv ?t"
    unfolding keys_inv_def
  proof (intro allI impI)
    fix key k assume "dget (s_work_keys ?t) key = Some k"
    then obtain w where "dget (s_work s) k = Some w" "item_key w = key"
      using key_item [OF assms, of key k] by auto
    then show "\<exists>w. dget (s_work ?t) k = Some w \<and> item_key w = key"
      by (simp add: get_complete_execution_work)
  qed
  ultimately show ?thesis by (simp add: link_inv_def)
qed

lemma local_to_complete_execution_work [simp]: "local_to i s (complete_execution_work i s)"
  by (auto simp: local_to_def get_complete_execution_work)

lemma work_of_complete_execution_work:
  assumes "link_inv s" "e_execution_id e = i"
  shows "work_of (complete_execution_work i s) e kd = map_option complete_item (work_of s e kd)"
proof (cases "dget (s_work_keys s) (e_namespace e, e_execution_id e, kd)")
  case (Some k)
  then obtain w where "dget (s_work s) k = Some w" "item_key w = (e_namespace e, e_execution_id e, kd)"
    using assms(1) unfolding link_inv_def keys_inv_def by blast
  then show ?thesis using Some assms(2)
    by (simp add: work_of_def get_complete_execution_work item_key_def)
qed (simp add: work_of_def)

section \<open>Capacity scopes\<close>

lemma global_key_neq [simp]: "global_key e \<noteq> scope_key_of e" "scope_key_of e \<noteq> global_key e'"
  by (auto simp: global_key_def scope_key_of_def execution_scope_def split: option.splits)

lemma same_subject_keys:
  "same_subject e e' \<Longrightarrow> scope_keys e' = scope_keys e"
  by (simp add: scope_keys_def global_key_def scope_key_of_def same_subject_scope)
     (simp add: same_subject_def)

lemma allocated_release_key:
  "allocated (release_key k s) k' =
     (if k' = k then (if allocated s k \<le> 1 then 0 else allocated s k - 1) else allocated s k')"
  by (simp add: release_key_def allocated_def dict_simps)

lemma release_key_fields [simp]:
  "s_admitted (release_key k s) = s_admitted s" "s_executions (release_key k s) = s_executions s"
  "s_work (release_key k s) = s_work s" "s_work_keys (release_key k s) = s_work_keys s"
  "s_limits (release_key k s) = s_limits s" "s_tasks (release_key k s) = s_tasks s"
  "s_occurrences (release_key k s) = s_occurrences s" "s_operations (release_key k s) = s_operations s"
  "s_closed (release_key k s) = s_closed s"
  by (simp_all add: release_key_def)

lemma release_scopes_fields [simp]:
  "s_admitted (release_scopes e s) = s_admitted s - {e_execution_id e}"
  "s_executions (release_scopes e s) = s_executions s"
  "s_work (release_scopes e s) = s_work s" "s_work_keys (release_scopes e s) = s_work_keys s"
  "s_limits (release_scopes e s) = s_limits s" "s_tasks (release_scopes e s) = s_tasks s"
  "s_occurrences (release_scopes e s) = s_occurrences s"
  "s_operations (release_scopes e s) = s_operations s" "s_closed (release_scopes e s) = s_closed s"
  by (simp_all add: release_scopes_def Let_def)

lemma holders_finite: "scope_inv s \<Longrightarrow> finite (holders s k)"
  by (simp add: scope_inv_def holders_def)

lemma scope_inv_release:
  assumes "scope_inv s" "dget (s_executions s) (e_execution_id e) = Some e"
  shows "scope_inv (release_scopes e s)"
proof (cases "e_execution_id e \<in> s_admitted s")
  case False then show ?thesis using assms by (simp add: release_scopes_def)
next
  case True
  let ?i = "e_execution_id e" and ?t = "release_scopes e s"
  have alloc: "allocated ?t k = (if k \<in> scope_keys e then max 0 (allocated s k - 1) else allocated s k)"
    if "0 \<le> allocated s k" for k
    using True that
    by (auto simp: release_scopes_def Let_def allocated_release_key scope_keys_def allocated_def)
       (auto simp: allocated_def [symmetric] allocated_release_key)
  have hold: "holders ?t k = holders s k - {?i}" for k by (auto simp: holders_def)
  have mem: "?i \<in> holders s k \<longleftrightarrow> k \<in> scope_keys e" for k
    using True assms(2) by (simp add: holders_def)
  have "allocated ?t k = int (card (holders ?t k))" for k
  proof -
    have a: "allocated s k = int (card (holders s k))" using assms(1) by (simp add: scope_inv_def)
    show ?thesis
    proof (cases "k \<in> scope_keys e")
      case True
      then have "card (holders s k) \<noteq> 0" using mem [of k] holders_finite [OF assms(1), of k] by auto
      then show ?thesis using True a mem holders_finite [OF assms(1)] by (simp add: alloc hold)
    next
      case False
      then show ?thesis using a mem by (simp add: alloc hold)
    qed
  qed
  then show ?thesis using assms by (simp add: scope_inv_def)
qed

lemma reserve_scopes_fields:
  assumes "reserve_scopes e gc s = (b, s')"
  shows "s_executions s' = s_executions s" "s_work s' = s_work s" "s_work_keys s' = s_work_keys s"
    "s_limits s' = s_limits s" "s_tasks s' = s_tasks s" "s_occurrences s' = s_occurrences s"
    "s_operations s' = s_operations s" "s_closed s' = s_closed s"
    "s_admitted s' = (if b then insert (e_execution_id e) (s_admitted s) else s_admitted s)"
  using assms by (auto simp: reserve_scopes_def Let_def split: if_splits)

lemma allocated_reserve:
  assumes "reserve_scopes e gc s = (True, s')" "e_execution_id e \<notin> s_admitted s"
  shows "allocated s' k = allocated s k + (if k \<in> scope_keys e then 1 else 0)"
  using assms
  by (auto simp: reserve_scopes_def Let_def allocated_def scope_keys_def dict_simps split: if_splits)

lemma scope_inv_reserve:
  assumes "scope_inv s" "dget (s_executions s) (e_execution_id e) = Some e"
    "reserve_scopes e gc s = (b, s')"
  shows "scope_inv s'"
proof (cases "b \<and> e_execution_id e \<notin> s_admitted s")
  case False
  then have "s' = s" using assms(3) by (auto simp: reserve_scopes_def Let_def split: if_splits)
  then show ?thesis using assms(1) by simp
next
  case True
  let ?i = "e_execution_id e"
  note f = reserve_scopes_fields [OF assms(3)]
  have hold: "holders s' k = (if k \<in> scope_keys e then insert ?i (holders s k) else holders s k)" for k
    using True assms(2) f by (auto simp: holders_def)
  have "?i \<notin> holders s k" for k using True by (simp add: holders_def)
  moreover have "allocated s' k = allocated s k + (if k \<in> scope_keys e then 1 else 0)" for k
    using allocated_reserve [of e gc s s' k] assms(3) True by simp
  ultimately have "allocated s' k = int (card (holders s' k))" for k
    using assms(1) holders_finite [OF assms(1)] hold by (simp add: scope_inv_def)
  then show ?thesis using assms(1,2) f by (auto simp: scope_inv_def)
qed

lemma scope_inv_put_exec:
  assumes "scope_inv s" "dget (s_executions s) (e_execution_id e) = Some e0" "same_subject e0 e"
  shows "scope_inv (put_exec e s)"
proof -
  have "holders (put_exec e s) k = holders s k" for k
    by (rule set_eqI) (simp add: holders_def dict_simps assms(2) same_subject_keys [OF assms(3)])
  then show ?thesis using assms(1) by (simp add: scope_inv_def allocated_def dict_simps)
qed

lemma scope_inv_frame:
  "s_admitted s' = s_admitted s \<Longrightarrow> s_executions s' = s_executions s \<Longrightarrow>
   s_scope_allocations s' = s_scope_allocations s \<Longrightarrow> scope_inv s' = scope_inv s"
  by (simp add: scope_inv_def holders_def allocated_def)

end
