(* ===== verification/Automation_Store_Steps.thy ===== *)
theory Automation_Store_Steps
  imports Automation_Store_Inv
begin

text \<open>
  Every operation of the in-memory store keeps its invariant. The work is done for the shared
  primitives (\<open>apply_transition\<close>, \<open>create_work\<close>, the claim update); the operations follow by
  running through their guards.
\<close>

section \<open>Applying a transition\<close>

text \<open>A transition that fits the store: it replaces a stored snapshot of the same subject.\<close>

definition fits :: "execution_transition \<Rightarrow> string option \<Rightarrow> automation_execution \<Rightarrow> store \<Rightarrow> bool" where
  "fits x item e0 s \<longleftrightarrow>
     link_inv s \<and> dget (s_executions s) (e_execution_id e0) = Some e0 \<and>
     same_subject e0 (x_execution x) \<and> valid_execution (x_execution x) \<and>
     (x_complete_work x = CompleteCurrent \<longrightarrow>
        (\<exists>k w. item = Some k \<and> dget (s_work s) k = Some w \<and> w_execution_id w = e_execution_id e0))"

definition completed_part :: "execution_transition \<Rightarrow> string option \<Rightarrow> store \<Rightarrow> store" where
  "completed_part x item s =
     (case x_complete_work x of
        CompleteAll \<Rightarrow> complete_execution_work (e_execution_id (x_execution x)) s
      | CompleteCurrent \<Rightarrow> (case item of None \<Rightarrow> s | Some k \<Rightarrow> update_item k complete_item s)
      | CompleteNone \<Rightarrow> s)"

definition settled :: "execution_transition \<Rightarrow> string option \<Rightarrow> store \<Rightarrow> store" where
  "settled x item s =
     (if x_release_capacity x then release_scopes (x_execution x) else (\<lambda>t. t))
       (completed_part x item (put_exec (x_execution x) s))"

lemma fits_id: "fits x item e0 s \<Longrightarrow>
    e_execution_id (x_execution x) = e_execution_id e0 \<and> e_namespace (x_execution x) = e_namespace e0"
  by (simp add: fits_def same_subject_def)

lemma complete_step_settled:
  "fits x item e0 s \<Longrightarrow> complete_step x item t = (Inr (), completed_part x item t)"
  by (auto simp: complete_step_def completed_part_def fits_def split: complete_work.split)

lemma apply_transition_plain:
  assumes "fits x item e0 s" "x_deadline_work_at x = None"
  shows "apply_transition x item uuid now s = (Inr (x_execution x), settled x item s)"
  using assms by (simp add: apply_transition_def complete_step_settled settled_def Let_def)

lemma update_item_fields [simp]:
  "s_executions (update_item k f s) = s_executions s" "s_admitted (update_item k f s) = s_admitted s"
  "s_work_keys (update_item k f s) = s_work_keys s" "s_limits (update_item k f s) = s_limits s"
  "s_tasks (update_item k f s) = s_tasks s" "s_occurrences (update_item k f s) = s_occurrences s"
  "s_operations (update_item k f s) = s_operations s" "s_closed (update_item k f s) = s_closed s"
  "s_scope_allocations (update_item k f s) = s_scope_allocations s"
  "length (s_work (update_item k f s)) = length (s_work s)"
  by (auto simp: update_item_def dput_length split: option.split)

lemma completed_part_fields [simp]:
  "s_executions (completed_part x item s) = s_executions s"
  "s_admitted (completed_part x item s) = s_admitted s"
  "s_work_keys (completed_part x item s) = s_work_keys s"
  "s_limits (completed_part x item s) = s_limits s" "s_tasks (completed_part x item s) = s_tasks s"
  "s_occurrences (completed_part x item s) = s_occurrences s"
  "s_operations (completed_part x item s) = s_operations s"
  "s_closed (completed_part x item s) = s_closed s"
  "s_scope_allocations (completed_part x item s) = s_scope_allocations s"
  "length (s_work (completed_part x item s)) = length (s_work s)"
  by (auto simp: completed_part_def split: complete_work.split option.split)

lemma settled_fields [simp]:
  "s_executions (settled x item s) = dput (e_execution_id (x_execution x)) (x_execution x) (s_executions s)"
  "s_admitted (settled x item s) =
     (if x_release_capacity x then s_admitted s - {e_execution_id (x_execution x)} else s_admitted s)"
  "s_work_keys (settled x item s) = s_work_keys s"
  "s_limits (settled x item s) = s_limits s" "s_tasks (settled x item s) = s_tasks s"
  "s_occurrences (settled x item s) = s_occurrences s"
  "s_operations (settled x item s) = s_operations s"
  "s_closed (settled x item s) = s_closed s"
  "length (s_work (settled x item s)) = length (s_work s)"
  by (simp_all add: settled_def)

lemma link_inv_release [simp]: "link_inv (release_scopes e s) = link_inv s"
  by (simp add: link_inv_def ids_inv_def items_inv_def item_linked_def keys_inv_def occurrences_inv_def)

lemma local_to_release [simp]: "local_to (e_execution_id e) s (release_scopes e s)"
  by (simp add: local_to_def)

lemma work_of_release [simp]: "work_of (release_scopes e s) e' kd = work_of s e' kd"
  by (simp add: work_of_def split: option.split)

lemma fits_put: "fits x item e0 s \<Longrightarrow> link_inv (put_exec (x_execution x) s)"
  using fits_id [of x item e0 s] link_inv_put_exec [of s "x_execution x" e0] by (simp add: fits_def)

lemma completed_part_ok:
  assumes "fits x item e0 s"
  defines "t \<equiv> put_exec (x_execution x) s"
  shows "link_inv (completed_part x item t) \<and> local_to (e_execution_id e0) t (completed_part x item t)"
proof -
  have t: "link_inv t" using assms fits_put by blast
  show ?thesis
  proof (cases "x_complete_work x")
    case CompleteCurrent
    then obtain k w where k: "item = Some k" "dget (s_work s) k = Some w" "w_execution_id w = e_execution_id e0"
      using assms by (auto simp: fits_def)
    then have w: "dget (s_work t) k = Some w" by (simp add: t_def)
    then have "item_wf w" using t link_item by blast
    then have "link_inv (put_item k (complete_item w) t)" using t w by (blast intro: link_inv_put_item item_wf_complete same_item_complete)
    then show ?thesis using CompleteCurrent k w
      by (simp add: completed_part_def update_item_def local_to_put_item)
  next
    case CompleteAll
    have "e_execution_id (x_execution x) = e_execution_id e0" using assms fits_id by blast
    then show ?thesis using CompleteAll t
      by (simp add: completed_part_def link_inv_complete_execution_work)
  qed (use t in \<open>simp add: completed_part_def\<close>)
qed

lemma settled_link:
  assumes "fits x item e0 s" shows "link_inv (settled x item s)"
  using completed_part_ok [OF assms] by (simp add: settled_def)

lemma settled_local:
  assumes "fits x item e0 s" shows "local_to (e_execution_id e0) s (settled x item s)"
proof -
  have i: "e_execution_id (x_execution x) = e_execution_id e0" using assms fits_id by blast
  have "local_to (e_execution_id e0) s (put_exec (x_execution x) s)"
    using local_to_put_exec [of "x_execution x"] i by simp
  moreover note completed_part_ok [OF assms]
  ultimately have "local_to (e_execution_id e0) s (completed_part x item (put_exec (x_execution x) s))"
    using local_to_trans by blast
  then show ?thesis using local_to_release [of "x_execution x"] i local_to_trans
    unfolding settled_def by auto
qed

text \<open>What the completion does to the work items of the subject.\<close>

definition completes :: "execution_transition \<Rightarrow> string option \<Rightarrow> store \<Rightarrow> work_kind \<Rightarrow> bool" where
  "completes x item s kd \<longleftrightarrow>
     x_complete_work x = CompleteAll \<or>
     x_complete_work x = CompleteCurrent \<and>
       (\<exists>k w. item = Some k \<and> dget (s_work s) k = Some w \<and> w_kind w = kd)"

lemma settled_work_of:
  assumes "fits x item e0 s"
  shows "work_of (settled x item s) (x_execution x) kd =
    (if completes x item s kd then map_option complete_item (work_of s (x_execution x) kd)
     else work_of s (x_execution x) kd)"
proof -
  let ?e = "x_execution x" and ?t = "put_exec (x_execution x) s"
  have t: "link_inv ?t" using assms fits_put by blast
  have i: "e_execution_id ?e = e_execution_id e0" "e_namespace ?e = e_namespace e0"
    using assms fits_id by blast+
  have "work_of (completed_part x item ?t) ?e kd =
    (if completes x item s kd then map_option complete_item (work_of s ?e kd) else work_of s ?e kd)"
  proof (cases "x_complete_work x")
    case CompleteCurrent
    then obtain k w where k: "item = Some k" "dget (s_work s) k = Some w" "w_execution_id w = e_execution_id e0"
      using assms by (auto simp: fits_def)
    then have w: "dget (s_work ?t) k = Some w" by simp
    obtain e1 where e1: "dget (s_executions s) (w_execution_id w) = Some e1" "e_namespace e1 = w_namespace w"
      "work_of s e1 (w_kind w) = Some w" "e_execution_id e1 = w_execution_id w"
      using link_item [of s k w] k assms by (auto simp: fits_def)
    have "e1 = e0" using e1 k assms by (simp add: fits_def)
    then have "item_key w = (e_namespace ?e, e_execution_id ?e, w_kind w)" "work_of s ?e (w_kind w) = Some w"
      using e1 i by (simp_all add: item_key_def work_of_def)
    then show ?thesis using CompleteCurrent k w work_of_put_item [OF t w, of "complete_item w" ?e kd]
      by (auto simp: completed_part_def update_item_def completes_def)
  next
    case CompleteAll
    then show ?thesis using t by (simp add: completed_part_def completes_def work_of_complete_execution_work)
  qed (simp add: completed_part_def completes_def)
  then show ?thesis by (simp add: settled_def)
qed

lemma settled_scope:
  assumes "fits x item e0 s" "scope_inv s"
  shows "scope_inv (settled x item s)"
proof -
  have "scope_inv (put_exec (x_execution x) s)"
    using assms fits_id [OF assms(1)] scope_inv_put_exec [of s "x_execution x" e0] by (simp add: fits_def)
  then have "scope_inv (completed_part x item (put_exec (x_execution x) s))"
    by (subst scope_inv_frame) simp_all
  then show ?thesis by (simp add: settled_def scope_inv_release dict_simps)
qed

lemma settled_size:
  assumes "fits x item e0 s" "size_inv s"
  shows "size_inv (settled x item s)"
  using assms fits_id [OF assms(1)] by (simp add: size_inv_def dput_length fits_def)

lemma settled_store_inv:
  assumes "fits x item e0 s" "store_inv s" "exec_ok_at (settled x item s) (x_execution x)"
  shows "store_inv (settled x item s)"
proof -
  have "life_inv (settled x item s)"
    using life_inv_local [OF _ _ settled_local [OF assms(1)] settled_link [OF assms(1)]] assms fits_id [OF assms(1)]
    by (simp add: store_inv_def dict_simps)
  then show ?thesis using assms settled_link settled_scope settled_size by (simp add: store_inv_def)
qed

section \<open>The rules keep the lifecycle table\<close>

lemma exec_ok_settled:
  assumes "fits x item e0 s"
  shows "exec_ok_at (settled x item s) (x_execution x) \<longleftrightarrow>
    exec_ok (x_execution x) (\<not> x_release_capacity x \<and> e_execution_id e0 \<in> s_admitted s)
      (if completes x item s EXECUTE then map_option complete_item (work_of s e0 EXECUTE) else work_of s e0 EXECUTE)
      (if completes x item s EXPIRE_INTERRUPT then map_option complete_item (work_of s e0 EXPIRE_INTERRUPT)
       else work_of s e0 EXPIRE_INTERRUPT)"
proof -
  have i: "e_execution_id (x_execution x) = e_execution_id e0" "e_namespace (x_execution x) = e_namespace e0"
    using assms fits_id by blast+
  then have "work_of s (x_execution x) kd = work_of s e0 kd" for kd by (simp add: work_of_def)
  then show ?thesis using i by (simp add: exec_ok_at_def settled_work_of [OF assms] del: split_paired_All)
qed

lemma active_complete [simp]:
  "\<not> active (map_option complete_item x)" "\<not> claimed (map_option complete_item x)"
  by (cases x; simp)+

lemma status_ok_terminal: "is_terminal st \<Longrightarrow> status_ok st b adm x d \<longleftrightarrow> \<not> adm \<and> \<not> active x \<and> \<not> active d"
  by (cases st) auto

lemma store_inv_exec:
  assumes "store_inv s" "dget (s_executions s) i = Some e"
  shows "e_execution_id e = i" "valid_execution e" "exec_ok_at s e"
  using assms by (auto simp: store_inv_def life_inv_def dest: link_exec)

lemma active_item:
  assumes "store_inv s" "dget (s_work s) k = Some w" "w_status w \<noteq> COMPLETED"
  obtains e where "dget (s_executions s) (w_execution_id w) = Some e" "e_execution_id e = w_execution_id w"
    "valid_execution e" "exec_ok_at s e" "work_of s e (w_kind w) = Some w" "item_wf w"
    "w_kind w = EXECUTE \<Longrightarrow> e_status e \<in> {QUEUED, RUNNING, CANCEL_REQUESTED}"
    "w_kind w = EXECUTE \<Longrightarrow> w_status w = PENDING \<Longrightarrow> e_status e = QUEUED"
    "w_kind w = EXPIRE_INTERRUPT \<Longrightarrow> e_status e = INTERRUPTED"
    "w_status w = CLAIMED \<Longrightarrow> e_execution_id e \<in> s_admitted s"
proof -
  obtain e where e: "dget (s_executions s) (w_execution_id w) = Some e" "work_of s e (w_kind w) = Some w" "item_wf w"
    using assms link_item by (metis store_inv_def)
  note inv = store_inv_exec [OF assms(1) e(1)]
  show ?thesis
  proof (rule that [of e])
    show "w_kind w = EXECUTE \<Longrightarrow> e_status e \<in> {QUEUED, RUNNING, CANCEL_REQUESTED}"
      "w_kind w = EXECUTE \<Longrightarrow> w_status w = PENDING \<Longrightarrow> e_status e = QUEUED"
      "w_kind w = EXPIRE_INTERRUPT \<Longrightarrow> e_status e = INTERRUPTED"
      using inv(3) e(2) assms(3) by (cases "e_status e"; simp add: exec_ok_at_def exec_ok_def)+
    show "w_status w = CLAIMED \<Longrightarrow> e_execution_id e \<in> s_admitted s"
      using inv(3) e(2) by (cases "w_kind w"; cases "e_status e"; simp add: exec_ok_at_def exec_ok_def)
  qed (use e inv in auto)
qed

lemma fitsI:
  assumes "store_inv s" "dget (s_executions s) i = Some e" "frame_kept e (x_execution x)"
    "valid_execution (x_execution x)"
    "x_complete_work x = CompleteCurrent \<Longrightarrow>
       \<exists>k w. item = Some k \<and> dget (s_work s) k = Some w \<and> w_execution_id w = i"
  shows "fits x item e s"
  using assms store_inv_exec [OF assms(1,2)] by (auto simp: fits_def frame_kept_def store_inv_def)

text \<open>The snapshot of every transition is valid: the rules validate what they build.\<close>

lemma expire_queued_valid: "expire_queued e now = Inr x \<Longrightarrow> valid_execution (x_execution x)"
  by (auto simp: expire_queued_def bindE_Inr_iff mk_execution_ok)

lemma claim_candidate_valid:
  "valid_execution e \<Longrightarrow> claim_candidate e k now = Inr (Some x) \<Longrightarrow> valid_execution (x_execution x)"
  by (auto simp: claim_candidate_def bindE_Inr_iff keep_transition_def expire_queued_valid split: if_splits)

lemma interrupt_execution_valid:
  "interrupt_execution e ids now = Inr x \<Longrightarrow> valid_execution (x_execution x)"
  by (auto simp: interrupt_execution_def bindE_Inr_iff mk_execution_ok split: if_splits option.splits)

lemma finish_execution_valid:
  "finish_execution e st now r c m = Inr x \<Longrightarrow> valid_execution (x_execution x)"
  by (auto simp: finish_execution_def bindE_Inr_iff mk_execution_ok split: if_splits)

lemma cancel_execution_valid:
  "valid_execution e \<Longrightarrow> cancel_execution e now = Inr x \<Longrightarrow> valid_execution (x_execution x)"
  by (auto simp: cancel_execution_def bindE_Inr_iff mk_execution_ok keep_transition_def split: if_splits)

lemma resolve_execution_valid:
  "resolve_execution e r reason now = Inr x \<Longrightarrow> valid_execution (x_execution x)"
  by (auto simp: resolve_execution_def bindE_Inr_iff mk_execution_ok Let_def split: if_splits)

lemma recover_expired_claim_valid:
  "valid_execution e \<Longrightarrow> recover_expired_claim e k now = Inr x \<Longrightarrow> valid_execution (x_execution x)"
  by (auto simp: recover_expired_claim_def bindE_Inr_iff mk_execution_ok keep_transition_def split: if_splits)

lemmas exec_tables = exec_ok_at_def exec_ok_def started_def

lemma finish_settled:
  assumes "store_inv s" "dget (s_executions s) i = Some e" "i \<in> s_admitted s"
    "finish_execution e st now r c m = Inr x"
  shows "fits x item e s" "x_deadline_work_at x = None" "store_inv (settled x item s)"
proof -
  have x: "x_complete_work x = CompleteAll" "x_release_capacity x = is_terminal st" "x_deadline_work_at x = None"
    "e_status (x_execution x) = st" "e_execution_deadline (x_execution x) = e_execution_deadline e"
    "e_start_authorized_at (x_execution x) = e_start_authorized_at e"
    "e_finished_at (x_execution x) = (if is_terminal st then Some now else None)"
    "is_terminal st \<or> st = NEEDS_ATTENTION"
    using assms(4) by (auto simp: finish_execution_def bindE_Inr_iff mk_execution_ok split: if_splits)
  note inv = store_inv_exec [OF assms(1,2)]
  show f: "fits x item e s"
    using assms x by (intro fitsI) (auto intro: finish_execution_frame finish_execution_valid)
  show "x_deadline_work_at x = None" by (fact x)
  have "exec_ok_at (settled x item s) (x_execution x)"
    using inv assms(3) x unfolding exec_ok_settled [OF f]
    by (auto simp: completes_def exec_tables status_ok_terminal)
  then show "store_inv (settled x item s)" by (rule settled_store_inv [OF f assms(1)])
qed

lemma cancel_settled:
  assumes "store_inv s" "dget (s_executions s) i = Some e" "cancel_execution e now = Inr x"
  shows "fits x None e s" "x_deadline_work_at x = None" "store_inv (settled x None s)"
proof -
  note inv = store_inv_exec [OF assms(1,2)]
  have c: "x_complete_work x \<noteq> CompleteCurrent" "x_deadline_work_at x = None"
    using assms(3) by (auto simp: cancel_execution_def bindE_Inr_iff keep_transition_def split: if_splits)
  show f: "fits x None e s"
    using assms inv c by (intro fitsI) (auto intro: cancel_execution_frame cancel_execution_valid)
  show "x_deadline_work_at x = None" by (fact c)
  have "exec_ok_at (settled x None s) (x_execution x)"
    using inv assms(3) unfolding exec_ok_settled [OF f]
    by (cases "e_status e")
       (auto simp: cancel_execution_def completes_def exec_tables bindE_Inr_iff mk_execution_ok
         keep_transition_def)
  then show "store_inv (settled x None s)" by (rule settled_store_inv [OF f assms(1)])
qed

lemma resolve_settled:
  assumes "store_inv s" "dget (s_executions s) i = Some e" "resolve_execution e r reason now = Inr x"
  shows "fits x None e s" "x_deadline_work_at x = None" "store_inv (settled x None s)"
proof -
  note inv = store_inv_exec [OF assms(1,2)]
  have c: "x_complete_work x = CompleteNone" "x_deadline_work_at x = None"
    using assms(3) by (auto simp: resolve_execution_def bindE_Inr_iff Let_def split: if_splits)
  show f: "fits x None e s"
    using assms inv c by (intro fitsI) (auto intro: resolve_execution_frame resolve_execution_valid)
  show "x_deadline_work_at x = None" by (fact c)
  have "exec_ok_at (settled x None s) (x_execution x)"
    using inv assms(3) unfolding exec_ok_settled [OF f]
    by (cases r)
       (auto simp: resolve_execution_def completes_def exec_tables bindE_Inr_iff mk_execution_ok Let_def
         split: if_splits)
  then show "store_inv (settled x None s)" by (rule settled_store_inv [OF f assms(1)])
qed

lemma claim_candidate_settled:
  assumes "store_inv s" "dget (s_work s) k = Some w" "w_status w = PENDING"
    "dget (s_executions s) (w_execution_id w) = Some e" "claim_candidate e (w_kind w) now = Inr (Some x)"
  shows "fits x (Some k) e s" "x_deadline_work_at x = None" "store_inv (settled x (Some k) s)"
    "w_kind w = EXECUTE" "expire_queued e now = Inr x"
proof -
  obtain e' where e': "dget (s_executions s) (w_execution_id w) = Some e'" "work_of s e' (w_kind w) = Some w"
    "w_kind w = EXECUTE \<Longrightarrow> e_status e' = QUEUED" "w_kind w = EXPIRE_INTERRUPT \<Longrightarrow> e_status e' = INTERRUPTED"
    using assms(1-3) by (auto elim: active_item)
  then have e: "work_of s e (w_kind w) = Some w" "w_kind w = EXECUTE \<Longrightarrow> e_status e = QUEUED"
     "w_kind w = EXPIRE_INTERRUPT \<Longrightarrow> e_status e = INTERRUPTED" using assms(4) by auto
  have k: "w_kind w = EXECUTE" "expire_queued e now = Inr x"
    using assms(5) e by (cases "w_kind w"; auto simp: claim_candidate_def bindE_Inr_iff split: if_splits)+
  note inv = store_inv_exec [OF assms(1,4)]
  have x: "x_complete_work x = CompleteCurrent" "x_release_capacity x" "x_deadline_work_at x = None"
    "e_status (x_execution x) = TIMED_OUT" "e_execution_deadline (x_execution x) = e_execution_deadline e"
    "e_start_authorized_at (x_execution x) = e_start_authorized_at e"
    "e_finished_at (x_execution x) = Some now"
    using k(2) by (auto simp: expire_queued_def bindE_Inr_iff mk_execution_ok)
  show f: "fits x (Some k) e s"
    using assms k by (intro fitsI) (auto intro: expire_queued_frame expire_queued_valid)
  show "x_deadline_work_at x = None" "w_kind w = EXECUTE" "expire_queued e now = Inr x" by (fact x k)+
  have "exec_ok_at (settled x (Some k) s) (x_execution x)"
    using inv(3) e k x assms(2) unfolding exec_ok_settled [OF f]
    by (auto simp: completes_def exec_tables)
  then show "store_inv (settled x (Some k) s)" by (rule settled_store_inv [OF f assms(1)])
qed

section \<open>Updating one work item\<close>

lemma put_item_store_inv:
  assumes s: "store_inv s" and w: "dget (s_work s) k = Some w" and same: "same_item w w'" and wf: "item_wf w'"
    and e: "dget (s_executions s) (w_execution_id w) = Some e"
    and ok: "exec_ok e (e_execution_id e \<in> s_admitted s)
      (if w_kind w = EXECUTE then Some w' else work_of s e EXECUTE)
      (if w_kind w = EXPIRE_INTERRUPT then Some w' else work_of s e EXPIRE_INTERRUPT)"
  shows "store_inv (put_item k w' s)"
proof -
  have l: "link_inv s" using s by (simp add: store_inv_def)
  have key: "item_key w = (e_namespace e, e_execution_id e, w_kind w)"
    using link_item [OF l w] e by (metis item_key_def option.inject)
  have "exec_ok_at (put_item k w' s) e"
    using ok by (simp add: exec_ok_at_def work_of_put_item [OF l w] key eq_commute)
  then have "life_inv (put_item k w' s)"
    using life_inv_local [OF l _ local_to_put_item [OF w refl] link_inv_put_item [OF l w same wf]] s e
    by (simp add: store_inv_def)
  moreover have "scope_inv (put_item k w' s)" using s scope_inv_frame [of "put_item k w' s" s] by (simp add: store_inv_def)
  moreover have "size_inv (put_item k w' s)" using s w by (simp add: store_inv_def size_inv_def dput_length)
  ultimately show ?thesis using link_inv_put_item [OF l w same wf] by (simp add: store_inv_def)
qed

lemma item_back_store_inv:
  assumes s: "store_inv s" and w: "dget (s_work s) k = Some w" and c: "w_status w = CLAIMED"
    and st: "w_kind w = EXECUTE \<Longrightarrow> (\<exists>e. dget (s_executions s) (w_execution_id w) = Some e \<and> e_start_authorized_at e = None)"
  shows "store_inv (put_item k (recover_item CompleteNone w) s)"
proof -
  obtain e where e: "dget (s_executions s) (w_execution_id w) = Some e" "exec_ok_at s e"
    "work_of s e (w_kind w) = Some w" "item_wf w"
    using active_item [OF s w] c by (metis work_status.distinct(6))
  show ?thesis
  proof (rule put_item_store_inv [OF s w _ _ e(1)])
    show "exec_ok e (e_execution_id e \<in> s_admitted s)
      (if w_kind w = EXECUTE then Some (recover_item CompleteNone w) else work_of s e EXECUTE)
      (if w_kind w = EXPIRE_INTERRUPT then Some (recover_item CompleteNone w) else work_of s e EXPIRE_INTERRUPT)"
      using e c st by (cases "w_kind w"; cases "e_status e")
        (auto simp: exec_tables recover_item_def)
  qed (use e in \<open>auto simp: recover_item_def same_item_def item_wf_def\<close>)
qed

lemma recover_settled:
  assumes s: "store_inv s" and w: "dget (s_work s) k = Some w" and c: "w_status w = CLAIMED"
    and e: "dget (s_executions s) (w_execution_id w) = Some e"
    and x: "recover_expired_claim e (w_kind w) now = Inr x"
  defines "s' \<equiv> update_item k (recover_item (x_complete_work x)) (settled x (Some k) s)"
  shows "fits x (Some k) e s" "x_deadline_work_at x = None" "store_inv s'"
proof -
  note inv = store_inv_exec [OF s e]
  have d: "x_deadline_work_at x = None" "\<not> x_release_capacity x"
    using x by (auto simp: recover_expired_claim_def bindE_Inr_iff keep_transition_def split: if_splits)
  show f: "fits x (Some k) e s"
    using s w e inv x by (intro fitsI) (auto intro: recover_expired_claim_frame recover_expired_claim_valid)
  show "x_deadline_work_at x = None" by (fact d)
  obtain e' where e': "dget (s_executions s) (w_execution_id w) = Some e'" "work_of s e' (w_kind w) = Some w"
    "w_kind w = EXECUTE \<Longrightarrow> e_status e' \<in> {QUEUED, RUNNING, CANCEL_REQUESTED}" "e_execution_id e' \<in> s_admitted s"
    using active_item [OF s w] c by (metis work_status.distinct(6))
  then have ee: "work_of s e (w_kind w) = Some w" "e_execution_id e \<in> s_admitted s"
    "w_kind w = EXECUTE \<Longrightarrow> e_status e \<in> {QUEUED, RUNNING, CANCEL_REQUESTED}" using e by auto
  show "store_inv s'"
  proof (cases "w_kind w = EXECUTE \<and> e_start_authorized_at e \<noteq> None")
    case False
    then have "x = keep_transition e CompleteNone" using x by (auto simp: recover_expired_claim_def)
    then have "settled x (Some k) s = s" "x_complete_work x = CompleteNone"
      using e inv by (auto simp: settled_def completed_part_def keep_transition_def dput_same)
    then have "s' = put_item k (recover_item CompleteNone w) s" using w by (simp add: s'_def update_item_def)
    then show ?thesis using item_back_store_inv [OF s w c] False e by auto
  next
    case True
    then have xx: "x_complete_work x = CompleteCurrent" "e_status (x_execution x) = NEEDS_ATTENTION"
      "e_execution_deadline (x_execution x) = e_execution_deadline e"
      "e_start_authorized_at (x_execution x) = e_start_authorized_at e"
      "e_finished_at (x_execution x) = e_finished_at e"
      using x by (auto simp: recover_expired_claim_def bindE_Inr_iff mk_execution_ok keep_transition_def)
    have "exec_ok_at (settled x (Some k) s) (x_execution x)"
      using inv(3) ee True xx d w unfolding exec_ok_settled [OF f]
      by (cases "e_status e") (auto simp: completes_def exec_tables)
    then have "store_inv (settled x (Some k) s)" by (rule settled_store_inv [OF f s])
    moreover have "dget (s_work (settled x (Some k) s)) k = Some (complete_item w)"
      using xx d w by (simp add: settled_def completed_part_def update_item_def dict_simps)
    then have "s' = settled x (Some k) s"
      using xx by (simp add: s'_def update_item_def recover_item_def complete_item_def dput_same)
    ultimately show ?thesis by simp
  qed
qed

section \<open>Claiming, renewing, starting\<close>

lemma claim_item_wf [simp]: "item_wf w \<Longrightarrow> item_wf (claim_item worker tok l w)"
  by (simp add: claim_item_def item_wf_def)

lemma claim_item_same [simp]: "same_item w (claim_item worker tok l w)"
  by (simp add: claim_item_def same_item_def)

lemma claim_from_claim_item [simp]:
  "claim_from (claim_item worker tok l w) = Inr \<lparr>c_work_item_id = w_work_item_id w,
     c_namespace = w_namespace w, c_execution_id = w_execution_id w, c_kind = w_kind w,
     c_claim_token = tok, c_fence = w_fence w + 1, c_lease_until = l\<rparr>"
  by (simp add: claim_from_def claim_item_def)

lemma reserve_store_inv:
  assumes s: "store_inv s" and e: "dget (s_executions s) i = Some e" and q: "e_status e = QUEUED"
    and r: "reserve_scopes e gc s = (b, s')"
  shows "store_inv s'"
proof -
  note f = reserve_scopes_fields [OF r] and inv = store_inv_exec [OF s e]
  have l: "link_inv s'" using s f
    by (simp add: store_inv_def link_inv_def ids_inv_def items_inv_def item_linked_def keys_inv_def occurrences_inv_def)
  have loc: "local_to i s s'" using f inv by (auto simp: local_to_def)
  have "work_of s' e kd = work_of s e kd" for kd using f by (simp add: work_of_def split: option.split)
  then have "exec_ok_at s' e" using inv(3) q f by (auto simp: exec_tables)
  then have "life_inv s'" using life_inv_local [OF _ _ loc l] s e f by (simp add: store_inv_def)
  moreover have "scope_inv s'" using s e inv r scope_inv_reserve by (metis store_inv_def)
  moreover have "size_inv s'" using s f by (simp add: store_inv_def size_inv_def)
  ultimately show ?thesis using l by (simp add: store_inv_def)
qed

lemma claim_store_inv:
  assumes s: "store_inv s" and w: "dget (s_work s) k = Some w" and c: "w_status w = PENDING"
    and e: "dget (s_executions s) (w_execution_id w) = Some e"
    and adm: "w_kind w = EXECUTE \<Longrightarrow> e_execution_id e \<in> s_admitted s"
  shows "store_inv (put_item k (claim_item worker tok l w) s)"
proof -
  obtain e' where "dget (s_executions s) (w_execution_id w) = Some e'" "exec_ok_at s e'"
    "work_of s e' (w_kind w) = Some w" "item_wf w"
    using active_item [OF s w] c by (metis work_status.distinct(4))
  with e have ee: "exec_ok_at s e" "work_of s e (w_kind w) = Some w" "item_wf w" by auto
  show ?thesis
  proof (rule put_item_store_inv [OF s w _ _ e])
    show "exec_ok e (e_execution_id e \<in> s_admitted s)
      (if w_kind w = EXECUTE then Some (claim_item worker tok l w) else work_of s e EXECUTE)
      (if w_kind w = EXPIRE_INTERRUPT then Some (claim_item worker tok l w) else work_of s e EXPIRE_INTERRUPT)"
      using ee c adm by (cases "w_kind w"; cases "e_status e") (auto simp: exec_tables claim_item_def)
  qed (use ee in auto)
qed

lemma claim_matches_claimed: "claim_matches c now w \<Longrightarrow> w_status w = CLAIMED"
  by (simp add: claim_matches_def)

lemma valid_claimD:
  assumes "valid_claim s c now = Inr w"
  shows "dget (s_work s) (c_work_item_id c) = Some w" "claim_matches c now w" "\<not> s_closed s"
  using assms
  by (auto simp: valid_claim_def ensure_open_def bindE_Inr_iff split: option.splits if_splits)

lemma renew_store_inv:
  assumes s: "store_inv s" and w: "dget (s_work s) k = Some w" and c: "w_status w = CLAIMED"
  shows "store_inv (put_item k (w\<lparr>w_lease_until := Some l\<rparr>) s)"
proof -
  obtain e where ee: "dget (s_executions s) (w_execution_id w) = Some e" "exec_ok_at s e"
    "work_of s e (w_kind w) = Some w" "item_wf w"
    using active_item [OF s w] c by (metis work_status.distinct(6))
  show ?thesis
  proof (rule put_item_store_inv [OF s w _ _ ee(1)])
    show "exec_ok e (e_execution_id e \<in> s_admitted s)
      (if w_kind w = EXECUTE then Some (w\<lparr>w_lease_until := Some l\<rparr>) else work_of s e EXECUTE)
      (if w_kind w = EXPIRE_INTERRUPT then Some (w\<lparr>w_lease_until := Some l\<rparr>) else work_of s e EXPIRE_INTERRUPT)"
      using ee c by (cases "w_kind w"; cases "e_status e") (auto simp: exec_tables)
  qed (use ee c in \<open>auto simp: same_item_def item_wf_def\<close>)
qed

lemma authorize_store_inv:
  assumes s: "store_inv s" and w: "dget (s_work s) k = Some w" and c: "w_status w = CLAIMED"
    and e: "dget (s_executions s) (w_execution_id w) = Some e"
    and a: "authorize_start e (w_kind w) (e_execution_id e \<in> s_admitted s) now d tok = Inr au"
  shows "store_inv (s\<lparr>s_executions := dput (e_execution_id e) (sa_execution au) (s_executions s)\<rparr>)"
proof -
  let ?x = "keep_transition (sa_execution au) CompleteNone"
  note inv = store_inv_exec [OF s e]
  have frame: "frame_kept e (sa_execution au)" using a by (rule authorize_start_frame)
  have st: "w_kind w = EXECUTE" "e_status e = QUEUED" "e_execution_id e \<in> s_admitted s"
    "e_status (sa_execution au) = RUNNING" "e_start_authorized_at (sa_execution au) = Some now"
    "e_execution_deadline (sa_execution au) = Some (now + d)"
    "e_finished_at (sa_execution au) = e_finished_at e" "valid_execution (sa_execution au)"
    using a by (auto simp: authorize_start_def bindE_Inr_iff mk_execution_ok split: if_splits)
  have wk: "work_of s e (w_kind w) = Some w"
    using active_item [OF s w] c e by (metis option.inject work_status.distinct(6))
  have f: "fits ?x None e s" using s e frame st by (intro fitsI) (auto simp: keep_transition_def)
  have "exec_ok_at (settled ?x None s) (x_execution ?x)"
    using inv(3) st wk c unfolding exec_ok_settled [OF f]
    by (auto simp: completes_def exec_tables keep_transition_def)
  then have "store_inv (settled ?x None s)" by (rule settled_store_inv [OF f s])
  moreover have "e_execution_id (sa_execution au) = e_execution_id e"
    using frame by (simp add: frame_kept_def same_subject_def)
  ultimately show ?thesis by (simp add: settled_def keep_transition_def completed_part_def)
qed

section \<open>Creating work\<close>

definition new_item ::
  "automation_execution \<Rightarrow> work_kind \<Rightarrow> time \<Rightarrow> string \<Rightarrow> time \<Rightarrow> work_item" where
  "new_item e kind available_at uuid now =
     \<lparr>w_work_item_id = uuid, w_namespace = e_namespace e, w_execution_id = e_execution_id e,
      w_kind = kind, w_available_at = available_at, w_created_at = now, w_status = PENDING,
      w_worker_id = None, w_claim_token = None, w_fence = 0, w_lease_until = None\<rparr>"

definition add_item :: "work_item \<Rightarrow> store \<Rightarrow> store" where
  "add_item w s =
     s\<lparr>s_work := dput (w_work_item_id w) w (s_work s),
       s_work_keys := dput (item_key w) (w_work_item_id w) (s_work_keys s)\<rparr>"

lemma create_work_new:
  assumes "dget (s_work_keys s) (e_namespace e, e_execution_id e, kind) = None"
    "int (length (s_work s)) < l_max_work_items (s_limits s)"
  shows "create_work e kind at uuid now s = (Inr (), add_item (new_item e kind at uuid now) s)"
  using assms
  by (simp add: create_work_def Let_def ensure_capacity_def add_item_def new_item_def item_key_def)

lemma add_item_fields [simp]:
  "s_executions (add_item w s) = s_executions s" "s_admitted (add_item w s) = s_admitted s"
  "s_limits (add_item w s) = s_limits s" "s_tasks (add_item w s) = s_tasks s"
  "s_occurrences (add_item w s) = s_occurrences s" "s_operations (add_item w s) = s_operations s"
  "s_closed (add_item w s) = s_closed s" "s_scope_allocations (add_item w s) = s_scope_allocations s"
  by (simp_all add: add_item_def)

lemma new_item_simps [simp]:
  "w_work_item_id (new_item e kd at u now) = u" "w_execution_id (new_item e kd at u now) = e_execution_id e"
  "w_status (new_item e kd at u now) = PENDING" "item_wf (new_item e kd at u now)"
  "item_key (new_item e kd at u now) = (e_namespace e, e_execution_id e, kd)"
  "w_namespace (new_item e kd at u now) = e_namespace e" "w_kind (new_item e kd at u now) = kd"
  "w_fence (new_item e kd at u now) = 0"
  by (simp_all add: new_item_def item_wf_def item_key_def)

lemma link_inv_add_item:
  assumes l: "link_inv s" and e: "dget (s_executions s) (w_execution_id w) = Some e" "e_namespace e = w_namespace w"
    and wf: "item_wf w" and fresh: "dget (s_work s) (w_work_item_id w) = None"
    "dget (s_work_keys s) (item_key w) = None"
  shows "link_inv (add_item w s)"
proof -
  have "ids_inv (add_item w s)" "occurrences_inv (add_item w s)"
    using l by (simp_all add: link_inv_def ids_inv_def occurrences_inv_def add_item_def dict_simps)
  moreover have "items_inv (add_item w s)"
    unfolding items_inv_def
  proof (intro allI impI)
    fix k v assume k: "dget (s_work (add_item w s)) k = Some v"
    show "item_linked (add_item w s) k v"
    proof (cases "k = w_work_item_id w")
      case True
      then show ?thesis using k e wf by (auto simp: add_item_def dict_simps item_linked_def)
    next
      case False
      then have v: "dget (s_work s) k = Some v" using k by (simp add: add_item_def dict_simps)
      then have "item_linked s k v" using l by (simp add: link_inv_def items_inv_def)
      then show ?thesis using fresh by (auto simp: item_linked_def add_item_def dict_simps)
    qed
  qed
  moreover have "keys_inv (add_item w s)"
    unfolding keys_inv_def
  proof (intro allI impI)
    fix key k assume k: "dget (s_work_keys (add_item w s)) key = Some k"
    show "\<exists>v. dget (s_work (add_item w s)) k = Some v \<and> item_key v = key"
    proof (cases "key = item_key w")
      case True then show ?thesis using k by (simp add: add_item_def dict_simps)
    next
      case False
      then obtain v where "dget (s_work s) k = Some v" "item_key v = key"
        using k key_item [OF l, of key k] by (auto simp: add_item_def dict_simps)
      then show ?thesis using fresh by (auto simp: add_item_def dict_simps)
    qed
  qed
  ultimately show ?thesis by (simp add: link_inv_def)
qed

lemma local_to_add_item:
  assumes "dget (s_work s) (w_work_item_id w) = None"
  shows "local_to (w_execution_id w) s (add_item w s)"
  using assms by (auto simp: local_to_def add_item_def item_key_def dict_simps)

lemma work_of_add_item:
  assumes "link_inv s" "dget (s_work s) (w_work_item_id w) = None"
  shows "work_of (add_item w s) e kd =
     (if (e_namespace e, e_execution_id e, kd) = item_key w then Some w else work_of s e kd)"
proof -
  have "dget (s_work_keys s) key \<noteq> Some (w_work_item_id w)" for key
    using key_item [OF assms(1), of key] assms(2) by auto
  then show ?thesis by (simp add: work_of_def add_item_def dict_simps split: option.split)
qed

text \<open>A new execution as the service builds it: queued, never started, never finished.\<close>

definition fresh_execution :: "automation_execution \<Rightarrow> bool" where
  "fresh_execution e \<longleftrightarrow>
     valid_execution e \<and> e_status e = QUEUED \<and> e_start_authorized_at e = None \<and>
     e_execution_deadline e = None \<and> e_finished_at e = None"

definition added :: "automation_execution \<Rightarrow> string \<times> string \<Rightarrow> string \<Rightarrow> time \<Rightarrow> store \<Rightarrow> store" where
  "added e occ uuid now s =
     add_item (new_item e EXECUTE (e_queued_at e) uuid now)
       (s\<lparr>s_executions := dput (e_execution_id e) e (s_executions s),
          s_occurrences := dput occ (e_execution_id e) (s_occurrences s)\<rparr>)"

lemma no_key_for_unknown:
  assumes "link_inv s" "dget (s_executions s) i = None"
  shows "dget (s_work_keys s) (ns, i, kd) = None"
proof (rule ccontr)
  assume "dget (s_work_keys s) (ns, i, kd) \<noteq> None"
  then obtain k where "dget (s_work_keys s) (ns, i, kd) = Some k" by blast
  then obtain w where "dget (s_work s) k = Some w" "item_key w = (ns, i, kd)"
    using key_item [OF assms(1)] by blast
  then show False using assms by (auto simp: item_key_def elim: link_item [OF assms(1)])
qed

lemma link_inv_new_exec:
  assumes l: "link_inv s" and f: "valid_execution e" "dget (s_executions s) (e_execution_id e) = None"
  shows "link_inv (s\<lparr>s_executions := dput (e_execution_id e) e (s_executions s),
     s_occurrences := dput occ (e_execution_id e) (s_occurrences s)\<rparr>)" (is "link_inv ?t")
proof -
  have "ids_inv ?t" "keys_inv ?t" "occurrences_inv ?t"
    using l f by (simp_all add: link_inv_def ids_inv_def keys_inv_def occurrences_inv_def dict_simps)
  moreover have "items_inv ?t"
    using l f by (force simp: link_inv_def items_inv_def item_linked_def dict_simps)
  ultimately show ?thesis by (simp add: link_inv_def)
qed

lemma added_store_inv:
  assumes s: "store_inv s" and f: "fresh_execution e" "dget (s_executions s) (e_execution_id e) = None"
    "dget (s_work s) uuid = None"
    and cap: "int (length (s_executions s)) < l_max_executions (s_limits s)"
      "int (length (s_work s)) < l_max_work_items (s_limits s)"
  shows "store_inv (added e occ uuid now s)"
proof -
  let ?i = "e_execution_id e" and ?w = "new_item e EXECUTE (e_queued_at e) uuid now"
  let ?t = "s\<lparr>s_executions := dput ?i e (s_executions s), s_occurrences := dput occ ?i (s_occurrences s)\<rparr>"
  have l: "link_inv s" using s by (simp add: store_inv_def)
  have t: "link_inv ?t" using link_inv_new_exec [OF l] f by (simp add: fresh_execution_def)
  have nokey: "dget (s_work_keys s) (ns, ?i, kd) = None" for ns kd by (rule no_key_for_unknown [OF l f(2)])
  have u: "link_inv (add_item ?w ?t)"
    by (rule link_inv_add_item [OF t, of _ e]) (use f nokey in \<open>simp_all add: dict_simps\<close>)
  have "local_to ?i s ?t" by (simp add: local_to_def dict_simps)
  moreover have "local_to ?i ?t (add_item ?w ?t)" using local_to_add_item [of ?t ?w] f by simp
  ultimately have loc: "local_to ?i s (add_item ?w ?t)" by (rule local_to_trans)
  have adm: "?i \<notin> s_admitted s" using s f(2) by (auto simp: store_inv_def scope_inv_def)
  have "work_of (add_item ?w ?t) e EXECUTE = Some ?w" "work_of (add_item ?w ?t) e EXPIRE_INTERRUPT = None"
    using work_of_add_item [OF t, of ?w e] f nokey by (simp_all add: work_of_def)
  then have ok: "exec_ok_at (add_item ?w ?t) e"
    using f adm by (simp add: exec_tables fresh_execution_def)
  then have "life_inv (add_item ?w ?t)"
    using life_inv_local [OF l _ loc u] s by (simp add: store_inv_def dict_simps)
  moreover have "holders (add_item ?w ?t) k = holders s k" for k
    using adm by (auto simp: holders_def dict_simps)
  then have "scope_inv (add_item ?w ?t)"
    using s by (simp add: store_inv_def scope_inv_def allocated_def dict_simps)
  moreover have "size_inv (add_item ?w ?t)"
    using s f cap by (simp add: store_inv_def size_inv_def add_item_def dput_length)
  ultimately show ?thesis using u by (simp add: store_inv_def added_def)
qed

end
