(* ===== verification/Automation_Store_Evolve.thy ===== *)
theory Automation_Store_Evolve
  imports Automation_Store_Steps
begin

text \<open>
  How the store may move from one state to the next: executions are never dropped, keep their
  subject and their start authorization, never step back in the lifecycle and never change
  once terminal; work items keep their identity and their fence never falls; recorded
  occurrences and recorded operation results stay. \<open>keeps\<close> bundles this with the invariant and
  with raising without a trace, and comes with one rule per control construct.
\<close>

section \<open>Progress\<close>

fun rank :: "execution_status \<Rightarrow> nat" where
  "rank QUEUED = 0"
| "rank RUNNING = 1"
| "rank CANCEL_REQUESTED = 2"
| "rank INTERRUPTED = 3"
| "rank NEEDS_ATTENTION = 4"
| "rank _ = 5"

lemma rank_le: "rank st \<le> 5" by (cases st) auto

lemma rank_terminal: "is_terminal st \<longleftrightarrow> rank st = 5" by (cases st) auto

definition exec_progress :: "automation_execution \<Rightarrow> automation_execution \<Rightarrow> bool" where
  "exec_progress e e' \<longleftrightarrow>
     frame_kept e e' \<and> rank (e_status e) \<le> rank (e_status e') \<and> (is_terminal (e_status e) \<longrightarrow> e' = e)"

definition item_progress :: "work_item \<Rightarrow> work_item \<Rightarrow> bool" where
  "item_progress w w' \<longleftrightarrow>
     same_item w w' \<and> w_fence w \<le> w_fence w' \<and>
     (w_fence w' = w_fence w \<longrightarrow> w_claim_token w' = w_claim_token w \<or> w_claim_token w' = None)"

lemma exec_progress_refl [simp]: "exec_progress e e"
  by (simp add: exec_progress_def)

lemma exec_progress_trans: "exec_progress a b \<Longrightarrow> exec_progress b c \<Longrightarrow> exec_progress a c"
  by (auto simp: exec_progress_def intro: frame_kept_trans)

lemma item_progress_refl [simp]: "item_progress w w"
  by (simp add: item_progress_def same_item_def)

lemma item_progress_trans: "item_progress a b \<Longrightarrow> item_progress b c \<Longrightarrow> item_progress a c"
  by (auto simp: item_progress_def same_item_def)

definition evolves :: "store \<Rightarrow> store \<Rightarrow> bool" where
  "evolves s s' \<longleftrightarrow>
     dict_grows exec_progress (s_executions s) (s_executions s') \<and>
     dict_grows item_progress (s_work s) (s_work s') \<and>
     dict_grows (=) (s_occurrences s) (s_occurrences s') \<and>
     dict_grows (=) (s_operations s) (s_operations s') \<and>
     s_limits s' = s_limits s \<and> (s_closed s \<longrightarrow> s_closed s')"

lemma evolvesD:
  assumes "evolves s s'"
  shows "dget (s_executions s) i = Some e \<Longrightarrow> \<exists>e'. dget (s_executions s') i = Some e' \<and> exec_progress e e'"
    "dget (s_work s) k = Some w \<Longrightarrow> \<exists>w'. dget (s_work s') k = Some w' \<and> item_progress w w'"
    "dget (s_occurrences s) q = Some j \<Longrightarrow> dget (s_occurrences s') q = Some j"
    "dget (s_operations s) p = Some op \<Longrightarrow> dget (s_operations s') p = Some op"
  using assms unfolding evolves_def dict_grows_def by blast+

lemma evolves_refl [simp]: "evolves s s"
  by (simp add: evolves_def dict_grows_refl)

lemma evolves_trans: "evolves a b \<Longrightarrow> evolves b c \<Longrightarrow> evolves a c"
  by (auto simp: evolves_def
      intro: dict_grows_trans [of exec_progress, OF exec_progress_trans]
        dict_grows_trans [of item_progress, OF item_progress_trans] dict_grows_trans [of "(=)"])

lemma evolves_frame:
  "s_executions s' = s_executions s \<Longrightarrow> s_work s' = s_work s \<Longrightarrow> s_occurrences s' = s_occurrences s \<Longrightarrow>
   s_operations s' = s_operations s \<Longrightarrow> s_limits s' = s_limits s \<Longrightarrow> s_closed s' = s_closed s \<Longrightarrow> evolves s s'"
  by (simp add: evolves_def dict_grows_refl)

lemma evolves_put_exec:
  assumes "dget (s_executions s) (e_execution_id e) = Some e0" "exec_progress e0 e"
  shows "evolves s (put_exec e s)"
  using assms by (auto simp: evolves_def dict_grows_refl intro!: dict_grows_put)

lemma evolves_put_item:
  assumes "dget (s_work s) k = Some w" "item_progress w w'"
  shows "evolves s (put_item k w' s)"
  using assms by (auto simp: evolves_def dict_grows_refl intro!: dict_grows_put)

lemma complete_item_progress [simp]: "item_progress w (complete_item w)"
  by (simp add: item_progress_def complete_item_def same_item_def)

lemma evolves_completed_part: "evolves s (completed_part x item s)"
proof (cases "x_complete_work x")
  case CompleteCurrent
  then show ?thesis
    by (auto simp: completed_part_def update_item_def intro: evolves_put_item split: option.split)
next
  case CompleteAll
  then show ?thesis
    by (auto simp: completed_part_def evolves_def dict_grows_refl dict_grows_def get_complete_execution_work)
qed (simp add: completed_part_def)

lemma evolves_settled:
  assumes "fits x item e0 s" "exec_progress e0 (x_execution x)"
  shows "evolves s (settled x item s)"
proof -
  have "evolves s (put_exec (x_execution x) s)"
    using assms fits_id [OF assms(1)] by (intro evolves_put_exec) (auto simp: fits_def)
  then have "evolves s (completed_part x item (put_exec (x_execution x) s))"
    using evolves_completed_part evolves_trans by blast
  moreover have "evolves t (release_scopes e t)" for e t by (rule evolves_frame) simp_all
  ultimately show ?thesis unfolding settled_def by (auto intro: evolves_trans)
qed

lemma evolves_add_item:
  assumes "dget (s_work s) (w_work_item_id w) = None"
  shows "evolves s (add_item w s)"
  using assms by (auto simp: evolves_def dict_grows_refl add_item_def intro!: dict_grows_put)

lemma evolves_added:
  assumes "dget (s_executions s) (e_execution_id e) = None" "dget (s_work s) uuid = None"
    "dget (s_occurrences s) occ = None"
  shows "evolves s (added e occ uuid now s)"
  using assms
  by (auto simp: added_def evolves_def dict_grows_refl add_item_def intro!: dict_grows_put)

section \<open>The rules make progress\<close>

lemma progressI:
  "frame_kept e e' \<Longrightarrow> rank (e_status e) \<le> rank (e_status e') \<Longrightarrow> \<not> is_terminal (e_status e) \<Longrightarrow> exec_progress e e'"
  by (simp add: exec_progress_def)

lemma finish_execution_progress:
  assumes "finish_execution e st now r c m = Inr x" "\<not> is_terminal (e_status e)"
  shows "exec_progress e (x_execution x)"
proof (rule progressI)
  have "e_status (x_execution x) = st" "is_terminal st \<or> st = NEEDS_ATTENTION"
    using assms(1) by (auto simp: finish_execution_def bindE_Inr_iff mk_execution_ok split: if_splits)
  then show "rank (e_status e) \<le> rank (e_status (x_execution x))"
    using assms(2) rank_le [of "e_status e"] by (cases "e_status e"; cases st) auto
qed (use assms in \<open>auto intro: finish_execution_frame\<close>)

lemma cancel_execution_progress:
  assumes "cancel_execution e now = Inr x" shows "exec_progress e (x_execution x)"
proof (cases "e_status e \<in> {QUEUED, INTERRUPTED, RUNNING}")
  case True
  then have "rank (e_status e) \<le> rank (e_status (x_execution x)) \<and> \<not> is_terminal (e_status e)"
    using assms by (auto simp: cancel_execution_def bindE_Inr_iff mk_execution_ok keep_transition_def)
  then show ?thesis using cancel_execution_frame [OF assms] by (auto intro: progressI)
next
  case False
  then have "x_execution x = e"
    using assms by (auto simp: cancel_execution_def keep_transition_def split: if_splits)
  then show ?thesis by simp
qed

lemma resolve_execution_progress:
  assumes "resolve_execution e r reason now = Inr x" shows "exec_progress e (x_execution x)"
  using assms resolve_execution_frame [OF assms]
  by (cases r) (auto simp: resolve_execution_def bindE_Inr_iff mk_execution_ok Let_def exec_progress_def split: if_splits)

lemma expire_queued_progress:
  "expire_queued e now = Inr x \<Longrightarrow> e_status e = QUEUED \<Longrightarrow> exec_progress e (x_execution x)"
  using expire_queued_frame [of e now x]
  by (auto simp: expire_queued_def bindE_Inr_iff mk_execution_ok exec_progress_def)

lemma recover_expired_claim_progress:
  assumes "recover_expired_claim e k now = Inr x"
    "e_status e \<in> {QUEUED, RUNNING, CANCEL_REQUESTED, INTERRUPTED}"
  shows "exec_progress e (x_execution x)"
  using assms recover_expired_claim_frame [OF assms(1)]
  by (auto simp: recover_expired_claim_def bindE_Inr_iff mk_execution_ok keep_transition_def exec_progress_def
      split: if_splits)

lemma interrupt_execution_progress:
  assumes "interrupt_execution e ids now = Inr x"
    "e_status e \<in> {QUEUED, RUNNING, CANCEL_REQUESTED, INTERRUPTED}"
  shows "exec_progress e (x_execution x)"
  using assms interrupt_execution_frame [OF assms(1)]
  by (auto simp: interrupt_execution_def bindE_Inr_iff mk_execution_ok exec_progress_def
      split: if_splits option.splits)

lemma authorize_start_progress:
  assumes "authorize_start e k adm now d tok = Inr a"
  shows "exec_progress e (sa_execution a)"
  using assms authorize_start_frame [OF assms]
  by (auto simp: authorize_start_def bindE_Inr_iff mk_execution_ok exec_progress_def split: if_splits)

text \<open>The rules the store applies on its own account never raise on a stored snapshot.\<close>

lemma text_ok_simp:
  "text_ok s None \<longleftrightarrow> s \<noteq> [] \<and> s = py_strip s \<and> CHR 0x00 \<notin> set s"
  by (auto simp: text_ok_def)

lemma expire_queued_total: "valid_execution e \<Longrightarrow> \<exists>x. expire_queued e now = Inr x"
proof -
  assume "valid_execution e"
  moreover have "text_ok ''automation.queue_timeout'' None"
    "text_ok ''Execution exceeded its queue deadline'' None" by code_simp+
  ultimately show ?thesis by (simp add: expire_queued_def bindE_Inr_iff mk_execution_ok valid_execution_iff)
qed

lemma recover_expired_claim_total: "valid_execution e \<Longrightarrow> \<exists>x. recover_expired_claim e k now = Inr x"
proof -
  assume "valid_execution e"
  moreover have "text_ok ''automation.claim_lost_after_start'' None"
    "text_ok ''Execution ownership expired after start'' None" by code_simp+
  ultimately show ?thesis
    by (simp add: recover_expired_claim_def bindE_Inr_iff mk_execution_ok valid_execution_iff)
qed

lemma cancel_execution_total:
  "valid_execution e \<Longrightarrow> e_status e \<noteq> NEEDS_ATTENTION \<Longrightarrow> \<exists>x. cancel_execution e now = Inr x"
  by (simp add: cancel_execution_def bindE_Inr_iff mk_execution_ok valid_execution_iff)

lemma claim_candidate_total: "valid_execution e \<Longrightarrow> \<exists>x. claim_candidate e k now = Inr x"
  using expire_queued_total [of e now] by (auto simp: claim_candidate_def bindE_Inr_iff)

end
