(* ===== verification/Automation_Store_Ops.thy ===== *)
theory Automation_Store_Ops
  imports Automation_Store_Evolve
begin

text \<open>
  Each operation of the in-memory store keeps the invariant, lets the store only move forward
  and raises without a trace. The step relation collects the operations; the invariant and
  the progress relation then hold along every run.
\<close>

section \<open>Keeping the invariant through control flow\<close>

definition keeps :: "store \<Rightarrow> 'a store_outcome \<Rightarrow> bool" where
  "keeps s r \<longleftrightarrow> store_inv (snd r) \<and> evolves s (snd r) \<and> (\<forall>e. fst r = Inl e \<longrightarrow> snd r = s)"

named_theorems keeps_intros \<open>control constructs that keep the store invariant\<close>

lemma keeps_same [keeps_intros]: "store_inv s \<Longrightarrow> keeps s (r, s)"
  by (simp add: keeps_def)

lemma keeps_check [keeps_intros]:
  "store_inv s \<Longrightarrow> (\<And>a. r = Inr a \<Longrightarrow> keeps s (k a)) \<Longrightarrow> keeps s (check r s k)"
  by (cases r) (auto simp: keeps_def)

lemma keeps_if [keeps_intros]:
  "(b \<Longrightarrow> keeps s r) \<Longrightarrow> (\<not> b \<Longrightarrow> keeps s r') \<Longrightarrow> keeps s (if b then r else r')"
  by simp

lemma keeps_option [keeps_intros]:
  "(x = None \<Longrightarrow> keeps s r) \<Longrightarrow> (\<And>y. x = Some y \<Longrightarrow> keeps s (f y)) \<Longrightarrow>
   keeps s (case x of None \<Rightarrow> r | Some y \<Rightarrow> f y)"
  by (cases x) auto

lemma keeps_let [keeps_intros]: "keeps s (f a) \<Longrightarrow> keeps s (let x = a in f x)"
  by simp

lemma keeps_Inr: "store_inv s' \<Longrightarrow> evolves s s' \<Longrightarrow> keeps s (Inr a, s')"
  by (simp add: keeps_def)

lemma keepsD: "keeps s r \<Longrightarrow> store_inv (snd r) \<and> evolves s (snd r)"
  by (simp add: keeps_def)

lemma keeps_traceless: "keeps s r \<Longrightarrow> traceless s r"
  by (simp add: keeps_def traceless_def)

lemma keeps_and_then:
  "keeps s r \<Longrightarrow> (\<And>a s'. r = (Inr a, s') \<Longrightarrow> store_inv s' \<Longrightarrow> evolves s s' \<Longrightarrow> keeps s (k a s')) \<Longrightarrow>
   keeps s (and_then r k)"
  by (cases r; cases "fst r") (auto simp: keeps_def)

section \<open>Recording operations and tasks\<close>

lemma store_inv_tasks:
  assumes "store_inv s" "dwf d" "\<And>k t. dget d k = Some t \<Longrightarrow> t_task_id t = k"
    "int (length d) \<le> l_max_tasks (s_limits s)"
  shows "store_inv (s\<lparr>s_tasks := d\<rparr>)"
proof -
  have "link_inv (s\<lparr>s_tasks := d\<rparr>)"
    using assms by (simp add: store_inv_def link_inv_def ids_inv_def items_inv_def item_linked_def
      keys_inv_def occurrences_inv_def)
  moreover have "life_inv (s\<lparr>s_tasks := d\<rparr>) = life_inv s" by (simp add: life_inv_def exec_ok_at_def)
  moreover have "scope_inv (s\<lparr>s_tasks := d\<rparr>) = scope_inv s" by (rule scope_inv_frame) simp_all
  ultimately show ?thesis using assms by (simp add: store_inv_def size_inv_def)
qed

lemma evolves_tasks [simp]: "evolves s (s\<lparr>s_tasks := d\<rparr>)"
  by (rule evolves_frame) simp_all

lemma store_inv_put_task:
  assumes "store_inv s" "t_task_id t = k"
    "dget (s_tasks s) k = None \<Longrightarrow> int (length (s_tasks s)) < l_max_tasks (s_limits s)"
  shows "store_inv (s\<lparr>s_tasks := dput k t (s_tasks s)\<rparr>)"
  using assms
  by (intro store_inv_tasks)
     (auto simp: dict_simps dput_length store_inv_def link_inv_def ids_inv_def size_inv_def split: if_splits)

lemma store_inv_del_task: "store_inv s \<Longrightarrow> store_inv (s\<lparr>s_tasks := ddel k (s_tasks s)\<rparr>)"
  using length_delete_le [of k "s_tasks s"]
  by (intro store_inv_tasks)
     (auto simp: dict_simps store_inv_def link_inv_def ids_inv_def size_inv_def split: if_splits)

lemma store_inv_operations:
  "store_inv s \<Longrightarrow> int (length d) \<le> l_max_operations (s_limits s) \<Longrightarrow> store_inv (s\<lparr>s_operations := d\<rparr>)"
  by (simp add: store_inv_def life_inv_def exec_ok_at_def scope_inv_def holders_def allocated_def size_inv_def)

text \<open>The capacity check in front of a command is the one \<open>save_operation\<close> repeats behind it.\<close>

lemma save_operation_keeps:
  assumes "store_inv s'" "evolves s s'"
    "operation_result s ns owner rid dig = Inr None" "require_operation_capacity s rid = Inr u"
    "s_operations s' = s_operations s"
  shows "\<exists>s''. save_operation ns owner rid dig res s' = (Inr (), s'') \<and> store_inv s'' \<and> evolves s s''"
proof (cases rid)
  case None then show ?thesis using assms by (simp add: save_operation_def)
next
  case (Some r)
  let ?d = "dput (ns, owner, r) \<lparr>o_input_digest = dig, o_result = res\<rparr> (s_operations s')"
  have lim: "s_limits s' = s_limits s" using assms(2) by (simp add: evolves_def)
  have cap: "int (length (s_operations s')) < l_max_operations (s_limits s')"
    using assms(4,5) Some lim by (simp add: require_operation_capacity_def ensure_capacity_def)
  have absent: "dget (s_operations s') (ns, owner, r) = None"
    using assms(3,5) Some by (auto simp: operation_result_def split: option.splits if_splits)
  have "store_inv (s'\<lparr>s_operations := ?d\<rparr>)"
    using assms(1) cap by (intro store_inv_operations) (auto simp: dput_length)
  moreover have "evolves s' (s'\<lparr>s_operations := ?d\<rparr>)"
    using absent by (auto simp: evolves_def dict_grows_refl intro!: dict_grows_put)
  then have "evolves s (s'\<lparr>s_operations := ?d\<rparr>)" using assms(2) evolves_trans by blast
  ultimately show ?thesis using Some cap by (simp add: save_operation_def ensure_capacity_def)
qed

lemma save_last_keeps:
  assumes "operation_result s ns owner rid dig = Inr None" "require_operation_capacity s rid = Inr u"
    "store_inv s'" "evolves s s'" "s_operations s' = s_operations s"
  shows "keeps s (and_then (save_operation ns owner rid dig res s') (\<lambda>_ s2. (Inr a, s2)))"
    "keeps s (save_operation ns owner rid dig res s')"
  using save_operation_keeps [OF assms(3,4,1,2,5), of res] by (auto simp: keeps_Inr)

lemma create_task_keeps: "store_inv s \<Longrightarrow> keeps s (store_create_task task rid dig s)"
  unfolding store_create_task_def
  by (intro keeps_intros save_last_keeps store_inv_put_task) (auto simp: ensure_capacity_def)

lemma update_task_keeps: "store_inv s \<Longrightarrow> keeps s (store_update_task task expected rid dig s)"
  unfolding store_update_task_def
  by (intro keeps_intros save_last_keeps store_inv_put_task)
     (auto simp: owned_task_def split: option.splits)

section \<open>Transitions\<close>

lemma apply_plain_keeps:
  assumes "store_inv s" "fits x item e0 s" "x_deadline_work_at x = None" "store_inv (settled x item s)"
    "exec_progress e0 (x_execution x)"
  shows "keeps s (apply_transition x item uuid now s)"
  using assms by (simp add: apply_transition_plain keeps_Inr evolves_settled)

lemma execution_of_Inr [simp]: "execution_of s i = Inr e \<longleftrightarrow> dget (s_executions s) i = Some e"
  by (auto simp: execution_of_def split: option.splits)

lemma owned_execution_Inr: "owned_execution s ns ow i = Inr e \<Longrightarrow> dget (s_executions s) i = Some e"
  by (auto simp: owned_execution_def split: option.splits if_splits)

lemma cancel_apply_keeps:
  assumes "store_inv s" "dget (s_executions s) i = Some e" "cancel_execution e now = Inr x"
  shows "keeps s (apply_transition x None uuid t s)"
  using apply_plain_keeps [OF assms(1) cancel_settled [OF assms]] cancel_execution_progress [OF assms(3)] by blast

lemma resolve_apply_keeps:
  assumes "store_inv s" "dget (s_executions s) i = Some e" "resolve_execution e r reason now = Inr x"
  shows "keeps s (apply_transition x None uuid t s)"
  using apply_plain_keeps [OF assms(1) resolve_settled [OF assms]] resolve_execution_progress [OF assms(3)] by blast

lemma apply_transition_operations:
  "apply_transition x item uuid now s = (r, s') \<Longrightarrow> s_operations s' = s_operations s"
  by (auto simp: apply_transition_def Let_def check_def and_then_def create_work_def complete_step_def
      update_item_def complete_execution_work_def
      split: sum.splits option.splits if_splits prod.splits complete_work.splits)

text \<open>A transition followed by the recording of its result.\<close>

lemma apply_save_keeps:
  assumes "operation_result s ns owner rid dig = Inr None" "require_operation_capacity s rid = Inr u"
    "keeps s (apply_transition x None uuid now s)"
  shows "keeps s (and_then (apply_transition x None uuid now s) (\<lambda>updated s1.
           and_then (save_operation ns owner rid dig (ExecutionResult updated) s1) (\<lambda>_ s2. (Inr updated, s2))))"
  by (rule keeps_and_then [OF assms(3)])
     (blast intro: save_last_keeps(1) [OF assms(1,2)] apply_transition_operations)

lemma cancel_execution_keeps:
  "store_inv s \<Longrightarrow> keeps s (store_cancel_execution ns owner i rid dig now s)"
  unfolding store_cancel_execution_def
  by (intro keeps_intros apply_save_keeps) (auto intro: cancel_apply_keeps dest: owned_execution_Inr)

lemma resolve_execution_keeps:
  "store_inv s \<Longrightarrow> keeps s (store_resolve_execution ns owner i res rid dig reason now s)"
  unfolding store_resolve_execution_def
  by (intro keeps_intros apply_save_keeps) (auto intro: resolve_apply_keeps dest: owned_execution_Inr)

text \<open>A valid claim and the execution it stands for.\<close>

lemma claimed_execution:
  assumes "store_inv s" "valid_claim s c t = Inr w" "dget (s_executions s) (w_execution_id w) = Some e"
  shows "w_execution_id w \<in> s_admitted s" "e_status e \<in> {QUEUED, RUNNING, CANCEL_REQUESTED, INTERRUPTED}"
    "work_of s e (w_kind w) = Some w" "w_kind w = EXPIRE_INTERRUPT \<longleftrightarrow> e_status e = INTERRUPTED"
proof -
  note c = valid_claimD [OF assms(2)]
  have st: "w_status w = CLAIMED" by (rule claim_matches_claimed [OF c(2)])
  obtain e' where e': "dget (s_executions s) (w_execution_id w) = Some e'" "e_execution_id e' = w_execution_id w"
    "work_of s e' (w_kind w) = Some w"
    "w_kind w = EXECUTE \<Longrightarrow> e_status e' \<in> {QUEUED, RUNNING, CANCEL_REQUESTED}"
    "w_kind w = EXPIRE_INTERRUPT \<Longrightarrow> e_status e' = INTERRUPTED" "e_execution_id e' \<in> s_admitted s"
    using active_item [OF assms(1) c(1)] st by (metis work_status.distinct(6))
  then have "e' = e" using assms(3) by simp
  then show "w_execution_id w \<in> s_admitted s" "e_status e \<in> {QUEUED, RUNNING, CANCEL_REQUESTED, INTERRUPTED}"
    "work_of s e (w_kind w) = Some w" "w_kind w = EXPIRE_INTERRUPT \<longleftrightarrow> e_status e = INTERRUPTED"
    using e' by (cases "w_kind w"; auto)+
qed

lemma finish_execution_keeps:
  "store_inv s \<Longrightarrow> keeps s (store_finish_execution c st res code msg t0 t1 s)"
  unfolding store_finish_execution_def
proof (intro keeps_intros)
  fix u w e x assume s: "store_inv s" and w: "valid_claim s c t0 = Inr w" "execution_of s (w_execution_id w) = Inr e"
    and x: "finish_execution e st t1 res code msg = Inr x"
  then have e: "dget (s_executions s) (w_execution_id w) = Some e" by simp
  note cl = claimed_execution [OF s w(1) e]
  have "\<not> is_terminal (e_status e)" using cl(2) by auto
  then show "keeps s (apply_transition x (Some (c_work_item_id c)) [] t1 s)"
    using apply_plain_keeps [OF s finish_settled [OF s e cl(1) x]] finish_execution_progress [OF x] by blast
qed

lemma renew_claim_keeps: "store_inv s \<Longrightarrow> keeps s (store_renew_claim c d t0 t1 s)"
  unfolding store_renew_claim_def Let_def
proof (intro keeps_intros)
  fix u w assume s: "store_inv s" and w: "valid_claim s c t0 = Inr w"
  let ?w = "w\<lparr>w_lease_until := Some (t1 + d)\<rparr>"
  have c: "w_status w = CLAIMED" "dget (s_work s) (c_work_item_id c) = Some w"
    using valid_claimD [OF w] claim_matches_claimed by blast+
  then obtain tok where "w_claim_token w = Some tok"
    using s link_item [of s _ w] by (metis item_wf_def not_None_eq store_inv_def)
  then obtain cl where "claim_from ?w = Inr cl" by (simp add: claim_from_def)
  moreover have "evolves s (put_item (c_work_item_id c) ?w s)"
    using c by (intro evolves_put_item) (auto simp: item_progress_def same_item_def)
  ultimately show "keeps s (claim_from ?w, put_item (c_work_item_id c) ?w s)"
    using renew_store_inv [OF s c(2,1)] by (simp add: keeps_Inr)
qed

lemma authorize_start_keeps: "store_inv s \<Longrightarrow> keeps s (store_authorize_start c d t0 t1 tok s)"
  unfolding store_authorize_start_def
proof (intro keeps_intros)
  fix u w e a assume s: "store_inv s" and w: "valid_claim s c t0 = Inr w" "execution_of s (w_execution_id w) = Inr e"
    and a: "authorize_start e (w_kind w) (e_execution_id e \<in> s_admitted s) t1 d tok = Inr a"
  have e: "dget (s_executions s) (w_execution_id w) = Some e" using w by simp
  have i: "e_execution_id e = w_execution_id w" "e_execution_id (sa_execution a) = e_execution_id e"
    using store_inv_exec [OF s e] authorize_start_frame [OF a] by (auto simp: frame_kept_def same_subject_def)
  have "store_inv (s\<lparr>s_executions := dput (e_execution_id e) (sa_execution a) (s_executions s)\<rparr>)"
    by (rule authorize_store_inv [OF s _ _ e a]) (use valid_claimD [OF w(1)] claim_matches_claimed in blast)+
  moreover have "evolves s (s\<lparr>s_executions := dput (e_execution_id e) (sa_execution a) (s_executions s)\<rparr>)"
    using evolves_put_exec [of s "sa_execution a" e] i e authorize_start_progress [OF a] by simp
  ultimately show "keeps s (Inr a, s\<lparr>s_executions := dput (e_execution_id e) (sa_execution a) (s_executions s)\<rparr>)"
    by (rule keeps_Inr)
qed

section \<open>Interruption\<close>

lemma apply_transition_deadline:
  assumes f: "fits x item e0 s" and d: "x_deadline_work_at x = Some d" "\<not> x_release_capacity x"
  shows "apply_transition x item uuid now s =
    (if dget (s_work_keys s) (e_namespace e0, e_execution_id e0, EXPIRE_INTERRUPT) = None \<and>
        \<not> int (length (s_work s)) < l_max_work_items (s_limits s)
     then (Inl (AutomationStoreError ''Memory Automation Store capacity is exhausted''), s)
     else and_then (create_work (x_execution x) EXPIRE_INTERRUPT d uuid now (settled x item s))
            (\<lambda>_ s4. (Inr (x_execution x), s4)))"
  using assms fits_id [OF f]
  by (auto simp: apply_transition_def Let_def complete_step_settled [OF f] settled_def ensure_capacity_def)

lemma interrupted_transition:
  assumes "interrupt_execution e ids now = Inr x"
  obtains d where "x_complete_work x = CompleteCurrent" "\<not> x_release_capacity x" "x_deadline_work_at x = Some d"
    "e_execution_deadline e = Some d" "e_status (x_execution x) = INTERRUPTED"
    "e_execution_deadline (x_execution x) = e_execution_deadline e"
    "e_start_authorized_at (x_execution x) = e_start_authorized_at e"
    "e_finished_at (x_execution x) = e_finished_at e"
  using assms
  by (auto simp: interrupt_execution_def bindE_Inr_iff mk_execution_ok split: if_splits option.splits)

lemma interrupt_new_deadline:
  assumes s: "store_inv s" and f: "fits x (Some k) e s" and w: "dget (s_work s) k = Some w" "w_kind w = EXECUTE"
    and x: "x_complete_work x = CompleteCurrent" "\<not> x_release_capacity x"
    and wk: "work_of s e EXECUTE = Some w"
    and st: "e_status (x_execution x) = INTERRUPTED" "started (x_execution x)"
      "e_execution_deadline (x_execution x) \<noteq> None" "e_finished_at (x_execution x) = None"
      "e_execution_id e \<in> s_admitted s"
    and nokey: "dget (s_work_keys s) (e_namespace e, e_execution_id e, EXPIRE_INTERRUPT) = None"
    and fresh: "dget (s_work s) uuid = None" and cap: "int (length (s_work s)) < l_max_work_items (s_limits s)"
  shows "store_inv (add_item (new_item (x_execution x) EXPIRE_INTERRUPT d uuid now) (settled x (Some k) s))"
    (is "store_inv (add_item ?n ?S)")
proof -
  have i: "e_execution_id (x_execution x) = e_execution_id e" "e_namespace (x_execution x) = e_namespace e"
    using fits_id [OF f] by auto
  have S: "link_inv ?S" by (rule settled_link [OF f])
  have SW: "s_work ?S = dput k (complete_item w) (s_work s)"
    using x w by (simp add: settled_def completed_part_def update_item_def)
  have fS: "dget (s_work ?S) (w_work_item_id ?n) = None" using fresh w by (auto simp: SW dict_simps)
  have l: "link_inv (add_item ?n ?S)"
    by (rule link_inv_add_item [OF S, of _ "x_execution x"]) (use fS nokey i in \<open>simp_all add: dict_simps\<close>)
  have loc: "local_to (e_execution_id e) s (add_item ?n ?S)"
    using local_to_trans [OF settled_local [OF f]] local_to_add_item [OF fS] i by simp
  have w0: "work_of ?S (x_execution x) EXECUTE = Some (complete_item w)"
    using settled_work_of [OF f, of EXECUTE] x w wk i by (simp add: completes_def work_of_def)
  have "exec_ok_at (add_item ?n ?S) (x_execution x)"
    using st x i w0 by (simp add: exec_tables work_of_add_item [OF S fS])
  then have "life_inv (add_item ?n ?S)"
    using life_inv_local [OF _ _ loc l] s i by (simp add: store_inv_def dict_simps)
  moreover have "scope_inv (add_item ?n ?S)"
    using settled_scope [OF f] s scope_inv_frame [of "add_item ?n ?S" ?S] by (simp add: store_inv_def)
  moreover have "size_inv (add_item ?n ?S)"
    using settled_size [OF f] s cap fS by (simp add: store_inv_def size_inv_def add_item_def dput_length)
  ultimately show ?thesis using l by (simp add: store_inv_def)
qed

lemma interrupt_old_deadline:
  assumes s: "store_inv s" and f: "fits x (Some k) e s" and w: "dget (s_work s) k = Some w" "w_kind w = EXPIRE_INTERRUPT"
    and x: "x_complete_work x = CompleteCurrent" "\<not> x_release_capacity x"
    and wk: "work_of s e EXPIRE_INTERRUPT = Some w" "work_of s e EXECUTE = Some v" "w_status v = COMPLETED"
    and st: "e_status (x_execution x) = INTERRUPTED" "started (x_execution x)"
      "e_execution_deadline (x_execution x) \<noteq> None" "e_finished_at (x_execution x) = None"
      "e_execution_id e \<in> s_admitted s"
  shows "store_inv (put_item k (recover_item CompleteNone (complete_item w)\<lparr>w_available_at := d\<rparr>) (settled x (Some k) s))"
    (is "store_inv (put_item k ?r ?S)")
proof -
  have i: "e_execution_id (x_execution x) = e_execution_id e" "e_namespace (x_execution x) = e_namespace e"
    using fits_id [OF f] by auto
  have S: "link_inv ?S" by (rule settled_link [OF f])
  have SW: "dget (s_work ?S) k = Some (complete_item w)"
    using x w by (simp add: settled_def completed_part_def update_item_def dict_simps)
  have key: "item_key w = (e_namespace e, e_execution_id e, EXPIRE_INTERRUPT)"
    using wk(1) key_item [of s] s by (metis option.inject store_inv_def work_ofD)
  have "item_wf w" using s w link_item [of s] by (metis store_inv_def)
  then have l: "link_inv (put_item k ?r ?S)"
    by (intro link_inv_put_item [OF S SW]) (auto simp: recover_item_def complete_item_def same_item_def item_wf_def)
  have ei: "w_execution_id w = e_execution_id e" using key by (simp add: item_key_def)
  have loc: "local_to (e_execution_id e) s (put_item k ?r ?S)"
    using local_to_trans [OF settled_local [OF f]] local_to_put_item [OF SW] ei by simp
  have "work_of ?S (x_execution x) EXECUTE = Some v"
    using settled_work_of [OF f, of EXECUTE] x w wk i by (simp add: completes_def work_of_def)
  then have "exec_ok_at (put_item k ?r ?S) (x_execution x)"
    using st x i wk(3) key by (simp add: exec_tables work_of_put_item [OF S SW] recover_item_def)
  then have "life_inv (put_item k ?r ?S)"
    using life_inv_local [OF _ _ loc l] s i by (simp add: store_inv_def dict_simps)
  moreover have "scope_inv (put_item k ?r ?S)"
    using settled_scope [OF f] s scope_inv_frame [of "put_item k ?r ?S" ?S] by (simp add: store_inv_def)
  moreover have "size_inv (put_item k ?r ?S)"
    using settled_size [OF f] s SW by (simp add: store_inv_def size_inv_def dput_length)
  ultimately show ?thesis using l by (simp add: store_inv_def)
qed

lemma reset_item:
  "complete_item w\<lparr>w_available_at := d, w_status := PENDING, w_worker_id := None,
     w_claim_token := None, w_lease_until := None\<rparr> =
   recover_item CompleteNone (complete_item w)\<lparr>w_available_at := d\<rparr>"
  by (cases w) (simp add: recover_item_def complete_item_def)

lemma interrupt_apply_keeps:
  assumes s: "store_inv s" and c: "valid_claim s c t0 = Inr w" and e: "dget (s_executions s) (w_execution_id w) = Some e"
    and x: "interrupt_execution e ids t1 = Inr x" and fresh: "dget (s_work s) uuid = None"
  shows "keeps s (apply_transition x (Some (c_work_item_id c)) uuid t2 s)"
proof -
  let ?k = "c_work_item_id c" and ?S = "settled x (Some (c_work_item_id c)) s"
  have w: "dget (s_work s) ?k = Some w" by (rule valid_claimD [OF c])
  note cl = claimed_execution [OF s c e] and inv = store_inv_exec [OF s e]
  obtain d where xx: "x_complete_work x = CompleteCurrent" "\<not> x_release_capacity x" "x_deadline_work_at x = Some d"
    "e_execution_deadline e = Some d" "e_status (x_execution x) = INTERRUPTED"
    "e_execution_deadline (x_execution x) = e_execution_deadline e"
    "e_start_authorized_at (x_execution x) = e_start_authorized_at e"
    "e_finished_at (x_execution x) = e_finished_at e"
    using interrupted_transition [OF x] by blast
  have f: "fits x (Some ?k) e s"
    by (rule fitsI [OF s e]) (use w x in \<open>auto intro: interrupt_execution_frame interrupt_execution_valid\<close>)
  have i: "e_execution_id (x_execution x) = e_execution_id e" "e_namespace (x_execution x) = e_namespace e"
    using fits_id [OF f] by auto
  have adm: "e_execution_id e \<in> s_admitted s" using cl(1) inv(1) by simp
  have st: "started (x_execution x)" "e_execution_deadline (x_execution x) \<noteq> None" "e_finished_at (x_execution x) = None"
    using inv(3) xx cl(2) by (auto simp: exec_tables)
  have ev: "evolves s ?S" by (rule evolves_settled [OF f interrupt_execution_progress [OF x cl(2)]])
  have SW: "s_work ?S = dput ?k (complete_item w) (s_work s)"
    using xx w by (simp add: settled_def completed_part_def update_item_def)
  show ?thesis
  proof (cases "dget (s_work_keys s) (e_namespace e, e_execution_id e, EXPIRE_INTERRUPT)")
    case None
    then have kind: "w_kind w = EXECUTE" using cl(3) by (cases "w_kind w") (auto simp: work_of_def)
    let ?n = "new_item (x_execution x) EXPIRE_INTERRUPT d uuid t2"
    have "store_inv (add_item ?n ?S)" if "int (length (s_work s)) < l_max_work_items (s_limits s)"
      using interrupt_new_deadline [OF s f w kind] xx cl(3) kind st adm None fresh that by simp
    moreover have "uuid \<noteq> ?k" using fresh w by auto
    then have "evolves s (add_item ?n ?S)"
      using fresh by (intro evolves_trans [OF ev] evolves_add_item) (simp add: SW dict_simps)
    ultimately show ?thesis
      using None i s by (simp add: apply_transition_deadline [OF f xx(3,2)] create_work_new keeps_Inr keeps_same)
  next
    case (Some k')
    then have some: "work_of s e EXPIRE_INTERRUPT \<noteq> None"
      using key_item [OF _ Some] s by (auto simp: work_of_def store_inv_def)
    then have int: "e_status e = INTERRUPTED"
      using inv(3) cl(2) by (auto simp: exec_tables)
    then have kind: "w_kind w = EXPIRE_INTERRUPT" using cl(4) by simp
    obtain v where v: "work_of s e EXECUTE = Some v" "w_status v = COMPLETED"
      using inv(3) int by (auto simp: exec_tables)
    have k': "k' = ?k"
      using link_item [of s ?k w] s w Some kind e by (metis item_key_def option.inject store_inv_def)
    let ?r = "recover_item CompleteNone (complete_item w)\<lparr>w_available_at := d\<rparr>"
    have "create_work (x_execution x) EXPIRE_INTERRUPT d uuid t2 ?S = (Inr (), put_item ?k ?r ?S)"
      using Some k' i by (simp add: create_work_def Let_def SW dict_simps reset_item)
    moreover have "store_inv (put_item ?k ?r ?S)"
      using interrupt_old_deadline [OF s f w kind] xx cl(3) kind v st adm by simp
    moreover have "evolves ?S (put_item ?k ?r ?S)"
      by (rule evolves_put_item [where w = "complete_item w"])
         (auto simp: SW dict_simps item_progress_def same_item_def recover_item_def complete_item_def)
    then have "evolves s (put_item ?k ?r ?S)" using ev evolves_trans by blast
    ultimately show ?thesis
      using Some i by (simp add: apply_transition_deadline [OF f xx(3,2)] keeps_Inr)
  qed
qed

lemma mark_interrupted_keeps:
  "store_inv s \<Longrightarrow> dget (s_work s) uuid = None \<Longrightarrow> keeps s (store_mark_interrupted c ids t0 t1 t2 uuid s)"
  unfolding store_mark_interrupted_def
  by (intro keeps_intros) (auto intro: interrupt_apply_keeps)

end
