(* ===== verification/Automation_Store_Run.thy ===== *)
theory Automation_Store_Run
  imports Automation_Store_Ops
begin

text \<open>
  The operations that loop (deleting a task, materializing due runs, claiming work), the step
  relation of the in-memory store and its runs.
\<close>

section \<open>Deleting a task\<close>

lemma cancel_queued_keeps:
  assumes "store_inv s" "distinct (map e_execution_id es)"
    "\<And>e. e \<in> set es \<Longrightarrow> dget (s_executions s) (e_execution_id e) = Some e"
  shows "\<exists>s'. cancel_queued task_id now es s = (Inr (), s') \<and> store_inv s' \<and> evolves s s' \<and>
     s_operations s' = s_operations s"
  using assms
proof (induction task_id now es s rule: cancel_queued.induct)
  case (2 task_id now e es s)
  show ?case
  proof (cases "e_task_id e \<noteq> Some task_id \<or> e_status e \<noteq> QUEUED")
    case True then show ?thesis using 2 by simp
  next
    case False
    have e: "dget (s_executions s) (e_execution_id e) = Some e" using 2 by simp
    then obtain x where x: "cancel_execution e now = Inr x"
      using cancel_execution_total [of e now] store_inv_exec [OF "2.prems"(1) e] False by auto
    note c = cancel_settled [OF "2.prems"(1) e x]
    have ap: "apply_transition x None [] now s = (Inr (x_execution x), settled x None s)"
      by (rule apply_transition_plain [OF c(1,2)])
    have "dget (s_executions (settled x None s)) (e_execution_id e') = Some e'" if "e' \<in> set es" for e'
    proof -
      have "e_execution_id e' \<noteq> e_execution_id e" using distinct_map_Cons [OF "2.prems"(2) that] .
      then show ?thesis using settled_local [OF c(1)] "2.prems"(3) that by (simp add: local_to_def)
    qed
    then have "\<exists>s'. cancel_queued task_id now es (settled x None s) = (Inr (), s') \<and> store_inv s' \<and>
       evolves (settled x None s) s' \<and> s_operations s' = s_operations (settled x None s)"
      using "2.IH"(2) [OF False x ap c(3)] "2.prems"(2) by simp
    moreover have "evolves s (settled x None s)"
      by (rule evolves_settled [OF c(1) cancel_execution_progress [OF x]])
    ultimately show ?thesis using False x ap by (auto intro: evolves_trans)
  qed
qed simp

lemma stored_executions:
  assumes "store_inv s"
  shows "distinct (map e_execution_id (dvalues (s_executions s)))"
    "\<And>e. e \<in> set (dvalues (s_executions s)) \<Longrightarrow> dget (s_executions s) (e_execution_id e) = Some e"
proof -
  have wf: "dwf (s_executions s)" using assms by (simp add: store_inv_def link_inv_def ids_inv_def)
  have id: "dget (s_executions s) k = Some e \<Longrightarrow> e_execution_id e = k" for k e
    using store_inv_exec [OF assms] by blast
  then have "map e_execution_id (dvalues (s_executions s)) = dkeys (s_executions s)"
    using wf by (auto simp: map_of_is_SomeI)
  then show "distinct (map e_execution_id (dvalues (s_executions s)))" using wf by metis
  show "e \<in> set (dvalues (s_executions s)) \<Longrightarrow> dget (s_executions s) (e_execution_id e) = Some e" for e
    using id wf by (auto simp: dvalues_dget simp del: set_map)
qed

lemma delete_task_keeps:
  assumes s: "store_inv s" shows "keeps s (store_delete_task ns owner tid expected rid dig now s)"
  unfolding store_delete_task_def
proof (intro keeps_intros s)
  fix u1 u2 previous task u3 u4
  assume op: "operation_result s ns owner rid dig = Inr previous" "previous = None"
    and cap: "require_operation_capacity s rid = Inr u4"
  let ?s = "s\<lparr>s_tasks := ddel tid (s_tasks s)\<rparr>"
  have i: "store_inv ?s" using s by (rule store_inv_del_task)
  obtain s' where "cancel_queued tid now (dvalues (s_executions s)) ?s = (Inr (), s')" "store_inv s'"
    "evolves ?s s'" "s_operations s' = s_operations ?s"
    using cancel_queued_keeps [OF i] stored_executions [OF i] by (metis (no_types, lifting) store.select_convs(3) store.surjective store.update_convs(2))
  moreover from this have "evolves s s'" using evolves_trans evolves_tasks by blast
  ultimately show "keeps s (and_then (cancel_queued tid now (dvalues (s_executions s)) ?s)
      (\<lambda>_ s'. save_operation ns owner rid dig (TextResult tid) s'))"
    using op cap by (simp add: save_last_keeps)
qed

section \<open>Enqueueing and materializing\<close>

lemma enqueue_keeps:
  assumes s: "store_inv s" and f: "fresh_execution e" "dget (s_work s) uuid = None"
  shows "keeps s (store_enqueue_execution e occ rid dig expected uuid now s)"
  unfolding store_enqueue_execution_def
proof (intro keeps_intros s)
  fix u1 previous u2 u3 u4 u5 u6 u7 u8
  let ?occ = "(e_namespace e, occ)"
  let ?t = "s\<lparr>s_executions := dput (e_execution_id e) e (s_executions s),
     s_occurrences := dput ?occ (e_execution_id e) (s_occurrences s)\<rparr>"
  assume op: "operation_result s (e_namespace e) (e_owner_id e) rid dig = Inr previous" "previous = None"
    and occ: "dget (s_occurrences s) ?occ = None"
    and new: "require (dget (s_executions s) (e_execution_id e) = None) (RequestConflictError ''Execution identity already exists'') = Inr u3"
    and cap: "ensure_capacity (length (s_executions s)) (l_max_executions (s_limits s)) = Inr u6"
      "require_operation_capacity s rid = Inr u7" "ensure_capacity (length (s_work s)) (l_max_work_items (s_limits s)) = Inr u8"
  have c: "create_work e EXECUTE (e_queued_at e) uuid now ?t = (Inr (), added e ?occ uuid now s)"
    using new cap no_key_for_unknown [of s "e_execution_id e"] s
    by (simp add: create_work_new added_def store_inv_def ensure_capacity_def)
  have "store_inv (added e ?occ uuid now s)" "evolves s (added e ?occ uuid now s)"
    using added_store_inv [OF s f(1) _ f(2)] evolves_added [OF _ f(2) occ] new cap
    by (auto simp: ensure_capacity_def)
  moreover have "s_operations (added e ?occ uuid now s) = s_operations s" by (simp add: added_def)
  ultimately show "keeps s (and_then (create_work e EXECUTE (e_queued_at e) uuid now ?t) (\<lambda>_ s1.
      and_then (save_operation (e_namespace e) (e_owner_id e) rid dig (ExecutionResult e) s1) (\<lambda>_ s2. (Inr e, s2))))"
    using op cap c by (simp add: save_last_keeps)
qed

text \<open>What the runs below ask of the executions \<open>materialize_task\<close> creates, that is of the items that
  survive the occurrence filter (replayed occurrences are free): they are new executions under
  identifiers that are not in use. The source does not check this: it assigns
  \<open>_executions[execution_id]\<close> without a guard, where \<open>enqueue_execution\<close> refuses a known
  identifier.\<close>

definition fresh_batch :: "scheduled_execution list \<Rightarrow> (nat \<Rightarrow> string) \<Rightarrow> store \<Rightarrow> bool" where
  "fresh_batch items uuids s \<longleftrightarrow>
     (\<forall>i \<in> set items. fresh_execution (se_execution i) \<and>
        dget (s_executions s) (e_execution_id (se_execution i)) = None) \<and>
     distinct (map (\<lambda>i. e_execution_id (se_execution i)) items) \<and>
     inj uuids \<and> (\<forall>n. dget (s_work s) (uuids n) = None)"

lemma pending_loop_new: "i \<in> set (pending_loop seen items) \<Longrightarrow> se_occurrence_key i \<notin> seen"
  by (induction seen items rule: pending_loop.induct) (auto split: if_splits)

lemma pending_loop_keys: "distinct (map se_occurrence_key (pending_loop seen items))"
  by (induction seen items rule: pending_loop.induct) (auto dest: pending_loop_new)

lemma create_pending_keeps:
  assumes "store_inv s" "\<And>i. i \<in> set items \<Longrightarrow> fresh_execution (se_execution i)"
    "\<And>i. i \<in> set items \<Longrightarrow> dget (s_executions s) (e_execution_id (se_execution i)) = None"
    "distinct (map (\<lambda>i. e_execution_id (se_execution i)) items)"
    "inj uuids" "\<And>m. n \<le> m \<Longrightarrow> dget (s_work s) (uuids m) = None"
    "\<And>i. i \<in> set items \<Longrightarrow> dget (s_occurrences s) (ns, se_occurrence_key i) = None"
    "distinct (map se_occurrence_key items)"
    "int (length (s_executions s) + length items) \<le> l_max_executions (s_limits s)"
    "int (length (s_work s) + length items) \<le> l_max_work_items (s_limits s)"
  shows "\<exists>s'. create_pending ns uuids clock n items s = (Inr (), s') \<and> store_inv s' \<and> evolves s s'"
  using assms
proof (induction ns uuids clock n items s rule: create_pending.induct)
  case (2 ns uuids clock n item items s)
  let ?e = "se_execution item"
  let ?t = "s\<lparr>s_executions := dput (e_execution_id ?e) ?e (s_executions s),
     s_occurrences := dput (ns, se_occurrence_key item) (e_execution_id ?e) (s_occurrences s)\<rparr>"
  let ?s = "added ?e (ns, se_occurrence_key item) (uuids n) (clock n) s"
  have new: "dget (s_executions s) (e_execution_id ?e) = None" "dget (s_work s) (uuids n) = None"
    "dget (s_occurrences s) (ns, se_occurrence_key item) = None" using "2.prems" by simp_all
  have c: "create_work ?e EXECUTE (e_queued_at ?e) (uuids n) (clock n) ?t = (Inr (), ?s)"
    using no_key_for_unknown [of s "e_execution_id ?e"] "2.prems"(1,10) new
    by (simp add: create_work_new added_def store_inv_def)
  have s: "store_inv ?s" using "2.prems" new by (intro added_store_inv) simp_all
  have ev: "evolves s ?s" by (rule evolves_added [OF new])
  have len: "length (s_executions ?s) = Suc (length (s_executions s))" "length (s_work ?s) = Suc (length (s_work s))"
    "s_limits ?s = s_limits s"
    using new by (simp_all add: added_def add_item_def dput_length)
  have look: "dget (s_executions ?s) k = (if k = e_execution_id ?e then Some ?e else dget (s_executions s) k)"
    "dget (s_work ?s) u = (if u = uuids n then Some (new_item ?e EXECUTE (e_queued_at ?e) (uuids n) (clock n)) else dget (s_work s) u)"
    "dget (s_occurrences ?s) q = (if q = (ns, se_occurrence_key item) then Some (e_execution_id ?e) else dget (s_occurrences s) q)"
    for k u q by (simp_all add: added_def add_item_def dict_simps)
  have "\<exists>s'. create_pending ns uuids clock (Suc n) items ?s = (Inr (), s') \<and> store_inv s' \<and> evolves ?s s'"
  proof (rule "2.IH" [OF refl c s])
    show "\<And>i. i \<in> set items \<Longrightarrow> dget (s_executions ?s) (e_execution_id (se_execution i)) = None"
      using distinct_map_Cons [OF "2.prems"(4)] "2.prems"(3) by (simp add: look)
    show "\<And>m. Suc n \<le> m \<Longrightarrow> dget (s_work ?s) (uuids m) = None"
      using "2.prems"(5,6) by (simp add: look inj_eq)
    show "\<And>i. i \<in> set items \<Longrightarrow> dget (s_occurrences ?s) (ns, se_occurrence_key i) = None"
      using distinct_map_Cons [OF "2.prems"(8)] "2.prems"(7) by (simp add: look)
    show "int (length (s_executions ?s) + length items) \<le> l_max_executions (s_limits ?s)"
      "int (length (s_work ?s) + length items) \<le> l_max_work_items (s_limits ?s)"
      using "2.prems"(9,10) len by simp_all
  qed (use "2.prems" in simp_all)
  then show ?case using c ev by (auto simp: Let_def intro: evolves_trans)
qed simp

lemma materialize_keeps:
  assumes s: "store_inv s" and f: "fresh_batch (materialize_pending task items s) uuids s"
  shows "keeps s (store_materialize_task task expected items uuids clock s)"
  unfolding store_materialize_task_def
proof (intro keeps_intros s)
  fix u1 current u2 u3 u4
  let ?p = "materialize_pending task items s" and ?s = "s\<lparr>s_tasks := dput (t_task_id task) task (s_tasks s)\<rparr>"
  assume own: "owned_task s (t_namespace task) (t_owner_id task) (t_task_id task) = Inr current"
    and cap: "require (int (length (s_executions s) + length ?p) \<le> l_max_executions (s_limits s))
        (AutomationStoreError ''Memory Automation Store capacity is exhausted'') = Inr u3"
      "require (int (length (s_work s) + length ?p) \<le> l_max_work_items (s_limits s))
        (AutomationStoreError ''Memory Automation Store capacity is exhausted'') = Inr u4"
  have i: "store_inv ?s" using s own by (intro store_inv_put_task) (auto simp: owned_task_def)
  have keys: "distinct (map se_occurrence_key ?p)"
    "\<And>q. q \<in> set ?p \<Longrightarrow> dget (s_occurrences s) (t_namespace task, se_occurrence_key q) = None"
    using pending_loop_keys pending_loop_new
    by (fastforce simp: materialize_pending_def pending_occurrences_def dget_None_iff simp del: set_map)+
  have "\<exists>s'. create_pending (t_namespace task) uuids clock 0 ?p ?s = (Inr (), s') \<and> store_inv s' \<and> evolves ?s s'"
    by (rule create_pending_keeps [OF i]) (use f keys cap in \<open>auto simp: fresh_batch_def\<close>)
  then show "keeps s (and_then (create_pending (t_namespace task) uuids clock 0 ?p ?s)
      (\<lambda>_ s'. (Inr \<lparr>mr_task = task, mr_executions = map se_execution ?p\<rparr>, s')))"
    by (auto intro!: keeps_Inr intro: evolves_trans [OF evolves_tasks])
qed

section \<open>Claiming work\<close>

lemma evolves_update_item: "(\<And>w. item_progress w (f w)) \<Longrightarrow> evolves s (update_item k f s)"
  by (auto simp: update_item_def intro: evolves_put_item split: option.split)

lemma recover_item_progress [simp]: "item_progress w (recover_item c w)"
  by (simp add: recover_item_def item_progress_def same_item_def)

lemma recover_expired_claims_keeps:
  assumes "store_inv s"
  shows "\<exists>s'. recover_expired_claims ns now ks s = (Inr (), s') \<and> store_inv s' \<and> evolves s s' \<and>
     s_admitted s' = s_admitted s \<and> s_closed s' = s_closed s"
  using assms
proof (induction ns now ks s rule: recover_expired_claims.induct)
  case (2 ns now k ks s)
  show ?case
  proof (cases "dget (s_work s) k")
    case None then show ?thesis using 2 by simp
  next
    case (Some w)
    show ?thesis
    proof (cases "claim_expired ns now w")
      case False then show ?thesis using 2 Some by simp
    next
      case True
      then have c: "w_status w = CLAIMED" by (simp add: claim_expired_def)
      obtain e where e: "dget (s_executions s) (w_execution_id w) = Some e" "valid_execution e"
        "w_kind w = EXECUTE \<Longrightarrow> e_status e \<in> {QUEUED, RUNNING, CANCEL_REQUESTED}"
        "w_kind w = EXPIRE_INTERRUPT \<Longrightarrow> e_status e = INTERRUPTED"
        using active_item [OF "2.prems" Some] c by (metis work_status.distinct(6))
      obtain x where x: "recover_expired_claim e (w_kind w) now = Inr x"
        using recover_expired_claim_total [OF e(2)] by blast
      note r = recover_settled [OF "2.prems" Some c e(1) x]
      have ap: "apply_transition x (Some k) [] now s = (Inr (x_execution x), settled x (Some k) s)"
        by (rule apply_transition_plain [OF r(1,2)])
      let ?s = "update_item k (recover_item (x_complete_work x)) (settled x (Some k) s)"
      have "e_status e \<in> {QUEUED, RUNNING, CANCEL_REQUESTED, INTERRUPTED}"
        using e by (cases "w_kind w") auto
      then have "evolves s (settled x (Some k) s)"
        by (rule evolves_settled [OF r(1) recover_expired_claim_progress [OF x]])
      then have ev: "evolves s ?s" using evolves_trans evolves_update_item recover_item_progress by blast
      have "\<not> x_release_capacity x"
        using x by (auto simp: recover_expired_claim_def bindE_Inr_iff keep_transition_def split: if_splits)
      moreover obtain s' where "recover_expired_claims ns now ks ?s = (Inr (), s')" "store_inv s'" "evolves ?s s'"
        "s_admitted s' = s_admitted ?s" "s_closed s' = s_closed ?s"
        using "2.IH"(2) [OF Some True _ x ap r(3)] e(1) by auto
      ultimately show ?thesis using Some True e(1) x ap evolves_trans [OF ev]
        by (auto simp: execution_of_def)
    qed
  qed
qed simp

text \<open>What \<open>claim_work\<close> promises about a claim it returns.\<close>

definition claim_issued :: "time \<Rightarrow> work_item_claim \<Rightarrow> store \<Rightarrow> bool" where
  "claim_issued lease_until c s \<longleftrightarrow>
     (\<exists>w. dget (s_work s) (c_work_item_id c) = Some w \<and> w_status w = CLAIMED \<and>
        claim_from w = Inr c \<and> c_lease_until c = lease_until)"

definition claim_result ::
  "string list \<Rightarrow> time \<Rightarrow> int \<Rightarrow> store \<Rightarrow> work_item_claim list \<Rightarrow> store \<Rightarrow> bool" where
  "claim_result ks lease_until gc s cs s' \<longleftrightarrow>
     store_inv s' \<and> evolves s s' \<and> s_closed s' = s_closed s \<and>
     (\<forall>k. k \<notin> set ks \<longrightarrow> dget (s_work s') k = dget (s_work s) k) \<and>
     (\<forall>c \<in> set cs. c_work_item_id c \<in> set ks \<and> claim_issued lease_until c s') \<and>
     (\<forall>ns. allocated s' (ns, ''global'', ''global'') \<le> max gc (allocated s (ns, ''global'', ''global'')))"

lemma claim_result_trans:
  assumes "claim_result [k] l gc s cs s'" "claim_result ks l gc s' ds s''" "k \<notin> set ks"
  shows "claim_result (k # ks) l gc s (cs @ ds) s''"
proof -
  have "claim_issued l c s''" if "c \<in> set cs" for c
    using assms that unfolding claim_result_def claim_issued_def by fastforce
  moreover have "allocated s'' (ns, ''global'', ''global'') \<le> max gc (allocated s (ns, ''global'', ''global''))" for ns
    using assms unfolding claim_result_def by (meson le_max_iff_disj max.bounded_iff max.coboundedI1 order_trans order_refl)
  ultimately show ?thesis using assms unfolding claim_result_def by (auto intro: evolves_trans)
qed

lemma allocated_mono:
  assumes "store_inv s" "store_inv s'" "evolves s s'" "s_admitted s' \<subseteq> s_admitted s"
  shows "allocated s' k \<le> allocated s k"
proof -
  have "holders s' k \<subseteq> holders s k"
  proof
    fix i assume "i \<in> holders s' k"
    then obtain e' where i: "i \<in> s_admitted s" "dget (s_executions s') i = Some e'" "k \<in> scope_keys e'"
      using assms(4) by (auto simp: holders_def)
    then obtain e where e: "dget (s_executions s) i = Some e"
      using assms(1) by (auto simp: store_inv_def scope_inv_def)
    then have "exec_progress e e'" using assms(3) i(2) by (fastforce simp: evolves_def dict_grows_def)
    then have "scope_keys e' = scope_keys e" by (simp add: exec_progress_def frame_kept_def same_subject_keys)
    then show "i \<in> holders s k" using i e by (simp add: holders_def)
  qed
  then have "card (holders s' k) \<le> card (holders s k)"
    using assms(1) holders_finite [of s k] by (auto simp: store_inv_def intro: card_mono)
  then show ?thesis using assms(1,2) by (simp add: store_inv_def scope_inv_def)
qed

lemma claim_step_expire:
  assumes s: "store_inv s" and w: "dget (s_work s) k = Some w" "w_status w = PENDING"
    and e: "dget (s_executions s) (w_execution_id w) = Some e" and x: "claim_candidate e (w_kind w) now = Inr (Some x)"
  shows "apply_transition x (Some k) [] now s = (Inr (x_execution x), settled x (Some k) s)"
    "claim_result [k] l gc s [] (settled x (Some k) s)"
proof -
  note c = claim_candidate_settled [OF s w e x]
  show "apply_transition x (Some k) [] now s = (Inr (x_execution x), settled x (Some k) s)"
    by (rule apply_transition_plain [OF c(1,2)])
  have q: "e_status e = QUEUED" using active_item [OF s w(1)] w(2) c(4) e
    by (metis option.inject work_status.distinct(4))
  have cc: "x_complete_work x = CompleteCurrent"
    using c(5) by (auto simp: expire_queued_def bindE_Inr_iff)
  have "dget (s_work (settled x (Some k) s)) k' = dget (s_work s) k'" if "k' \<noteq> k" for k'
    using cc w that by (auto simp: settled_def completed_part_def update_item_def dict_simps)
  moreover have "evolves s (settled x (Some k) s)"
    by (rule evolves_settled [OF c(1) expire_queued_progress [OF c(5) q]])
  moreover have "allocated (settled x (Some k) s) q \<le> allocated s q" for q
    by (rule allocated_mono [OF s c(3) calculation(2)]) auto
  ultimately show "claim_result [k] l gc s [] (settled x (Some k) s)"
    using c(3) by (auto simp: claim_result_def le_max_iff_disj)
qed


lemma claim_step_grant:
  fixes worker tok :: string and l :: time
  assumes s: "store_inv s" and w: "dget (s_work s) k = Some w" "w_status w = PENDING"
    and e: "dget (s_executions s) (w_execution_id w) = Some e"
    and r: "(if w_kind w = EXECUTE then reserve_scopes e gc s else (True, s)) = (True, s1)"
  defines "w' \<equiv> claim_item worker tok l w"
  shows "\<exists>c. claim_from w' = Inr c \<and> claim_result [k] l gc s [c] (put_item k w' s1)"
proof -
  note inv = store_inv_exec [OF s e]
  have q: "w_kind w = EXECUTE \<Longrightarrow> e_status e = QUEUED"
    using active_item [OF s w(1)] w(2) e by (metis option.inject work_status.distinct(4))
  have id: "w_work_item_id w = k" using s w link_item [of s k w] by (metis store_inv_def)
  have f: "s_work s1 = s_work s" "s_executions s1 = s_executions s" "s_limits s1 = s_limits s"
    "s_occurrences s1 = s_occurrences s" "s_operations s1 = s_operations s" "s_closed s1 = s_closed s"
    using r by (auto split: if_splits dest: reserve_scopes_fields)
  have adm: "w_kind w = EXECUTE \<Longrightarrow> e_execution_id e \<in> s_admitted s1"
    using r by (auto split: if_splits dest: reserve_scopes_fields)
  have s1: "store_inv s1" using r s q reserve_store_inv [OF s e] by (auto split: if_splits)
  have "store_inv (put_item k w' s1)"
    unfolding w'_def by (rule claim_store_inv [OF s1 _ w(2) _ adm]) (use f w e in auto)
  moreover have "evolves s s1" by (rule evolves_frame) (use f in auto)
  moreover have "evolves s1 (put_item k w' s1)"
    by (rule evolves_put_item) (use f w in \<open>auto simp: w'_def claim_item_def item_progress_def same_item_def\<close>)
  moreover have "allocated s1 (ns, ''global'', ''global'') \<le> max gc (allocated s (ns, ''global'', ''global''))" for ns
    using r by (auto simp: reserve_scopes_def Let_def allocated_def dict_simps global_key_def scope_key_of_def
        execution_scope_def split: if_splits option.splits)
  ultimately show ?thesis
    using f w id
    by (auto simp: claim_result_def claim_issued_def w'_def dict_simps allocated_def claim_from_def claim_item_def
        intro: evolves_trans)
qed

lemma claim_loop_result:
  assumes "store_inv s" "distinct ks"
    "\<And>k. k \<in> set ks \<Longrightarrow> \<exists>w. dget (s_work s) k = Some w \<and> w_status w = PENDING"
  shows "\<exists>cs s'. claim_loop worker lim d gc now toks claims ks s = (Inr (claims @ cs), s') \<and>
     claim_result ks (now + d) gc s cs s' \<and> length (claims @ cs) \<le> max lim (length claims)"
  using assms
proof (induction ks arbitrary: claims s)
  case Nil
  then show ?case by (auto simp: claim_result_def)
next
  case (Cons k ks)
  obtain w where w: "dget (s_work s) k = Some w" "w_status w = PENDING" using Cons.prems(3) by auto
  obtain e where e: "dget (s_executions s) (w_execution_id w) = Some e" "valid_execution e"
    using active_item [OF Cons.prems(1) w(1)] w(2) by (metis work_status.distinct(4))
  obtain o' where x: "claim_candidate e (w_kind w) now = Inr o'" using claim_candidate_total [OF e(2)] by blast
  have k: "k \<notin> set ks" using Cons.prems(2) by simp
  have rest: "\<exists>ds s''. claim_loop worker lim d gc now toks (claims @ cs) ks s' = (Inr ((claims @ cs) @ ds), s'') \<and>
     claim_result (k # ks) (now + d) gc s (cs @ ds) s'' \<and>
     length ((claims @ cs) @ ds) \<le> max lim (length (claims @ cs))"
    if "claim_result [k] (now + d) gc s cs s'" for cs s'
  proof -
    have "store_inv s'" using that by (simp add: claim_result_def)
    moreover have "\<exists>w. dget (s_work s') j = Some w \<and> w_status w = PENDING" if "j \<in> set ks" for j
    proof -
      have "j \<noteq> k" using that k by auto
      then show ?thesis using Cons.prems(3) [of j] that \<open>claim_result [k] (now + d) gc s cs s'\<close>
        by (simp add: claim_result_def)
    qed
    ultimately show ?thesis
      using Cons.IH [of s' "claims @ cs"] Cons.prems(2) claim_result_trans [OF that _ k] by fastforce
  qed
  show ?case
  proof (cases "lim \<le> length claims")
    case True
    then show ?thesis using Cons.prems(1) by (auto simp: claim_result_def)
  next
    case False
    show ?thesis
    proof (cases o')
      case (Some x')
      note c = claim_step_expire [OF Cons.prems(1) w e(1) x [unfolded Some]]
      show ?thesis using rest [of "[]", OF c(2)] c(1) x Some False w e by (simp add: execution_of_def)
    next
      case None
      obtain g s1 where r: "(if w_kind w = EXECUTE then reserve_scopes e gc s else (True, s)) = (g, s1)"
        by fastforce
      show ?thesis
      proof (cases g)
        case True
        with r have r': "(if w_kind w = EXECUTE then reserve_scopes e gc s else (True, s)) = (True, s1)" by simp
        then obtain c where c: "claim_from (claim_item worker (toks (length claims)) (now + d) w) = Inr c"
          "claim_result [k] (now + d) gc s [c] (put_item k (claim_item worker (toks (length claims)) (now + d) w) s1)"
          using claim_step_grant [OF Cons.prems(1) w e(1) r'] by blast
        show ?thesis using rest [OF c(2)] c(1) x None False w e r True
          by (auto simp: execution_of_def Let_def simp del: claim_from_claim_item)
      next
        case False
        then have "s1 = s" using r by (auto simp: reserve_scopes_def Let_def split: if_splits)
        moreover have "claim_result [k] (now + d) gc s [] s" using Cons.prems(1) by (simp add: claim_result_def)
        ultimately show ?thesis using rest [of "[]" s] x None \<open>\<not> lim \<le> length claims\<close> w e r False
          by (simp add: execution_of_def)
      qed
    qed
  qed
qed

lemma claim_candidates_pending:
  assumes "store_inv s"
  shows "distinct (claim_candidates ns now s)"
    "k \<in> set (claim_candidates ns now s) \<Longrightarrow>
       \<exists>w. dget (s_work s) k = Some w \<and> w_status w = PENDING \<and> w_namespace w = ns \<and> w_available_at w \<le> now"
proof -
  let ?P = "\<lambda>(k :: string, w). w_namespace w = ns \<and> w_status w = PENDING \<and> w_available_at w \<le> now"
  have wf: "dwf (s_work s)" using assms by (simp add: store_inv_def link_inv_def ids_inv_def)
  have "distinct (map fst (filter ?P (s_work s)))" using wf by (rule distinct_map_filter)
  then have "distinct (map fst (sort_key (\<lambda>(k, w). (w_available_at w, w_created_at w, w_work_item_id w)) (filter ?P (s_work s))))"
    by (simp add: distinct_map)
  then show "distinct (claim_candidates ns now s)" by (simp add: claim_candidates_def case_prod_unfold)
  show "k \<in> set (claim_candidates ns now s) \<Longrightarrow>
       \<exists>w. dget (s_work s) k = Some w \<and> w_status w = PENDING \<and> w_namespace w = ns \<and> w_available_at w \<le> now"
    using wf by (auto simp: claim_candidates_def map_of_is_SomeI)
qed

lemma claim_work_total:
  assumes s: "store_inv s" "\<not> s_closed s"
    and args: "text_ok ns (Some 128)" "text_ok worker (Some 191)" "1 \<le> lim" "0 < d" "1 \<le> gc"
  shows "\<exists>cs s1 s'. store_claim_work ns worker lim d gc now toks s = (Inr cs, s') \<and>
     store_inv s1 \<and> evolves s s1 \<and> s_admitted s1 = s_admitted s \<and> s_closed s1 = s_closed s \<and>
     claim_result (claim_candidates ns now s1) (now + d) gc s1 cs s' \<and> int (length cs) \<le> lim"
proof -
  have v: "ensure_open s = Inr ()" using s by (simp add: ensure_open_def)
  obtain s1 where s1: "recover_expired_claims ns now (dkeys (s_work s)) s = (Inr (), s1)" "store_inv s1" "evolves s s1"
    "s_admitted s1 = s_admitted s" "s_closed s1 = s_closed s"
    using recover_expired_claims_keeps [OF s(1)] by blast
  obtain cs s' where "claim_loop worker (nat lim) d gc now toks [] (claim_candidates ns now s1) s1 = (Inr cs, s')"
    "claim_result (claim_candidates ns now s1) (now + d) gc s1 cs s'" "length cs \<le> nat lim"
    using claim_loop_result [OF s1(2) claim_candidates_pending(1) [OF s1(2)], of ns now worker "nat lim" d gc now toks "[]"]
      claim_candidates_pending(2) [OF s1(2)] by fastforce
  then show ?thesis using v args s1 by (auto simp: store_claim_work_def intro!: exI [of _ s1])
qed

lemma claim_work_guarded:
  assumes "\<not> (\<not> s_closed s \<and> text_ok ns (Some 128) \<and> text_ok worker (Some 191) \<and> 1 \<le> lim \<and> 0 < d \<and> 1 \<le> gc)"
  shows "\<exists>err. store_claim_work ns worker lim d gc now toks s = (Inl err, s)"
proof (cases "text_ok ns (Some 128)")
  case False
  then obtain err where "\<And>s k. check (validate_persisted_text ns ''namespace'' (Some 128)) s k =
      (Inl err :: automation_error + work_item_claim list, s :: store)"
    using check_text_bad [of ns "Some 128" "''namespace''"] by meson
  then show ?thesis by (simp add: store_claim_work_def)
next
  case ns: True
  show ?thesis
  proof (cases "text_ok worker (Some 191)")
    case False
    then obtain err where "\<And>s k. check (validate_persisted_text worker ''worker_id'' (Some 191)) s k =
        (Inl err :: automation_error + work_item_claim list, s :: store)"
      using check_text_bad [of worker "Some 191" "''worker_id''"] by meson
    then show ?thesis using ns by (simp add: store_claim_work_def)
  next
    case True
    then show ?thesis using ns assms by (auto simp: store_claim_work_def ensure_open_def require_def)
  qed
qed

lemma claim_work_keeps:
  assumes s: "store_inv s"
  shows "keeps s (store_claim_work ns worker lim d gc now toks s)"
proof (cases "\<not> s_closed s \<and> text_ok ns (Some 128) \<and> text_ok worker (Some 191) \<and> 1 \<le> lim \<and> 0 < d \<and> 1 \<le> gc")
  case True
  then obtain cs s1 s' where "store_claim_work ns worker lim d gc now toks s = (Inr cs, s')" "evolves s s1"
    "claim_result (claim_candidates ns now s1) (now + d) gc s1 cs s'"
    using claim_work_total [OF s] by blast
  then show ?thesis by (auto simp: claim_result_def intro: keeps_Inr evolves_trans)
next
  case False
  then show ?thesis using claim_work_guarded [OF False] s keeps_same by metis
qed

lemma claim_work_allocated:
  assumes s: "store_inv s"
  shows "allocated (snd (store_claim_work ns worker lim d gc now toks s)) (n, ''global'', ''global'') \<le>
     max gc (allocated s (n, ''global'', ''global''))"
proof (cases "\<not> s_closed s \<and> text_ok ns (Some 128) \<and> text_ok worker (Some 191) \<and> 1 \<le> lim \<and> 0 < d \<and> 1 \<le> gc")
  case True
  then obtain cs s1 s' where c: "store_claim_work ns worker lim d gc now toks s = (Inr cs, s')" "store_inv s1" "evolves s s1"
    "s_admitted s1 = s_admitted s" "claim_result (claim_candidates ns now s1) (now + d) gc s1 cs s'"
    using claim_work_total [OF s] by blast
  have "allocated s1 (n, ''global'', ''global'') \<le> allocated s (n, ''global'', ''global'')"
    by (rule allocated_mono) (use s c in auto)
  then show ?thesis using c by (force simp: claim_result_def le_max_iff_disj)
next
  case False
  then show ?thesis using claim_work_guarded [OF False, of now toks] by fastforce
qed

end
