(* ===== verification/Automation_Store_Correct.thy ===== *)
theory Automation_Store_Correct
  imports Automation_Store_Run
begin

text \<open>
  The runs of the in-memory automation store and what holds along them.
\<close>

section \<open>The step relation\<close>

text \<open>
  One rule per operation that writes. \<open>G\<close> is the largest \<open>global_concurrency\<close> any worker passes to
  \<open>claim_work\<close>. Three things are asked of the calls, all of them of what the service supplies: an identifier
  drawn from \<open>uuid4\<close> is not in use, an execution handed in for storing is newly queued, as the
  service builds it, and the executions \<open>materialize_task\<close> creates carry identifiers that are not in
  use. The last one is no guard of the source; \<open>materialized_identifier_overwrites\<close> below shows what a
  call without it does.
\<close>

inductive store_step :: "int \<Rightarrow> store \<Rightarrow> store \<Rightarrow> bool" for G :: int where
  create_task: "store_step G s (snd (store_create_task task rid dig s))"
| update_task: "store_step G s (snd (store_update_task task expected rid dig s))"
| delete_task: "store_step G s (snd (store_delete_task ns owner tid expected rid dig now s))"
| materialize_task: "fresh_batch (materialize_pending task items s) uuids s \<Longrightarrow>
    store_step G s (snd (store_materialize_task task at items uuids clock s))"
| enqueue_execution: "fresh_execution e \<Longrightarrow> dget (s_work s) uuid = None \<Longrightarrow>
    store_step G s (snd (store_enqueue_execution e occ rid dig revision uuid now s))"
| claim_work: "gc \<le> G \<Longrightarrow> store_step G s (snd (store_claim_work ns worker lim d gc now toks s))"
| renew_claim: "store_step G s (snd (store_renew_claim c d t0 t1 s))"
| authorize_start: "store_step G s (snd (store_authorize_start c d t0 t1 tok s))"
| mark_interrupted: "dget (s_work s) uuid = None \<Longrightarrow>
    store_step G s (snd (store_mark_interrupted c ids t0 t1 t2 uuid s))"
| finish_execution: "store_step G s (snd (store_finish_execution c st res code msg t0 t1 s))"
| cancel_execution: "store_step G s (snd (store_cancel_execution ns owner i rid dig now s))"
| resolve_execution: "store_step G s (snd (store_resolve_execution ns owner i r q dig reason now s))"
| close: "store_step G s (snd (store_close s))"

lemma store_inv_init:
  assumes "mk_memory_store_limits l = Inr l" shows "store_inv (init_store l)"
  using assms
  by (simp add: mk_memory_store_limits_def store_inv_def link_inv_def ids_inv_def items_inv_def keys_inv_def
      occurrences_inv_def life_inv_def scope_inv_def holders_def allocated_def size_inv_def init_store_def
      split: if_splits)

lemma close_keeps: "store_inv s \<Longrightarrow> keeps s (store_close s)"
  by (simp add: store_close_def keeps_def store_inv_def life_inv_def exec_ok_at_def work_of_def
      scope_inv_def holders_def allocated_def size_inv_def evolves_def dict_grows_refl cong: option.case_cong)

lemmas operation_keeps =
  create_task_keeps update_task_keeps delete_task_keeps materialize_keeps enqueue_keeps claim_work_keeps
  renew_claim_keeps authorize_start_keeps mark_interrupted_keeps finish_execution_keeps
  cancel_execution_keeps resolve_execution_keeps close_keeps

lemma store_step_keeps: "store_step G s s' \<Longrightarrow> store_inv s \<Longrightarrow> store_inv s' \<and> evolves s s'"
  by (induction rule: store_step.induct) (rule keepsD, rule operation_keeps; assumption)+

definition initial_store :: "store \<Rightarrow> bool" where
  "initial_store s \<longleftrightarrow> mk_memory_store_limits (s_limits s) = Inr (s_limits s) \<and> s = init_store (s_limits s)"

definition item_fence :: "store \<Rightarrow> string \<Rightarrow> int" where
  "item_fence s k = (case dget (s_work s) k of None \<Rightarrow> 0 | Some w \<Rightarrow> w_fence w)"

definition claim_holds :: "store \<Rightarrow> string \<Rightarrow> int \<Rightarrow> bool" where
  "claim_holds s k f \<longleftrightarrow> (\<exists>c t w. c_work_item_id c = k \<and> c_fence c = f \<and> valid_claim s c t = Inr w)"

interpretation sr: fenced_leases initial_store "store_step G" store_inv item_fence claim_holds for G
proof
  fix s s' k f
  show "initial_store s \<Longrightarrow> store_inv s"
    using store_inv_init by (metis initial_store_def)
  show "store_inv s \<Longrightarrow> store_step G s s' \<Longrightarrow> store_inv s'"
    using store_step_keeps by blast
  show "item_fence s k \<le> item_fence s' k" if inv: "store_inv s" and step: "store_step G s s'"
  proof (cases "dget (s_work s) k")
    case None
    have "0 \<le> w_fence w" if "dget (s_work s') k = Some w" for w
    proof -
      have "link_inv s'" using store_step_keeps [OF step inv] by (simp add: store_inv_def)
      then show ?thesis using link_item [OF _ that] by (metis item_wf_def)
    qed
    then show ?thesis using None by (auto simp: item_fence_def split: option.split)
  next
    case (Some w)
    then obtain w' where "dget (s_work s') k = Some w'" "item_progress w w'"
      using store_step_keeps [OF step inv] evolvesD(2) by blast
    then show ?thesis using Some by (simp add: item_fence_def item_progress_def)
  qed
  show "store_inv s \<Longrightarrow> claim_holds s k f \<Longrightarrow> f = item_fence s k"
    using valid_claimD by (fastforce simp: claim_holds_def item_fence_def claim_matches_def)
qed

lemma run_evolves: "(store_step G)\<^sup>*\<^sup>* s s' \<Longrightarrow> store_inv s \<Longrightarrow> evolves s s'"
  by (rule sr.run_related [where R = evolves]) (auto intro: evolves_trans dest: store_step_keeps)

section \<open>Admission only shrinks outside \<open>claim_work\<close>\<close>

definition frees :: "string set \<Rightarrow> 'a store_outcome \<Rightarrow> bool" where
  "frees A r \<longleftrightarrow> s_admitted (snd r) \<subseteq> A"

named_theorems frees_intros \<open>control constructs that admit nothing\<close>

lemma frees_pair [frees_intros]: "s_admitted s' \<subseteq> A \<Longrightarrow> frees A (r, s')"
  by (simp add: frees_def)

lemma frees_check [frees_intros]: "s_admitted s \<subseteq> A \<Longrightarrow> (\<And>a. frees A (k a)) \<Longrightarrow> frees A (check r s k)"
  by (cases r) (auto simp: frees_def)

lemma frees_if [frees_intros]: "frees A r \<Longrightarrow> frees A r' \<Longrightarrow> frees A (if b then r else r')"
  by simp

lemma frees_option [frees_intros]:
  "frees A r \<Longrightarrow> (\<And>y. frees A (f y)) \<Longrightarrow> frees A (case x of None \<Rightarrow> r | Some y \<Rightarrow> f y)"
  by (cases x) auto

lemma frees_and_then [frees_intros]:
  assumes "frees A r" "\<And>a s'. s_admitted s' \<subseteq> A \<Longrightarrow> frees A (k a s')"
  shows "frees A (and_then r k)"
proof (cases r)
  case (Pair a s')
  then show ?thesis using assms by (cases a) (simp_all add: frees_def)
qed

lemma save_operation_frees [frees_intros]: "s_admitted s \<subseteq> A \<Longrightarrow> frees A (save_operation ns ow rid dig res s)"
  by (cases rid) (auto simp: save_operation_def frees_def check_def split: sum.split)

lemma create_work_frees [frees_intros]: "s_admitted s \<subseteq> A \<Longrightarrow> frees A (create_work e kd at uuid now s)"
  by (auto simp: create_work_def frees_def check_def Let_def split: sum.split option.split)

lemma complete_step_frees [frees_intros]: "s_admitted s \<subseteq> A \<Longrightarrow> frees A (complete_step x item s)"
  by (auto simp: complete_step_def frees_def split: complete_work.split option.split)

lemma apply_transition_frees [frees_intros]: "s_admitted s \<subseteq> A \<Longrightarrow> frees A (apply_transition x item uuid now s)"
  unfolding apply_transition_def Let_def by (intro frees_intros) auto

lemma cancel_queued_frees [frees_intros]: "s_admitted s \<subseteq> A \<Longrightarrow> frees A (cancel_queued tid now es s)"
proof (induction es arbitrary: s)
  case (Cons e es)
  show ?case unfolding cancel_queued.simps by (intro frees_intros Cons)
qed (simp add: frees_def)

lemma create_pending_frees [frees_intros]: "s_admitted s \<subseteq> A \<Longrightarrow> frees A (create_pending ns uuids clock n items s)"
proof (induction items arbitrary: n s)
  case (Cons i items)
  show ?case unfolding create_pending.simps Let_def by (intro frees_intros Cons) (use Cons.prems in simp_all)
qed (simp add: frees_def)

lemmas operation_defs =
  store_create_task_def store_update_task_def store_delete_task_def store_materialize_task_def
  store_enqueue_execution_def store_renew_claim_def store_authorize_start_def store_mark_interrupted_def
  store_finish_execution_def store_cancel_execution_def store_resolve_execution_def store_close_def

lemma operation_frees:
  assumes "s_admitted s \<subseteq> A"
  shows "frees A (store_create_task task rid dig s) \<and>
    frees A (store_update_task task expected rid dig s) \<and>
    frees A (store_delete_task ns owner tid expected rid dig now s) \<and>
    frees A (store_materialize_task task at items uuids clock s) \<and>
    frees A (store_enqueue_execution e occ rid dig revision uuid now s) \<and>
    frees A (store_renew_claim c d t0 t1 s) \<and>
    frees A (store_authorize_start c d t0 t1 tok s) \<and>
    frees A (store_mark_interrupted c ids t0 t1 t2 uuid s) \<and>
    frees A (store_finish_execution c st res code msg t0 t1 s) \<and>
    frees A (store_cancel_execution ns owner i rid dig now s) \<and>
    frees A (store_resolve_execution ns owner i r q dig reason now s) \<and>
    frees A (store_close s)"
  unfolding operation_defs Let_def by (intro conjI frees_intros; simp add: assms)

lemma store_step_admitted:
  "store_step G s s' \<Longrightarrow> s_admitted s' \<subseteq> s_admitted s \<or>
     (\<exists>ns worker lim d gc now toks. gc \<le> G \<and> s' = snd (store_claim_work ns worker lim d gc now toks s))"
proof (induction rule: store_step.induct)
  case (claim_work gc s ns worker lim d now toks)
  then show ?case by blast
qed (rule disjI1, rule operation_frees [unfolded frees_def, OF order_refl, THEN conjunct1],
     (rule disjI1, simp add: operation_frees [unfolded frees_def, OF order_refl])+)

section \<open>Helpers for the run properties\<close>

lemma global_step:
  assumes "store_inv s" "store_step G s s'"
  shows "allocated s' (ns, ''global'', ''global'') \<le> max G (allocated s (ns, ''global'', ''global''))"
proof -
  note k = store_step_keeps [OF assms(2,1)]
  consider "s_admitted s' \<subseteq> s_admitted s"
    | n w l d gc now toks where "gc \<le> G" "s' = snd (store_claim_work n w l d gc now toks s)"
    using store_step_admitted [OF assms(2)] by blast
  then show ?thesis
  proof cases
    case 1
    then show ?thesis using allocated_mono [OF assms(1) _ _ 1] k by (simp add: le_max_iff_disj)
  next
    case 2
    then show ?thesis using claim_work_allocated [OF assms(1), of n w l d gc now toks ns] by simp
  qed
qed

lemma global_run:
  assumes "(store_step G)\<^sup>*\<^sup>* s s'" "store_inv s" "allocated s (ns, ''global'', ''global'') \<le> G"
  shows "allocated s' (ns, ''global'', ''global'') \<le> G"
proof (rule sr.run_stable [OF assms(1,2), where P = "\<lambda>s. allocated s (ns, ''global'', ''global'') \<le> G"])
  fix a b assume "store_inv a" "store_step G a b" "allocated a (ns, ''global'', ''global'') \<le> G"
  then show "allocated b (ns, ''global'', ''global'') \<le> G" using global_step [of a G b ns] by simp
qed (fact assms(3))

lemma active_items_of:
  assumes inv: "store_inv s" and e: "dget (s_executions s) i = Some e"
  shows "dget (s_work s) k = Some w \<and> w_execution_id w = i \<and> w_status w \<noteq> COMPLETED \<longleftrightarrow>
    (\<exists>kd. dget (s_work_keys s) (e_namespace e, i, kd) = Some k \<and> work_of s e kd = Some w \<and> w_status w \<noteq> COMPLETED)"
proof -
  have l: "link_inv s" using inv by (simp add: store_inv_def)
  have id: "e_execution_id e = i" by (rule store_inv_exec [OF inv e])
  show ?thesis
  proof
    assume w: "dget (s_work s) k = Some w \<and> w_execution_id w = i \<and> w_status w \<noteq> COMPLETED"
    then obtain e' where "dget (s_executions s) (w_execution_id w) = Some e'" "work_of s e' (w_kind w) = Some w"
      "dget (s_work_keys s) (item_key w) = Some k" "e_namespace e' = w_namespace w"
      using link_item [OF l] by metis
    then show "\<exists>kd. dget (s_work_keys s) (e_namespace e, i, kd) = Some k \<and> work_of s e kd = Some w \<and> w_status w \<noteq> COMPLETED"
      using w e by (auto simp: item_key_def)
  next
    assume "\<exists>kd. dget (s_work_keys s) (e_namespace e, i, kd) = Some k \<and> work_of s e kd = Some w \<and> w_status w \<noteq> COMPLETED"
    then obtain kd where kd: "dget (s_work_keys s) (e_namespace e, i, kd) = Some k" "work_of s e kd = Some w" "w_status w \<noteq> COMPLETED"
      by blast
    moreover have w: "dget (s_work s) k = Some w" using kd id by (simp add: work_of_def)
    ultimately show "dget (s_work s) k = Some w \<and> w_execution_id w = i \<and> w_status w \<noteq> COMPLETED"
      using key_unique [OF l w kd(1)] by (simp add: item_key_def)
  qed
qed

text \<open>The kind of work an unsettled execution is waiting on.\<close>

definition settled_status :: "execution_status \<Rightarrow> bool" where
  "settled_status st \<longleftrightarrow> is_terminal st \<or> st = NEEDS_ATTENTION"

lemma active_by_status:
  assumes "exec_ok_at s e"
  shows "active (work_of s e EXECUTE) \<longleftrightarrow> e_status e \<in> {QUEUED, RUNNING, CANCEL_REQUESTED}"
    "active (work_of s e EXPIRE_INTERRUPT) \<longleftrightarrow> e_status e = INTERRUPTED"
  using assms by (cases "e_status e"; auto simp: exec_tables dest: claimed_active)+

lemma admitted_by_status:
  assumes "exec_ok_at s e" "e_status e \<in> {RUNNING, CANCEL_REQUESTED, INTERRUPTED, NEEDS_ATTENTION}"
  shows "e_execution_id e \<in> s_admitted s"
  using assms by (auto simp: exec_tables)

lemma one_active_item:
  assumes inv: "store_inv s" and e: "dget (s_executions s) i = Some e" and "\<not> settled_status (e_status e)"
  shows "\<exists>!k. \<exists>w. dget (s_work s) k = Some w \<and> w_execution_id w = i \<and> w_status w \<noteq> COMPLETED"
proof -
  note a = active_by_status [OF store_inv_exec(3) [OF inv e]] and id = store_inv_exec(1) [OF inv e]
  obtain kd where kd: "active (work_of s e kd)" "\<And>kd'. active (work_of s e kd') \<Longrightarrow> kd' = kd"
  proof (cases "e_status e = INTERRUPTED")
    case True
    then have "kd' = EXPIRE_INTERRUPT" if "active (work_of s e kd')" for kd'
      using a that by (cases kd') auto
    then show ?thesis using a(2) True that [of EXPIRE_INTERRUPT] by simp
  next
    case False
    then have "e_status e \<in> {QUEUED, RUNNING, CANCEL_REQUESTED}"
      using assms(3) by (cases "e_status e") (auto simp: settled_status_def)
    moreover have "kd' = EXECUTE" if "active (work_of s e kd')" for kd'
      using a that False by (cases kd') auto
    ultimately show ?thesis using a(1) that [of EXECUTE] by simp
  qed
  obtain w where wk: "work_of s e kd = Some w" "w_status w \<noteq> COMPLETED" using kd(1) by (auto simp: active_def)
  then obtain k where w: "work_of s e kd = Some w" "w_status w \<noteq> COMPLETED"
    "dget (s_work_keys s) (e_namespace e, i, kd) = Some k"
    using work_ofD [OF wk(1)] id by blast
  show ?thesis
    unfolding active_items_of [OF inv e]
  proof (rule ex1I [of _ k])
    show "\<exists>w kd. dget (s_work_keys s) (e_namespace e, i, kd) = Some k \<and> work_of s e kd = Some w \<and> w_status w \<noteq> COMPLETED"
      using w by blast
  next
    fix k' assume "\<exists>w kd. dget (s_work_keys s) (e_namespace e, i, kd) = Some k' \<and> work_of s e kd = Some w \<and> w_status w \<noteq> COMPLETED"
    then obtain w' kd' where "dget (s_work_keys s) (e_namespace e, i, kd') = Some k'" "work_of s e kd' = Some w'" "w_status w' \<noteq> COMPLETED"
      by blast
    moreover from this have "kd' = kd" using kd(2) by (simp add: active_def)
    ultimately show "k' = k" using w by simp
  qed
qed

end
