(* ===== verification/Automation_Store_Atomic.thy ===== *)
theory Automation_Store_Atomic
  imports Automation_Store_Correct
begin

text \<open>
  Operations that create work leave no trace when they raise, whatever execution, identifiers and
  times they are handed: on a store whose work keys name existing items, capacity is checked before
  the first write.
\<close>

section \<open>Creating work under checked capacity\<close>

text \<open>Every recorded work key names a stored work item.\<close>

definition keys_stored :: "store \<Rightarrow> bool" where
  "keys_stored s \<longleftrightarrow> (\<forall>key k. dget (s_work_keys s) key = Some k \<longrightarrow> dget (s_work s) k \<noteq> None)"

definition work_room :: "store \<Rightarrow> nat \<Rightarrow> bool" where
  "work_room s n \<longleftrightarrow> int (length (s_work s) + n) \<le> l_max_work_items (s_limits s)"

lemma store_inv_keys: "store_inv s \<Longrightarrow> keys_stored s"
  unfolding keys_stored_def store_inv_def using key_item by (metis option.distinct(1))

lemma create_work_total:
  assumes "keys_stored s"
    "dget (s_work_keys s) (e_namespace e, e_execution_id e, kd) = None \<Longrightarrow> work_room s (Suc n)" "work_room s n"
  shows "\<exists>s'. create_work e kd at uuid now s = (Inr (), s') \<and> keys_stored s' \<and> work_room s' n \<and>
    s_operations s' = s_operations s \<and> s_limits s' = s_limits s"
proof (cases "dget (s_work_keys s) (e_namespace e, e_execution_id e, kd)")
  case None
  then have "int (length (s_work s)) < l_max_work_items (s_limits s)"
    using assms(2) by (simp add: work_room_def)
  then show ?thesis using None assms(1) assms(2) [OF None] dput_length [of uuid _ "s_work s"]
    by (force simp: create_work_def ensure_capacity_def keys_stored_def work_room_def dict_simps split: if_splits)
next
  case (Some k)
  then obtain w where "dget (s_work s) k = Some w" using assms(1) by (auto simp: keys_stored_def)
  then show ?thesis using Some assms
    by (auto simp: create_work_def keys_stored_def work_room_def dict_simps dput_length split: if_splits)
qed

lemma create_pending_total:
  assumes "keys_stored s" "work_room s (length items)"
  shows "\<exists>s'. create_pending ns uuids clock i items s = (Inr (), s')"
  using assms
proof (induction items arbitrary: i s)
  case (Cons item items)
  let ?e = "se_execution item"
  let ?t = "s\<lparr>s_executions := dput (e_execution_id ?e) ?e (s_executions s),
     s_occurrences := dput (ns, se_occurrence_key item) (e_execution_id ?e) (s_occurrences s)\<rparr>"
  obtain s' where "create_work ?e EXECUTE (e_queued_at ?e) (uuids i) (clock i) ?t = (Inr (), s')"
    "keys_stored s'" "work_room s' (length items)"
    using create_work_total [of ?t ?e EXECUTE "length items" "e_queued_at ?e" "uuids i" "clock i"] Cons.prems
    by (auto simp: keys_stored_def work_room_def)
  then show ?case using Cons.IH [of s' "Suc i"] by (auto simp: Let_def)
qed simp

section \<open>No trace\<close>

lemmas traceless_done [simp] = traceless_Inr

lemma traceless_same [simp]: "traceless s (r, s)"
  by (simp add: traceless_def)

lemma materialize_traceless:
  assumes "store_inv s" shows "traceless s (store_materialize_task task expected items uuids clock s)"
proof -
  let ?p = "materialize_pending task items s"
  have "\<exists>s'. create_pending (t_namespace task) uuids clock 0 ?p (s\<lparr>s_tasks := dput (t_task_id task) task (s_tasks s)\<rparr>)
      = (Inr (), s')" if "int (length (s_work s) + length ?p) \<le> l_max_work_items (s_limits s)"
    by (rule create_pending_total)
      (use that store_inv_keys [OF assms] in \<open>simp_all add: keys_stored_def work_room_def\<close>)
  then show ?thesis
    unfolding store_materialize_task_def Let_def
    by (intro traceless_check) (auto intro!: traceless_check simp: require_def split: if_splits)
qed

lemma enqueue_traceless:
  assumes "store_inv s" shows "traceless s (store_enqueue_execution e occ rid dig expected uuid now s)"
proof -
  let ?t = "s\<lparr>s_executions := dput (e_execution_id e) e (s_executions s),
     s_occurrences := dput (e_namespace e, occ) (e_execution_id e) (s_occurrences s)\<rparr>"
  have *: "traceless s (and_then (create_work e EXECUTE (e_queued_at e) uuid now ?t) (\<lambda>_ s1.
      and_then (save_operation (e_namespace e) (e_owner_id e) rid dig (ExecutionResult e) s1) (\<lambda>_ s2. (Inr e, s2))))"
    if "require_operation_capacity s rid = Inr u" "ensure_capacity (length (s_work s)) (l_max_work_items (s_limits s)) = Inr v"
    for u v
  proof -
    have "work_room ?t (Suc 0)" "work_room ?t 0" "keys_stored ?t"
      using that(2) store_inv_keys [OF assms]
      by (auto simp: ensure_capacity_def work_room_def keys_stored_def require_def split: if_splits)
    then obtain s' where "create_work e EXECUTE (e_queued_at e) uuid now ?t = (Inr (), s')"
      "s_operations s' = s_operations s" "s_limits s' = s_limits s"
      using create_work_total [of ?t e EXECUTE 0] by fastforce
    then show ?thesis using that(1)
      by (auto simp: save_operation_def require_operation_capacity_def traceless_def split: option.splits)
  qed
  show ?thesis
    unfolding store_enqueue_execution_def
    by (intro traceless_check) (auto intro!: traceless_check * split: option.splits)
qed

lemma complete_step_total:
  assumes "keys_stored s"
  shows "\<exists>s'. complete_step x (Some k) s = (Inr (), s') \<and> keys_stored s' \<and> s_work_keys s' = s_work_keys s \<and>
    length (s_work s') = length (s_work s) \<and> s_limits s' = s_limits s"
  using assms
  by (auto simp: complete_step_def complete_execution_work_def update_item_def keys_stored_def dict_simps dput_length
      split: complete_work.split option.split)

lemma apply_transition_traceless:
  assumes "store_inv s" shows "traceless s (apply_transition x (Some k) uuid now s)"
proof -
  let ?e = "x_execution x"
  let ?s1 = "s\<lparr>s_executions := dput (e_execution_id ?e) ?e (s_executions s)\<rparr>"
  have "keys_stored ?s1" using store_inv_keys [OF assms] by (simp add: keys_stored_def)
  then obtain s2 where s2: "complete_step x (Some k) ?s1 = (Inr (), s2)" "keys_stored s2" "s_work_keys s2 = s_work_keys s"
    "length (s_work s2) = length (s_work s)" "s_limits s2 = s_limits s"
    using complete_step_total [of ?s1 x k] by auto
  define s3 where "s3 = (if x_release_capacity x then release_scopes ?e s2 else s2)"
  have s3: "keys_stored s3" "s_work_keys s3 = s_work_keys s" "length (s_work s3) = length (s_work s)" "s_limits s3 = s_limits s"
    using s2 by (simp_all add: keys_stored_def s3_def)
  have full: "int (length (s_work s)) \<le> l_max_work_items (s_limits s)"
    using assms by (simp add: store_inv_def size_inv_def)
  have "traceless s (and_then (create_work ?e EXPIRE_INTERRUPT d uuid now s3) (\<lambda>_ s4. (Inr ?e, s4)))"
    if "x_deadline_work_at x = Some d"
      "dget (s_work_keys s) (e_namespace ?e, e_execution_id ?e, EXPIRE_INTERRUPT) = None \<longrightarrow>
        ensure_capacity (length (s_work s)) (l_max_work_items (s_limits s)) = Inr u" for d u
  proof -
    have "work_room s3 0" using s3(3,4) full by (simp add: work_room_def)
    moreover have "work_room s3 (Suc 0)" if "dget (s_work_keys s3) (e_namespace ?e, e_execution_id ?e, EXPIRE_INTERRUPT) = None"
      using that s3(2-4) \<open>_ \<longrightarrow> ensure_capacity _ _ = Inr u\<close>
      by (auto simp: work_room_def ensure_capacity_def require_def split: if_splits)
    ultimately have "\<exists>s4. create_work ?e EXPIRE_INTERRUPT d uuid now s3 = (Inr (), s4)"
      using create_work_total [OF s3(1), of ?e EXPIRE_INTERRUPT 0 d uuid now] by metis
    then show ?thesis by (auto simp: traceless_def)
  qed
  then show ?thesis
    unfolding apply_transition_def Let_def
    by (intro traceless_check, cases "x_deadline_work_at x") (simp_all add: s2(1) s3_def [symmetric], metis)
qed

lemma mark_interrupted_traceless:
  assumes "store_inv s" shows "traceless s (store_mark_interrupted c ids t0 t1 t2 uuid s)"
  unfolding store_mark_interrupted_def
  by (intro traceless_check apply_transition_traceless assms)

section \<open>What an identifier in use does\<close>

text \<open>The execution \<open>materialize_task\<close> creates replaces whatever was stored under its identifier:
  the call has no guard like the one of \<open>enqueue_execution\<close>.\<close>

lemma materialized_identifier_overwrites:
  assumes "store_materialize_task task expected items uuids clock s = (Inr r, s')" "mr_executions r = [e]"
  shows "dget (s_executions s') (e_execution_id e) = Some e"
proof -
  have cw: "s_executions t' = s_executions t" if "create_work x kd at uuid now t = (Inr (), t')" for x kd at uuid now t t'
    using that by (auto simp: create_work_def Let_def check_Inr_iff split: option.splits)
  obtain item where item: "materialize_pending task items s = [item]" "se_execution item = e"
    and run: "create_pending (t_namespace task) uuids clock 0 [item] (s\<lparr>s_tasks := dput (t_task_id task) task (s_tasks s)\<rparr>) = (Inr (), s')"
    using assms by (auto simp: store_materialize_task_def check_Inr_iff and_then_Inr_iff Let_def split: if_splits)
  show ?thesis using run item(2) by (auto simp: Let_def and_then_Inr_iff dict_simps dest!: cw)
qed

end
