(* ===== verification/Automation_Store_Props.thy ===== *)
theory Automation_Store_Props
  imports Automation_Store_Atomic
begin

text \<open>
  The guarantees of the in-memory automation store, each with a concrete run of the store
  that meets its hypotheses.
\<close>

section \<open>A concrete run\<close>

definition demo_store :: store where
  "demo_store = init_store \<lparr>l_max_tasks = 2, l_max_executions = 2, l_max_work_items = 3, l_max_operations = 2\<rparr>"

definition demo_execution :: automation_execution where
  "demo_execution =
     \<lparr>e_execution_id = ''e1'', e_task_id = None, e_namespace = ''n'', e_owner_id = ''o'',
      e_identity = \<lparr>ri_namespace = ''n'', ri_thread_id = ''t'', ri_run_id = ''r''\<rparr>,
      e_target = ''x'', e_input = PNone,
      e_limits = \<lparr>el_max_concurrent_runs = 1, el_max_queued_runs = 1, el_execution_timeout = 100,
        el_queue_timeout = 50\<rparr>,
      e_origin = ONE_TIME, e_status = QUEUED, e_attempt = 1, e_retry_of = None, e_scheduled_for = None,
      e_queued_at = 0, e_queue_deadline = 50, e_execution_started_at = None, e_execution_deadline = None,
      e_finished_at = None, e_failure_code = None, e_failure_message = None, e_result = PNone,
      e_interrupt_ids = [], e_start_authorized_at = None, e_start_token = None, e_created_at = 0,
      e_updated_at = 0\<rparr>"

definition demo_queued :: store where
  "demo_queued = snd (store_enqueue_execution demo_execution ''once'' (Some ''q'') ''d'' None ''w1'' 0 demo_store)"

definition demo_claim :: work_item_claim where
  "demo_claim = \<lparr>c_work_item_id = ''w1'', c_namespace = ''n'', c_execution_id = ''e1'', c_kind = EXECUTE,
     c_claim_token = ''tok'', c_fence = 1, c_lease_until = 11\<rparr>"

definition demo_claimed :: store where
  "demo_claimed = snd (store_claim_work ''n'' ''k'' 1 10 1 1 (\<lambda>_. ''tok'') demo_queued)"

definition demo_running :: store where
  "demo_running = snd (store_authorize_start demo_claim 100 2 2 ''start'' demo_claimed)"

definition demo_finished :: store where
  "demo_finished = snd (store_finish_execution demo_claim SUCCEEDED PNone None None 3 3 demo_running)"

lemma demo_initial: "initial_store demo_store"
  by code_simp

lemma demo_fresh: "fresh_execution demo_execution"
  by code_simp

lemma demo_steps:
  "(store_step 1)\<^sup>*\<^sup>* demo_store demo_queued"
  "(store_step 1)\<^sup>*\<^sup>* demo_store demo_claimed"
  "(store_step 1)\<^sup>*\<^sup>* demo_store demo_running"
  "(store_step 1)\<^sup>*\<^sup>* demo_running demo_finished"
  "(store_step 1)\<^sup>*\<^sup>* demo_queued demo_running"
proof -
  have "dget (s_work demo_store) ''w1'' = None" by code_simp
  then have 1: "store_step 1 demo_store demo_queued"
    unfolding demo_queued_def by (intro store_step.enqueue_execution demo_fresh)
  have 2: "store_step 1 demo_queued demo_claimed"
    unfolding demo_claimed_def by (intro store_step.claim_work) simp
  have 3: "store_step 1 demo_claimed demo_running"
    unfolding demo_running_def by (rule store_step.authorize_start)
  have 4: "store_step 1 demo_running demo_finished"
    unfolding demo_finished_def by (rule store_step.finish_execution)
  show "(store_step 1)\<^sup>*\<^sup>* demo_store demo_queued" "(store_step 1)\<^sup>*\<^sup>* demo_store demo_claimed"
    "(store_step 1)\<^sup>*\<^sup>* demo_store demo_running" "(store_step 1)\<^sup>*\<^sup>* demo_running demo_finished"
    "(store_step 1)\<^sup>*\<^sup>* demo_queued demo_running"
    using 1 2 3 4 by (meson rtranclp.rtrancl_into_rtrancl rtranclp.rtrancl_refl)+
qed

lemma demo_looks:
  "map_option e_status (dget (s_executions demo_claimed) ''e1'') = Some QUEUED"
  "map_option e_status (dget (s_executions demo_running) ''e1'') = Some RUNNING"
  "map_option e_start_authorized_at (dget (s_executions demo_running) ''e1'') = Some (Some 2)"
  "map_option e_status (dget (s_executions demo_finished) ''e1'') = Some SUCCEEDED"
  by code_simp+

section \<open>Invariant and lifecycle\<close>

text \<open>C2: The store keeps its invariant along every run of its operations, in whatever order and
  whether they return or raise: identifiers, work items, work keys, occurrences and executions stay
  linked; the status of every execution agrees with its work items, its start authorization, its
  admission and its end time; every capacity counter is the number of admitted executions of its
  scope; and no table outgrows the configured limits. Three conditions on the calls are rules of
  \<open>store_step\<close>: \<open>uuid4\<close> draws identifiers that are not in use, an execution passed to
  \<open>enqueue_execution\<close> is newly queued, and the executions \<open>materialize_task\<close> creates (the ones
  left by the occurrence filter) are newly queued and carry identifiers that are not in use. The
  source checks the last for \<open>enqueue_execution\<close> only; \<open>materialize_task\<close> relies on its caller.\<close>
theorem store_invariant_reachable:
  assumes "initial_store s0" "(store_step G)\<^sup>*\<^sup>* s0 s"
  shows "store_inv s"
  using assms by (rule sr.reachable_inv)

theorem store_invariant_reachable_witness: "store_inv demo_running"
  using store_invariant_reachable [OF demo_initial demo_steps(3)] .

text \<open>C1: A target is started at most once. As soon as an execution carries a start authorization,
  every later state keeps that authorization and its token, and \<open>authorize_start\<close> raises for
  every claim on that execution, leaving the store as it was.\<close>
theorem start_at_most_once:
  assumes "initial_store s0" "(store_step G)\<^sup>*\<^sup>* s0 s" "dget (s_executions s) i = Some e"
    "e_start_authorized_at e = Some t" "(store_step G)\<^sup>*\<^sup>* s s'"
  shows "\<exists>e'. dget (s_executions s') i = Some e' \<and> e_start_authorized_at e' = Some t \<and>
      e_start_token e' = e_start_token e \<and>
      (\<forall>c d t0 t1 tok. c_execution_id c = i \<longrightarrow>
         (\<exists>err. store_authorize_start c d t0 t1 tok s' = (Inl err, s')))"
proof -
  have "evolves s s'" using assms sr.reachable_inv run_evolves by blast
  then obtain e' where e': "dget (s_executions s') i = Some e'" "exec_progress e e'"
    using assms(3) evolvesD(1) by blast
  then have st: "e_start_authorized_at e' = Some t" "e_start_token e' = e_start_token e"
    using assms(4) by (auto simp: exec_progress_def frame_kept_def start_kept_def)
  have "\<exists>err. store_authorize_start c d t0 t1 tok s' = (Inl err, s')" if "c_execution_id c = i" for c d t0 t1 tok
  proof (cases "0 < d \<and> (\<exists>w. valid_claim s' c t0 = Inr w)")
    case True
    then obtain w where w: "valid_claim s' c t0 = Inr w" "0 < d" by blast
    then have "w_execution_id w = i" using valid_claimD(2) that by (simp add: claim_matches_def)
    then show ?thesis using w e' st by (simp add: store_authorize_start_def execution_of_def authorize_start_def)
  next
    case False
    then show ?thesis by (cases "valid_claim s' c t0") (auto simp: store_authorize_start_def require_def)
  qed
  then show ?thesis using e' st by blast
qed

theorem start_at_most_once_witness:
  "\<exists>e' err. dget (s_executions demo_finished) ''e1'' = Some e' \<and> e_start_authorized_at e' = Some 2 \<and>
     store_authorize_start demo_claim 100 2 2 ''again'' demo_running = (Inl err, demo_running)"
proof -
  obtain e where e: "dget (s_executions demo_running) ''e1'' = Some e" "e_start_authorized_at e = Some 2"
    using demo_looks(3) by auto
  note a = start_at_most_once [OF demo_initial demo_steps(3) e]
  have "c_execution_id demo_claim = ''e1''" by (simp add: demo_claim_def)
  then have "\<exists>err. store_authorize_start demo_claim 100 2 2 ''again'' demo_running = (Inl err, demo_running)"
    using a [OF rtranclp.rtrancl_refl] by blast
  then show ?thesis using a [OF demo_steps(4)] by blast
qed

text \<open>C4: A terminal execution is final: along every later run of the operations no field of its
  snapshot changes. The runs are those of \<open>store_step\<close>, so they assume that the executions
  \<open>materialize_task\<close> creates carry identifiers that are not in use: the source assigns
  \<open>_executions[execution_id]\<close> there without a guard, so a call that reuses the identifier of a
  terminal execution would replace it (\<open>materialized_identifier_overwrites\<close>). Every other
  operation, \<open>enqueue_execution\<close> with a known identifier included, leaves it alone by itself.\<close>
theorem terminal_execution_final:
  assumes "initial_store s0" "(store_step G)\<^sup>*\<^sup>* s0 s" "dget (s_executions s) i = Some e"
    "is_terminal (e_status e)" "(store_step G)\<^sup>*\<^sup>* s s'"
  shows "dget (s_executions s') i = Some e"
proof -
  have "evolves s s'" using assms sr.reachable_inv run_evolves by blast
  then show ?thesis using evolvesD(1) [of s s' i e] assms(3,4) by (auto simp: exec_progress_def)
qed

theorem terminal_execution_final_witness:
  "dget (s_executions (snd (store_cancel_execution ''n'' ''o'' ''e1'' None ''d'' 9 demo_finished))) ''e1'' =
   dget (s_executions demo_finished) ''e1''"
proof -
  obtain e where e: "dget (s_executions demo_finished) ''e1'' = Some e" "e_status e = SUCCEEDED"
    using demo_looks(4) by auto
  have run: "(store_step 1)\<^sup>*\<^sup>* demo_store demo_finished" using demo_steps(3,4) by (rule rtranclp_trans)
  have "(store_step 1)\<^sup>*\<^sup>* demo_finished (snd (store_cancel_execution ''n'' ''o'' ''e1'' None ''d'' 9 demo_finished))"
    by (rule r_into_rtranclp) (rule store_step.cancel_execution)
  from terminal_execution_final [OF demo_initial run e(1) _ this] e show ?thesis by simp
qed

text \<open>The lifecycle only moves forward (queued, running, cancellation requested, interrupted,
  needs attention, terminal) and an execution keeps its identity, owner, scope, input, limits,
  origin, attempt and queue times for good.\<close>
theorem lifecycle_forward:
  assumes "initial_store s0" "(store_step G)\<^sup>*\<^sup>* s0 s" "dget (s_executions s) i = Some e"
    "(store_step G)\<^sup>*\<^sup>* s s'"
  shows "\<exists>e'. dget (s_executions s') i = Some e' \<and> same_subject e e' \<and>
    rank (e_status e) \<le> rank (e_status e')"
proof -
  have "evolves s s'" using assms sr.reachable_inv run_evolves by blast
  then show ?thesis using assms(3) evolvesD(1) [of s s' i e] by (auto simp: exec_progress_def frame_kept_def)
qed

theorem lifecycle_forward_witness:
  "\<exists>e'. dget (s_executions demo_finished) ''e1'' = Some e' \<and> rank RUNNING \<le> rank (e_status e')"
proof -
  obtain e where e: "dget (s_executions demo_running) ''e1'' = Some e" "e_status e = RUNNING"
    using demo_looks(2) by auto
  show ?thesis using lifecycle_forward [OF demo_initial demo_steps(3) e(1) demo_steps(4)] e(2) by auto
qed

text \<open>C3: No execution is stranded and none is worked on twice: an execution that is neither
  terminal nor waiting for a resolution has exactly one work item that is not completed, and a
  settled execution has none.\<close>
theorem exactly_one_active_item:
  assumes "initial_store s0" "(store_step G)\<^sup>*\<^sup>* s0 s" "dget (s_executions s) i = Some e"
  shows "if is_terminal (e_status e) \<or> e_status e = NEEDS_ATTENTION
    then \<nexists>k w. dget (s_work s) k = Some w \<and> w_execution_id w = i \<and> w_status w \<noteq> COMPLETED
    else \<exists>!k. \<exists>w. dget (s_work s) k = Some w \<and> w_execution_id w = i \<and> w_status w \<noteq> COMPLETED"
proof (cases "settled_status (e_status e)")
  case True
  have inv: "store_inv s" using assms sr.reachable_inv by blast
  have no: "\<not> active (work_of s e kd)" for kd
    using active_by_status [OF store_inv_exec(3) [OF inv assms(3)]] True
    by (cases kd; cases "e_status e") (auto simp: settled_status_def)
  have "\<nexists>k w. dget (s_work s) k = Some w \<and> w_execution_id w = i \<and> w_status w \<noteq> COMPLETED"
    unfolding active_items_of [OF inv assms(3)] using no by (auto simp: active_def)
  then show ?thesis using True by (simp add: settled_status_def)
next
  case False
  have inv: "store_inv s" using assms sr.reachable_inv by blast
  show ?thesis using one_active_item [OF inv assms(3) False] False by (auto simp: settled_status_def)
qed

theorem exactly_one_active_item_witness:
  "\<exists>!k. \<exists>w. dget (s_work demo_running) k = Some w \<and> w_execution_id w = ''e1'' \<and> w_status w \<noteq> COMPLETED"
proof -
  obtain e where e: "dget (s_executions demo_running) ''e1'' = Some e" "e_status e = RUNNING"
    using demo_looks(2) by auto
  show ?thesis using exactly_one_active_item [OF demo_initial demo_steps(3) e(1)] e(2) by simp
qed

text \<open>C5: The concurrency limit of a namespace holds at every moment: if no worker claims with a
  \<open>global_concurrency\<close> above \<open>G\<close>, then at most \<open>G\<close> executions of a namespace are running, being
  cancelled, interrupted or waiting for a resolution.\<close>
theorem concurrency_bounded:
  assumes "initial_store s0" "(store_step G)\<^sup>*\<^sup>* s0 s" "0 \<le> G"
  shows "int (card {i. \<exists>e. dget (s_executions s) i = Some e \<and> e_namespace e = ns \<and>
    e_status e \<in> {RUNNING, CANCEL_REQUESTED, INTERRUPTED, NEEDS_ATTENTION}}) \<le> G"
    (is "int (card ?A) \<le> G")
proof -
  let ?g = "(ns, ''global'', ''global'')"
  have inv: "store_inv s" using assms sr.reachable_inv by blast
  have sub: "?A \<subseteq> holders s ?g"
  proof
    fix i assume "i \<in> ?A"
    then obtain e where e: "dget (s_executions s) i = Some e" "e_namespace e = ns"
      "e_status e \<in> {RUNNING, CANCEL_REQUESTED, INTERRUPTED, NEEDS_ATTENTION}" by blast
    then show "i \<in> holders s ?g"
      using admitted_by_status store_inv_exec [OF inv e(1)] by (auto simp: holders_def scope_keys_def global_key_def)
  qed
  have i0: "store_inv s0" using assms(1) store_inv_init by (metis initial_store_def)
  have "allocated s0 ?g = 0" using assms(1) by (metis allocated_def init_store_def initial_store_def map_of.simps(1) option.simps(4) store.select_convs(8))
  then have "allocated s ?g \<le> G" using global_run [OF assms(2) i0] assms(3) by simp
  moreover have "allocated s ?g = int (card (holders s ?g))" "finite (holders s ?g)"
    using inv holders_finite [of s ?g] by (auto simp: store_inv_def scope_inv_def)
  ultimately show ?thesis using card_mono [OF _ sub] by linarith
qed

theorem concurrency_bounded_witness:
  "int (card {i. \<exists>e. dget (s_executions demo_running) i = Some e \<and> e_namespace e = ''n'' \<and>
    e_status e \<in> {RUNNING, CANCEL_REQUESTED, INTERRUPTED, NEEDS_ATTENTION}}) \<le> 1"
  using concurrency_bounded [OF demo_initial demo_steps(3), of "''n''"] by simp

section \<open>Atomicity and claims\<close>



lemma claim_result_claims:
  assumes inv: "store_inv s" "store_inv s1" and ev: "evolves s s1"
    and r: "claim_result (claim_candidates ns now s1) l gc s1 cs s'" and c: "c \<in> set cs"
  shows "item_fence s (c_work_item_id c) < c_fence c" "c_namespace c = ns"
    "\<not> s_closed s1 \<Longrightarrow> t < l \<Longrightarrow> \<exists>w. valid_claim s' c t = Inr w"
    "item_fence s' (c_work_item_id c) = c_fence c"
proof -
  let ?k = "c_work_item_id c"
  obtain w where w: "dget (s_work s1) ?k = Some w" "w_status w = PENDING" "w_namespace w = ns"
    using claim_candidates_pending(2) [OF inv(2), of ?k ns now] r c by (auto simp: claim_result_def)
  obtain w' where w': "dget (s_work s') ?k = Some w'" "w_status w' = CLAIMED" "claim_from w' = Inr c" "c_lease_until c = l"
    using r c by (auto simp: claim_result_def claim_issued_def)
  have p: "item_progress w w'"
    using r w(1) w'(1) evolvesD(2) [of s1 s' ?k w] by (auto simp: claim_result_def)
  have f: "c_fence c = w_fence w'" "w_claim_token w' = Some (c_claim_token c)" "w_lease_until w' = Some l"
    "c_namespace c = w_namespace w'" "c_execution_id c = w_execution_id w'"
    using w' by (auto simp: claim_from_def split: option.splits)
  have "w_claim_token w = None" using inv(2) w link_item [of s1 ?k w]
    by (metis item_wf_def store_inv_def work_status.distinct(1))
  then have lt: "w_fence w < w_fence w'" using p f(2) by (auto simp: item_progress_def)
  have "item_fence s ?k \<le> w_fence w"
  proof (cases "dget (s_work s) ?k")
    case None
    have "0 \<le> w_fence w" using inv(2) w link_item [of s1 ?k w] by (metis item_wf_def store_inv_def)
    then show ?thesis using None by (simp add: item_fence_def)
  next
    case (Some v)
    then show ?thesis using evolvesD(2) [OF ev Some] w by (auto simp: item_fence_def item_progress_def)
  qed
  then show "item_fence s ?k < c_fence c" using lt f(1) by simp
  show "c_namespace c = ns" using p w(3) f(4) by (simp add: item_progress_def same_item_def)
  show "item_fence s' ?k = c_fence c" using w' f by (simp add: item_fence_def)
  show "\<exists>w. valid_claim s' c t = Inr w" if "\<not> s_closed s1" "t < l"
  proof -
    have "\<not> s_closed s'" using r that by (simp add: claim_result_def)
    then show ?thesis using w' f that by (simp add: valid_claim_def ensure_open_def claim_matches_def)
  qed
qed

text \<open>C8: On an open store and for well-formed arguments \<open>claim_work\<close> never raises. It returns at
  most \<open>limit\<close> claims; each belongs to the namespace, is valid until its lease ends and carries a
  fence above every fence its work item had before.\<close>
theorem claim_work_grants:
  assumes "initial_store s0" "(store_step G)\<^sup>*\<^sup>* s0 s" "\<not> s_closed s"
    "text_ok ns (Some 128)" "text_ok worker (Some 191)" "1 \<le> lim" "0 < d" "1 \<le> gc"
  shows "\<exists>cs s'. store_claim_work ns worker lim d gc now toks s = (Inr cs, s') \<and> int (length cs) \<le> lim \<and>
    (\<forall>c \<in> set cs. c_namespace c = ns \<and> item_fence s (c_work_item_id c) < c_fence c \<and>
       (\<forall>t < now + d. \<exists>w. valid_claim s' c t = Inr w))"
proof -
  have inv: "store_inv s" using assms(1,2) by (rule sr.reachable_inv)
  obtain cs s1 s' where r: "store_claim_work ns worker lim d gc now toks s = (Inr cs, s')" "store_inv s1" "evolves s s1"
    "s_closed s1 = s_closed s" "claim_result (claim_candidates ns now s1) (now + d) gc s1 cs s'" "int (length cs) \<le> lim"
    using claim_work_total [OF inv assms(3-8)] by blast
  show ?thesis
    using r(1,6) claim_result_claims [OF inv r(2,3,5)] r(4) assms(3) by (intro exI [of _ cs] exI [of _ s']) auto
qed

theorem claim_work_grants_witness:
  "\<exists>cs s'. store_claim_work ''n'' ''k'' 1 10 1 1 (\<lambda>_. ''tok'') demo_queued = (Inr cs, s') \<and> int (length cs) \<le> 1"
proof -
  have "\<not> s_closed demo_queued" "text_ok ''n'' (Some 128)" "text_ok ''k'' (Some 191)" by code_simp+
  from claim_work_grants [OF demo_initial demo_steps(1) this, of 1 10 1 1 "\<lambda>_. ''tok''"] show ?thesis by auto
qed

text \<open>C7: Fencing: once \<open>claim_work\<close> hands out a new claim on a work item, a claim that was valid on
  that item before is rejected at every time and in every later state.\<close>
theorem stale_claims_locked_out:
  assumes "initial_store s0" "(store_step G)\<^sup>*\<^sup>* s0 s" "valid_claim s old t0 = Inr w0"
    "store_claim_work ns worker lim d gc now toks s = (Inr cs, s1)" "gc \<le> G" "new \<in> set cs"
    "c_work_item_id new = c_work_item_id old" "(store_step G)\<^sup>*\<^sup>* s1 s2"
  shows "valid_claim s2 old t \<noteq> Inr w"
proof
  assume v: "valid_claim s2 old t = Inr w"
  have inv: "store_inv s" using assms(1,2) by (rule sr.reachable_inv)
  have "\<exists>ns' lim'. \<not> s_closed s \<and> text_ok ns (Some 128) \<and> text_ok worker (Some 191) \<and> 1 \<le> lim \<and> 0 < d \<and> 1 \<le> gc"
    using claim_work_guarded [of s ns worker lim d gc now toks] assms(4) by fastforce
  then obtain q where r: "store_inv q" "evolves s q" "claim_result (claim_candidates ns now q) (now + d) gc q cs s1"
    using claim_work_total [OF inv, of ns worker lim d gc now toks] assms(4) by auto
  have "store_step G s s1" using store_step.claim_work [OF assms(5), of s ns worker lim d now toks] assms(4) by simp
  then have inv1: "store_inv s1" using store_step_keeps inv by blast
  have "c_fence old = item_fence s (c_work_item_id old)"
    using sr.holds_current [OF inv, of "c_work_item_id old" "c_fence old"] assms(3) by (auto simp: claim_holds_def)
  then have "c_fence old < item_fence s1 (c_work_item_id old)"
    using claim_result_claims(1,4) [OF inv r assms(6)] assms(7) by simp
  then show False
    using sr.overtaken_forever [OF assms(8) inv1] v by (auto simp: claim_holds_def)
qed

definition demo_second :: work_item_claim where
  "demo_second = demo_claim\<lparr>c_claim_token := ''tok2'', c_fence := 2, c_lease_until := 30\<rparr>"

definition demo_reclaimed :: store where
  "demo_reclaimed = snd (store_claim_work ''n'' ''k2'' 1 10 1 20 (\<lambda>_. ''tok2'') demo_claimed)"

theorem stale_claims_locked_out_witness: "\<not> (\<exists>w. valid_claim demo_reclaimed demo_claim 21 = Inr w)"
proof
  assume "\<exists>w. valid_claim demo_reclaimed demo_claim 21 = Inr w"
  then obtain w where w: "valid_claim demo_reclaimed demo_claim 21 = Inr w" by blast
  have "fst (store_claim_work ''n'' ''k2'' 1 10 1 20 (\<lambda>_. ''tok2'') demo_claimed) = Inr [demo_second]"
    "map_sum (\<lambda>x. x) w_fence (valid_claim demo_claimed demo_claim 2) = Inr 1" by code_simp+
  then have c: "store_claim_work ''n'' ''k2'' 1 10 1 20 (\<lambda>_. ''tok2'') demo_claimed = (Inr [demo_second], demo_reclaimed)"
    and "\<exists>v. valid_claim demo_claimed demo_claim 2 = Inr v"
    by (auto simp: prod_eq_iff demo_reclaimed_def map_sum_def split: sum.splits)
  then obtain v where "valid_claim demo_claimed demo_claim 2 = Inr v" by blast
  from stale_claims_locked_out [OF demo_initial demo_steps(2) this c] w show False
    by (auto simp: demo_second_def)
qed

section \<open>Idempotency\<close>

lemma operation_result_recorded:
  assumes "dget (s_operations s) (ns, owner, r) = Some \<lparr>o_input_digest = dig, o_result = res\<rparr>" "evolves s s'"
  shows "operation_result s' ns owner (Some r) dig = Inr (Some res)"
    "dig' \<noteq> dig \<Longrightarrow> operation_result s' ns owner (Some r) dig' =
       Inl (RequestConflictError ''Request ID was reused with different input'')"
  using evolvesD(4) [OF assms(2,1)] by (simp_all add: operation_result_def)

lemma save_operation_records:
  "save_operation ns owner (Some r) dig res s = (Inr u, s') \<Longrightarrow>
   dget (s_operations s') (ns, owner, r) = Some \<lparr>o_input_digest = dig, o_result = res\<rparr>"
  by (auto simp: save_operation_def check_Inr_iff dict_simps)

text \<open>Commands are idempotent under their request id. After a cancellation with request id \<open>r\<close>
  has returned, repeating it in any later state of the open store returns the recorded result and
  changes nothing, and reusing \<open>r\<close> with other input raises a conflict.\<close>
theorem cancel_replay:
  assumes "initial_store s0" "(store_step G)\<^sup>*\<^sup>* s0 s" "operation_result s ns owner (Some r) dig = Inr None"
    "store_cancel_execution ns owner i (Some r) dig now s = (Inr e, s1)"
    "(store_step G)\<^sup>*\<^sup>* s1 s2" "\<not> s_closed s2"
  shows "store_cancel_execution ns owner i (Some r) dig later s2 = (Inr e, s2) \<and>
    (dig' \<noteq> dig \<longrightarrow> store_cancel_execution ns owner j (Some r) dig' later s2 =
       (Inl (RequestConflictError ''Request ID was reused with different input''), s2))"
proof -
  have inv: "store_inv s" using assms(1,2) by (rule sr.reachable_inv)
  have "s1 = snd (store_cancel_execution ns owner i (Some r) dig now s)" using assms(4) by simp
  then have "store_step G s s1" by (simp add: store_step.cancel_execution)
  then have ev: "evolves s1 s2" using run_evolves [OF assms(5)] store_step_keeps inv by blast
  have scope: "validate_scope ns owner = Inr ()"
    and rec: "dget (s_operations s1) (ns, owner, r) = Some \<lparr>o_input_digest = dig, o_result = ExecutionResult e\<rparr>"
    using assms(3,4)
    by (auto simp: store_cancel_execution_def check_Inr_iff and_then_Inr_iff dest: save_operation_records)
  show ?thesis
    using operation_result_recorded [OF rec ev] scope assms(6)
    by (simp add: store_cancel_execution_def ensure_open_def)
qed

definition demo_cancelled :: store where
  "demo_cancelled = snd (store_cancel_execution ''n'' ''o'' ''e1'' (Some ''c'') ''d'' 5 demo_queued)"

theorem cancel_replay_witness:
  "\<exists>e. store_cancel_execution ''n'' ''o'' ''e1'' (Some ''c'') ''d'' 99 demo_cancelled = (Inr e, demo_cancelled)"
proof -
  have "isl (fst (store_cancel_execution ''n'' ''o'' ''e1'' (Some ''c'') ''d'' 5 demo_queued)) = False"
    and o: "operation_result demo_queued ''n'' ''o'' (Some ''c'') ''d'' = Inr None" "\<not> s_closed demo_cancelled"
    by code_simp+
  then obtain e where "store_cancel_execution ''n'' ''o'' ''e1'' (Some ''c'') ''d'' 5 demo_queued = (Inr e, demo_cancelled)"
    by (auto simp: demo_cancelled_def isl_def prod_eq_iff) (metis obj_sumE)
  from cancel_replay [OF demo_initial demo_steps(1) o(1) this rtranclp.rtrancl_refl o(2)] show ?thesis by blast
qed

text \<open>C9: An occurrence is executed once. From the moment it is recorded, enqueueing it again, under
  any request id, changes nothing: when the request is not itself a replay or a conflict the
  execution recorded for the occurrence is returned, a replayed request returns its recorded
  result and a reused request id with other input raises. And \<open>materialize_task\<close> filters the
  occurrence out.\<close>
theorem occurrence_executed_once:
  assumes "initial_store s0" "(store_step G)\<^sup>*\<^sup>* s0 s" "dget (s_occurrences s) (ns, key) = Some i"
    "(store_step G)\<^sup>*\<^sup>* s s'" "\<not> s_closed s'" "e_namespace e = ns" "t_namespace task = ns"
  shows "(\<exists>e'. dget (s_executions s') i = Some e' \<and>
      store_enqueue_execution e key rid dig revision uuid now s' =
        (case operation_result s' ns (e_owner_id e) rid dig of
           Inl err \<Rightarrow> Inl err
         | Inr None \<Rightarrow> Inr e'
         | Inr (Some p) \<Rightarrow> expect_execution p, s')) \<and>
    (\<forall>x \<in> set (materialize_pending task items s'). se_occurrence_key x \<noteq> key)"
proof -
  have inv: "store_inv s" using assms(1,2) by (rule sr.reachable_inv)
  then have inv': "store_inv s'" using sr.run_inv assms(4) by blast
  have occ: "dget (s_occurrences s') (ns, key) = Some i"
    using evolvesD(3) [OF run_evolves [OF assms(4) inv] assms(3)] .
  then obtain e' where e': "dget (s_executions s') i = Some e'"
    using inv' by (auto simp: store_inv_def link_inv_def occurrences_inv_def)
  have "store_enqueue_execution e key rid dig revision uuid now s' =
      (case operation_result s' ns (e_owner_id e) rid dig of
         Inl err \<Rightarrow> Inl err | Inr None \<Rightarrow> Inr e' | Inr (Some p) \<Rightarrow> expect_execution p, s')"
    using occ e' assms(5,6)
    by (simp add: store_enqueue_execution_def ensure_open_def execution_of_def check_def split: sum.split option.split)
  moreover have "se_occurrence_key x \<noteq> key" if "x \<in> set (materialize_pending task items s')" for x
    using that pending_loop_new dget_in_dkeys [OF occ] assms(7)
    by (fastforce simp: materialize_pending_def pending_occurrences_def simp del: set_map)
  ultimately show ?thesis using e' by blast
qed

theorem occurrence_executed_once_witness:
  "\<exists>e'. dget (s_executions demo_running) ''e1'' = Some e' \<and>
     store_enqueue_execution demo_execution ''once'' (Some ''q2'') ''d'' None ''w9'' 7 demo_running = (Inr e', demo_running)"
proof -
  have "dget (s_occurrences demo_queued) (''n'', ''once'') = Some ''e1''" "\<not> s_closed demo_queued"
    and n: "\<not> s_closed demo_running" "e_namespace demo_execution = ''n''" by code_simp+
  moreover have "operation_result demo_running ''n'' (e_owner_id demo_execution) (Some ''q2'') ''d'' = Inr None" by code_simp
  ultimately show ?thesis
    using demo_steps(5)
      occurrence_executed_once [OF demo_initial demo_steps(1), of "''n''" "''once''" "''e1''" demo_running demo_execution
        "undefined\<lparr>t_namespace := ''n''\<rparr>" "Some ''q2''" "''d''" None "''w9''" 7 "[]"] by auto
qed

end
