(* ===== verification/Automation_Store_Pages.thy ===== *)
theory Automation_Store_Pages
  imports Automation_Store_Props
begin

text \<open>
  Task revisions, task deletion, the queue bound and keyset pagination of the in-memory store.
\<close>

section \<open>Optimistic concurrency on tasks\<close>

text \<open>No update is lost: after an update made at revision \<open>n\<close> has been accepted, the task is stored
  at revision \<open>n + 1\<close>, and a second update (without a request id) that still expects revision \<open>n\<close>
  raises a conflict and changes nothing.\<close>
theorem concurrent_update_conflicts:
  assumes "store_update_task a n None dig s = (Inr a', s')"
    "t_task_id b = t_task_id a" "t_namespace b = t_namespace a" "t_owner_id b = t_owner_id a"
  shows "a' = a \<and> dget (s_tasks s') (t_task_id a) = Some a \<and> t_revision a = n + 1 \<and>
    store_update_task b n None dig' s' = (Inl (TaskConflictError ''Task revision changed''), s')"
proof -
  have s': "s' = s\<lparr>s_tasks := dput (t_task_id a) a (s_tasks s)\<rparr>" "a' = a" "t_revision a = n + 1" "\<not> s_closed s"
    using assms(1)
    by (auto simp: store_update_task_def check_Inr_iff and_then_Inr_iff operation_result_def save_operation_def
        ensure_open_def)
  then show ?thesis
    using assms(2-4) by (simp add: store_update_task_def operation_result_def owned_task_def ensure_open_def dict_simps)
qed

definition demo_task :: automation_task where
  "demo_task = \<lparr>t_task_id = ''t1'', t_namespace = ''n'', t_owner_id = ''o'', t_name = ''a'', t_target = ''x'',
     t_input = PNone, t_schedule = IntervalSchedule 60 0, t_status = ENABLED, t_revision = 1, t_next_run_at = Some second,
     t_misfire_policy = default_misfire_policy, t_limits = default_execution_limits, t_created_at = 0, t_updated_at = 0\<rparr>"

definition demo_tasks :: store where
  "demo_tasks = snd (store_create_task demo_task None ''d'' demo_store)"

theorem concurrent_update_conflicts_witness:
  "store_update_task (demo_task\<lparr>t_revision := 2, t_name := ''c''\<rparr>) 1 None ''d''
     (snd (store_update_task (demo_task\<lparr>t_revision := 2, t_name := ''b''\<rparr>) 1 None ''d'' demo_tasks)) =
   (Inl (TaskConflictError ''Task revision changed''),
    snd (store_update_task (demo_task\<lparr>t_revision := 2, t_name := ''b''\<rparr>) 1 None ''d'' demo_tasks))"
proof -
  let ?a = "demo_task\<lparr>t_revision := 2, t_name := ''b''\<rparr>"
  have "fst (store_update_task ?a 1 None ''d'' demo_tasks) = Inr ?a" by code_simp
  then have "store_update_task ?a 1 None ''d'' demo_tasks = (Inr ?a, snd (store_update_task ?a 1 None ''d'' demo_tasks))"
    by (simp add: prod_eq_iff)
  from concurrent_update_conflicts [OF this, of "demo_task\<lparr>t_revision := 2, t_name := ''c''\<rparr>" "''d''"] show ?thesis by simp
qed

section \<open>The queue bound\<close>

text \<open>The queue of a scope is bounded: when \<open>enqueue_execution\<close> creates an execution, the number
  of queued executions of its scope (its task, or its owner for one-time work), the new one
  included, is at most the execution's \<open>max_queued_runs\<close>.\<close>
theorem enqueue_respects_queue_limit:
  assumes "store_enqueue_execution e occ rid dig revision uuid now s = (Inr e', s')"
    "dget (s_executions s) (e_execution_id e) = None" "dget (s_executions s') (e_execution_id e) \<noteq> None"
  shows "count_if (\<lambda>i. same_execution_scope i e \<and> e_status i = QUEUED) (dvalues (s_executions s')) \<le>
    el_max_queued_runs (e_limits e)"
proof -
  have cw: "s_executions q = s_executions p" if "create_work x kd at u n p = (Inr v, q)" for x kd at u n p v q
    using that by (auto simp: create_work_def Let_def check_Inr_iff split: option.splits)
  have so: "s_executions q = s_executions p" if "save_operation a b c f g p = (Inr v, q)" for a b c f g p v q
    using that by (auto simp: save_operation_def check_Inr_iff split: option.splits)
  let ?P = "\<lambda>i. same_execution_scope i e \<and> e_status i = QUEUED"
  have "s_executions s' = dput (e_execution_id e) e (s_executions s) \<and>
    count_if ?P (dvalues (s_executions s)) + 1 \<le> el_max_queued_runs (e_limits e)"
    using assms
    by (auto simp: store_enqueue_execution_def check_Inr_iff and_then_Inr_iff require_queue_capacity_def
        dest!: cw so split: option.splits if_splits)
  then show ?thesis using assms(2) by (auto simp: dput_new)
qed

theorem enqueue_respects_queue_limit_witness:
  "count_if (\<lambda>i. same_execution_scope i demo_execution \<and> e_status i = QUEUED) (dvalues (s_executions demo_queued)) \<le> 1"
proof -
  have f: "isl (fst (store_enqueue_execution demo_execution ''once'' (Some ''q'') ''d'' None ''w1'' 0 demo_store)) = False"
    "dget (s_executions demo_store) (e_execution_id demo_execution) = None"
    "dget (s_executions demo_queued) (e_execution_id demo_execution) \<noteq> None"
    "el_max_queued_runs (e_limits demo_execution) = 1" by code_simp+
  then obtain e' where "store_enqueue_execution demo_execution ''once'' (Some ''q'') ''d'' None ''w1'' 0 demo_store = (Inr e', demo_queued)"
    by (auto simp: demo_queued_def isl_def prod_eq_iff) (metis obj_sumE)
  from enqueue_respects_queue_limit [OF this f(2,3)] f(4) show ?thesis by simp
qed

section \<open>Deleting a task\<close>

definition cancelled_at :: "time \<Rightarrow> automation_execution \<Rightarrow> automation_execution" where
  "cancelled_at now e = e\<lparr>e_status := CANCELLED, e_finished_at := Some now, e_updated_at := now\<rparr>"

lemma cancel_queued_executions:
  assumes "store_inv s" "distinct (map e_execution_id es)"
    "\<And>e. e \<in> set es \<Longrightarrow> dget (s_executions s) (e_execution_id e) = Some e"
    "cancel_queued tid now es s = (Inr u, s')"
  shows "dget (s_executions s') i =
    map_option (\<lambda>e. if e \<in> set es \<and> e_task_id e = Some tid \<and> e_status e = QUEUED then cancelled_at now e else e)
      (dget (s_executions s) i)"
  using assms
proof (induction tid now es s rule: cancel_queued.induct)
  case (1 tid now s)
  then show ?case by (simp add: option.map_ident)
next
  case (2 tid now e es s)
  have e: "dget (s_executions s) (e_execution_id e) = Some e" using 2 by simp
  show ?case
  proof (cases "e_task_id e \<noteq> Some tid \<or> e_status e \<noteq> QUEUED")
    case True
    then have "dget (s_executions s') i =
      map_option (\<lambda>e. if e \<in> set es \<and> e_task_id e = Some tid \<and> e_status e = QUEUED then cancelled_at now e else e)
      (dget (s_executions s) i)" using 2 by simp
    then show ?thesis using True by (cases "dget (s_executions s) i") auto
  next
    case False
    then obtain x where x: "cancel_execution e now = Inr x"
      using cancel_execution_total [of e now] store_inv_exec [OF "2.prems"(1) e] by auto
    have xe: "x_execution x = cancelled_at now e" using x False
      by (auto simp: cancel_execution_def bindE_Inr_iff mk_execution_ok cancelled_at_def)
    note c = cancel_settled [OF "2.prems"(1) e x]
    have ap: "apply_transition x None [] now s = (Inr (x_execution x), settled x None s)"
      by (rule apply_transition_plain [OF c(1,2)])
    have new: "dget (s_executions (settled x None s)) j = (if j = e_execution_id e then Some (cancelled_at now e) else dget (s_executions s) j)" for j
      by (simp add: xe dict_simps) (simp add: cancelled_at_def)
    have d: "e_execution_id e' \<noteq> e_execution_id e" if "e' \<in> set es" for e'
      using distinct_map_Cons [OF "2.prems"(2) that] .
    have rest: "dget (s_executions s') i =
      map_option (\<lambda>e. if e \<in> set es \<and> e_task_id e = Some tid \<and> e_status e = QUEUED then cancelled_at now e else e)
      (dget (s_executions (settled x None s)) i)"
    proof (rule "2.IH"(2) [OF False x ap c(3)])
      show "cancel_queued tid now es (settled x None s) = (Inr u, s')"
        using "2.prems"(4) False x ap by simp
      show "dget (s_executions (settled x None s)) (e_execution_id e') = Some e'" if "e' \<in> set es" for e'
        using "2.prems"(3) [of e'] d [OF that] that by (simp add: new del: settled_fields)
    qed (use "2.prems"(2) in simp)
    show ?thesis
    proof (cases "i = e_execution_id e")
      case True
      then show ?thesis using rest new e False d [of "cancelled_at now e"] by (auto simp: cancelled_at_def)
    next
      case i: False
      have "e0 \<noteq> e" if "dget (s_executions s) i = Some e0" for e0
        using store_inv_exec(1) [OF "2.prems"(1) that] i by auto
      then show ?thesis using rest new i by (cases "dget (s_executions s) i") auto
    qed
  qed
qed

lemma apply_transition_tasks:
  "apply_transition x item u now p = (y, r) \<Longrightarrow> s_tasks r = s_tasks p"
  by (auto simp: apply_transition_def Let_def check_def and_then_def create_work_def complete_step_def
      update_item_def complete_execution_work_def
      split: sum.splits option.splits if_splits prod.splits complete_work.splits)

lemma cancel_queued_tasks: "cancel_queued tid now es p = (Inr v, q) \<Longrightarrow> s_tasks q = s_tasks p"
  by (induction tid now es p rule: cancel_queued.induct)
     (auto simp: check_Inr_iff and_then_Inr_iff apply_transition_tasks split: if_splits)

text \<open>Deleting a task removes it and cancels exactly its queued executions; every execution that
  has started, and every execution of another task, keeps its snapshot.\<close>
theorem delete_task_cancels_queued:
  assumes "initial_store s0" "(store_step G)\<^sup>*\<^sup>* s0 s" "operation_result s ns owner rid dig = Inr None"
    "store_delete_task ns owner tid n rid dig now s = (Inr u, s')"
  shows "dget (s_tasks s') tid = None \<and>
    dget (s_executions s') i =
      map_option (\<lambda>e. if e_task_id e = Some tid \<and> e_status e = QUEUED
         then e\<lparr>e_status := CANCELLED, e_finished_at := Some now, e_updated_at := now\<rparr> else e)
      (dget (s_executions s) i)"
proof -
  have inv: "store_inv s" using assms(1,2) by (rule sr.reachable_inv)
  let ?s = "s\<lparr>s_tasks := ddel tid (s_tasks s)\<rparr>"
  have inv': "store_inv ?s" using inv by (rule store_inv_del_task)
  have so: "s_executions q = s_executions p \<and> s_tasks q = s_tasks p" if "save_operation a b c f g p = (Inr v, q)" for a b c f g p v q
    using that by (auto simp: save_operation_def check_Inr_iff split: option.splits)
  obtain s1 where s1: "cancel_queued tid now (dvalues (s_executions s)) ?s = (Inr (), s1)"
    "s_executions s' = s_executions s1" "s_tasks s' = s_tasks s1"
    using assms(3,4) by (auto simp: store_delete_task_def check_Inr_iff and_then_Inr_iff dest!: so)
  note st = stored_executions [OF inv']
  have "dget (s_executions s1) i =
    map_option (\<lambda>e. if e \<in> set (dvalues (s_executions s)) \<and> e_task_id e = Some tid \<and> e_status e = QUEUED then cancelled_at now e else e)
      (dget (s_executions ?s) i)"
    by (rule cancel_queued_executions [OF inv' _ _ s1(1)]) (use st in simp_all)
  moreover have "dget (s_executions s) i = Some e \<Longrightarrow> e \<in> set (dvalues (s_executions s))" for e
    by (rule dget_in_dvalues)
  moreover have "dget (s_tasks s') tid = None"
    using cancel_queued_tasks [OF s1(1)] s1(3) by (simp add: dict_simps)
  ultimately show ?thesis using s1(2)
    by (cases "dget (s_executions s) i") (simp_all add: cancelled_at_def)
qed

definition demo_delete :: "string \<Rightarrow> unit store_outcome" where
  "demo_delete tid = store_delete_task ''n'' ''o'' tid 1 None ''d'' 9 demo_tasks"

theorem delete_task_cancels_queued_witness: "dget (s_tasks (snd (demo_delete ''t1''))) ''t1'' = None"
proof -
  have run: "(store_step 1)\<^sup>*\<^sup>* demo_store demo_tasks"
    unfolding demo_tasks_def by (rule r_into_rtranclp) (rule store_step.create_task)
  have "operation_result demo_tasks ''n'' ''o'' None ''d'' = Inr None" by (simp add: operation_result_def)
  moreover have "fst (demo_delete ''t1'') = Inr ()" by code_simp
  then have "store_delete_task ''n'' ''o'' ''t1'' 1 None ''d'' 9 demo_tasks = (Inr (), snd (demo_delete ''t1''))"
    by (simp add: demo_delete_def prod_eq_iff)
  ultimately show ?thesis using delete_task_cancels_queued [OF demo_initial run] by blast
qed

section \<open>Keyset pagination\<close>

text \<open>
  A client that follows the cursors: it asks for the first page and then for the page behind
  the returned cursor until none is returned. \<open>fuel\<close> bounds the number of requests.
\<close>

fun walk_tasks :: "nat \<Rightarrow> string \<Rightarrow> string \<Rightarrow> int \<Rightarrow> string option \<Rightarrow> store \<Rightarrow> automation_task list option" where
  "walk_tasks 0 ns owner limit cursor s = None"
| "walk_tasks (Suc fuel) ns owner limit cursor s =
     (case fst (store_list_tasks ns owner limit cursor s) of
        Inl err \<Rightarrow> None
      | Inr p \<Rightarrow>
          (case pg_next_cursor p of
             None \<Rightarrow> Some (pg_items p)
           | Some c \<Rightarrow> map_option ((@) (pg_items p)) (walk_tasks fuel ns owner limit (Some c) s)))"

definition visible_tasks :: "string \<Rightarrow> string \<Rightarrow> store \<Rightarrow> automation_task list" where
  "visible_tasks ns owner s =
     sort_key (\<lambda>t. (t_created_at t, t_task_id t))
       (filter (\<lambda>t. t_namespace t = ns \<and> t_owner_id t = owner) (dvalues (s_tasks s)))"

lemma page_after_suffix:
  assumes "distinct (map f (pre @ x # rest))"
  shows "page_after f (pre @ x # rest) (Some (f x)) limit = take (nat (limit + 1)) rest"
proof -
  have "f x \<notin> f ` set pre" using assms by simp
  then have "f y \<noteq> f x" if "y \<in> set pre" for y using that by (metis imageI)
  then have "dropWhile (\<lambda>y. f y \<noteq> f x) (pre @ x # rest) = x # rest" by (induction pre) auto
  then show ?thesis by (simp add: page_after_def)
qed

lemma page_of_take:
  assumes "1 \<le> limit"
  shows "pg_items (page_of f (take (nat (limit + 1)) xs) limit) = take (nat limit) xs"
    "pg_next_cursor (page_of f (take (nat (limit + 1)) xs) limit) =
       (if nat limit < length xs then Some (f (xs ! nat (limit - 1))) else None)"
  using assms by (auto simp: page_of_def min_def)

lemma walk_from:
  assumes "text_ok ns (Some 128)" "text_ok owner (Some 191)" "1 \<le> limit" "limit \<le> 100" "\<not> s_closed s"
    "distinct (map t_task_id (visible_tasks ns owner s))"
    "visible_tasks ns owner s = pre @ rest" "length rest < fuel"
    "cursor = (if pre = [] then None else Some (t_task_id (last pre)))"
  shows "walk_tasks fuel ns owner limit cursor s = Some rest"
  using assms(7-9)
proof (induction fuel arbitrary: pre rest cursor)
  case (Suc fuel)
  let ?items = "visible_tasks ns owner s" and ?n = "nat limit"
  have page: "page_after t_task_id ?items cursor limit = take (nat (limit + 1)) rest"
  proof (cases "pre = []")
    case True then show ?thesis using Suc.prems by (simp add: page_after_def)
  next
    case False
    then have "?items = butlast pre @ last pre # rest" using Suc.prems(1) by simp
    then show ?thesis using page_after_suffix [of t_task_id "butlast pre" "last pre" rest limit] assms(6) Suc.prems(3) False by simp
  qed
  have "validate_scope ns owner = Inr ()" using assms(1,2) by (simp add: validate_scope_def bindE_Inr_iff)
  then have call: "fst (store_list_tasks ns owner limit cursor s) = Inr (page_of t_task_id (take (nat (limit + 1)) rest) limit)"
    using assms(3-5) page
    by (simp add: store_list_tasks_def validate_page_limit_def ensure_open_def visible_tasks_def)
  show ?case
  proof (cases "?n < length rest")
    case False
    then show ?thesis using call page_of_take [OF assms(3), of t_task_id rest] by simp
  next
    case True
    have ne: "take ?n rest \<noteq> []" using True assms(3) by auto
    then have l: "last (pre @ take ?n rest) = rest ! nat (limit - 1)" "pre @ take ?n rest \<noteq> []"
      using True assms(3) last_conv_nth [OF ne] by (simp_all add: nat_diff_distrib min_def)
    have "walk_tasks fuel ns owner limit (Some (t_task_id (rest ! nat (limit - 1)))) s = Some (drop ?n rest)"
      by (rule Suc.IH [of "pre @ take ?n rest"]) (use Suc.prems True assms(3) l in auto)
    then show ?thesis using call page_of_take [OF assms(3), of t_task_id rest] True by simp
  qed
qed simp

text \<open>Pagination is complete: on an unchanged open store, following the cursors of \<open>list_tasks\<close> from
  the first page ends and returns every task of the owner exactly once, in creation order,
  whatever the page size.\<close>
theorem task_pages_complete:
  assumes "initial_store s0" "(store_step G)\<^sup>*\<^sup>* s0 s" "\<not> s_closed s" "text_ok ns (Some 128)" "text_ok owner (Some 191)"
    "1 \<le> limit" "limit \<le> 100"
  shows "\<exists>items. walk_tasks (Suc (length (s_tasks s))) ns owner limit None s = Some items \<and>
    set items = {t \<in> set (dvalues (s_tasks s)). t_namespace t = ns \<and> t_owner_id t = owner} \<and> distinct items \<and>
    sorted (map (\<lambda>t. (t_created_at t, t_task_id t)) items)"
proof -
  have inv: "store_inv s" using assms(1,2) by (rule sr.reachable_inv)
  then have wf: "dwf (s_tasks s)" "\<And>k t. dget (s_tasks s) k = Some t \<Longrightarrow> t_task_id t = k"
    by (auto simp: store_inv_def link_inv_def ids_inv_def)
  then have "map t_task_id (dvalues (s_tasks s)) = dkeys (s_tasks s)" by (auto simp: map_of_is_SomeI)
  then have "distinct (map t_task_id (dvalues (s_tasks s)))" using wf(1) by metis
  then have "distinct (map t_task_id (filter (\<lambda>t. t_namespace t = ns \<and> t_owner_id t = owner) (dvalues (s_tasks s))))"
    by (rule distinct_map_filter)
  then have d: "distinct (map t_task_id (visible_tasks ns owner s))"
    by (simp add: visible_tasks_def distinct_map)
  have len: "length (visible_tasks ns owner s) < Suc (length (s_tasks s))"
    using length_filter_le [of "\<lambda>t. t_namespace t = ns \<and> t_owner_id t = owner" "dvalues (s_tasks s)"]
    by (simp add: visible_tasks_def le_imp_less_Suc del: length_filter_le)
  have "walk_tasks (Suc (length (s_tasks s))) ns owner limit None s = Some (visible_tasks ns owner s)"
    by (rule walk_from [where pre = "[]"]) (use assms d len in auto)
  then show ?thesis using d distinct_map by (fastforce simp: visible_tasks_def)
qed

theorem task_pages_complete_witness:
  "\<exists>items. walk_tasks 2 ''n'' ''o'' 1 None demo_tasks = Some items \<and> distinct items"
proof -
  have run: "(store_step 1)\<^sup>*\<^sup>* demo_store demo_tasks"
    unfolding demo_tasks_def by (rule r_into_rtranclp) (rule store_step.create_task)
  have a: "\<not> s_closed demo_tasks" "text_ok ''n'' (Some 128)" "text_ok ''o'' (Some 191)" "length (s_tasks demo_tasks) = 1" by code_simp+
  show ?thesis using task_pages_complete [OF demo_initial run a(1-3), of 1] a(4) by (auto simp: numeral_2_eq_2)
qed

end
