(* ===== verification/Automation_Schedule_Facts.thy ===== *)
theory Automation_Schedule_Facts
  imports Automation_Schedule
begin

text \<open>
  What the schedule functions promise: the next run is strictly in the future, is the least
  point of the interval grid or a wall-clock match of the Cron fields, previews increase, and
  materialisation returns a bounded, increasing list of missed runs.
\<close>

section \<open>Grid arithmetic\<close>

lemma int_div_less_iff:
  assumes "0 < (p :: int)"
  shows "a div p < j \<longleftrightarrow> a < j * p"
proof
  assume "a div p < j"
  then have "(a div p + 1) * p \<le> j * p"
    using assms by (intro mult_right_mono) auto
  moreover have "a div p * p + a mod p < a div p * p + p"
    by (rule add_strict_left_mono [OF pos_mod_bound [OF assms]])
  then have "a < (a div p + 1) * p"
    by (simp add: distrib_right)
  ultimately show "a < j * p" by simp
next
  assume "a < j * p"
  moreover have "a div p * p \<le> a"
    using assms div_mult_mod_eq [of a p] pos_mod_sign [of p a] by linarith
  ultimately have "a div p * p < j * p" by simp
  then show "a div p < j"
    using assms by (simp add: mult_less_cancel_right)
qed

lemma next_grid_point_after:
  assumes "0 < (p :: int)"
  shows "a < s + ((a - s) div p + 1) * p"
    and "a < s + j * p \<Longrightarrow> s + ((a - s) div p + 1) * p \<le> s + j * p"
proof -
  have "(a - s) div p < (a - s) div p + 1"
    by simp
  then have "a - s < ((a - s) div p + 1) * p"
    by (simp only: int_div_less_iff [OF assms])
  then show "a < s + ((a - s) div p + 1) * p" by simp
next
  assume "a < s + j * p"
  then have "(a - s) div p < j"
    by (simp add: int_div_less_iff [OF assms])
  then have "(a - s) div p + 1 \<le> j" by simp
  then show "s + ((a - s) div p + 1) * p \<le> s + j * p"
    using assms by (simp add: mult_right_mono)
qed

lemma second_pos [simp]: "0 < second" "0 \<le> second"
  by (simp_all add: second_def)

section \<open>Interval schedules\<close>

lemma next_run_after_interval:
  assumes "0 < every"
  shows "next_run_after db (IntervalSchedule every start) a =
     Inr (Some (if a < start then start
                else start + ((a - start) div (every * second) + 1) * (every * second)))"
proof (cases "a < start")
  case False
  have "0 < every * second" using assms by simp
  then have "0 \<le> (a - start) div (every * second)"
    using False by (simp add: pos_imp_zdiv_nonneg_iff)
  then show ?thesis
    using False by (simp add: next_run_after_def Let_def mult.assoc)
qed (simp add: next_run_after_def)

lemma interval_next_least:
  assumes "0 < every"
  shows "\<exists>r k. next_run_after db (IntervalSchedule every start) a = Inr (Some r) \<and> a < r \<and>
     0 \<le> k \<and> r = start + k * (every * second) \<and>
     (\<forall>j \<ge> 0. a < start + j * (every * second) \<longrightarrow> r \<le> start + j * (every * second))"
proof (cases "a < start")
  case True
  then have "next_run_after db (IntervalSchedule every start) a = Inr (Some start)"
    by (simp add: next_run_after_interval [OF assms])
  with True assms show ?thesis
    by (intro exI [of _ start] exI [of _ "0 :: int"]) (auto simp: less_imp_le)
next
  case False
  let ?p = "every * second"
  let ?k = "(a - start) div ?p + 1"
  have p: "0 < ?p" using assms by simp
  have "0 \<le> ?k" using False p by (simp add: pos_imp_zdiv_nonneg_iff)
  with False show ?thesis
    using next_grid_point_after [OF p, of a start]
    by (intro exI [of _ "start + ?k * ?p"] exI [of _ ?k])
      (simp add: next_run_after_interval [OF assms])
qed

section \<open>Cron schedules\<close>

lemma scan_times_sound:
  "scan_times z a day ts = Some t \<Longrightarrow>
   a < t \<and> (\<exists>h m. (h, m) \<in> set ts \<and> t \<in> set (valid_utc_candidates (day, (h * 60 + m) * 60 * second) z))"
proof (induction z a day ts rule: scan_times.induct)
  case (2 z a day h m rest)
  then show ?case
    by (auto split: list.splits if_splits) (metis list.set_intros(1))+
qed simp

lemma candidate_local:
  "c \<in> set (valid_utc_candidates l z) \<Longrightarrow> z_local z c = l"
  by (auto simp: valid_utc_candidates_def split: if_splits)

lemma scan_days_sound:
  "scan_days c z a e day = Inr t \<Longrightarrow>
   a < t \<and> (\<exists>d h m. day_matches c d \<and> (h, m) \<in> set (times_of_day c) \<and>
     z_local z t = (d, (h * 60 + m) * 60 * second))"
proof (induction c z a e day rule: scan_days.induct)
  case (1 c z a e day)
  show ?case
  proof (cases "day_matches c day \<and> scan_times z a day (times_of_day c) = Some t")
    case True
    then have "a < t \<and> (\<exists>h m. (h, m) \<in> set (times_of_day c) \<and>
        z_local z t = (day, (h * 60 + m) * 60 * second))"
      by (meson candidate_local scan_times_sound)
    with True show ?thesis by blast
  next
    case False
    with "1.prems" have "scan_days c z a e (next_day day) = Inr t"
      by (subst (asm) scan_days.simps) (auto split: if_splits option.splits)
    with "1.prems" False show ?thesis
      by (intro "1.IH") (subst (asm) scan_days.simps, auto split: if_splits option.splits)+
  qed
qed

lemma next_run_after_strict:
  assumes "valid_schedule db sched" and "next_run_after db sched a = Inr (Some r)"
  shows "a < r"
proof (cases sched)
  case (OnceSchedule at)
  with assms(2) show ?thesis by (auto simp: next_run_after_def split: if_splits)
next
  case (IntervalSchedule every start)
  with assms(1) have "0 < every"
    by (simp add: MIN_INTERVAL_SECONDS_def)
  from interval_next_least [OF this, of db start a] IntervalSchedule assms(2)
  show ?thesis by auto
next
  case (CronSchedule e tz)
  with assms(2) show ?thesis
    by (auto simp: next_run_after_def bindE_Inr_iff Let_def split: option.splits dest: scan_days_sound)
qed


section \<open>Cron fields stay inside their bounds\<close>

lemma set_py_range:
  assumes "0 < step"
  shows "set (py_range start stop step) \<subseteq> {start..<stop}"
    and "start < stop \<Longrightarrow> start \<in> set (py_range start stop step)"
proof -
  show "set (py_range start stop step) \<subseteq> {start..<stop}"
  proof
    fix x
    assume "x \<in> set (py_range start stop step)"
    then obtain k where k: "k < nat ((stop - start + step - 1) div step)" "x = start + int k * step"
      by (auto simp: py_range_def)
    then have "int k + 1 \<le> (stop - start + step - 1) div step" by linarith
    then have "(int k + 1) * step \<le> (stop - start + step - 1) div step * step"
      using assms by (intro mult_right_mono) auto
    also have "\<dots> \<le> stop - start + step - 1"
      using assms by (metis div_mult_mod_eq pos_mod_sign add_increasing2 order_refl)
    finally have "int k * step < stop - start" by (simp add: distrib_right)
    then show "x \<in> {start..<stop}" using assms k by simp
  qed
  assume "start < stop"
  then have "1 \<le> (stop - start + step - 1) div step"
    using assms by (simp add: int_one_le_iff_zero_less pos_imp_zdiv_pos_iff)
  then show "start \<in> set (py_range start stop step)"
    by (force simp: py_range_def intro!: image_eqI [of _ _ 0])
qed

definition names_within :: "int \<Rightarrow> int \<Rightarrow> (string, int) dict option \<Rightarrow> bool" where
  "names_within lo hi names \<longleftrightarrow> (\<forall>m. names = Some m \<longrightarrow> (\<forall>k v. dget m k = Some v \<longrightarrow> lo \<le> v \<and> v \<le> hi))"

lemma parse_value_within:
  assumes "names_within lo hi names" and "parse_value lo hi names value = Inr n"
  shows "lo \<le> n \<and> n \<le> hi"
  using assms
  by (auto simp: parse_value_def names_within_def Let_def split: option.splits if_splits)

lemma parse_step_pos: "parse_step sep txt = Inr st \<Longrightarrow> 1 \<le> st"
  by (auto simp: parse_step_def split: option.splits if_splits)

lemma parse_item_within:
  assumes nm: "names_within lo hi names" and le: "lo \<le> hi"
    and ok: "parse_item lo hi names item = Inr xs"
  shows "set xs \<subseteq> {lo..hi} \<and> xs \<noteq> []"
proof -
  from ok obtain st start stop
    where st: "1 \<le> st" and xs: "xs = py_range start (stop + 1) st"
      and bnd: "lo \<le> start" "start \<le> stop" "stop \<le> hi"
    using le parse_value_within [OF nm]
    by (fastforce simp: parse_item_def bindE_Inr_iff dest: parse_step_pos
        split: prod.splits if_splits)
  have "set xs \<subseteq> {start..<stop + 1}" and "start \<in> set xs"
    using set_py_range [of st start "stop + 1"] st bnd xs by auto
  with bnd show ?thesis by auto
qed

lemma parse_items_within:
  assumes "names_within lo hi names" and "lo \<le> hi"
  shows "parse_items lo hi names S items = Inr T \<Longrightarrow> S \<subseteq> {lo..hi} \<Longrightarrow> finite S \<Longrightarrow>
    T \<subseteq> {lo..hi} \<and> finite T \<and> S \<subseteq> T \<and> (items \<noteq> [] \<longrightarrow> T \<noteq> {})"
proof (induction items arbitrary: S)
  case (Cons item items)
  from Cons.prems(1) obtain xs where xs: "parse_item lo hi names item = Inr xs"
    and rest: "parse_items lo hi names (S \<union> set xs) items = Inr T"
    by (auto simp: bindE_Inr_iff)
  from parse_item_within [OF assms xs] Cons.IH [OF rest] Cons.prems(2,3)
  show ?case by auto
qed simp

lemma split_char_not_Nil: "split_char sep s \<noteq> []"
  by (induction sep s rule: split_char.induct) (auto split: list.splits)

lemma parse_field_within:
  assumes "names_within lo hi names" and "lo \<le> hi" and "parse_field lo hi names field = Inr T"
  shows "T \<subseteq> {lo..hi} \<and> finite T \<and> T \<noteq> {}"
  using parse_items_within [OF assms(1,2), of "{}" _ T] assms(3) split_char_not_Nil
  by (auto simp: parse_field_def)

definition cron_bounds :: "compiled_cron \<Rightarrow> bool" where
  "cron_bounds c \<longleftrightarrow>
     (cc_minutes c \<subseteq> {0..59} \<and> cc_minutes c \<noteq> {}) \<and> (cc_hours c \<subseteq> {0..23} \<and> cc_hours c \<noteq> {}) \<and>
     (cc_days c \<subseteq> {1..31} \<and> cc_days c \<noteq> {}) \<and> (cc_months c \<subseteq> {1..12} \<and> cc_months c \<noteq> {}) \<and>
     (cc_weekdays c \<subseteq> {0..6} \<and> cc_weekdays c \<noteq> {})"

lemma names_within_tables:
  "names_within lo hi None"
  "names_within 1 12 (Some MONTH_NAMES)"
  "names_within 0 6 (Some WEEKDAY_NAMES)"
  by (auto simp: names_within_def MONTH_NAMES_def WEEKDAY_NAMES_def split: if_splits)

lemma compile_cron_fields:
  assumes "compile_cron e = Inr c"
  obtains f0 f1 f2 f3 f4 where
    "parse_field 0 59 None f0 = Inr (cc_minutes c)" "parse_field 0 23 None f1 = Inr (cc_hours c)"
    "parse_field 1 31 None f2 = Inr (cc_days c)"
    "parse_field 1 12 (Some MONTH_NAMES) f3 = Inr (cc_months c)"
    "parse_field 0 6 (Some WEEKDAY_NAMES) f4 = Inr (cc_weekdays c)"
  using assms unfolding compile_cron_def
  by (auto simp: bindE_Inr_iff split: list.split_asm)

lemma compile_cron_within:
  assumes "compile_cron e = Inr c"
  shows "cron_bounds c"
  using assms
proof (rule compile_cron_fields)
  fix f0 f1 f2 f3 f4
  assume f: "parse_field 0 59 None f0 = Inr (cc_minutes c)"
    "parse_field 0 23 None f1 = Inr (cc_hours c)" "parse_field 1 31 None f2 = Inr (cc_days c)"
    "parse_field 1 12 (Some MONTH_NAMES) f3 = Inr (cc_months c)"
    "parse_field 0 6 (Some WEEKDAY_NAMES) f4 = Inr (cc_weekdays c)"
  show ?thesis
    using f(1-3) [THEN parse_field_within [OF names_within_tables(1), rotated]]
      parse_field_within [OF names_within_tables(2) _ f(4)]
      parse_field_within [OF names_within_tables(3) _ f(5)]
    by (simp add: cron_bounds_def)
qed


section \<open>The Cron search finds the first matching instant\<close>

definition date_key :: "date \<Rightarrow> int \<times> int \<times> int" where
  "date_key d = (d_year d, d_month d, d_day d)"

text \<open>
  What the search relies on of a time zone: wall clocks name days of the calendar, instants
  that precede the earliest reading of a wall clock do not fall on a later day, and the
  earliest readings follow the order of the wall clock.
\<close>

definition zone_ordered :: "zone \<Rightarrow> bool" where
  "zone_ordered z \<longleftrightarrow>
     (\<forall>t. valid_date (fst (z_local z t))) \<and>
     (\<forall>t l u us. valid_utc_candidates l z = u # us \<longrightarrow> t < u \<longrightarrow>
        date_key (fst (z_local z t)) \<le> date_key (fst l)) \<and>
     (\<forall>l l' u us u' us'. valid_utc_candidates l z = u # us \<longrightarrow> valid_utc_candidates l' z = u' # us' \<longrightarrow>
        (date_key (fst l), snd l) \<le> (date_key (fst l'), snd l') \<longrightarrow> u \<le> u')"

lemma days_in_month_ge: "28 \<le> days_in_month y m"
  by (simp add: days_in_month_def)

lemma valid_date_next_day: "valid_date d \<Longrightarrow> valid_date (next_day d)"
  using days_in_month_ge [of "d_year d" "d_month d + 1"] days_in_month_ge [of "d_year d + 1" 1]
  by (auto simp: valid_date_def next_day_def)

lemma next_day_le:
  assumes "valid_date d" and "valid_date d'" and "date_key d < date_key d'"
  shows "date_key (next_day d) \<le> date_key d'"
proof (cases "d_year d = d_year d' \<and> d_month d = d_month d'")
  case True
  with assms show ?thesis by (auto simp: valid_date_def next_day_def date_key_def)
next
  case False
  with assms have "d_year d < d_year d' \<or> (d_year d = d_year d' \<and> d_month d < d_month d')"
    by (auto simp: date_key_def)
  with assms show ?thesis
    by (auto simp: valid_date_def next_day_def date_key_def)
qed

lemma date_key_inject: "date_key d = date_key d' \<Longrightarrow> d = d'"
  by (simp add: date_key_def)

lemma sorted_pairs:
  assumes "sorted_wrt (<) xs" and "sorted_wrt (<) ys"
  shows "sorted (concat (map (\<lambda>h. map (\<lambda>m. (h, m)) ys) xs) :: (int \<times> int) list)"
  using assms(1)
proof (induction xs)
  case (Cons x xs)
  have "sorted (map (\<lambda>m. (x, m)) ys)"
    using assms(2) by (simp add: sorted_map strict_sorted_imp_sorted sorted_wrt_iff_nth_less)
      (metis less_imp_le sorted_wrt_iff_nth_less)
  with Cons show ?case
    by (auto simp: sorted_append)
qed simp

lemma sorted_times_of_day: "sorted (times_of_day c)"
  unfolding times_of_day_def by (rule sorted_pairs) (rule strict_sorted_list_of_set)+

lemma set_times_of_day:
  assumes "cron_bounds c"
  shows "(h, m) \<in> set (times_of_day c) \<longleftrightarrow> h \<in> cc_hours c \<and> m \<in> cc_minutes c"
proof -
  have "finite (cc_hours c)" and "finite (cc_minutes c)"
    using assms by (auto simp: cron_bounds_def intro: finite_subset)
  then show ?thesis by (auto simp: times_of_day_def)
qed

lemma scan_times_least:
  assumes z: "zone_ordered z" and cand: "valid_utc_candidates (d, (h * 60 + m) * 60 * second) z = u # us"
    and u: "a < u"
  shows "sorted ts \<Longrightarrow> \<forall>(h', m') \<in> set ts. 0 \<le> m' \<and> m' \<le> 59 \<Longrightarrow> (h, m) \<in> set ts \<Longrightarrow>
    \<exists>t. scan_times z a d ts = Some t \<and> t \<le> u"
proof (induction ts)
  case (Cons hm ts)
  obtain h0 m0 where hm: "hm = (h0, m0)" by force
  let ?l = "(d, (h0 * 60 + m0) * 60 * second)"
  show ?case
  proof (cases "\<exists>c cs. valid_utc_candidates ?l z = c # cs \<and> a < c")
    case True
    then obtain c cs where c: "valid_utc_candidates ?l z = c # cs" "a < c" by blast
    have "(h0, m0) \<le> (h, m)" "0 \<le> m" "m0 \<le> 59"
      using Cons.prems hm by auto
    then have "(h0 * 60 + m0) * 60 * second \<le> (h * 60 + m) * 60 * second"
      by (intro mult_right_mono) auto
    then have "c \<le> u"
      using z c(1) cand unfolding zone_ordered_def by (metis fst_conv snd_conv less_eq_prod_simp order_refl)
    with c hm show ?thesis by simp
  next
    case False
    then have "(h, m) \<noteq> (h0, m0)" using cand u by auto
    with Cons.prems hm have "\<exists>t. scan_times z a d ts = Some t \<and> t \<le> u"
      by (intro Cons.IH) auto
    with False hm show ?thesis by (auto split: list.splits)
  qed
qed simp

lemma scan_times_hit:
  "scan_times z a day ts = Some t \<Longrightarrow>
   \<exists>h m us. (h, m) \<in> set ts \<and> valid_utc_candidates (day, (h * 60 + m) * 60 * second) z = t # us"
proof (induction z a day ts rule: scan_times.induct)
  case (2 z a day h m rest)
  show ?case
  proof (cases "scan_times z a day rest = Some t")
    case True
    with 2 show ?thesis by (fastforce split: list.splits if_splits)
  next
    case False
    with "2.prems" show ?thesis by (fastforce split: list.splits if_splits)
  qed
qed simp

lemma scan_days_least:
  assumes "zone_ordered z" and "cron_bounds c" and "valid_date d" "d_year d \<le> e" "d_year d \<le> 9999"
    and "day_matches c d" "(h, m) \<in> set (times_of_day c)"
      "valid_utc_candidates (d, (h * 60 + m) * 60 * second) z = u # us" "a < u"
    and "valid_date day" "date_key day \<le> date_key d"
  shows "\<exists>t. scan_days c z a e day = Inr t \<and> t \<le> u"
  using assms
proof (induction c z a e day rule: scan_days.induct)
  case (1 c z a e day)
  have minutes: "\<forall>(h', m') \<in> set (times_of_day c). 0 \<le> m' \<and> m' \<le> 59"
    using "1.prems"(2) by (auto simp: set_times_of_day) (auto simp: cron_bounds_def)
  have year: "d_year day \<le> e"
    using "1.prems"(4,11) by (auto simp: date_key_def)
  show ?case
  proof (cases "day_matches c day \<and> scan_times z a day (times_of_day c) \<noteq> None")
    case True
    then obtain t where t: "scan_times z a day (times_of_day c) = Some t" by blast
    then have eq: "scan_days c z a e day = Inr t"
      using True year by (subst scan_days.simps) simp
    from scan_times_hit [OF t] obtain h0 m0 us0
      where "valid_utc_candidates (day, (h0 * 60 + m0) * 60 * second) z = t # us0" by blast
    then have "t \<le> u" if "date_key day < date_key d"
      using "1.prems"(1,8) that unfolding zone_ordered_def
      by (metis fst_conv less_eq_prod_simp)
    moreover have "t \<le> u" if "date_key day = date_key d"
      using scan_times_least [OF "1.prems"(1,8,9) sorted_times_of_day minutes "1.prems"(7)]
        date_key_inject [OF that] t by simp
    ultimately show ?thesis using eq "1.prems"(11) by fastforce
  next
    case False
    have less: "date_key day < date_key d"
    proof (rule ccontr)
      assume "\<not> ?thesis"
      then have "day = d" using "1.prems"(11) by (simp add: date_key_inject)
      with False "1.prems"(6) scan_times_least [OF "1.prems"(1,8,9) sorted_times_of_day minutes "1.prems"(7)]
      show False by auto
    qed
    then have inner: "\<not> (d_year day = 9999 \<and> d_month day = 12 \<and> d_day day = 31)"
      using "1.prems"(3,5) days_in_month_def by (auto simp: date_key_def valid_date_def)
    have "\<exists>t. scan_days c z a e (next_day day) = Inr t \<and> t \<le> u"
      using "1.prems" less False inner year
      by (intro "1.IH") (auto simp: next_day_le valid_date_next_day)
    then show ?thesis
      using False year inner by (subst scan_days.simps) (auto split: option.splits)
  qed
qed

lemma cron_next_least:
  assumes "compile_cron ex = Inr c" and "db tz = Some z" and "zone_ordered z"
    and "valid_date d" "d_year d \<le> d_year (fst (z_local z a)) + MAX_CRON_SEARCH_YEARS" "d_year d \<le> 9999"
    and "day_matches c d" "h \<in> cc_hours c" "m \<in> cc_minutes c"
    and "valid_utc_candidates (d, (h * 60 + m) * 60 * second) z = u # us" "a < u"
  shows "\<exists>r. next_run_after db (CronSchedule ex tz) a = Inr (Some r) \<and> a < r \<and> r \<le> u"
proof -
  let ?day = "fst (z_local z a)"
  have c: "cron_bounds c" using assms(1) by (rule compile_cron_within)
  have day: "valid_date ?day" "date_key ?day \<le> date_key d"
    using assms(3,10,11) unfolding zone_ordered_def by (metis fst_conv)+
  obtain t where t: "scan_days c z a (d_year ?day + MAX_CRON_SEARCH_YEARS) ?day = Inr t" "t \<le> u"
    using scan_days_least [OF assms(3) c assms(4-7) _ assms(10,11) day] assms(8,9) c
    by (auto simp: set_times_of_day)
  then show ?thesis
    using assms(1,2) scan_days_sound [OF t(1)] by (auto simp: next_run_after_def Let_def)
qed


section \<open>Previews and materialisation\<close>

lemma preview_loop_increasing:
  assumes "valid_schedule db sched"
  shows "preview_loop db sched n cursor = Inr ts \<Longrightarrow> sorted_wrt (<) (cursor # ts) \<and> length ts \<le> n"
proof (induction n arbitrary: cursor ts)
  case (Suc n)
  from Suc.prems show ?case
  proof (cases ts)
    case (Cons t ts')
    with Suc.prems have "next_run_after db sched cursor = Inr (Some t)"
      and "preview_loop db sched n t = Inr ts'"
      by (auto simp: bindE_Inr_iff split: option.splits)
    with Suc.IH [of t ts'] next_run_after_strict [OF assms] Cons show ?thesis by fastforce
  qed simp
qed simp

lemma misfire_scan_increasing:
  assumes "valid_schedule db sched"
  shows "misfire_scan db sched now n cursor = Inr ts \<Longrightarrow>
    sorted_wrt (<) (cursor # ts) \<and> (\<forall>t \<in> set ts. t \<le> now) \<and> length ts < n"
proof (induction n arbitrary: cursor ts)
  case (Suc n)
  from Suc.prems show ?case
  proof (cases ts)
    case (Cons t ts')
    with Suc.prems have "next_run_after db sched cursor = Inr (Some t)" and "t \<le> now"
      and "misfire_scan db sched now n t = Inr ts'"
      by (auto simp: bindE_Inr_iff split: option.splits if_splits)
    with Suc.IH [of t ts'] next_run_after_strict [OF assms] Cons show ?thesis by fastforce
  qed simp
qed simp

text \<open>Where a materialised run may lie, by the mode of its policy.\<close>

definition due_window :: "misfire_policy \<Rightarrow> time \<Rightarrow> time" where
  "due_window p now = now - (if mp_mode p = SKIP then mp_grace p else mp_catch_up_window p)"

definition due_bound :: "misfire_policy \<Rightarrow> int" where
  "due_bound p = (if mp_mode p = CATCH_UP then mp_max_catch_up p else 1)"

definition due_ok :: "misfire_policy \<Rightarrow> time \<Rightarrow> time \<Rightarrow> time list \<Rightarrow> bool" where
  "due_ok p first_due now due \<longleftrightarrow>
     sorted_wrt (<) due \<and> int (length due) \<le> due_bound p \<and>
     (\<forall>t \<in> set due. first_due \<le> t \<and> due_window p now \<le> t \<and> t \<le> now)"

lemma latest_interval_due_grid:
  assumes "0 < every" and "first_due \<le> now"
  shows "first_due \<le> latest_interval_due every first_due now"
    and "latest_interval_due every first_due now \<le> now"
    and "\<exists>k \<ge> 0. latest_interval_due every first_due now = first_due + k * (every * second)"
    and "first_due + j * (every * second) \<le> now \<Longrightarrow>
      first_due + j * (every * second) \<le> latest_interval_due every first_due now"
proof -
  let ?p = "every * second"
  let ?k = "(now - first_due) div ?p"
  have p: "0 < ?p" using assms by simp
  have k: "0 \<le> ?k" using assms p by (simp add: pos_imp_zdiv_nonneg_iff)
  have eq: "latest_interval_due every first_due now = first_due + ?k * ?p"
    using k by (simp add: latest_interval_due_def Let_def mult.assoc)
  then show "first_due \<le> latest_interval_due every first_due now"
    using k p by (simp add: less_imp_le)
  have "?k * ?p \<le> now - first_due"
    using p div_mult_mod_eq [of "now - first_due" ?p] pos_mod_sign [of ?p "now - first_due"] by linarith
  with eq show "latest_interval_due every first_due now \<le> now" by simp
  show "\<exists>k \<ge> 0. latest_interval_due every first_due now = first_due + k * ?p"
    using eq k by blast
  assume "first_due + j * ?p \<le> now"
  then have "\<not> ?k < j"
    using int_div_less_iff [OF p, of "now - first_due" j] by linarith
  then show "first_due + j * ?p \<le> latest_interval_due every first_due now"
    using eq p by (simp add: mult_right_mono)
qed

lemma sorted_wrt_take: "sorted_wrt P xs \<Longrightarrow> sorted_wrt P (take n xs)"
  by (metis append_take_drop_id sorted_wrt_append)

lemma misfire_due_ok:
  assumes v: "valid_schedule db sched" and p: "valid_misfire_policy policy" and mode: "mp_mode policy \<noteq> SKIP"
    and scan: "misfire_scan db sched now n (max first_due (now - mp_catch_up_window policy) - 1) = Inr ts"
  shows "due_ok policy first_due now
    (if mp_mode policy = LATEST then (if ts = [] then [] else [last ts])
     else take (nat (mp_max_catch_up policy)) ts)"
proof -
  from misfire_scan_increasing [OF v scan]
  have ts: "sorted_wrt (<) ts" "\<forall>t \<in> set ts. first_due \<le> t \<and> due_window policy now \<le> t \<and> t \<le> now"
    using mode by (auto simp: due_window_def)
  have "set (take (nat (mp_max_catch_up policy)) ts) \<subseteq> set ts" by (rule set_take_subset)
  with ts p mode show ?thesis
    by (cases "mp_mode policy")
      (auto simp: due_ok_def due_bound_def valid_misfire_policy_iff sorted_wrt_take)
qed

lemma materialize_due_ok:
  assumes v: "valid_schedule db sched" and p: "valid_misfire_policy policy"
    and m: "materialize_schedule db sched first_due now policy = Inr ms"
  shows "due_ok policy first_due now (ms_due_at ms)"
    and "ms_next_run_at ms = Some n \<Longrightarrow> now < n"
proof -
  show "ms_next_run_at ms = Some n \<Longrightarrow> now < n"
    using m next_run_after_strict [OF v]
    by (auto simp: materialize_schedule_def bindE_Inr_iff Let_def
        split: if_splits misfire_mode.splits schedule.splits)
  show "due_ok policy first_due now (ms_due_at ms)"
  proof (cases "first_due > now")
    case True
    with m have "ms_due_at ms = []" by (auto simp: materialize_schedule_def)
    with p show ?thesis
      by (auto simp: due_ok_def due_bound_def valid_misfire_policy_iff)
  next
    case False
    consider (skip) "mp_mode policy = SKIP"
      | (fast) every start where "mp_mode policy = LATEST" "sched = IntervalSchedule every start"
      | (scan) "mp_mode policy \<noteq> SKIP"
          "\<not> (mp_mode policy = LATEST \<and> (\<exists>every start. sched = IntervalSchedule every start))"
      by blast
    then show ?thesis
    proof cases
      case skip
      with m False p show ?thesis
        by (auto simp: materialize_schedule_def bindE_Inr_iff due_ok_def due_bound_def due_window_def
            valid_misfire_policy_iff Let_def split: if_splits)
    next
      case fast
      then have e: "0 < every" using v by (simp add: MIN_INTERVAL_SECONDS_def)
      from fast m False latest_interval_due_grid(1,2) [OF e, of first_due now]
      show ?thesis
        by (auto simp: materialize_schedule_def bindE_Inr_iff due_ok_def due_bound_def due_window_def Let_def
            split: if_splits)
    next
      case scan
      with m False obtain ts
        where "misfire_scan db sched now MAX_MISFIRE_SCAN
            (max first_due (now - mp_catch_up_window policy) - 1) = Inr ts"
          and "ms_due_at ms = (if mp_mode policy = LATEST then (if ts = [] then [] else [last ts])
             else take (nat (mp_max_catch_up policy)) ts)"
        by (cases "mp_mode policy"; cases sched)
          (auto simp: materialize_schedule_def bindE_Inr_iff Let_def)
      with misfire_due_ok [OF v p scan(1)] show ?thesis by simp
    qed
  qed
qed

text \<open>The closed-form shortcut for intervals agrees with the general scan.\<close>

lemma misfire_scan_interval:
  assumes "0 < every"
  shows "misfire_scan db (IntervalSchedule every start) now n cursor = Inr ts \<Longrightarrow>
    set ts = {g. \<exists>k \<ge> 0. g = start + k * (every * second) \<and> cursor < g \<and> g \<le> now}"
proof (induction n arbitrary: cursor ts)
  case (Suc n)
  obtain r k where r: "next_run_after db (IntervalSchedule every start) cursor = Inr (Some r)" "cursor < r"
      "0 \<le> k" "r = start + k * (every * second)"
      "\<forall>j \<ge> 0. cursor < start + j * (every * second) \<longrightarrow> r \<le> start + j * (every * second)"
    using interval_next_least [OF assms, of db start cursor] by blast
  show ?case
  proof (cases "r > now")
    case True
    with Suc.prems r(1) have "ts = []" by simp
    with r True show ?thesis by force
  next
    case False
    with Suc.prems r(1) obtain ts' where ts': "ts = r # ts'"
        "misfire_scan db (IntervalSchedule every start) now n r = Inr ts'"
      by (auto simp: bindE_Inr_iff)
    with Suc.IH [OF ts'(2)] r False show ?thesis by force
  qed
qed simp

lemma le_last: "sorted_wrt (<) xs \<Longrightarrow> (x :: 'a :: linorder) \<in> set xs \<Longrightarrow> x \<le> last xs"
  by (induction xs) (auto simp: less_imp_le)

lemma latest_is_last_of_scan:
  assumes e: "0 < every" and due: "first_due \<le> now" and grid: "0 \<le> k" "first_due = start + k * (every * second)"
    and scan: "misfire_scan db (IntervalSchedule every start) now n (max first_due w - 1) = Inr ts"
    and v: "valid_schedule db (IntervalSchedule every start)"
  shows "(if latest_interval_due every first_due now \<ge> w then [latest_interval_due every first_due now] else [])
    = (if ts = [] then [] else [last ts])"
proof -
  let ?l = "latest_interval_due every first_due now"
  note l = latest_interval_due_grid [OF e due]
  obtain i where i: "0 \<le> i" "?l = first_due + i * (every * second)" using l(3) by blast
  have set_ts: "set ts = {g. \<exists>k \<ge> 0. g = start + k * (every * second) \<and> max first_due w - 1 < g \<and> g \<le> now}"
    by (rule misfire_scan_interval [OF e scan])
  have top: "g \<le> ?l" if "g \<in> set ts" for g
  proof -
    from that set_ts obtain j where "g = start + j * (every * second)" "g \<le> now" by blast
    then have "g = first_due + (j - k) * (every * second)" using grid by (simp add: algebra_simps)
    with l(4) [of "j - k"] \<open>g \<le> now\<close> show ?thesis by simp
  qed
  have mem: "?l \<in> set ts" if "w \<le> ?l"
    using set_ts i grid l(1,2) that
    by (auto simp: algebra_simps intro!: exI [of _ "k + i"])
  have sorted: "sorted_wrt (<) ts"
    using misfire_scan_increasing [OF v scan] by simp
  show ?thesis
  proof (cases "w \<le> ?l")
    case True
    then have "?l \<in> set ts" by (rule mem)
    then have "ts \<noteq> []" and "?l \<le> last ts"
      using le_last [OF sorted] by auto
    moreover have "last ts \<le> ?l"
      using \<open>ts \<noteq> []\<close> by (intro top last_in_set)
    ultimately show ?thesis using True by simp
  next
    case False
    have "g \<notin> set ts" for g
    proof
      assume g: "g \<in> set ts"
      then have "w \<le> g" using set_ts by auto
      with top [OF g] False show False by simp
    qed
    then have "ts = []" by (metis list.set_intros(1) neq_Nil_conv)
    with False show ?thesis by simp
  qed
qed

end
