(* ===== verification/Automation_Schedule_Props.thy ===== *)
theory Automation_Schedule_Props
  imports Automation_Schedule_Facts Automation_Model
begin

text \<open>
  The guarantees of schedules, misfire policies and JSON snapshots. The time zone database is a
  parameter; a proleptic UTC zone shows that what the theorems ask of a zone can be met.
\<close>

section \<open>A concrete zone\<close>

definition day_length :: duration where
  "day_length = 86400 * second"

definition first_day :: date where
  "first_day = \<lparr>d_year = 1, d_month = 1, d_day = 1\<rparr>"

text \<open>Time 0 is midnight of the first calendar day; earlier instants are read on that day.\<close>

definition utc_zone :: zone where
  "utc_zone =
     \<lparr>z_local = (\<lambda>t. if t < 0 then (first_day, t)
        else ((next_day ^^ nat (t div day_length)) first_day, t mod day_length)),
      z_utc = (\<lambda>fold (d, us). (date_ordinal d - 1) * day_length + us)\<rparr>"

definition utc_db :: tzdb where
  "utc_db name = (if name = ''UTC'' then Some utc_zone else None)"

lemma date_key_next_day: "valid_date d \<Longrightarrow> date_key d < date_key (next_day d)"
  by (auto simp: date_key_def next_day_def valid_date_def)

lemma valid_date_iter: "valid_date ((next_day ^^ n) first_day)"
proof (induction n)
  case 0
  show ?case by (simp add: first_day_def valid_date_def days_in_month_def)
qed (simp add: valid_date_next_day)

lemma date_key_iter: "m < n \<Longrightarrow> date_key ((next_day ^^ m) first_day) < date_key ((next_day ^^ n) first_day)"
proof (induction n)
  case (Suc n)
  have "date_key ((next_day ^^ n) first_day) < date_key ((next_day ^^ Suc n) first_day)"
    using date_key_next_day valid_date_iter by simp
  then show ?case using Suc by (cases "m = n") (auto intro: less_trans)
qed simp

lemma day_length_pos: "0 < day_length"
  by (simp add: day_length_def)

lemma utc_local_mono:
  assumes "t < t'"
  shows "(date_key (fst (z_local utc_zone t)), snd (z_local utc_zone t)) <
     (date_key (fst (z_local utc_zone t')), snd (z_local utc_zone t'))"
proof (cases "t < 0")
  case True
  show ?thesis
  proof (cases "t' < 0")
    case False
    have "date_key first_day \<le> date_key ((next_day ^^ n) first_day)" for n
      using date_key_iter [of 0 n] by (cases n) (auto simp: less_imp_le)
    moreover have "t < t' mod day_length"
      using True day_length_pos pos_mod_sign [of day_length t'] by linarith
    ultimately show ?thesis using True False by (auto simp: utc_zone_def less_prod_def' le_less)
  qed (use True assms in \<open>simp add: utc_zone_def\<close>)
next
  case False
  let ?n = "nat (t div day_length)" and ?m = "nat (t' div day_length)"
  have le: "?n \<le> ?m" using assms by (simp add: nat_mono zdiv_mono1 day_length_pos)
  show ?thesis
  proof (cases "?n = ?m")
    case True
    moreover have "0 \<le> t div day_length" "0 \<le> t' div day_length"
      using False assms day_length_pos by (auto simp: pos_imp_zdiv_nonneg_iff)
    ultimately have "t div day_length = t' div day_length" by simp
    then have "t mod day_length < t' mod day_length"
      using assms by (metis add_less_cancel_left mult_div_mod_eq)
    then show ?thesis using True False assms by (simp add: utc_zone_def)
  next
    case ne: False
    then have "date_key ((next_day ^^ ?n) first_day) < date_key ((next_day ^^ ?m) first_day)"
      using le by (intro date_key_iter) linarith
    then show ?thesis using False assms by (simp add: utc_zone_def)
  qed
qed

lemma utc_zone_ordered: "zone_ordered utc_zone"
proof -
  have "valid_date (fst (z_local utc_zone t))" for t
    using valid_date_iter [of 0] valid_date_iter by (auto simp: utc_zone_def)
  moreover have "date_key (fst (z_local utc_zone t)) \<le> date_key (fst l)"
    if "valid_utc_candidates l utc_zone = u # us" "t < u" for t l u us
  proof -
    have "z_local utc_zone u = l" using candidate_local that by (metis list.set_intros(1))
    then show ?thesis using utc_local_mono [OF that(2)] by (auto simp: less_prod_def' less_imp_le)
  qed
  moreover have "u \<le> u'"
    if "valid_utc_candidates l utc_zone = u # us" "valid_utc_candidates l' utc_zone = u' # us'"
      "(date_key (fst l), snd l) \<le> (date_key (fst l'), snd l')" for l l' u us u' us'
  proof (rule ccontr)
    assume "\<not> u \<le> u'"
    moreover have "z_local utc_zone u = l" "z_local utc_zone u' = l'"
      using candidate_local that by (metis list.set_intros(1))+
    ultimately show False using utc_local_mono [of u' u] that(3) by auto
  qed
  ultimately show ?thesis unfolding zone_ordered_def by blast
qed

section \<open>Schedules\<close>

text \<open>The next run of an interval schedule is the least point of its grid (start, start plus one
  period, and so on) that lies strictly after the given instant.\<close>
theorem interval_next_is_least_grid_point:
  assumes "MIN_INTERVAL_SECONDS \<le> every"
  shows "\<exists>r k. next_run_after db (IntervalSchedule every start) a = Inr (Some r) \<and> a < r \<and>
     0 \<le> k \<and> r = start + k * (every * second) \<and>
     (\<forall>j \<ge> 0. a < start + j * (every * second) \<longrightarrow> r \<le> start + j * (every * second))"
  using assms by (intro interval_next_least) (simp add: MIN_INTERVAL_SECONDS_def)

theorem interval_next_is_least_grid_point_witness:
  "\<exists>r. next_run_after utc_db (IntervalSchedule 60 0) 61000000 = Inr (Some r) \<and> 61000000 < r"
  using interval_next_is_least_grid_point [of 60 utc_db 0 61000000] by (auto simp: MIN_INTERVAL_SECONDS_def)

text \<open>C14: A Cron expression that compiles selects, in each of its five fields, a non-empty set of
  values inside the field's range.\<close>
theorem compiled_cron_in_range:
  assumes "compile_cron expression = Inr c"
  shows "cron_bounds c"
  using assms by (rule compile_cron_within)

definition nine_oclock :: compiled_cron where
  "nine_oclock = projr (compile_cron ''0 9 * * *'')"

lemma nine_oclock_compiles: "compile_cron ''0 9 * * *'' = Inr nine_oclock"
proof -
  have "\<not> isl (compile_cron ''0 9 * * *'')" by code_simp
  then show ?thesis by (cases "compile_cron ''0 9 * * *''") (auto simp: nine_oclock_def)
qed

theorem compiled_cron_in_range_witness: "cron_bounds nine_oclock"
  using compiled_cron_in_range [OF nine_oclock_compiles] .

text \<open>C11: A time returned for a Cron schedule lies after the given instant and reads, on the wall clock
  of the schedule's zone, a whole minute of a day that the expression selects in all five fields.\<close>
theorem cron_run_matches:
  assumes "compile_cron ex = Inr c" "db tz = Some z" "next_run_after db (CronSchedule ex tz) a = Inr (Some r)"
  shows "a < r \<and> (\<exists>d h m. z_local z r = (d, (h * 60 + m) * 60 * second) \<and> h \<in> cc_hours c \<and> m \<in> cc_minutes c \<and>
    d_day d \<in> cc_days c \<and> d_month d \<in> cc_months c \<and> weekday d \<in> cc_weekdays c)"
proof -
  have "scan_days c z a (d_year (fst (z_local z a)) + MAX_CRON_SEARCH_YEARS) (fst (z_local z a)) = Inr r"
    using assms by (auto simp: next_run_after_def bindE_Inr_iff Let_def)
  from scan_days_sound [OF this] show ?thesis
    using set_times_of_day [OF compile_cron_within [OF assms(1)]] by (auto simp: day_matches_def)
qed

text \<open>C10: The Cron search misses no selected local time. Take a selected minute of a selected day
  within the search range, and let \<open>u\<close> be the earliest UTC instant at which the wall clock of the
  zone shows it: if \<open>u\<close> lies after \<open>a\<close>, the search succeeds and returns an instant after \<open>a\<close> and no
  later than \<open>u\<close>. Where a local time is repeated the code fires at its first reading only, so
  nothing is said of the later readings. The zone is assumed to be \<open>zone_ordered\<close>: its wall clocks
  name calendar days, no wall clock shows a later day before the earliest reading of a local time,
  and the earliest readings of later local times are not earlier.\<close>
theorem cron_run_is_first:
  assumes "compile_cron ex = Inr c" "db tz = Some z" "zone_ordered z"
    "valid_date d" "d_year d \<le> d_year (fst (z_local z a)) + MAX_CRON_SEARCH_YEARS" "d_year d \<le> 9999"
    "day_matches c d" "h \<in> cc_hours c" "m \<in> cc_minutes c"
    "valid_utc_candidates (d, (h * 60 + m) * 60 * second) z = u # us" "a < u"
  shows "\<exists>r. next_run_after db (CronSchedule ex tz) a = Inr (Some r) \<and> a < r \<and> r \<le> u"
  using assms by (rule cron_next_least)

theorem cron_run_is_first_witness:
  "\<exists>r. next_run_after utc_db (CronSchedule ''0 9 * * *'' ''UTC'') 0 = Inr (Some r) \<and> 0 < r \<and> r \<le> 9 * 3600 * second"
proof -
  have db: "utc_db ''UTC'' = Some utc_zone" by (simp add: utc_db_def)
  have f: "valid_date first_day" "d_year first_day \<le> d_year (fst (z_local utc_zone 0)) + MAX_CRON_SEARCH_YEARS"
    "d_year first_day \<le> 9999" "day_matches nine_oclock first_day" "9 \<in> cc_hours nine_oclock" "0 \<in> cc_minutes nine_oclock"
    "valid_utc_candidates (first_day, (9 * 60 + 0) * 60 * second) utc_zone = [9 * 3600 * second]"
    "(0 :: int) < 9 * 3600 * second" by code_simp+
  show ?thesis
    by (rule cron_run_is_first [of _ nine_oclock utc_db _ utc_zone first_day 0 9 0 "9 * 3600 * second" "[]",
        OF nine_oclock_compiles db utc_zone_ordered f])
qed

definition first_nine :: time where
  "first_nine = 9 * 3600 * second"

theorem cron_run_matches_witness:
  "\<exists>r d h m. next_run_after utc_db (CronSchedule ''0 9 * * *'' ''UTC'') 0 = Inr (Some r) \<and>
     z_local utc_zone r = (d, (h * 60 + m) * 60 * second) \<and> h \<in> cc_hours nine_oclock"
proof -
  have db: "utc_db ''UTC'' = Some utc_zone" by (simp add: utc_db_def)
  have "next_run_after utc_db (CronSchedule ''0 9 * * *'' ''UTC'') 0 = Inr (Some first_nine)" by code_simp
  with cron_run_matches [OF nine_oclock_compiles db this] show ?thesis by blast
qed

section \<open>Previews and misfires\<close>

text \<open>A schedule preview returns at most the requested number of instants, in strictly increasing
  order and all after the reference instant.\<close>
theorem preview_strictly_increasing:
  assumes "valid_schedule db sched" "preview_schedule db sched after count = Inr ts"
  shows "sorted_wrt (<) (after # ts) \<and> int (length ts) \<le> count \<and> count \<le> 100"
  using assms preview_loop_increasing [OF assms(1), of "nat count" after ts]
  by (auto simp: preview_schedule_def split: if_splits)

theorem preview_strictly_increasing_witness:
  "\<exists>ts. preview_schedule utc_db (IntervalSchedule 60 0) 5 3 = Inr ts \<and> sorted_wrt (<) (5 # ts)"
proof -
  have p: "preview_schedule utc_db (IntervalSchedule 60 0) 5 3 = Inr [60000000, 120000000, 180000000]"
    and v: "valid_schedule utc_db (IntervalSchedule 60 0)"
    by (simp_all add: preview_schedule_def next_run_after_def second_def numeral_3_eq_3 numeral_2_eq_2 Let_def
        MIN_INTERVAL_SECONDS_def MAX_INTERVAL_SECONDS_def)
  show ?thesis using preview_strictly_increasing [OF v p] p by blast
qed

text \<open>C12: Whatever the misfire policy, materializing a schedule after downtime yields due times that are
  strictly increasing, not before the first missed run, inside the policy's window (its grace for
  SKIP, its catch-up window otherwise), not in the future, and at most one of them unless the policy
  catches up (then at most \<open>max_catch_up\<close>); the next wake-up lies in the future.\<close>
theorem materialized_runs_bounded:
  assumes "valid_schedule db sched" "valid_misfire_policy policy"
    "materialize_schedule db sched first_due now policy = Inr ms"
  shows "due_ok policy first_due now (ms_due_at ms) \<and> (\<forall>n. ms_next_run_at ms = Some n \<longrightarrow> now < n)"
  using materialize_due_ok [OF assms] by blast

definition late_materialization :: materialized_schedule where
  "late_materialization =
     \<lparr>ms_due_at = [120 * second], ms_next_run_at = Some (180 * second), ms_skipped_before = Some (60 * second)\<rparr>"

definition latest_policy :: misfire_policy where
  "latest_policy = \<lparr>mp_mode = LATEST, mp_grace = second, mp_catch_up_window = 3600 * second, mp_max_catch_up = 1\<rparr>"

lemma late_materialized:
  "materialize_schedule utc_db (IntervalSchedule 60 0) (60 * second) (150 * second) latest_policy = Inr late_materialization"
  by (simp add: materialize_schedule_def next_run_after_def second_def Let_def latest_policy_def
      latest_interval_due_def late_materialization_def)

theorem materialized_runs_bounded_witness:
  "due_ok latest_policy (60 * second) (150 * second) (ms_due_at late_materialization)"
proof -
  have "valid_schedule utc_db (IntervalSchedule 60 0)" "valid_misfire_policy latest_policy"
    by (simp_all add: MIN_INTERVAL_SECONDS_def MAX_INTERVAL_SECONDS_def latest_policy_def valid_misfire_policy_iff second_def)
  from materialized_runs_bounded [OF this late_materialized] show ?thesis by blast
qed

text \<open>C13: The closed form that the LATEST policy uses for interval schedules is equivalent to the
  bounded scan that every other schedule uses, when the first due time lies on the grid of the
  schedule (\<open>start + k * every\<close> seconds with \<open>k\<close> at least 0), as every next run that an interval
  schedule computes does: whenever the scan of the same window ends, both select the same due
  time.\<close>
theorem latest_closed_form_equals_scan:
  assumes "valid_schedule db (IntervalSchedule every start)" "mp_mode policy = LATEST" "first_due \<le> now"
    "0 \<le> k" "first_due = start + k * (every * second)"
    "misfire_scan db (IntervalSchedule every start) now n
       (max first_due (now - mp_catch_up_window policy) - 1) = Inr ts"
  shows "\<exists>ms. materialize_schedule db (IntervalSchedule every start) first_due now policy = Inr ms \<and>
    ms_due_at ms = (if ts = [] then [] else [last ts])"
proof -
  have e: "0 < every" using assms(1) by (simp add: MIN_INTERVAL_SECONDS_def)
  obtain r where r: "next_run_after db (IntervalSchedule every start) now = Inr (Some r)"
    using interval_next_least [OF e] by blast
  let ?w = "now - mp_catch_up_window policy"
  have "(if latest_interval_due every first_due now \<ge> ?w then [latest_interval_due every first_due now] else [])
    = (if ts = [] then [] else [last ts])"
    by (rule latest_is_last_of_scan [OF e assms(3,4,5,6,1)])
  then show ?thesis using assms(2,3) r by (auto simp: materialize_schedule_def Let_def)
qed

theorem latest_closed_form_equals_scan_witness:
  "\<exists>ms. materialize_schedule utc_db (IntervalSchedule 60 0) (60 * second) (150 * second) latest_policy = Inr ms \<and>
    ms_due_at ms = [120 * second]"
proof -
  have v: "valid_schedule utc_db (IntervalSchedule 60 0)" by (simp add: MIN_INTERVAL_SECONDS_def MAX_INTERVAL_SECONDS_def)
  have m: "mp_mode latest_policy = LATEST" by (simp add: latest_policy_def)
  have s: "misfire_scan utc_db (IntervalSchedule 60 0) (150 * second) 3
      (max (60 * second) (150 * second - mp_catch_up_window latest_policy) - 1) = Inr [60 * second, 120 * second]"
    by (simp add: numeral_3_eq_3 next_run_after_def second_def Let_def latest_policy_def)
  have g: "60 * second = 0 + 1 * (60 * second)" "60 * second \<le> 150 * second" by (simp_all add: second_def)
  show ?thesis using latest_closed_form_equals_scan [OF v m g(2) _ g(1) s] by simp
qed

text \<open>A dropped run that the LATEST policy does not report as skipped when the schedule is an interval:
  the closed form compares the latest due time with the first one, not with the window.\<close>

lemma latest_drop_unreported:
  shows "materialize_schedule utc_db (IntervalSchedule 3600 0) 0 (1800 * second)
     \<lparr>mp_mode = LATEST, mp_grace = second, mp_catch_up_window = 60 * second, mp_max_catch_up = 1\<rparr> =
   Inr \<lparr>ms_due_at = [], ms_next_run_at = Some (3600 * second), ms_skipped_before = None\<rparr>"
  "materialize_schedule utc_db (OnceSchedule 0) 0 (1800 * second)
     \<lparr>mp_mode = LATEST, mp_grace = second, mp_catch_up_window = 60 * second, mp_max_catch_up = 1\<rparr> =
   Inr \<lparr>ms_due_at = [], ms_next_run_at = None, ms_skipped_before = Some 0\<rparr>"
proof -
  have "misfire_scan utc_db (OnceSchedule 0) now n c = Inr []" if "0 < n" "0 \<le> c" for now n c
    using that by (cases n) (simp_all add: next_run_after_def)
  then have scan: "misfire_scan utc_db (OnceSchedule 0) now MAX_MISFIRE_SCAN c = Inr []" if "0 \<le> c" for now c
    using that by (simp add: MAX_MISFIRE_SCAN_def)
  show "materialize_schedule utc_db (IntervalSchedule 3600 0) 0 (1800 * second)
     \<lparr>mp_mode = LATEST, mp_grace = second, mp_catch_up_window = 60 * second, mp_max_catch_up = 1\<rparr> =
   Inr \<lparr>ms_due_at = [], ms_next_run_at = Some (3600 * second), ms_skipped_before = None\<rparr>"
    "materialize_schedule utc_db (OnceSchedule 0) 0 (1800 * second)
     \<lparr>mp_mode = LATEST, mp_grace = second, mp_catch_up_window = 60 * second, mp_max_catch_up = 1\<rparr> =
   Inr \<lparr>ms_due_at = [], ms_next_run_at = None, ms_skipped_before = Some 0\<rparr>"
    by (simp_all add: materialize_schedule_def next_run_after_def second_def Let_def latest_interval_due_def scan)
qed

section \<open>JSON snapshots\<close>

text \<open>The JSON validator accepts exactly the values all of whose floats are finite, all of whose
  mapping keys are strings and that hold no foreign object, at any depth.\<close>
theorem json_validator_exact:
  "require_finite_json v = Inr () \<longleftrightarrow> json_ok v"
  by simp

end
