(* ===== verification/Sandbox_State.thy ===== *)
theory Sandbox_State
  imports Prelude
begin

text \<open>
  \<open>lifecycle/availability.py\<close> and the in-process half of \<open>lifecycle/state.py\<close>: who owns a remote
  Sandbox, which managers hold handles to it, whether it may be paused, the warm pool and the
  cleanup queue. Every method body between two awaits is one step. The owner lock is a flag of
  the owner record: \<open>acquire_owner\<close> is two steps, the request that creates the record and the grant
  that runs when the lock is free. Tokens are arguments; the digest of an owner key is a
  parameter (SHA-256 over namespace and key).
\<close>

section \<open>Errors\<close>

datatype sandbox_error =
    StateError string
  | StateOwnershipError string
  | StateConfigurationError string
  | UnexpectedStateError string sandbox_error
  | SbValueError string
  | SbIndexError
  | SbRuntimeError string

fun is_state_error :: "sandbox_error \<Rightarrow> bool" where
  "is_state_error (StateError m) = True"
| "is_state_error (StateOwnershipError m) = True"
| "is_state_error (StateConfigurationError m) = True"
| "is_state_error (UnexpectedStateError op cause) = True"
| "is_state_error _ = False"

text \<open>\<open>_call_state\<close>: what crosses the boundary of a replaceable state is a state error.\<close>

definition call_state :: "string \<Rightarrow> sandbox_error + 'a \<Rightarrow> sandbox_error + 'a" where
  "call_state operation result =
     (case result of
        Inr a \<Rightarrow> Inr a
      | Inl e \<Rightarrow> if is_state_error e then Inl e else Inl (UnexpectedStateError operation e))"

section \<open>Availability\<close>

datatype availability_phase = PhRunning | PhDraining | PhPausing | PhPaused | PhResuming | PhUncertain

record availability =
  a_owner_digest :: string
  a_sandbox_id :: string
  a_binding_generation :: int
  a_sequence :: int
  a_phase :: availability_phase
  a_connection_generation :: int

record holder_update =
  h_holder_id :: string
  h_owner_digest :: string
  h_sandbox_id :: string
  h_binding_generation :: int
  h_acknowledged_sequence :: "int option"
  h_availability :: availability

fun phase_transitions :: "availability_phase \<Rightarrow> availability_phase set" where
  "phase_transitions PhRunning = {PhDraining, PhResuming}"
| "phase_transitions PhDraining = {PhRunning, PhPaused, PhPausing}"
| "phase_transitions PhPausing = {PhPaused, PhRunning, PhUncertain}"
| "phase_transitions PhPaused = {PhResuming, PhDraining}"
| "phase_transitions PhResuming = {PhRunning, PhPaused, PhUncertain}"
| "phase_transitions PhUncertain = {}"

definition next_availability ::
  "availability \<Rightarrow> availability_phase \<Rightarrow> bool \<Rightarrow> sandbox_error + availability" where
  "next_availability expected phase refresh_connection =
     (if phase \<notin> phase_transitions (a_phase expected)
      then Inl (StateOwnershipError ''Sandbox availability cannot change'')
      else if refresh_connection \<and> phase \<noteq> PhRunning
      then Inl (SbValueError ''refresh_connection requires the running phase'')
      else Inr (expected\<lparr>a_phase := phase, a_sequence := a_sequence expected + 1,
             a_connection_generation :=
               a_connection_generation expected + (if refresh_connection then 1 else 0)\<rparr>))"

definition validate_holder_id :: "string \<Rightarrow> sandbox_error + unit" where
  "validate_holder_id holder_id =
     require (holder_id \<noteq> [] \<and> length holder_id \<le> 36)
       (SbValueError ''holder_id must contain between 1 and 36 characters'')"

section \<open>Claims and records\<close>

record binding =
  b_sandbox_id :: string
  b_generation :: int

record owner_claim =
  oc_owner_key :: string
  oc_owner_digest :: string
  oc_token :: string
  oc_generation :: int
  oc_binding :: "binding option"

record warm_claim =
  wc_slot :: int
  wc_token :: string
  wc_generation :: int

record ready_warm_claim = warm_claim +
  rc_sandbox_id :: string

record cleanup_claim =
  cc_sandbox_id :: string
  cc_token :: string
  cc_generation :: int

record owner_record =
  r_locked :: bool
  r_generation :: int
  r_binding :: "binding option"
  r_active_token :: "string option"
  r_availability :: "availability option"

record warm_slot =
  ws_slot :: int
  ws_generation :: int
  ws_sandbox_id :: "string option"
  ws_active_token :: "string option"

record cleanup_record =
  cr_generation :: int
  cr_active_token :: "string option"

record sandbox_state =
  sb_records :: "(string, owner_record) dict"
  sb_warm_slots :: "warm_slot list"
  sb_warm_pool_size :: "int option"
  sb_cleanup :: "(string, cleanup_record) dict"
  sb_holders :: "(string \<times> string, holder_update) dict"
  sb_started :: bool
  sb_closed :: bool

type_synonym 'a sb_outcome = "(sandbox_error, sandbox_state, 'a) outcome"

definition new_owner_record :: owner_record where
  "new_owner_record =
     \<lparr>r_locked = False, r_generation = 0, r_binding = None, r_active_token = None, r_availability = None\<rparr>"

definition new_warm_slot :: "int \<Rightarrow> warm_slot" where
  "new_warm_slot i = \<lparr>ws_slot = i, ws_generation = 0, ws_sandbox_id = None, ws_active_token = None\<rparr>"

definition new_cleanup_record :: cleanup_record where
  "new_cleanup_record = \<lparr>cr_generation = 0, cr_active_token = None\<rparr>"

definition init_sandbox_state :: sandbox_state where
  "init_sandbox_state =
     \<lparr>sb_records = [], sb_warm_slots = [], sb_warm_pool_size = None, sb_cleanup = [], sb_holders = [],
      sb_started = False, sb_closed = False\<rparr>"

section \<open>Opening and owner claims\<close>

definition sb_start :: "int \<Rightarrow> sandbox_state \<Rightarrow> unit sb_outcome" where
  "sb_start warm_pool_size s =
     check (require (0 \<le> warm_pool_size) (SbValueError ''warm_pool_size must not be negative'')) s (\<lambda>_.
     check (require (\<not> sb_closed s) (StateError ''OpenSandbox state is closed'')) s (\<lambda>_.
     if sb_started s then
       (require (sb_warm_pool_size s = Some warm_pool_size)
          (StateConfigurationError ''OpenSandbox State is already started with a different warm_pool_size''), s)
     else
       (Inr (), s\<lparr>sb_warm_slots := map (\<lambda>i. new_warm_slot (int i)) [0..<nat warm_pool_size],
          sb_warm_pool_size := Some warm_pool_size, sb_started := True\<rparr>)))"

definition sb_ensure_open :: "sandbox_state \<Rightarrow> sandbox_error + unit" where
  "sb_ensure_open s =
     bindE (require (sb_started s) (StateError ''OpenSandbox state has not been started'')) (\<lambda>_.
     require (\<not> sb_closed s) (StateError ''OpenSandbox state is closed''))"

definition sb_record :: "string \<Rightarrow> sandbox_state \<Rightarrow> unit sb_outcome" where
  "sb_record digest s =
     check (sb_ensure_open s) s (\<lambda>_.
     (Inr (), s\<lparr>sb_records := dsetdefault digest new_owner_record (sb_records s)\<rparr>))"

text \<open>
  The grant: \<open>None\<close> while the lock is held (the caller keeps waiting); a state closed in the
  meantime makes the caller release the lock again and raise.
\<close>

definition sb_acquire_owner ::
  "string \<Rightarrow> string \<Rightarrow> string \<Rightarrow> sandbox_state \<Rightarrow> owner_claim sb_outcome option" where
  "sb_acquire_owner owner_key digest token s =
     (case dget (sb_records s) digest of
        None \<Rightarrow> None
      | Some r \<Rightarrow>
          if r_locked r then None
          else Some (check (sb_ensure_open s) s (\<lambda>_.
            let r' = r\<lparr>r_locked := True, r_generation := r_generation r + 1, r_active_token := Some token\<rparr>
            in (Inr \<lparr>oc_owner_key = owner_key, oc_owner_digest = digest, oc_token = token,
                     oc_generation = r_generation r', oc_binding = r_binding r'\<rparr>,
                s\<lparr>sb_records := dput digest r' (sb_records s)\<rparr>))))"

definition owner_claim_current :: "owner_claim \<Rightarrow> owner_record \<Rightarrow> bool" where
  "owner_claim_current c r \<longleftrightarrow> r_active_token r = Some (oc_token c) \<and> r_generation r = oc_generation c"

definition claimed_record :: "owner_claim \<Rightarrow> sandbox_state \<Rightarrow> sandbox_error + owner_record" where
  "claimed_record c s =
     bindE (sb_ensure_open s) (\<lambda>_.
     case dget (sb_records s) (oc_owner_digest c) of
       None \<Rightarrow> Inl (StateOwnershipError ''Owner claim is no longer current'')
     | Some r \<Rightarrow>
         if owner_claim_current c r then Inr r
         else Inl (StateOwnershipError ''Owner claim is no longer current''))"

definition put_record :: "string \<Rightarrow> owner_record \<Rightarrow> sandbox_state \<Rightarrow> sandbox_state" where
  "put_record digest r s = s\<lparr>sb_records := dput digest r (sb_records s)\<rparr>"

definition commit_binding :: "owner_record \<Rightarrow> owner_claim \<Rightarrow> string \<Rightarrow> binding \<times> owner_record" where
  "commit_binding r c sandbox_id =
     (let b = \<lparr>b_sandbox_id = sandbox_id, b_generation = oc_generation c\<rparr>
      in if r_binding r = Some b \<and> r_availability r \<noteq> None then (b, r)
         else (b, r\<lparr>r_binding := Some b,
            r_availability := Some \<lparr>a_owner_digest = oc_owner_digest c, a_sandbox_id = b_sandbox_id b,
              a_binding_generation = b_generation b, a_sequence = 0, a_phase = PhRunning,
              a_connection_generation = 0\<rparr>\<rparr>))"

definition sb_bind_owner :: "owner_claim \<Rightarrow> string \<Rightarrow> sandbox_state \<Rightarrow> binding sb_outcome" where
  "sb_bind_owner c sandbox_id s =
     check (claimed_record c s) s (\<lambda>r.
     case commit_binding r c sandbox_id of (b, r') \<Rightarrow> (Inr b, put_record (oc_owner_digest c) r' s))"

definition sb_renew_owner :: "owner_claim \<Rightarrow> sandbox_state \<Rightarrow> bool sb_outcome" where
  "sb_renew_owner c s =
     (case claimed_record c s of
        Inr r \<Rightarrow> (Inr True, s)
      | Inl e \<Rightarrow> (case e of StateOwnershipError m \<Rightarrow> (Inr False, s) | _ \<Rightarrow> (Inl e, s)))"

text \<open>\<open>read_binding\<close> waits for the lock and gives it back at once.\<close>

definition sb_read_binding :: "string \<Rightarrow> sandbox_state \<Rightarrow> binding option option" where
  "sb_read_binding digest s =
     (case dget (sb_records s) digest of
        None \<Rightarrow> None | Some r \<Rightarrow> if r_locked r then None else Some (r_binding r))"

definition sb_unbind_owner :: "owner_claim \<Rightarrow> sandbox_state \<Rightarrow> unit sb_outcome" where
  "sb_unbind_owner c s =
     check (claimed_record c s) s (\<lambda>r.
     (Inr (), put_record (oc_owner_digest c) (r\<lparr>r_binding := None, r_availability := None\<rparr>)
        (s\<lparr>sb_holders := filter (\<lambda>(k, h). h_owner_digest h \<noteq> oc_owner_digest c) (sb_holders s)\<rparr>)))"

definition sb_release_owner :: "owner_claim \<Rightarrow> sandbox_state \<Rightarrow> unit sb_outcome" where
  "sb_release_owner c s =
     (case dget (sb_records s) (oc_owner_digest c) of
        None \<Rightarrow> (Inr (), s)
      | Some r \<Rightarrow>
          if r_active_token r \<noteq> Some (oc_token c) then (Inr (), s)
          else
            let s1 = put_record (oc_owner_digest c) (r\<lparr>r_active_token := None\<rparr>) s
            in if \<not> r_locked r then (Inl (SbRuntimeError ''Lock is not acquired''), s1)
               else (Inr (), put_record (oc_owner_digest c) (r\<lparr>r_active_token := None, r_locked := False\<rparr>) s1))"

section \<open>Holders and availability\<close>

definition holder_matches :: "holder_update \<Rightarrow> availability \<Rightarrow> bool" where
  "holder_matches h a \<longleftrightarrow>
     h_owner_digest h = a_owner_digest a \<and> h_sandbox_id h = a_sandbox_id a \<and>
     h_binding_generation h = a_binding_generation a"

definition expected_availability ::
  "owner_claim \<Rightarrow> availability \<Rightarrow> sandbox_state \<Rightarrow> sandbox_error + owner_record" where
  "expected_availability c expected s =
     bindE (claimed_record c s) (\<lambda>r.
     if r_availability r \<noteq> Some expected
     then Inl (StateOwnershipError ''Sandbox availability is no longer current'') else Inr r)"

definition sb_register_holder :: "owner_claim \<Rightarrow> string \<Rightarrow> sandbox_state \<Rightarrow> availability sb_outcome" where
  "sb_register_holder c holder_id s =
     check (validate_holder_id holder_id) s (\<lambda>_.
     check (claimed_record c s) s (\<lambda>r.
     case r_availability r of
       None \<Rightarrow> (Inl (StateOwnershipError ''Sandbox binding is not running''), s)
     | Some a \<Rightarrow>
         if a_phase a \<noteq> PhRunning then (Inl (StateOwnershipError ''Sandbox binding is not running''), s)
         else (Inr a, s\<lparr>sb_holders := dput (holder_id, oc_owner_digest c)
             \<lparr>h_holder_id = holder_id, h_owner_digest = oc_owner_digest c, h_sandbox_id = a_sandbox_id a,
              h_binding_generation = a_binding_generation a, h_acknowledged_sequence = None,
              h_availability = a\<rparr> (sb_holders s)\<rparr>)))"

definition sb_read_availability :: "string \<Rightarrow> sandbox_state \<Rightarrow> availability option sb_outcome" where
  "sb_read_availability digest s =
     check (sb_ensure_open s) s (\<lambda>_.
     (Inr (case dget (sb_records s) digest of None \<Rightarrow> None | Some r \<Rightarrow> r_availability r), s))"

definition current_update :: "sandbox_state \<Rightarrow> string \<Rightarrow> holder_update \<Rightarrow> holder_update option" where
  "current_update s digest h =
     (case dget (sb_records s) digest of
        None \<Rightarrow> None
      | Some r \<Rightarrow> map_option (\<lambda>a. h\<lparr>h_availability := a\<rparr>) (r_availability r))"

definition sb_get_holder_updates :: "string \<Rightarrow> sandbox_state \<Rightarrow> holder_update list sb_outcome" where
  "sb_get_holder_updates holder_id s =
     check (sb_ensure_open s) s (\<lambda>_.
     (Inr (sort_key h_owner_digest
        (List.map_filter (\<lambda>((registered, digest), h).
           if registered \<noteq> holder_id then None else current_update s digest h) (sb_holders s))), s))"

definition all_holders_idle :: "availability \<Rightarrow> sandbox_state \<Rightarrow> bool" where
  "all_holders_idle a s =
     list_all (\<lambda>h. h_acknowledged_sequence h = Some (a_sequence a))
       (filter (\<lambda>h. holder_matches h a) (dvalues (sb_holders s)))"

definition sb_change_availability ::
  "owner_claim \<Rightarrow> availability \<Rightarrow> availability_phase \<Rightarrow> bool \<Rightarrow> sandbox_state \<Rightarrow> availability sb_outcome" where
  "sb_change_availability c expected phase refresh_connection s =
     check (expected_availability c expected s) s (\<lambda>r.
     check (next_availability expected phase refresh_connection) s (\<lambda>updated.
     if phase = PhPausing \<and> \<not> all_holders_idle expected s
     then (Inl (StateOwnershipError ''Sandbox holders have not all acknowledged idle''), s)
     else (Inr updated, put_record (oc_owner_digest c) (r\<lparr>r_availability := Some updated\<rparr>) s)))"

definition sb_acknowledge_idle :: "string \<Rightarrow> availability \<Rightarrow> sandbox_state \<Rightarrow> bool sb_outcome" where
  "sb_acknowledge_idle holder_id a s =
     check (sb_ensure_open s) s (\<lambda>_.
     case (dget (sb_records s) (a_owner_digest a), dget (sb_holders s) (holder_id, a_owner_digest a)) of
       (Some r, Some h) \<Rightarrow>
         if a_phase a \<noteq> PhDraining \<or> r_availability r \<noteq> Some a \<or> \<not> holder_matches h a then (Inr False, s)
         else (Inr True, s\<lparr>sb_holders := dput (holder_id, a_owner_digest a)
             (h\<lparr>h_acknowledged_sequence := Some (a_sequence a)\<rparr>) (sb_holders s)\<rparr>)
     | _ \<Rightarrow> (Inr False, s))"

definition sb_holders_are_idle :: "owner_claim \<Rightarrow> availability \<Rightarrow> sandbox_state \<Rightarrow> bool sb_outcome" where
  "sb_holders_are_idle c a s =
     check (expected_availability c a s) s (\<lambda>_.
     if a_phase a \<noteq> PhDraining then (Inl (StateOwnershipError ''Sandbox availability is not draining''), s)
     else (Inr (all_holders_idle a s), s))"

definition sb_unregister_holder :: "string \<Rightarrow> availability \<Rightarrow> sandbox_state \<Rightarrow> unit sb_outcome" where
  "sb_unregister_holder holder_id a s =
     check (sb_ensure_open s) s (\<lambda>_.
     case dget (sb_holders s) (holder_id, a_owner_digest a) of
       None \<Rightarrow> (Inr (), s)
     | Some h \<Rightarrow>
         if holder_matches h a
         then (Inr (), s\<lparr>sb_holders := ddel (holder_id, a_owner_digest a) (sb_holders s)\<rparr>)
         else (Inr (), s))"

section \<open>Warm pool\<close>

text \<open>The first slot that satisfies a test, as the loops over the slots find it.\<close>

fun find_slot :: "(warm_slot \<Rightarrow> bool) \<Rightarrow> nat \<Rightarrow> warm_slot list \<Rightarrow> (nat \<times> warm_slot) option" where
  "find_slot P i [] = None"
| "find_slot P i (w # ws) = (if P w then Some (i, w) else find_slot P (Suc i) ws)"

definition put_slot :: "nat \<Rightarrow> warm_slot \<Rightarrow> sandbox_state \<Rightarrow> sandbox_state" where
  "put_slot i w s = s\<lparr>sb_warm_slots := (sb_warm_slots s)[i := w]\<rparr>"

definition sb_claim_warm_slot :: "string \<Rightarrow> sandbox_state \<Rightarrow> warm_claim option sb_outcome" where
  "sb_claim_warm_slot token s =
     check (sb_ensure_open s) s (\<lambda>_.
     case find_slot (\<lambda>w. ws_sandbox_id w = None \<and> ws_active_token w = None) 0 (sb_warm_slots s) of
       None \<Rightarrow> (Inr None, s)
     | Some (i, w) \<Rightarrow>
         let w' = w\<lparr>ws_generation := ws_generation w + 1, ws_active_token := Some token\<rparr>
         in (Inr (Some \<lparr>wc_slot = ws_slot w', wc_token = token, wc_generation = ws_generation w'\<rparr>),
             put_slot i w' s))"

definition sb_claim_ready_warm_slot ::
  "int list \<Rightarrow> string \<Rightarrow> sandbox_state \<Rightarrow> ready_warm_claim option sb_outcome" where
  "sb_claim_ready_warm_slot exclude_slots token s =
     check (sb_ensure_open s) s (\<lambda>_.
     case find_slot (\<lambda>w. ws_slot w \<notin> set exclude_slots \<and> ws_sandbox_id w \<noteq> None \<and> ws_active_token w = None)
            0 (sb_warm_slots s) of
       None \<Rightarrow> (Inr None, s)
     | Some (i, w) \<Rightarrow>
         let w' = w\<lparr>ws_generation := ws_generation w + 1, ws_active_token := Some token\<rparr>
         in (Inr (Some \<lparr>wc_slot = ws_slot w', wc_token = token, wc_generation = ws_generation w',
                        rc_sandbox_id = the (ws_sandbox_id w')\<rparr>),
             put_slot i w' s))"

text \<open>Python indexing: a negative index counts from the end.\<close>

definition py_index :: "'a list \<Rightarrow> int \<Rightarrow> nat option" where
  "py_index xs i =
     (if 0 \<le> i \<and> i < int (length xs) then Some (nat i)
      else if i < 0 \<and> - int (length xs) \<le> i then Some (nat (int (length xs) + i)) else None)"

definition warm_claim_current :: "('a warm_claim_scheme) \<Rightarrow> warm_slot \<Rightarrow> bool" where
  "warm_claim_current c w \<longleftrightarrow> ws_active_token w = Some (wc_token c) \<and> ws_generation w = wc_generation c"

definition claimed_warm_slot ::
  "('a warm_claim_scheme) \<Rightarrow> sandbox_state \<Rightarrow> sandbox_error + (nat \<times> warm_slot)" where
  "claimed_warm_slot c s =
     bindE (sb_ensure_open s) (\<lambda>_.
     case py_index (sb_warm_slots s) (wc_slot c) of
       None \<Rightarrow> Inl (StateOwnershipError ''Warm slot is no longer current'')
     | Some i \<Rightarrow>
         if warm_claim_current c (sb_warm_slots s ! i) then Inr (i, sb_warm_slots s ! i)
         else Inl (StateOwnershipError ''Warm slot is no longer current''))"

definition sb_discard_ready_warm_slot :: "ready_warm_claim \<Rightarrow> sandbox_state \<Rightarrow> unit sb_outcome" where
  "sb_discard_ready_warm_slot c s =
     check (claimed_warm_slot c s) s (\<lambda>(i, w).
     if ws_sandbox_id w \<noteq> Some (rc_sandbox_id c)
     then (Inl (StateOwnershipError ''Warm slot no longer contains the claimed Sandbox''), s)
     else
       let s1 = put_slot i (w\<lparr>ws_sandbox_id := None, ws_active_token := None\<rparr>) s
       in (Inr (), s1\<lparr>sb_cleanup := dsetdefault (rc_sandbox_id c) new_cleanup_record (sb_cleanup s1)\<rparr>))"

definition sb_warm_pool_ready :: "sandbox_state \<Rightarrow> bool sb_outcome" where
  "sb_warm_pool_ready s =
     check (sb_ensure_open s) s (\<lambda>_. (Inr (list_all (\<lambda>w. ws_sandbox_id w \<noteq> None) (sb_warm_slots s)), s))"

definition sb_publish_warm :: "('a warm_claim_scheme) \<Rightarrow> string \<Rightarrow> sandbox_state \<Rightarrow> unit sb_outcome" where
  "sb_publish_warm c sandbox_id s =
     check (claimed_warm_slot c s) s (\<lambda>(i, w).
     (Inr (), put_slot i (w\<lparr>ws_sandbox_id := Some sandbox_id, ws_active_token := None\<rparr>) s))"

definition sb_renew_warm :: "('a warm_claim_scheme) \<Rightarrow> sandbox_state \<Rightarrow> bool sb_outcome" where
  "sb_renew_warm c s =
     (case claimed_warm_slot c s of
        Inr r \<Rightarrow> (Inr True, s)
      | Inl e \<Rightarrow> (case e of StateOwnershipError m \<Rightarrow> (Inr False, s) | _ \<Rightarrow> (Inl e, s)))"

definition sb_release_warm :: "('a warm_claim_scheme) \<Rightarrow> sandbox_state \<Rightarrow> unit sb_outcome" where
  "sb_release_warm c s =
     (if int (length (sb_warm_slots s)) \<le> wc_slot c then (Inr (), s)
      else case py_index (sb_warm_slots s) (wc_slot c) of
             None \<Rightarrow> (Inl SbIndexError, s)
           | Some i \<Rightarrow>
               let w = sb_warm_slots s ! i
               in if ws_active_token w = Some (wc_token c)
                  then (Inr (), put_slot i (w\<lparr>ws_active_token := None\<rparr>) s) else (Inr (), s))"

definition sb_consume_warm :: "owner_claim \<Rightarrow> sandbox_state \<Rightarrow> binding option sb_outcome" where
  "sb_consume_warm c s =
     check (claimed_record c s) s (\<lambda>r.
     case find_slot (\<lambda>w. ws_sandbox_id w \<noteq> None \<and> ws_active_token w = None) 0 (sb_warm_slots s) of
       None \<Rightarrow> (Inr None, s)
     | Some (i, w) \<Rightarrow>
         (case commit_binding r c (the (ws_sandbox_id w)) of (b, r') \<Rightarrow>
            (Inr (Some b), put_slot i (w\<lparr>ws_sandbox_id := None\<rparr>) (put_record (oc_owner_digest c) r' s))))"

section \<open>Cleanup queue and shutdown\<close>

definition sb_enqueue_cleanup :: "string \<Rightarrow> sandbox_state \<Rightarrow> unit sb_outcome" where
  "sb_enqueue_cleanup sandbox_id s =
     check (sb_ensure_open s) s (\<lambda>_.
     (Inr (), s\<lparr>sb_cleanup := dsetdefault sandbox_id new_cleanup_record (sb_cleanup s)\<rparr>))"

definition sb_claim_cleanup :: "string \<Rightarrow> sandbox_state \<Rightarrow> cleanup_claim option sb_outcome" where
  "sb_claim_cleanup token s =
     check (sb_ensure_open s) s (\<lambda>_.
     case find (\<lambda>(k, r). cr_active_token r = None) (sb_cleanup s) of
       None \<Rightarrow> (Inr None, s)
     | Some (k, r) \<Rightarrow>
         let r' = r\<lparr>cr_generation := cr_generation r + 1, cr_active_token := Some token\<rparr>
         in (Inr (Some \<lparr>cc_sandbox_id = k, cc_token = token, cc_generation = cr_generation r'\<rparr>),
             s\<lparr>sb_cleanup := dput k r' (sb_cleanup s)\<rparr>))"

definition cleanup_claim_current :: "cleanup_claim \<Rightarrow> cleanup_record \<Rightarrow> bool" where
  "cleanup_claim_current c r \<longleftrightarrow> cr_active_token r = Some (cc_token c) \<and> cr_generation r = cc_generation c"

definition claimed_cleanup :: "cleanup_claim \<Rightarrow> sandbox_state \<Rightarrow> sandbox_error + cleanup_record" where
  "claimed_cleanup c s =
     bindE (sb_ensure_open s) (\<lambda>_.
     case dget (sb_cleanup s) (cc_sandbox_id c) of
       None \<Rightarrow> Inl (StateOwnershipError ''Cleanup claim is no longer current'')
     | Some r \<Rightarrow>
         if cleanup_claim_current c r then Inr r
         else Inl (StateOwnershipError ''Cleanup claim is no longer current''))"

definition sb_renew_cleanup :: "cleanup_claim \<Rightarrow> sandbox_state \<Rightarrow> bool sb_outcome" where
  "sb_renew_cleanup c s =
     (case claimed_cleanup c s of
        Inr r \<Rightarrow> (Inr True, s)
      | Inl e \<Rightarrow> (case e of StateOwnershipError m \<Rightarrow> (Inr False, s) | _ \<Rightarrow> (Inl e, s)))"

definition sb_complete_cleanup :: "cleanup_claim \<Rightarrow> sandbox_state \<Rightarrow> unit sb_outcome" where
  "sb_complete_cleanup c s =
     check (claimed_cleanup c s) s (\<lambda>_.
     (Inr (), s\<lparr>sb_cleanup := ddel (cc_sandbox_id c) (sb_cleanup s)\<rparr>))"

definition sb_release_cleanup :: "cleanup_claim \<Rightarrow> sandbox_state \<Rightarrow> unit sb_outcome" where
  "sb_release_cleanup c s =
     (case dget (sb_cleanup s) (cc_sandbox_id c) of
        None \<Rightarrow> (Inr (), s)
      | Some r \<Rightarrow>
          if cr_active_token r = Some (cc_token c)
          then (Inr (), s\<lparr>sb_cleanup := dput (cc_sandbox_id c) (r\<lparr>cr_active_token := None\<rparr>) (sb_cleanup s)\<rparr>)
          else (Inr (), s))"

definition tracked_ids :: "sandbox_state \<Rightarrow> string list" where
  "tracked_ids s =
     List.map_filter (\<lambda>r. map_option b_sandbox_id (r_binding r)) (dvalues (sb_records s)) @
     List.map_filter ws_sandbox_id (sb_warm_slots s) @ dkeys (sb_cleanup s)"

definition sb_shutdown_sandbox_ids :: "sandbox_state \<Rightarrow> string list sb_outcome" where
  "sb_shutdown_sandbox_ids s =
     check (sb_ensure_open s) s (\<lambda>_. (Inr (sort (remdups (tracked_ids s))), s))"

definition sb_aclose :: "sandbox_state \<Rightarrow> unit sb_outcome" where
  "sb_aclose s = (Inr (), s\<lparr>sb_closed := True\<rparr>)"

end
