(* ===== verification/Sandbox_State_Correct.thy ===== *)
theory Sandbox_State_Correct
  imports Sandbox_State
begin

text \<open>
  The invariant of the in-process Sandbox state, its step relation and how its owner records
  and warm slots move.
\<close>

section \<open>Invariant\<close>

definition record_ok :: "string \<Rightarrow> owner_record \<Rightarrow> bool" where
  "record_ok digest r \<longleftrightarrow>
     (r_active_token r \<noteq> None \<longleftrightarrow> r_locked r) \<and> 0 \<le> r_generation r \<and>
     (case r_binding r of
        None \<Rightarrow> r_availability r = None
      | Some b \<Rightarrow>
          b_generation b \<le> r_generation r \<and>
          (\<exists>a. r_availability r = Some a \<and> a_owner_digest a = digest \<and> a_sandbox_id a = b_sandbox_id b \<and>
             a_binding_generation a = b_generation b \<and> 0 \<le> a_connection_generation a \<and>
             a_connection_generation a \<le> a_sequence a))"

definition holder_ok :: "sandbox_state \<Rightarrow> string \<times> string \<Rightarrow> holder_update \<Rightarrow> bool" where
  "holder_ok s k h \<longleftrightarrow>
     k = (h_holder_id h, h_owner_digest h) \<and>
     (\<exists>r. dget (sb_records s) (h_owner_digest h) = Some r \<and> h_binding_generation h \<le> r_generation r)"

definition drained :: "sandbox_state \<Rightarrow> availability \<Rightarrow> int \<Rightarrow> bool" where
  "drained s a n \<longleftrightarrow>
     (\<forall>k h. dget (sb_holders s) k = Some h \<longrightarrow> holder_matches h a \<longrightarrow> h_acknowledged_sequence h = Some n)"

definition pausing_ok :: "sandbox_state \<Rightarrow> owner_record \<Rightarrow> bool" where
  "pausing_ok s r \<longleftrightarrow>
     (\<forall>a. r_availability r = Some a \<longrightarrow> a_phase a = PhPausing \<longrightarrow> drained s a (a_sequence a - 1))"

definition slots_ok :: "sandbox_state \<Rightarrow> bool" where
  "slots_ok s \<longleftrightarrow>
     (\<not> sb_started s \<longrightarrow> sb_warm_slots s = []) \<and>
     (\<forall>i < length (sb_warm_slots s). ws_slot (sb_warm_slots s ! i) = int i \<and> 0 \<le> ws_generation (sb_warm_slots s ! i))"

definition sb_inv :: "sandbox_state \<Rightarrow> bool" where
  "sb_inv s \<longleftrightarrow>
     dwf (sb_records s) \<and> dwf (sb_holders s) \<and> dwf (sb_cleanup s) \<and>
     (\<forall>d r. dget (sb_records s) d = Some r \<longrightarrow> record_ok d r \<and> pausing_ok s r) \<and>
     (\<forall>k h. dget (sb_holders s) k = Some h \<longrightarrow> holder_ok s k h) \<and> slots_ok s"

lemma sb_inv_init: "sb_inv init_sandbox_state"
  by (simp add: sb_inv_def init_sandbox_state_def slots_ok_def)

section \<open>Progress\<close>

definition record_progress :: "owner_record \<Rightarrow> owner_record \<Rightarrow> bool" where
  "record_progress r r' \<longleftrightarrow>
     r_generation r \<le> r_generation r' \<and>
     (r_generation r' = r_generation r \<longrightarrow> r_active_token r' = r_active_token r \<or> r_active_token r' = None)"

definition slot_progress :: "warm_slot \<Rightarrow> warm_slot \<Rightarrow> bool" where
  "slot_progress w w' \<longleftrightarrow>
     ws_slot w' = ws_slot w \<and> ws_generation w \<le> ws_generation w' \<and>
     (ws_generation w' = ws_generation w \<longrightarrow> ws_active_token w' = ws_active_token w \<or> ws_active_token w' = None)"

definition slots_progress :: "sandbox_state \<Rightarrow> sandbox_state \<Rightarrow> bool" where
  "slots_progress s s' \<longleftrightarrow> sb_started s \<longrightarrow> sb_started s' \<and> list_all2 slot_progress (sb_warm_slots s) (sb_warm_slots s')"

definition sb_evolves :: "sandbox_state \<Rightarrow> sandbox_state \<Rightarrow> bool" where
  "sb_evolves s s' \<longleftrightarrow> dict_grows record_progress (sb_records s) (sb_records s') \<and> slots_progress s s'"

lemma record_progress_refl [simp]: "record_progress r r"
  by (simp add: record_progress_def)

lemma record_progress_trans: "record_progress a b \<Longrightarrow> record_progress b c \<Longrightarrow> record_progress a c"
  by (auto simp: record_progress_def)

lemma slot_progress_refl [simp]: "slot_progress w w"
  by (simp add: slot_progress_def)

lemma slot_progress_trans: "slot_progress a b \<Longrightarrow> slot_progress b c \<Longrightarrow> slot_progress a c"
  by (auto simp: slot_progress_def)

lemma sb_evolves_refl [simp]: "sb_evolves s s"
  by (simp add: sb_evolves_def dict_grows_refl slots_progress_def list.rel_refl)

lemma sb_evolves_trans: "sb_evolves a b \<Longrightarrow> sb_evolves b c \<Longrightarrow> sb_evolves a c"
  unfolding sb_evolves_def slots_progress_def
  by (auto intro: dict_grows_trans [of record_progress, OF record_progress_trans]
      list_all2_trans [of slot_progress slot_progress slot_progress, OF slot_progress_trans])

section \<open>Keeping the invariant\<close>

definition sb_keeps :: "sandbox_state \<Rightarrow> 'a sb_outcome \<Rightarrow> bool" where
  "sb_keeps s r \<longleftrightarrow> sb_inv (snd r) \<and> sb_evolves s (snd r) \<and> (\<forall>e. fst r = Inl e \<longrightarrow> snd r = s)"

named_theorems sb_intros \<open>control constructs that keep the Sandbox state invariant\<close>

lemma sb_keeps_same [sb_intros]: "sb_inv s \<Longrightarrow> sb_keeps s (r, s)"
  by (simp add: sb_keeps_def)

lemma sb_keeps_check [sb_intros]:
  "sb_inv s \<Longrightarrow> (\<And>a. r = Inr a \<Longrightarrow> sb_keeps s (k a)) \<Longrightarrow> sb_keeps s (check r s k)"
  by (cases r) (auto simp: sb_keeps_def)

lemma sb_keeps_if [sb_intros]:
  "(b \<Longrightarrow> sb_keeps s r) \<Longrightarrow> (\<not> b \<Longrightarrow> sb_keeps s r') \<Longrightarrow> sb_keeps s (if b then r else r')"
  by simp

lemma sb_keeps_option [sb_intros]:
  "(x = None \<Longrightarrow> sb_keeps s r) \<Longrightarrow> (\<And>y. x = Some y \<Longrightarrow> sb_keeps s (f y)) \<Longrightarrow>
   sb_keeps s (case x of None \<Rightarrow> r | Some y \<Rightarrow> f y)"
  by (cases x) auto

lemma sb_keeps_Inr: "sb_inv s' \<Longrightarrow> sb_evolves s s' \<Longrightarrow> sb_keeps s (Inr a, s')"
  by (simp add: sb_keeps_def)

text \<open>Replacing one owner record: the record must stay well-formed, keep its generation from falling,
  and a pausing intent must be drained.\<close>

lemma put_record_inv:
  assumes s: "sb_inv s" and r: "dget (sb_records s) d = Some r"
    and ok: "record_ok d r'" "pausing_ok s r'" "record_progress r r'"
  shows "sb_inv (put_record d r' s)" "sb_evolves s (put_record d r' s)"
proof -
  let ?t = "put_record d r' s"
  have le: "r_generation r \<le> r_generation r'" using ok(3) by (simp add: record_progress_def)
  have p: "pausing_ok ?t x = pausing_ok s x" for x
    by (simp add: pausing_ok_def drained_def put_record_def)
  have "holder_ok ?t k h" if "dget (sb_holders s) k = Some h" for k h
    using s that r le by (fastforce simp: sb_inv_def holder_ok_def put_record_def dict_simps)
  then show "sb_inv ?t"
    using s ok p by (auto simp: sb_inv_def put_record_def dict_simps slots_ok_def)
  show "sb_evolves s ?t"
    using r ok(3) by (auto simp: sb_evolves_def put_record_def slots_progress_def list.rel_refl intro!: dict_grows_put)
qed

text \<open>Replacing one warm slot.\<close>

lemma put_slot_inv:
  assumes s: "sb_inv s" "sb_started s" and i: "i < length (sb_warm_slots s)"
    and w: "slot_progress (sb_warm_slots s ! i) w"
  shows "sb_inv (put_slot i w s)" "sb_evolves s (put_slot i w s)"
proof -
  let ?t = "put_slot i w s"
  have "slots_ok ?t"
    using s i w by (auto simp: sb_inv_def slots_ok_def put_slot_def slot_progress_def nth_list_update)
  then show "sb_inv ?t"
    using s(1) by (simp add: sb_inv_def put_slot_def pausing_ok_def drained_def holder_ok_def)
  show "sb_evolves s ?t"
    using i w by (auto simp: sb_evolves_def put_slot_def slots_progress_def dict_grows_refl list_all2_conv_all_nth nth_list_update)
qed

lemma sb_inv_cleanup:
  "sb_inv s \<Longrightarrow> dwf d \<Longrightarrow> sb_inv (s\<lparr>sb_cleanup := d\<rparr>)"
  by (simp add: sb_inv_def pausing_ok_def drained_def holder_ok_def slots_ok_def)

text \<open>Replacing the table of holders.\<close>

lemma put_holders_inv:
  assumes "sb_inv s" "dwf hs" "\<And>k h. dget hs k = Some h \<Longrightarrow> holder_ok s k h"
    "\<And>d r. dget (sb_records s) d = Some r \<Longrightarrow> pausing_ok (s\<lparr>sb_holders := hs\<rparr>) r"
  shows "sb_inv (s\<lparr>sb_holders := hs\<rparr>)"
proof -
  have "holder_ok (s\<lparr>sb_holders := hs\<rparr>) k h = holder_ok s k h" for k h by (simp add: holder_ok_def)
  then show ?thesis using assms by (simp add: sb_inv_def slots_ok_def)
qed

lemma fewer_holders_inv:
  assumes s: "sb_inv s" and hs: "dwf hs" "\<And>k h. dget hs k = Some h \<Longrightarrow> dget (sb_holders s) k = Some h"
  shows "sb_inv (s\<lparr>sb_holders := hs\<rparr>)"
proof (rule put_holders_inv [OF s hs(1)])
  show "holder_ok s k h" if "dget hs k = Some h" for k h
    using hs(2) [OF that] s by (simp add: sb_inv_def)
  show "pausing_ok (s\<lparr>sb_holders := hs\<rparr>) r" if "dget (sb_records s) d = Some r" for d r
  proof -
    have "pausing_ok s r" using s that by (simp add: sb_inv_def)
    then show ?thesis using hs(2) unfolding pausing_ok_def drained_def by simp blast
  qed
qed

lemma sb_evolves_frame:
  "sb_records s' = sb_records s \<Longrightarrow> sb_warm_slots s' = sb_warm_slots s \<Longrightarrow> sb_started s' = sb_started s \<Longrightarrow> sb_evolves s s'"
  by (simp add: sb_evolves_def dict_grows_refl slots_progress_def list.rel_refl)

lemma sb_ensure_open_Inr [simp]: "sb_ensure_open s = Inr u \<longleftrightarrow> sb_started s \<and> \<not> sb_closed s"
  by (auto simp: sb_ensure_open_def bindE_Inr_iff)

lemma claimed_record_Inr:
  "claimed_record c s = Inr r \<longleftrightarrow>
     sb_started s \<and> \<not> sb_closed s \<and> dget (sb_records s) (oc_owner_digest c) = Some r \<and> owner_claim_current c r"
  by (auto simp: claimed_record_def bindE_Inr_iff split: option.splits if_splits)

lemma expected_availability_Inr:
  "expected_availability c a s = Inr r \<longleftrightarrow> claimed_record c s = Inr r \<and> r_availability r = Some a"
  by (auto simp: expected_availability_def bindE_Inr_iff split: if_splits)

lemma find_slot_Some:
  "find_slot P n ws = Some (i, w) \<Longrightarrow> n \<le> i \<and> i - n < length ws \<and> w = ws ! (i - n) \<and> P w"
proof (induction P n ws rule: find_slot.induct)
  case (2 P n v ws)
  show ?case
  proof (cases "P v")
    case False
    then have "Suc n \<le> i \<and> i - Suc n < length ws \<and> w = ws ! (i - Suc n) \<and> P w"
      using "2.IH" [OF False] "2.prems" False by simp blast
    moreover from this have "i - n = Suc (i - Suc n)" by linarith
    ultimately show ?thesis by (auto simp: nth_Cons)
  qed (use 2 in auto)
qed simp

lemma find_slot_0: "find_slot P 0 ws = Some (i, w) \<Longrightarrow> i < length ws \<and> w = ws ! i \<and> P w"
  using find_slot_Some [of P 0 ws i w] by auto

lemma py_index_Some: "py_index xs i = Some n \<Longrightarrow> n < length xs"
  by (auto simp: py_index_def split: if_splits)

lemma claimed_warm_slot_Inr:
  assumes "claimed_warm_slot c s = Inr (i, w)"
  shows "sb_started s" "\<not> sb_closed s" "i < length (sb_warm_slots s)" "w = sb_warm_slots s ! i" "warm_claim_current c w"
    "py_index (sb_warm_slots s) (wc_slot c) = Some i"
  using assms py_index_Some [of "sb_warm_slots s" "wc_slot c" i]
  by (auto simp: claimed_warm_slot_def bindE_Inr_iff split: option.splits if_splits)

lemma record_of: "sb_inv s \<Longrightarrow> dget (sb_records s) d = Some r \<Longrightarrow> record_ok d r \<and> pausing_ok s r"
  by (simp add: sb_inv_def)

section \<open>The operations\<close>

lemma start_keeps: "sb_inv s \<Longrightarrow> sb_keeps s (sb_start n s)"
  unfolding sb_start_def
proof (intro sb_intros)
  assume s: "sb_inv s" and ns: "\<not> sb_started s"
  then show "sb_keeps s (Inr (), s\<lparr>sb_warm_slots := map (\<lambda>i. new_warm_slot (int i)) [0..<nat n],
      sb_warm_pool_size := Some n, sb_started := True\<rparr>)"
    by (intro sb_keeps_Inr)
       (auto simp: sb_inv_def pausing_ok_def drained_def holder_ok_def slots_ok_def new_warm_slot_def
         sb_evolves_def slots_progress_def dict_grows_refl)
qed

lemma new_record_keeps: "sb_inv s \<Longrightarrow> sb_keeps s (sb_record d s)"
  unfolding sb_record_def
proof (intro sb_intros sb_keeps_Inr)
  let ?t = "s\<lparr>sb_records := dsetdefault d new_owner_record (sb_records s)\<rparr>"
  assume s: "sb_inv s"
  have "record_ok d new_owner_record" "pausing_ok s new_owner_record"
    by (simp_all add: record_ok_def new_owner_record_def pausing_ok_def)
  moreover have "pausing_ok ?t r = pausing_ok s r" for r by (simp add: pausing_ok_def drained_def)
  moreover have "holder_ok ?t k h" if "dget (sb_holders s) k = Some h" for k h
    using s that by (fastforce simp: sb_inv_def holder_ok_def dict_simps)
  ultimately show "sb_inv ?t" using s by (auto simp: sb_inv_def slots_ok_def dict_simps)
  show "sb_evolves s ?t"
    by (auto simp: sb_evolves_def slots_progress_def list.rel_refl dict_grows_def dict_simps)
qed

lemma acquire_keeps:
  assumes s: "sb_inv s" and a: "sb_acquire_owner key d tok s = Some r"
  shows "sb_keeps s r"
proof -
  obtain q where q: "dget (sb_records s) d = Some q" "\<not> r_locked q"
    using a by (auto simp: sb_acquire_owner_def split: option.splits if_splits)
  let ?q = "q\<lparr>r_locked := True, r_generation := r_generation q + 1, r_active_token := Some tok\<rparr>"
  note ok = record_of [OF s q(1)]
  have "record_ok d ?q" "pausing_ok s ?q" "record_progress q ?q"
    using ok by (auto simp: record_ok_def pausing_ok_def record_progress_def split: option.splits)
  from put_record_inv [OF s q(1) this] show ?thesis
    using a q s by (auto simp: sb_acquire_owner_def Let_def put_record_def intro!: sb_keeps_check sb_keeps_Inr)
qed

lemma commit_binding_ok:
  assumes "record_ok d r" "pausing_ok s r" "owner_claim_current c r" "oc_owner_digest c = d"
    "commit_binding r c sid = (b, r')"
  shows "record_ok d r'" "pausing_ok s r'" "record_progress r r'"
  using assms
  by (auto simp: commit_binding_def Let_def record_ok_def pausing_ok_def record_progress_def owner_claim_current_def
      split: if_splits option.splits)

lemma bind_keeps: "sb_inv s \<Longrightarrow> sb_keeps s (sb_bind_owner c sid s)"
  unfolding sb_bind_owner_def
proof (intro sb_intros)
  fix r assume s: "sb_inv s" and "claimed_record c s = Inr r"
  then have r: "dget (sb_records s) (oc_owner_digest c) = Some r" "owner_claim_current c r"
    by (auto simp: claimed_record_Inr)
  obtain b r' where b: "commit_binding r c sid = (b, r')" by force
  note ok = record_of [OF s r(1)]
  show "sb_keeps s (case commit_binding r c sid of (b, r') \<Rightarrow> (Inr b, put_record (oc_owner_digest c) r' s))"
    using put_record_inv [OF s r(1) commit_binding_ok [OF ok [THEN conjunct1] ok [THEN conjunct2] r(2) refl b]] b
    by (simp add: sb_keeps_Inr)
qed

lemma unbind_keeps: "sb_inv s \<Longrightarrow> sb_keeps s (sb_unbind_owner c s)"
  unfolding sb_unbind_owner_def
proof (intro sb_intros sb_keeps_Inr)
  fix r assume s: "sb_inv s" and "claimed_record c s = Inr r"
  then have r: "dget (sb_records s) (oc_owner_digest c) = Some r" by (auto simp: claimed_record_Inr)
  let ?P = "\<lambda>(k :: string \<times> string, h). h_owner_digest h \<noteq> oc_owner_digest c"
  let ?t = "s\<lparr>sb_holders := filter ?P (sb_holders s)\<rparr>" and ?r = "r\<lparr>r_binding := None, r_availability := None\<rparr>"
  have wf: "dwf (sb_holders s)" using s by (simp add: sb_inv_def)
  have t: "sb_inv ?t"
  proof (rule fewer_holders_inv [OF s])
    show "dwf (filter ?P (sb_holders s))" using wf by (rule distinct_map_filter)
    fix k h assume "dget (filter ?P (sb_holders s)) k = Some h"
    then have "(k, h) \<in> set (sb_holders s)" using map_of_SomeD by fastforce
    then show "dget (sb_holders s) k = Some h" using wf by (simp add: map_of_is_SomeI)
  qed
  have "record_ok (oc_owner_digest c) ?r" "pausing_ok ?t ?r" "record_progress r ?r"
    using record_of [OF s r] by (auto simp: record_ok_def pausing_ok_def record_progress_def)
  note u = put_record_inv [OF t _ this]
  show "sb_inv (put_record (oc_owner_digest c) ?r ?t)" using r by (simp add: u)
  have "sb_evolves s ?t" by (rule sb_evolves_frame) simp_all
  then show "sb_evolves s (put_record (oc_owner_digest c) ?r ?t)"
    by (rule sb_evolves_trans) (rule u(2), simp add: r)
qed

lemma release_keeps:
  assumes s: "sb_inv s" shows "sb_keeps s (sb_release_owner c s)"
  unfolding sb_release_owner_def
proof (intro sb_intros s)
  fix r assume r: "dget (sb_records s) (oc_owner_digest c) = Some r" "\<not> r_active_token r \<noteq> Some (oc_token c)"
  let ?r = "r\<lparr>r_active_token := None, r_locked := False\<rparr>" and ?d = "oc_owner_digest c"
  have l: "r_locked r" using record_of [OF s r(1)] r(2) by (simp add: record_ok_def)
  have "record_ok ?d ?r" "pausing_ok s ?r" "record_progress r ?r"
    using record_of [OF s r(1)] by (auto simp: record_ok_def pausing_ok_def record_progress_def split: option.splits)
  note u = put_record_inv [OF s r(1) this]
  have "put_record ?d ?r (put_record ?d (r\<lparr>r_active_token := None\<rparr>) s) = put_record ?d ?r s"
    by (simp add: put_record_def)
  then show "sb_keeps s (let s1 = put_record ?d (r\<lparr>r_active_token := None\<rparr>) s
      in if \<not> r_locked r then (Inl (SbRuntimeError ''Lock is not acquired''), s1) else (Inr (), put_record ?d ?r s1))"
    using l u by (simp add: Let_def sb_keeps_Inr)
qed

lemma put_holder_inv:
  assumes s: "sb_inv s" and h: "holder_ok s k h" and r: "dget (sb_records s) (h_owner_digest h) = Some r"
    and a: "\<And>a. r_availability r = Some a \<Longrightarrow> a_phase a \<noteq> PhPausing"
  shows "sb_inv (s\<lparr>sb_holders := dput k h (sb_holders s)\<rparr>)"
proof (rule put_holders_inv [OF s])
  show "dwf (dput k h (sb_holders s))" using s by (simp add: sb_inv_def dict_simps)
  show "holder_ok s k' h'" if "dget (dput k h (sb_holders s)) k' = Some h'" for k' h'
    using that h s by (auto simp: sb_inv_def dict_simps split: if_splits)
  fix d r' assume r': "dget (sb_records s) d = Some r'"
  note ok = record_of [OF s r']
  have "d \<noteq> h_owner_digest h" if "r_availability r' = Some a'" "a_phase a' = PhPausing" for a'
    using r r' a that by auto
  then have "\<not> holder_matches h a'" if "r_availability r' = Some a'" "a_phase a' = PhPausing" for a'
    using that ok by (auto simp: record_ok_def holder_matches_def split: option.splits)
  then show "pausing_ok (s\<lparr>sb_holders := dput k h (sb_holders s)\<rparr>) r'"
    using ok by (auto simp: pausing_ok_def drained_def dict_simps split: if_splits)
qed

lemma register_keeps: "sb_inv s \<Longrightarrow> sb_keeps s (sb_register_holder c hid s)"
  unfolding sb_register_holder_def
proof (intro sb_intros sb_keeps_Inr)
  fix r a assume s: "sb_inv s" and "claimed_record c s = Inr r" and a: "r_availability r = Some a" "\<not> a_phase a \<noteq> PhRunning"
  then have r: "dget (sb_records s) (oc_owner_digest c) = Some r" by (auto simp: claimed_record_Inr)
  let ?h = "\<lparr>h_holder_id = hid, h_owner_digest = oc_owner_digest c, h_sandbox_id = a_sandbox_id a,
    h_binding_generation = a_binding_generation a, h_acknowledged_sequence = None, h_availability = a\<rparr>"
  have "holder_ok s (hid, oc_owner_digest c) ?h"
    using record_of [OF s r] r a by (auto simp: holder_ok_def record_ok_def split: option.splits)
  then show "sb_inv (s\<lparr>sb_holders := dput (hid, oc_owner_digest c) ?h (sb_holders s)\<rparr>)"
    by (rule put_holder_inv [OF s]) (use r a in auto)
qed (simp_all add: sb_evolves_frame)

lemma acknowledge_keeps:
  assumes s: "sb_inv s" shows "sb_keeps s (sb_acknowledge_idle hid a s)"
proof -
  have "sb_inv (s\<lparr>sb_holders := dput (hid, a_owner_digest a) (h\<lparr>h_acknowledged_sequence := n\<rparr>) (sb_holders s)\<rparr>)"
    if h: "dget (sb_holders s) (hid, a_owner_digest a) = Some h" and r: "dget (sb_records s) (a_owner_digest a) = Some r"
      and a: "r_availability r = Some a" "a_phase a = PhDraining" for h r n
  proof (rule put_holder_inv [OF s])
    have k: "holder_ok s (hid, a_owner_digest a) h" using s h by (simp add: sb_inv_def)
    then show "holder_ok s (hid, a_owner_digest a) (h\<lparr>h_acknowledged_sequence := n\<rparr>)" by (simp add: holder_ok_def)
    show "dget (sb_records s) (h_owner_digest (h\<lparr>h_acknowledged_sequence := n\<rparr>)) = Some r"
      using k r by (simp add: holder_ok_def)
  qed (use a in simp)
  then show ?thesis
    unfolding sb_acknowledge_idle_def
    by (auto intro!: sb_intros sb_keeps_Inr s sb_evolves_frame split: option.split)
qed

lemma unregister_keeps:
  assumes s: "sb_inv s" shows "sb_keeps s (sb_unregister_holder hid a s)"
proof -
  have "sb_inv (s\<lparr>sb_holders := ddel k (sb_holders s)\<rparr>)" for k
    by (rule fewer_holders_inv [OF s]) (use s in \<open>auto simp: sb_inv_def dict_simps split: if_splits\<close>)
  then show ?thesis
    unfolding sb_unregister_holder_def by (intro sb_intros sb_keeps_Inr s) (auto intro: sb_evolves_frame)
qed

lemma next_availability_Inr:
  "next_availability a p f = Inr a' \<longleftrightarrow>
     p \<in> phase_transitions (a_phase a) \<and> (f \<longrightarrow> p = PhRunning) \<and>
     a' = a\<lparr>a_phase := p, a_sequence := a_sequence a + 1,
            a_connection_generation := a_connection_generation a + (if f then 1 else 0)\<rparr>"
  by (auto simp: next_availability_def)

lemma all_holders_idle_iff:
  "sb_inv s \<Longrightarrow> all_holders_idle a s \<longleftrightarrow> drained s a (a_sequence a)"
  by (auto simp: sb_inv_def all_holders_idle_def list_all_iff drained_def dvalues_dget simp del: set_map)

lemma change_keeps: "sb_inv s \<Longrightarrow> sb_keeps s (sb_change_availability c a p f s)"
  unfolding sb_change_availability_def
proof (intro sb_intros sb_keeps_Inr)
  fix r a' assume s: "sb_inv s" and "expected_availability c a s = Inr r"
    and n: "next_availability a p f = Inr a'" and idle: "\<not> (p = PhPausing \<and> \<not> all_holders_idle a s)"
  then have r: "dget (sb_records s) (oc_owner_digest c) = Some r" "r_availability r = Some a"
    by (auto simp: expected_availability_Inr claimed_record_Inr)
  let ?r = "r\<lparr>r_availability := Some a'\<rparr>"
  have "record_ok (oc_owner_digest c) ?r" "record_progress r ?r"
    using record_of [OF s r(1)] r(2) n by (auto simp: record_ok_def next_availability_Inr record_progress_def split: option.splits)
  moreover have "pausing_ok s ?r"
    using idle n s by (auto simp: pausing_ok_def next_availability_Inr all_holders_idle_iff drained_def holder_matches_def)
  ultimately show "sb_inv (put_record (oc_owner_digest c) ?r s)" "sb_evolves s (put_record (oc_owner_digest c) ?r s)"
    using put_record_inv [OF s r(1)] by blast+
qed

lemma put_slot_keeps:
  assumes "sb_inv s" "sb_started s" "i < length (sb_warm_slots s)" "slot_progress (sb_warm_slots s ! i) w"
  shows "sb_keeps s (Inr x, put_slot i w s)"
  by (rule sb_keeps_Inr) (rule put_slot_inv [OF assms])+

lemma claim_warm_keeps: "sb_inv s \<Longrightarrow> sb_keeps s (sb_claim_warm_slot tok s)"
  by (auto simp: sb_claim_warm_slot_def Let_def slot_progress_def dest!: find_slot_0
      intro!: sb_intros put_slot_keeps split: option.split)

lemma claim_ready_keeps: "sb_inv s \<Longrightarrow> sb_keeps s (sb_claim_ready_warm_slot ex tok s)"
  by (auto simp: sb_claim_ready_warm_slot_def Let_def slot_progress_def dest!: find_slot_0
      intro!: sb_intros put_slot_keeps split: option.split)

lemma publish_keeps: "sb_inv s \<Longrightarrow> sb_keeps s (sb_publish_warm c sid s)"
  unfolding sb_publish_warm_def
proof (intro sb_intros, unfold split_paired_all split_conv)
  fix i w assume s: "sb_inv s" and w: "claimed_warm_slot c s = Inr (i, w)"
  show "sb_keeps s (Inr (), put_slot i (w\<lparr>ws_sandbox_id := Some sid, ws_active_token := None\<rparr>) s)"
    using claimed_warm_slot_Inr [OF w] by (intro put_slot_keeps s) (auto simp: slot_progress_def)
qed

lemma discard_keeps:
  assumes s: "sb_inv s" shows "sb_keeps s (sb_discard_ready_warm_slot c s)"
proof -
  have "sb_keeps s (Inr (), (put_slot i (w\<lparr>ws_sandbox_id := None, ws_active_token := None\<rparr>) s)
      \<lparr>sb_cleanup := dsetdefault (rc_sandbox_id c) new_cleanup_record
          (sb_cleanup (put_slot i (w\<lparr>ws_sandbox_id := None, ws_active_token := None\<rparr>) s))\<rparr>)"
    (is "sb_keeps s (_, ?t\<lparr>sb_cleanup := _\<rparr>)")
    if w: "claimed_warm_slot c s = Inr (i, w)" for i w
  proof -
    note f = claimed_warm_slot_Inr [OF w]
    have "slot_progress (sb_warm_slots s ! i) (w\<lparr>ws_sandbox_id := None, ws_active_token := None\<rparr>)"
      using f(4) by (simp add: slot_progress_def)
    note u = put_slot_inv [OF s f(1,3) this]
    have d: "dwf (sb_cleanup ?t)" using u(1) by (simp add: sb_inv_def)
    show ?thesis
      by (intro sb_keeps_Inr sb_inv_cleanup u dict_simps d) (rule sb_evolves_trans [OF u(2)], simp add: sb_evolves_frame)
  qed
  then show ?thesis unfolding sb_discard_ready_warm_slot_def Let_def by (auto intro!: sb_intros s)
qed

lemma release_warm_keeps:
  assumes s: "sb_inv s" shows "sb_keeps s (sb_release_warm c s)"
proof -
  have "sb_keeps s (Inr (), put_slot i ((sb_warm_slots s ! i)\<lparr>ws_active_token := None\<rparr>) s)"
    if "py_index (sb_warm_slots s) (wc_slot c) = Some i" for i
    using s py_index_Some [OF that]
    by (intro put_slot_keeps) (auto simp: sb_inv_def slots_ok_def slot_progress_def)
  then show ?thesis
    unfolding sb_release_warm_def Let_def by (auto intro!: sb_intros s)
qed

lemma consume_keeps: "sb_inv s \<Longrightarrow> sb_keeps s (sb_consume_warm c s)"
  unfolding sb_consume_warm_def
proof (intro sb_intros)
  fix r x assume s: "sb_inv s" and "claimed_record c s = Inr r"
    and x: "find_slot (\<lambda>w. ws_sandbox_id w \<noteq> None \<and> ws_active_token w = None) 0 (sb_warm_slots s) = Some x"
  then have r: "dget (sb_records s) (oc_owner_digest c) = Some r" "owner_claim_current c r" "sb_started s"
    by (auto simp: claimed_record_Inr)
  obtain i w where iw: "x = (i, w)" by force
  note f = find_slot_0 [OF x [unfolded iw]] and ok = record_of [OF s r(1)]
  obtain b r' where b: "commit_binding r c (the (ws_sandbox_id w)) = (b, r')" by force
  note u = put_record_inv [OF s r(1) commit_binding_ok [OF ok [THEN conjunct1] ok [THEN conjunct2] r(2) refl b]]
  let ?t = "put_record (oc_owner_digest c) r' s" and ?w = "w\<lparr>ws_sandbox_id := None\<rparr>"
  have "sb_started ?t" "i < length (sb_warm_slots ?t)" "slot_progress (sb_warm_slots ?t ! i) ?w"
    using f r(3) by (auto simp: put_record_def slot_progress_def)
  note v = put_slot_inv [OF u(1) this]
  show "sb_keeps s (case x of (i, w) \<Rightarrow> (case commit_binding r c (the (ws_sandbox_id w)) of (b, r') \<Rightarrow>
      (Inr (Some b), put_slot i (w\<lparr>ws_sandbox_id := None\<rparr>) (put_record (oc_owner_digest c) r' s))))"
    using v(1) sb_evolves_trans [OF u(2) v(2)] by (simp add: iw b sb_keeps_Inr)
qed

lemma cleanup_keeps:
  "sb_inv s \<Longrightarrow> (dwf (sb_cleanup s) \<Longrightarrow> dwf d) \<Longrightarrow> sb_keeps s (Inr x, s\<lparr>sb_cleanup := d\<rparr>)"
  by (auto intro!: sb_keeps_Inr sb_inv_cleanup sb_evolves_frame simp: sb_inv_def)

lemma cleanup_ops_keep:
  assumes "sb_inv s"
  shows "sb_keeps s (sb_enqueue_cleanup sid s)" "sb_keeps s (sb_claim_cleanup tok s)"
    "sb_keeps s (sb_complete_cleanup cc s)" "sb_keeps s (sb_release_cleanup cc s)"
  using assms
  by (auto simp: sb_enqueue_cleanup_def sb_claim_cleanup_def sb_complete_cleanup_def sb_release_cleanup_def Let_def dict_simps
      intro!: sb_intros cleanup_keeps split: option.split)

lemma aclose_keeps: "sb_inv s \<Longrightarrow> sb_keeps s (sb_aclose s)"
  unfolding sb_aclose_def
  by (rule sb_keeps_Inr)
     (auto simp: sb_inv_def pausing_ok_def drained_def holder_ok_def slots_ok_def intro: sb_evolves_frame)

section \<open>Runs\<close>

text \<open>One operation of any manager that shares the state, with any arguments.\<close>

inductive sb_step :: "sandbox_state \<Rightarrow> sandbox_state \<Rightarrow> bool" where
  StStart: "sb_step s (snd (sb_start n s))"
| StRecord: "sb_step s (snd (sb_record d s))"
| StAcquire: "sb_acquire_owner key d tok s = Some r \<Longrightarrow> sb_step s (snd r)"
| StBind: "sb_step s (snd (sb_bind_owner c sid s))"
| StUnbind: "sb_step s (snd (sb_unbind_owner c s))"
| StRelease: "sb_step s (snd (sb_release_owner c s))"
| StRegister: "sb_step s (snd (sb_register_holder c hid s))"
| StChange: "sb_step s (snd (sb_change_availability c a p f s))"
| StAcknowledge: "sb_step s (snd (sb_acknowledge_idle hid a s))"
| StUnregister: "sb_step s (snd (sb_unregister_holder hid a s))"
| StClaimWarm: "sb_step s (snd (sb_claim_warm_slot tok s))"
| StClaimReady: "sb_step s (snd (sb_claim_ready_warm_slot ex tok s))"
| StDiscard: "sb_step s (snd (sb_discard_ready_warm_slot rc s))"
| StPublish: "sb_step s (snd (sb_publish_warm (wc :: warm_claim) sid s))"
| StReleaseWarm: "sb_step s (snd (sb_release_warm (wc :: warm_claim) s))"
| StReleaseReady: "sb_step s (snd (sb_release_warm (rc :: ready_warm_claim) s))"
| StConsume: "sb_step s (snd (sb_consume_warm c s))"
| StEnqueue: "sb_step s (snd (sb_enqueue_cleanup sid s))"
| StClaimCleanup: "sb_step s (snd (sb_claim_cleanup tok s))"
| StComplete: "sb_step s (snd (sb_complete_cleanup cc s))"
| StReleaseCleanup: "sb_step s (snd (sb_release_cleanup cc s))"
| StClose: "sb_step s (snd (sb_aclose s))"

lemmas sb_op_keeps =
  start_keeps new_record_keeps bind_keeps unbind_keeps release_keeps register_keeps change_keeps
  acknowledge_keeps unregister_keeps claim_warm_keeps claim_ready_keeps discard_keeps publish_keeps
  release_warm_keeps consume_keeps cleanup_ops_keep aclose_keeps

lemma sb_keepsD: "sb_keeps s r \<Longrightarrow> sb_inv (snd r) \<and> sb_evolves s (snd r)"
  by (simp add: sb_keeps_def)

lemma sb_step_keeps: "sb_step s s' \<Longrightarrow> sb_inv s \<Longrightarrow> sb_inv s' \<and> sb_evolves s s'"
proof (induction rule: sb_step.induct)
  case (StAcquire key d tok s r)
  then show ?case using acquire_keeps by (auto simp: sb_keeps_def)
qed (rule sb_keepsD, erule sb_op_keeps)+

definition owner_generation :: "sandbox_state \<Rightarrow> string \<Rightarrow> int" where
  "owner_generation s d = (case dget (sb_records s) d of None \<Rightarrow> -1 | Some r \<Rightarrow> r_generation r)"

definition holds_owner :: "sandbox_state \<Rightarrow> string \<Rightarrow> int \<Rightarrow> bool" where
  "holds_owner s d g \<longleftrightarrow>
     (\<exists>r. dget (sb_records s) d = Some r \<and> r_active_token r \<noteq> None \<and> r_generation r = g)"

definition slot_generation :: "sandbox_state \<Rightarrow> nat \<Rightarrow> int" where
  "slot_generation s i = (if i < length (sb_warm_slots s) then ws_generation (sb_warm_slots s ! i) else -1)"

definition holds_slot :: "sandbox_state \<Rightarrow> nat \<Rightarrow> int \<Rightarrow> bool" where
  "holds_slot s i g \<longleftrightarrow>
     i < length (sb_warm_slots s) \<and> ws_active_token (sb_warm_slots s ! i) \<noteq> None \<and>
     ws_generation (sb_warm_slots s ! i) = g"

interpretation ow: fenced_leases "\<lambda>s. s = init_sandbox_state" sb_step sb_inv owner_generation holds_owner
proof
  show "sb_inv s \<Longrightarrow> sb_step s s' \<Longrightarrow> owner_generation s k \<le> owner_generation s' k" for s s' k
    using sb_step_keeps [of s s']
    by (fastforce simp: sb_evolves_def dict_grows_def record_progress_def owner_generation_def sb_inv_def record_ok_def
        split: option.splits)
qed (auto simp: sb_inv_init sb_step_keeps holds_owner_def owner_generation_def)

interpretation wa: fenced_leases "\<lambda>s. s = init_sandbox_state" sb_step sb_inv slot_generation holds_slot
proof
  show "slot_generation s k \<le> slot_generation s' k" if "sb_inv s" "sb_step s s'" for s s' k
  proof (cases "k < length (sb_warm_slots s)")
    case True
    then have "sb_started s" using that(1) by (auto simp: sb_inv_def slots_ok_def)
    then show ?thesis
      using sb_step_keeps [OF that(2,1)] True
      by (auto simp: sb_evolves_def slots_progress_def list_all2_conv_all_nth slot_generation_def slot_progress_def)
  next
    case False
    have "slots_ok s'" using sb_step_keeps [OF that(2,1)] by (simp add: sb_inv_def)
    then have "k < length (sb_warm_slots s') \<Longrightarrow> 0 \<le> ws_generation (sb_warm_slots s' ! k)"
      by (simp add: slots_ok_def)
    then show ?thesis using False by (auto simp: slot_generation_def)
  qed
qed (auto simp: sb_inv_init sb_step_keeps holds_slot_def slot_generation_def)

lemma sb_run_evolves: "sb_step\<^sup>*\<^sup>* s s' \<Longrightarrow> sb_inv s \<Longrightarrow> sb_evolves s s'"
  by (rule ow.run_related [where R = sb_evolves]) (auto intro: sb_evolves_trans dest: sb_step_keeps)

section \<open>How one step changes an availability\<close>

definition same_binding :: "availability \<Rightarrow> availability \<Rightarrow> bool" where
  "same_binding a b \<longleftrightarrow> a_sandbox_id b = a_sandbox_id a \<and> a_binding_generation b = a_binding_generation a"

definition by_table :: "availability \<Rightarrow> availability \<Rightarrow> bool" where
  "by_table a b \<longleftrightarrow> a_sequence b = a_sequence a + 1 \<and> a_phase b \<in> phase_transitions (a_phase a)"

definition record_move :: "owner_record \<Rightarrow> owner_record \<Rightarrow> bool" where
  "record_move r r' \<longleftrightarrow>
     (\<forall>a b. r_availability r = Some a \<longrightarrow> r_availability r' = Some b \<longrightarrow> same_binding a b \<longrightarrow> b = a \<or> by_table a b)"

definition records_move :: "sandbox_state \<Rightarrow> sandbox_state \<Rightarrow> bool" where
  "records_move s s' \<longleftrightarrow> dict_grows record_move (sb_records s) (sb_records s')"

lemma record_move_same: "r_availability r' = r_availability r \<Longrightarrow> record_move r r'"
  by (simp add: record_move_def)

lemma records_move_frame: "sb_records s' = sb_records s \<Longrightarrow> records_move s s'"
  by (simp add: records_move_def dict_grows_refl record_move_same)

lemma records_move_put_slot [simp]: "records_move s (put_slot i w t) = records_move s t"
  by (simp add: records_move_def put_slot_def)

lemma records_move_put:
  assumes "dget (sb_records s) d = Some r" "record_move r r'" "sb_records s' = dput d r' (sb_records s)"
  shows "records_move s s'"
  using assms by (auto simp: records_move_def dict_grows_def dict_simps record_move_same)

text \<open>A new binding either is the old one, which is left alone, or differs from it.\<close>

lemma commit_binding_move:
  assumes "record_ok d r" "commit_binding r c sid = (b, r')"
  shows "record_move r r'"
  using assms
  by (auto simp: commit_binding_def Let_def record_move_def same_binding_def record_ok_def split: if_splits option.splits)

lemma holder_ops_frame:
  "sb_records (snd (sb_register_holder c hid s)) = sb_records s"
  "sb_records (snd (sb_acknowledge_idle hid a s)) = sb_records s"
  "sb_records (snd (sb_unregister_holder hid a s)) = sb_records s"
  by (auto simp: sb_register_holder_def sb_acknowledge_idle_def sb_unregister_holder_def check_def
      split: sum.split option.split)

lemma warm_ops_frame:
  "sb_records (snd (sb_claim_warm_slot tok s)) = sb_records s"
  "sb_records (snd (sb_claim_ready_warm_slot ex tok s)) = sb_records s"
  "sb_records (snd (sb_discard_ready_warm_slot rc s)) = sb_records s"
  "sb_records (snd (sb_publish_warm wc sid s)) = sb_records s"
  "sb_records (snd (sb_release_warm wc s)) = sb_records s"
  by (auto simp: sb_claim_warm_slot_def sb_claim_ready_warm_slot_def sb_discard_ready_warm_slot_def sb_publish_warm_def
      sb_release_warm_def check_def put_slot_def Let_def split: sum.split option.split)

lemma other_ops_frame:
  "sb_records (snd (sb_start n s)) = sb_records s"
  "sb_records (snd (sb_enqueue_cleanup sid s)) = sb_records s"
  "sb_records (snd (sb_claim_cleanup tok s)) = sb_records s"
  "sb_records (snd (sb_complete_cleanup cc s)) = sb_records s"
  "sb_records (snd (sb_release_cleanup cc s)) = sb_records s"
  "sb_records (snd (sb_aclose s)) = sb_records s"
  by (auto simp: sb_start_def sb_enqueue_cleanup_def sb_claim_cleanup_def sb_complete_cleanup_def sb_release_cleanup_def
      sb_aclose_def check_def Let_def split: sum.split option.split)

lemma records_move_check:
  "(\<And>a. r = Inr a \<Longrightarrow> records_move s (snd (k a))) \<Longrightarrow> records_move s (snd (check r s k))"
  by (cases r) (auto intro: records_move_frame)

lemma record_acquire_move:
  "records_move s (snd (sb_record d s))"
  "sb_acquire_owner key d tok s = Some r \<Longrightarrow> records_move s (snd r)"
  "records_move s (snd (sb_release_owner c s))"
  by (auto simp: sb_record_def sb_acquire_owner_def sb_release_owner_def Let_def put_record_def split: option.splits if_splits
      intro!: records_move_check record_move_same)
     (auto simp: records_move_def dict_grows_def dict_simps record_move_same)

lemma bind_moves:
  assumes s: "sb_inv s"
  shows "records_move s (snd (sb_bind_owner c sid s))" "records_move s (snd (sb_consume_warm c s))"
proof -
  have "records_move s (put_record (oc_owner_digest c) r' s)"
    if "claimed_record c s = Inr r" "commit_binding r c x = (b, r')" for r b r' x
  proof -
    have r: "dget (sb_records s) (oc_owner_digest c) = Some r" using that(1) by (simp add: claimed_record_Inr)
    show ?thesis
      by (rule records_move_put [OF r commit_binding_move [OF record_of [OF s r, THEN conjunct1] that(2)]])
         (simp add: put_record_def)
  qed
  then show "records_move s (snd (sb_bind_owner c sid s))" "records_move s (snd (sb_consume_warm c s))"
    unfolding sb_bind_owner_def sb_consume_warm_def
    by (auto intro!: records_move_check split: prod.split option.split intro: records_move_frame)
qed

lemma unbind_change_move:
  "records_move s (snd (sb_unbind_owner c s))" "records_move s (snd (sb_change_availability c a p f s))"
proof -
  show "records_move s (snd (sb_unbind_owner c s))"
    unfolding sb_unbind_owner_def
    by (intro records_move_check, unfold snd_conv, rule records_move_put)
       (auto simp: claimed_record_Inr put_record_def record_move_def)
  have "records_move s (put_record (oc_owner_digest c) (r\<lparr>r_availability := Some a'\<rparr>) s)"
    if "expected_availability c a s = Inr r" "next_availability a p f = Inr a'" for r a'
    using that by (intro records_move_put [of s "oc_owner_digest c" r])
      (auto simp: expected_availability_Inr claimed_record_Inr put_record_def record_move_def by_table_def next_availability_Inr)
  then show "records_move s (snd (sb_change_availability c a p f s))"
    unfolding sb_change_availability_def by (auto intro!: records_move_check intro: records_move_frame)
qed

lemma sb_step_moves: "sb_step s s' \<Longrightarrow> sb_inv s \<Longrightarrow> records_move s s'"
  by (induction rule: sb_step.induct)
     (simp_all add: records_move_frame holder_ops_frame warm_ops_frame other_ops_frame record_acquire_move bind_moves
       unbind_change_move)

end
