(* ===== verification/Sandbox_State_Drain.thy ===== *)
theory Sandbox_State_Drain
  imports Sandbox_State_Correct
begin

text \<open>
  Where the acknowledgements of a drain come from: along runs in which no step installs a binding
  that a registered holder names already, the acknowledgement a holder carries was given to the
  drain that is current, or was the last one before.
\<close>

section \<open>Bindings that are installed once\<close>

definition intent_of :: "sandbox_state \<Rightarrow> string \<Rightarrow> availability option" where
  "intent_of s d = (case dget (sb_records s) d of None \<Rightarrow> None | Some r \<Rightarrow> r_availability r)"

text \<open>The step installs, for some owner, a binding (Sandbox and generation) that was not in place
  before the step and that a registered holder names.\<close>

definition reinstalls :: "sandbox_state \<Rightarrow> sandbox_state \<Rightarrow> bool" where
  "reinstalls s s' \<longleftrightarrow>
     (\<exists>d a k h. intent_of s' d = Some a \<and> (\<forall>b. intent_of s d = Some b \<longrightarrow> \<not> same_binding b a) \<and>
        dget (sb_holders s) k = Some h \<and> holder_matches h a)"

definition plain_step :: "sandbox_state \<Rightarrow> sandbox_state \<Rightarrow> bool" where
  "plain_step s s' \<longleftrightarrow> sb_step s s' \<and> \<not> reinstalls s s'"

definition acknowledges :: "string \<Rightarrow> availability \<Rightarrow> sandbox_state \<Rightarrow> sandbox_state \<Rightarrow> bool" where
  "acknowledges hid a s s' \<longleftrightarrow> sb_acknowledge_idle hid a s = (Inr True, s')"

text \<open>Steps after which the owner's intent is one of two.\<close>

definition step_within :: "string \<Rightarrow> availability \<Rightarrow> availability \<Rightarrow> sandbox_state \<Rightarrow> sandbox_state \<Rightarrow> bool" where
  "step_within d a b s s' \<longleftrightarrow> sb_step s s' \<and> intent_of s' d \<in> {Some a, Some b}"

lemma plain_run_reach: "plain_step\<^sup>*\<^sup>* s s' \<Longrightarrow> sb_step\<^sup>*\<^sup>* s s'"
  by (rule rtranclp_mono [THEN predicate2D]) (auto simp: plain_step_def)

lemma step_within_widen: "(step_within d a a)\<^sup>*\<^sup>* s s' \<Longrightarrow> (step_within d a b)\<^sup>*\<^sup>* s s'"
  by (rule rtranclp_mono [THEN predicate2D]) (auto simp: step_within_def)

section \<open>How holders move\<close>

lemma acknowledgesD:
  assumes "acknowledges hid a s s'"
  shows "a_phase a = PhDraining" "intent_of s (a_owner_digest a) = Some a" "sb_records s' = sb_records s"
    "\<exists>h. dget (sb_holders s) (hid, a_owner_digest a) = Some h \<and> holder_matches h a \<and>
      sb_holders s' = dput (hid, a_owner_digest a) (h\<lparr>h_acknowledged_sequence := Some (a_sequence a)\<rparr>) (sb_holders s)"
  using assms
  by (auto simp: acknowledges_def sb_acknowledge_idle_def check_Inr_iff intent_of_def split: option.splits if_splits)

lemma holders_frame:
  "sb_holders (snd (sb_start n s)) = sb_holders s"
  "sb_holders (snd (sb_record d s)) = sb_holders s"
  "sb_acquire_owner key d tok s = Some r \<Longrightarrow> sb_holders (snd r) = sb_holders s"
  "sb_holders (snd (sb_bind_owner c sid s)) = sb_holders s"
  "sb_holders (snd (sb_release_owner c s)) = sb_holders s"
  "sb_holders (snd (sb_change_availability c a p f s)) = sb_holders s"
  "sb_holders (snd (sb_claim_warm_slot tok s)) = sb_holders s"
  "sb_holders (snd (sb_claim_ready_warm_slot ex tok s)) = sb_holders s"
  "sb_holders (snd (sb_discard_ready_warm_slot rc s)) = sb_holders s"
  "sb_holders (snd (sb_publish_warm wc sid s)) = sb_holders s"
  "sb_holders (snd (sb_release_warm wc s)) = sb_holders s"
  "sb_holders (snd (sb_consume_warm c s)) = sb_holders s"
  "sb_holders (snd (sb_enqueue_cleanup sid s)) = sb_holders s"
  "sb_holders (snd (sb_claim_cleanup tok s)) = sb_holders s"
  "sb_holders (snd (sb_complete_cleanup cc s)) = sb_holders s"
  "sb_holders (snd (sb_release_cleanup cc s)) = sb_holders s"
  "sb_holders (snd (sb_aclose s)) = sb_holders s"
  by (auto simp: sb_start_def sb_record_def sb_acquire_owner_def sb_bind_owner_def sb_release_owner_def
      sb_change_availability_def sb_claim_warm_slot_def sb_claim_ready_warm_slot_def sb_discard_ready_warm_slot_def
      sb_publish_warm_def sb_release_warm_def sb_consume_warm_def sb_enqueue_cleanup_def sb_claim_cleanup_def
      sb_complete_cleanup_def sb_release_cleanup_def sb_aclose_def check_def put_record_def put_slot_def Let_def
      split: sum.split option.split prod.split option.splits if_splits)

lemma unbind_holders:
  "dwf (sb_holders s) \<Longrightarrow> dget (sb_holders (snd (sb_unbind_owner c s))) k = Some h \<Longrightarrow> dget (sb_holders s) k = Some h"
  by (auto simp: sb_unbind_owner_def check_def put_record_def map_of_eq_Some_iff distinct_map_filter
      split: sum.splits)

lemma unregister_holders:
  "dget (sb_holders (snd (sb_unregister_holder hid a s))) k = Some h \<Longrightarrow> dget (sb_holders s) k = Some h"
  by (auto simp: sb_unregister_holder_def check_def dict_simps split: sum.splits option.splits if_splits)

lemma register_holders:
  "dget (sb_holders (snd (sb_register_holder c hid s))) k = Some h \<Longrightarrow>
     dget (sb_holders s) k = Some h \<or> h_acknowledged_sequence h = None"
  by (auto simp: sb_register_holder_def check_def dict_simps split: sum.splits option.splits if_splits)

lemma acknowledge_holders:
  "dget (sb_holders (snd (sb_acknowledge_idle hid a s))) k = Some h \<Longrightarrow>
     dget (sb_holders s) k = Some h \<or>
     k = (hid, a_owner_digest a) \<and> acknowledges hid a s (snd (sb_acknowledge_idle hid a s)) \<and>
     holder_matches h a \<and> h_acknowledged_sequence h = Some (a_sequence a)"
proof (cases "sb_ensure_open s")
  case (Inr u)
  then have o: "sb_ensure_open s = Inr ()" by simp
  show "dget (sb_holders (snd (sb_acknowledge_idle hid a s))) k = Some h \<Longrightarrow> ?thesis"
    by (auto simp: sb_acknowledge_idle_def acknowledges_def o dict_simps holder_matches_def split: option.splits if_splits)
qed (simp add: sb_acknowledge_idle_def)

lemma sb_step_holders:
  assumes "sb_step s s'" "sb_inv s" "dget (sb_holders s') k = Some h"
  shows "dget (sb_holders s) k = Some h \<or> h_acknowledged_sequence h = None \<or>
    (\<exists>a. k = (fst k, a_owner_digest a) \<and> acknowledges (fst k) a s s' \<and>
       holder_matches h a \<and> h_acknowledged_sequence h = Some (a_sequence a))"
  using assms
proof (induction rule: sb_step.induct)
  case (StUnbind s c)
  then show ?case using unbind_holders by (auto simp: sb_inv_def)
next
  case (StUnregister s hid a)
  then show ?case using unregister_holders by blast
next
  case (StRegister s c hid)
  then show ?case using register_holders by blast
next
  case (StAcknowledge s hid a)
  from acknowledge_holders [OF StAcknowledge(2)] show ?case by auto
qed (simp_all add: holders_frame)

section \<open>Where an acknowledgement comes from\<close>

text \<open>\<open>traced s d a k\<close>: the acknowledgement that holder \<open>k\<close> carries was given to a drain \<open>b\<close> of the
  same binding; if it carries the sequence of the current intent \<open>a\<close>, then \<open>b\<close> is that intent, and
  if it carries the sequence before, then the intent moved from \<open>b\<close> to \<open>a\<close> directly.\<close>

definition traced :: "sandbox_state \<Rightarrow> string \<Rightarrow> availability \<Rightarrow> string \<Rightarrow> int \<Rightarrow> bool" where
  "traced s d a hid q \<longleftrightarrow>
     (\<exists>u v b. plain_step\<^sup>*\<^sup>* init_sandbox_state u \<and> acknowledges hid b u v \<and> a_owner_digest b = d \<and> same_binding b a \<and>
        a_sequence b = q \<and> q \<le> a_sequence a \<and>
        (a_sequence a = q \<longrightarrow> b = a \<and> (step_within d b b)\<^sup>*\<^sup>* v s) \<and>
        (a_sequence a = q + 1 \<longrightarrow> (step_within d b a)\<^sup>*\<^sup>* v s))"

lemma traced_step:
  assumes t: "traced s d a hid q" and st: "sb_step s s'" and i: "intent_of s' d = Some a'"
    and mv: "a' = a \<or> a_sequence a' = a_sequence a + 1" "same_binding a a'"
  shows "traced s' d a' hid q"
proof -
  obtain u v b where u: "plain_step\<^sup>*\<^sup>* init_sandbox_state u" "acknowledges hid b u v" "a_owner_digest b = d" "same_binding b a"
    "a_sequence b = q" "q \<le> a_sequence a" "a_sequence a = q \<longrightarrow> b = a \<and> (step_within d b b)\<^sup>*\<^sup>* v s"
    "a_sequence a = q + 1 \<longrightarrow> (step_within d b a)\<^sup>*\<^sup>* v s"
    using t unfolding traced_def by blast
  have sw: "step_within d x a' s s'" for x using st i by (simp add: step_within_def)
  have "a_sequence a' = q \<longrightarrow> b = a' \<and> (step_within d b b)\<^sup>*\<^sup>* v s'"
    using mv(1) u(6,7) sw [of b] by (auto intro: rtranclp.rtrancl_into_rtrancl)
  moreover have "(step_within d b a')\<^sup>*\<^sup>* v s'" if q: "a_sequence a' = q + 1"
  proof (cases "a' = a")
    case True
    then show ?thesis using q u(8) sw [of b] by (auto intro: rtranclp.rtrancl_into_rtrancl)
  next
    case False
    then have "a_sequence a = q" using mv(1) q by simp
    then have "(step_within d b a')\<^sup>*\<^sup>* v s" using u(7) step_within_widen [of d b v s a'] by blast
    then show ?thesis using sw [of b] by (rule rtranclp.rtrancl_into_rtrancl)
  qed
  ultimately show ?thesis
    using u mv unfolding traced_def by (intro exI [of _ u] exI [of _ v] exI [of _ b]) (auto simp: same_binding_def)
qed

lemma plain_step_binding:
  assumes "plain_step s s'" "intent_of s' d = Some a'" "dget (sb_holders s) k = Some h" "holder_matches h a'" "sb_inv s"
  obtains a where "intent_of s d = Some a" "same_binding a a'" "a' = a \<or> a_sequence a' = a_sequence a + 1"
proof -
  obtain a where a: "intent_of s d = Some a" "same_binding a a'"
    using assms(1-4) unfolding plain_step_def reinstalls_def by blast
  have "records_move s s'" using sb_step_moves assms(1,5) by (auto simp: plain_step_def)
  then have "a' = a \<or> by_table a a'"
    using a assms(2) by (fastforce simp: intent_of_def records_move_def dict_grows_def record_move_def split: option.splits)
  then show ?thesis using that a by (auto simp: by_table_def)
qed

lemma intent_digest: "sb_inv s \<Longrightarrow> intent_of s d = Some a \<Longrightarrow> a_owner_digest a = d"
  using record_of [of s d] by (fastforce simp: intent_of_def record_ok_def split: option.splits)

lemma acknowledgement_traced:
  assumes "plain_step\<^sup>*\<^sup>* init_sandbox_state s"
  shows "\<lbrakk>intent_of s d = Some a; dget (sb_holders s) k = Some h; holder_matches h a;
    h_acknowledged_sequence h = Some q\<rbrakk> \<Longrightarrow> traced s d a (fst k) q"
  using assms
proof (induction arbitrary: a h q rule: rtranclp_induct)
  case base
  then show ?case by (simp add: init_sandbox_state_def)
next
  case (step s s')
  have st: "sb_step s s'" and inv: "sb_inv s" "sb_inv s'"
    using step.hyps ow.reachable_inv [OF refl plain_run_reach] sb_step_keeps by (auto simp: plain_step_def)
  have dig: "a_owner_digest a = d" using inv(2) step.prems(1) by (rule intent_digest)
  consider (old) "dget (sb_holders s) k = Some h"
    | (ack) b where "acknowledges (fst k) b s s'" "holder_matches h b" "h_acknowledged_sequence h = Some (a_sequence b)"
    using sb_step_holders [OF st inv(1) step.prems(2)] step.prems(4) by auto
  then show ?case
  proof cases
    case old
    obtain a0 where a0: "intent_of s d = Some a0" "same_binding a0 a" "a = a0 \<or> a_sequence a = a_sequence a0 + 1"
      by (rule plain_step_binding [OF step.hyps(2) step.prems(1) old step.prems(3) inv(1)])
    have "a_owner_digest a0 = d" using inv(1) a0(1) by (rule intent_digest)
    then have "holder_matches h a0" using step.prems(3) a0(2) dig by (simp add: holder_matches_def same_binding_def)
    from step.IH [OF a0(1) old this step.prems(4)] show ?thesis
      by (rule traced_step [OF _ st step.prems(1) a0(3,2)])
  next
    case ack
    have "a_owner_digest b = d" using ack(2) step.prems(3) dig by (simp add: holder_matches_def)
    then have "b = a" using acknowledgesD(2,3) [OF ack(1)] step.prems(1) by (simp add: intent_of_def)
    then show ?thesis
      using ack step.prems(4) step.hyps(1) dig unfolding traced_def
      by (intro exI [of _ s] exI [of _ s'] exI [of _ b]) (auto simp: same_binding_def)
  qed
qed

lemma plain_step_no_holders: "sb_step s s' \<Longrightarrow> sb_holders s = [] \<Longrightarrow> plain_step s s'"
  by (simp add: plain_step_def reinstalls_def)

lemma plain_step_kept:
  "sb_step s s' \<Longrightarrow> (\<And>d a. intent_of s' d = Some a \<Longrightarrow> \<exists>b. intent_of s d = Some b \<and> same_binding b a) \<Longrightarrow> plain_step s s'"
  by (auto simp: plain_step_def reinstalls_def)

end
