(* ===== verification/Sandbox_State_Props.thy ===== *)
theory Sandbox_State_Props
  imports Sandbox_State_Drain "HOL-Library.Multiset"
begin

text \<open>
  What the in-process Sandbox state promises its managers: owner claims are exclusive and fenced,
  a remote pause is dispatched only after every registered holder has acknowledged the drain, availability moves
  by the documented table, and no Sandbox identifier is lost between pool, owners and cleanup.
\<close>

section \<open>Helper facts\<close>

lemma claim_lost_forever:
  assumes s: "sb_inv s" and run: "sb_step\<^sup>*\<^sup>* s s'" and r: "dget (sb_records s) (oc_owner_digest c) = Some r"
    and stale: "\<not> owner_claim_current c r" "oc_generation c \<le> r_generation r"
  shows "\<exists>r'. dget (sb_records s') (oc_owner_digest c) = Some r' \<and> \<not> owner_claim_current c r'"
proof -
  obtain r' where r': "dget (sb_records s') (oc_owner_digest c) = Some r'" "record_progress r r'"
    using sb_run_evolves [OF run s] r by (auto simp: sb_evolves_def dict_grows_def)
  then show ?thesis using stale by (auto simp: owner_claim_current_def record_progress_def)
qed

lemma stale_claimed_record:
  assumes "sb_started s" "\<not> sb_closed s" "\<And>r. dget (sb_records s) (oc_owner_digest c) = Some r \<Longrightarrow> \<not> owner_claim_current c r"
  shows "claimed_record c s = Inl (StateOwnershipError ''Owner claim is no longer current'')"
  using assms by (auto simp: claimed_record_def sb_ensure_open_def split: option.split)

lemma acquired_record:
  assumes "sb_acquire_owner key d tok s = Some (Inr c, s')"
  obtains r where "dget (sb_records s) d = Some r" "\<not> r_locked r" "sb_started s" "\<not> sb_closed s"
    "c = \<lparr>oc_owner_key = key, oc_owner_digest = d, oc_token = tok, oc_generation = r_generation r + 1, oc_binding = r_binding r\<rparr>"
    "s' = put_record d (r\<lparr>r_locked := True, r_generation := r_generation r + 1, r_active_token := Some tok\<rparr>) s"
  using assms that
  by (auto simp: sb_acquire_owner_def check_Inr_iff Let_def put_record_def split: option.splits if_splits)

section \<open>A concrete run\<close>

text \<open>Two managers, one owner, a pool of one: bound, drained and about to be paused.\<close>

definition demo_claim :: owner_claim where
  "demo_claim = \<lparr>oc_owner_key = ''alice'', oc_owner_digest = ''d'', oc_token = ''t1'', oc_generation = 1, oc_binding = None\<rparr>"

definition demo_availability :: "int \<Rightarrow> availability_phase \<Rightarrow> availability" where
  "demo_availability n p = \<lparr>a_owner_digest = ''d'', a_sandbox_id = ''box'', a_binding_generation = 1,
     a_sequence = n, a_phase = p, a_connection_generation = 0\<rparr>"

definition demo_opened :: sandbox_state where
  "demo_opened = snd (sb_record ''d'' (snd (sb_start 1 init_sandbox_state)))"

definition demo_bound :: sandbox_state where
  "demo_bound = snd (sb_register_holder demo_claim ''h'' (snd (sb_bind_owner demo_claim ''box''
     (snd (the (sb_acquire_owner ''alice'' ''d'' ''t1'' demo_opened))))))"

definition demo_drained :: sandbox_state where
  "demo_drained = snd (sb_acknowledge_idle ''h'' (demo_availability 1 PhDraining)
     (snd (sb_change_availability demo_claim (demo_availability 0 PhRunning) PhDraining False demo_bound)))"

definition demo_pausing :: sandbox_state where
  "demo_pausing = snd (sb_change_availability demo_claim (demo_availability 1 PhDraining) PhPausing False demo_drained)"

definition demo_holder :: holder_update where
  "demo_holder = \<lparr>h_holder_id = ''h'', h_owner_digest = ''d'', h_sandbox_id = ''box'', h_binding_generation = 1,
     h_acknowledged_sequence = Some 1, h_availability = demo_availability 0 PhRunning\<rparr>"

definition demo_record :: "availability \<Rightarrow> owner_record" where
  "demo_record a = \<lparr>r_locked = True, r_generation = 1, r_binding = Some \<lparr>b_sandbox_id = ''box'', b_generation = 1\<rparr>,
     r_active_token = Some ''t1'', r_availability = Some a\<rparr>"

definition demo_state :: "(string, owner_record) dict \<Rightarrow> (string \<times> string, holder_update) dict \<Rightarrow> sandbox_state" where
  "demo_state rs hs = \<lparr>sb_records = rs, sb_warm_slots = [new_warm_slot 0], sb_warm_pool_size = Some 1, sb_cleanup = [],
     sb_holders = hs, sb_started = True, sb_closed = False\<rparr>"

lemma demo_opened_eq: "demo_opened = demo_state [(''d'', new_owner_record)] []"
  by (simp add: demo_opened_def demo_state_def sb_start_def sb_record_def sb_ensure_open_def init_sandbox_state_def
      dsetdefault_def)

lemma demo_bound_eq:
  "demo_bound = demo_state [(''d'', demo_record (demo_availability 0 PhRunning))]
     [((''h'', ''d''), demo_holder\<lparr>h_acknowledged_sequence := None\<rparr>)]"
  by (simp add: demo_bound_def demo_opened_eq demo_state_def demo_claim_def demo_record_def demo_availability_def demo_holder_def
      sb_acquire_owner_def sb_bind_owner_def sb_register_holder_def claimed_record_def sb_ensure_open_def new_owner_record_def
      owner_claim_current_def commit_binding_def put_record_def validate_holder_id_def Let_def)

lemma demo_drained_eq:
  "demo_drained = demo_state [(''d'', demo_record (demo_availability 1 PhDraining))] [((''h'', ''d''), demo_holder)]"
  by (simp add: demo_drained_def demo_bound_eq demo_state_def demo_claim_def demo_record_def demo_availability_def demo_holder_def
      sb_acknowledge_idle_def sb_change_availability_def expected_availability_def claimed_record_def sb_ensure_open_def
      owner_claim_current_def next_availability_def put_record_def holder_matches_def)

lemma demo_pausing_eq:
  "demo_pausing = demo_state [(''d'', demo_record (demo_availability 2 PhPausing))] [((''h'', ''d''), demo_holder)]"
  by (simp add: demo_pausing_def demo_drained_eq demo_state_def demo_claim_def demo_record_def demo_availability_def demo_holder_def
      sb_change_availability_def expected_availability_def claimed_record_def sb_ensure_open_def all_holders_idle_def
      owner_claim_current_def next_availability_def put_record_def holder_matches_def)

lemma demo_acquire:
  "sb_acquire_owner ''alice'' ''d'' ''t1'' demo_opened =
     Some (Inr demo_claim, snd (the (sb_acquire_owner ''alice'' ''d'' ''t1'' demo_opened)))"
  by (simp add: demo_opened_eq demo_state_def sb_acquire_owner_def sb_ensure_open_def new_owner_record_def demo_claim_def Let_def)

lemma two_steps: "sb_step a b \<Longrightarrow> sb_step b c \<Longrightarrow> sb_step\<^sup>*\<^sup>* a c"
  by (blast intro: converse_rtranclp_into_rtranclp)

lemma demo_runs:
  "sb_step\<^sup>*\<^sup>* init_sandbox_state demo_opened" "sb_step\<^sup>*\<^sup>* demo_opened demo_bound"
  "sb_step\<^sup>*\<^sup>* demo_bound demo_drained" "sb_step\<^sup>*\<^sup>* demo_drained demo_pausing"
proof -
  show "sb_step\<^sup>*\<^sup>* init_sandbox_state demo_opened" unfolding demo_opened_def by (rule two_steps [OF StStart StRecord])
  have "sb_step demo_opened (snd (the (sb_acquire_owner ''alice'' ''d'' ''t1'' demo_opened)))"
    using StAcquire [OF demo_acquire] by simp
  then show "sb_step\<^sup>*\<^sup>* demo_opened demo_bound"
    unfolding demo_bound_def by (rule converse_rtranclp_into_rtranclp [OF _ two_steps [OF StBind StRegister]])
  show "sb_step\<^sup>*\<^sup>* demo_bound demo_drained" unfolding demo_drained_def by (rule two_steps [OF StChange StAcknowledge])
  show "sb_step\<^sup>*\<^sup>* demo_drained demo_pausing" unfolding demo_pausing_def by (rule r_into_rtranclp [of sb_step, OF StChange])
qed

lemmas demo_reach =
  demo_runs(1)
  rtranclp_trans [OF demo_runs(1,2)]
  rtranclp_trans [OF rtranclp_trans [OF demo_runs(1,2)] demo_runs(3)]
  rtranclp_trans [OF rtranclp_trans [OF rtranclp_trans [OF demo_runs(1,2)] demo_runs(3)] demo_runs(4)]

section \<open>Reachable states\<close>

text \<open>C16: whatever operations the managers sharing one in-process state perform, with whatever claims, the
  state stays well-formed: an owner lock is held exactly while a claim is active, a binding and its
  availability intent always name the same Sandbox and generation, every holder belongs to a known owner
  generation, and the warm slots keep their numbering.\<close>

theorem sandbox_state_invariant: "sb_step\<^sup>*\<^sup>* init_sandbox_state s \<Longrightarrow> sb_inv s"
  by (rule ow.reachable_inv [OF refl])

theorem sandbox_state_invariant_witness: "sb_inv demo_pausing"
  by (rule sandbox_state_invariant [OF demo_reach(4)])

text \<open>C15: a remote pause follows the acknowledgements of its own drain. When the intent of a binding is
  pausing, each holder registered for that binding has acknowledged, in some earlier state, the drain
  that is the intent directly before the pause: the drain was the current intent when the holder
  acknowledged it, and from then on the owner's intent has been that drain and after it this pause,
  nothing else. The runs are those in which no step installs, for an owner, a binding (Sandbox and
  generation) that a registered holder names already. The source does not rule such a step out: an
  owner that binds a Sandbox, another one and the first again under one claim gets the same binding
  with a new sequence, and then an old acknowledgement counts
  (\<open>old_acknowledgement_counts_after_rebinding\<close>).\<close>

theorem pausing_means_drained:
  assumes "plain_step\<^sup>*\<^sup>* init_sandbox_state s" "dget (sb_records s) d = Some r" "r_availability r = Some a"
    "a_phase a = PhPausing" "dget (sb_holders s) k = Some h" "holder_matches h a"
  shows "\<exists>u v b. plain_step\<^sup>*\<^sup>* init_sandbox_state u \<and> sb_acknowledge_idle (fst k) b u = (Inr True, v) \<and>
    intent_of u d = Some b \<and> a_phase b = PhDraining \<and> same_binding b a \<and> a_sequence b = a_sequence a - 1 \<and>
    (\<lambda>x y. sb_step x y \<and> intent_of y d \<in> {Some b, Some a})\<^sup>*\<^sup>* v s"
proof -
  have inv: "sb_inv s" by (rule ow.reachable_inv [OF refl plain_run_reach [OF assms(1)]])
  then have "h_acknowledged_sequence h = Some (a_sequence a - 1)"
    using record_of [OF inv assms(2)] assms(3-6) unfolding pausing_ok_def drained_def by blast
  moreover have "intent_of s d = Some a" using assms(2,3) by (simp add: intent_of_def)
  ultimately have "traced s d a (fst k) (a_sequence a - 1)"
    using acknowledgement_traced [OF assms(1)] assms(5,6) by blast
  then obtain u v b where u: "plain_step\<^sup>*\<^sup>* init_sandbox_state u" "acknowledges (fst k) b u v" "a_owner_digest b = d"
    "same_binding b a" "a_sequence b = a_sequence a - 1" "(step_within d b a)\<^sup>*\<^sup>* v s"
    unfolding traced_def by auto
  then show ?thesis
    using acknowledgesD(1,2) [OF u(2)] unfolding acknowledges_def step_within_def [abs_def] by blast
qed

lemma demo_plain: "plain_step\<^sup>*\<^sup>* init_sandbox_state demo_pausing"
proof -
  let ?opened = "snd (sb_start 1 init_sandbox_state)" and ?owned = "snd (the (sb_acquire_owner ''alice'' ''d'' ''t1'' demo_opened))"
  let ?bound = "snd (sb_bind_owner demo_claim ''box'' ?owned)"
  let ?draining = "snd (sb_change_availability demo_claim (demo_availability 0 PhRunning) PhDraining False demo_bound)"
  have d: "?draining = demo_state [(''d'', demo_record (demo_availability 1 PhDraining))]
      [((''h'', ''d''), demo_holder\<lparr>h_acknowledged_sequence := None\<rparr>)]"
    by (simp add: demo_bound_eq demo_state_def demo_claim_def demo_record_def demo_availability_def
        sb_change_availability_def expected_availability_def claimed_record_def sb_ensure_open_def
        owner_claim_current_def next_availability_def put_record_def)
  have no: "sb_holders init_sandbox_state = []" "sb_holders ?opened = []" "sb_holders demo_opened = []"
    by (simp_all add: demo_opened_eq demo_state_def init_sandbox_state_def holders_frame)
  then have no': "sb_holders ?owned = []" "sb_holders ?bound = []"
    using holders_frame(3) [OF demo_acquire] by (simp_all add: holders_frame)
  have int: "intent_of (demo_state [(''d'', demo_record a)] hs) x = (if x = ''d'' then Some a else None)" for a hs x
    by (simp add: intent_of_def demo_state_def demo_record_def)
  have same: "same_binding (demo_availability m p) (demo_availability n q)" for m n p q
    by (simp add: same_binding_def demo_availability_def)
  have one: "plain_step init_sandbox_state ?opened" "plain_step ?opened demo_opened" "plain_step demo_opened ?owned"
    "plain_step ?owned ?bound" "plain_step ?bound demo_bound"
    using no no' StAcquire [OF demo_acquire]
    by (auto simp: demo_opened_def demo_bound_def intro!: plain_step_no_holders sb_step.intros)
  have two: "plain_step demo_bound ?draining"
    by (rule plain_step_kept [OF StChange], unfold d, unfold demo_bound_eq) (auto simp: int same split: if_splits)
  have three: "plain_step ?draining demo_drained"
    unfolding demo_drained_def
    by (rule plain_step_kept [OF StAcknowledge], fold demo_drained_def) (auto simp: d demo_drained_eq int same split: if_splits)
  have four: "plain_step demo_drained demo_pausing"
    unfolding demo_pausing_def
    by (rule plain_step_kept [OF StChange], fold demo_pausing_def) (auto simp: demo_pausing_eq demo_drained_eq int same split: if_splits)
  note more = rtranclp.rtrancl_into_rtrancl [of plain_step]
  have "plain_step\<^sup>*\<^sup>* init_sandbox_state demo_bound"
    by (rule more [OF more [OF more [OF more [OF more [OF rtranclp.rtrancl_refl one(1)] one(2)] one(3)] one(4)] one(5)])
  then show ?thesis by (rule more [OF more [OF more [OF _ two] three] four])
qed

theorem pausing_means_drained_witness:
  "\<exists>u v b. sb_acknowledge_idle ''h'' b u = (Inr True, v) \<and> a_phase b = PhDraining \<and> a_sequence b = 1 \<and>
     (\<lambda>x y. sb_step x y \<and> intent_of y ''d'' \<in> {Some b, Some (demo_availability 2 PhPausing)})\<^sup>*\<^sup>* v demo_pausing"
proof -
  have "dget (sb_records demo_pausing) ''d'' = Some (demo_record (demo_availability 2 PhPausing))"
    "r_availability (demo_record (demo_availability 2 PhPausing)) = Some (demo_availability 2 PhPausing)"
    "a_phase (demo_availability 2 PhPausing) = PhPausing" "dget (sb_holders demo_pausing) (''h'', ''d'') = Some demo_holder"
    "holder_matches demo_holder (demo_availability 2 PhPausing)"
    by (simp_all add: demo_pausing_eq demo_state_def demo_record_def demo_availability_def demo_holder_def holder_matches_def)
  from pausing_means_drained [OF demo_plain this] show ?thesis by (auto simp: demo_availability_def)
qed

text \<open>C18: an owner claim is exclusive. A grant happens only when no claim of that owner is current; afterwards the
  new claim is current, carries the next generation, and no other request for the same owner is granted.\<close>

theorem acquire_owner_exclusive:
  assumes reach: "sb_step\<^sup>*\<^sup>* init_sandbox_state s" and a: "sb_acquire_owner key d tok s = Some (Inr c, s')"
  shows "(\<forall>g. \<not> holds_owner s d g) \<and> holds_owner s' d (oc_generation c) \<and>
    oc_generation c = owner_generation s d + 1 \<and> (\<exists>r. claimed_record c s' = Inr r) \<and>
    sb_acquire_owner key' d tok' s' = None"
proof -
  from a obtain r where r: "dget (sb_records s) d = Some r" "\<not> r_locked r" "sb_started s" "\<not> sb_closed s"
    "c = \<lparr>oc_owner_key = key, oc_owner_digest = d, oc_token = tok, oc_generation = r_generation r + 1, oc_binding = r_binding r\<rparr>"
    "s' = put_record d (r\<lparr>r_locked := True, r_generation := r_generation r + 1, r_active_token := Some tok\<rparr>) s"
    by (rule acquired_record)
  have "r_active_token r = None" using record_of [OF ow.reachable_inv [OF refl reach] r(1)] r(2) by (auto simp: record_ok_def)
  then show ?thesis
    using r by (simp add: holds_owner_def owner_generation_def sb_acquire_owner_def put_record_def dict_simps
        claimed_record_Inr owner_claim_current_def)
qed

theorem acquire_owner_exclusive_witness:
  "sb_acquire_owner ''bob'' ''d'' ''t2'' (snd (the (sb_acquire_owner ''alice'' ''d'' ''t1'' demo_opened))) = None"
  using acquire_owner_exclusive [OF demo_reach(1) demo_acquire] by blast

text \<open>C17: fencing. An owner claim that is not current any more (released, or overtaken by a later grant) never
  becomes current again, however the managers go on: no later operation accepts it.\<close>

theorem lost_owner_claim_never_returns:
  assumes "sb_step\<^sup>*\<^sup>* init_sandbox_state s" "dget (sb_records s) (oc_owner_digest c) = Some r"
    "\<not> owner_claim_current c r" "oc_generation c \<le> r_generation r" "sb_step\<^sup>*\<^sup>* s s'"
  shows "\<nexists>q. claimed_record c s' = Inr q"
  using claim_lost_forever [OF ow.reachable_inv [OF refl assms(1)] assms(5,2-4)] by (auto simp: claimed_record_Inr)

theorem lost_owner_claim_never_returns_witness:
  "\<nexists>q. claimed_record (demo_claim\<lparr>oc_token := ''t0''\<rparr>) demo_pausing = Inr q"
  using lost_owner_claim_never_returns [OF demo_reach(2) _ _ _ rtranclp_trans [OF demo_runs(3,4)],
      of "demo_claim\<lparr>oc_token := ''t0''\<rparr>" "demo_record (demo_availability 0 PhRunning)"]
  by (simp add: demo_bound_eq demo_state_def demo_claim_def demo_record_def owner_claim_current_def)

text \<open>A manager whose claim is not current changes nothing: binding, unbinding, registering a handle,
  changing the availability and taking a warm Sandbox all raise the ownership error and leave the state as
  it was, and renewal reports the loss.\<close>

theorem stale_owner_is_fenced:
  assumes "sb_started s" "\<not> sb_closed s" "\<And>r. dget (sb_records s) (oc_owner_digest c) = Some r \<Longrightarrow> \<not> owner_claim_current c r"
    "hid \<noteq> []" "length hid \<le> 36"
  shows "let e = StateOwnershipError ''Owner claim is no longer current'' in
    sb_bind_owner c sid s = (Inl e, s) \<and> sb_unbind_owner c s = (Inl e, s) \<and> sb_register_holder c hid s = (Inl e, s) \<and>
    sb_change_availability c a p f s = (Inl e, s) \<and> sb_holders_are_idle c a s = (Inl e, s) \<and>
    sb_consume_warm c s = (Inl e, s) \<and> sb_renew_owner c s = (Inr False, s)"
  using stale_claimed_record [OF assms(1-3)] assms(4,5)
  by (simp add: Let_def sb_bind_owner_def sb_unbind_owner_def sb_register_holder_def sb_change_availability_def
      expected_availability_def sb_holders_are_idle_def sb_consume_warm_def sb_renew_owner_def validate_holder_id_def)

theorem stale_owner_is_fenced_witness:
  "sb_bind_owner (demo_claim\<lparr>oc_generation := 0\<rparr>) ''other'' demo_bound =
     (Inl (StateOwnershipError ''Owner claim is no longer current''), demo_bound)"
  using stale_owner_is_fenced [of demo_bound "demo_claim\<lparr>oc_generation := 0\<rparr>" "''h''" "''other''"]
  by (simp add: demo_bound_eq demo_state_def demo_claim_def demo_record_def owner_claim_current_def Let_def)

text \<open>Releasing is safe to repeat and never fails: in a reachable state the lock of a current claim is held, so
  the release that the claim's owner performs frees it, and any other release changes nothing.\<close>

theorem release_owner_total:
  assumes "sb_step\<^sup>*\<^sup>* init_sandbox_state s"
  shows "fst (sb_release_owner c s) = Inr () \<and>
    (\<forall>g. \<not> holds_owner (snd (sb_release_owner c s)) (oc_owner_digest c) g) = 
       (\<forall>r. dget (sb_records s) (oc_owner_digest c) = Some r \<longrightarrow> r_active_token r \<in> {None, Some (oc_token c)})"
proof (cases "dget (sb_records s) (oc_owner_digest c)")
  case (Some r)
  have "r_active_token r \<noteq> None \<longleftrightarrow> r_locked r"
    using record_of [OF ow.reachable_inv [OF refl assms] Some] by (simp add: record_ok_def)
  then show ?thesis
    using Some by (auto simp: sb_release_owner_def holds_owner_def put_record_def dict_simps Let_def)
qed (simp add: sb_release_owner_def holds_owner_def)

theorem release_owner_total_witness:
  "fst (sb_release_owner demo_claim demo_bound) = Inr () \<and>
   \<not> holds_owner (snd (sb_release_owner demo_claim demo_bound)) ''d'' 1"
  using release_owner_total [OF demo_reach(2), of demo_claim]
  by (simp add: demo_bound_eq demo_state_def demo_claim_def demo_record_def)

section \<open>Availability\<close>

text \<open>a change of availability is a compare-and-swap. It succeeds only from the intent the caller has read, to a
  phase the table allows, advances the sequence by one, and from then on every change that still expects
  the old intent is refused, whoever makes it.\<close>

theorem change_availability_once:
  assumes "sb_change_availability c a p f s = (Inr a', s')"
  shows "p \<in> phase_transitions (a_phase a) \<and> a_phase a' = p \<and> a_sequence a' = a_sequence a + 1 \<and>
    a_connection_generation a' = a_connection_generation a + (if f then 1 else 0) \<and> (f \<longrightarrow> p = PhRunning) \<and>
    fst (sb_read_availability (oc_owner_digest c) s) = Inr (Some a) \<and>
    fst (sb_read_availability (oc_owner_digest c) s') = Inr (Some a') \<and>
    (\<forall>c' p' f'. oc_owner_digest c' = oc_owner_digest c \<longrightarrow>
       (\<exists>m. sb_change_availability c' a p' f' s' = (Inl (StateOwnershipError m), s')))"
proof -
  from assms obtain r where r: "expected_availability c a s = Inr r" and n: "next_availability a p f = Inr a'"
    and s': "s' = put_record (oc_owner_digest c) (r\<lparr>r_availability := Some a'\<rparr>) s"
    by (auto simp: sb_change_availability_def check_Inr_iff split: if_splits)
  have o: "sb_started s" "\<not> sb_closed s" "dget (sb_records s) (oc_owner_digest c) = Some r" "r_availability r = Some a"
    using r by (auto simp: expected_availability_Inr claimed_record_Inr)
  have ne: "a \<noteq> a'" using n by (auto simp: next_availability_Inr dest: arg_cong [of _ _ a_sequence])
  have "\<exists>m. sb_change_availability c' a p' f' s' = (Inl (StateOwnershipError m), s')"
    if "oc_owner_digest c' = oc_owner_digest c" for c' p' f'
    using that o ne by (simp add: sb_change_availability_def expected_availability_def claimed_record_def s' put_record_def
        sb_ensure_open_def dict_simps)
  then show ?thesis
    using n o by (auto simp: next_availability_Inr sb_read_availability_def sb_ensure_open_def s' put_record_def dict_simps)
qed

theorem change_availability_once_witness:
  "\<exists>m. sb_change_availability demo_claim (demo_availability 1 PhDraining) PhRunning False demo_pausing =
     (Inl (StateOwnershipError m), demo_pausing)"
proof -
  have "sb_change_availability demo_claim (demo_availability 1 PhDraining) PhPausing False demo_drained =
      (Inr (demo_availability 2 PhPausing), demo_pausing)"
    unfolding demo_pausing_eq
    by (simp add: demo_drained_eq demo_state_def demo_claim_def demo_record_def demo_availability_def demo_holder_def
        sb_change_availability_def expected_availability_def claimed_record_def sb_ensure_open_def all_holders_idle_def
        owner_claim_current_def next_availability_def put_record_def holder_matches_def)
  from change_availability_once [OF this] show ?thesis by blast
qed

text \<open>the drain handshake is complete as well as safe: for the current claim and the current draining intent, the
  change to pausing goes through exactly when every holder registered for the binding has acknowledged this drain.\<close>

theorem pausing_iff_all_acknowledged:
  assumes "sb_step\<^sup>*\<^sup>* init_sandbox_state s" "expected_availability c a s = Inr r" "a_phase a = PhDraining"
  shows "(\<exists>a'. fst (sb_change_availability c a PhPausing False s) = Inr a') \<longleftrightarrow>
    (\<forall>k h. dget (sb_holders s) k = Some h \<longrightarrow> holder_matches h a \<longrightarrow> h_acknowledged_sequence h = Some (a_sequence a))"
  using assms(2,3) all_holders_idle_iff [OF ow.reachable_inv [OF refl assms(1)], of a]
  by (simp add: sb_change_availability_def next_availability_def drained_def)

theorem pausing_iff_all_acknowledged_witness:
  "\<exists>a'. fst (sb_change_availability demo_claim (demo_availability 1 PhDraining) PhPausing False demo_drained) = Inr a'"
  using pausing_iff_all_acknowledged [OF demo_reach(3), of demo_claim "demo_availability 1 PhDraining"
      "demo_record (demo_availability 1 PhDraining)"]
  by (simp add: expected_availability_Inr claimed_record_Inr demo_drained_eq demo_state_def demo_claim_def demo_record_def
      demo_availability_def demo_holder_def owner_claim_current_def)

text \<open>the phase table is never bypassed. Whatever operation runs next in a reachable state, the availability of a binding
  that stays in place is either untouched or moves by exactly one entry of the table with the next sequence
  number; in particular an uncertain binding stays uncertain until it is replaced or removed.\<close>

theorem availability_moves_by_table:
  assumes "sb_step\<^sup>*\<^sup>* init_sandbox_state s" "sb_step s s'" "dget (sb_records s) d = Some r" "r_availability r = Some a"
    "dget (sb_records s') d = Some r'" "r_availability r' = Some a'"
    "a_sandbox_id a' = a_sandbox_id a" "a_binding_generation a' = a_binding_generation a"
  shows "(a' = a \<or> a_sequence a' = a_sequence a + 1 \<and> a_phase a' \<in> phase_transitions (a_phase a)) \<and>
    (a_phase a = PhUncertain \<longrightarrow> a' = a)"
  using sb_step_moves [OF assms(2) ow.reachable_inv [OF refl assms(1)]] assms(3-)
  by (fastforce simp: records_move_def dict_grows_def record_move_def same_binding_def by_table_def)

theorem availability_moves_by_table_witness:
  "PhPausing \<in> phase_transitions PhDraining"
  using availability_moves_by_table [OF demo_reach(3), of demo_pausing "''d''" "demo_record (demo_availability 1 PhDraining)"
      "demo_availability 1 PhDraining" "demo_record (demo_availability 2 PhPausing)" "demo_availability 2 PhPausing"]
    StChange [of demo_drained demo_claim "demo_availability 1 PhDraining" PhPausing False]
  unfolding demo_pausing_def [symmetric]
  by (simp add: demo_drained_eq demo_pausing_eq demo_state_def demo_record_def demo_availability_def)

section \<open>Warm pool and shutdown\<close>

lemma map_filter_simps_cons:
  "List.map_filter f [] = []" "List.map_filter f (x # xs) = (case f x of None \<Rightarrow> [] | Some y \<Rightarrow> [y]) @ List.map_filter f xs"
  by (simp_all add: List.map_filter_simps split: option.split)

lemma set_map_filter: "set (List.map_filter f xs) = {y. \<exists>x \<in> set xs. f x = Some y}"
  by (induction xs) (auto simp: map_filter_simps_cons split: option.split)

lemma map_filter_update:
  assumes "i < length xs" "f (xs ! i) = Some x" "f w = None"
  shows "mset (List.map_filter f xs) = add_mset x (mset (List.map_filter f (xs[i := w])))"
  using assms
proof (induction xs arbitrary: i)
  case (Cons y ys)
  then show ?case by (cases i) (auto simp: map_filter_simps_cons split: option.split)
qed simp

lemma map_filter_dput:
  assumes "dget d k = Some v" "f v = None" "f v' = Some x"
  shows "mset (List.map_filter f (dvalues (dput k v' d))) = add_mset x (mset (List.map_filter f (dvalues d)))"
  using assms by (induction d) (auto simp: map_filter_simps_cons split: if_splits option.split)

text \<open>handing a warm Sandbox to an owner loses nothing. When an owner without a binding takes a warm Sandbox, the
  Sandbox leaves the pool and becomes the owner's binding in the same step: the identifiers the state
  accounts for are the same, with the same multiplicity, before and after.\<close>

theorem consume_warm_conserves:
  assumes r: "claimed_record c s = Inr r" "r_binding r = None" and c: "sb_consume_warm c s = (Inr (Some b), s')"
  shows "mset (tracked_ids s') = mset (tracked_ids s) \<and> b_sandbox_id b \<in> set (List.map_filter ws_sandbox_id (sb_warm_slots s)) \<and>
    (\<exists>r'. dget (sb_records s') (oc_owner_digest c) = Some r' \<and> r_binding r' = Some b)"
proof -
  let ?d = "oc_owner_digest c" and ?f = "\<lambda>r. map_option b_sandbox_id (r_binding r)"
  from c r obtain i w r' where f: "find_slot (\<lambda>w. ws_sandbox_id w \<noteq> None \<and> ws_active_token w = None) 0 (sb_warm_slots s) = Some (i, w)"
    and b: "commit_binding r c (the (ws_sandbox_id w)) = (b, r')"
    and s': "s' = put_slot i (w\<lparr>ws_sandbox_id := None\<rparr>) (put_record ?d r' s)"
    by (auto simp: sb_consume_warm_def split: option.splits prod.splits)
  note w = find_slot_0 [OF f]
  obtain x where x: "ws_sandbox_id w = Some x" using w by auto
  have r': "r_binding r' = Some b" "b_sandbox_id b = x"
    using b r(2) x by (auto simp: commit_binding_def Let_def)
  have d: "dget (sb_records s) ?d = Some r" using r(1) by (simp add: claimed_record_Inr)
  have "mset (List.map_filter ?f (dvalues (dput ?d r' (sb_records s)))) = add_mset x (mset (List.map_filter ?f (dvalues (sb_records s))))"
    by (rule map_filter_dput [OF d]) (simp_all add: r r')
  moreover have "mset (List.map_filter ws_sandbox_id (sb_warm_slots s)) =
      add_mset x (mset (List.map_filter ws_sandbox_id ((sb_warm_slots s)[i := w\<lparr>ws_sandbox_id := None\<rparr>])))"
    by (rule map_filter_update) (use w x in auto)
  moreover have "b_sandbox_id b \<in> set (List.map_filter ws_sandbox_id (sb_warm_slots s))"
    using w x r'(2) by (force simp: set_map_filter)
  ultimately show ?thesis
    using r' by (simp add: tracked_ids_def s' put_slot_def put_record_def dict_simps)
qed

definition demo_pool :: sandbox_state where
  "demo_pool = snd (sb_publish_warm \<lparr>wc_slot = 0, wc_token = ''w1'', wc_generation = 1\<rparr> ''warm''
     (snd (sb_claim_warm_slot ''w1'' (snd (the (sb_acquire_owner ''alice'' ''d'' ''t1'' demo_opened))))))"

definition demo_warm :: "int \<Rightarrow> string option \<Rightarrow> warm_slot" where
  "demo_warm g tok = \<lparr>ws_slot = 0, ws_generation = g, ws_sandbox_id = Some ''warm'', ws_active_token = tok\<rparr>"

lemma demo_pool_eq:
  "demo_pool = (demo_state [(''d'', new_owner_record\<lparr>r_locked := True, r_generation := 1, r_active_token := Some ''t1''\<rparr>)] [])
     \<lparr>sb_warm_slots := [demo_warm 1 None]\<rparr>"
  by (simp add: demo_pool_def demo_opened_eq demo_state_def demo_warm_def sb_publish_warm_def sb_claim_warm_slot_def sb_acquire_owner_def
      sb_ensure_open_def claimed_warm_slot_def py_index_def warm_claim_current_def put_slot_def new_warm_slot_def new_owner_record_def
      Let_def)

theorem consume_warm_conserves_witness:
  "mset (tracked_ids (snd (sb_consume_warm demo_claim demo_pool))) = {#''warm''#}"
proof -
  have "claimed_record demo_claim demo_pool = Inr (new_owner_record\<lparr>r_locked := True, r_generation := 1, r_active_token := Some ''t1''\<rparr>)"
    by (simp add: claimed_record_Inr demo_pool_eq demo_state_def demo_claim_def owner_claim_current_def new_owner_record_def)
  moreover have "sb_consume_warm demo_claim demo_pool =
      (Inr (Some \<lparr>b_sandbox_id = ''warm'', b_generation = 1\<rparr>), snd (sb_consume_warm demo_claim demo_pool))"
    by (simp add: sb_consume_warm_def calculation)
       (simp add: demo_pool_eq demo_warm_def demo_claim_def new_owner_record_def commit_binding_def Let_def)
  ultimately have "mset (tracked_ids (snd (sb_consume_warm demo_claim demo_pool))) = mset (tracked_ids demo_pool)"
    using consume_warm_conserves [of demo_claim demo_pool _ _ "snd (sb_consume_warm demo_claim demo_pool)"]
    by (simp add: new_owner_record_def)
  then show ?thesis
    by (simp add: tracked_ids_def demo_pool_eq demo_state_def demo_warm_def new_owner_record_def List.map_filter_simps)
qed

text \<open>A warm Sandbox that turned out unusable is queued for cleanup in the step that takes it out of the pool: the set of
  identifiers the state accounts for does not change, and the slot is free again.\<close>

theorem discard_ready_conserves:
  assumes d: "sb_discard_ready_warm_slot c s = (Inr (), s')"
  shows "set (tracked_ids s') = set (tracked_ids s) \<and> rc_sandbox_id c \<in> set (dkeys (sb_cleanup s')) \<and>
    (\<exists>i < length (sb_warm_slots s'). ws_sandbox_id (sb_warm_slots s' ! i) = None \<and> ws_active_token (sb_warm_slots s' ! i) = None)"
proof -
  from d obtain i w where w: "claimed_warm_slot c s = Inr (i, w)" "ws_sandbox_id w = Some (rc_sandbox_id c)"
    and s': "s' = (put_slot i (w\<lparr>ws_sandbox_id := None, ws_active_token := None\<rparr>) s)
      \<lparr>sb_cleanup := dsetdefault (rc_sandbox_id c) new_cleanup_record (sb_cleanup s)\<rparr>"
    by (auto simp: sb_discard_ready_warm_slot_def check_Inr_iff Let_def put_slot_def split: if_splits prod.splits)
  note i = claimed_warm_slot_Inr [OF w(1)]
  let ?ws = "(sb_warm_slots s)[i := w\<lparr>ws_sandbox_id := None, ws_active_token := None\<rparr>]"
  have "mset (List.map_filter ws_sandbox_id (sb_warm_slots s)) = add_mset (rc_sandbox_id c) (mset (List.map_filter ws_sandbox_id ?ws))"
    by (rule map_filter_update) (use i w in auto)
  then have ws: "set (List.map_filter ws_sandbox_id (sb_warm_slots s)) = insert (rc_sandbox_id c) (set (List.map_filter ws_sandbox_id ?ws))"
    by (metis set_mset_add_mset_insert set_mset_mset)
  have k: "set (dkeys (dsetdefault k v q)) = insert k (set (dkeys q))" for k :: string and v :: cleanup_record and q
    by (auto simp: dsetdefault_def dom_map_of_conv_image_fst [symmetric] dict_simps split: option.split)
  show ?thesis using ws k i(3) by (auto simp: tracked_ids_def s' put_slot_def intro!: exI [of _ i])
qed

definition demo_ready_claim :: ready_warm_claim where
  "demo_ready_claim = \<lparr>wc_slot = 0, wc_token = ''w2'', wc_generation = 2, rc_sandbox_id = ''warm''\<rparr>"

definition demo_ready :: sandbox_state where
  "demo_ready = snd (sb_claim_ready_warm_slot [] ''w2'' demo_pool)"

lemma demo_ready_eq: "demo_ready = demo_pool\<lparr>sb_warm_slots := [demo_warm 2 (Some ''w2'')]\<rparr>"
  by (simp add: demo_ready_def demo_pool_eq demo_state_def demo_warm_def sb_claim_ready_warm_slot_def sb_ensure_open_def put_slot_def
      Let_def)

theorem discard_ready_conserves_witness:
  "set (tracked_ids (snd (sb_discard_ready_warm_slot demo_ready_claim demo_ready))) = {''warm''}"
proof -
  have "sb_discard_ready_warm_slot demo_ready_claim demo_ready =
      (Inr (), snd (sb_discard_ready_warm_slot demo_ready_claim demo_ready))"
    by (simp add: demo_ready_eq demo_ready_claim_def demo_pool_eq demo_state_def demo_warm_def sb_discard_ready_warm_slot_def
        claimed_warm_slot_def sb_ensure_open_def py_index_def warm_claim_current_def Let_def)
  from discard_ready_conserves [OF this]
  have "set (tracked_ids (snd (sb_discard_ready_warm_slot demo_ready_claim demo_ready))) = set (tracked_ids demo_ready)" by simp
  also have "\<dots> = {''warm''}"
    by (simp add: tracked_ids_def demo_ready_eq demo_pool_eq demo_state_def demo_warm_def new_owner_record_def List.map_filter_simps)
  finally show ?thesis .
qed

text \<open>Shutdown sees every Sandbox the state is responsible for, exactly once and in order: those bound to an
  owner, those waiting in the pool and those queued for cleanup, and no others.\<close>

theorem shutdown_ids_complete:
  assumes "sb_step\<^sup>*\<^sup>* init_sandbox_state s" "sb_shutdown_sandbox_ids s = (Inr ids, s')"
  shows "sorted ids \<and> distinct ids \<and> s' = s \<and>
    (x \<in> set ids \<longleftrightarrow>
       (\<exists>d r b. dget (sb_records s) d = Some r \<and> r_binding r = Some b \<and> b_sandbox_id b = x) \<or>
       (\<exists>w \<in> set (sb_warm_slots s). ws_sandbox_id w = Some x) \<or> (\<exists>q. dget (sb_cleanup s) x = Some q))"
proof -
  have wf: "dwf (sb_records s)" using ow.reachable_inv [OF refl assms(1)] by (simp add: sb_inv_def)
  have ids: "ids = sort (remdups (tracked_ids s))" "s' = s"
    using assms(2) by (auto simp: sb_shutdown_sandbox_ids_def check_Inr_iff)
  have "x \<in> set (dkeys (sb_cleanup s)) \<longleftrightarrow> (\<exists>q. dget (sb_cleanup s) x = Some q)"
    using dget_None_iff [of "sb_cleanup s" x] by auto
  moreover have "(\<exists>r \<in> set (dvalues (sb_records s)). map_option b_sandbox_id (r_binding r) = Some x) \<longleftrightarrow>
      (\<exists>d r b. dget (sb_records s) d = Some r \<and> r_binding r = Some b \<and> b_sandbox_id b = x)"
    using dvalues_dget [OF wf] by (fastforce simp del: set_map)
  ultimately show ?thesis by (simp add: ids tracked_ids_def set_map_filter del: set_map)
qed

theorem shutdown_ids_complete_witness:
  "\<exists>ids. sb_shutdown_sandbox_ids demo_bound = (Inr ids, demo_bound) \<and> ''box'' \<in> set ids"
proof -
  have i: "sb_shutdown_sandbox_ids demo_bound = (Inr (sort (remdups (tracked_ids demo_bound))), demo_bound)"
    by (simp add: sb_shutdown_sandbox_ids_def sb_ensure_open_def demo_bound_eq demo_state_def)
  from shutdown_ids_complete [OF demo_reach(2) this, of "''box''"] i show ?thesis
    by (simp add: demo_bound_eq demo_state_def demo_record_def)
qed

lemma py_index_length: "length xs = length ys \<Longrightarrow> py_index xs i = py_index ys i"
  by (simp add: py_index_def)

text \<open>Warm-slot claims are fenced like owner claims: a claim on a slot that is not current any more, because it was
  released, filled or taken over, is never accepted again, whatever happens to the pool later.\<close>

theorem lost_warm_claim_never_returns:
  assumes reach: "sb_step\<^sup>*\<^sup>* init_sandbox_state s" and i: "py_index (sb_warm_slots s) (wc_slot c) = Some i"
    and stale: "\<not> warm_claim_current c (sb_warm_slots s ! i)" "wc_generation c \<le> ws_generation (sb_warm_slots s ! i)"
    and run: "sb_step\<^sup>*\<^sup>* s s'"
  shows "\<nexists>q. claimed_warm_slot (c :: warm_claim) s' = Inr q"
proof -
  note s = ow.reachable_inv [OF refl reach]
  have "sb_started s" using s py_index_Some [OF i] by (auto simp: sb_inv_def slots_ok_def)
  then have p: "list_all2 slot_progress (sb_warm_slots s) (sb_warm_slots s')"
    using sb_run_evolves [OF run s] by (simp add: sb_evolves_def slots_progress_def)
  have i': "py_index (sb_warm_slots s') (wc_slot c) = Some i"
    using i py_index_length [OF list_all2_lengthD [OF p]] by simp
  have "slot_progress (sb_warm_slots s ! i) (sb_warm_slots s' ! i)"
    using p py_index_Some [OF i] by (simp add: list_all2_conv_all_nth)
  then have "\<not> warm_claim_current c (sb_warm_slots s' ! i)"
    using stale by (auto simp: warm_claim_current_def slot_progress_def)
  then show ?thesis using claimed_warm_slot_Inr [of c s'] i' by fastforce
qed

theorem lost_warm_claim_never_returns_witness:
  "\<nexists>q. claimed_warm_slot \<lparr>wc_slot = 0, wc_token = ''w'', wc_generation = 0\<rparr> demo_pausing = Inr q"
  using lost_warm_claim_never_returns [OF demo_reach(2) _ _ _ rtranclp_trans [OF demo_runs(3,4)],
      of "\<lparr>wc_slot = 0, wc_token = ''w'', wc_generation = 0\<rparr>" 0]
  by (simp add: demo_bound_eq demo_state_def py_index_def warm_claim_current_def new_warm_slot_def)

section \<open>Rebinding under one claim\<close>

text \<open>A manager binds a Sandbox, drains it, binds another one and then the first one again without giving up its
  claim. All bindings carry the generation of the claim, so the first holder's acknowledgement is still
  on file for the new binding.\<close>

definition rebound :: sandbox_state where
  "rebound = snd (sb_change_availability demo_claim (demo_availability 0 PhRunning) PhDraining False
     (snd (sb_bind_owner demo_claim ''box'' (snd (sb_bind_owner demo_claim ''other'' demo_drained)))))"

text \<open>an acknowledgement survives rebinding under one claim. After the Sandbox was replaced and bound again, a fresh drain of
  the new binding needs no acknowledgement from the old holder: pausing is accepted at once on the evidence given
  for the earlier binding.\<close>

theorem old_acknowledgement_counts_after_rebinding:
  "sb_step\<^sup>*\<^sup>* demo_drained rebound \<and> dget (sb_holders rebound) (''h'', ''d'') = Some demo_holder \<and>
   fst (sb_change_availability demo_claim (demo_availability 1 PhDraining) PhPausing False rebound) =
     Inr (demo_availability 2 PhPausing)"
proof -
  have "sb_step\<^sup>*\<^sup>* demo_drained rebound"
    unfolding rebound_def by (rule rtranclp.rtrancl_into_rtrancl [OF two_steps [OF StBind StBind] StChange])
  moreover have eq: "rebound = demo_drained"
    by (simp add: rebound_def demo_drained_eq demo_state_def demo_claim_def demo_record_def demo_availability_def demo_holder_def
        sb_bind_owner_def commit_binding_def claimed_record_def sb_ensure_open_def owner_claim_current_def put_record_def
        sb_change_availability_def expected_availability_def next_availability_def Let_def)
  ultimately show ?thesis
    unfolding eq by (simp add: demo_drained_eq demo_state_def demo_claim_def demo_record_def demo_availability_def demo_holder_def
        sb_change_availability_def expected_availability_def claimed_record_def sb_ensure_open_def all_holders_idle_def
        owner_claim_current_def next_availability_def put_record_def holder_matches_def)
qed

end
