(* ===== verification/Messaging_Base.thy ===== *)
theory Messaging_Base
  imports Prelude "HOL-Library.Word"
begin

text \<open>
  The vocabulary of the Messaging package: failures (\<open>errors.py\<close>), identities and their
  validation (\<open>_identity.py\<close>), limits and retention (\<open>limits.py\<close>, \<open>retention.py\<close>), committed
  messages (\<open>models.py\<close>), the storage contract (\<open>backend_contract.py\<close>) and the canonical bytes
  that identify a message commit. A Python exception carried as a value is its qualified
  class name and text. Bytes are 8-bit words; text is encoded to UTF-8 as Python does for the
  code points below 256. SHA-256 is a parameter.
\<close>

declare map_of_eq_Some_iff [simp del] Some_eq_map_of_iff [simp del] split_paired_All [simp del] split_paired_Ex [simp del]

section \<open>Failures\<close>

record run_identity =
  i_namespace :: string
  i_thread_id :: string
  i_run_id :: string

record failure =
  f_class :: string
  f_message :: string

datatype messaging_error =
    InvalidCursor int int
  | CodecMismatch string string
  | PublicationRejected run_identity string
  | MessageIdConflict run_identity string
  | MessagingQuotaExceeded string int
  | RunAlreadyActive run_identity run_identity
  | RunNotFound run_identity
  | RunProducerFailed run_identity failure
  | CancellationUnsupported run_identity
  | BackendOwnershipLost string
  | StreamDeleted string run_identity int
  | StreamExpired string run_identity int
  | StreamDeleteConflict string run_identity run_identity
  | MessagingBackendProtocolError string
  | MsgTypeError string
  | MsgValueError string
  | MsgRuntimeError string
  | MsgKeyError string

section \<open>Identities\<close>

definition required_canonical_text :: "string \<Rightarrow> string \<Rightarrow> messaging_error + unit" where
  "required_canonical_text nm value =
     require (py_strip value \<noteq> [] \<and> value = py_strip value)
       (MsgValueError (nm @ '' must be non-blank without surrounding whitespace''))"

definition required_identifier :: "string \<Rightarrow> string \<Rightarrow> messaging_error + string" where
  "required_identifier nm value =
     bindE (required_canonical_text nm value) (\<lambda>_.
     bindE (require (length value \<le> 1024) (MsgValueError (nm @ '' must contain at most 1024 characters''))) (\<lambda>_.
     Inr value))"

definition required_identity :: "run_identity \<Rightarrow> messaging_error + unit" where
  "required_identity identity =
     bindE (required_identifier ''identity.thread_id'' (i_thread_id identity)) (\<lambda>_.
     bindE (required_identifier ''identity.run_id'' (i_run_id identity)) (\<lambda>_. Inr ()))"

definition required_text :: "string \<Rightarrow> string option \<Rightarrow> messaging_error + string" where
  "required_text nm value =
     (case value of None \<Rightarrow> Inl (MsgTypeError (nm @ '' must be a string'')) | Some v \<Rightarrow> required_identifier nm v)"

section \<open>Limits and retention\<close>

record messaging_limits =
  max_message_payload_bytes :: int
  max_checkpoint_bytes :: int
  max_thread_messages :: int
  max_thread_payload_bytes :: int
  max_total_bytes :: int
  max_total_records :: int

definition mk_messaging_limits :: "messaging_limits \<Rightarrow> messaging_error + messaging_limits" where
  "mk_messaging_limits l =
     (case find (\<lambda>(nm, value). value \<le> 0)
        [(''max_message_payload_bytes'', max_message_payload_bytes l), (''max_checkpoint_bytes'', max_checkpoint_bytes l),
         (''max_thread_messages'', max_thread_messages l), (''max_thread_payload_bytes'', max_thread_payload_bytes l),
         (''max_total_bytes'', max_total_bytes l), (''max_total_records'', max_total_records l)] of
        Some (nm, value) \<Rightarrow> Inl (MsgValueError (nm @ '' must be greater than zero''))
      | None \<Rightarrow>
          if max_thread_payload_bytes l < max_message_payload_bytes l
          then Inl (MsgValueError ''max_thread_payload_bytes must not be smaller than max_message_payload_bytes'')
          else Inr l)"

definition default_messaging_limits :: messaging_limits where
  "default_messaging_limits =
     \<lparr>max_message_payload_bytes = 16 * 1024 * 1024, max_checkpoint_bytes = 1024 * 1024, max_thread_messages = 100000,
      max_thread_payload_bytes = 1024 * 1024 * 1024, max_total_bytes = 1024 * 1024 * 1024, max_total_records = 100000\<rparr>"

record retention_policy =
  terminal_ttl :: "duration option"

definition mk_retention_policy :: "duration option \<Rightarrow> messaging_error + retention_policy" where
  "mk_retention_policy ttl =
     (case ttl of
        None \<Rightarrow> Inr \<lparr>terminal_ttl = None\<rparr>
      | Some value \<Rightarrow>
          if value \<le> 0 then Inl (MsgValueError ''terminal_ttl_seconds must be finite and positive'')
          else Inr \<lparr>terminal_ttl = Some value\<rparr>)"

record backend_settings =
  bs_limits :: messaging_limits
  bs_retention_policy :: retention_policy
  bs_producer_renew_interval :: "duration option"
  bs_producer_lease :: "duration option"
  bs_change_wait_timeout :: "duration option"

definition mk_backend_settings :: "backend_settings \<Rightarrow> messaging_error + backend_settings" where
  "mk_backend_settings b =
     (if \<exists>w \<in> set_option (bs_change_wait_timeout b). w \<le> 0
      then Inl (MsgValueError ''change_wait_timeout_seconds must be finite and positive'')
      else case (bs_producer_renew_interval b, bs_producer_lease b) of
        (None, None) \<Rightarrow> Inr b
      | (Some renew, Some lease) \<Rightarrow>
          if renew \<le> 0 then Inl (MsgValueError ''producer_renew_interval_seconds must be finite and positive'')
          else if lease \<le> 0 then Inl (MsgValueError ''producer_lease_seconds must be finite and positive'')
          else if lease \<le> renew
          then Inl (MsgValueError ''producer_renew_interval_seconds must be shorter than producer_lease_seconds'')
          else Inr b
      | _ \<Rightarrow> Inl (MsgValueError ''producer renewal and lease durations must both be set or disabled''))"

section \<open>Messages\<close>

type_synonym bytes = "8 word list"

definition utf8_char :: "char \<Rightarrow> bytes" where
  "utf8_char c =
     (let n = (of_char c :: nat)
      in if n < 128 then [of_nat n] else [of_nat (192 + n div 64), of_nat (128 + n mod 64)])"

definition encode :: "string \<Rightarrow> bytes" where
  "encode s = concat (map utf8_char s)"

record recovery_checkpoint =
  cp_position :: bytes
  cp_last_message_id :: "string option"

definition mk_recovery_checkpoint :: "bytes \<Rightarrow> string option \<Rightarrow> messaging_error + recovery_checkpoint" where
  "mk_recovery_checkpoint position last_id =
     (case last_id of
        None \<Rightarrow> Inr \<lparr>cp_position = position, cp_last_message_id = None\<rparr>
      | Some v \<Rightarrow>
          bindE (required_identifier ''last_message_id'' v) (\<lambda>_.
          Inr \<lparr>cp_position = position, cp_last_message_id = Some v\<rparr>))"

record message_envelope =
  e_channel :: string
  e_identity :: run_identity
  e_seq :: int
  e_message_id :: string
  e_codec :: string
  e_payload :: bytes
  e_created_at :: time

definition mk_message_envelope :: "message_envelope \<Rightarrow> messaging_error + message_envelope" where
  "mk_message_envelope e =
     bindE (required_identifier ''identifier'' (e_channel e)) (\<lambda>_.
     bindE (required_identity (e_identity e)) (\<lambda>_.
     bindE (require (1 \<le> e_seq e) (MsgValueError ''seq must be greater than or equal to 1'')) (\<lambda>_.
     bindE (required_identifier ''identifier'' (e_message_id e)) (\<lambda>_.
     bindE (required_identifier ''identifier'' (e_codec e)) (\<lambda>_. Inr e)))))"

section \<open>The identity of a commit\<close>

text \<open>\<open>len(value).to_bytes(8, "big")\<close>; a Python sequence is shorter than \<open>2 ^ 63\<close>.\<close>

definition be64 :: "nat \<Rightarrow> bytes" where
  "be64 n = map (\<lambda>i. of_nat (n div 256 ^ i)) [7, 6, 5, 4, 3, 2, 1, 0]"

definition framed :: "bytes \<Rightarrow> bytes" where
  "framed value = be64 (length value) @ value"

definition signature_values :: "string \<Rightarrow> string \<Rightarrow> bytes \<Rightarrow> recovery_checkpoint option \<Rightarrow> bytes list" where
  "signature_values run_id codec_id payload checkpoint =
     [encode run_id, encode codec_id, payload] @
     (case checkpoint of
        None \<Rightarrow> []
      | Some c \<Rightarrow> [cp_position c, encode (case cp_last_message_id c of None \<Rightarrow> [] | Some v \<Rightarrow> v)])"

definition signature_domain :: "string \<Rightarrow> string \<Rightarrow> bytes \<Rightarrow> recovery_checkpoint option \<Rightarrow> bytes" where
  "signature_domain run_id codec_id payload checkpoint =
     encode ''tinkerfin-messaging:redis-message'' @ [0] @
     concat (map framed (signature_values run_id codec_id payload checkpoint)) @
     encode (if checkpoint = None then ''0'' else ''1'')"

definition messaging_message_signature ::
  "(bytes \<Rightarrow> string) \<Rightarrow> run_identity \<Rightarrow> string \<Rightarrow> bytes \<Rightarrow> recovery_checkpoint option \<Rightarrow> messaging_error + string" where
  "messaging_message_signature sha256 identity codec_id payload checkpoint =
     bindE (required_identity identity) (\<lambda>_.
     bindE (required_identifier ''codec_id'' codec_id) (\<lambda>_.
     Inr (sha256 (signature_domain (i_run_id identity) codec_id payload checkpoint))))"

section \<open>The storage contract\<close>

datatype run_status = RsRunning | RsCancelRequested | RsCompleted | RsCancelled | RsFailed | RsOwnerLost

definition is_active_run_status :: "run_status \<Rightarrow> bool" where
  "is_active_run_status st \<longleftrightarrow> st \<in> {RsRunning, RsCancelRequested}"

definition is_final_run_status :: "run_status \<Rightarrow> bool" where
  "is_final_run_status st \<longleftrightarrow> st \<in> {RsCompleted, RsCancelled, RsFailed, RsOwnerLost}"

definition is_failed_run_status :: "run_status \<Rightarrow> bool" where
  "is_failed_run_status st \<longleftrightarrow> st \<in> {RsFailed, RsOwnerLost}"

datatype transition_kind =
    PrepareRun | AppendMessage | PublishMessage | BeginSettlement | FinishRun | RequestCancellation
  | RenewProducerOwnership | ReconcileProducerOwnership | BeginGenerationCleanup | FinishGenerationCleanup

datatype disposition = DpActive | DpDeleting | DpDeleted | DpExpiring | DpExpired
datatype cleanup_reason = CrDeleted | CrExpired
datatype lease_action = LaNone | LaAcquire | LaRenew | LaRelease
datatype retention_action = RaNone | RaClear | RaStart

record run_reference =
  rr_channel :: string
  rr_identity :: run_identity
  rr_generation :: int
  rr_producer_token :: "string option"
  rr_producer_fence :: "int option"

record stored_channel =
  sc_channel :: string
  sc_codec_id :: string
  sc_limits :: messaging_limits
  sc_retention_policy :: retention_policy

record stored_stream =
  st_channel :: string
  st_thread_id :: string
  st_generation :: int
  st_disposition :: disposition
  st_latest_sequence :: int
  st_payload_bytes :: int
  st_next_producer_fence :: int
  st_active_run_id :: "string option"
  st_retention_expired :: bool
  st_message_sequence :: int
  st_control_sequence :: int

record stored_run =
  sr_identity :: run_identity
  sr_generation :: int
  sr_start_sequence :: int
  sr_end_sequence :: int
  sr_status :: run_status
  sr_settlement_started :: bool
  sr_cancellable :: bool
  sr_recoverable :: bool
  sr_producer_token :: "string option"
  sr_producer_fence :: int
  sr_producer_lease_active :: bool
  sr_checkpoint :: "recovery_checkpoint option"
  sr_failure_class :: string
  sr_failure_message :: string
  sr_local_failure :: "failure option"
  sr_lease_remaining :: "duration option"
  sr_publication_closed :: bool
  sr_publication_ready :: bool

record message_evidence =
  me_envelope :: message_envelope
  me_signature :: string
  me_checkpoint :: "recovery_checkpoint option"

record state_snapshot =
  ss_observed_at :: time
  ss_channel :: "stored_channel option"
  ss_stream :: "stored_stream option"
  ss_target_run :: "stored_run option"
  ss_active_run :: "stored_run option"
  ss_matching_message :: "message_evidence option"
  ss_tombstone_generation :: "int option"
  ss_tombstone_reason :: "cleanup_reason option"

record messaging_transition =
  tr_kind :: transition_kind
  tr_transition_id :: string
  tr_channel :: string
  tr_identity :: run_identity
  tr_settings :: backend_settings
  tr_run_reference :: "run_reference option"
  tr_codec_id :: "string option"
  tr_after_sequence :: "int option"
  tr_cancellable :: bool
  tr_recoverable :: bool
  tr_message_id :: "string option"
  tr_payload :: "bytes option"
  tr_checkpoint :: "recovery_checkpoint option"
  tr_closes_publication :: bool
  tr_opens_publication :: bool
  tr_final_status :: "run_status option"
  tr_failure :: "failure option"
  tr_cleanup_generation :: "int option"
  tr_cleanup_reason :: "cleanup_reason option"
  tr_cleanup_token :: "string option"

record transition_result =
  re_kind :: transition_kind
  re_run_reference :: "run_reference option"
  re_after_sequence :: "int option"
  re_is_producer_owner :: "bool option"
  re_checkpoint :: "recovery_checkpoint option"
  re_recovered :: bool
  re_envelope :: "message_envelope option"
  re_cancellation_requested :: "bool option"
  re_cancellation_preceded :: "bool option"
  re_ownership_confirmed :: "bool option"
  re_run_status :: "run_status option"
  re_cleanup_generation :: "int option"
  re_cleanup_reason :: "cleanup_reason option"
  re_cleanup_token :: "string option"
  re_cleanup_required :: bool

record storage_effect =
  ef_result :: transition_result
  ef_channel :: "stored_channel option"
  ef_stream :: "stored_stream option"
  ef_runs :: "stored_run list"
  ef_message :: "message_evidence option"
  ef_lease_action :: lease_action
  ef_lease_run_id :: "string option"
  ef_retention_action :: retention_action
  ef_tombstone_reason :: "cleanup_reason option"

text \<open>The defaults of the three dataclasses.\<close>

definition default_transition :: "transition_kind \<Rightarrow> string \<Rightarrow> string \<Rightarrow> run_identity \<Rightarrow> backend_settings \<Rightarrow> messaging_transition" where
  "default_transition kind transition_id channel identity settings =
     \<lparr>tr_kind = kind, tr_transition_id = transition_id, tr_channel = channel, tr_identity = identity, tr_settings = settings,
      tr_run_reference = None, tr_codec_id = None, tr_after_sequence = None, tr_cancellable = False, tr_recoverable = False,
      tr_message_id = None, tr_payload = None, tr_checkpoint = None, tr_closes_publication = False,
      tr_opens_publication = True, tr_final_status = None, tr_failure = None, tr_cleanup_generation = None,
      tr_cleanup_reason = None, tr_cleanup_token = None\<rparr>"

definition default_result :: "transition_kind \<Rightarrow> transition_result" where
  "default_result kind =
     \<lparr>re_kind = kind, re_run_reference = None, re_after_sequence = None, re_is_producer_owner = None,
      re_checkpoint = None, re_recovered = False, re_envelope = None, re_cancellation_requested = None,
      re_cancellation_preceded = None, re_ownership_confirmed = None, re_run_status = None,
      re_cleanup_generation = None, re_cleanup_reason = None, re_cleanup_token = None, re_cleanup_required = False\<rparr>"

definition effect_of :: "transition_result \<Rightarrow> storage_effect" where
  "effect_of r =
     \<lparr>ef_result = r, ef_channel = None, ef_stream = None, ef_runs = [], ef_message = None, ef_lease_action = LaNone,
      ef_lease_run_id = None, ef_retention_action = RaNone, ef_tombstone_reason = None\<rparr>"

end
