(* ===== verification/Messaging_Transition.thy ===== *)
theory Messaging_Transition
  imports Messaging_Base
begin

text \<open>
  \<open>_messaging_transition.py\<close>: the pure resolution of a lifecycle transition against a consistent
  snapshot. Every function returns the storage effect or the failure it raises; the order of the
  guards is the order of the code.
\<close>

section \<open>Shared pieces\<close>

definition validate_transition_identity :: "messaging_transition \<Rightarrow> messaging_error + unit" where
  "validate_transition_identity t =
     bindE (required_identifier ''transition_id'' (tr_transition_id t)) (\<lambda>_.
     bindE (required_identifier ''channel'' (tr_channel t)) (\<lambda>_.
     required_identity (tr_identity t)))"

definition raise_unavailable_stream :: "messaging_transition \<Rightarrow> stored_stream \<Rightarrow> messaging_error" where
  "raise_unavailable_stream t stream =
     (if st_disposition stream \<in> {DpExpired, DpExpiring}
      then StreamExpired (tr_channel t) (tr_identity t) (st_generation stream)
      else StreamDeleted (tr_channel t) (tr_identity t) (st_generation stream))"

definition raise_reference_tombstone ::
  "messaging_transition \<Rightarrow> state_snapshot \<Rightarrow> int option \<Rightarrow> messaging_error + unit" where
  "raise_reference_tombstone t s generation =
     (case ss_tombstone_generation s of
        None \<Rightarrow> Inr ()
      | Some tombstone \<Rightarrow>
          if generation \<noteq> None \<and> generation \<noteq> Some tombstone then Inr ()
          else case ss_tombstone_reason s of
                 Some CrExpired \<Rightarrow> Inl (StreamExpired (tr_channel t) (tr_identity t) tombstone)
               | Some CrDeleted \<Rightarrow> Inl (StreamDeleted (tr_channel t) (tr_identity t) tombstone)
               | None \<Rightarrow> Inr ())"

definition required_target_run :: "messaging_transition \<Rightarrow> state_snapshot \<Rightarrow> messaging_error + stored_run" where
  "required_target_run t s =
     (case ss_target_run s of
        None \<Rightarrow>
          bindE (raise_reference_tombstone t s (map_option rr_generation (tr_run_reference t))) (\<lambda>_.
          Inl (RunNotFound (tr_identity t)))
      | Some run \<Rightarrow> Inr run)"

definition required_stream :: "messaging_transition \<Rightarrow> state_snapshot \<Rightarrow> messaging_error + stored_stream" where
  "required_stream t s =
     (case ss_stream s of
        None \<Rightarrow>
          bindE (raise_reference_tombstone t s (map_option rr_generation (tr_run_reference t))) (\<lambda>_.
          Inl (RunNotFound (tr_identity t)))
      | Some stream \<Rightarrow>
          if st_disposition stream \<noteq> DpActive then Inl (raise_unavailable_stream t stream) else Inr stream)"

definition required_reference :: "messaging_transition \<Rightarrow> messaging_error + run_reference" where
  "required_reference t =
     (case tr_run_reference t of
        None \<Rightarrow> Inl (MsgTypeError ''run_reference must be a MessagingRunReference'')
      | Some reference \<Rightarrow>
          if rr_channel reference \<noteq> tr_channel t \<or> rr_identity reference \<noteq> tr_identity t
          then Inl (MsgValueError ''run_reference conflicts with the transition identity'')
          else if rr_producer_token reference = None \<or> rr_producer_fence reference = None
          then Inl (BackendOwnershipLost ''Run has no producer ownership evidence'')
          else Inr reference)"

definition reference_matches_run :: "run_reference \<Rightarrow> stored_run \<Rightarrow> bool" where
  "reference_matches_run reference run \<longleftrightarrow>
     sr_generation run = rr_generation reference \<and> sr_identity run = rr_identity reference \<and>
     sr_producer_token run = rr_producer_token reference \<and> Some (sr_producer_fence run) = rr_producer_fence reference"

definition owned_run ::
  "messaging_transition \<Rightarrow> state_snapshot \<Rightarrow> messaging_error + (stored_run \<times> stored_stream \<times> run_reference)" where
  "owned_run t s =
     bindE (required_reference t) (\<lambda>reference.
     bindE (required_target_run t s) (\<lambda>run.
     bindE (required_stream t s) (\<lambda>stream.
     if st_generation stream \<noteq> rr_generation reference
     then bindE (raise_reference_tombstone t s (Some (rr_generation reference))) (\<lambda>_.
            Inl (BackendOwnershipLost ''Producer lost its generation''))
     else if \<not> reference_matches_run reference run \<or> \<not> sr_producer_lease_active run
     then Inl (BackendOwnershipLost ''Producer lost its ownership fence'')
     else if is_final_run_status (sr_status run)
     then Inl (BackendOwnershipLost ''Producer is already terminal'')
     else Inr (run, stream, reference))))"

definition owner_lost_run :: "stored_run \<Rightarrow> int \<Rightarrow> string \<Rightarrow> stored_run" where
  "owner_lost_run run end_sequence message =
     run\<lparr>sr_end_sequence := end_sequence, sr_status := RsOwnerLost, sr_settlement_started := True,
         sr_producer_token := None, sr_producer_lease_active := False,
         sr_failure_class := ''tinkerfin_messaging.OwnerLost'', sr_failure_message := message,
         sr_local_failure := Some \<lparr>f_class = ''builtins.RuntimeError'', f_message = message\<rparr>\<rparr>"

definition failure_evidence :: "failure option \<Rightarrow> string \<times> string" where
  "failure_evidence error = (case error of None \<Rightarrow> ([], []) | Some f \<Rightarrow> (f_class f, f_message f))"

definition attachment_result :: "messaging_transition \<Rightarrow> stored_stream \<Rightarrow> int \<Rightarrow> transition_result" where
  "attachment_result t stream cursor =
     (default_result (tr_kind t))\<lparr>
       re_run_reference := Some \<lparr>rr_channel = tr_channel t, rr_identity = tr_identity t,
         rr_generation = st_generation stream, rr_producer_token = None, rr_producer_fence = None\<rparr>,
       re_after_sequence := Some cursor, re_is_producer_owner := Some False\<rparr>"

definition prepared_attachment ::
  "messaging_transition \<Rightarrow> stored_stream \<Rightarrow> int \<Rightarrow> stored_channel option \<Rightarrow> storage_effect" where
  "prepared_attachment t stream cursor channel_effect =
     (effect_of (attachment_result t stream cursor))\<lparr>ef_channel := channel_effect\<rparr>"

section \<open>Preparing a run\<close>

definition prepare_channel ::
  "messaging_transition \<Rightarrow> string \<Rightarrow> stored_channel option \<Rightarrow> messaging_error + stored_channel option" where
  "prepare_channel t codec_id stored =
     (case stored of
        None \<Rightarrow> Inr (Some \<lparr>sc_channel = tr_channel t, sc_codec_id = codec_id, sc_limits = bs_limits (tr_settings t),
                    sc_retention_policy = bs_retention_policy (tr_settings t)\<rparr>)
      | Some c \<Rightarrow>
          if sc_codec_id c \<noteq> codec_id then Inl (CodecMismatch (sc_codec_id c) codec_id)
          else if sc_limits c \<noteq> bs_limits (tr_settings t)
          then Inl (MessagingBackendProtocolError ''Messaging channel uses different capacity limits'')
          else if sc_retention_policy c \<noteq> bs_retention_policy (tr_settings t)
          then Inl (MessagingBackendProtocolError ''Messaging channel uses a different retention policy'')
          else Inr None)"

definition disposition_reason :: "disposition \<Rightarrow> cleanup_reason option" where
  "disposition_reason d = (case d of DpDeleted \<Rightarrow> Some CrDeleted | DpExpired \<Rightarrow> Some CrExpired | _ \<Rightarrow> None)"

definition new_generation :: "messaging_transition \<Rightarrow> state_snapshot \<Rightarrow> messaging_error + stored_stream" where
  "new_generation t s =
     (let previous = (case ss_tombstone_generation s of
                        Some g \<Rightarrow> Some g | None \<Rightarrow> map_option st_generation (ss_stream s));
          reason = (case ss_tombstone_reason s of
                      Some r \<Rightarrow> Some r | None \<Rightarrow> Option.bind (ss_stream s) (\<lambda>stream. disposition_reason (st_disposition stream)))
      in if reason = Some CrExpired \<and> tr_after_sequence t \<notin> {None, Some 0}
         then Inl (StreamExpired (tr_channel t) (tr_identity t)
                (case previous of None \<Rightarrow> 1 | Some g \<Rightarrow> if g = 0 then 1 else g))
         else Inr \<lparr>st_channel = tr_channel t, st_thread_id = i_thread_id (tr_identity t),
                st_generation = (case previous of None \<Rightarrow> 1 | Some g \<Rightarrow> g + 1), st_disposition = DpActive,
                st_latest_sequence = 0, st_payload_bytes = 0, st_next_producer_fence = 1, st_active_run_id = None,
                st_retention_expired = False, st_message_sequence = 0, st_control_sequence = 0\<rparr>)"

definition prepare_stream :: "messaging_transition \<Rightarrow> state_snapshot \<Rightarrow> messaging_error + stored_stream" where
  "prepare_stream t s =
     (case ss_stream s of
        None \<Rightarrow> new_generation t s
      | Some stream \<Rightarrow>
          if st_disposition stream \<in> {DpDeleting, DpExpiring} then Inl (raise_unavailable_stream t stream)
          else if st_disposition stream \<in> {DpDeleted, DpExpired} then new_generation t s
          else Inr stream)"

definition prepare_cursor :: "messaging_transition \<Rightarrow> stored_stream \<Rightarrow> messaging_error + int" where
  "prepare_cursor t stream =
     (let latest = st_latest_sequence stream;
          cursor = (case tr_after_sequence t of None \<Rightarrow> latest | Some n \<Rightarrow> n)
      in if cursor < 0 \<or> latest < cursor then Inl (InvalidCursor cursor latest) else Inr cursor)"

definition owner_reference :: "messaging_transition \<Rightarrow> stored_stream \<Rightarrow> run_reference" where
  "owner_reference t stream =
     \<lparr>rr_channel = tr_channel t, rr_identity = tr_identity t, rr_generation = st_generation stream,
      rr_producer_token = Some (tr_transition_id t), rr_producer_fence = Some (st_next_producer_fence stream)\<rparr>"

text \<open>The effect of finding that the named run has lost its producer.\<close>

definition detached_effect ::
  "messaging_transition \<Rightarrow> stored_stream \<Rightarrow> int \<Rightarrow> stored_channel option \<Rightarrow> stored_run \<Rightarrow> string \<Rightarrow> string \<Rightarrow> storage_effect" where
  "detached_effect t stream cursor channel_effect run message lease_run_id =
     (effect_of (attachment_result t stream cursor))\<lparr>ef_channel := channel_effect,
       ef_stream := Some (stream\<lparr>st_active_run_id := None, st_control_sequence := st_control_sequence stream + 1\<rparr>),
       ef_runs := [owner_lost_run run (st_latest_sequence stream) message], ef_lease_action := LaRelease,
       ef_lease_run_id := Some lease_run_id, ef_retention_action := RaStart\<rparr>"

definition recovered_effect ::
  "messaging_transition \<Rightarrow> stored_stream \<Rightarrow> int \<Rightarrow> stored_channel option \<Rightarrow> stored_run \<Rightarrow> storage_effect" where
  "recovered_effect t stream cursor channel_effect run =
     (let fence = st_next_producer_fence stream;
          recovered = run\<lparr>sr_status := (if sr_status run = RsCancelRequested then RsCancelRequested else RsRunning),
            sr_settlement_started := False, sr_cancellable := tr_cancellable t,
            sr_producer_token := Some (tr_transition_id t), sr_producer_fence := fence, sr_producer_lease_active := True,
            sr_failure_class := [], sr_failure_message := [], sr_local_failure := None\<rparr>
      in (effect_of ((default_result (tr_kind t))\<lparr>re_run_reference := Some (owner_reference t stream),
            re_after_sequence := Some cursor, re_is_producer_owner := Some True, re_checkpoint := sr_checkpoint run,
            re_recovered := True, re_run_status := Some (sr_status recovered)\<rparr>))\<lparr>ef_channel := channel_effect,
          ef_stream := Some (stream\<lparr>st_next_producer_fence := fence + 1, st_active_run_id := Some (i_run_id (tr_identity t)),
            st_retention_expired := False, st_control_sequence := st_control_sequence stream + 1\<rparr>),
          ef_runs := [recovered], ef_lease_action := LaAcquire, ef_lease_run_id := Some (i_run_id (tr_identity t)),
          ef_retention_action := RaClear\<rparr>)"

definition created_run :: "messaging_transition \<Rightarrow> stored_stream \<Rightarrow> stored_run" where
  "created_run t stream =
     \<lparr>sr_identity = tr_identity t, sr_generation = st_generation stream, sr_start_sequence = st_latest_sequence stream,
      sr_end_sequence = st_latest_sequence stream, sr_status = RsRunning, sr_settlement_started = False,
      sr_cancellable = tr_cancellable t, sr_recoverable = tr_recoverable t, sr_producer_token = Some (tr_transition_id t),
      sr_producer_fence = st_next_producer_fence stream, sr_producer_lease_active = True, sr_checkpoint = None,
      sr_failure_class = [], sr_failure_message = [], sr_local_failure = None, sr_lease_remaining = None,
      sr_publication_closed = False, sr_publication_ready = False\<rparr>"

definition created_effect ::
  "messaging_transition \<Rightarrow> stored_stream \<Rightarrow> int \<Rightarrow> stored_channel option \<Rightarrow> stored_run option \<Rightarrow> storage_effect" where
  "created_effect t stream cursor channel_effect active =
     (effect_of ((default_result (tr_kind t))\<lparr>re_run_reference := Some (owner_reference t stream),
        re_after_sequence := Some cursor, re_is_producer_owner := Some True, re_run_status := Some RsRunning\<rparr>))
     \<lparr>ef_channel := channel_effect,
      ef_stream := Some (stream\<lparr>st_next_producer_fence := st_next_producer_fence stream + 1,
        st_active_run_id := Some (i_run_id (tr_identity t)), st_retention_expired := False,
        st_control_sequence := st_control_sequence stream + (if active \<noteq> None then 1 else 0)\<rparr>),
      ef_runs := (case active of
                    None \<Rightarrow> []
                  | Some run \<Rightarrow> [owner_lost_run run (st_latest_sequence stream) ''producer lease expired'']) @
                 [created_run t stream],
      ef_lease_action := LaAcquire, ef_lease_run_id := Some (i_run_id (tr_identity t)), ef_retention_action := RaClear\<rparr>"

definition resolve_prepare_run :: "messaging_transition \<Rightarrow> state_snapshot \<Rightarrow> messaging_error + storage_effect" where
  "resolve_prepare_run t s =
     bindE (required_text ''codec_id'' (tr_codec_id t)) (\<lambda>codec_id.
     bindE (prepare_channel t codec_id (ss_channel s)) (\<lambda>channel_effect.
     bindE (prepare_stream t s) (\<lambda>stream.
     bindE (prepare_cursor t stream) (\<lambda>cursor.
     case ss_target_run s of
       Some run \<Rightarrow>
         if sr_generation run \<noteq> st_generation stream
         then Inl (MessagingBackendProtocolError ''Messaging run generation conflicts with its stream'')
         else if is_final_run_status (sr_status run) \<or> sr_producer_lease_active run
         then Inr (prepared_attachment t stream cursor channel_effect)
         else if sr_status run = RsCancelRequested \<and> sr_settlement_started run
         then Inr (detached_effect t stream cursor channel_effect run
                ''producer lease expired during cancellation settlement'' (i_run_id (sr_identity run)))
         else if sr_recoverable run \<and> tr_recoverable t
         then Inr (recovered_effect t stream cursor channel_effect run)
         else Inr (detached_effect t stream cursor channel_effect run ''producer lease expired'' (i_run_id (tr_identity t)))
     | None \<Rightarrow>
         (case ss_active_run s of
            Some active \<Rightarrow>
              if sr_producer_lease_active active then Inl (RunAlreadyActive (sr_identity active) (tr_identity t))
              else Inr (created_effect t stream cursor channel_effect (Some active))
          | None \<Rightarrow> Inr (created_effect t stream cursor channel_effect None))))))"

section \<open>Appending a message\<close>

definition publication_target ::
  "messaging_transition \<Rightarrow> state_snapshot \<Rightarrow> messaging_error + (stored_run \<times> stored_stream \<times> run_reference option)" where
  "publication_target t s =
     (if tr_kind t = PublishMessage then
        bindE (required_target_run t s) (\<lambda>run.
        bindE (required_stream t s) (\<lambda>stream.
        if tr_run_reference t = None \<or> map_option rr_generation (tr_run_reference t) \<noteq> Some (st_generation stream)
        then Inl (PublicationRejected (tr_identity t) ''generation_changed'')
        else if tr_checkpoint t \<noteq> None \<or> tr_closes_publication t
        then Inl (MsgValueError ''External publication cannot change source recovery or lifecycle'')
        else Inr (run, stream, tr_run_reference t)))
      else bindE (owned_run t s) (\<lambda>(run, stream, reference). Inr (run, stream, Some reference)))"

definition check_message_size :: "messaging_limits \<Rightarrow> bytes \<Rightarrow> recovery_checkpoint option \<Rightarrow> messaging_error + unit" where
  "check_message_size limits payload checkpoint =
     (if max_message_payload_bytes limits < int (length payload)
      then Inl (MessagingQuotaExceeded ''message_payload_bytes'' (max_message_payload_bytes limits))
      else case checkpoint of
             None \<Rightarrow> Inr ()
           | Some c \<Rightarrow>
               if max_checkpoint_bytes limits < int (length (cp_position c))
               then Inl (MessagingQuotaExceeded ''checkpoint_bytes'' (max_checkpoint_bytes limits)) else Inr ())"

definition check_publication :: "messaging_transition \<Rightarrow> stored_run \<Rightarrow> messaging_error + unit" where
  "check_publication t run =
     (if tr_kind t \<noteq> PublishMessage then Inr ()
      else if sr_status run \<noteq> RsRunning \<or> sr_settlement_started run \<or> sr_publication_closed run
      then Inl (PublicationRejected (tr_identity t) ''run_closed'')
      else if \<not> sr_producer_lease_active run then Inl (PublicationRejected (tr_identity t) ''owner_lost'')
      else if \<not> sr_publication_ready run then Inl (PublicationRejected (tr_identity t) ''run_not_ready'')
      else Inr ())"

definition check_thread_quota :: "messaging_limits \<Rightarrow> stored_stream \<Rightarrow> bytes \<Rightarrow> messaging_error + unit" where
  "check_thread_quota limits stream payload =
     (if max_thread_messages limits \<le> st_latest_sequence stream
      then Inl (MessagingQuotaExceeded ''thread_messages'' (max_thread_messages limits))
      else if max_thread_payload_bytes limits < st_payload_bytes stream + int (length payload)
      then Inl (MessagingQuotaExceeded ''thread_payload_bytes'' (max_thread_payload_bytes limits))
      else Inr ())"

definition appended_effect ::
  "messaging_transition \<Rightarrow> stored_run \<Rightarrow> stored_stream \<Rightarrow> run_reference option \<Rightarrow> message_envelope \<Rightarrow> string \<Rightarrow> storage_effect" where
  "appended_effect t run stream reference envelope signature =
     (effect_of ((default_result (tr_kind t))\<lparr>re_envelope := Some envelope, re_run_status := Some (sr_status run)\<rparr>))
     \<lparr>ef_stream := Some (stream\<lparr>st_latest_sequence := e_seq envelope,
        st_payload_bytes := st_payload_bytes stream + int (length (e_payload envelope)),
        st_message_sequence := e_seq envelope\<rparr>),
      ef_runs := [run\<lparr>sr_end_sequence := e_seq envelope,
        sr_publication_ready := sr_publication_ready run \<or> (tr_kind t \<noteq> PublishMessage \<and> tr_opens_publication t),
        sr_publication_closed := sr_publication_closed run \<or> tr_closes_publication t,
        sr_checkpoint := (case tr_checkpoint t of None \<Rightarrow> sr_checkpoint run | Some c \<Rightarrow> Some c)\<rparr>],
      ef_message := Some \<lparr>me_envelope = envelope, me_signature = signature, me_checkpoint = tr_checkpoint t\<rparr>,
      ef_lease_run_id := (if tr_kind t = PublishMessage then None
        else map_option (\<lambda>r. i_run_id (rr_identity r)) reference)\<rparr>"

definition resolve_append_message ::
  "(bytes \<Rightarrow> string) \<Rightarrow> messaging_transition \<Rightarrow> state_snapshot \<Rightarrow> messaging_error + storage_effect" where
  "resolve_append_message sha256 t s =
     bindE (publication_target t s) (\<lambda>(run, stream, reference).
     bindE (required_text ''codec_id'' (tr_codec_id t)) (\<lambda>codec_id.
     bindE (required_text ''message_id'' (tr_message_id t)) (\<lambda>message_id.
     case tr_payload t of
       None \<Rightarrow> Inl (MsgTypeError ''payload must be bytes'')
     | Some payload \<Rightarrow>
         bindE (require (\<forall>c \<in> set_option (tr_checkpoint t). cp_last_message_id c = Some message_id)
           (MsgValueError ''checkpoint.last_message_id must match message_id'')) (\<lambda>_.
         bindE (check_message_size (bs_limits (tr_settings t)) payload (tr_checkpoint t)) (\<lambda>_.
         case ss_channel s of
           None \<Rightarrow> Inl (MessagingBackendProtocolError ''Messaging channel state is missing'')
         | Some channel \<Rightarrow>
             if sc_codec_id channel \<noteq> codec_id then Inl (CodecMismatch (sc_codec_id channel) codec_id)
             else
               bindE (messaging_message_signature sha256 (tr_identity t) codec_id payload (tr_checkpoint t)) (\<lambda>signature.
               case ss_matching_message s of
                 Some existing \<Rightarrow>
                   if me_signature existing \<noteq> signature then Inl (MessageIdConflict (tr_identity t) message_id)
                   else Inr (effect_of ((default_result (tr_kind t))\<lparr>re_envelope := Some (me_envelope existing),
                          re_run_status := Some (sr_status run)\<rparr>))
               | None \<Rightarrow>
                   bindE (check_publication t run) (\<lambda>_.
                   bindE (check_thread_quota (bs_limits (tr_settings t)) stream payload) (\<lambda>_.
                   bindE (mk_message_envelope \<lparr>e_channel = tr_channel t, e_identity = tr_identity t,
                     e_seq = st_latest_sequence stream + 1, e_message_id = message_id, e_codec = codec_id,
                     e_payload = payload, e_created_at = ss_observed_at s\<rparr>) (\<lambda>envelope.
                   Inr (appended_effect t run stream reference envelope signature))))))))))"

section \<open>Settlement and cancellation\<close>

definition resolve_begin_settlement :: "messaging_transition \<Rightarrow> state_snapshot \<Rightarrow> messaging_error + storage_effect" where
  "resolve_begin_settlement t s =
     bindE (owned_run t s) (\<lambda>(run, stream, reference).
     if sr_settlement_started run then Inl (BackendOwnershipLost ''Producer cannot begin settlement'')
     else if sr_status run \<notin> {RsRunning, RsCancelRequested}
     then Inl (BackendOwnershipLost ''Producer cannot begin settlement'')
     else Inr ((effect_of ((default_result (tr_kind t))\<lparr>
            re_cancellation_preceded := Some (sr_status run = RsCancelRequested), re_run_status := Some (sr_status run)\<rparr>))
          \<lparr>ef_runs := [run\<lparr>sr_settlement_started := True\<rparr>]\<rparr>))"

definition clear_active :: "messaging_transition \<Rightarrow> stored_stream \<Rightarrow> stored_stream" where
  "clear_active t stream =
     stream\<lparr>st_active_run_id :=
         (if st_active_run_id stream = Some (i_run_id (tr_identity t)) then None else st_active_run_id stream),
       st_control_sequence := st_control_sequence stream + 1\<rparr>"

definition finished_effect ::
  "messaging_transition \<Rightarrow> stored_run \<Rightarrow> stored_stream \<Rightarrow> run_status \<Rightarrow> failure option \<Rightarrow> storage_effect" where
  "finished_effect t run stream final_status failure =
     (let evidence = failure_evidence failure
      in (effect_of ((default_result (tr_kind t))\<lparr>re_run_status := Some final_status\<rparr>))
         \<lparr>ef_stream := Some (clear_active t stream),
          ef_runs := [run\<lparr>sr_end_sequence := st_latest_sequence stream, sr_status := final_status,
            sr_settlement_started := True, sr_producer_token := None, sr_producer_lease_active := False,
            sr_failure_class := fst evidence, sr_failure_message := snd evidence, sr_local_failure := failure\<rparr>],
          ef_lease_action := LaRelease, ef_lease_run_id := Some (i_run_id (tr_identity t)),
          ef_retention_action := RaStart\<rparr>)"

definition resolve_finish_run :: "messaging_transition \<Rightarrow> state_snapshot \<Rightarrow> messaging_error + storage_effect" where
  "resolve_finish_run t s =
     bindE (owned_run t s) (\<lambda>(run, stream, reference).
     case tr_final_status t of
       None \<Rightarrow> Inl (MsgTypeError ''final_status must be a terminal run status'')
     | Some requested \<Rightarrow>
         if \<not> is_final_run_status requested then Inl (MsgTypeError ''final_status must be a terminal run status'')
         else if sr_status run = RsCancelRequested \<and> requested = RsCompleted
         then Inr (finished_effect t run stream RsFailed (Some \<lparr>f_class = ''builtins.RuntimeError'',
                f_message = ''producer completed without settling accepted cancellation''\<rparr>))
         else Inr (finished_effect t run stream requested (tr_failure t)))"

definition resolve_request_cancellation :: "messaging_transition \<Rightarrow> state_snapshot \<Rightarrow> messaging_error + storage_effect" where
  "resolve_request_cancellation t s =
     bindE (required_target_run t s) (\<lambda>run.
     bindE (required_stream t s) (\<lambda>stream.
     let unchanged = effect_of ((default_result (tr_kind t))\<lparr>re_cancellation_requested := Some False,
                       re_run_status := Some (sr_status run)\<rparr>)
     in if is_final_run_status (sr_status run) \<or> sr_settlement_started run then Inr unchanged
        else if \<not> sr_cancellable run then Inl (CancellationUnsupported (tr_identity t))
        else if sr_status run = RsCancelRequested then Inr unchanged
        else if sr_status run \<noteq> RsRunning
        then Inl (MessagingBackendProtocolError ''Messaging run has an invalid active cancellation status'')
        else Inr ((effect_of ((default_result (tr_kind t))\<lparr>re_cancellation_requested := Some True,
               re_run_status := Some RsCancelRequested\<rparr>))
             \<lparr>ef_stream := Some (stream\<lparr>st_control_sequence := st_control_sequence stream + 1\<rparr>),
              ef_runs := [run\<lparr>sr_status := RsCancelRequested\<rparr>]\<rparr>)))"

section \<open>Producer ownership\<close>

definition ownership_result :: "messaging_transition \<Rightarrow> bool \<Rightarrow> run_status option \<Rightarrow> storage_effect" where
  "ownership_result t confirmed status =
     effect_of ((default_result (tr_kind t))\<lparr>re_ownership_confirmed := Some confirmed, re_run_status := status\<rparr>)"

definition resolve_renew_producer_ownership ::
  "messaging_transition \<Rightarrow> state_snapshot \<Rightarrow> messaging_error + storage_effect" where
  "resolve_renew_producer_ownership t s =
     bindE (required_reference t) (\<lambda>reference.
     case ss_target_run s of
       None \<Rightarrow>
         bindE (raise_reference_tombstone t s (Some (rr_generation reference))) (\<lambda>_.
         Inr (ownership_result t False None))
     | Some run \<Rightarrow>
         if \<not> reference_matches_run reference run then Inr (ownership_result t False None)
         else if \<not> sr_producer_lease_active run \<or> is_final_run_status (sr_status run)
         then Inr (ownership_result t False (Some (sr_status run)))
         else Inr ((ownership_result t True (Some (sr_status run)))\<lparr>ef_lease_action := LaRenew,
                ef_lease_run_id := Some (i_run_id (tr_identity t))\<rparr>))"

definition check_ownership_reference ::
  "messaging_transition \<Rightarrow> state_snapshot \<Rightarrow> stored_run \<Rightarrow> stored_stream \<Rightarrow> messaging_error + unit" where
  "check_ownership_reference t s run stream =
     (case tr_run_reference t of
        None \<Rightarrow> Inr ()
      | Some reference \<Rightarrow>
          if rr_channel reference \<noteq> tr_channel t \<or> rr_identity reference \<noteq> tr_identity t
          then Inl (MsgValueError ''run_reference conflicts with the transition identity'')
          else if rr_generation reference \<noteq> st_generation stream \<or> rr_generation reference \<noteq> sr_generation run
          then bindE (raise_reference_tombstone t s (Some (rr_generation reference))) (\<lambda>_.
                 Inl (MessagingBackendProtocolError
                   ''Messaging ownership snapshot does not match the requested generation''))
          else Inr ())"

definition resolve_reconcile_producer_ownership ::
  "messaging_transition \<Rightarrow> state_snapshot \<Rightarrow> messaging_error + storage_effect" where
  "resolve_reconcile_producer_ownership t s =
     bindE (required_target_run t s) (\<lambda>run.
     bindE (required_stream t s) (\<lambda>stream.
     bindE (check_ownership_reference t s run stream) (\<lambda>_.
     if is_final_run_status (sr_status run) \<or> sr_producer_lease_active run
     then Inr (effect_of ((default_result (tr_kind t))\<lparr>re_run_status := Some (sr_status run)\<rparr>))
     else
       let message = (if sr_status run = RsCancelRequested \<and> sr_settlement_started run
                      then ''producer lease expired during cancellation settlement'' else ''producer lease expired'')
       in Inr ((effect_of ((default_result (tr_kind t))\<lparr>re_run_status := Some RsOwnerLost\<rparr>))
            \<lparr>ef_stream := Some (clear_active t stream),
             ef_runs := [owner_lost_run run (st_latest_sequence stream) message], ef_lease_action := LaRelease,
             ef_lease_run_id := Some (i_run_id (tr_identity t)), ef_retention_action := RaStart\<rparr>))))"

section \<open>Generation cleanup\<close>

definition cleanup_result ::
  "messaging_transition \<Rightarrow> int option \<Rightarrow> cleanup_reason option \<Rightarrow> bool \<Rightarrow> transition_result" where
  "cleanup_result t generation reason required =
     (default_result (tr_kind t))\<lparr>re_cleanup_generation := generation, re_cleanup_reason := reason,
       re_cleanup_required := required\<rparr>"

definition cleanup_owner ::
  "messaging_transition \<Rightarrow> state_snapshot \<Rightarrow> stored_stream \<Rightarrow> messaging_error + stored_run option" where
  "cleanup_owner t s stream =
     (case st_active_run_id stream of
        None \<Rightarrow> Inr None
      | Some active_run_id \<Rightarrow>
          let owner = (case ss_target_run s of
                         Some run \<Rightarrow> if i_run_id (sr_identity run) = active_run_id then Some run else ss_active_run s
                       | None \<Rightarrow> ss_active_run s);
              active_identity = (case owner of Some run \<Rightarrow> sr_identity run
                                 | None \<Rightarrow> (tr_identity t)\<lparr>i_run_id := active_run_id\<rparr>)
          in case owner of
               None \<Rightarrow> Inl (StreamDeleteConflict (tr_channel t) (tr_identity t) active_identity)
             | Some run \<Rightarrow>
                 if sr_producer_lease_active run
                 then Inl (StreamDeleteConflict (tr_channel t) (tr_identity t) active_identity)
                 else Inr (Some (owner_lost_run run (st_latest_sequence stream) ''producer lease expired'')))"

definition sealed_effect ::
  "messaging_transition \<Rightarrow> stored_stream \<Rightarrow> cleanup_reason \<Rightarrow> stored_run option \<Rightarrow> storage_effect" where
  "sealed_effect t stream reason lost =
     (effect_of (cleanup_result t (Some (st_generation stream)) (Some reason) True))
     \<lparr>ef_stream := Some (stream\<lparr>st_disposition := (if reason = CrDeleted then DpDeleting else DpExpiring),
        st_active_run_id := None, st_control_sequence := st_control_sequence stream + 1\<rparr>),
      ef_runs := (case lost of None \<Rightarrow> [] | Some run \<Rightarrow> [run]),
      ef_lease_action := (if lost = None then LaNone else LaRelease),
      ef_lease_run_id := map_option (\<lambda>run. i_run_id (sr_identity run)) lost, ef_retention_action := RaClear\<rparr>"

definition resolve_begin_generation_cleanup ::
  "messaging_transition \<Rightarrow> state_snapshot \<Rightarrow> messaging_error + storage_effect" where
  "resolve_begin_generation_cleanup t s =
     (case tr_cleanup_reason t of
        None \<Rightarrow> Inl (MsgTypeError ''cleanup_reason must be deleted or expired'')
      | Some reason \<Rightarrow>
          (case ss_stream s of
             None \<Rightarrow>
               if (ss_tombstone_generation s = None) \<noteq> (ss_tombstone_reason s = None)
               then Inl (MessagingBackendProtocolError ''Messaging cleanup tombstone evidence is incomplete'')
               else Inr (effect_of (cleanup_result t (ss_tombstone_generation s) (ss_tombstone_reason s) False))
           | Some stream \<Rightarrow>
               if st_disposition stream \<in> {DpDeleted, DpExpired}
               then Inr (effect_of (cleanup_result t (Some (st_generation stream))
                      (Some (if st_disposition stream = DpDeleted then CrDeleted else CrExpired)) False))
               else if st_disposition stream \<in> {DpDeleting, DpExpiring}
               then Inr (effect_of (cleanup_result t (Some (st_generation stream))
                      (Some (if st_disposition stream = DpDeleting then CrDeleted else CrExpired)) True))
               else
                 bindE (cleanup_owner t s stream) (\<lambda>lost.
                 if reason = CrExpired \<and> \<not> st_retention_expired stream
                 then Inr (effect_of (cleanup_result t None None False))
                 else Inr (sealed_effect t stream reason lost))))"

definition reason_disposition :: "cleanup_reason \<Rightarrow> disposition" where
  "reason_disposition reason = (case reason of CrDeleted \<Rightarrow> DpDeleted | CrExpired \<Rightarrow> DpExpired)"

definition resolve_finish_generation_cleanup ::
  "messaging_transition \<Rightarrow> state_snapshot \<Rightarrow> messaging_error + storage_effect" where
  "resolve_finish_generation_cleanup t s =
     (case tr_cleanup_reason t of
        None \<Rightarrow> Inl (MsgTypeError ''cleanup_reason must be deleted or expired'')
      | Some reason \<Rightarrow>
          (case tr_cleanup_generation t of
             None \<Rightarrow> Inl (MsgTypeError ''cleanup_generation must be an integer'')
           | Some generation \<Rightarrow>
               if generation < 1 then Inl (MsgValueError ''cleanup_generation must be positive'')
               else (case ss_stream s of
                 None \<Rightarrow>
                   if ss_tombstone_generation s = Some generation \<and> ss_tombstone_reason s = Some reason
                   then Inr (effect_of (cleanup_result t (Some generation) (Some reason) False))
                   else if ss_tombstone_generation s = Some generation
                   then Inl (MessagingBackendProtocolError
                     ''Messaging generation was finalized for a different cleanup reason'')
                   else Inl (MessagingBackendProtocolError ''Messaging generation cleanup state is missing'')
               | Some stream \<Rightarrow>
                   if st_generation stream \<noteq> generation
                   then Inl (MessagingBackendProtocolError
                     ''Messaging cleanup snapshot does not match the requested generation'')
                   else if st_disposition stream = reason_disposition reason
                   then Inr (effect_of (cleanup_result t (Some generation) (Some reason) False))
                   else if st_disposition stream \<noteq> (if reason = CrDeleted then DpDeleting else DpExpiring)
                   then Inl (MessagingBackendProtocolError ''Messaging generation is not sealed for the requested cleanup'')
                   else Inr ((effect_of (cleanup_result t (Some generation) (Some reason) False))
                     \<lparr>ef_stream := Some (stream\<lparr>st_disposition := reason_disposition reason, st_active_run_id := None,
                        st_control_sequence := st_control_sequence stream + 1\<rparr>),
                      ef_tombstone_reason := Some reason\<rparr>))))"

section \<open>Dispatch\<close>

definition resolve_messaging_transition ::
  "(bytes \<Rightarrow> string) \<Rightarrow> messaging_transition \<Rightarrow> state_snapshot \<Rightarrow> messaging_error + storage_effect" where
  "resolve_messaging_transition sha256 t s =
     bindE (validate_transition_identity t) (\<lambda>_.
     case tr_kind t of
       PrepareRun \<Rightarrow> resolve_prepare_run t s
     | AppendMessage \<Rightarrow> resolve_append_message sha256 t s
     | PublishMessage \<Rightarrow> resolve_append_message sha256 t s
     | BeginSettlement \<Rightarrow> resolve_begin_settlement t s
     | FinishRun \<Rightarrow> resolve_finish_run t s
     | RequestCancellation \<Rightarrow> resolve_request_cancellation t s
     | RenewProducerOwnership \<Rightarrow> resolve_renew_producer_ownership t s
     | ReconcileProducerOwnership \<Rightarrow> resolve_reconcile_producer_ownership t s
     | BeginGenerationCleanup \<Rightarrow> resolve_begin_generation_cleanup t s
     | FinishGenerationCleanup \<Rightarrow> resolve_finish_generation_cleanup t s)"

end
