(* ===== verification/Messaging_Memory.thy ===== *)
theory Messaging_Memory
  imports Messaging_Transition
begin

text \<open>
  \<open>backend.py\<close> and \<open>_capacity.py\<close>: the in-process Messaging backend. The heap of the expiry index is
  kept sorted, so that its first element is the one \<open>heapq.heappop\<close> returns. A channel object that no
  transition has registered yet is a value of its own; writing it back is a no-op. Monotonic clock
  readings and the wall clock are arguments; \<open>thread_key\<close>, the JSON rendering of a thread identity that
  pydantic produces, is a parameter, and the operations below take the rendered key.
\<close>

section \<open>State\<close>

record run_record =
  m_identity :: run_identity
  m_start_seq :: int
  m_end_seq :: int
  m_owner_token :: "string option"
  m_fence :: int
  m_cancellable :: bool
  m_recoverable :: bool
  m_status :: run_status
  m_settling :: bool
  m_publication_closed :: bool
  m_publication_ready :: bool
  m_error :: "failure option"
  m_checkpoint :: "recovery_checkpoint option"

type_synonym signature_entry = "string \<times> string \<times> bytes \<times> recovery_checkpoint option"

record stream_state =
  g_generation :: int
  g_disposition :: disposition
  g_deleted :: bool
  g_messages :: "message_envelope list"
  g_by_message_id :: "(string, message_envelope) dict"
  g_signatures :: "(string, signature_entry) dict"
  g_runs :: "(string, run_record) dict"
  g_active_identity :: "run_identity option"
  g_payload_bytes :: int
  g_retained_bytes :: int
  g_retained_records :: int
  g_expires_at :: "time option"
  g_control_sequence :: int

record channel_state =
  c_channel :: string
  c_codec :: "string option"
  c_streams :: "(string, stream_state) dict"
  c_next_generations :: "(string, int) dict"
  c_tombstones :: "(string, (int, cleanup_reason) dict) dict"

type_synonym expiry_key = "string \<times> string"

record expiry_index =
  x_deadlines :: "(expiry_key, time) dict"
  x_heap :: "(time \<times> expiry_key) list"

record memory_backend =
  mb_channels :: "(string, channel_state) dict"
  mb_total_bytes :: int
  mb_total_records :: int
  mb_expirations :: expiry_index
  mb_limits :: messaging_limits
  mb_retention_policy :: retention_policy

type_synonym 'a mb_outcome = "(messaging_error, memory_backend, 'a) outcome"

definition new_stream_state :: "int \<Rightarrow> stream_state" where
  "new_stream_state generation =
     \<lparr>g_generation = generation, g_disposition = DpActive, g_deleted = False, g_messages = [], g_by_message_id = [],
      g_signatures = [], g_runs = [], g_active_identity = None, g_payload_bytes = 0, g_retained_bytes = 0,
      g_retained_records = 1, g_expires_at = None, g_control_sequence = 0\<rparr>"

definition new_channel_state :: "string \<Rightarrow> channel_state" where
  "new_channel_state channel =
     \<lparr>c_channel = channel, c_codec = None, c_streams = [], c_next_generations = [], c_tombstones = []\<rparr>"

definition new_memory_backend :: "messaging_limits \<Rightarrow> retention_policy \<Rightarrow> memory_backend" where
  "new_memory_backend limits policy =
     \<lparr>mb_channels = [], mb_total_bytes = 0, mb_total_records = 0, mb_expirations = \<lparr>x_deadlines = [], x_heap = []\<rparr>,
      mb_limits = limits, mb_retention_policy = policy\<rparr>"

definition messaging_settings :: "memory_backend \<Rightarrow> backend_settings" where
  "messaging_settings mb =
     \<lparr>bs_limits = mb_limits mb, bs_retention_policy = mb_retention_policy mb, bs_producer_renew_interval = None,
      bs_producer_lease = None, bs_change_wait_timeout = None\<rparr>"

section \<open>Capacity and expiry index\<close>

definition checkpoint_bytes :: "recovery_checkpoint option \<Rightarrow> int" where
  "checkpoint_bytes checkpoint =
     (case checkpoint of
        None \<Rightarrow> 0
      | Some c \<Rightarrow>
          int (length (cp_position c)) + int (length (encode (case cp_last_message_id c of None \<Rightarrow> [] | Some v \<Rightarrow> v))))"

definition compact_index :: "expiry_index \<Rightarrow> expiry_index" where
  "compact_index x =
     (if 2 * length (x_deadlines x) + 64 < length (x_heap x)
      then x\<lparr>x_heap := sort (map (\<lambda>(key, value). (value, key)) (x_deadlines x))\<rparr> else x)"

definition index_set :: "expiry_key \<Rightarrow> time option \<Rightarrow> expiry_index \<Rightarrow> expiry_index" where
  "index_set key deadline x =
     compact_index
       (case deadline of
          None \<Rightarrow> x\<lparr>x_deadlines := ddel key (x_deadlines x)\<rparr>
        | Some d \<Rightarrow> x\<lparr>x_deadlines := dput key d (x_deadlines x), x_heap := insort (d, key) (x_heap x)\<rparr>)"

fun pop_due :: "time \<Rightarrow> (expiry_key, time) dict \<Rightarrow> (time \<times> expiry_key) list \<Rightarrow> expiry_key option \<times> expiry_index" where
  "pop_due now deadlines [] = (None, \<lparr>x_deadlines = deadlines, x_heap = []\<rparr>)"
| "pop_due now deadlines ((deadline, key) # heap) =
     (if deadline \<le> now then
        if dget deadlines key = Some deadline then (Some key, \<lparr>x_deadlines = ddel key deadlines, x_heap = heap\<rparr>)
        else pop_due now deadlines heap
      else (None, \<lparr>x_deadlines = deadlines, x_heap = (deadline, key) # heap\<rparr>))"

definition index_pop_due :: "time \<Rightarrow> expiry_index \<Rightarrow> expiry_key option \<times> expiry_index" where
  "index_pop_due now x = pop_due now (x_deadlines x) (x_heap x)"

section \<open>Generations\<close>

text \<open>\<open>_channel\<close> and the effect of mutating the channel object it returned.\<close>

definition mb_channel :: "string \<Rightarrow> memory_backend \<Rightarrow> channel_state" where
  "mb_channel channel mb =
     (case dget (mb_channels mb) channel of None \<Rightarrow> new_channel_state channel | Some ch \<Rightarrow> ch)"

definition write_back :: "channel_state \<Rightarrow> memory_backend \<Rightarrow> memory_backend" where
  "write_back ch mb =
     (if dget (mb_channels mb) (c_channel ch) = None then mb
      else mb\<lparr>mb_channels := dput (c_channel ch) ch (mb_channels mb)\<rparr>)"

definition record_tombstone :: "string \<Rightarrow> int \<Rightarrow> cleanup_reason \<Rightarrow> channel_state \<Rightarrow> channel_state" where
  "record_tombstone key generation reason ch =
     ch\<lparr>c_tombstones :=
       dput key (dput generation reason (case dget (c_tombstones ch) key of None \<Rightarrow> [] | Some d \<Rightarrow> d)) (c_tombstones ch)\<rparr>"

definition retire_memory_generation ::
  "string \<Rightarrow> stream_state \<Rightarrow> cleanup_reason \<Rightarrow> channel_state \<times> memory_backend \<Rightarrow> channel_state \<times> memory_backend" where
  "retire_memory_generation key state reason = (\<lambda>(ch, mb).
     (record_tombstone key (g_generation state) reason
        (ch\<lparr>c_streams := ddel key (c_streams ch),
            c_next_generations := dput key (g_generation state + 1) (c_next_generations ch)\<rparr>),
      mb\<lparr>mb_total_bytes := mb_total_bytes mb - g_retained_bytes state,
         mb_total_records := mb_total_records mb - (g_retained_records state - 1),
         mb_expirations := index_set (c_channel ch, key) None (mb_expirations mb)\<rparr>))"

definition expire_if_due ::
  "time \<Rightarrow> string \<Rightarrow> channel_state \<times> memory_backend \<Rightarrow> stream_state option \<times> channel_state \<times> memory_backend" where
  "expire_if_due now key = (\<lambda>(ch, mb).
     (case dget (c_streams ch) key of
        None \<Rightarrow> (None, ch, mb)
      | Some state \<Rightarrow>
          (case g_expires_at state of
             None \<Rightarrow> (Some state, ch, mb)
           | Some deadline \<Rightarrow>
               if now < deadline then (Some state, ch, mb)
               else (None, retire_memory_generation key state CrExpired (ch, mb)))))"

definition mb_expire :: "time \<Rightarrow> string \<Rightarrow> string \<Rightarrow> memory_backend \<Rightarrow> memory_backend" where
  "mb_expire now channel key mb =
     (case expire_if_due now key (mb_channel channel mb, mb) of (st, ch, mb') \<Rightarrow> write_back ch mb')"

text \<open>
  \<open>_reclaim_expired\<close>: at most 64 due threads. The index is read with the first clock reading, each
  retirement with a reading of its own.
\<close>

fun reclaim_loop :: "nat \<Rightarrow> time \<Rightarrow> (nat \<Rightarrow> time) \<Rightarrow> memory_backend \<Rightarrow> unit mb_outcome" where
  "reclaim_loop 0 now clock mb = (Inr (), mb)"
| "reclaim_loop (Suc n) now clock mb =
     (case index_pop_due now (mb_expirations mb) of
        (None, x) \<Rightarrow> (Inr (), mb\<lparr>mb_expirations := x\<rparr>)
      | (Some (channel, key), x) \<Rightarrow>
          (let mb' = mb\<lparr>mb_expirations := x\<rparr>
           in case dget (mb_channels mb') channel of
                None \<Rightarrow> (Inl (MsgKeyError channel), mb')
              | Some ch \<Rightarrow> reclaim_loop n now clock (mb_expire (clock n) channel key mb')))"

definition mb_reclaim_expired :: "time \<Rightarrow> (nat \<Rightarrow> time) \<Rightarrow> memory_backend \<Rightarrow> unit mb_outcome" where
  "mb_reclaim_expired now clock mb = reclaim_loop 64 now clock mb"

definition max_default :: "int \<Rightarrow> int list \<Rightarrow> int" where
  "max_default d xs = (case xs of [] \<Rightarrow> d | y # ys \<Rightarrow> fold max ys y)"

definition tombstone_reason ::
  "channel_state \<Rightarrow> string \<Rightarrow> int option \<Rightarrow> (int \<times> cleanup_reason) option" where
  "tombstone_reason ch key generation =
     (let tombstones = (case dget (c_tombstones ch) key of None \<Rightarrow> [] | Some d \<Rightarrow> d)
      in case generation of
           Some g \<Rightarrow> map_option (\<lambda>reason. (g, reason)) (dget tombstones g)
         | None \<Rightarrow>
             if tombstones = [] then None
             else let latest = max_default 0 (dkeys tombstones)
                  in map_option (\<lambda>reason. (latest, reason)) (dget tombstones latest))"

section \<open>Snapshots\<close>

definition stored_memory_run :: "run_record \<Rightarrow> int \<Rightarrow> stored_run" where
  "stored_memory_run r generation =
     \<lparr>sr_identity = m_identity r, sr_generation = generation, sr_start_sequence = m_start_seq r,
      sr_end_sequence = m_end_seq r, sr_status = m_status r, sr_settlement_started = m_settling r,
      sr_cancellable = m_cancellable r, sr_recoverable = m_recoverable r, sr_producer_token = m_owner_token r,
      sr_producer_fence = m_fence r,
      sr_producer_lease_active = (\<not> is_final_run_status (m_status r) \<and> m_owner_token r \<noteq> None),
      sr_checkpoint = m_checkpoint r, sr_failure_class = fst (failure_evidence (m_error r)),
      sr_failure_message = snd (failure_evidence (m_error r)), sr_local_failure = m_error r, sr_lease_remaining = None,
      sr_publication_closed = m_publication_closed r, sr_publication_ready = m_publication_ready r\<rparr>"

definition empty_memory_snapshot :: "time \<Rightarrow> state_snapshot" where
  "empty_memory_snapshot observed_at =
     \<lparr>ss_observed_at = observed_at, ss_channel = None, ss_stream = None, ss_target_run = None, ss_active_run = None,
      ss_matching_message = None, ss_tombstone_generation = None, ss_tombstone_reason = None\<rparr>"

definition matching_evidence ::
  "(bytes \<Rightarrow> string) \<Rightarrow> run_identity \<Rightarrow> stream_state \<Rightarrow> string option \<Rightarrow> messaging_error + message_evidence option" where
  "matching_evidence sha256 identity state message_id =
     (case message_id of
        None \<Rightarrow> Inr None
      | Some mid \<Rightarrow>
          (case (dget (g_by_message_id state) mid, dget (g_signatures state) mid) of
             (Some envelope, Some (run_id, codec_id, payload, checkpoint)) \<Rightarrow>
               bindE (messaging_message_signature sha256 (identity\<lparr>i_run_id := run_id\<rparr>) codec_id payload checkpoint)
                 (\<lambda>signature.
               Inr (Some \<lparr>me_envelope = envelope, me_signature = signature, me_checkpoint = checkpoint\<rparr>))
           | _ \<Rightarrow> Inr None))"

definition stored_memory_stream :: "string \<Rightarrow> run_identity \<Rightarrow> stream_state \<Rightarrow> stored_stream" where
  "stored_memory_stream channel identity state =
     \<lparr>st_channel = channel, st_thread_id = i_thread_id identity, st_generation = g_generation state,
      st_disposition = g_disposition state, st_latest_sequence = int (length (g_messages state)),
      st_payload_bytes = g_payload_bytes state,
      st_next_producer_fence = 1 + max_default 0 (map m_fence (dvalues (g_runs state))),
      st_active_run_id = map_option i_run_id (g_active_identity state), st_retention_expired = False,
      st_message_sequence = int (length (g_messages state)), st_control_sequence = g_control_sequence state\<rparr>"

definition active_record :: "bool \<Rightarrow> run_identity \<Rightarrow> stream_state \<Rightarrow> run_record option" where
  "active_record include_active_run identity state =
     (case g_active_identity state of
        None \<Rightarrow> None
      | Some active \<Rightarrow>
          if include_active_run \<and> i_run_id active \<noteq> i_run_id identity then dget (g_runs state) (i_run_id active)
          else None)"

definition selected_state :: "channel_state \<Rightarrow> string \<Rightarrow> int option \<Rightarrow> stream_state option" where
  "selected_state ch key generation =
     (case dget (c_streams ch) key of
        None \<Rightarrow> None
      | Some state \<Rightarrow> if generation \<noteq> None \<and> generation \<noteq> Some (g_generation state) then None else Some state)"

definition stored_memory_channel :: "memory_backend \<Rightarrow> string \<Rightarrow> channel_state \<Rightarrow> stored_channel option" where
  "stored_memory_channel mb channel ch =
     map_option (\<lambda>codec. \<lparr>sc_channel = channel, sc_codec_id = codec, sc_limits = mb_limits mb,
       sc_retention_policy = mb_retention_policy mb\<rparr>) (c_codec ch)"

definition memory_state_snapshot ::
  "(bytes \<Rightarrow> string) \<Rightarrow> time \<Rightarrow> memory_backend \<Rightarrow> channel_state \<Rightarrow> string \<Rightarrow> run_identity \<Rightarrow> string \<Rightarrow> int option \<Rightarrow>
   string option \<Rightarrow> bool \<Rightarrow> messaging_error + state_snapshot" where
  "memory_state_snapshot sha256 observed_at mb ch channel identity key generation message_id include_active_run =
     (let tombstone = tombstone_reason ch key generation;
          base = (empty_memory_snapshot observed_at)\<lparr>ss_channel := stored_memory_channel mb channel ch,
            ss_tombstone_generation := map_option fst tombstone, ss_tombstone_reason := map_option snd tombstone\<rparr>
      in case selected_state ch key generation of
           None \<Rightarrow> Inr base
         | Some state \<Rightarrow>
             bindE (matching_evidence sha256 identity state message_id) (\<lambda>matching.
             Inr (base\<lparr>ss_stream := Some (stored_memory_stream channel identity state),
               ss_target_run := map_option (\<lambda>r. stored_memory_run r (g_generation state))
                 (dget (g_runs state) (i_run_id identity)),
               ss_active_run := map_option (\<lambda>r. stored_memory_run r (g_generation state))
                 (active_record include_active_run identity state),
               ss_matching_message := matching\<rparr>)))"

section \<open>Applying an effect\<close>

definition run_capacity :: "stream_state option \<Rightarrow> stored_run \<Rightarrow> int \<times> int" where
  "run_capacity state run =
     (let previous = Option.bind state (\<lambda>st. dget (g_runs st) (i_run_id (sr_identity run)))
      in (checkpoint_bytes (sr_checkpoint run) - checkpoint_bytes (Option.bind previous m_checkpoint),
          if previous = None then 1 else 0))"

definition message_capacity :: "stream_state option \<Rightarrow> message_evidence option \<Rightarrow> int \<times> int" where
  "message_capacity state message =
     (case message of
        None \<Rightarrow> (0, 0)
      | Some ev \<Rightarrow>
          if Option.bind state (\<lambda>st. dget (g_by_message_id st) (e_message_id (me_envelope ev))) = None
          then (int (length (e_payload (me_envelope ev))) + checkpoint_bytes (me_checkpoint ev), 1) else (0, 0))"

definition effect_capacity :: "channel_state \<Rightarrow> string \<Rightarrow> storage_effect \<Rightarrow> int \<times> int \<times> int" where
  "effect_capacity ch key effect =
     (let state = dget (c_streams ch) key;
          records = (if c_codec ch = None \<and> ef_channel effect \<noteq> None then 1 else 0) +
            (if ef_stream effect \<noteq> None \<and> state = None
             then 1 + (if dget (c_next_generations ch) key = None then 1 else 0) else 0);
          runs = map (run_capacity state) (ef_runs effect);
          message = message_capacity state (ef_message effect);
          retained_bytes = sum_list (map fst runs) + fst message;
          generation_records = sum_list (map snd runs) + snd message
      in (retained_bytes, records + generation_records, generation_records))"

definition apply_run :: "stored_run \<Rightarrow> (string, run_record) dict \<Rightarrow> (string, run_record) dict" where
  "apply_run run runs =
     dput (i_run_id (sr_identity run))
       \<lparr>m_identity = (case dget runs (i_run_id (sr_identity run)) of None \<Rightarrow> sr_identity run | Some r \<Rightarrow> m_identity r),
        m_start_seq = sr_start_sequence run, m_end_seq = sr_end_sequence run, m_owner_token = sr_producer_token run,
        m_fence = sr_producer_fence run, m_cancellable = sr_cancellable run, m_recoverable = sr_recoverable run,
        m_status = sr_status run, m_settling = sr_settlement_started run,
        m_publication_closed = sr_publication_closed run, m_publication_ready = sr_publication_ready run,
        m_error = sr_local_failure run, m_checkpoint = sr_checkpoint run\<rparr> runs"

definition apply_message :: "message_evidence \<Rightarrow> stream_state \<Rightarrow> stream_state" where
  "apply_message ev state =
     (let envelope = me_envelope ev; mid = e_message_id envelope
      in if dget (g_by_message_id state) mid \<noteq> None then state
         else state\<lparr>g_messages := g_messages state @ [envelope],
                g_by_message_id := dput mid envelope (g_by_message_id state),
                g_signatures := dput mid (i_run_id (e_identity envelope), e_codec envelope, e_payload envelope,
                  me_checkpoint ev) (g_signatures state)\<rparr>)"

definition apply_stream :: "run_identity \<Rightarrow> stored_stream \<Rightarrow> stream_state \<Rightarrow> stream_state" where
  "apply_stream identity stream state =
     state\<lparr>g_disposition := st_disposition stream, g_deleted := (st_disposition stream \<noteq> DpActive),
       g_payload_bytes := st_payload_bytes stream, g_control_sequence := st_control_sequence stream,
       g_active_identity := map_option (\<lambda>rid. identity\<lparr>i_run_id := rid\<rparr>) (st_active_run_id stream)\<rparr>"

definition retention_deadline :: "time \<Rightarrow> retention_policy \<Rightarrow> retention_action \<Rightarrow> stream_state \<Rightarrow> time option" where
  "retention_deadline now policy action state =
     (case action of
        RaNone \<Rightarrow> g_expires_at state | RaClear \<Rightarrow> None | RaStart \<Rightarrow> map_option (\<lambda>ttl. now + ttl) (terminal_ttl policy))"

text \<open>The generation after its stream, run, message and retention replacements, in the order of the code.\<close>

definition applied_state ::
  "time \<Rightarrow> retention_policy \<Rightarrow> run_identity \<Rightarrow> storage_effect \<Rightarrow> int \<Rightarrow> int \<Rightarrow> stream_state \<Rightarrow> stream_state" where
  "applied_state now policy identity effect total_bytes generation_records state =
     (let s1 = state\<lparr>g_retained_bytes := g_retained_bytes state + total_bytes,
                 g_retained_records := g_retained_records state + generation_records\<rparr>;
          s2 = (case ef_stream effect of None \<Rightarrow> s1 | Some stream \<Rightarrow> apply_stream identity stream s1);
          s3 = s2\<lparr>g_runs := fold apply_run (ef_runs effect) (g_runs s2)\<rparr>;
          s4 = (case ef_message effect of None \<Rightarrow> s3 | Some ev \<Rightarrow> apply_message ev s3)
      in s4\<lparr>g_expires_at := retention_deadline now policy (ef_retention_action effect) s4\<rparr>)"

definition target_state :: "channel_state \<Rightarrow> string \<Rightarrow> storage_effect \<Rightarrow> stream_state option" where
  "target_state ch key effect =
     (case ef_stream effect of
        None \<Rightarrow> dget (c_streams ch) key
      | Some stream \<Rightarrow>
          (case dget (c_streams ch) key of
             None \<Rightarrow> Some (new_stream_state (st_generation stream))
           | Some state \<Rightarrow>
               if g_generation state \<noteq> st_generation stream then Some (new_stream_state (st_generation stream))
               else Some state))"

definition apply_memory_effect ::
  "time \<Rightarrow> run_identity \<Rightarrow> string \<Rightarrow> storage_effect \<Rightarrow> channel_state \<times> memory_backend \<Rightarrow>
   (messaging_error, channel_state \<times> memory_backend, unit) outcome" where
  "apply_memory_effect now identity key effect = (\<lambda>(ch, mb).
     case effect_capacity ch key effect of (total_bytes, total_records, generation_records) \<Rightarrow>
     check (require (mb_total_bytes mb + total_bytes \<le> max_total_bytes (mb_limits mb))
       (MessagingQuotaExceeded ''total_bytes'' (max_total_bytes (mb_limits mb)))) (ch, mb) (\<lambda>_.
     check (require (mb_total_records mb + total_records \<le> max_total_records (mb_limits mb))
       (MessagingQuotaExceeded ''total_records'' (max_total_records (mb_limits mb)))) (ch, mb) (\<lambda>_.
     check (case ef_channel effect of
              None \<Rightarrow> Inr (c_codec ch)
            | Some stored \<Rightarrow>
                (case c_codec ch of
                   None \<Rightarrow> Inr (Some (sc_codec_id stored))
                 | Some codec \<Rightarrow>
                     if codec \<noteq> sc_codec_id stored then Inl (CodecMismatch codec (sc_codec_id stored)) else Inr (Some codec)))
       (ch, mb) (\<lambda>codec.
     let registered = (ef_channel effect \<noteq> None \<and> c_codec ch = None);
         ch1 = ch\<lparr>c_codec := codec\<rparr>;
         mb1 = mb\<lparr>mb_channels := (if registered then dput (c_channel ch) ch1 (mb_channels mb) else mb_channels mb),
                   mb_total_bytes := mb_total_bytes mb + total_bytes,
                   mb_total_records := mb_total_records mb + total_records\<rparr>
     in case target_state ch key effect of
          None \<Rightarrow>
            if ef_runs effect \<noteq> [] then (Inl (MsgRuntimeError ''Messaging run effect requires a stream''), ch1, mb1)
            else if ef_message effect \<noteq> None
            then (Inl (MsgRuntimeError ''Messaging message effect requires a stream''), ch1, mb1)
            else if ef_tombstone_reason effect \<noteq> None
            then (Inl (MsgRuntimeError ''Messaging tombstone effect requires a stream''), ch1, mb1)
            else (Inr (), ch1, mb1)
        | Some state \<Rightarrow>
            let state' = applied_state now (mb_retention_policy mb) identity effect total_bytes generation_records state;
                ch2 = ch1\<lparr>c_streams := dput key state' (c_streams ch1)\<rparr>;
                mb2 = (if ef_retention_action effect = RaNone then mb1
                       else mb1\<lparr>mb_expirations := index_set (c_channel ch, key) (g_expires_at state') (mb_expirations mb1)\<rparr>)
            in case ef_tombstone_reason effect of
                 None \<Rightarrow> (Inr (), ch2, mb2)
               | Some reason \<Rightarrow> (Inr (), retire_memory_generation key state' reason (ch2, mb2))))))"

section \<open>The operations\<close>

definition selected_generation :: "messaging_transition \<Rightarrow> int option" where
  "selected_generation t =
     (if tr_kind t = FinishGenerationCleanup then tr_cleanup_generation t
      else map_option rr_generation (tr_run_reference t))"

text \<open>Snapshot, resolution and application run without yielding.\<close>

definition mb_transact ::
  "(bytes \<Rightarrow> string) \<Rightarrow> (run_identity \<Rightarrow> string) \<Rightarrow> time \<Rightarrow> time \<Rightarrow> messaging_transition \<Rightarrow> memory_backend \<Rightarrow>
   transition_result mb_outcome" where
  "mb_transact sha256 thread_key now observed_at t mb =
     (let ch = mb_channel (tr_channel t) mb; key = thread_key (tr_identity t)
      in check (memory_state_snapshot sha256 observed_at mb ch (tr_channel t) (tr_identity t) key (selected_generation t)
           (tr_message_id t) True) mb (\<lambda>snapshot.
         check (resolve_messaging_transition sha256 t snapshot) mb (\<lambda>effect.
         case apply_memory_effect now (tr_identity t) key effect (ch, mb) of
           (Inl e, ch', mb') \<Rightarrow> (Inl e, write_back ch' mb')
         | (Inr u, ch', mb') \<Rightarrow> (Inr (ef_result effect), write_back ch' mb'))))"

definition mb_commit_messaging_transition ::
  "(bytes \<Rightarrow> string) \<Rightarrow> (run_identity \<Rightarrow> string) \<Rightarrow> time \<Rightarrow> (nat \<Rightarrow> time) \<Rightarrow> time \<Rightarrow> time \<Rightarrow> time \<Rightarrow> messaging_transition \<Rightarrow>
   memory_backend \<Rightarrow> transition_result mb_outcome" where
  "mb_commit_messaging_transition sha256 thread_key reclaim_now clock expire_now now observed_at t mb =
     and_then (if tr_kind t \<in> {PrepareRun, AppendMessage, PublishMessage} then mb_reclaim_expired reclaim_now clock mb
               else (Inr (), mb)) (\<lambda>_ mb1.
     mb_transact sha256 thread_key now observed_at t
       (mb_expire expire_now (tr_channel t) (thread_key (tr_identity t)) mb1))"

record state_query =
  q_channel :: string
  q_identity :: run_identity
  q_generation :: "int option"
  q_message_id :: "string option"
  q_include_active_run :: bool

definition mb_load_messaging_state ::
  "(bytes \<Rightarrow> string) \<Rightarrow> (run_identity \<Rightarrow> string) \<Rightarrow> time \<Rightarrow> time \<Rightarrow> state_query \<Rightarrow> memory_backend \<Rightarrow>
   state_snapshot mb_outcome" where
  "mb_load_messaging_state sha256 thread_key now observed_at q mb =
     check (required_identifier ''channel'' (q_channel q)) mb (\<lambda>_.
     check (required_identity (q_identity q)) mb (\<lambda>_.
     case dget (mb_channels mb) (q_channel q) of
       None \<Rightarrow> (Inr (empty_memory_snapshot observed_at), mb)
     | Some ch \<Rightarrow>
         let mb1 = mb_expire now (q_channel q) (thread_key (q_identity q)) mb
         in (memory_state_snapshot sha256 observed_at mb1 (mb_channel (q_channel q) mb1) (q_channel q) (q_identity q)
               (thread_key (q_identity q)) (q_generation q) (q_message_id q) (q_include_active_run q), mb1)))"

definition raise_tombstone :: "string \<Rightarrow> run_identity \<Rightarrow> int \<Rightarrow> cleanup_reason \<Rightarrow> messaging_error" where
  "raise_tombstone channel identity generation reason =
     (case reason of CrExpired \<Rightarrow> StreamExpired channel identity generation
      | CrDeleted \<Rightarrow> StreamDeleted channel identity generation)"

definition generation_unavailable ::
  "memory_backend \<Rightarrow> string \<Rightarrow> run_identity \<Rightarrow> string \<Rightarrow> int \<Rightarrow> messaging_error" where
  "generation_unavailable mb channel identity key generation =
     (case Option.bind (dget (mb_channels mb) channel) (\<lambda>ch. tombstone_reason ch key (Some generation)) of
        Some (g, reason) \<Rightarrow> raise_tombstone channel identity g reason
      | None \<Rightarrow> StreamDeleted channel identity generation)"

definition stream_disposition_error :: "string \<Rightarrow> run_identity \<Rightarrow> int \<Rightarrow> disposition \<Rightarrow> messaging_error" where
  "stream_disposition_error channel identity generation d =
     (if d \<in> {DpExpiring, DpExpired} then StreamExpired channel identity generation
      else StreamDeleted channel identity generation)"

text \<open>The live generation a reader names, after lazy expiry, or the failure it gets.\<close>

definition readable_state ::
  "(run_identity \<Rightarrow> string) \<Rightarrow> time \<Rightarrow> string \<Rightarrow> run_identity \<Rightarrow> int \<Rightarrow> memory_backend \<Rightarrow> stream_state mb_outcome" where
  "readable_state thread_key now channel identity generation mb =
     (let key = thread_key identity
      in case dget (mb_channels mb) channel of
           None \<Rightarrow> (Inl (generation_unavailable mb channel identity key generation), mb)
         | Some ch \<Rightarrow>
             (case expire_if_due now key (ch, mb) of (st, ch1, mb0) \<Rightarrow>
                let mb1 = write_back ch1 mb0
                in case st of
                     None \<Rightarrow> (Inl (generation_unavailable mb1 channel identity key generation), mb1)
                   | Some state \<Rightarrow>
                       if g_generation state \<noteq> generation
                       then (Inl (generation_unavailable mb1 channel identity key generation), mb1)
                       else if g_disposition state \<noteq> DpActive
                       then (Inl (stream_disposition_error channel identity (g_generation state) (g_disposition state)), mb1)
                       else (Inr state, mb1)))"

record message_query =
  mq_channel :: string
  mq_identity :: run_identity
  mq_generation :: int
  mq_after_sequence :: int
  mq_through_sequence :: "int option"
  mq_limit :: int
  mq_stop_at_run_terminal :: bool

record change_cursor =
  cu_message_sequence :: int
  cu_control_sequence :: int

record message_page =
  pg_generation :: int
  pg_latest_sequence :: int
  pg_messages :: "message_envelope list"
  pg_change_cursor :: change_cursor
  pg_run_state :: "stored_run option"

text \<open>A Python slice with non-negative start; a negative end counts from the end.\<close>

definition py_slice :: "'a list \<Rightarrow> int \<Rightarrow> int \<Rightarrow> 'a list" where
  "py_slice xs start stop =
     (let stop' = (if stop < 0 then max 0 (int (length xs) + stop) else stop)
      in take (nat (stop' - start)) (drop (nat start) xs))"

definition page_end :: "message_query \<Rightarrow> stream_state \<Rightarrow> int" where
  "page_end q state =
     (let latest = int (length (g_messages state));
          through = (case mq_through_sequence q of None \<Rightarrow> latest | Some n \<Rightarrow> min n latest);
          through' = (case dget (g_runs state) (i_run_id (mq_identity q)) of
                        Some r \<Rightarrow> if mq_stop_at_run_terminal q \<and> is_final_run_status (m_status r)
                                  then min through (m_end_seq r) else through
                      | None \<Rightarrow> through)
      in min through' (mq_after_sequence q + mq_limit q))"

definition mb_read_committed_messages ::
  "(run_identity \<Rightarrow> string) \<Rightarrow> time \<Rightarrow> message_query \<Rightarrow> memory_backend \<Rightarrow> message_page mb_outcome" where
  "mb_read_committed_messages thread_key now q mb =
     check (require (0 \<le> mq_after_sequence q) (MsgValueError ''after_sequence must be non-negative'')) mb (\<lambda>_.
     check (require (1 \<le> mq_limit q \<and> mq_limit q \<le> 1000) (MsgValueError ''limit must be between 1 and 1000'')) mb (\<lambda>_.
     and_then (readable_state thread_key now (mq_channel q) (mq_identity q) (mq_generation q) mb) (\<lambda>state mb1.
     let latest = int (length (g_messages state))
     in if latest < mq_after_sequence q then (Inl (InvalidCursor (mq_after_sequence q) latest), mb1)
        else (Inr \<lparr>pg_generation = g_generation state, pg_latest_sequence = latest,
               pg_messages = py_slice (g_messages state) (mq_after_sequence q) (page_end q state),
               pg_change_cursor = \<lparr>cu_message_sequence = latest, cu_control_sequence = g_control_sequence state\<rparr>,
               pg_run_state = map_option (\<lambda>r. stored_memory_run r (g_generation state))
                 (dget (g_runs state) (i_run_id (mq_identity q)))\<rparr>, mb1))))"

record change_wait =
  w_channel :: string
  w_identity :: run_identity
  w_generation :: int
  w_after :: change_cursor
  w_timeout :: "duration option"

text \<open>\<open>wait_for_messaging_change\<close> up to the point where it sleeps: \<open>False\<close> when nothing has changed yet.\<close>

definition mb_wait_for_messaging_change ::
  "(run_identity \<Rightarrow> string) \<Rightarrow> time \<Rightarrow> change_wait \<Rightarrow> memory_backend \<Rightarrow> bool mb_outcome" where
  "mb_wait_for_messaging_change thread_key now w mb =
     and_then (readable_state thread_key now (w_channel w) (w_identity w) (w_generation w) mb) (\<lambda>state mb1.
     (Inr (int (length (g_messages state)) \<noteq> cu_message_sequence (w_after w) \<or>
           g_control_sequence state \<noteq> cu_control_sequence (w_after w)), mb1))"

section \<open>Purging a sealed generation\<close>

type_synonym purge_state = "stream_state \<times> memory_backend"

definition release_memory_records :: "int \<Rightarrow> int \<Rightarrow> purge_state \<Rightarrow> purge_state" where
  "release_memory_records released_bytes records = (\<lambda>(state, mb).
     (state\<lparr>g_retained_bytes := g_retained_bytes state - released_bytes,
            g_retained_records := g_retained_records state - records\<rparr>,
      mb\<lparr>mb_total_bytes := mb_total_bytes mb - released_bytes, mb_total_records := mb_total_records mb - records\<rparr>))"

definition pop_message :: "stream_state \<Rightarrow> int \<times> stream_state" where
  "pop_message state =
     (let message = last (g_messages state); mid = e_message_id message
      in (int (length (e_payload message)) +
            checkpoint_bytes (Option.bind (dget (g_signatures state) mid) (\<lambda>(run_id, codec, payload, checkpoint). checkpoint)),
          state\<lparr>g_messages := butlast (g_messages state), g_by_message_id := ddel mid (g_by_message_id state),
                g_signatures := ddel mid (g_signatures state)\<rparr>))"

fun purge_messages :: "nat \<Rightarrow> purge_state \<Rightarrow> nat \<times> purge_state" where
  "purge_messages 0 p = (0, p)"
| "purge_messages (Suc n) (state, mb) =
     (if g_messages state = [] then (Suc n, state, mb)
      else case pop_message state of (released, state') \<Rightarrow>
             purge_messages n (release_memory_records released 1 (state', mb)))"

fun purge_runs :: "nat \<Rightarrow> purge_state \<Rightarrow> nat \<times> purge_state" where
  "purge_runs 0 p = (0, p)"
| "purge_runs (Suc n) (state, mb) =
     (case g_runs state of
        [] \<Rightarrow> (Suc n, state, mb)
      | (rid, run) # runs \<Rightarrow>
          purge_runs n (release_memory_records (checkpoint_bytes (m_checkpoint run)) 1 (state\<lparr>g_runs := runs\<rparr>, mb)))"

text \<open>The loops share the bound: each returns what is left of it.\<close>

definition mb_purge_stream_generation ::
  "(run_identity \<Rightarrow> string) \<Rightarrow> string \<Rightarrow> run_identity \<Rightarrow> int \<Rightarrow> int \<Rightarrow> memory_backend \<Rightarrow> (int \<times> bool) mb_outcome" where
  "mb_purge_stream_generation thread_key channel identity generation maximum_records mb =
     check (require (1 \<le> maximum_records) (MsgValueError ''maximum_records must be positive'')) mb (\<lambda>_.
     case dget (mb_channels mb) channel of
       None \<Rightarrow> (Inr (0, True), mb)
     | Some ch \<Rightarrow>
         (case dget (c_streams ch) (thread_key identity) of
            None \<Rightarrow> (Inr (0, True), mb)
          | Some state \<Rightarrow>
              if g_generation state \<noteq> generation then (Inr (0, True), mb)
              else if g_disposition state \<notin> {DpDeleting, DpExpiring}
              then (Inl (StreamDeleteConflict channel identity
                     (case g_active_identity state of None \<Rightarrow> identity | Some active \<Rightarrow> active)), mb)
              else
                case purge_messages (nat maximum_records) (state, mb) of (left1, p1) \<Rightarrow>
                case purge_runs left1 p1 of (left2, state', mb') \<Rightarrow>
                  (Inr (maximum_records - int left2, g_messages state' = [] \<and> g_runs state' = []),
                   write_back (ch\<lparr>c_streams := dput (thread_key identity) state' (c_streams ch)\<rparr>) mb')))"

end
