(* ===== verification/Messaging_Ledger.thy ===== *)
theory Messaging_Ledger
  imports Messaging_Memory
begin

text \<open>
  \<open>_messaging_ledger.py\<close>: the lifecycle every Messaging backend is used through. The ledger borrows a
  backend, which is the record of the operations of the \<open>MessagingBackend\<close> protocol over a state of its
  own; each operation below threads that state through its calls. Fresh transition identifiers are
  arguments. A loop that need not end returns \<open>None\<close> when it does not; the three loops that wait are
  modelled up to the point where they would sleep.
\<close>

section \<open>The borrowed backend\<close>

record generation_purge =
  gp_channel :: string
  gp_identity :: run_identity
  gp_generation :: int
  gp_maximum_records :: int
  gp_cleanup_token :: "string option"

record purge_progress =
  pp_removed_records :: int
  pp_complete :: bool

record 's backend_ops =
  bk_settings :: "'s \<Rightarrow> backend_settings"
  bk_commit :: "messaging_transition \<Rightarrow> 's \<Rightarrow> (messaging_error, 's, transition_result) outcome"
  bk_load :: "state_query \<Rightarrow> 's \<Rightarrow> (messaging_error, 's, state_snapshot) outcome"
  bk_read :: "message_query \<Rightarrow> 's \<Rightarrow> (messaging_error, 's, message_page) outcome"
  bk_wait :: "change_wait \<Rightarrow> 's \<Rightarrow> (messaging_error, 's, bool) outcome"
  bk_purge :: "generation_purge \<Rightarrow> 's \<Rightarrow> (messaging_error, 's, purge_progress) outcome"

text \<open>Sequencing of computations that may not return.\<close>

definition and_thenO ::
  "('e, 's, 'a) outcome option \<Rightarrow> ('a \<Rightarrow> 's \<Rightarrow> ('e, 's, 'b) outcome option) \<Rightarrow> ('e, 's, 'b) outcome option" where
  "and_thenO r k = (case r of None \<Rightarrow> None | Some (Inl e, s) \<Rightarrow> Some (Inl e, s) | Some (Inr a, s) \<Rightarrow> k a s)"

lemma and_thenO_simps [simp]:
  "and_thenO None k = None"
  "and_thenO (Some (Inl e, s)) k = Some (Inl e, s)"
  "and_thenO (Some (Inr a, s)) k = k a s"
  by (simp_all add: and_thenO_def)

definition checkO :: "'e + 'a \<Rightarrow> 's \<Rightarrow> ('a \<Rightarrow> ('e, 's, 'b) outcome option) \<Rightarrow> ('e, 's, 'b) outcome option" where
  "checkO r s k = (case r of Inl e \<Rightarrow> Some (Inl e, s) | Inr a \<Rightarrow> k a)"

lemma checkO_simps [simp]:
  "checkO (Inl e) s k = Some (Inl e, s)"
  "checkO (Inr a) s k = k a"
  by (simp_all add: checkO_def)

definition required_value :: "'a option \<Rightarrow> string \<Rightarrow> messaging_error + 'a" where
  "required_value value message = (case value of None \<Rightarrow> Inl (MessagingBackendProtocolError message) | Some v \<Rightarrow> Inr v)"

section \<open>Handles\<close>

record run_handle =
  bh_channel :: string
  bh_identity :: run_identity
  bh_owner_token :: "string option"
  bh_fence :: "int option"
  bh_generation :: "int option"

record prepared_run =
  pr_handle :: run_handle
  pr_after :: int
  pr_is_owner :: bool
  pr_checkpoint :: "recovery_checkpoint option"
  pr_recovered :: bool

definition required_generation :: "run_handle \<Rightarrow> messaging_error + int" where
  "required_generation handle =
     (case bh_generation handle of None \<Rightarrow> Inl (MsgValueError ''bound handle requires a generation'') | Some g \<Rightarrow> Inr g)"

definition storage_reference :: "run_handle \<Rightarrow> bool \<Rightarrow> messaging_error + run_reference" where
  "storage_reference handle require_owner =
     bindE (required_generation handle) (\<lambda>generation.
     if require_owner \<and> (bh_owner_token handle = None \<or> bh_fence handle = None)
     then Inl (MsgValueError ''producer handle requires owner token and fence'')
     else Inr \<lparr>rr_channel = bh_channel handle, rr_identity = bh_identity handle, rr_generation = generation,
            rr_producer_token = bh_owner_token handle, rr_producer_fence = bh_fence handle\<rparr>)"

definition internal_handle :: "run_reference \<Rightarrow> run_handle" where
  "internal_handle reference =
     \<lparr>bh_channel = rr_channel reference, bh_identity = rr_identity reference, bh_owner_token = rr_producer_token reference,
      bh_fence = rr_producer_fence reference, bh_generation = Some (rr_generation reference)\<rparr>"

definition with_generation :: "run_handle \<Rightarrow> int \<Rightarrow> run_handle" where
  "with_generation handle generation =
     (if bh_generation handle = Some generation then handle
      else \<lparr>bh_channel = bh_channel handle, bh_identity = bh_identity handle, bh_owner_token = bh_owner_token handle,
             bh_fence = bh_fence handle, bh_generation = Some generation\<rparr>)"

section \<open>Validation and failures\<close>

definition validate_append_input ::
  "run_handle \<Rightarrow> string \<Rightarrow> string \<Rightarrow> bytes \<Rightarrow> recovery_checkpoint option \<Rightarrow> messaging_limits \<Rightarrow> messaging_error + unit" where
  "validate_append_input handle message_id codec payload checkpoint limits =
     bindE (required_identifier ''channel'' (bh_channel handle)) (\<lambda>_.
     bindE (required_identity (bh_identity handle)) (\<lambda>_.
     bindE (required_identifier ''message_id'' message_id) (\<lambda>_.
     bindE (required_identifier ''codec'' codec) (\<lambda>_.
     bindE (require (\<forall>c \<in> set_option checkpoint. cp_last_message_id c = Some message_id)
       (MsgValueError ''checkpoint.last_message_id must match message_id'')) (\<lambda>_.
     check_message_size limits payload checkpoint)))))"

definition validate_page :: "int \<Rightarrow> int \<Rightarrow> messaging_error + unit" where
  "validate_page after limit =
     bindE (require (0 \<le> after) (MsgValueError ''after must be greater than or equal to zero'')) (\<lambda>_.
     require (1 \<le> limit \<and> limit \<le> 1000) (MsgValueError ''limit must be between 1 and 1000''))"

definition ledger_raise_tombstone ::
  "state_snapshot \<Rightarrow> string \<Rightarrow> run_identity \<Rightarrow> int option \<Rightarrow> messaging_error + unit" where
  "ledger_raise_tombstone state channel identity generation =
     (case ss_tombstone_generation state of
        None \<Rightarrow> Inr ()
      | Some tombstone \<Rightarrow>
          if generation = None \<and> ss_stream state \<noteq> None then Inr ()
          else if generation = None \<and> ss_tombstone_reason state = Some CrDeleted then Inr ()
          else if generation \<noteq> None \<and> generation \<noteq> Some tombstone then Inr ()
          else case ss_tombstone_reason state of
                 Some CrExpired \<Rightarrow> Inl (StreamExpired channel identity tombstone)
               | Some CrDeleted \<Rightarrow> Inl (StreamDeleted channel identity tombstone)
               | None \<Rightarrow> Inr ())"

definition ledger_raise_disposition :: "state_snapshot \<Rightarrow> string \<Rightarrow> run_identity \<Rightarrow> messaging_error + unit" where
  "ledger_raise_disposition state channel identity =
     (case ss_stream state of
        None \<Rightarrow> Inr ()
      | Some stream \<Rightarrow>
          if st_disposition stream \<in> {DpExpiring, DpExpired} then Inl (StreamExpired channel identity (st_generation stream))
          else if st_disposition stream \<in> {DpDeleting, DpDeleted} then Inl (StreamDeleted channel identity (st_generation stream))
          else Inr ())"

definition run_failure :: "stored_run \<Rightarrow> failure" where
  "run_failure run =
     (case sr_local_failure run of
        Some f \<Rightarrow> f
      | None \<Rightarrow>
          let summary = (if sr_failure_message run = [] then ''producer stopped without failure details''
                         else sr_failure_message run)
          in \<lparr>f_class = ''builtins.RuntimeError'',
              f_message = (if sr_failure_class run = [] then summary else sr_failure_class run @ '': '' @ summary)\<rparr>)"

definition change_wait_timeout :: "backend_settings \<Rightarrow> stored_run \<Rightarrow> duration option" where
  "change_wait_timeout settings run =
     (case (sr_lease_remaining run, bs_change_wait_timeout settings) of
        (None, configured) \<Rightarrow> configured
      | (Some remaining, None) \<Rightarrow> Some (max 1000 remaining)
      | (Some remaining, Some configured) \<Rightarrow> Some (max 1000 (min configured remaining)))"

section \<open>Cleaning up a generation\<close>

partial_function (option) purge_loop ::
  "'s backend_ops \<Rightarrow> generation_purge \<Rightarrow> 's \<Rightarrow> (messaging_error, 's, unit) outcome option" where
  "purge_loop B p s =
     (case bk_purge B p s of
        (Inl e, s1) \<Rightarrow> Some (Inl e, s1)
      | (Inr progress, s1) \<Rightarrow> if pp_complete progress then Some (Inr (), s1) else purge_loop B p s1)"

definition cleanup_begin :: "'s backend_ops \<Rightarrow> string \<Rightarrow> string \<Rightarrow> run_identity \<Rightarrow> cleanup_reason \<Rightarrow> 's \<Rightarrow> messaging_transition" where
  "cleanup_begin B uid channel identity reason s =
     (default_transition BeginGenerationCleanup uid channel identity (bk_settings B s))\<lparr>tr_cleanup_reason := Some reason\<rparr>"

definition cleanup_finish ::
  "'s backend_ops \<Rightarrow> string \<Rightarrow> string \<Rightarrow> run_identity \<Rightarrow> int \<Rightarrow> cleanup_reason \<Rightarrow> string option \<Rightarrow> 's \<Rightarrow> messaging_transition" where
  "cleanup_finish B uid channel identity generation reason token s =
     (default_transition FinishGenerationCleanup uid channel identity (bk_settings B s))
       \<lparr>tr_cleanup_generation := Some generation, tr_cleanup_reason := Some reason, tr_cleanup_token := token\<rparr>"

definition cleanup_generation ::
  "'s backend_ops \<Rightarrow> (nat \<Rightarrow> string) \<Rightarrow> string \<Rightarrow> run_identity \<Rightarrow> cleanup_reason \<Rightarrow> 's \<Rightarrow>
   (messaging_error, 's, unit) outcome option" where
  "cleanup_generation B uid channel identity reason s =
     and_thenO (Some (bk_commit B (cleanup_begin B (uid 0) channel identity reason s) s)) (\<lambda>begun s1.
     if \<not> re_cleanup_required begun then Some (Inr (), s1)
     else case (re_cleanup_generation begun, re_cleanup_reason begun) of
       (Some generation, Some sealed) \<Rightarrow>
         and_thenO (purge_loop B \<lparr>gp_channel = channel, gp_identity = identity, gp_generation = generation,
           gp_maximum_records = 64, gp_cleanup_token = re_cleanup_token begun\<rparr> s1) (\<lambda>_ s2.
         and_thenO (Some (bk_commit B (cleanup_finish B (uid 1) channel identity generation sealed (re_cleanup_token begun) s2) s2))
           (\<lambda>_ s3. Some (Inr (), s3)))
     | _ \<Rightarrow> Some (Inl (MessagingBackendProtocolError
              ''Messaging backend returned incomplete generation cleanup evidence''), s1))"

definition load_current_state ::
  "'s backend_ops \<Rightarrow> (nat \<Rightarrow> string) \<Rightarrow> string \<Rightarrow> run_identity \<Rightarrow> bool \<Rightarrow> 's \<Rightarrow>
   (messaging_error, 's, state_snapshot) outcome option" where
  "load_current_state B uid channel identity include_active_run s =
     (let query = \<lparr>q_channel = channel, q_identity = identity, q_generation = None, q_message_id = None,
            q_include_active_run = include_active_run\<rparr>
      in and_thenO (Some (bk_load B query s)) (\<lambda>state s1.
         case ss_stream state of
           None \<Rightarrow> Some (Inr state, s1)
         | Some stream \<Rightarrow>
             if \<not> (st_retention_expired stream \<or> st_disposition stream = DpExpiring) then Some (Inr state, s1)
             else and_thenO (cleanup_generation B uid channel identity CrExpired s1) (\<lambda>_ s2. Some (bk_load B query s2))))"

definition ledger_delete_stream ::
  "'s backend_ops \<Rightarrow> (nat \<Rightarrow> string) \<Rightarrow> string \<Rightarrow> run_identity \<Rightarrow> 's \<Rightarrow> (messaging_error, 's, unit) outcome option" where
  "ledger_delete_stream B uid channel identity s =
     checkO (required_identifier ''channel'' channel) s (\<lambda>_.
     checkO (required_identity identity) s (\<lambda>_.
     and_thenO (load_current_state B uid channel identity True s) (\<lambda>state s1.
     if ss_stream state = None then Some (Inr (), s1)
     else cleanup_generation B (\<lambda>n. uid (n + 2)) channel identity CrDeleted s1)))"

section \<open>Producing\<close>

definition ledger_prepare ::
  "'s backend_ops \<Rightarrow> (nat \<Rightarrow> string) \<Rightarrow> string \<Rightarrow> run_identity \<Rightarrow> string \<Rightarrow> int option \<Rightarrow> bool \<Rightarrow> bool \<Rightarrow> 's \<Rightarrow>
   (messaging_error, 's, prepared_run) outcome option" where
  "ledger_prepare B uid channel identity codec after cancellable recoverable s =
     and_thenO (if terminal_ttl (bs_retention_policy (bk_settings B s)) \<noteq> None
                then and_thenO (load_current_state B (\<lambda>n. uid (n + 1)) channel identity False s) (\<lambda>_ s1. Some (Inr (), s1))
                else Some (Inr (), s)) (\<lambda>_ s1.
     and_thenO (Some (bk_commit B ((default_transition PrepareRun (uid 0) channel identity (bk_settings B s1))
       \<lparr>tr_codec_id := Some codec, tr_after_sequence := after, tr_cancellable := cancellable, tr_recoverable := recoverable\<rparr>) s1))
       (\<lambda>result s2.
     case (re_run_reference result, re_after_sequence result, re_is_producer_owner result) of
       (Some reference, Some cursor, Some owner) \<Rightarrow>
         Some (Inr \<lparr>pr_handle = internal_handle reference, pr_after = cursor, pr_is_owner = owner,
           pr_checkpoint = re_checkpoint result, pr_recovered = re_recovered result\<rparr>, s2)
     | _ \<Rightarrow> Some (Inl (MessagingBackendProtocolError ''Messaging backend returned an incomplete preparation result''), s2)))"

definition ledger_append ::
  "'s backend_ops \<Rightarrow> run_handle \<Rightarrow> string \<Rightarrow> string \<Rightarrow> bytes \<Rightarrow> recovery_checkpoint option \<Rightarrow> bool \<Rightarrow> bool \<Rightarrow> 's \<Rightarrow>
   (messaging_error, 's, message_envelope) outcome" where
  "ledger_append B handle message_id codec payload checkpoint closes opens s =
     check (validate_append_input handle message_id codec payload checkpoint (bs_limits (bk_settings B s))) s (\<lambda>_.
     check (storage_reference handle True) s (\<lambda>reference.
     and_then (bk_commit B ((default_transition AppendMessage message_id (bh_channel handle) (bh_identity handle) (bk_settings B s))
       \<lparr>tr_run_reference := Some reference, tr_codec_id := Some codec, tr_message_id := Some message_id,
        tr_payload := Some payload, tr_checkpoint := checkpoint, tr_closes_publication := closes,
        tr_opens_publication := opens\<rparr>) s) (\<lambda>result s1.
     (required_value (re_envelope result) ''Messaging backend returned no envelope for an append'', s1))))"

definition ledger_publish ::
  "'s backend_ops \<Rightarrow> (nat \<Rightarrow> string) \<Rightarrow> string \<Rightarrow> run_identity \<Rightarrow> string \<Rightarrow> string \<Rightarrow> bytes \<Rightarrow> 's \<Rightarrow>
   (messaging_error, 's, message_envelope) outcome option" where
  "ledger_publish B uid channel identity message_id codec payload s =
     and_thenO (load_current_state B uid channel identity False s) (\<lambda>state s1.
     case ss_target_run state of
       None \<Rightarrow> Some (Inl (RunNotFound identity), s1)
     | Some run \<Rightarrow>
         let handle = \<lparr>bh_channel = channel, bh_identity = identity, bh_owner_token = None, bh_fence = None,
               bh_generation = Some (sr_generation run)\<rparr>
         in Some (check (validate_append_input handle message_id codec payload None (bs_limits (bk_settings B s1))) s1 (\<lambda>_.
                  check (storage_reference handle False) s1 (\<lambda>reference.
                  and_then (bk_commit B ((default_transition PublishMessage message_id channel identity (bk_settings B s1))
                    \<lparr>tr_run_reference := Some reference, tr_codec_id := Some codec, tr_message_id := Some message_id,
                     tr_payload := Some payload\<rparr>) s1) (\<lambda>result s2.
                  (required_value (re_envelope result) ''Messaging backend returned no published envelope'', s2))))))"

definition ledger_begin_settlement ::
  "'s backend_ops \<Rightarrow> string \<Rightarrow> run_handle \<Rightarrow> 's \<Rightarrow> (messaging_error, 's, bool) outcome" where
  "ledger_begin_settlement B uid handle s =
     check (storage_reference handle True) s (\<lambda>reference.
     and_then (bk_commit B ((default_transition BeginSettlement uid (bh_channel handle) (bh_identity handle) (bk_settings B s))
       \<lparr>tr_run_reference := Some reference\<rparr>) s) (\<lambda>result s1.
     (required_value (re_cancellation_preceded result) ''Messaging backend returned no settlement decision'', s1)))"

definition ledger_finish ::
  "'s backend_ops \<Rightarrow> string \<Rightarrow> run_handle \<Rightarrow> run_status \<Rightarrow> failure option \<Rightarrow> 's \<Rightarrow> (messaging_error, 's, unit) outcome" where
  "ledger_finish B uid handle status error s =
     check (storage_reference handle True) s (\<lambda>reference.
     and_then (bk_commit B ((default_transition FinishRun uid (bh_channel handle) (bh_identity handle) (bk_settings B s))
       \<lparr>tr_run_reference := Some reference, tr_final_status := Some status, tr_failure := error\<rparr>) s) (\<lambda>result s1.
     (require (\<exists>st \<in> set_option (re_run_status result). is_final_run_status st)
        (MessagingBackendProtocolError ''Messaging backend returned no terminal status''), s1)))"

definition ledger_request_cancel ::
  "'s backend_ops \<Rightarrow> string \<Rightarrow> run_handle \<Rightarrow> 's \<Rightarrow> (messaging_error, 's, bool) outcome" where
  "ledger_request_cancel B uid handle s =
     check (if bh_generation handle = None then Inr None else bindE (storage_reference handle False) (\<lambda>r. Inr (Some r))) s
       (\<lambda>reference.
     and_then (bk_commit B ((default_transition RequestCancellation uid (bh_channel handle) (bh_identity handle) (bk_settings B s))
       \<lparr>tr_run_reference := reference\<rparr>) s) (\<lambda>result s1.
     (required_value (re_cancellation_requested result) ''Messaging backend returned no cancellation decision'', s1)))"

definition ledger_renew :: "'s backend_ops \<Rightarrow> string \<Rightarrow> run_handle \<Rightarrow> 's \<Rightarrow> (messaging_error, 's, bool) outcome" where
  "ledger_renew B uid handle s =
     check (storage_reference handle True) s (\<lambda>reference.
     and_then (bk_commit B ((default_transition RenewProducerOwnership uid (bh_channel handle) (bh_identity handle) (bk_settings B s))
       \<lparr>tr_run_reference := Some reference\<rparr>) s) (\<lambda>result s1.
     (required_value (re_ownership_confirmed result) ''Messaging backend returned no producer ownership decision'', s1)))"

definition reconcile_bound_ownership ::
  "'s backend_ops \<Rightarrow> string \<Rightarrow> run_handle \<Rightarrow> 's \<Rightarrow> (messaging_error, 's, run_status) outcome" where
  "reconcile_bound_ownership B uid handle s =
     check (storage_reference handle False) s (\<lambda>reference.
     and_then (bk_commit B ((default_transition ReconcileProducerOwnership uid (bh_channel handle) (bh_identity handle) (bk_settings B s))
       \<lparr>tr_run_reference := Some reference\<rparr>) s) (\<lambda>result s1.
     (required_value (re_run_status result) ''Messaging backend returned no reconciled run status'', s1)))"

section \<open>Reading\<close>

text \<open>A stream a reader can use: none counts as empty, a deleted one as well, an expired one is an error.\<close>

definition current_stream ::
  "state_snapshot \<Rightarrow> string \<Rightarrow> run_identity \<Rightarrow> messaging_error + stored_stream option" where
  "current_stream state channel identity =
     (case ss_stream state of
        None \<Rightarrow> Inr None
      | Some stream \<Rightarrow>
          if st_disposition stream \<in> {DpDeleted, DpDeleting} then Inr None
          else if st_disposition stream \<in> {DpExpired, DpExpiring} then Inl (StreamExpired channel identity (st_generation stream))
          else Inr (Some stream))"

definition ledger_latest_seq ::
  "'s backend_ops \<Rightarrow> (nat \<Rightarrow> string) \<Rightarrow> string \<Rightarrow> run_identity \<Rightarrow> 's \<Rightarrow> (messaging_error, 's, int) outcome option" where
  "ledger_latest_seq B uid channel identity s =
     checkO (required_identifier ''channel'' channel) s (\<lambda>_.
     checkO (required_identity identity) s (\<lambda>_.
     and_thenO (load_current_state B uid channel identity False s) (\<lambda>state s1.
     checkO (ledger_raise_tombstone state channel identity None) s1 (\<lambda>_.
     checkO (current_stream state channel identity) s1 (\<lambda>stream.
     Some (Inr (case stream of None \<Rightarrow> 0 | Some st \<Rightarrow> st_latest_sequence st), s1))))))"

definition ledger_get_run_status ::
  "'s backend_ops \<Rightarrow> (nat \<Rightarrow> string) \<Rightarrow> string \<Rightarrow> run_identity \<Rightarrow> 's \<Rightarrow> (messaging_error, 's, run_status) outcome option" where
  "ledger_get_run_status B uid channel identity s =
     checkO (required_identifier ''channel'' channel) s (\<lambda>_.
     checkO (required_identity identity) s (\<lambda>_.
     and_thenO (load_current_state B (\<lambda>n. uid (n + 1)) channel identity False s) (\<lambda>state s1.
     if ss_stream state = None \<and> ss_tombstone_reason state = Some CrDeleted then Some (Inl (RunNotFound identity), s1)
     else
       checkO (ledger_raise_tombstone state channel identity None) s1 (\<lambda>_.
       Some (and_then (bk_commit B (default_transition ReconcileProducerOwnership (uid 0) channel identity (bk_settings B s1)) s1)
         (\<lambda>result s2. (required_value (re_run_status result) ''Messaging backend returned no run status'', s2)))))))"

definition ledger_read ::
  "'s backend_ops \<Rightarrow> (nat \<Rightarrow> string) \<Rightarrow> string \<Rightarrow> run_identity \<Rightarrow> int \<Rightarrow> int \<Rightarrow> 's \<Rightarrow>
   (messaging_error, 's, message_envelope list) outcome option" where
  "ledger_read B uid channel identity after limit s =
     checkO (validate_page after limit) s (\<lambda>_.
     checkO (required_identifier ''channel'' channel) s (\<lambda>_.
     checkO (required_identity identity) s (\<lambda>_.
     and_thenO (load_current_state B uid channel identity False s) (\<lambda>state s1.
     checkO (ledger_raise_tombstone state channel identity None) s1 (\<lambda>_.
     checkO (current_stream state channel identity) s1 (\<lambda>found.
     case found of
       None \<Rightarrow> Some (if 0 < after then Inl (InvalidCursor after 0) else Inr [], s1)
     | Some stream \<Rightarrow>
         if st_latest_sequence stream < after then Some (Inl (InvalidCursor after (st_latest_sequence stream)), s1)
         else and_thenO (Some (bk_read B \<lparr>mq_channel = channel, mq_identity = identity, mq_generation = st_generation stream,
                mq_after_sequence = after, mq_through_sequence = None, mq_limit = limit, mq_stop_at_run_terminal = False\<rparr> s1))
                (\<lambda>page s2. Some (Inr (pg_messages page), s2))))))))"

definition ledger_bind_follow ::
  "'s backend_ops \<Rightarrow> (nat \<Rightarrow> string) \<Rightarrow> string \<Rightarrow> run_identity \<Rightarrow> int \<Rightarrow> 's \<Rightarrow> (messaging_error, 's, run_handle) outcome option" where
  "ledger_bind_follow B uid channel identity after s =
     checkO (validate_page after 1) s (\<lambda>_.
     checkO (required_identifier ''channel'' channel) s (\<lambda>_.
     checkO (required_identity identity) s (\<lambda>_.
     and_thenO (load_current_state B uid channel identity False s) (\<lambda>state s1.
     checkO (ledger_raise_tombstone state channel identity None) s1 (\<lambda>_.
     case (ss_stream state, ss_target_run state) of
       (Some stream, Some run) \<Rightarrow>
         checkO (ledger_raise_disposition state channel identity) s1 (\<lambda>_.
         if st_latest_sequence stream < after then Some (Inl (InvalidCursor after (st_latest_sequence stream)), s1)
         else Some (Inr \<lparr>bh_channel = channel, bh_identity = identity, bh_owner_token = None, bh_fence = None,
                bh_generation = Some (st_generation stream)\<rparr>, s1))
     | _ \<Rightarrow> Some (Inl (RunNotFound identity), s1))))))"

definition load_bound_state ::
  "'s backend_ops \<Rightarrow> run_handle \<Rightarrow> 's \<Rightarrow> (messaging_error, 's, state_snapshot) outcome" where
  "load_bound_state B handle s =
     check (required_generation handle) s (\<lambda>generation.
     and_then (bk_load B \<lparr>q_channel = bh_channel handle, q_identity = bh_identity handle, q_generation = Some generation,
       q_message_id = None, q_include_active_run = False\<rparr> s) (\<lambda>state s1.
     check (ledger_raise_tombstone state (bh_channel handle) (bh_identity handle) (Some generation)) s1 (\<lambda>_.
     check (ledger_raise_disposition state (bh_channel handle) (bh_identity handle)) s1 (\<lambda>_.
     (Inr state, s1)))))"

definition resolve_handle_generation ::
  "'s backend_ops \<Rightarrow> (nat \<Rightarrow> string) \<Rightarrow> run_handle \<Rightarrow> 's \<Rightarrow> (messaging_error, 's, int) outcome option" where
  "resolve_handle_generation B uid handle s =
     (case bh_generation handle of
        Some generation \<Rightarrow> Some (Inr generation, s)
      | None \<Rightarrow>
          and_thenO (load_current_state B uid (bh_channel handle) (bh_identity handle) False s) (\<lambda>state s1.
          checkO (ledger_raise_tombstone state (bh_channel handle) (bh_identity handle) None) s1 (\<lambda>_.
          case (ss_stream state, ss_target_run state) of
            (Some stream, Some run) \<Rightarrow>
              checkO (ledger_raise_disposition state (bh_channel handle) (bh_identity handle)) s1 (\<lambda>_.
              Some (Inr (st_generation stream), s1))
          | _ \<Rightarrow> Some (Inl (RunNotFound (bh_identity handle)), s1))))"

section \<open>Following and waiting\<close>

text \<open>What a loop that may sleep ends with: its value, or the change it is about to wait for.\<close>

datatype 'a waited = Ready 'a | Asleep change_wait

definition follow_query :: "run_handle \<Rightarrow> int \<Rightarrow> int \<Rightarrow> message_query" where
  "follow_query handle generation cursor =
     \<lparr>mq_channel = bh_channel handle, mq_identity = bh_identity handle, mq_generation = generation, mq_after_sequence = cursor,
      mq_through_sequence = None, mq_limit = 1000, mq_stop_at_run_terminal = True\<rparr>"

definition change_after :: "run_handle \<Rightarrow> int \<Rightarrow> int \<Rightarrow> int \<Rightarrow> duration option \<Rightarrow> change_wait" where
  "change_after handle generation message_sequence control_sequence timeout =
     \<lparr>w_channel = bh_channel handle, w_identity = bh_identity handle, w_generation = generation,
      w_after = \<lparr>cu_message_sequence = message_sequence, cu_control_sequence = control_sequence\<rparr>, w_timeout = timeout\<rparr>"

text \<open>
  One iteration of the generator of \<open>follow\<close>: the messages it yields, and either how the generator ends or
  the cursor to go on from.
\<close>

definition follow_turn ::
  "'s backend_ops \<Rightarrow> string \<Rightarrow> run_handle \<Rightarrow> int \<Rightarrow> int \<Rightarrow> 's \<Rightarrow>
   message_envelope list \<times> ((messaging_error, 's, unit waited) outcome + int \<times> 's)" where
  "follow_turn B uid handle generation cursor s =
     (case bk_read B (follow_query handle generation cursor) s of
        (Inl e, s1) \<Rightarrow> ([], Inl (Inl e, s1))
      | (Inr page, s1) \<Rightarrow>
          (case pg_run_state page of
             None \<Rightarrow> ([], Inl (Inl (MessagingBackendProtocolError ''Messaging backend omitted the requested run boundary''), s1))
           | Some run \<Rightarrow>
               let terminal = is_final_run_status (sr_status run);
                   cursor1 = (if pg_messages page = [] then cursor else e_seq (last (pg_messages page)))
               in (pg_messages page,
                   if terminal \<and> sr_end_sequence run \<le> cursor1
                   then Inl (if is_failed_run_status (sr_status run)
                             then Inl (RunProducerFailed (bh_identity handle) (run_failure run)) else Inr (Ready ()), s1)
                   else if \<not> terminal \<and> \<not> sr_producer_lease_active run
                   then (case reconcile_bound_ownership B uid (with_generation handle generation) s1 of
                           (Inl e, s2) \<Rightarrow> Inl (Inl e, s2)
                         | (Inr status, s2) \<Rightarrow> Inr (cursor1, s2))
                   else if cursor1 < sr_end_sequence run then Inr (cursor1, s1)
                   else
                     let w = change_after handle generation (cu_message_sequence (pg_change_cursor page))
                               (cu_control_sequence (pg_change_cursor page)) (change_wait_timeout (bk_settings B s1) run)
                     in (case bk_wait B w s1 of
                           (Inl e, s2) \<Rightarrow> Inl (Inl e, s2)
                         | (Inr changed, s2) \<Rightarrow> if changed then Inr (cursor1, s2) else Inl (Inr (Asleep w), s2)))))"

text \<open>\<open>turn\<close> counts the iterations, which is all that tells the fresh identifiers of reconciliations apart.\<close>

partial_function (option) follow_loop ::
  "'s backend_ops \<Rightarrow> (nat \<Rightarrow> string) \<Rightarrow> run_handle \<Rightarrow> int \<Rightarrow> nat \<Rightarrow> int \<Rightarrow> message_envelope list \<Rightarrow> 's \<Rightarrow>
   (message_envelope list \<times> (messaging_error, 's, unit waited) outcome) option" where
  "follow_loop B uid handle generation turn cursor seen s =
     (case follow_turn B (uid turn) handle generation cursor s of
        (new, Inl ending) \<Rightarrow> Some (seen @ new, ending)
      | (new, Inr (cursor1, s1)) \<Rightarrow> follow_loop B uid handle generation (Suc turn) cursor1 (seen @ new) s1)"

definition ledger_follow ::
  "'s backend_ops \<Rightarrow> (nat \<Rightarrow> string) \<Rightarrow> run_handle \<Rightarrow> int \<Rightarrow> 's \<Rightarrow>
   (message_envelope list \<times> (messaging_error, 's, unit waited) outcome) option" where
  "ledger_follow B uid handle after s =
     (case resolve_handle_generation B uid handle s of
        None \<Rightarrow> None
      | Some (Inl e, s1) \<Rightarrow> Some ([], Inl e, s1)
      | Some (Inr generation, s1) \<Rightarrow> follow_loop B (\<lambda>n. uid (n + 2)) handle generation 0 after [] s1)"

text \<open>
  One iteration of \<open>wait_for_cancel\<close> and \<open>wait_finished\<close>: \<open>verdict\<close> is what each returns for a status.
\<close>

definition wait_turn ::
  "'s backend_ops \<Rightarrow> string \<Rightarrow> (run_status \<Rightarrow> 'a option) \<Rightarrow> run_handle \<Rightarrow> int \<Rightarrow> 's \<Rightarrow>
   (messaging_error, 's, 'a waited) outcome + 's" where
  "wait_turn B uid verdict handle generation s =
     (case load_bound_state B handle s of
        (Inl e, s1) \<Rightarrow> Inl (Inl e, s1)
      | (Inr state, s1) \<Rightarrow>
          (case (ss_target_run state, ss_stream state) of
             (Some run, Some stream) \<Rightarrow>
               (case verdict (sr_status run) of
                  Some v \<Rightarrow> Inl (Inr (Ready v), s1)
                | None \<Rightarrow>
                    if \<not> sr_producer_lease_active run
                    then (case reconcile_bound_ownership B uid handle s1 of
                            (Inl e, s2) \<Rightarrow> Inl (Inl e, s2)
                          | (Inr status, s2) \<Rightarrow> Inr s2)
                    else
                      let w = change_after handle generation (st_message_sequence stream) (st_control_sequence stream)
                                (change_wait_timeout (bk_settings B s1) run)
                      in (case bk_wait B w s1 of
                            (Inl e, s2) \<Rightarrow> Inl (Inl e, s2)
                          | (Inr changed, s2) \<Rightarrow> if changed then Inr s2 else Inl (Inr (Asleep w), s2)))
           | _ \<Rightarrow> Inl (Inl (RunNotFound (bh_identity handle)), s1)))"

partial_function (option) wait_loop ::
  "'s backend_ops \<Rightarrow> (nat \<Rightarrow> string) \<Rightarrow> (run_status \<Rightarrow> 'a option) \<Rightarrow> run_handle \<Rightarrow> int \<Rightarrow> nat \<Rightarrow> 's \<Rightarrow>
   (messaging_error, 's, 'a waited) outcome option" where
  "wait_loop B uid verdict handle generation turn s =
     (case wait_turn B (uid turn) verdict handle generation s of
        Inl ending \<Rightarrow> Some ending
      | Inr s1 \<Rightarrow> wait_loop B uid verdict handle generation (Suc turn) s1)"

definition cancel_verdict :: "run_status \<Rightarrow> bool option" where
  "cancel_verdict status =
     (if status = RsCancelRequested then Some True else if is_final_run_status status then Some False else None)"

definition finish_verdict :: "run_status \<Rightarrow> run_status option" where
  "finish_verdict status = (if is_final_run_status status then Some status else None)"

definition ledger_wait_for_cancel ::
  "'s backend_ops \<Rightarrow> (nat \<Rightarrow> string) \<Rightarrow> run_handle \<Rightarrow> 's \<Rightarrow> (messaging_error, 's, bool waited) outcome option" where
  "ledger_wait_for_cancel B uid handle s =
     and_thenO (resolve_handle_generation B uid handle s) (\<lambda>generation s1.
     wait_loop B (\<lambda>n. uid (n + 2)) cancel_verdict (with_generation handle generation) generation 0 s1)"

definition ledger_wait_finished ::
  "'s backend_ops \<Rightarrow> (nat \<Rightarrow> string) \<Rightarrow> run_handle \<Rightarrow> 's \<Rightarrow> (messaging_error, 's, run_status waited) outcome option" where
  "ledger_wait_finished B uid handle s =
     and_thenO (resolve_handle_generation B uid handle s) (\<lambda>generation s1.
     wait_loop B (\<lambda>n. uid (n + 2)) finish_verdict (with_generation handle generation) generation 0 s1)"

definition ledger_failure ::
  "'s backend_ops \<Rightarrow> (nat \<Rightarrow> string) \<Rightarrow> run_handle \<Rightarrow> 's \<Rightarrow> (messaging_error, 's, failure option) outcome option" where
  "ledger_failure B uid handle s =
     and_thenO (resolve_handle_generation B uid handle s) (\<lambda>generation s1.
     Some (and_then (load_bound_state B (with_generation handle generation) s1) (\<lambda>state s2.
     case ss_target_run state of
       None \<Rightarrow> (Inl (RunNotFound (bh_identity handle)), s2)
     | Some run \<Rightarrow>
         (Inr (if sr_failure_class run = [] \<and> sr_failure_message run = [] \<and> sr_local_failure run = None then None
               else Some (run_failure run)), s2))))"

section \<open>The ledger over the in-memory backend\<close>

text \<open>
  The in-memory backend as a borrowed backend. Its state is paired with the clock readings still to come,
  so that every operation may see any time; each operation consumes the readings it takes.
\<close>

type_synonym clocked = "(nat \<Rightarrow> time) \<times> memory_backend"

definition later :: "nat \<Rightarrow> (nat \<Rightarrow> time) \<Rightarrow> nat \<Rightarrow> time" where
  "later n clock = (\<lambda>i. clock (i + n))"

definition memory_ops :: "(bytes \<Rightarrow> string) \<Rightarrow> (run_identity \<Rightarrow> string) \<Rightarrow> clocked backend_ops" where
  "memory_ops sha256 thread_key =
     \<lparr>bk_settings = (\<lambda>(clock, mb). messaging_settings mb),
      bk_commit = (\<lambda>t (clock, mb).
        case mb_commit_messaging_transition sha256 thread_key (clock 0) (\<lambda>n. clock (64 - n)) (clock 65) (clock 67) (clock 66) t mb of
          (r, mb') \<Rightarrow> (r, later 68 clock, mb')),
      bk_load = (\<lambda>q (clock, mb).
        case mb_load_messaging_state sha256 thread_key (clock 0) (clock 1) q mb of (r, mb') \<Rightarrow> (r, later 2 clock, mb')),
      bk_read = (\<lambda>q (clock, mb).
        case mb_read_committed_messages thread_key (clock 0) q mb of (r, mb') \<Rightarrow> (r, later 1 clock, mb')),
      bk_wait = (\<lambda>w (clock, mb).
        case mb_wait_for_messaging_change thread_key (clock 0) w mb of (r, mb') \<Rightarrow> (r, later 1 clock, mb')),
      bk_purge = (\<lambda>p (clock, mb).
        case mb_purge_stream_generation thread_key (gp_channel p) (gp_identity p) (gp_generation p) (gp_maximum_records p) mb of
          (Inl e, mb') \<Rightarrow> (Inl e, clock, mb')
        | (Inr (n, complete), mb') \<Rightarrow> (Inr \<lparr>pp_removed_records = n, pp_complete = complete\<rparr>, clock, mb'))\<rparr>"

end
