(* ===== verification/Messaging_Memory_Inv.thy ===== *)
theory Messaging_Memory_Inv
  imports Messaging_Memory
begin

text \<open>
  The invariant of one in-memory generation, what an effect may do to it, and that every resolved
  transition stays within that. In memory a run's producer lease is active exactly while the run is
  not final, so the recovery branches of the resolution cannot fire.
\<close>

section \<open>A well-formed generation\<close>

definition entry_bytes :: "signature_entry \<Rightarrow> int" where
  "entry_bytes = (\<lambda>(rid, codec, payload, checkpoint). int (length payload) + checkpoint_bytes checkpoint)"

definition entry_of :: "message_envelope \<Rightarrow> string \<times> signature_entry \<Rightarrow> bool" where
  "entry_of e = (\<lambda>(mid, rid, codec, payload, checkpoint).
     mid = e_message_id e \<and> rid = i_run_id (e_identity e) \<and> codec = e_codec e \<and> payload = e_payload e)"

definition log_ok :: "stream_state \<Rightarrow> bool" where
  "log_ok st \<longleftrightarrow>
     (\<forall>i < length (g_messages st). e_seq (g_messages st ! i) = int i + 1) \<and>
     g_by_message_id st = map (\<lambda>e. (e_message_id e, e)) (g_messages st) \<and>
     distinct (map e_message_id (g_messages st)) \<and> list_all2 entry_of (g_messages st) (g_signatures st)"

definition run_live :: "stream_state \<Rightarrow> string \<Rightarrow> bool" where
  "run_live st k \<longleftrightarrow> (\<exists>r. dget (g_runs st) k = Some r \<and> \<not> is_final_run_status (m_status r))"

definition runs_ok :: "stream_state \<Rightarrow> bool" where
  "runs_ok st \<longleftrightarrow>
     dwf (g_runs st) \<and>
     (\<forall>k r. dget (g_runs st) k = Some r \<longrightarrow>
        i_run_id (m_identity r) = k \<and> 1 \<le> m_fence r \<and>
        0 \<le> m_end_seq r \<and> (g_disposition st = DpActive \<longrightarrow> m_end_seq r \<le> int (length (g_messages st))) \<and>
        (is_final_run_status (m_status r) \<longleftrightarrow> m_owner_token r = None))"

definition active_ok :: "stream_state \<Rightarrow> bool" where
  "active_ok st \<longleftrightarrow> (\<forall>k. run_live st k \<longleftrightarrow> map_option i_run_id (g_active_identity st) = Some k)"

definition phase_ok :: "stream_state \<Rightarrow> bool" where
  "phase_ok st \<longleftrightarrow>
     1 \<le> g_generation st \<and> g_disposition st \<in> {DpActive, DpDeleting, DpExpiring} \<and>
     (g_disposition st \<noteq> DpActive \<longrightarrow> g_active_identity st = None \<and> g_expires_at st = None) \<and>
     (g_expires_at st \<noteq> None \<longrightarrow> g_active_identity st = None)"

definition count_ok :: "stream_state \<Rightarrow> bool" where
  "count_ok st \<longleftrightarrow>
     g_retained_bytes st = dsum entry_bytes (g_signatures st) + dsum (\<lambda>r. checkpoint_bytes (m_checkpoint r)) (g_runs st) \<and>
     g_retained_records st = 1 + int (length (g_messages st)) + int (length (g_runs st)) \<and>
     (g_disposition st = DpActive \<longrightarrow> g_payload_bytes st = (\<Sum>e \<leftarrow> g_messages st. int (length (e_payload e))))"

definition stream_inv :: "stream_state \<Rightarrow> bool" where
  "stream_inv st \<longleftrightarrow> log_ok st \<and> runs_ok st \<and> active_ok st \<and> phase_ok st \<and> count_ok st"

lemma new_stream_inv: "1 \<le> g \<Longrightarrow> stream_inv (new_stream_state g)"
  by (simp add: stream_inv_def new_stream_state_def log_ok_def runs_ok_def active_ok_def run_live_def phase_ok_def count_ok_def)

section \<open>What an effect may do\<close>

definition effect_active :: "stream_state \<Rightarrow> storage_effect \<Rightarrow> string option" where
  "effect_active st ef =
     (case ef_stream ef of None \<Rightarrow> map_option i_run_id (g_active_identity st) | Some s \<Rightarrow> st_active_run_id s)"

definition effect_disposition :: "stream_state \<Rightarrow> storage_effect \<Rightarrow> disposition" where
  "effect_disposition st ef = (case ef_stream ef of None \<Rightarrow> g_disposition st | Some s \<Rightarrow> st_disposition s)"

definition run_fits :: "stream_state \<Rightarrow> stored_run \<Rightarrow> int \<Rightarrow> bool" where
  "run_fits st r len \<longleftrightarrow>
     (sr_producer_token r = None \<longleftrightarrow> is_final_run_status (sr_status r)) \<and>
     0 \<le> sr_end_sequence r \<and> sr_end_sequence r \<le> len \<and>
     (case dget (g_runs st) (i_run_id (sr_identity r)) of
        None \<Rightarrow> \<not> is_final_run_status (sr_status r) \<and> g_active_identity st = None \<and> 1 \<le> sr_producer_fence r \<and>
          (\<forall>k r0. dget (g_runs st) k = Some r0 \<longrightarrow> m_fence r0 < sr_producer_fence r)
      | Some r0 \<Rightarrow> \<not> is_final_run_status (m_status r0) \<and> m_identity r0 = sr_identity r \<and> m_fence r0 = sr_producer_fence r \<and>
          (is_final_run_status (sr_status r) \<or> sr_producer_token r = m_owner_token r0))"

definition effect_length :: "stream_state \<Rightarrow> storage_effect \<Rightarrow> int" where
  "effect_length st ef = int (length (g_messages st)) + (if ef_message ef = None then 0 else 1)"

definition effect_fits :: "stream_state \<Rightarrow> storage_effect \<Rightarrow> bool" where
  "effect_fits st ef \<longleftrightarrow>
     (case ef_runs ef of
        [] \<Rightarrow> effect_active st ef = map_option i_run_id (g_active_identity st)
      | [r] \<Rightarrow> run_fits st r (effect_length st ef) \<and> 
          effect_active st ef = (if is_final_run_status (sr_status r) then None else Some (i_run_id (sr_identity r)))
      | _ \<Rightarrow> False) \<and>
     (\<forall>ev. ef_message ef = Some ev \<longrightarrow>
        e_seq (me_envelope ev) = int (length (g_messages st)) + 1 \<and>
        dget (g_by_message_id st) (e_message_id (me_envelope ev)) = None \<and> g_disposition st = DpActive) \<and>
     (\<forall>s. ef_stream ef = Some s \<longrightarrow> st_generation s = g_generation st \<and>
        st_payload_bytes s = g_payload_bytes st +
          (case ef_message ef of None \<Rightarrow> 0 | Some ev \<Rightarrow> int (length (e_payload (me_envelope ev))))) \<and>
     (ef_message ef \<noteq> None \<longrightarrow> ef_stream ef \<noteq> None) \<and>
     (ef_tombstone_reason ef = None \<longrightarrow> effect_disposition st ef \<in> {DpActive, DpDeleting, DpExpiring}) \<and>
     (effect_disposition st ef \<noteq> DpActive \<longrightarrow> effect_active st ef = None) \<and>
     (effect_disposition st ef = DpActive \<longrightarrow> g_disposition st = DpActive) \<and>
     (ef_tombstone_reason ef = None \<longrightarrow> effect_disposition st ef \<noteq> DpActive \<longrightarrow>
        ef_retention_action ef = RaClear \<or> (ef_retention_action ef = RaNone \<and> g_expires_at st = None)) \<and>
     (ef_retention_action ef = RaStart \<longrightarrow> effect_active st ef = None) \<and>
     (ef_retention_action ef = RaNone \<longrightarrow> g_expires_at st \<noteq> None \<longrightarrow> effect_active st ef = None)"

section \<open>Applying an effect that fits\<close>

lemma map_append_key: "dget (map (\<lambda>e. (f e, e)) xs) k = None \<longleftrightarrow> k \<notin> f ` set xs"
  by (auto simp: map_of_eq_None_iff image_iff)

lemma dput_map_key: "k \<notin> f ` set xs \<Longrightarrow> dput k v (map (\<lambda>e. (f e, g e)) xs) = map (\<lambda>e. (f e, g e)) xs @ [(k, v)]"
  by (induction xs) auto

lemma dput_fresh: "dget d k = None \<Longrightarrow> dput k v d = d @ [(k, v)]"
  by (induction d) auto

lemma entries_keys: "list_all2 entry_of es ss \<Longrightarrow> map fst ss = map e_message_id es"
  by (induction rule: list_all2_induct) (auto simp: entry_of_def split: prod.splits)

lemma apply_message_log:
  assumes "log_ok st" and "e_seq (me_envelope ev) = int (length (g_messages st)) + 1"
    and "dget (g_by_message_id st) (e_message_id (me_envelope ev)) = None"
  shows "log_ok (apply_message ev st)"
    and "g_messages (apply_message ev st) = g_messages st @ [me_envelope ev]"
    and "dsum entry_bytes (g_signatures (apply_message ev st)) =
      dsum entry_bytes (g_signatures st) + int (length (e_payload (me_envelope ev))) + checkpoint_bytes (me_checkpoint ev)"
proof -
  let ?e = "me_envelope ev"
  have fresh: "e_message_id ?e \<notin> e_message_id ` set (g_messages st)"
    using assms(1,3) by (auto simp: log_ok_def map_append_key)
  then have none: "dget (g_signatures st) (e_message_id ?e) = None"
    using assms(1) entries_keys [of "g_messages st" "g_signatures st"]
    by (auto simp: log_ok_def dget_None_iff simp del: set_map simp flip: set_map)
  show "log_ok (apply_message ev st)"
    using assms fresh none unfolding log_ok_def apply_message_def
    by (auto simp: Let_def dput_map_key dput_fresh nth_append less_Suc_eq entry_of_def intro!: list_all2_appendI)
  show "g_messages (apply_message ev st) = g_messages st @ [?e]"
    using assms(3) by (simp add: apply_message_def Let_def)
  show "dsum entry_bytes (g_signatures (apply_message ev st)) =
      dsum entry_bytes (g_signatures st) + int (length (e_payload ?e)) + checkpoint_bytes (me_checkpoint ev)"
    using assms(3) none by (simp add: apply_message_def Let_def dsum_dput entry_bytes_def)
qed

definition effect_bytes :: "stream_state \<Rightarrow> storage_effect \<Rightarrow> int" where
  "effect_bytes st ef = sum_list (map (fst \<circ> run_capacity (Some st)) (ef_runs ef)) + fst (message_capacity (Some st) (ef_message ef))"

definition effect_records :: "stream_state \<Rightarrow> storage_effect \<Rightarrow> int" where
  "effect_records st ef = sum_list (map (snd \<circ> run_capacity (Some st)) (ef_runs ef)) + snd (message_capacity (Some st) (ef_message ef))"

abbreviation applied :: "time \<Rightarrow> retention_policy \<Rightarrow> run_identity \<Rightarrow> storage_effect \<Rightarrow> stream_state \<Rightarrow> stream_state" where
  "applied now policy identity ef st \<equiv>
     applied_state now policy identity ef (effect_bytes st ef) (effect_records st ef) st"

lemma apply_stream_fields [simp]:
  "g_generation (apply_stream i s st) = g_generation st"
  "g_messages (apply_stream i s st) = g_messages st"
  "g_by_message_id (apply_stream i s st) = g_by_message_id st"
  "g_signatures (apply_stream i s st) = g_signatures st"
  "g_runs (apply_stream i s st) = g_runs st"
  "g_retained_bytes (apply_stream i s st) = g_retained_bytes st"
  "g_retained_records (apply_stream i s st) = g_retained_records st"
  "g_expires_at (apply_stream i s st) = g_expires_at st"
  by (simp_all add: apply_stream_def)

lemma apply_message_fields [simp]:
  "g_generation (apply_message ev st) = g_generation st"
  "g_disposition (apply_message ev st) = g_disposition st"
  "g_runs (apply_message ev st) = g_runs st"
  "g_active_identity (apply_message ev st) = g_active_identity st"
  "g_payload_bytes (apply_message ev st) = g_payload_bytes st"
  "g_retained_bytes (apply_message ev st) = g_retained_bytes st"
  "g_retained_records (apply_message ev st) = g_retained_records st"
  "g_expires_at (apply_message ev st) = g_expires_at st"
  "g_control_sequence (apply_message ev st) = g_control_sequence st"
  by (simp_all add: apply_message_def Let_def)

lemma applied_fields:
  "g_generation (applied_state now pol i ef tb gr st) = g_generation st"
  "g_disposition (applied_state now pol i ef tb gr st) = effect_disposition st ef"
  "map_option i_run_id (g_active_identity (applied_state now pol i ef tb gr st)) = effect_active st ef"
  "g_runs (applied_state now pol i ef tb gr st) = fold apply_run (ef_runs ef) (g_runs st)"
  "g_retained_bytes (applied_state now pol i ef tb gr st) = g_retained_bytes st + tb"
  "g_retained_records (applied_state now pol i ef tb gr st) = g_retained_records st + gr"
  "g_payload_bytes (applied_state now pol i ef tb gr st) = (case ef_stream ef of None \<Rightarrow> g_payload_bytes st | Some s \<Rightarrow> st_payload_bytes s)"
  "g_expires_at (applied_state now pol i ef tb gr st) = retention_deadline now pol (ef_retention_action ef) st"
  by (auto simp: applied_state_def Let_def effect_disposition_def effect_active_def apply_stream_def retention_deadline_def
      option.map_comp comp_def option.map_ident split: option.split retention_action.split)

lemma log_ok_frame:
  "g_messages s' = g_messages s \<Longrightarrow> g_by_message_id s' = g_by_message_id s \<Longrightarrow> g_signatures s' = g_signatures s \<Longrightarrow>
   log_ok s' = log_ok s"
  by (simp add: log_ok_def)

lemma applied_log:
  assumes "log_ok st" "effect_fits st ef"
  shows "log_ok (applied_state now pol i ef tb gr st)"
    "g_messages (applied_state now pol i ef tb gr st) =
       g_messages st @ (case ef_message ef of None \<Rightarrow> [] | Some ev \<Rightarrow> [me_envelope ev])"
    "dsum entry_bytes (g_signatures (applied_state now pol i ef tb gr st)) =
       dsum entry_bytes (g_signatures st) + fst (message_capacity (Some st) (ef_message ef))"
proof -
  define s2 where "s2 = (case ef_stream ef of
      None \<Rightarrow> st\<lparr>g_retained_bytes := g_retained_bytes st + tb, g_retained_records := g_retained_records st + gr\<rparr>
    | Some s \<Rightarrow> apply_stream i s
        (st\<lparr>g_retained_bytes := g_retained_bytes st + tb, g_retained_records := g_retained_records st + gr\<rparr>))"
  define s3 where "s3 = s2\<lparr>g_runs := fold apply_run (ef_runs ef) (g_runs s2)\<rparr>"
  have s3: "g_messages s3 = g_messages st" "g_by_message_id s3 = g_by_message_id st" "g_signatures s3 = g_signatures st"
    by (auto simp: s3_def s2_def split: option.split)
  have eq: "applied_state now pol i ef tb gr st =
       (let s4 = (case ef_message ef of None \<Rightarrow> s3 | Some ev \<Rightarrow> apply_message ev s3)
        in s4\<lparr>g_expires_at := retention_deadline now pol (ef_retention_action ef) s4\<rparr>)"
    unfolding applied_state_def Let_def s3_def s2_def ..
  have l: "log_ok s3" using assms(1) s3 by (simp add: log_ok_def)
  have "log_ok (s4\<lparr>g_expires_at := x\<rparr>) = log_ok s4" for s4 x by (rule log_ok_frame) simp_all
  moreover have "ef_message ef = Some ev \<Longrightarrow> log_ok (apply_message ev s3) \<and> g_messages (apply_message ev s3) = g_messages st @ [me_envelope ev] \<and>
      dsum entry_bytes (g_signatures (apply_message ev s3)) = dsum entry_bytes (g_signatures st) + fst (message_capacity (Some st) (ef_message ef))" for ev
    using apply_message_log [OF l, of ev] assms(2) s3 by (auto simp: effect_fits_def message_capacity_def)
  ultimately show "log_ok (applied_state now pol i ef tb gr st)"
    "g_messages (applied_state now pol i ef tb gr st) =
       g_messages st @ (case ef_message ef of None \<Rightarrow> [] | Some ev \<Rightarrow> [me_envelope ev])"
    "dsum entry_bytes (g_signatures (applied_state now pol i ef tb gr st)) =
       dsum entry_bytes (g_signatures st) + fst (message_capacity (Some st) (ef_message ef))"
    using l s3 unfolding eq Let_def by (auto split: option.split simp: message_capacity_def)
qed

lemma effect_runs_cases:
  assumes "effect_fits st ef"
  obtains "ef_runs ef = []" "effect_active st ef = map_option i_run_id (g_active_identity st)"
  | r where "ef_runs ef = [r]" "run_fits st r (effect_length st ef)"
      "effect_active st ef = (if is_final_run_status (sr_status r) then None else Some (i_run_id (sr_identity r)))"
proof (cases "ef_runs ef")
  case Nil
  then show ?thesis using assms that(1) by (simp add: effect_fits_def)
next
  case (Cons r rs)
  then have "rs = []" using assms by (cases rs) (auto simp: effect_fits_def)
  then show ?thesis using assms that(2) [of r] Cons by (simp add: effect_fits_def)
qed

definition run_of :: "(string, run_record) dict \<Rightarrow> stored_run \<Rightarrow> run_record" where
  "run_of runs run =
     \<lparr>m_identity = (case dget runs (i_run_id (sr_identity run)) of None \<Rightarrow> sr_identity run | Some r \<Rightarrow> m_identity r),
      m_start_seq = sr_start_sequence run, m_end_seq = sr_end_sequence run, m_owner_token = sr_producer_token run,
      m_fence = sr_producer_fence run, m_cancellable = sr_cancellable run, m_recoverable = sr_recoverable run,
      m_status = sr_status run, m_settling = sr_settlement_started run,
      m_publication_closed = sr_publication_closed run, m_publication_ready = sr_publication_ready run,
      m_error = sr_local_failure run, m_checkpoint = sr_checkpoint run\<rparr>"

lemma apply_run_eq: "apply_run run runs = dput (i_run_id (sr_identity run)) (run_of runs run) runs"
  by (simp add: apply_run_def run_of_def)

lemma applied_runs_ok:
  assumes st: "stream_inv st" and ef: "effect_fits st ef"
  shows "runs_ok (applied_state now pol i ef tb gr st)"
proof -
  let ?st = "applied_state now pol i ef tb gr st"
  have ok: "runs_ok st" "log_ok st" using st by (simp_all add: stream_inv_def)
  have len: "int (length (g_messages ?st)) = effect_length st ef" "int (length (g_messages st)) \<le> effect_length st ef"
    using applied_log(2) [OF ok(2) ef] by (auto simp: effect_length_def split: option.split)
  have act: "g_disposition st = DpActive" if "effect_disposition st ef = DpActive" using that ef by (simp add: effect_fits_def)
  have ends: "m_end_seq r \<le> effect_length st ef" if "dget (g_runs st) k = Some r" "effect_disposition st ef = DpActive" for k r
    using ok(1) that(1) act [OF that(2)] len(2) unfolding runs_ok_def by (meson order_trans)
  from ef show ?thesis
  proof (cases rule: effect_runs_cases)
    case 1
    then show ?thesis using ok(1) ends by (simp add: runs_ok_def applied_fields len(1))
  next
    case (2 r)
    let ?k = "i_run_id (sr_identity r)"
    have "i_run_id (m_identity (run_of (g_runs st) r)) = ?k"
      using 2 ok(1) by (auto simp: run_of_def runs_ok_def split: option.split)
    moreover have "1 \<le> sr_producer_fence r" "0 \<le> sr_end_sequence r" "sr_end_sequence r \<le> effect_length st ef"
      "is_final_run_status (sr_status r) \<longleftrightarrow> sr_producer_token r = None"
      using 2 ok(1) by (fastforce simp: run_fits_def runs_ok_def split: option.splits)+
    ultimately show ?thesis
      using ok(1) ends 2 unfolding runs_ok_def len(1)
      by (auto simp: applied_fields apply_run_eq dict_simps run_of_def split: if_splits)
  qed
qed

lemma applied_active_ok:
  assumes st: "stream_inv st" and ef: "effect_fits st ef"
  shows "active_ok (applied_state now pol i ef tb gr st)"
proof -
  let ?st = "applied_state now pol i ef tb gr st"
  have ok: "runs_ok st" and act: "run_live st k \<longleftrightarrow> map_option i_run_id (g_active_identity st) = Some k" for k
    using st by (auto simp: stream_inv_def active_ok_def)
  from ef show ?thesis
  proof (cases rule: effect_runs_cases)
    case 1
    then show ?thesis using act by (simp add: active_ok_def applied_fields run_live_def)
  next
    case (2 r)
    let ?k = "i_run_id (sr_identity r)"
    have live: "run_live ?st k \<longleftrightarrow> (if k = ?k then \<not> is_final_run_status (sr_status r) else run_live st k)" for k
      using 2 by (auto simp: run_live_def applied_fields apply_run_eq dict_simps run_of_def)
    have "run_live st k \<Longrightarrow> k = ?k" for k
      using 2 act [of k] act [of ?k] by (auto simp: run_fits_def run_live_def split: option.splits)
    then show ?thesis using 2 live by (auto simp: active_ok_def applied_fields)
  qed
qed

lemma applied_count_ok:
  assumes st: "stream_inv st" and ef: "effect_fits st ef"
  shows "count_ok (applied now pol i ef st)"
proof -
  let ?st = "applied now pol i ef st" and ?c = "\<lambda>r. checkpoint_bytes (m_checkpoint r)"
  have ok: "runs_ok st" "log_ok st" and c: "count_ok st" using st by (simp_all add: stream_inv_def)
  note log = applied_log [OF ok(2) ef]
  have runs: "dsum ?c (g_runs ?st) = dsum ?c (g_runs st) + sum_list (map (fst \<circ> run_capacity (Some st)) (ef_runs ef)) \<and>
      int (length (g_runs ?st)) = int (length (g_runs st)) + sum_list (map (snd \<circ> run_capacity (Some st)) (ef_runs ef))"
    using ef
  proof (cases rule: effect_runs_cases)
    case 1
    then show ?thesis by (simp add: applied_fields)
  next
    case (2 r)
    then show ?thesis
      by (auto simp: applied_fields apply_run_eq dsum_dput length_dput run_capacity_def Let_def run_of_def checkpoint_bytes_def
          split: option.splits)
  qed
  have msgs: "int (length (g_messages ?st)) = int (length (g_messages st)) + snd (message_capacity (Some st) (ef_message ef))"
    using log(2) ef by (auto simp: message_capacity_def effect_fits_def split: option.split)
  have pay: "g_payload_bytes ?st = (\<Sum>e \<leftarrow> g_messages ?st. int (length (e_payload e)))" if "g_disposition ?st = DpActive"
  proof -
    have a: "g_disposition st = DpActive" using that ef by (simp add: applied_fields effect_fits_def)
    then show ?thesis
      using c log(2) ef by (auto simp: count_ok_def applied_fields effect_fits_def split: option.splits)
  qed
  show ?thesis
    unfolding count_ok_def
    using runs msgs pay log(3) c by (simp add: applied_fields count_ok_def effect_bytes_def effect_records_def)
qed

lemma applied_inv:
  assumes st: "stream_inv st" and ef: "effect_fits st ef" "ef_tombstone_reason ef = None"
  shows "stream_inv (applied now pol i ef st)"
proof -
  let ?st = "applied now pol i ef st"
  have none: "g_active_identity ?st = None \<longleftrightarrow> effect_active st ef = None"
    using applied_fields(3) [of now pol i ef "effect_bytes st ef" "effect_records st ef" st] by (metis option.map_disc_iff)
  have ph: "phase_ok st" using st by (simp add: stream_inv_def)
  have fit: "effect_disposition st ef \<in> {DpActive, DpDeleting, DpExpiring}"
    "effect_disposition st ef \<noteq> DpActive \<Longrightarrow> effect_active st ef = None"
    "effect_disposition st ef \<noteq> DpActive \<Longrightarrow>
       ef_retention_action ef = RaClear \<or> (ef_retention_action ef = RaNone \<and> g_expires_at st = None)"
    "ef_retention_action ef = RaStart \<Longrightarrow> effect_active st ef = None"
    "ef_retention_action ef = RaNone \<Longrightarrow> g_expires_at st \<noteq> None \<Longrightarrow> effect_active st ef = None"
    using ef by (simp_all add: effect_fits_def)
  have "phase_ok ?st"
    unfolding phase_ok_def none applied_fields using ph fit
    by (cases "ef_retention_action ef") (auto simp: phase_ok_def retention_deadline_def)
  then show ?thesis
    using applied_log(1) [OF _ ef(1)] applied_runs_ok [OF st ef(1)] applied_active_ok [OF st ef(1)] applied_count_ok [OF st ef(1)] st
    by (simp add: stream_inv_def)
qed

end
