(* ===== verification/Messaging_Memory_Resolve.thy ===== *)
theory Messaging_Memory_Resolve
  imports Messaging_Memory_Inv
begin

text \<open>
  Every transition that resolves against a snapshot of a well-formed in-memory generation yields an effect
  that fits the generation.
\<close>

section \<open>Snapshots of a generation\<close>

definition describes :: "state_snapshot \<Rightarrow> messaging_transition \<Rightarrow> stream_state \<Rightarrow> bool" where
  "describes s t st \<longleftrightarrow>
     ss_stream s = Some (stored_memory_stream (tr_channel t) (tr_identity t) st) \<and>
     ss_target_run s = map_option (\<lambda>r. stored_memory_run r (g_generation st)) (dget (g_runs st) (i_run_id (tr_identity t))) \<and>
     ss_active_run s = map_option (\<lambda>r. stored_memory_run r (g_generation st)) (active_record True (tr_identity t) st) \<and>
     (\<forall>mid. tr_message_id t = Some mid \<longrightarrow>
        map_option me_envelope (ss_matching_message s) = dget (g_by_message_id st) mid)"

definition idle_effect :: "storage_effect \<Rightarrow> bool" where
  "idle_effect ef \<longleftrightarrow>
     ef_stream ef = None \<and> ef_runs ef = [] \<and> ef_message ef = None \<and> ef_retention_action ef = RaNone \<and>
     ef_tombstone_reason ef = None"

lemma entries_lookup:
  assumes "list_all2 entry_of es ss" "dget (map (\<lambda>e. (e_message_id e, e)) es) mid = Some e"
  shows "\<exists>cp. dget ss mid = Some (i_run_id (e_identity e), e_codec e, e_payload e, cp)"
  using assms
proof (induction rule: list_all2_induct)
  case (Cons x xs y ys)
  then show ?case by (cases y) (auto simp: entry_of_def split: if_splits)
qed simp

lemma matching_evidence_Inr:
  assumes "log_ok st" "matching_evidence sha i st (Some mid) = Inr m"
  shows "map_option me_envelope m = dget (g_by_message_id st) mid"
proof (cases "dget (g_by_message_id st) mid")
  case None
  then show ?thesis using assms(2) by (auto simp: matching_evidence_def)
next
  case (Some e)
  then obtain cp where "dget (g_signatures st) mid = Some (i_run_id (e_identity e), e_codec e, e_payload e, cp)"
    using assms(1) entries_lookup [of "g_messages st" "g_signatures st" mid e] by (auto simp: log_ok_def)
  then show ?thesis using assms(2) Some by (auto simp: matching_evidence_def bindE_Inr_iff)
qed

lemma snapshot_describes:
  assumes "memory_state_snapshot sha obs mb ch (tr_channel t) (tr_identity t) key g (tr_message_id t) True = Inr s"
    "selected_state ch key g = Some st" "log_ok st"
  shows "describes s t st" "ss_channel s = stored_memory_channel mb (tr_channel t) ch" "ss_observed_at s = obs"
  using assms matching_evidence_Inr [OF assms(3), of sha "tr_identity t"]
  by (auto simp: memory_state_snapshot_def describes_def Let_def bindE_Inr_iff empty_memory_snapshot_def)

lemma owned_run_Inr:
  "owned_run t s = Inr (run, stream, reference) \<longleftrightarrow>
     required_reference t = Inr reference \<and> ss_target_run s = Some run \<and> ss_stream s = Some stream \<and>
     st_disposition stream = DpActive \<and> st_generation stream = rr_generation reference \<and>
     reference_matches_run reference run \<and> sr_producer_lease_active run \<and> \<not> is_final_run_status (sr_status run)"
  by (auto simp: owned_run_def required_target_run_def required_stream_def bindE_Inr_iff split: option.splits if_splits)

lemma required_Inr:
  "required_target_run t s = Inr run \<longleftrightarrow> ss_target_run s = Some run"
  "required_stream t s = Inr stream \<longleftrightarrow> ss_stream s = Some stream \<and> st_disposition stream = DpActive"
  by (auto simp: required_target_run_def required_stream_def bindE_Inr_iff split: option.splits if_splits)

lemma stored_run_fields [simp]:
  "sr_identity (stored_memory_run r g) = m_identity r"
  "sr_generation (stored_memory_run r g) = g"
  "sr_end_sequence (stored_memory_run r g) = m_end_seq r"
  "sr_status (stored_memory_run r g) = m_status r"
  "sr_producer_token (stored_memory_run r g) = m_owner_token r"
  "sr_producer_fence (stored_memory_run r g) = m_fence r"
  "sr_producer_lease_active (stored_memory_run r g) \<longleftrightarrow> \<not> is_final_run_status (m_status r) \<and> m_owner_token r \<noteq> None"
  "sr_checkpoint (stored_memory_run r g) = m_checkpoint r"
  by (simp_all add: stored_memory_run_def)

lemma stored_stream_fields [simp]:
  "st_generation (stored_memory_stream c i st) = g_generation st"
  "st_disposition (stored_memory_stream c i st) = g_disposition st"
  "st_latest_sequence (stored_memory_stream c i st) = int (length (g_messages st))"
  "st_payload_bytes (stored_memory_stream c i st) = g_payload_bytes st"
  "st_active_run_id (stored_memory_stream c i st) = map_option i_run_id (g_active_identity st)"
  "st_retention_expired (stored_memory_stream c i st) = False"
  "st_next_producer_fence (stored_memory_stream c i st) = 1 + max_default 0 (map m_fence (dvalues (g_runs st)))"
  by (simp_all add: stored_memory_stream_def)

lemma lease_live: "runs_ok st \<Longrightarrow> dget (g_runs st) k = Some r \<Longrightarrow> m_owner_token r \<noteq> None \<longleftrightarrow> \<not> is_final_run_status (m_status r)"
  by (auto simp: runs_ok_def)

lemma fold_max_ge: "y \<le> fold max xs (y :: int)" "x \<in> set xs \<Longrightarrow> x \<le> fold max xs (y :: int)"
proof (induction xs arbitrary: y)
  case (Cons z zs)
  { case 1 show ?case using Cons.IH(1) [of "max z y"] by simp }
  { case 2 then show ?case using Cons.IH(1) [of "max z y"] Cons.IH(2) [of "max z y"] by auto }
qed simp_all

lemma max_default_ge: "x \<in> set xs \<Longrightarrow> x \<le> max_default d xs"
  using fold_max_ge by (auto simp: max_default_def split: list.split)

lemma effect_of_fields [simp]:
  "ef_stream (effect_of r) = None" "ef_runs (effect_of r) = []" "ef_message (effect_of r) = None"
  "ef_retention_action (effect_of r) = RaNone" "ef_tombstone_reason (effect_of r) = None" "ef_channel (effect_of r) = None"
  "ef_result (effect_of r) = r"
  by (simp_all add: effect_of_def)

lemma idle_fits: "stream_inv st \<Longrightarrow> idle_effect ef \<Longrightarrow> effect_fits st ef"
  by (auto simp: effect_fits_def idle_effect_def effect_active_def effect_disposition_def stream_inv_def phase_ok_def)

lemma target_record:
  assumes "describes s t st" "ss_target_run s = Some run"
  obtains r where "dget (g_runs st) (i_run_id (tr_identity t)) = Some r" "run = stored_memory_run r (g_generation st)"
  using assms by (cases "dget (g_runs st) (i_run_id (tr_identity t))") (auto simp: describes_def)

lemma live_run_facts:
  assumes "stream_inv st" "dget (g_runs st) k = Some r" "\<not> is_final_run_status (m_status r)"
  shows "m_owner_token r \<noteq> None" "0 \<le> m_end_seq r \<and> m_end_seq r \<le> int (length (g_messages st))" "i_run_id (m_identity r) = k"
    "map_option i_run_id (g_active_identity st) = Some k" "g_disposition st = DpActive" "g_expires_at st = None"
proof -
  show "m_owner_token r \<noteq> None" "i_run_id (m_identity r) = k"
    using assms by (auto simp: stream_inv_def runs_ok_def)
  have "run_live st k" using assms by (simp add: run_live_def)
  then show a: "map_option i_run_id (g_active_identity st) = Some k"
    using assms(1) by (simp add: stream_inv_def active_ok_def)
  then show d: "g_disposition st = DpActive" and "g_expires_at st = None"
    using assms(1) by (auto simp: stream_inv_def phase_ok_def)
  then show "0 \<le> m_end_seq r \<and> m_end_seq r \<le> int (length (g_messages st))"
    using assms(1,2) by (simp add: stream_inv_def runs_ok_def)
qed

section \<open>The transitions\<close>

text \<open>The producer of a live run: its record, and that it is the active one.\<close>

lemma owned_memory_run:
  assumes "describes s t st" "stream_inv st" "owned_run t s = Inr (run, stream, reference)"
  obtains r where "dget (g_runs st) (i_run_id (tr_identity t)) = Some r" "run = stored_memory_run r (g_generation st)"
    "stream = stored_memory_stream (tr_channel t) (tr_identity t) st" "\<not> is_final_run_status (m_status r)"
    "m_owner_token r \<noteq> None" "g_disposition st = DpActive" "i_run_id (m_identity r) = i_run_id (tr_identity t)"
    "map_option i_run_id (g_active_identity st) = Some (i_run_id (tr_identity t))"
    "m_owner_token r = rr_producer_token reference" "Some (m_fence r) = rr_producer_fence reference"
    "g_generation st = rr_generation reference" "0 \<le> m_end_seq r \<and> m_end_seq r \<le> int (length (g_messages st))"
proof -
  from assms(1,3) obtain r where r: "dget (g_runs st) (i_run_id (tr_identity t)) = Some r"
    "run = stored_memory_run r (g_generation st)" "stream = stored_memory_stream (tr_channel t) (tr_identity t) st"
    by (auto simp: owned_run_Inr describes_def)
  have tok: "m_owner_token r \<noteq> None" using assms(3) r by (simp add: owned_run_Inr)
  have o: "\<not> is_final_run_status (m_status r)" "g_disposition st = DpActive"
    "m_owner_token r = rr_producer_token reference" "Some (m_fence r) = rr_producer_fence reference"
    "g_generation st = rr_generation reference"
    using assms(3) r unfolding owned_run_Inr reference_matches_run_def by simp_all
  have "run_live st (i_run_id (tr_identity t))" using r o(1) by (simp add: run_live_def)
  then have a: "map_option i_run_id (g_active_identity st) = Some (i_run_id (tr_identity t))"
    using assms(2) by (simp add: stream_inv_def active_ok_def)
  have "i_run_id (m_identity r) = i_run_id (tr_identity t)" "0 \<le> m_end_seq r \<and> m_end_seq r \<le> int (length (g_messages st))"
    using assms(2) r(1) o(2) by (simp_all add: stream_inv_def runs_ok_def)
  then show ?thesis using that [OF r o(1) tok o(2) _ a o(3,4,5)] by blast
qed

text \<open>An effect that replaces the record of the live run.\<close>

lemma live_effect_fits:
  assumes st: "stream_inv st" "dget (g_runs st) k = Some r" "\<not> is_final_run_status (m_status r)" "g_disposition st = DpActive"
    and run: "ef_runs ef = [run]" "sr_identity run = m_identity r" "sr_producer_fence run = m_fence r"
      "sr_producer_token run = None \<longleftrightarrow> is_final_run_status (sr_status run)"
      "is_final_run_status (sr_status run) \<or> sr_producer_token run = m_owner_token r" "0 \<le> sr_end_sequence run \<and> sr_end_sequence run \<le> effect_length st ef"
    and ef: "effect_active st ef = (if is_final_run_status (sr_status run) then None else Some k)"
      "effect_disposition st ef = DpActive" "ef_retention_action ef = RaStart \<Longrightarrow> is_final_run_status (sr_status run)"
      "\<And>ev. ef_message ef = Some ev \<Longrightarrow> ef_stream ef \<noteq> None \<and> e_seq (me_envelope ev) = int (length (g_messages st)) + 1 \<and>
         dget (g_by_message_id st) (e_message_id (me_envelope ev)) = None"
      "\<And>s. ef_stream ef = Some s \<Longrightarrow> st_generation s = g_generation st \<and> st_payload_bytes s = g_payload_bytes st +
         (case ef_message ef of None \<Rightarrow> 0 | Some ev \<Rightarrow> int (length (e_payload (me_envelope ev))))"
  shows "effect_fits st ef"
proof -
  have k: "i_run_id (sr_identity run) = k" using st(1,2) run(2) by (simp add: stream_inv_def runs_ok_def)
  have "run_live st k" using st by (simp add: run_live_def)
  then have "g_expires_at st = None"
    using st(1) by (auto simp: stream_inv_def active_ok_def phase_ok_def)
  then show ?thesis
    using assms k unfolding effect_fits_def run_fits_def by (simp, blast)
qed

lemma begin_settlement_fits:
  assumes s: "describes s t st" "stream_inv st" and ef: "resolve_begin_settlement t s = Inr ef"
  shows "effect_fits st ef \<and> ef_tombstone_reason ef = None \<and> ef_channel ef = None"
proof -
  from ef obtain run stream reference where o: "owned_run t s = Inr (run, stream, reference)" and ef':
    "ef = (effect_of ((default_result (tr_kind t))\<lparr>re_cancellation_preceded := Some (sr_status run = RsCancelRequested),
       re_run_status := Some (sr_status run)\<rparr>))\<lparr>ef_runs := [run\<lparr>sr_settlement_started := True\<rparr>]\<rparr>"
    by (auto simp: resolve_begin_settlement_def bindE_Inr_iff split: if_splits)
  from s o show ?thesis
  proof (rule owned_memory_run)
    fix r assume r: "dget (g_runs st) (i_run_id (tr_identity t)) = Some r" "run = stored_memory_run r (g_generation st)"
      "\<not> is_final_run_status (m_status r)" "m_owner_token r \<noteq> None" "g_disposition st = DpActive"
      "map_option i_run_id (g_active_identity st) = Some (i_run_id (tr_identity t))" "0 \<le> m_end_seq r \<and> m_end_seq r \<le> int (length (g_messages st))"
    have "effect_fits st ef"
      by (rule live_effect_fits [OF s(2) r(1,3,5)], simp add: ef')
         (use r in \<open>simp_all add: ef' effect_active_def effect_disposition_def effect_length_def\<close>)
    then show ?thesis by (simp add: ef')
  qed
qed

lemma finish_run_fits:
  assumes s: "describes s t st" "stream_inv st" and ef: "resolve_finish_run t s = Inr ef"
  shows "effect_fits st ef \<and> ef_tombstone_reason ef = None \<and> ef_channel ef = None"
proof -
  from ef obtain run stream reference status failure where o: "owned_run t s = Inr (run, stream, reference)" and
    fin: "is_final_run_status status" and ef': "ef = finished_effect t run stream status failure"
  proof -
    assume a: "\<And>run stream reference status failure. owned_run t s = Inr (run, stream, reference) \<Longrightarrow>
      is_final_run_status status \<Longrightarrow> ef = finished_effect t run stream status failure \<Longrightarrow> thesis"
    have "is_final_run_status RsFailed" by (simp add: is_final_run_status_def)
    then show thesis
      using ef a by (auto simp: resolve_finish_run_def bindE_Inr_iff split: option.splits if_splits)
  qed
  from s o show ?thesis
  proof (rule owned_memory_run)
    fix r assume r: "dget (g_runs st) (i_run_id (tr_identity t)) = Some r" "run = stored_memory_run r (g_generation st)"
      "\<not> is_final_run_status (m_status r)" "g_disposition st = DpActive"
      "map_option i_run_id (g_active_identity st) = Some (i_run_id (tr_identity t))"
      "stream = stored_memory_stream (tr_channel t) (tr_identity t) st"
    have "effect_fits st ef"
      by (rule live_effect_fits [OF s(2) r(1,3,4)], simp add: ef' finished_effect_def Let_def)
         (use r fin in \<open>simp_all add: ef' finished_effect_def Let_def effect_active_def effect_disposition_def effect_length_def
            clear_active_def\<close>)
    then show ?thesis by (simp add: ef' finished_effect_def Let_def)
  qed
qed

lemma request_cancellation_fits:
  assumes s: "describes s t st" "stream_inv st" and ef: "resolve_request_cancellation t s = Inr ef"
  shows "effect_fits st ef \<and> ef_tombstone_reason ef = None \<and> ef_channel ef = None"
proof -
  from ef obtain run stream where run: "ss_target_run s = Some run" "ss_stream s = Some stream" "st_disposition stream = DpActive"
    and cases: "idle_effect ef \<and> ef_channel ef = None \<or> sr_status run = RsRunning \<and> ef = (effect_of ((default_result (tr_kind t))
        \<lparr>re_cancellation_requested := Some True, re_run_status := Some RsCancelRequested\<rparr>))
      \<lparr>ef_stream := Some (stream\<lparr>st_control_sequence := st_control_sequence stream + 1\<rparr>),
       ef_runs := [run\<lparr>sr_status := RsCancelRequested\<rparr>]\<rparr>"
    by (auto simp: resolve_request_cancellation_def bindE_Inr_iff required_Inr Let_def idle_effect_def split: if_splits)
  from cases show ?thesis
  proof
    assume "idle_effect ef \<and> ef_channel ef = None"
    then show ?thesis using idle_fits [OF s(2)] by (simp add: idle_effect_def)
  next
    assume e: "sr_status run = RsRunning \<and> ef = (effect_of ((default_result (tr_kind t))
        \<lparr>re_cancellation_requested := Some True, re_run_status := Some RsCancelRequested\<rparr>))
      \<lparr>ef_stream := Some (stream\<lparr>st_control_sequence := st_control_sequence stream + 1\<rparr>),
       ef_runs := [run\<lparr>sr_status := RsCancelRequested\<rparr>]\<rparr>"
    obtain r where r: "dget (g_runs st) (i_run_id (tr_identity t)) = Some r"
      "run = stored_memory_run r (g_generation st)" by (rule target_record [OF s(1) run(1)])
    have live: "\<not> is_final_run_status (m_status r)" using e r by (simp add: is_final_run_status_def)
    have st: "stream = stored_memory_stream (tr_channel t) (tr_identity t) st" using run(2) s(1) by (simp add: describes_def)
    note a = live_run_facts [OF s(2) r(1) live]
    have "effect_fits st ef"
      by (rule live_effect_fits [OF s(2) r(1) live], use run(3) st in simp, simp add: e)
         (use r a run(3) st in \<open>simp_all add: e effect_active_def effect_disposition_def effect_length_def is_final_run_status_def\<close>)
    then show ?thesis by (simp add: e)
  qed
qed

lemma idle_effect_of [simp]: "idle_effect (effect_of r)"
  by (simp add: idle_effect_def)

lemma renew_fits: "okE (\<lambda>ef. idle_effect ef \<and> ef_channel ef = None) (resolve_renew_producer_ownership t s)"
  unfolding resolve_renew_producer_ownership_def
  by (intro okE_intros; simp add: ownership_result_def idle_effect_def)

lemma reconcile_fits:
  assumes s: "describes s t st" "stream_inv st"
  shows "okE (\<lambda>ef. idle_effect ef \<and> ef_channel ef = None) (resolve_reconcile_producer_ownership t s)"
  unfolding resolve_reconcile_producer_ownership_def
proof (intro okE_intros)
  fix run assume "required_target_run t s = Inr run" and n: "\<not> (is_final_run_status (sr_status run) \<or> sr_producer_lease_active run)"
  then have run: "ss_target_run s = Some run" by (simp add: required_Inr)
  obtain r where r: "dget (g_runs st) (i_run_id (tr_identity t)) = Some r"
    "run = stored_memory_run r (g_generation st)" by (rule target_record [OF s(1) run])
  have False using n r(2) live_run_facts(1) [OF s(2) r(1)] by auto
  then show "okE P x" for P and x :: "messaging_error + storage_effect" ..
qed simp_all

text \<open>A live producer blocks the sealing of its generation.\<close>

lemma cleanup_owner_none:
  assumes s: "describes s t st" "stream_inv st"
    and c: "cleanup_owner t s (stored_memory_stream (tr_channel t) (tr_identity t) st) = Inr lost"
  shows "lost = None \<and> g_active_identity st = None"
proof (cases "g_active_identity st")
  case None
  then show ?thesis using c by (simp add: cleanup_owner_def)
next
  case (Some a)
  have "run_live st (i_run_id a)" using s(2) Some by (simp add: stream_inv_def active_ok_def)
  then obtain r where r: "dget (g_runs st) (i_run_id a) = Some r" "\<not> is_final_run_status (m_status r)"
    by (auto simp: run_live_def)
  note l = live_run_facts [OF s(2) r]
  have t: "ss_target_run s = map_option (\<lambda>r. stored_memory_run r (g_generation st)) (dget (g_runs st) (i_run_id (tr_identity t)))"
    "ss_active_run s = map_option (\<lambda>r. stored_memory_run r (g_generation st)) (active_record True (tr_identity t) st)"
    using s(1) by (simp_all add: describes_def)
  have k: "dget (g_runs st) k = Some r' \<Longrightarrow> i_run_id (m_identity r') = k" for k r'
    using s(2) by (simp add: stream_inv_def runs_ok_def)
  show ?thesis
    using c r l(1) Some k by (auto simp: cleanup_owner_def Let_def t active_record_def split: option.splits if_splits)
qed

lemma sealed_effect_fits:
  assumes "g_active_identity st = None" "g_disposition st = DpActive"
  shows "effect_fits st (sealed_effect t (stored_memory_stream c i st) reason None)"
  using assms by (auto simp: effect_fits_def sealed_effect_def effect_active_def effect_disposition_def)

lemma begin_cleanup_fits:
  assumes s: "describes s t st" "stream_inv st"
  shows "okE (\<lambda>ef. effect_fits st ef \<and> ef_tombstone_reason ef = None \<and> ef_channel ef = None)
    (resolve_begin_generation_cleanup t s)"
proof -
  let ?stream = "stored_memory_stream (tr_channel t) (tr_identity t) st"
  have st: "ss_stream s = Some ?stream" using s(1) by (simp add: describes_def)
  have ph: "g_disposition st \<in> {DpActive, DpDeleting, DpExpiring}" using s(2) by (simp_all add: stream_inv_def phase_ok_def)
  have seal: "effect_fits st (sealed_effect t ?stream reason lost) \<and>
      ef_tombstone_reason (sealed_effect t ?stream reason lost) = None \<and> ef_channel (sealed_effect t ?stream reason lost) = None"
    if "cleanup_owner t s ?stream = Inr lost" "g_disposition st = DpActive" for reason lost
    using cleanup_owner_none [OF s that(1)] sealed_effect_fits [OF _ that(2)] by (auto simp: sealed_effect_def)
  show ?thesis
    unfolding resolve_begin_generation_cleanup_def st option.case
    by (intro okE_intros) (use ph in \<open>auto simp: idle_fits [OF s(2)] intro!: seal\<close>)
qed

lemma finish_cleanup_fits:
  assumes s: "describes s t st" "stream_inv st"
  shows "okE (\<lambda>ef. (idle_effect ef \<or> (g_disposition st \<noteq> DpActive \<and> ef_runs ef = [] \<and> ef_message ef = None \<and>
      ef_retention_action ef = RaNone \<and> (\<exists>s. ef_stream ef = Some s \<and> st_generation s = g_generation st) \<and>
      ef_tombstone_reason ef \<noteq> None)) \<and> ef_channel ef = None)
    (resolve_finish_generation_cleanup t s)"
  unfolding resolve_finish_generation_cleanup_def
  by (intro okE_intros; use s(1) in \<open>auto simp: describes_def split: if_splits\<close>)

section \<open>Messages\<close>

lemma publication_target_Inr:
  assumes s: "describes s t st" "stream_inv st" and p: "publication_target t s = Inr (run, stream, reference)"
  obtains r where "dget (g_runs st) (i_run_id (tr_identity t)) = Some r" "run = stored_memory_run r (g_generation st)"
    "stream = stored_memory_stream (tr_channel t) (tr_identity t) st" "g_disposition st = DpActive"
    "tr_kind t \<noteq> PublishMessage \<Longrightarrow> \<not> is_final_run_status (m_status r)"
proof (cases "tr_kind t = PublishMessage")
  case True
  then have o: "ss_target_run s = Some run" "ss_stream s = Some stream" "st_disposition stream = DpActive"
    using p by (auto simp: publication_target_def bindE_Inr_iff required_Inr split: if_splits)
  from s(1) o(1) show ?thesis
  proof (rule target_record)
    fix r assume "dget (g_runs st) (i_run_id (tr_identity t)) = Some r" "run = stored_memory_run r (g_generation st)"
    then show ?thesis using that [of r] True o(2,3) s(1) by (simp add: describes_def)
  qed
next
  case False
  then have o: "owned_run t s = Inr (run, stream, the reference)"
    using p by (auto simp: publication_target_def bindE_Inr_iff split: if_splits)
  from s o show ?thesis by (rule owned_memory_run) (use that in blast)
qed

lemma mk_message_envelope_Inr: "mk_message_envelope e = Inr e' \<Longrightarrow> e' = e"
  by (auto simp: mk_message_envelope_def bindE_Inr_iff)

lemma required_text_Inr: "required_text nm v = Inr x \<Longrightarrow> v = Some x"
  by (auto simp: required_text_def required_identifier_def bindE_Inr_iff split: option.splits)

lemma check_publication_Inr: "check_publication t run = Inr u \<Longrightarrow> tr_kind t = PublishMessage \<Longrightarrow> sr_status run = RsRunning"
  by (auto simp: check_publication_def split: if_splits)

lemma appended_effect_fits:
  assumes s: "stream_inv st" "dget (g_runs st) (i_run_id (tr_identity t)) = Some r" "\<not> is_final_run_status (m_status r)"
    and e: "e_seq e = int (length (g_messages st)) + 1" "dget (g_by_message_id st) (e_message_id e) = None"
  shows "effect_fits st (appended_effect t (stored_memory_run r (g_generation st)) (stored_memory_stream c i st) ref e sig)"
proof -
  note l = live_run_facts [OF s]
  show ?thesis
    by (rule live_effect_fits [OF s l(5)], simp add: appended_effect_def)
       (use s l e in \<open>simp_all add: appended_effect_def effect_active_def effect_disposition_def effect_length_def\<close>)
qed

lemma append_fits:
  assumes s: "describes s t st" "stream_inv st"
  shows "okE (\<lambda>ef. effect_fits st ef \<and> ef_tombstone_reason ef = None \<and> ef_channel ef = None) (resolve_append_message sha t s)"
  unfolding resolve_append_message_def
proof (intro okE_intros; (simp add: idle_fits [OF s(2)]; fail)?)
  fix x run y stream reference codec mid payload sig e and u v :: unit
  assume "publication_target t s = Inr x" "x = (run, y)" "y = (stream, reference)" and m: "required_text ''message_id'' (tr_message_id t) = Inr mid"
    and n: "ss_matching_message s = None" and p: "check_publication t run = Inr u"
    and e: "mk_message_envelope \<lparr>e_channel = tr_channel t, e_identity = tr_identity t, e_seq = st_latest_sequence stream + 1,
      e_message_id = mid, e_codec = codec, e_payload = payload, e_created_at = ss_observed_at s\<rparr> = Inr e"
  then have "publication_target t s = Inr (run, stream, reference)" by simp
  with s show "effect_fits st (appended_effect t run stream reference e sig) \<and>
      ef_tombstone_reason (appended_effect t run stream reference e sig) = None \<and>
      ef_channel (appended_effect t run stream reference e sig) = None"
  proof (rule publication_target_Inr)
    fix r assume r: "dget (g_runs st) (i_run_id (tr_identity t)) = Some r" "run = stored_memory_run r (g_generation st)"
      "stream = stored_memory_stream (tr_channel t) (tr_identity t) st"
      "tr_kind t \<noteq> PublishMessage \<Longrightarrow> \<not> is_final_run_status (m_status r)"
    have live: "\<not> is_final_run_status (m_status r)"
      using r(4) check_publication_Inr [OF p] r(2) by (cases "tr_kind t = PublishMessage") (auto simp: is_final_run_status_def)
    have "dget (g_by_message_id st) mid = None"
      using s(1) n required_text_Inr [OF m] by (simp add: describes_def)
    then have "effect_fits st (appended_effect t run stream reference e sig)"
      unfolding r(2,3) using mk_message_envelope_Inr [OF e] r(3) by (intro appended_effect_fits [OF s(2) r(1) live]) simp_all
    then show ?thesis by (simp add: appended_effect_def)
  qed
qed

section \<open>Preparation\<close>

lemma created_effect_fits:
  assumes "g_active_identity st = None" "g_disposition st = DpActive" "dget (g_runs st) (i_run_id (tr_identity t)) = None"
    and "st_generation stream = g_generation st" "st_disposition stream = DpActive" "st_payload_bytes stream = g_payload_bytes st"
      "st_latest_sequence stream = int (length (g_messages st))" "1 \<le> st_next_producer_fence stream"
      "\<And>k r. dget (g_runs st) k = Some r \<Longrightarrow> m_fence r < st_next_producer_fence stream"
  shows "effect_fits st (created_effect t stream cursor che None)"
  using assms
  by (auto simp: effect_fits_def created_effect_def created_run_def effect_active_def effect_disposition_def run_fits_def
      effect_length_def is_final_run_status_def)

lemma next_fence:
  assumes "runs_ok st"
  shows "1 \<le> st_next_producer_fence (stored_memory_stream c i st)"
    "dget (g_runs st) k = Some r \<Longrightarrow> m_fence r < st_next_producer_fence (stored_memory_stream c i st)"
proof -
  have ge: "m_fence r \<le> max_default 0 (map m_fence (dvalues (g_runs st)))" if "dget (g_runs st) k = Some r" for k r
    using dget_in_dvalues [OF that] by (intro max_default_ge) (auto simp: image_image)
  show "dget (g_runs st) k = Some r \<Longrightarrow> m_fence r < st_next_producer_fence (stored_memory_stream c i st)"
    using ge by fastforce
  show "1 \<le> st_next_producer_fence (stored_memory_stream c i st)"
  proof (cases "g_runs st")
    case (Cons kv d)
    then have "dget (g_runs st) (fst kv) = Some (snd kv)" by (cases kv) simp
    then have "1 \<le> m_fence (snd kv)" "m_fence (snd kv) \<le> max_default 0 (map m_fence (dvalues (g_runs st)))"
      using assms ge by (auto simp: runs_ok_def)
    then show ?thesis by simp
  qed (simp add: max_default_def)
qed

lemma attachment_idle [simp]: "idle_effect (prepared_attachment t stream cursor che)"
  by (simp add: prepared_attachment_def idle_effect_def)

text \<open>In memory no run has lost its producer.\<close>

lemma producers_present:
  assumes s: "describes s t st" "stream_inv st"
  shows "ss_target_run s = Some run \<Longrightarrow> is_final_run_status (sr_status run) \<or> sr_producer_lease_active run"
    "ss_active_run s = Some run \<Longrightarrow> sr_producer_lease_active run"
    "ss_target_run s = None \<Longrightarrow> ss_active_run s = None \<Longrightarrow> g_active_identity st = None"
proof -
  have act: "ss_active_run s = map_option (\<lambda>r. stored_memory_run r (g_generation st)) (active_record True (tr_identity t) st)"
    using s(1) by (simp add: describes_def)
  have live: "\<exists>r. dget (g_runs st) (i_run_id a) = Some r \<and> \<not> is_final_run_status (m_status r)" if "g_active_identity st = Some a" for a
  proof -
    have "run_live st (i_run_id a)" using s(2) that by (simp add: stream_inv_def active_ok_def)
    then show ?thesis by (simp add: run_live_def)
  qed
  show "ss_active_run s = Some run \<Longrightarrow> sr_producer_lease_active run"
    using act live live_run_facts(1) [OF s(2)] by (auto simp: active_record_def split: option.splits if_splits)
  show "ss_target_run s = None \<Longrightarrow> ss_active_run s = None \<Longrightarrow> g_active_identity st = None"
    using act live s(1) by (auto simp: active_record_def describes_def split: option.splits if_splits)
  assume run: "ss_target_run s = Some run"
  obtain r where r: "dget (g_runs st) (i_run_id (tr_identity t)) = Some r"
    "run = stored_memory_run r (g_generation st)" by (rule target_record [OF s(1) run])
  show "is_final_run_status (sr_status run) \<or> sr_producer_lease_active run"
    using r(2) live_run_facts(1) [OF s(2) r(1)] by auto
qed

lemma prepare_fits:
  assumes s: "describes s t st" "stream_inv st"
  shows "okE (\<lambda>ef. effect_fits st ef \<and> ef_tombstone_reason ef = None) (resolve_prepare_run t s)"
proof -
  let ?stream = "stored_memory_stream (tr_channel t) (tr_identity t) st"
  have attach: "effect_fits st (prepared_attachment t stream cursor che) \<and> ef_tombstone_reason (prepared_attachment t stream cursor che) = None"
    for stream cursor che
    using idle_fits [OF s(2) attachment_idle] attachment_idle [of t stream cursor che] unfolding idle_effect_def by blast
  have "ss_stream s = Some ?stream" using s(1) by (simp add: describes_def)
  then have stream: "stream = ?stream \<and> g_disposition st = DpActive" if "prepare_stream t s = Inr stream" for stream
    using that s(2) by (auto simp: prepare_stream_def stream_inv_def phase_ok_def split: if_splits)
  have create: "effect_fits st (created_effect t stream cursor che None) \<and> ef_tombstone_reason (created_effect t stream cursor che None) = None"
    if "prepare_stream t s = Inr stream" "ss_target_run s = None" "ss_active_run s = None" for stream cursor che
  proof -
    have "dget (g_runs st) (i_run_id (tr_identity t)) = None" using that(2) s(1) by (simp add: describes_def)
    then have "effect_fits st (created_effect t ?stream cursor che None)"
      using stream [OF that(1)] producers_present(3) [OF s that(2,3)] next_fence [of st] s(2)
      by (intro created_effect_fits) (auto simp del: stored_stream_fields(7) simp: stream_inv_def)
    then show ?thesis using stream [OF that(1)] by (simp add: created_effect_def)
  qed
  show ?thesis
    unfolding resolve_prepare_run_def
    by (intro okE_intros attach create) (use producers_present [OF s] in blast)+
qed

section \<open>Every transition\<close>

text \<open>Against a live or sealed generation.\<close>

definition retires :: "stream_state \<Rightarrow> storage_effect \<Rightarrow> bool" where
  "retires st ef \<longleftrightarrow> g_disposition st \<noteq> DpActive \<and> ef_runs ef = [] \<and> ef_message ef = None \<and>
     ef_retention_action ef = RaNone \<and> (\<exists>s. ef_stream ef = Some s \<and> st_generation s = g_generation st) \<and> ef_tombstone_reason ef \<noteq> None \<and>
     ef_channel ef = None"

lemma okE_mono: "okE P r \<Longrightarrow> (\<And>a. P a \<Longrightarrow> Q a) \<Longrightarrow> okE Q r"
  by (simp add: okE_def)

lemma resolve_fits:
  assumes s: "describes s t st" "stream_inv st"
  shows "okE (\<lambda>ef. (effect_fits st ef \<and> ef_tombstone_reason ef = None \<and> (tr_kind t \<noteq> PrepareRun \<longrightarrow> ef_channel ef = None)) \<or>
    (tr_kind t = FinishGenerationCleanup \<and> retires st ef)) (resolve_messaging_transition sha t s)"
    (is "okE ?P _")
proof -
  have fit: "okE ?P r" if "okE (\<lambda>ef. effect_fits st ef \<and> ef_tombstone_reason ef = None \<and> ef_channel ef = None) r" for r
    using that by (rule okE_mono) simp
  have idle: "okE ?P r" if "okE (\<lambda>ef. idle_effect ef \<and> ef_channel ef = None) r" for r
    using that by (rule okE_mono) (auto simp: idle_fits [OF s(2)], auto simp: idle_effect_def)
  have prep: "okE ?P (resolve_prepare_run t s)" if "tr_kind t = PrepareRun"
    using prepare_fits [OF s] by (rule okE_mono) (simp add: that)
  have fin: "okE ?P (resolve_finish_generation_cleanup t s)" if "tr_kind t = FinishGenerationCleanup"
    using finish_cleanup_fits [OF s] that by (elim okE_mono) (auto simp: retires_def idle_fits [OF s(2)], auto simp: idle_effect_def)
  show ?thesis
    unfolding resolve_messaging_transition_def
  proof (rule okE_bindE)
    show "okE ?P (case tr_kind t of
         PrepareRun \<Rightarrow> resolve_prepare_run t s
       | AppendMessage \<Rightarrow> resolve_append_message sha t s
       | PublishMessage \<Rightarrow> resolve_append_message sha t s
       | BeginSettlement \<Rightarrow> resolve_begin_settlement t s
       | FinishRun \<Rightarrow> resolve_finish_run t s
       | RequestCancellation \<Rightarrow> resolve_request_cancellation t s
       | RenewProducerOwnership \<Rightarrow> resolve_renew_producer_ownership t s
       | ReconcileProducerOwnership \<Rightarrow> resolve_reconcile_producer_ownership t s
       | BeginGenerationCleanup \<Rightarrow> resolve_begin_generation_cleanup t s
       | FinishGenerationCleanup \<Rightarrow> resolve_finish_generation_cleanup t s)"
      using prep fin append_fits [OF s, THEN fit] renew_fits [THEN idle] reconcile_fits [OF s, THEN idle]
        begin_cleanup_fits [OF s, THEN fit] begin_settlement_fits [OF s] finish_run_fits [OF s] request_cancellation_fits [OF s]
      by (cases "tr_kind t") (simp_all add: okE_def)
  qed
qed

text \<open>Without a generation: only preparation creates one, with the next number.\<close>

lemma resolve_absent:
  assumes s: "ss_stream s = None" "ss_target_run s = None" "ss_active_run s = None"
  shows "okE (\<lambda>ef. (idle_effect ef \<and> ef_channel ef = None) \<or>
    (tr_kind t = PrepareRun \<and> (\<exists>codec che stream cursor. prepare_channel t codec (ss_channel s) = Inr che \<and>
       new_generation t s = Inr stream \<and> ef = created_effect t stream cursor che None)))
    (resolve_messaging_transition sha t s)" (is "okE ?P _")
proof -
  have prep: "okE ?P (resolve_prepare_run t s)" if "tr_kind t = PrepareRun"
    unfolding resolve_prepare_run_def prepare_stream_def s option.case
    by (intro okE_intros) (use that in blast)
  have rest: "owned_run t s \<noteq> Inr x" "required_target_run t s \<noteq> Inr y" "publication_target t s \<noteq> Inr z" for x y z
    using s by (auto simp: owned_run_def required_target_run_def publication_target_def bindE_Inr_iff split: if_splits prod.splits)
  have renew: "okE ?P (resolve_renew_producer_ownership t s)" using renew_fits by (rule okE_mono) simp
  have clean: "okE ?P (resolve_begin_generation_cleanup t s)" "okE ?P (resolve_finish_generation_cleanup t s)"
    unfolding resolve_begin_generation_cleanup_def resolve_finish_generation_cleanup_def s option.case
    by (intro okE_intros; simp)+
  show ?thesis
    unfolding resolve_messaging_transition_def
    using prep renew clean rest
    by (intro okE_bindE, cases "tr_kind t")
       (auto simp: okE_def resolve_append_message_def resolve_begin_settlement_def resolve_finish_run_def resolve_request_cancellation_def
         resolve_reconcile_producer_ownership_def bindE_Inr_iff)
qed

end
