(* ===== verification/Messaging_Memory_Correct.thy ===== *)
theory Messaging_Memory_Correct
  imports Messaging_Memory_Resolve
begin

text \<open>
  The invariant of the whole in-memory backend: well-formed generations, generation numbers that only
  grow, the expiry index, and capacity totals that are exactly what is stored and never above the limits.
\<close>

section \<open>Expiry index\<close>

definition index_ok :: "expiry_index \<Rightarrow> bool" where
  "index_ok x \<longleftrightarrow> dwf (x_deadlines x) \<and> sorted (x_heap x) \<and>
     (\<forall>k d. dget (x_deadlines x) k = Some d \<longrightarrow> (d, k) \<in> set (x_heap x))"

lemma compact_index_ok: "index_ok x \<Longrightarrow> index_ok (compact_index x)"
  by (force simp: index_ok_def compact_index_def dest: map_of_SomeD)

lemma compact_index_deadlines [simp]: "x_deadlines (compact_index x) = x_deadlines x"
  by (simp add: compact_index_def)

lemma index_set_ok: "index_ok x \<Longrightarrow> index_ok (index_set k d x)"
  unfolding index_set_def
  by (rule compact_index_ok)
     (auto simp: index_ok_def dict_simps sorted_insort set_insort_key split: option.split if_splits)

lemma index_set_deadlines:
  "dget (x_deadlines (index_set k d x)) k' = (if k' = k then d else dget (x_deadlines x) k')"
  by (auto simp: index_set_def dict_simps split: option.split)

lemma pop_due_ok:
  assumes "index_ok \<lparr>x_deadlines = ds, x_heap = h\<rparr>" "pop_due now ds h = (r, x)"
  shows "index_ok x \<and>
    (case r of
       None \<Rightarrow> x_deadlines x = ds \<and> (\<forall>k d. dget ds k = Some d \<longrightarrow> now < d)
     | Some k \<Rightarrow> x_deadlines x = ddel k ds \<and>
         (\<exists>d. dget ds k = Some d \<and> d \<le> now \<and> (\<forall>k' d'. dget ds k' = Some d' \<longrightarrow> d \<le> d')))"
  using assms
proof (induction now ds h rule: pop_due.induct)
  case (1 now ds)
  then show ?case by (auto simp: index_ok_def)
next
  case (2 now ds d k h)
  let ?x = "\<lparr>x_deadlines = ds, x_heap = h\<rparr>"
  have least: "d \<le> d'" if "dget ds k' = Some d'" for k' d'
    using 2(2) that by (fastforce simp: index_ok_def less_eq_prod_def)
  show ?case
  proof (cases "d \<le> now \<and> dget ds k \<noteq> Some d")
    case True
    then have "index_ok ?x" using 2(2) by (auto simp: index_ok_def)
    then show ?thesis using 2(1) True 2(3) by (auto split: if_splits)
  next
    case False
    then show ?thesis
      using 2(2,3) least by (fastforce simp: index_ok_def dict_simps split: if_splits)
  qed
qed

section \<open>The backend\<close>

definition next_gen :: "channel_state \<Rightarrow> string \<Rightarrow> int" where
  "next_gen ch k = (case dget (c_next_generations ch) k of None \<Rightarrow> 1 | Some n \<Rightarrow> n)"

definition tombs :: "channel_state \<Rightarrow> string \<Rightarrow> (int, cleanup_reason) dict" where
  "tombs ch k = (case dget (c_tombstones ch) k of None \<Rightarrow> [] | Some d \<Rightarrow> d)"

definition known_threads :: "channel_state \<Rightarrow> string set" where
  "known_threads ch = {k. dget (c_next_generations ch) k \<noteq> None \<or> dget (c_streams ch) k \<noteq> None}"

definition tombs_ok :: "channel_state \<Rightarrow> bool" where
  "tombs_ok ch \<longleftrightarrow>
     (\<forall>k. tombs ch k = [] \<longleftrightarrow> dget (c_next_generations ch) k = None) \<and>
     (\<forall>k. dwf (tombs ch k)) \<and>
     (\<forall>k g. dget (tombs ch k) g \<noteq> None \<longrightarrow> 1 \<le> g \<and> g < next_gen ch k) \<and>
     (\<forall>k. dget (c_next_generations ch) k \<noteq> None \<longrightarrow> dget (tombs ch k) (next_gen ch k - 1) \<noteq> None)"

definition channel_inv :: "string \<Rightarrow> channel_state \<Rightarrow> bool" where
  "channel_inv c ch \<longleftrightarrow>
     c_channel ch = c \<and> c_codec ch \<noteq> None \<and> dwf (c_streams ch) \<and> dwf (c_next_generations ch) \<and> dwf (c_tombstones ch) \<and>
     tombs_ok ch \<and>
     (\<forall>k st. dget (c_streams ch) k = Some st \<longrightarrow> stream_inv st \<and> g_generation st = next_gen ch k)"

definition channel_bytes :: "channel_state \<Rightarrow> int" where
  "channel_bytes ch = dsum g_retained_bytes (c_streams ch)"

definition channel_records :: "channel_state \<Rightarrow> int" where
  "channel_records ch =
     1 + int (card (known_threads ch)) + dsum g_retained_records (c_streams ch) + dsum (\<lambda>d. int (length d)) (c_tombstones ch)"

definition index_linked :: "memory_backend \<Rightarrow> bool" where
  "index_linked mb \<longleftrightarrow>
     (\<forall>c k d. dget (x_deadlines (mb_expirations mb)) (c, k) = Some d \<longrightarrow>
        (\<exists>ch st. dget (mb_channels mb) c = Some ch \<and> dget (c_streams ch) k = Some st \<and> g_expires_at st = Some d))"

definition backend_inv :: "memory_backend \<Rightarrow> bool" where
  "backend_inv mb \<longleftrightarrow>
     dwf (mb_channels mb) \<and> (\<forall>c ch. dget (mb_channels mb) c = Some ch \<longrightarrow> channel_inv c ch) \<and>
     mb_total_bytes mb = dsum channel_bytes (mb_channels mb) \<and>
     mb_total_records mb = dsum channel_records (mb_channels mb) \<and>
     mb_total_bytes mb \<le> max_total_bytes (mb_limits mb) \<and> mb_total_records mb \<le> max_total_records (mb_limits mb) \<and>
     index_ok (mb_expirations mb) \<and> index_linked mb"

lemma backend_channel: "backend_inv mb \<Longrightarrow> dget (mb_channels mb) c = Some ch \<Longrightarrow> channel_inv c ch"
  by (simp add: backend_inv_def)

lemma index_link:
  assumes "backend_inv mb" "dget (mb_channels mb) c = Some ch" "dget (x_deadlines (mb_expirations mb)) (c, k) = Some d"
  shows "\<exists>st. dget (c_streams ch) k = Some st \<and> g_expires_at st = Some d"
  using assms unfolding backend_inv_def index_linked_def by fastforce

lemma channel_stream:
  "channel_inv c ch \<Longrightarrow> dget (c_streams ch) k = Some st \<Longrightarrow> stream_inv st \<and> g_generation st = next_gen ch k"
  by (simp add: channel_inv_def)

lemma finite_known: "finite (known_threads ch)"
proof -
  have "known_threads ch = dom (dget (c_next_generations ch)) \<union> dom (dget (c_streams ch))"
    by (auto simp: known_threads_def)
  then show ?thesis by (simp add: finite_dom_map_of)
qed

text \<open>Replacing a channel, with the totals following.\<close>

lemma put_channel_inv:
  assumes mb: "backend_inv mb" and ch: "channel_inv c ch'"
    and old: "b = (case dget (mb_channels mb) c of None \<Rightarrow> 0 | Some ch \<Rightarrow> channel_bytes ch)"
      "n = (case dget (mb_channels mb) c of None \<Rightarrow> 0 | Some ch \<Rightarrow> channel_records ch)"
    and new: "mb' = mb\<lparr>mb_channels := dput c ch' (mb_channels mb), mb_total_bytes := tb, mb_total_records := tr, mb_expirations := x\<rparr>"
      "tb = mb_total_bytes mb + channel_bytes ch' - b" "tr = mb_total_records mb + channel_records ch' - n"
      "tb \<le> max_total_bytes (mb_limits mb)" "tr \<le> max_total_records (mb_limits mb)"
    and x: "index_ok x" "\<And>c' k d. dget (x_deadlines x) (c', k) = Some d \<Longrightarrow>
      if c' = c then \<exists>st. dget (c_streams ch') k = Some st \<and> g_expires_at st = Some d
      else dget (x_deadlines (mb_expirations mb)) (c', k) = Some d"
  shows "backend_inv mb'"
proof -
  have "index_linked mb'"
    unfolding index_linked_def
  proof (intro allI impI)
    fix c' k d assume "dget (x_deadlines (mb_expirations mb')) (c', k) = Some d"
    then show "\<exists>ch st. dget (mb_channels mb') c' = Some ch \<and> dget (c_streams ch) k = Some st \<and> g_expires_at st = Some d"
      using x(2) [of c' k d] mb by (auto simp: new(1) dict_simps backend_inv_def index_linked_def split: if_splits)
  qed
  then show ?thesis
    using mb ch old new x(1) by (auto simp: backend_inv_def dict_simps dsum_dput split: option.splits)
qed

section \<open>Changing one generation\<close>

abbreviation with_stream :: "string \<Rightarrow> stream_state \<Rightarrow> channel_state \<Rightarrow> channel_state" where
  "with_stream k st ch \<equiv> ch\<lparr>c_streams := dput k st (c_streams ch)\<rparr>"

lemma tombs_with_stream [simp]: "tombs (with_stream k st ch) = tombs ch" "next_gen (with_stream k st ch) = next_gen ch"
  by (auto simp: tombs_def next_gen_def)

lemma with_stream_inv:
  assumes "channel_inv c ch" "stream_inv st" "g_generation st = next_gen ch k"
  shows "channel_inv c (with_stream k st ch)"
  using assms by (auto simp: channel_inv_def dict_simps tombs_ok_def)

lemma with_stream_counts:
  "channel_bytes (with_stream k st ch) =
     channel_bytes ch + g_retained_bytes st - (case dget (c_streams ch) k of None \<Rightarrow> 0 | Some s \<Rightarrow> g_retained_bytes s)"
  "channel_records (with_stream k st ch) =
     channel_records ch + g_retained_records st - (case dget (c_streams ch) k of None \<Rightarrow> 0 | Some s \<Rightarrow> g_retained_records s) +
     (if k \<in> known_threads ch then 0 else 1)"
proof -
  have "known_threads (with_stream k st ch) = insert k (known_threads ch)"
    by (auto simp: known_threads_def dict_simps)
  then show "channel_records (with_stream k st ch) =
     channel_records ch + g_retained_records st - (case dget (c_streams ch) k of None \<Rightarrow> 0 | Some s \<Rightarrow> g_retained_records s) +
     (if k \<in> known_threads ch then 0 else 1)"
    using finite_known [of ch] by (simp add: channel_records_def dsum_dput card_insert_if)
qed (simp add: channel_bytes_def dsum_dput)

definition retired :: "string \<Rightarrow> stream_state \<Rightarrow> cleanup_reason \<Rightarrow> channel_state \<Rightarrow> channel_state" where
  "retired k st reason ch =
     record_tombstone k (g_generation st) reason
       (ch\<lparr>c_streams := ddel k (c_streams ch), c_next_generations := dput k (g_generation st + 1) (c_next_generations ch)\<rparr>)"

lemma retire_eq:
  "retire_memory_generation k st reason (ch, mb) =
     (retired k st reason ch,
      mb\<lparr>mb_total_bytes := mb_total_bytes mb - g_retained_bytes st,
         mb_total_records := mb_total_records mb - (g_retained_records st - 1),
         mb_expirations := index_set (c_channel ch, k) None (mb_expirations mb)\<rparr>)"
  by (simp add: retire_memory_generation_def retired_def)

lemma retired_fields:
  "c_channel (retired k st reason ch) = c_channel ch"
  "c_codec (retired k st reason ch) = c_codec ch"
  "dget (c_streams (retired k st reason ch)) k' = (if k' = k then None else dget (c_streams ch) k')"
  "next_gen (retired k st reason ch) k' = (if k' = k then g_generation st + 1 else next_gen ch k')"
  "tombs (retired k st reason ch) k' = (if k' = k then dput (g_generation st) reason (tombs ch k) else tombs ch k')"
  by (auto simp: retired_def record_tombstone_def next_gen_def tombs_def dict_simps)

lemma retired_wf:
  assumes "dwf (c_streams ch)" "dwf (c_next_generations ch)" "dwf (c_tombstones ch)"
  shows "dwf (c_streams (retired k st reason ch)) \<and> dwf (c_next_generations (retired k st reason ch)) \<and>
    dwf (c_tombstones (retired k st reason ch))"
  using assms by (simp add: retired_def record_tombstone_def dict_simps)

lemma retired_inv:
  assumes ch: "channel_inv c ch" and st: "dget (c_streams ch) k = Some st"
  shows "channel_inv c (retired k st reason ch)"
proof -
  have g: "g_generation st = next_gen ch k" "1 \<le> g_generation st"
    using channel_stream [OF ch st] by (auto simp: stream_inv_def phase_ok_def)
  have t: "tombs_ok ch" using ch by (simp add: channel_inv_def)
  have "c_next_generations (retired k st reason ch) = dput k (g_generation st + 1) (c_next_generations ch)"
    by (simp add: retired_def record_tombstone_def)
  moreover have "dput x y d \<noteq> []" for x :: int and y :: cleanup_reason and d by (cases d) auto
  ultimately have "tombs_ok (retired k st reason ch)"
    using t g unfolding tombs_ok_def retired_fields by (auto simp: dict_simps split: if_splits) fastforce+
  then show ?thesis
    using ch retired_wf [of ch k st reason] unfolding channel_inv_def by (simp add: retired_fields)
qed

lemma retired_counts:
  assumes ch: "channel_inv c ch" and st: "dget (c_streams ch) k = Some st"
  shows "channel_bytes (retired k st reason ch) = channel_bytes ch - g_retained_bytes st"
    "channel_records (retired k st reason ch) = channel_records ch - (g_retained_records st - 1)"
proof -
  have wf: "dwf (c_streams ch)" using ch by (simp add: channel_inv_def)
  have known: "known_threads (retired k st reason ch) = known_threads ch"
    using st by (auto simp: known_threads_def retired_def record_tombstone_def dict_simps)
  have "g_generation st = next_gen ch k" "tombs_ok ch" using channel_stream [OF ch st] ch by (auto simp: channel_inv_def)
  then have "dget (tombs ch k) (g_generation st) = None" unfolding tombs_ok_def by (metis order_less_irrefl)
  then have "dsum (\<lambda>d. int (length d)) (c_tombstones (retired k st reason ch)) = dsum (\<lambda>d. int (length d)) (c_tombstones ch) + 1"
    by (auto simp: retired_def record_tombstone_def dsum_dput tombs_def length_dput split: option.splits)
  then show "channel_records (retired k st reason ch) = channel_records ch - (g_retained_records st - 1)"
    using known st wf by (simp add: channel_records_def retired_def record_tombstone_def dsum_ddel)
  show "channel_bytes (retired k st reason ch) = channel_bytes ch - g_retained_bytes st"
    using st wf by (simp add: channel_bytes_def retired_def record_tombstone_def dsum_ddel)
qed

section \<open>Progress\<close>

definition run_kept :: "run_record \<Rightarrow> run_record \<Rightarrow> bool" where
  "run_kept r r' \<longleftrightarrow>
     m_identity r' = m_identity r \<and> m_fence r' = m_fence r \<and> (m_owner_token r' = m_owner_token r \<or> m_owner_token r' = None) \<and>
     (is_final_run_status (m_status r) \<longrightarrow> r' = r)"

definition stream_evolves :: "stream_state \<Rightarrow> stream_state \<Rightarrow> bool" where
  "stream_evolves st st' \<longleftrightarrow>
     g_generation st' = g_generation st \<and>
     (g_disposition st' = DpActive \<longrightarrow>
        g_disposition st = DpActive \<and> (\<exists>new. g_messages st' = g_messages st @ new) \<and> dict_grows run_kept (g_runs st) (g_runs st'))"

definition channel_evolves :: "channel_state \<Rightarrow> channel_state \<Rightarrow> bool" where
  "channel_evolves ch ch' \<longleftrightarrow>
     c_codec ch' = c_codec ch \<and> (\<forall>k. next_gen ch k \<le> next_gen ch' k) \<and>
     (\<forall>k g reason. dget (tombs ch k) g = Some reason \<longrightarrow> dget (tombs ch' k) g = Some reason) \<and>
     (\<forall>k st. dget (c_streams ch) k = Some st \<longrightarrow>
        (\<exists>st'. dget (c_streams ch') k = Some st' \<and> stream_evolves st st') \<or> g_generation st < next_gen ch' k)"

definition backend_evolves :: "memory_backend \<Rightarrow> memory_backend \<Rightarrow> bool" where
  "backend_evolves mb mb' \<longleftrightarrow>
     dict_grows channel_evolves (mb_channels mb) (mb_channels mb') \<and> mb_limits mb' = mb_limits mb \<and>
     mb_retention_policy mb' = mb_retention_policy mb"

lemma run_kept_refl [simp]: "run_kept r r"
  by (simp add: run_kept_def)

lemma run_kept_trans: "run_kept a b \<Longrightarrow> run_kept b c \<Longrightarrow> run_kept a c"
  by (auto simp: run_kept_def)

lemma stream_evolves_refl [simp]: "stream_evolves st st"
  by (simp add: stream_evolves_def dict_grows_refl)

lemma stream_evolves_trans: "stream_evolves a b \<Longrightarrow> stream_evolves b c \<Longrightarrow> stream_evolves a c"
  unfolding stream_evolves_def using dict_grows_trans [of run_kept, OF run_kept_trans] by fastforce

lemma channel_evolves_refl [simp]: "channel_evolves ch ch"
  by (auto simp: channel_evolves_def intro: stream_evolves_refl)

lemma channel_evolves_trans:
  assumes "channel_evolves a b" "channel_evolves b c"
  shows "channel_evolves a c"
proof -
  have "(\<exists>st'. dget (c_streams c) k = Some st' \<and> stream_evolves st st') \<or> g_generation st < next_gen c k"
    if st: "dget (c_streams a) k = Some st" for k st
  proof -
    have n: "next_gen b k \<le> next_gen c k" using assms(2) by (simp add: channel_evolves_def)
    from assms(1) st consider st' where "dget (c_streams b) k = Some st'" "stream_evolves st st'" | "g_generation st < next_gen b k"
      unfolding channel_evolves_def by blast
    then show ?thesis
    proof cases
      case (1 st')
      then have "g_generation st' = g_generation st" by (simp add: stream_evolves_def)
      then show ?thesis using 1 assms(2) stream_evolves_trans by (fastforce simp: channel_evolves_def)
    qed (use n in simp)
  qed
  then show ?thesis using assms unfolding channel_evolves_def by (auto intro: order_trans)
qed

lemma backend_evolves_refl [simp]: "backend_evolves mb mb"
  by (simp add: backend_evolves_def dict_grows_refl)

lemma backend_evolves_trans: "backend_evolves a b \<Longrightarrow> backend_evolves b c \<Longrightarrow> backend_evolves a c"
  unfolding backend_evolves_def using dict_grows_trans [of channel_evolves, OF channel_evolves_trans] by fastforce

text \<open>
  The specification of one thread: generations numbered upwards, each opened empty, extended at its end
  by messages with the next sequence number and a new identifier, sealed, and retired for good.
\<close>

datatype thread_phase = Vacant | Open "message_envelope list" | Sealed

type_synonym thread_log = "int \<times> thread_phase"

inductive log_step :: "thread_log \<Rightarrow> thread_log \<Rightarrow> bool" where
  LogOpen: "log_step (g, Vacant) (g, Open [])"
| LogAppend: "e_seq e = int (length es) + 1 \<Longrightarrow> e_message_id e \<notin> e_message_id ` set es \<Longrightarrow> log_step (g, Open es) (g, Open (es @ [e]))"
| LogSeal: "log_step (g, Open es) (g, Sealed)"
| LogExpire: "log_step (g, Open es) (g + 1, Vacant)"
| LogRetire: "log_step (g, Sealed) (g + 1, Vacant)"

definition stream_phase :: "stream_state option \<Rightarrow> thread_phase" where
  "stream_phase x = (case x of None \<Rightarrow> Vacant | Some st \<Rightarrow> if g_disposition st = DpActive then Open (g_messages st) else Sealed)"

definition channel_log :: "channel_state \<Rightarrow> string \<Rightarrow> thread_log" where
  "channel_log ch k = (next_gen ch k, stream_phase (dget (c_streams ch) k))"

definition mb_log :: "memory_backend \<Rightarrow> string \<times> string \<Rightarrow> thread_log" where
  "mb_log mb = (\<lambda>(c, k). channel_log (mb_channel c mb) k)"

definition logs_refine :: "memory_backend \<Rightarrow> memory_backend \<Rightarrow> bool" where
  "logs_refine mb mb' \<longleftrightarrow> (\<forall>ck. log_step\<^sup>*\<^sup>* (mb_log mb ck) (mb_log mb' ck))"

lemma logs_refine_refl: "mb_channels mb' = mb_channels mb \<Longrightarrow> logs_refine mb mb'"
  by (simp add: logs_refine_def mb_log_def mb_channel_def)

lemma logs_refine_trans: "logs_refine a b \<Longrightarrow> logs_refine b c \<Longrightarrow> logs_refine a c"
  unfolding logs_refine_def by (meson rtranclp_trans)

lemma put_channel_logs:
  assumes "mb_channels mb' = dput c ch' (mb_channels mb)" "\<And>k. log_step\<^sup>*\<^sup>* (channel_log (mb_channel c mb) k) (channel_log ch' k)"
  shows "logs_refine mb mb'"
  using assms by (auto simp: logs_refine_def mb_log_def mb_channel_def dict_simps)

definition mb_keeps :: "memory_backend \<Rightarrow> memory_backend \<Rightarrow> bool" where
  "mb_keeps mb mb' \<longleftrightarrow> backend_inv mb' \<and> backend_evolves mb mb' \<and> logs_refine mb mb'"

lemma mb_keeps_refl: "backend_inv mb \<Longrightarrow> mb_keeps mb mb"
  by (simp add: mb_keeps_def logs_refine_refl)

lemma mb_keeps_trans: "mb_keeps a b \<Longrightarrow> mb_keeps b c \<Longrightarrow> mb_keeps a c"
  unfolding mb_keeps_def by (blast intro: backend_evolves_trans logs_refine_trans)

lemma put_channel_evolves:
  assumes "dget (mb_channels mb) c = Some ch \<Longrightarrow> channel_evolves ch ch'"
    "mb_channels mb' = dput c ch' (mb_channels mb)" "mb_limits mb' = mb_limits mb" "mb_retention_policy mb' = mb_retention_policy mb"
    "dget (mb_channels mb) c = None \<or> dget (mb_channels mb) c = Some ch"
  shows "backend_evolves mb mb'"
  using assms by (auto simp: backend_evolves_def intro!: dict_grows_put)

lemma with_stream_evolves:
  assumes "\<And>s. dget (c_streams ch) k = Some s \<Longrightarrow> stream_evolves s st"
  shows "channel_evolves ch (with_stream k st ch)"
  unfolding channel_evolves_def
proof (intro conjI allI impI)
  fix k' s assume s: "dget (c_streams ch) k' = Some s"
  then have "\<exists>st'. dget (c_streams (with_stream k st ch)) k' = Some st' \<and> stream_evolves s st'"
    using assms by (auto simp: dict_simps)
  then show "(\<exists>st'. dget (c_streams (with_stream k st ch)) k' = Some st' \<and> stream_evolves s st') \<or>
      g_generation s < next_gen (with_stream k st ch) k'" ..
qed simp_all

lemma retired_evolves:
  assumes ch: "channel_inv c ch" and st: "dget (c_streams ch) k = Some st"
  shows "channel_evolves ch (retired k st reason ch)"
proof -
  have g: "g_generation st = next_gen ch k" "tombs_ok ch" using channel_stream [OF ch st] ch by (auto simp: channel_inv_def)
  then have n: "dget (tombs ch k) (g_generation st) = None" unfolding tombs_ok_def by (metis order_less_irrefl)
  show ?thesis
    unfolding channel_evolves_def
  proof (intro conjI allI impI)
    fix k' s assume "dget (c_streams ch) k' = Some s"
    then show "(\<exists>st'. dget (c_streams (retired k st reason ch)) k' = Some st' \<and> stream_evolves s st') \<or>
        g_generation s < next_gen (retired k st reason ch) k'"
      using st by (auto simp: retired_fields)
  qed (use g n in \<open>auto simp: retired_fields dict_simps split: if_splits\<close>)
qed

lemma retired_logs:
  assumes ch: "channel_inv c ch" and st: "dget (c_streams ch) k = Some st"
  shows "log_step\<^sup>*\<^sup>* (channel_log ch k') (channel_log (retired k st reason ch) k')"
proof (cases "k' = k")
  case True
  have "log_step (channel_log ch k) (channel_log (retired k st reason ch) k)"
    using channel_stream [OF ch st] st LogExpire LogRetire by (simp add: channel_log_def stream_phase_def retired_fields)
  then show ?thesis using True by blast
qed (simp add: channel_log_def retired_fields)

lemma entry_bytes_nonneg: "0 \<le> entry_bytes e" "0 \<le> checkpoint_bytes c"
  by (auto simp: entry_bytes_def checkpoint_bytes_def split: prod.split option.split)

lemma retained_bounds: "stream_inv st \<Longrightarrow> 0 \<le> g_retained_bytes st \<and> 1 \<le> g_retained_records st"
  by (auto simp: stream_inv_def count_ok_def intro!: add_nonneg_nonneg dsum_nonneg entry_bytes_nonneg)

text \<open>Retiring a generation keeps the invariant.\<close>

lemma retire_keeps:
  assumes mb: "backend_inv mb" and ch: "dget (mb_channels mb) c = Some ch" and st: "dget (c_streams ch) k = Some st"
  shows "mb_keeps mb (case retire_memory_generation k st reason (ch, mb) of (ch', mb') \<Rightarrow> write_back ch' mb')"
proof -
  note ci = backend_channel [OF mb ch]
  have c: "c_channel ch = c" using ci by (simp add: channel_inv_def)
  let ?ch = "retired k st reason ch" and ?x = "index_set (c, k) None (mb_expirations mb)"
  let ?mb = "mb\<lparr>mb_channels := dput c ?ch (mb_channels mb), mb_total_bytes := mb_total_bytes mb - g_retained_bytes st,
    mb_total_records := mb_total_records mb - (g_retained_records st - 1), mb_expirations := ?x\<rparr>"
  have eq: "(case retire_memory_generation k st reason (ch, mb) of (ch', mb') \<Rightarrow> write_back ch' mb') = ?mb"
    using ch c by (simp add: retire_eq write_back_def retired_fields)
  have x: "index_ok ?x" using mb by (simp add: backend_inv_def index_set_ok)
  have "backend_inv ?mb"
  proof (rule put_channel_inv [OF mb retired_inv [OF ci st] refl refl refl])
    show "mb_total_bytes mb - g_retained_bytes st \<le> max_total_bytes (mb_limits mb)"
      "mb_total_records mb - (g_retained_records st - 1) \<le> max_total_records (mb_limits mb)"
      using retained_bounds [of st] channel_stream [OF ci st] mb by (auto simp: backend_inv_def)
    fix c' k' d assume "dget (x_deadlines ?x) (c', k') = Some d"
    then have "(c', k') \<noteq> (c, k)" "dget (x_deadlines (mb_expirations mb)) (c', k') = Some d"
      by (auto simp: index_set_deadlines split: if_splits)
    then show "if c' = c then \<exists>st. dget (c_streams ?ch) k' = Some st \<and> g_expires_at st = Some d
        else dget (x_deadlines (mb_expirations mb)) (c', k') = Some d"
      using index_link [OF mb ch] by (auto simp: retired_fields)
  qed (use ch retired_counts [OF ci st] x in simp_all)
  moreover have "backend_evolves mb ?mb"
    using retired_evolves [OF ci st] ch by (intro put_channel_evolves [of mb c ch]) auto
  moreover have "logs_refine mb ?mb"
    using ch retired_logs [OF ci st] by (intro put_channel_logs [of _ c ?ch]) (simp_all add: mb_channel_def)
  ultimately show ?thesis unfolding eq by (simp add: mb_keeps_def)
qed

lemma expire_keeps:
  assumes mb: "backend_inv mb" shows "mb_keeps mb (mb_expire now c k mb)"
proof (cases "dget (mb_channels mb) c")
  case None
  then show ?thesis
    using mb by (simp add: mb_expire_def mb_channel_def expire_if_due_def new_channel_state_def write_back_def mb_keeps_refl)
next
  case (Some ch)
  have "c_channel ch = c" using backend_channel [OF mb Some] by (simp add: channel_inv_def)
  then have same: "write_back ch mb = mb" using Some by (simp add: write_back_def dput_same)
  show ?thesis
    using Some mb same retire_keeps [OF mb Some, of k]
    by (auto simp: mb_expire_def mb_channel_def expire_if_due_def mb_keeps_refl split: option.split prod.split)
qed

end
