(* ===== verification/Messaging_Memory_Steps.thy ===== *)
theory Messaging_Memory_Steps
  imports Messaging_Memory_Correct
begin

text \<open>
  Every operation of the in-memory backend keeps its invariant and only moves it forward: a committed
  transition, lazy expiry, the reclaim loop and the purge of a sealed generation.
\<close>

section \<open>The start and the reclaim loop\<close>

lemma new_backend_inv:
  assumes "0 \<le> max_total_bytes limits" "0 \<le> max_total_records limits"
  shows "backend_inv (new_memory_backend limits policy)"
  using assms by (simp add: backend_inv_def new_memory_backend_def index_ok_def index_linked_def)

lemma popped_keeps:
  assumes mb: "backend_inv mb" and pop: "index_pop_due now (mb_expirations mb) = (r, x)"
  shows "mb_keeps mb (mb\<lparr>mb_expirations := x\<rparr>)"
    "r = Some (c, k) \<Longrightarrow> \<exists>ch st d. dget (mb_channels mb) c = Some ch \<and> dget (c_streams ch) k = Some st \<and> g_expires_at st = Some d \<and> d \<le> now"
proof -
  let ?ds = "x_deadlines (mb_expirations mb)"
  have ok: "index_ok \<lparr>x_deadlines = ?ds, x_heap = x_heap (mb_expirations mb)\<rparr>"
    using mb by (simp add: backend_inv_def index_ok_def)
  note p = pop_due_ok [OF ok pop [unfolded index_pop_due_def]]
  have "dget (x_deadlines x) k = Some d \<Longrightarrow> dget ?ds k = Some d" for k d
    using p by (auto simp: dict_simps split: option.splits if_splits)
  then have "backend_inv (mb\<lparr>mb_expirations := x\<rparr>)"
    using mb p by (fastforce simp: backend_inv_def index_linked_def)
  then show "mb_keeps mb (mb\<lparr>mb_expirations := x\<rparr>)"
    by (simp add: mb_keeps_def backend_evolves_def dict_grows_refl logs_refine_refl)
  show "\<exists>ch st d. dget (mb_channels mb) c = Some ch \<and> dget (c_streams ch) k = Some st \<and> g_expires_at st = Some d \<and> d \<le> now"
    if "r = Some (c, k)"
    using p mb that by (fastforce simp: backend_inv_def index_linked_def)
qed

lemma reclaim_loop_keeps:
  "backend_inv mb \<Longrightarrow> \<exists>mb'. reclaim_loop n now clock mb = (Inr (), mb') \<and> mb_keeps mb mb'"
proof (induction n arbitrary: mb)
  case 0
  then show ?case by (simp add: mb_keeps_refl)
next
  case (Suc n)
  obtain r x where pop: "index_pop_due now (mb_expirations mb) = (r, x)" by fastforce
  note k = popped_keeps [OF Suc.prems pop]
  show ?case
  proof (cases r)
    case None
    then show ?thesis using k(1) pop by simp
  next
    case (Some ck)
    obtain c key where ck: "ck = (c, key)" by fastforce
    obtain ch where ch: "dget (mb_channels mb) c = Some ch" using k(2) Some ck by blast
    let ?mb = "mb\<lparr>mb_expirations := x\<rparr>"
    have e: "mb_keeps ?mb (mb_expire (clock n) c key ?mb)" using k(1) by (intro expire_keeps) (simp add: mb_keeps_def)
    obtain mb' where "reclaim_loop n now clock (mb_expire (clock n) c key ?mb) = (Inr (), mb')"
      "mb_keeps (mb_expire (clock n) c key ?mb) mb'"
      using Suc.IH e unfolding mb_keeps_def by blast
    then show ?thesis using k(1) e pop Some ck ch by (auto intro: mb_keeps_trans)
  qed
qed

section \<open>Committing an effect\<close>

text \<open>What a fitting effect does to a generation.\<close>

lemma applied_evolves:
  assumes st: "stream_inv st" and ef: "effect_fits st ef"
  shows "stream_evolves st (applied now pol i ef st)"
proof -
  have ok: "log_ok st" using st by (simp add: stream_inv_def)
  have act: "g_disposition st = DpActive" if "effect_disposition st ef = DpActive"
    using that ef by (simp add: effect_fits_def)
  from ef have "dict_grows run_kept (g_runs st) (fold apply_run (ef_runs ef) (g_runs st))"
  proof (cases rule: effect_runs_cases)
    case (2 r)
    then show ?thesis
      by (auto simp: apply_run_eq run_fits_def run_kept_def run_of_def intro!: dict_grows_put)
  qed (simp add: dict_grows_refl)
  then show ?thesis
    using act applied_log(2) [OF ok ef] by (simp add: stream_evolves_def applied_fields)
qed

lemma applied_log_steps:
  assumes st: "stream_inv st" and ef: "effect_fits st ef"
  shows "log_step\<^sup>*\<^sup>* (g, stream_phase (Some st)) (g, stream_phase (Some (applied now pol i ef st)))"
proof -
  have ok: "log_ok st" using st by (simp add: stream_inv_def)
  have keep: "g_disposition st = DpActive" if "effect_disposition st ef = DpActive" using that ef by (simp add: effect_fits_def)
  have msgs: "log_step\<^sup>*\<^sup>* (g, Open (g_messages st)) (g, Open (g_messages (applied now pol i ef st)))"
  proof (cases "ef_message ef")
    case (Some ev)
    have "e_seq (me_envelope ev) = int (length (g_messages st)) + 1"
      "e_message_id (me_envelope ev) \<notin> e_message_id ` set (g_messages st)"
      using ef Some ok by (auto simp: effect_fits_def log_ok_def map_append_key)
    then show ?thesis using applied_log(2) [OF ok ef] Some LogAppend by (simp add: r_into_rtranclp)
  qed (simp add: applied_log(2) [OF ok ef])
  show ?thesis
  proof (cases "effect_disposition st ef = DpActive")
    case True
    then show ?thesis using keep msgs by (simp add: stream_phase_def applied_fields)
  next
    case False
    then show ?thesis using LogSeal by (auto simp: stream_phase_def applied_fields)
  qed
qed

text \<open>The generation an effect is applied to: the stored one, or a new one.\<close>

definition effect_target :: "channel_state \<Rightarrow> string \<Rightarrow> storage_effect \<Rightarrow> stream_state \<Rightarrow> bool" where
  "effect_target ch k ef st \<longleftrightarrow>
     dget (c_streams ch) k = Some st \<or>
     (dget (c_streams ch) k = None \<and> ef_stream ef \<noteq> None \<and> st = new_stream_state (next_gen ch k))"

text \<open>The channel a transition works on: a registered one, or a fresh object.\<close>

definition channel_view :: "string \<Rightarrow> memory_backend \<Rightarrow> channel_state \<Rightarrow> bool" where
  "channel_view c mb ch \<longleftrightarrow>
     dget (mb_channels mb) c = Some ch \<or> (dget (mb_channels mb) c = None \<and> ch = new_channel_state c)"

lemma mb_channel_view: "channel_view c mb (mb_channel c mb)"
  by (simp add: channel_view_def mb_channel_def split: option.split)

lemma with_codec [simp]:
  "tombs (ch\<lparr>c_codec := x\<rparr>) = tombs ch" "next_gen (ch\<lparr>c_codec := x\<rparr>) = next_gen ch"
  "known_threads (ch\<lparr>c_codec := x\<rparr>) = known_threads ch" "tombs_ok (ch\<lparr>c_codec := x\<rparr>) = tombs_ok ch"
  "channel_bytes (ch\<lparr>c_codec := x\<rparr>) = channel_bytes ch" "channel_records (ch\<lparr>c_codec := x\<rparr>) = channel_records ch"
  by (auto simp: tombs_def next_gen_def known_threads_def tombs_ok_def channel_bytes_def channel_records_def fun_eq_iff)

lemma fresh_channel_inv: "channel_inv c ((new_channel_state c)\<lparr>c_codec := Some codec\<rparr>)"
  by (simp add: channel_inv_def new_channel_state_def tombs_ok_def tombs_def)

lemma next_gen_pos:
  assumes "channel_inv c ch"
  shows "1 \<le> next_gen ch k"
proof (cases "dget (c_next_generations ch) k = None")
  case False
  then have "1 \<le> next_gen ch k - 1"
    using assms unfolding channel_inv_def tombs_ok_def by blast
  then show ?thesis by simp
qed (simp add: next_gen_def)

lemma channel_view_inv:
  assumes "backend_inv mb" "channel_view c mb ch"
  shows "c_channel ch = c" "c_codec ch = None \<longleftrightarrow> dget (mb_channels mb) c = None"
    "c_codec ch = Some codec \<or> c_codec ch = None \<Longrightarrow> channel_inv c (ch\<lparr>c_codec := Some codec\<rparr>)"
  using assms backend_channel [OF assms(1), of c ch] fresh_channel_inv [of c codec]
  by (auto simp: channel_view_def channel_inv_def, auto simp: new_channel_state_def)

text \<open>The result of a successful application, in normal form.\<close>

definition committed ::
  "time \<Rightarrow> run_identity \<Rightarrow> string \<Rightarrow> storage_effect \<Rightarrow> stream_state \<Rightarrow> string \<Rightarrow> channel_state \<Rightarrow> memory_backend \<Rightarrow> memory_backend" where
  "committed now i k ef st codec ch mb =
     (let st' = applied now (mb_retention_policy mb) i ef st
      in mb\<lparr>mb_channels := dput (c_channel ch) (with_stream k st' (ch\<lparr>c_codec := Some codec\<rparr>)) (mb_channels mb),
        mb_total_bytes := mb_total_bytes mb + effect_bytes st ef,
        mb_total_records := mb_total_records mb + effect_records st ef + (if c_codec ch = None then 1 else 0) +
          (if dget (c_streams ch) k = None then 1 + (if dget (c_next_generations ch) k = None then 1 else 0) else 0),
        mb_expirations := (if ef_retention_action ef = RaNone then mb_expirations mb
           else index_set (c_channel ch, k) (g_expires_at st') (mb_expirations mb))\<rparr>)"

lemma committed_keeps:
  assumes mb: "backend_inv mb" and ch: "channel_view c mb ch" and st: "effect_target ch k ef st" "effect_fits st ef"
      "ef_tombstone_reason ef = None" and codec: "c_codec ch = Some codec \<or> c_codec ch = None"
    and room: "mb_total_bytes (committed now i k ef st codec ch mb) \<le> max_total_bytes (mb_limits mb)"
      "mb_total_records (committed now i k ef st codec ch mb) \<le> max_total_records (mb_limits mb)"
  shows "mb_keeps mb (committed now i k ef st codec ch mb)"
proof -
  note view = channel_view_inv [OF mb ch]
  let ?ch = "ch\<lparr>c_codec := Some codec\<rparr>" and ?st = "applied now (mb_retention_policy mb) i ef st"
  have ci: "channel_inv c ?ch" using view(3) codec by blast
  have next_pos: "1 \<le> next_gen ch k"
    using next_gen_pos [OF ci, of k] by simp
  have inv: "stream_inv st" and gen: "g_generation st = next_gen ch k"
    using st(1) channel_stream [OF ci, of k st] new_stream_inv [OF next_pos]
    by (auto simp: effect_target_def new_stream_state_def)
  have inv': "channel_inv c (with_stream k ?st ?ch)"
    using applied_inv [OF inv st(2,3)] gen by (intro with_stream_inv [OF ci]) (simp_all add: applied_fields)
  have old: "(case dget (mb_channels mb) c of None \<Rightarrow> 0 | Some ch \<Rightarrow> channel_bytes ch) = channel_bytes ch"
    "(case dget (mb_channels mb) c of None \<Rightarrow> 0 | Some ch \<Rightarrow> channel_records ch) = channel_records ch - (if c_codec ch = None then 1 else 0)"
    using ch view(2)
    by (auto simp: channel_view_def new_channel_state_def channel_bytes_def channel_records_def known_threads_def)
  have x: "index_ok (mb_expirations (committed now i k ef st codec ch mb))"
    using mb by (simp add: committed_def Let_def index_set_ok backend_inv_def)
  have link: "\<exists>st. dget (c_streams ch) k' = Some st \<and> g_expires_at st = Some d"
    if "dget (x_deadlines (mb_expirations mb)) (c, k') = Some d" for k' d
    using that mb ch by (fastforce simp: backend_inv_def index_linked_def channel_view_def)
  have ev: "channel_evolves ch (with_stream k ?st ?ch)" if "dget (mb_channels mb) c = Some ch"
  proof -
    have "?ch = ch" using that view(2) codec by auto
    then show ?thesis
      using st(1) applied_evolves [OF inv st(2)] by (auto intro!: with_stream_evolves simp: effect_target_def)
  qed
  have "backend_inv (committed now i k ef st codec ch mb)"
  proof (rule put_channel_inv [OF mb inv' old [symmetric] _ _ _ room x])
    show "mb_total_bytes (committed now i k ef st codec ch mb) =
        mb_total_bytes mb + channel_bytes (with_stream k ?st ?ch) - channel_bytes ch"
      using st(1) unfolding with_stream_counts
      by (auto simp: committed_def Let_def applied_fields effect_target_def new_stream_state_def split: option.split)
    show "mb_total_records (committed now i k ef st codec ch mb) = mb_total_records mb + channel_records (with_stream k ?st ?ch) -
        (channel_records ch - (if c_codec ch = None then 1 else 0))"
      using st(1) unfolding with_stream_counts
      by (auto simp: committed_def Let_def applied_fields effect_target_def new_stream_state_def known_threads_def split: option.split)
    fix c' k' d assume "dget (x_deadlines (mb_expirations (committed now i k ef st codec ch mb))) (c', k') = Some d"
    then show "if c' = c then \<exists>st. dget (c_streams (with_stream k ?st ?ch)) k' = Some st \<and> g_expires_at st = Some d
        else dget (x_deadlines (mb_expirations mb)) (c', k') = Some d"
      using link [of k' d] st(1) view(1)
      by (auto simp: committed_def Let_def index_set_deadlines applied_fields dict_simps effect_target_def retention_deadline_def
          split: if_splits)
  qed (simp add: committed_def Let_def view(1))
  moreover have "backend_evolves mb (committed now i k ef st codec ch mb)"
    using ev view(1) ch by (intro put_channel_evolves [where ch = ch]) (auto simp: committed_def Let_def channel_view_def)
  moreover have "logs_refine mb (committed now i k ef st codec ch mb)"
  proof (rule put_channel_logs [of _ c "with_stream k ?st ?ch"])
    have eq: "mb_channel c mb = ch" using ch by (auto simp: channel_view_def mb_channel_def)
    have "log_step\<^sup>*\<^sup>* (channel_log ch k) (next_gen ch k, stream_phase (Some st))"
      using st(1) LogOpen by (auto simp: effect_target_def channel_log_def stream_phase_def new_stream_state_def)
    also have "log_step\<^sup>*\<^sup>* (next_gen ch k, stream_phase (Some st)) (next_gen ch k, stream_phase (Some ?st))"
      by (rule applied_log_steps [OF inv st(2)])
    finally show "log_step\<^sup>*\<^sup>* (channel_log (mb_channel c mb) k') (channel_log (with_stream k ?st ?ch) k')" for k'
      unfolding eq by (auto simp: channel_log_def dict_simps next_gen_def)
  qed (simp add: committed_def Let_def view(1))
  ultimately show ?thesis by (simp add: mb_keeps_def)
qed

lemma target_capacity:
  assumes "effect_target ch k ef st" "c_codec ch = None \<Longrightarrow> ef_channel ef \<noteq> None"
  shows "effect_capacity ch k ef =
    (effect_bytes st ef,
     effect_records st ef + (if c_codec ch = None then 1 else 0) +
       (if dget (c_streams ch) k = None then 1 + (if dget (c_next_generations ch) k = None then 1 else 0) else 0),
     effect_records st ef)"
proof -
  have "run_capacity (dget (c_streams ch) k) = run_capacity (Some st)"
    "message_capacity (dget (c_streams ch) k) = message_capacity (Some st)"
    using assms(1)
    by (auto simp: effect_target_def run_capacity_def message_capacity_def new_stream_state_def fun_eq_iff split: option.split)
  then show ?thesis
    using assms
    by (auto simp: effect_capacity_def effect_bytes_def effect_records_def Let_def effect_target_def comp_def)
qed

definition effect_codec :: "channel_state \<Rightarrow> storage_effect \<Rightarrow> string option" where
  "effect_codec ch ef = (case c_codec ch of None \<Rightarrow> map_option sc_codec_id (ef_channel ef) | Some codec \<Rightarrow> Some codec)"

lemma apply_cases:
  assumes st: "effect_target ch k ef st" "target_state ch k ef = Some st" "ef_tombstone_reason ef = None"
    and fresh: "c_codec ch = None \<Longrightarrow> ef_channel ef \<noteq> None"
    and registered: "dget (mb_channels mb) (c_channel ch) = None \<longleftrightarrow> c_codec ch = None"
    and run: "apply_memory_effect now i k ef (ch, mb) = (r, ch', mb')"
    and codec: "effect_codec ch ef = Some codec"
  shows "(\<exists>e. r = Inl e \<and> ch' = ch \<and> mb' = mb) \<or>
    (r = Inr () \<and> write_back ch' mb' = committed now i k ef st codec ch mb \<and>
     mb_total_bytes (committed now i k ef st codec ch mb) \<le> max_total_bytes (mb_limits mb) \<and>
     mb_total_records (committed now i k ef st codec ch mb) \<le> max_total_records (mb_limits mb))"
proof -
  let ?n = "effect_records st ef + (if c_codec ch = None then 1 else 0) +
       (if dget (c_streams ch) k = None then 1 + (if dget (c_next_generations ch) k = None then 1 else 0) else 0)"
  have cap: "effect_capacity ch k ef = (effect_bytes st ef, ?n, effect_records st ef)"
    by (rule target_capacity [OF st(1)]) (rule fresh)
  have totals: "mb_total_bytes (committed now i k ef st codec ch mb) = mb_total_bytes mb + effect_bytes st ef"
    "mb_total_records (committed now i k ef st codec ch mb) = mb_total_records mb + ?n"
    by (simp_all add: committed_def Let_def)
  have eq: "(\<exists>e. r = Inl e \<and> ch' = ch \<and> mb' = mb) \<or> (r = Inr () \<and>
      mb_total_bytes mb + effect_bytes st ef \<le> max_total_bytes (mb_limits mb) \<and> mb_total_records mb + ?n \<le> max_total_records (mb_limits mb) \<and>
      ch' = with_stream k (applied now (mb_retention_policy mb) i ef st) (ch\<lparr>c_codec := Some codec\<rparr>) \<and>
      (let mb1 = mb\<lparr>mb_channels := (if c_codec ch = None then dput (c_channel ch) (ch\<lparr>c_codec := Some codec\<rparr>) (mb_channels mb) else mb_channels mb),
                   mb_total_bytes := mb_total_bytes mb + effect_bytes st ef,
                   mb_total_records := mb_total_records mb + ?n\<rparr>
      in mb' = (if ef_retention_action ef = RaNone then mb1
                       else mb1\<lparr>mb_expirations := index_set (c_channel ch, k) (g_expires_at (applied now (mb_retention_policy mb) i ef st)) (mb_expirations mb1)\<rparr>)))"
    using run st(2,3) codec fresh unfolding apply_memory_effect_def prod.case cap check_def require_def effect_codec_def
    by (cases "mb_total_bytes mb + effect_bytes st ef \<le> max_total_bytes (mb_limits mb)";
        cases "mb_total_records mb + ?n \<le> max_total_records (mb_limits mb)"; cases "c_codec ch"; cases "ef_channel ef")
       (simp_all only: if_True if_False sum.case option.case Let_def, auto split: if_splits)
  then show ?thesis
  proof (elim disjE conjE)
    let ?ch = "with_stream k (applied now (mb_retention_policy mb) i ef st) (ch\<lparr>c_codec := Some codec\<rparr>)"
    assume r: "r = Inr ()" and room: "mb_total_bytes mb + effect_bytes st ef \<le> max_total_bytes (mb_limits mb)"
      "mb_total_records mb + ?n \<le> max_total_records (mb_limits mb)" and ch': "ch' = ?ch"
      and mb': "let mb1 = mb\<lparr>mb_channels := (if c_codec ch = None then dput (c_channel ch) (ch\<lparr>c_codec := Some codec\<rparr>) (mb_channels mb) else mb_channels mb),
                   mb_total_bytes := mb_total_bytes mb + effect_bytes st ef,
                   mb_total_records := mb_total_records mb + ?n\<rparr>
      in mb' = (if ef_retention_action ef = RaNone then mb1
                       else mb1\<lparr>mb_expirations := index_set (c_channel ch, k) (g_expires_at (applied now (mb_retention_policy mb) i ef st)) (mb_expirations mb1)\<rparr>)"
    have "dget (mb_channels mb') (c_channel ch) \<noteq> None" "dput (c_channel ch) ?ch (mb_channels mb') = dput (c_channel ch) ?ch (mb_channels mb)"
      using mb' registered by (auto simp: Let_def dict_simps split: if_splits)
    then have "write_back ch' mb' = mb'\<lparr>mb_channels := dput (c_channel ch) ?ch (mb_channels mb)\<rparr>"
      by (auto simp: write_back_def ch')
    also have "\<dots> = committed now i k ef st codec ch mb"
      using mb' by (simp add: committed_def Let_def)
    finally have "write_back ch' mb' = committed now i k ef st codec ch mb" .
    then show ?thesis using r room unfolding totals by blast
  qed blast
qed

text \<open>Retiring after an effect that changed only the disposition is retiring.\<close>

lemma retire_effect:
  assumes st: "dget (c_streams ch) k = Some st" and ef: "retires st ef" and codec: "c_codec ch \<noteq> None"
    and room: "mb_total_bytes mb \<le> max_total_bytes (mb_limits mb)" "mb_total_records mb \<le> max_total_records (mb_limits mb)"
  shows "\<exists>reason. apply_memory_effect now i k ef (ch, mb) = (Inr (), retire_memory_generation k st reason (ch, mb))"
proof -
  obtain s reason where s: "ef_stream ef = Some s" "st_generation s = g_generation st" "ef_tombstone_reason ef = Some reason"
    "ef_runs ef = []" "ef_message ef = None" "ef_retention_action ef = RaNone" "ef_channel ef = None"
    using ef by (auto simp: retires_def)
  have cap: "effect_capacity ch k ef = (0, 0, 0)"
    using s st codec by (simp add: effect_capacity_def Let_def message_capacity_def)
  let ?st = "applied_state now (mb_retention_policy mb) i ef 0 0 st"
  have same: "g_generation ?st = g_generation st" "g_retained_bytes ?st = g_retained_bytes st"
    "g_retained_records ?st = g_retained_records st"
    by (simp_all add: applied_fields)
  have "apply_memory_effect now i k ef (ch, mb) = (Inr (), retire_memory_generation k ?st reason (with_stream k ?st ch, mb))"
    using s st room by (simp add: apply_memory_effect_def cap target_state_def Let_def)
  also have "retire_memory_generation k ?st reason (with_stream k ?st ch, mb) = retire_memory_generation k st reason (ch, mb)"
    unfolding retire_memory_generation_def prod.case same by (simp add: record_tombstone_def delete_update_same)
  finally show ?thesis by blast
qed

text \<open>An idle effect on an absent generation changes nothing.\<close>

lemma idle_absent:
  assumes "dget (c_streams ch) k = None" "idle_effect ef" "ef_channel ef = None"
    and "mb_total_bytes mb \<le> max_total_bytes (mb_limits mb)" "mb_total_records mb \<le> max_total_records (mb_limits mb)"
  shows "apply_memory_effect now i k ef (ch, mb) = (Inr (), ch, mb)"
proof -
  have "effect_capacity ch k ef = (0, 0, 0)" using assms by (simp add: effect_capacity_def Let_def message_capacity_def idle_effect_def)
  then show ?thesis
    using assms by (simp add: apply_memory_effect_def target_state_def idle_effect_def)
qed

text \<open>The generation that preparation creates is the next one.\<close>

lemma max_default_in: "xs \<noteq> [] \<Longrightarrow> max_default d xs \<in> set xs"
proof (cases xs)
  case (Cons y ys)
  have "fold max ys y \<in> insert y (set ys)" for y :: int
    by (induction ys arbitrary: y) (auto simp: max_def)
  then show ?thesis using Cons by (simp add: max_default_def)
qed simp

lemma latest_tombstone:
  assumes "tombs_ok ch"
  shows "map_option fst (tombstone_reason ch k None) =
    (if dget (c_next_generations ch) k = None then None else Some (next_gen ch k - 1))"
proof (cases "dget (c_next_generations ch) k = None")
  case True
  then show ?thesis using assms by (auto simp: tombs_ok_def tombs_def tombstone_reason_def Let_def)
next
  case False
  let ?m = "max_default 0 (dkeys (tombs ch k))"
  have ne: "tombs ch k \<noteq> []" and last: "dget (tombs ch k) (next_gen ch k - 1) \<noteq> None"
    using assms False unfolding tombs_ok_def by auto
  have "?m \<in> set (dkeys (tombs ch k))" using ne by (intro max_default_in) simp
  then have m: "dget (tombs ch k) ?m \<noteq> None" by (simp only: dget_None_iff not_not)
  then have "?m < next_gen ch k" using assms unfolding tombs_ok_def by blast
  moreover have "next_gen ch k - 1 \<le> ?m" using last by (intro max_default_ge) (simp only: dget_None_iff not_not)
  ultimately have "?m = next_gen ch k - 1" by simp
  then show ?thesis using ne m False by (auto simp: tombstone_reason_def Let_def simp flip: tombs_def)
qed

section \<open>Transitions\<close>

text \<open>
  The transitions the ledger builds: preparation carries no run reference (\<open>_messaging_ledger.py\<close>).
\<close>

definition framework_transition :: "messaging_transition \<Rightarrow> bool" where
  "framework_transition t \<longleftrightarrow> (tr_kind t = PrepareRun \<longrightarrow> tr_run_reference t = None)"

lemma snapshot_absent:
  assumes "memory_state_snapshot sha obs mb ch c i k g m inc = Inr s" "selected_state ch k g = None"
  shows "ss_stream s = None" "ss_target_run s = None" "ss_active_run s = None" "ss_channel s = stored_memory_channel mb c ch"
    "ss_tombstone_generation s = map_option fst (tombstone_reason ch k g)"
  using assms by (auto simp: memory_state_snapshot_def empty_memory_snapshot_def Let_def)

lemma view_write_back:
  assumes "backend_inv mb" "channel_view c mb ch"
  shows "write_back ch mb = mb"
  using assms(2) channel_view_inv(1) [OF assms] by (auto simp: channel_view_def write_back_def dput_same)

lemma fits_keeps:
  assumes mb: "backend_inv mb" and view: "channel_view c mb ch"
    and st: "effect_target ch k ef st" "target_state ch k ef = Some st" "effect_fits st ef" "ef_tombstone_reason ef = None"
    and fresh: "c_codec ch = None \<Longrightarrow> ef_channel ef \<noteq> None"
    and run: "apply_memory_effect now i k ef (ch, mb) = (r, ch', mb')"
  shows "mb_keeps mb (write_back ch' mb') \<and> (r \<noteq> Inr () \<longrightarrow> write_back ch' mb' = mb)"
proof -
  note v = channel_view_inv [OF mb view]
  obtain codec where codec: "effect_codec ch ef = Some codec" using fresh by (cases "c_codec ch") (auto simp: effect_codec_def)
  then have c: "c_codec ch = Some codec \<or> c_codec ch = None" by (auto simp: effect_codec_def split: option.splits)
  have reg: "dget (mb_channels mb) (c_channel ch) = None \<longleftrightarrow> c_codec ch = None" using v(1,2) by simp
  show ?thesis
    using apply_cases [OF st(1,2,4) fresh reg run codec] committed_keeps [OF mb view st(1,3,4) c] view_write_back [OF mb view]
      mb_keeps_refl [OF mb] by auto
qed

lemma created_keeps:
  assumes mb: "backend_inv mb" and view: "channel_view c mb ch" and none: "dget (c_streams ch) k = None"
    and s: "ss_stream s = None" "ss_tombstone_generation s = map_option fst (tombstone_reason ch k None)"
      "ss_channel s = stored_memory_channel mb c ch"
    and new: "new_generation t s = Inr stream" "prepare_channel t codec (ss_channel s) = Inr che"
    and run: "apply_memory_effect now i k (created_effect t stream cursor che None) (ch, mb) = (r, ch', mb')"
  shows "mb_keeps mb (write_back ch' mb') \<and> (r \<noteq> Inr () \<longrightarrow> write_back ch' mb' = mb)"
proof (rule fits_keeps [OF mb view _ _ _ _ _ run])
  let ?ef = "created_effect t stream cursor che None" and ?st = "new_stream_state (next_gen ch k)"
  have "tombs_ok ch"
  proof (cases "c_codec ch")
    case None
    then show ?thesis using channel_view_inv(3) [OF mb view] by (auto simp: channel_inv_def)
  next
    case (Some a)
    then show ?thesis using channel_view_inv(3) [OF mb view, of a] by (auto simp: channel_inv_def)
  qed
  then have stream: "st_generation stream = next_gen ch k" "st_disposition stream = DpActive" "st_payload_bytes stream = 0"
      "st_latest_sequence stream = 0" "st_next_producer_fence stream = 1"
    using new(1) s(1,2) latest_tombstone [of ch k]
    by (auto simp: new_generation_def Let_def next_gen_def split: if_splits option.splits)
  show "effect_target ch k ?ef ?st" "target_state ch k ?ef = Some ?st"
    using none stream(1) by (simp_all add: effect_target_def target_state_def created_effect_def)
  show "effect_fits ?st ?ef" using stream by (intro created_effect_fits) (simp_all add: new_stream_state_def)
  show "ef_tombstone_reason ?ef = None" by (simp add: created_effect_def)
  show "ef_channel ?ef \<noteq> None" if "c_codec ch = None"
    using that new(2) s(3) by (auto simp: created_effect_def prepare_channel_def stored_memory_channel_def)
qed

lemma present_keeps:
  assumes mb: "backend_inv mb" and view: "channel_view c mb ch" and st: "dget (c_streams ch) k = Some st"
    and ef: "effect_fits st ef" "ef_tombstone_reason ef = None"
    and run: "apply_memory_effect now i k ef (ch, mb) = (r, ch', mb')"
  shows "mb_keeps mb (write_back ch' mb') \<and> (r \<noteq> Inr () \<longrightarrow> write_back ch' mb' = mb)"
proof (rule fits_keeps [OF mb view _ _ ef _ run])
  show "effect_target ch k ef st" using st by (simp add: effect_target_def)
  have "\<And>s. ef_stream ef = Some s \<Longrightarrow> st_generation s = g_generation st" using ef(1) by (simp add: effect_fits_def)
  then show "target_state ch k ef = Some st" using st by (auto simp: target_state_def split: option.split)
  assume "c_codec ch = None"
  then have "ch = new_channel_state c" using view channel_view_inv(2) [OF mb view] by (simp add: channel_view_def)
  then show "ef_channel ef \<noteq> None" using st by (simp add: new_channel_state_def)
qed

text \<open>A transition keeps the invariant; one that raises changes nothing.\<close>

lemma resolved_keeps:
  assumes mb: "backend_inv mb" and t: "framework_transition t"
    and ch: "ch = mb_channel (tr_channel t) mb"
    and s: "memory_state_snapshot sha obs mb ch (tr_channel t) (tr_identity t) k (selected_generation t) (tr_message_id t) True = Inr s"
    and ef: "resolve_messaging_transition sha t s = Inr ef"
    and run: "apply_memory_effect now (tr_identity t) k ef (ch, mb) = (r, ch', mb')"
  shows "mb_keeps mb (write_back ch' mb') \<and> (r \<noteq> Inr () \<longrightarrow> write_back ch' mb' = mb)"
proof -
  have view: "channel_view (tr_channel t) mb ch" unfolding ch by (rule mb_channel_view)
  have room: "mb_total_bytes mb \<le> max_total_bytes (mb_limits mb)" "mb_total_records mb \<le> max_total_records (mb_limits mb)"
    using mb by (simp_all add: backend_inv_def)
  have inv: "stream_inv st" "dget (mb_channels mb) (tr_channel t) = Some ch" if "dget (c_streams ch) k = Some st" for st
    using that view backend_channel [OF mb] by (auto simp: channel_view_def new_channel_state_def dest: channel_stream)
  note present = present_keeps [OF mb view _ _ _ run]
  show ?thesis
  proof (cases "selected_state ch k (selected_generation t)")
    case None
    note a = snapshot_absent [OF s None]
    from okE_D [OF resolve_absent [OF a(1,2,3)] ef] show ?thesis
    proof (elim disjE conjE exE)
      assume idle: "idle_effect ef" "ef_channel ef = None"
      show ?thesis
      proof (cases "dget (c_streams ch) k")
        case None
        then show ?thesis using idle_absent [OF None idle room] run view_write_back [OF mb view] mb_keeps_refl [OF mb] by auto
      next
        case (Some st)
        then show ?thesis using present [OF Some idle_fits [OF inv(1) idle(1)]] idle(1) by (simp add: idle_effect_def)
      qed
    next
      fix codec che stream cursor
      assume k: "tr_kind t = PrepareRun" and p: "prepare_channel t codec (ss_channel s) = Inr che" "new_generation t s = Inr stream"
        and e: "ef = created_effect t stream cursor che None"
      have g: "selected_generation t = None" using k t by (simp add: framework_transition_def selected_generation_def)
      have "dget (c_streams ch) k = None" using None g by (simp add: selected_state_def split: option.splits)
      then show ?thesis using created_keeps [OF mb view _ a(1) _ a(4) p(2,1)] run a(5) unfolding g e by blast
    qed
  next
    case (Some st)
    then have st: "dget (c_streams ch) k = Some st" by (auto simp: selected_state_def split: option.splits if_splits)
    have log: "log_ok st" using inv(1) [OF st] by (simp add: stream_inv_def)
    from okE_D [OF resolve_fits [OF snapshot_describes(1) [OF s Some log] inv(1) [OF st]] ef] show ?thesis
    proof (elim disjE conjE)
      assume r: "retires st ef"
      have codec: "c_codec ch \<noteq> None" using backend_channel [OF mb inv(2) [OF st]] by (simp add: channel_inv_def)
      from retire_effect [OF st r codec room] obtain reason where
        "(r, ch', mb') = (Inr (), retire_memory_generation k st reason (ch, mb))" using run by metis
      then show ?thesis using retire_keeps [OF mb inv(2) [OF st] st, of reason] by (auto split: prod.splits)
    qed (use present [OF st] in blast)
  qed
qed

lemma transact_keeps:
  assumes mb: "backend_inv mb" and t: "framework_transition t"
    and run: "mb_transact sha thread_key now obs t mb = (r, mb')"
  shows "mb_keeps mb mb' \<and> (\<forall>e. r = Inl e \<longrightarrow> mb' = mb)"
proof -
  let ?ch = "mb_channel (tr_channel t) mb" and ?k = "thread_key (tr_identity t)"
  show ?thesis
  proof (cases "memory_state_snapshot sha obs mb ?ch (tr_channel t) (tr_identity t) ?k (selected_generation t) (tr_message_id t) True")
    case (Inl e)
    then show ?thesis using run mb_keeps_refl [OF mb] by (auto simp: mb_transact_def Let_def)
  next
    case s: (Inr s)
    show ?thesis
    proof (cases "resolve_messaging_transition sha t s")
      case (Inl e)
      then show ?thesis using s run mb_keeps_refl [OF mb] by (auto simp: mb_transact_def Let_def)
    next
      case ef: (Inr ef)
      obtain r' ch' mb'' where a: "apply_memory_effect now (tr_identity t) ?k ef (?ch, mb) = (r', ch', mb'')"
        using prod_cases3 by blast
      show ?thesis
        using resolved_keeps [OF mb t refl s ef a] run s ef a by (auto simp: mb_transact_def Let_def split: sum.splits)
    qed
  qed
qed

section \<open>Purging\<close>

text \<open>A sealed generation loses records, and the totals follow.\<close>

definition shrinks :: "purge_state \<Rightarrow> purge_state \<Rightarrow> bool" where
  "shrinks = (\<lambda>(st, mb) (st', mb').
     stream_inv st' \<and> g_generation st' = g_generation st \<and> g_disposition st' = g_disposition st \<and> g_expires_at st' = g_expires_at st \<and>
     g_retained_bytes st' \<le> g_retained_bytes st \<and> g_retained_records st' \<le> g_retained_records st \<and>
     mb' = mb\<lparr>mb_total_bytes := mb_total_bytes mb + g_retained_bytes st' - g_retained_bytes st,
              mb_total_records := mb_total_records mb + g_retained_records st' - g_retained_records st\<rparr>)"

lemma shrinks_trans: "shrinks a b \<Longrightarrow> shrinks b c \<Longrightarrow> shrinks a c"
  by (auto simp: shrinks_def)

lemma ddel_snoc: "k \<notin> set (dkeys d) \<Longrightarrow> ddel k (d @ [(k, v)]) = d"
  by (induction d) (auto simp: delete_simps)

lemma pop_message_shrinks:
  assumes st: "stream_inv st" "g_disposition st \<noteq> DpActive" "g_messages st \<noteq> []"
    and pop: "pop_message st = (b, st')"
  shows "shrinks (st, mb) (release_memory_records b 1 (st', mb))"
    "length (g_messages st') = length (g_messages st) - 1" "g_runs st' = g_runs st" "g_disposition st' = g_disposition st"
proof -
  from st(3) obtain es e where es: "g_messages st = es @ [e]" by (metis append_butlast_last_id)
  have log: "log_ok st" using st(1) by (simp add: stream_inv_def)
  then have "list_all2 entry_of (es @ [e]) (g_signatures st)" by (simp add: log_ok_def es)
  then obtain ss s where ss: "g_signatures st = ss @ [s]" "list_all2 entry_of es ss" "entry_of e s"
    by (auto simp: list_all2_append1 list_all2_Cons1)
  obtain cp where s: "s = (e_message_id e, i_run_id (e_identity e), e_codec e, e_payload e, cp)"
    using ss(3) by (cases s) (auto simp: entry_of_def)
  have dist: "e_message_id e \<notin> e_message_id ` set es" "distinct (map e_message_id es)" using log by (auto simp: log_ok_def es)
  have keys: "dkeys ss = map e_message_id es" using ss(2) by (rule entries_keys)
  have sig: "dget (g_signatures st) (e_message_id e) = Some (i_run_id (e_identity e), e_codec e, e_payload e, cp)"
    using dist keys ss(1) s by (simp add: map_add_Some_iff dget_None_iff)
  have b: "b = entry_bytes (snd s)"
    and st': "st' = st\<lparr>g_messages := es, g_by_message_id := map (\<lambda>e. (e_message_id e, e)) es, g_signatures := ss\<rparr>"
    using pop log sig dist keys
    by (auto simp: pop_message_def Let_def es log_ok_def entry_bytes_def s ss(1) ddel_snoc image_image)
  show "length (g_messages st') = length (g_messages st) - 1" "g_runs st' = g_runs st" "g_disposition st' = g_disposition st"
    by (simp_all add: st' es)
  let ?st = "st'\<lparr>g_retained_bytes := g_retained_bytes st - b, g_retained_records := g_retained_records st - 1\<rparr>"
  have "stream_inv ?st"
    using st(1,2) ss dist log
    by (auto simp: stream_inv_def log_ok_def runs_ok_def active_ok_def run_live_def phase_ok_def count_ok_def st' es b dsum_def nth_append
        split: if_splits)
  then show "shrinks (st, mb) (release_memory_records b 1 (st', mb))"
    using entry_bytes_nonneg(1) [of "snd s"] by (simp add: shrinks_def release_memory_records_def st' b)
qed

lemma pop_run_shrinks:
  assumes st: "stream_inv st" "g_disposition st \<noteq> DpActive" "g_runs st = (rid, run) # runs"
  shows "shrinks (st, mb) (release_memory_records (checkpoint_bytes (m_checkpoint run)) 1 (st\<lparr>g_runs := runs\<rparr>, mb))"
proof -
  let ?st = "st\<lparr>g_runs := runs, g_retained_bytes := g_retained_bytes st - checkpoint_bytes (m_checkpoint run),
    g_retained_records := g_retained_records st - 1\<rparr>"
  have sub: "dget (g_runs st) k = Some r" if "dget runs k = Some r" for k r
    using that st by (auto simp: stream_inv_def runs_ok_def dest: dget_in_dkeys)
  have "g_active_identity st = None" using st by (auto simp: stream_inv_def phase_ok_def)
  then have "\<not> run_live ?st k" for k
    using st(1) sub unfolding stream_inv_def active_ok_def run_live_def by fastforce
  then have "active_ok ?st" using \<open>g_active_identity st = None\<close> by (simp add: active_ok_def)
  moreover have "runs_ok ?st"
  proof -
    have "runs_ok st" "dwf runs" using st(1,3) by (simp_all add: stream_inv_def runs_ok_def)
    then show ?thesis using sub st(2) unfolding runs_ok_def by simp blast
  qed
  moreover have "log_ok ?st" using st(1) by (simp add: stream_inv_def log_ok_def)
  moreover have "phase_ok ?st" "count_ok ?st" using st by (auto simp: stream_inv_def phase_ok_def count_ok_def)
  ultimately have "stream_inv ?st" by (simp add: stream_inv_def)
  then show ?thesis
    using entry_bytes_nonneg(2) by (simp add: shrinks_def release_memory_records_def)
qed

lemma shrinks_refl: "stream_inv st \<Longrightarrow> shrinks (st, mb) (st, mb)"
  by (simp add: shrinks_def)

lemma purge_messages_shrinks:
  assumes "stream_inv st" "g_disposition st \<noteq> DpActive" "purge_messages n (st, mb) = (left, st', mb')"
  shows "shrinks (st, mb) (st', mb')" "left = n - length (g_messages st)" "length (g_messages st') = length (g_messages st) - n"
    "g_runs st' = g_runs st"
proof -
  have "shrinks (st, mb) (st', mb') \<and> left = n - length (g_messages st) \<and> length (g_messages st') = length (g_messages st) - n \<and>
    g_runs st' = g_runs st"
    using assms
  proof (induction n arbitrary: st mb)
    case (Suc n)
    show ?case
    proof (cases "g_messages st = []")
      case True
      then show ?thesis using Suc.prems by (simp add: shrinks_refl)
    next
      case False
      obtain b st1 where pop: "pop_message st = (b, st1)" by fastforce
      obtain st2 mb2 where rel: "release_memory_records b 1 (st1, mb) = (st2, mb2)" by fastforce
      note p = pop_message_shrinks [OF Suc.prems(1,2) False pop]
      have st2: "g_messages st2 = g_messages st1" "g_runs st2 = g_runs st1" "g_disposition st2 = g_disposition st1"
        using rel by (auto simp: release_memory_records_def)
      have inv: "stream_inv st2" using p(1) [of mb] rel by (simp add: shrinks_def)
      have "purge_messages n (st2, mb2) = (left, st', mb')" using Suc.prems(3) False pop rel by simp
      note ih = Suc.IH [OF inv _ this]
      have "n - (length (g_messages st) - 1) = Suc n - length (g_messages st)" using False by (cases "g_messages st") auto
      then show ?thesis
        using ih p Suc.prems(2) st2 shrinks_trans [OF p(1) [of mb], of "(st', mb')"] rel by auto
    qed
  qed (simp add: shrinks_refl)
  then show "shrinks (st, mb) (st', mb')" "left = n - length (g_messages st)"
    "length (g_messages st') = length (g_messages st) - n" "g_runs st' = g_runs st" by auto
qed

lemma purge_runs_shrinks:
  assumes "stream_inv st" "g_disposition st \<noteq> DpActive" "purge_runs n (st, mb) = (left, st', mb')"
  shows "shrinks (st, mb) (st', mb')" "left = n - length (g_runs st)" "length (g_runs st') = length (g_runs st) - n"
    "g_messages st' = g_messages st"
proof -
  have "shrinks (st, mb) (st', mb') \<and> left = n - length (g_runs st) \<and> length (g_runs st') = length (g_runs st) - n \<and>
    g_messages st' = g_messages st"
    using assms
  proof (induction n arbitrary: st mb)
    case (Suc n)
    show ?case
    proof (cases "g_runs st")
      case Nil
      then show ?thesis using Suc.prems by (simp add: shrinks_refl)
    next
      case (Cons kr runs)
      obtain rid run where kr: "kr = (rid, run)" by fastforce
      let ?b = "checkpoint_bytes (m_checkpoint run)"
      obtain st2 mb2 where rel: "release_memory_records ?b 1 (st\<lparr>g_runs := runs\<rparr>, mb) = (st2, mb2)" by fastforce
      have s: "shrinks (st, mb) (st2, mb2)"
        using pop_run_shrinks [OF Suc.prems(1,2), of rid run runs mb] Cons kr rel by simp
      have st2: "g_messages st2 = g_messages st" "g_runs st2 = runs" "g_disposition st2 = g_disposition st"
        using rel by (auto simp: release_memory_records_def)
      have inv: "stream_inv st2" using s by (simp add: shrinks_def)
      have "purge_runs n (st2, mb2) = (left, st', mb')" using Suc.prems(3) Cons kr rel by simp
      note ih = Suc.IH [OF inv _ this]
      then show ?thesis using Suc.prems(2) st2 shrinks_trans [OF s, of "(st', mb')"] Cons by auto
    qed
  qed (simp add: shrinks_refl)
  then show "shrinks (st, mb) (st', mb')" "left = n - length (g_runs st)" "length (g_runs st') = length (g_runs st) - n"
    "g_messages st' = g_messages st" by auto
qed

text \<open>A purge step keeps the invariant; it removes up to the bound and reports whether anything is left.\<close>

lemma purge_keeps:
  assumes mb: "backend_inv mb" and run: "mb_purge_stream_generation thread_key c i g n mb = (r, mb')"
  shows "mb_keeps mb mb'"
proof -
  let ?k = "thread_key i"
  let ?sealed = "\<lambda>ch st. 1 \<le> n \<and> dget (mb_channels mb) c = Some ch \<and> dget (c_streams ch) ?k = Some st \<and> g_generation st = g \<and>
    g_disposition st \<in> {DpDeleting, DpExpiring}"
  show ?thesis
  proof (cases "\<exists>ch st. ?sealed ch st")
    case False
    then have "mb' = mb"
      using run unfolding mb_purge_stream_generation_def by (cases "1 \<le> n") (auto split: if_splits option.splits)
    then show ?thesis using mb by (simp add: mb_keeps_refl)
  next
    case True
    then obtain ch st where sealed: "?sealed ch st" by blast
    obtain left1 st1 mb1 where p1: "purge_messages (nat n) (st, mb) = (left1, st1, mb1)" using prod_cases3 by blast
    obtain left2 st2 mb2 where p2: "purge_runs left1 (st1, mb1) = (left2, st2, mb2)" using prod_cases3 by blast
    have 2: "dget (mb_channels mb) c = Some ch" "dget (c_streams ch) ?k = Some st" "g_disposition st \<noteq> DpActive"
      "purge_messages (nat n) (st, mb) = (left1, st1, mb1)" "purge_runs left1 (st1, mb1) = (left2, st2, mb2)"
      "mb' = write_back (with_stream ?k st2 ch) mb2"
      using sealed p1 p2 run by (auto simp: mb_purge_stream_generation_def)
    note ci = backend_channel [OF mb 2(1)]
    have st: "stream_inv st" "g_generation st = next_gen ch ?k" using channel_stream [OF ci 2(2)] by auto
    note m = purge_messages_shrinks [OF st(1) 2(3,4)]
    have "stream_inv st1" "g_disposition st1 \<noteq> DpActive" using m(1) 2(3) by (simp_all add: shrinks_def)
    note r = purge_runs_shrinks [OF this 2(5)]
    have s: "shrinks (st, mb) (st2, mb2)" using m(1) r(1) by (rule shrinks_trans)
    have c: "c_channel ch = c" using ci by (simp add: channel_inv_def)
    let ?ch = "with_stream ?k st2 ch"
    have mb': "mb' = mb\<lparr>mb_channels := dput c ?ch (mb_channels mb),
        mb_total_bytes := mb_total_bytes mb + g_retained_bytes st2 - g_retained_bytes st,
        mb_total_records := mb_total_records mb + g_retained_records st2 - g_retained_records st, mb_expirations := mb_expirations mb\<rparr>"
      using s 2(1,6) c by (simp add: shrinks_def write_back_def)
    have "backend_inv mb'"
    proof (rule put_channel_inv [OF mb with_stream_inv [OF ci] refl refl mb'])
      fix c' k d assume "dget (x_deadlines (mb_expirations mb)) (c', k) = Some d"
      then show "if c' = c then \<exists>st. dget (c_streams ?ch) k = Some st \<and> g_expires_at st = Some d
          else dget (x_deadlines (mb_expirations mb)) (c', k) = Some d"
        using index_link [OF mb 2(1)] 2(2) s by (fastforce simp: dict_simps shrinks_def)
    qed (use s st 2(1,2) mb in \<open>auto simp: shrinks_def with_stream_counts known_threads_def backend_inv_def\<close>)
    moreover have "stream_evolves st st2" using s 2(3) by (simp add: shrinks_def stream_evolves_def)
    then have "backend_evolves mb mb'"
      using 2(1,2) by (intro put_channel_evolves [of mb c ch _ mb']) (auto simp: mb' intro!: with_stream_evolves)
    moreover have "logs_refine mb mb'"
      using 2(1,2,3) s by (intro put_channel_logs [of _ c ?ch])
        (auto simp: mb' mb_channel_def channel_log_def stream_phase_def dict_simps shrinks_def)
    ultimately show ?thesis by (simp add: mb_keeps_def)
  qed
qed

section \<open>The backend as a transition system\<close>

text \<open>
  One step is a stretch of code that runs without yielding: a committed transition, lazy expiry of a
  thread, one reclaim sweep, one purge batch. Commit, load, read and wait are compositions of these.
\<close>

inductive mb_step :: "(bytes \<Rightarrow> string) \<Rightarrow> (run_identity \<Rightarrow> string) \<Rightarrow> memory_backend \<Rightarrow> memory_backend \<Rightarrow> bool"
  for sha thread_key where
  transact: "framework_transition t \<Longrightarrow> mb_transact sha thread_key now obs t mb = (r, mb') \<Longrightarrow> mb_step sha thread_key mb mb'"
| expire: "mb_step sha thread_key mb (mb_expire now c k mb)"
| reclaim: "mb_reclaim_expired now clock mb = (r, mb') \<Longrightarrow> mb_step sha thread_key mb mb'"
| purge: "mb_purge_stream_generation thread_key c i g n mb = (r, mb') \<Longrightarrow> mb_step sha thread_key mb mb'"

definition mb_init :: "memory_backend \<Rightarrow> bool" where
  "mb_init mb \<longleftrightarrow> (\<exists>limits policy. mb = new_memory_backend limits policy \<and> 0 \<le> max_total_bytes limits \<and> 0 \<le> max_total_records limits)"

lemma reclaim_keeps:
  assumes "backend_inv mb"
  obtains mb' where "mb_reclaim_expired now clock mb = (Inr (), mb')" "mb_keeps mb mb'"
  using reclaim_loop_keeps [OF assms] unfolding mb_reclaim_expired_def by blast

lemma step_keeps: "mb_step sha thread_key mb mb' \<Longrightarrow> backend_inv mb \<Longrightarrow> mb_keeps mb mb'"
proof (induction rule: mb_step.induct)
  case (transact t now obs mb r mb')
  then show ?case using transact_keeps by blast
next
  case (expire mb now c k)
  then show ?case by (rule expire_keeps)
next
  case (reclaim now clock mb r mb')
  then show ?case using reclaim_keeps [of mb now clock] by auto
next
  case (purge c i g n mb r mb')
  then show ?case using purge_keeps by blast
qed

text \<open>The current generation number of a thread, and the generation that is live.\<close>

definition mb_generation :: "memory_backend \<Rightarrow> string \<times> string \<Rightarrow> int" where
  "mb_generation mb = (\<lambda>(c, k). case dget (mb_channels mb) c of None \<Rightarrow> 1 | Some ch \<Rightarrow> next_gen ch k)"

definition mb_live :: "memory_backend \<Rightarrow> string \<times> string \<Rightarrow> int \<Rightarrow> bool" where
  "mb_live mb = (\<lambda>(c, k) g. \<exists>ch st. dget (mb_channels mb) c = Some ch \<and> dget (c_streams ch) k = Some st \<and> g_generation st = g)"

lemma evolves_generation:
  assumes "backend_inv mb'" "backend_evolves mb mb'" shows "mb_generation mb ck \<le> mb_generation mb' ck"
proof -
  obtain c k where ck: "ck = (c, k)" by fastforce
  show ?thesis
  proof (cases "dget (mb_channels mb) c")
    case None
    then show ?thesis
      using next_gen_pos [OF backend_channel [OF assms(1)]] by (auto simp: ck mb_generation_def split: option.split)
  next
    case (Some ch)
    then obtain ch' where "dget (mb_channels mb') c = Some ch'" "channel_evolves ch ch'"
      using assms(2) by (auto simp: backend_evolves_def dict_grows_def)
    then show ?thesis using Some by (simp add: ck mb_generation_def channel_evolves_def)
  qed
qed

lemma live_generation: "backend_inv mb \<Longrightarrow> mb_live mb ck g \<Longrightarrow> g = mb_generation mb ck"
  using channel_stream [OF backend_channel [of mb]] by (fastforce simp: mb_live_def mb_generation_def split: prod.splits)

interpretation memory: fenced_leases mb_init "mb_step sha thread_key" backend_inv mb_generation mb_live
proof
  show "backend_inv mb" if "mb_init mb" for mb using that by (auto simp: mb_init_def new_backend_inv)
  show "backend_inv mb'" "mb_generation mb ck \<le> mb_generation mb' ck" if "backend_inv mb" "mb_step sha thread_key mb mb'" for mb mb' ck
    using step_keeps [OF that(2,1)] by (auto simp: mb_keeps_def intro: evolves_generation)
qed (rule live_generation)

interpretation threads: keyed_simulation mb_init "mb_step sha thread_key" backend_inv mb_log log_step
  by unfold_locales (auto dest: step_keeps simp: mb_keeps_def logs_refine_def)

lemma run_keeps: "(mb_step sha thread_key)\<^sup>*\<^sup>* mb mb' \<Longrightarrow> backend_inv mb \<Longrightarrow> mb_keeps mb mb'"
proof (induction rule: rtranclp_induct)
  case base
  then show ?case by (rule mb_keeps_refl)
next
  case (step b c)
  then have "mb_keeps mb b" "backend_inv b" by (simp_all add: mb_keeps_def)
  then show ?case using step_keeps [OF step(2)] mb_keeps_trans by blast
qed

text \<open>A committed transition, with the sweep and the lazy expiry before it, is a run of steps.\<close>

lemma commit_run:
  assumes t: "framework_transition t"
    and run: "mb_commit_messaging_transition sha thread_key t0 clock t1 now obs t mb = (r, mb')"
  shows "(mb_step sha thread_key)\<^sup>*\<^sup>* mb mb'"
proof -
  obtain r1 mb1 where r1: "(if tr_kind t \<in> {PrepareRun, AppendMessage, PublishMessage} then mb_reclaim_expired t0 clock mb
      else (Inr (), mb)) = (r1, mb1)" by fastforce
  have one: "(mb_step sha thread_key)\<^sup>*\<^sup>* mb mb1" using mb_step.reclaim r1 by (auto split: if_splits)
  show ?thesis
  proof (cases r1)
    case (Inl e)
    then show ?thesis using one run r1 unfolding mb_commit_messaging_transition_def by simp
  next
    case (Inr u)
    let ?mb2 = "mb_expire t1 (tr_channel t) (thread_key (tr_identity t)) mb1"
    have "mb_transact sha thread_key now obs t ?mb2 = (r, mb')"
      using run r1 Inr unfolding mb_commit_messaging_transition_def by simp
    note one
    also have "mb_step sha thread_key mb1 ?mb2" by (rule mb_step.expire)
    also have "mb_step sha thread_key ?mb2 mb'" by (rule mb_step.transact) fact+
    finally show ?thesis .
  qed
qed

end
