(* ===== verification/Messaging_Signature.thy ===== *)
theory Messaging_Signature
  imports Messaging_Base
begin

text \<open>
  The bytes that identify a message commit determine its content: the UTF-8 encoding and the length
  framing are injective, and the trailing flag tells whether a checkpoint is framed.
\<close>

section \<open>Text and lengths\<close>

lemma byte_inject: "n < 256 \<Longrightarrow> m < 256 \<Longrightarrow> (of_nat n :: 8 word) = of_nat m \<longleftrightarrow> n = m"
  by (simp add: word_of_nat_eq_iff take_bit_eq_mod)

lemma char_bound: "(of_char c :: nat) < 256"
  using of_char_mod_256 [of c, where 'a = nat] by (metis mod_less_divisor zero_less_numeral)

lemma utf8_char_cancel:
  assumes "utf8_char c @ xs = utf8_char d @ ys"
  shows "c = d \<and> xs = ys"
proof -
  define n m where nm: "n = (of_char c :: nat)" "m = (of_char d :: nat)"
  have b: "n < 256" "m < 256" unfolding nm by (rule char_bound)+
  have q: "x div 64 < 64" if "x < 256" for x :: nat using that by (simp add: div_less_iff_less_mult)
  have lead: "192 + n div 64 < 256" "192 + m div 64 < 256" "128 + n mod 64 < 256" "128 + m mod 64 < 256"
    using q [OF b(1)] q [OF b(2)] by simp_all
  let ?u = "\<lambda>x :: nat. if x < 128 then [of_nat x] else [of_nat (192 + x div 64), of_nat (128 + x mod 64)] :: bytes"
  have u: "?u n @ xs = ?u m @ ys" using assms unfolding utf8_char_def Let_def nm .
  have "n = m \<and> xs = ys"
  proof (cases "n < 128"; cases "m < 128")
    assume "n < 128" "m < 128"
    then show ?thesis using u b by (simp add: byte_inject)
  next
    assume "n < 128" "\<not> m < 128"
    then show ?thesis using u byte_inject [OF b(1) lead(2)] by (simp del: of_nat_add)
  next
    assume "\<not> n < 128" "m < 128"
    then show ?thesis using u byte_inject [OF lead(1) b(2)] by (simp del: of_nat_add)
  next
    assume "\<not> n < 128" "\<not> m < 128"
    then have "192 + n div 64 = 192 + m div 64" "128 + n mod 64 = 128 + m mod 64" "xs = ys"
      using u byte_inject [OF lead(1,2)] byte_inject [OF lead(3,4)] by (simp_all del: of_nat_add)
    then show ?thesis by (metis add_left_cancel div_mult_mod_eq)
  qed
  then show ?thesis by (simp add: nm)
qed

lemma encode_Cons: "encode (c # s) = utf8_char c @ encode s"
  by (simp add: encode_def)

lemma utf8_char_not_Nil: "utf8_char c \<noteq> []"
  by (simp add: utf8_char_def Let_def)

lemma encode_inject: "encode s = encode s' \<longleftrightarrow> s = s'"
proof
  show "encode s = encode s' \<Longrightarrow> s = s'"
  proof (induction s arbitrary: s')
    case Nil
    then show ?case by (cases s') (simp_all add: encode_def utf8_char_not_Nil)
  next
    case (Cons c s)
    show ?case
    proof (cases s')
      case Nil
      then show ?thesis using Cons.prems by (simp add: encode_def utf8_char_not_Nil)
    next
      case s': (Cons d s2)
      then have "utf8_char c @ encode s = utf8_char d @ encode s2" using Cons.prems by (simp add: encode_Cons)
      then show ?thesis using utf8_char_cancel Cons.IH s' by blast
    qed
  qed
qed simp

lemma digits_inject:
  "n < 256 ^ k \<Longrightarrow> m < 256 ^ k \<Longrightarrow> (\<And>i. i < k \<Longrightarrow> n div 256 ^ i mod 256 = m div 256 ^ i mod (256 :: nat)) \<Longrightarrow> n = m"
proof (induction k arbitrary: n m)
  case (Suc k)
  have "n div 256 = m div 256"
  proof (rule Suc.IH)
    show "n div 256 < 256 ^ k" "m div 256 < 256 ^ k" using Suc.prems(1,2) by (simp_all add: less_mult_imp_div_less mult.commute)
    fix i assume "i < k"
    then show "n div 256 div 256 ^ i mod 256 = m div 256 div 256 ^ i mod 256"
      using Suc.prems(3) [of "Suc i"] by (simp add: div_mult2_eq)
  qed
  moreover have "n mod 256 = m mod 256" using Suc.prems(3) [of 0] by simp
  ultimately show ?case by (metis div_mult_mod_eq)
qed simp

lemma be64_inject: "n < 2 ^ 64 \<Longrightarrow> m < 2 ^ 64 \<Longrightarrow> be64 n = be64 m \<longleftrightarrow> n = m"
proof
  assume b: "n < 2 ^ 64" "m < 2 ^ 64" and eq: "be64 n = be64 m"
  show "n = m"
  proof (rule digits_inject [of n 8 m])
    fix i :: nat assume "i < 8"
    then have "i \<in> set [7, 6, 5, 4, 3, 2, 1, 0]" by auto
    moreover have "\<forall>i \<in> set [7, 6, 5, 4, 3, 2, 1, 0]. (of_nat (n div 256 ^ i) :: 8 word) = of_nat (m div 256 ^ i)"
      using eq unfolding be64_def map_eq_conv .
    ultimately have "(of_nat (n div 256 ^ i) :: 8 word) = of_nat (m div 256 ^ i)" by (rule bspec [rotated])
    then show "n div 256 ^ i mod 256 = m div 256 ^ i mod 256" by (simp add: word_of_nat_eq_iff take_bit_eq_mod)
  qed (use b in simp_all)
qed simp

lemma length_be64 [simp]: "length (be64 n) = 8"
  by (simp add: be64_def)

lemma framed_cancel:
  assumes "framed a @ xs = framed b @ ys" "length a < 2 ^ 64" "length b < 2 ^ 64"
  shows "a = b \<and> xs = ys"
proof -
  have "be64 (length a) = be64 (length b) \<and> a @ xs = b @ ys" using assms(1) by (simp add: framed_def)
  then have "length a = length b \<and> a @ xs = b @ ys" using be64_inject assms(2,3) by blast
  then show ?thesis by auto
qed

text \<open>Evaluation over \<open>int\<close>, where numerals are binary.\<close>

lemma utf8_char_code [code]:
  "utf8_char c = (let n = (of_char c :: int) in if n < 128 then [of_int n] else [of_int (192 + n div 64), of_int (128 + n mod 64)])"
proof -
  have c: "(of_char c :: int) = int (of_char c :: nat)" by (cases c) (simp add: of_char_def)
  have d: "int n div 64 = int (n div 64)" "int n mod 64 = int (n mod 64)" for n by (simp_all add: zdiv_int zmod_int)
  show ?thesis unfolding utf8_char_def Let_def c d by simp
qed

lemma be64_code [code]: "be64 n = map (\<lambda>i. of_int (int n div 256 ^ i)) [7, 6, 5, 4, 3, 2, 1, 0]"
proof -
  have "(of_int (int n div 256 ^ i) :: 8 word) = of_nat (n div 256 ^ i)" for i
    by (metis of_int_of_nat_eq of_nat_numeral of_nat_power zdiv_int)
  then show ?thesis by (simp add: be64_def)
qed

section \<open>The signed bytes\<close>

text \<open>C23: the bytes hashed into a commit signature identify the commit: two publications with the same signed bytes
  have the same run, codec and payload, and the same recovery checkpoint. Every framed value is shorter than
  \<open>2 ^ 64\<close> bytes (a Python length is), and a checkpoint's message identifier is absent or non-empty, as its
  constructor requires.\<close>

theorem signature_domain_injective:
  assumes "signature_domain r c p cp = signature_domain r' c' p' cp'"
    and "\<And>v. v \<in> set (signature_values r c p cp) \<union> set (signature_values r' c' p' cp') \<Longrightarrow> length v < 2 ^ 64"
    and "\<And>k. k \<in> set_option cp \<union> set_option cp' \<Longrightarrow> cp_last_message_id k \<noteq> Some []"
  shows "r = r' \<and> c = c' \<and> p = p' \<and> cp = cp'"
proof -
  let ?flag = "\<lambda>x :: recovery_checkpoint option. encode (if x = None then ''0'' else ''1'')"
  have flag: "?flag x = [if x = None then 48 else 49]" for x by (simp add: encode_def utf8_char_def)
  have body: "concat (map framed (signature_values r c p cp)) @ ?flag cp = concat (map framed (signature_values r' c' p' cp')) @ ?flag cp'"
    using assms(1) by (simp add: signature_domain_def)
  then have same: "(cp = None) = (cp' = None)" by (simp add: flag split: if_splits)
  have len: "length (encode r) < 2 ^ 64" "length (encode c) < 2 ^ 64" "length p < 2 ^ 64"
    "length (encode r') < 2 ^ 64" "length (encode c') < 2 ^ 64" "length p' < 2 ^ 64"
    using assms(2) by (auto simp: signature_values_def)
  note cancel = framed_cancel [OF _ len(1,4)] framed_cancel [OF _ len(2,5)] framed_cancel [OF _ len(3,6)]
  show ?thesis
  proof (cases cp)
    case None
    then have "framed (encode r) @ framed (encode c) @ framed p @ [] = framed (encode r') @ framed (encode c') @ framed p' @ []"
      using body same by (simp add: signature_values_def)
    from cancel(1) [OF this] have r: "r = r'" and "framed (encode c) @ framed p @ [] = framed (encode c') @ framed p' @ []"
      by (simp_all add: encode_inject)
    from cancel(2) [OF this(2)] cancel(3) have "c = c'" "p = p'" by (auto simp: encode_inject)
    then show ?thesis using r None same by simp
  next
    case (Some k)
    then obtain k' where k': "cp' = Some k'" using same by auto
    let ?m = "\<lambda>k. encode (case cp_last_message_id k of None \<Rightarrow> [] | Some v \<Rightarrow> v)"
    have all: "framed (encode r) @ framed (encode c) @ framed p @ framed (cp_position k) @ framed (?m k) @ [] =
        framed (encode r') @ framed (encode c') @ framed p' @ framed (cp_position k') @ framed (?m k') @ []"
      using body Some k' by (simp add: signature_values_def)
    from cancel(1) [OF all] have r: "encode r = encode r'" and "framed (encode c) @ framed p @ framed (cp_position k) @ framed (?m k) @ [] =
        framed (encode c') @ framed p' @ framed (cp_position k') @ framed (?m k') @ []" by blast+
    from cancel(2) [OF this(2)] have c: "encode c = encode c'" and "framed p @ framed (cp_position k) @ framed (?m k) @ [] =
        framed p' @ framed (cp_position k') @ framed (?m k') @ []" by blast+
    from cancel(3) [OF this(2)] have p: "p = p'" and rest: "framed (cp_position k) @ framed (?m k) @ [] =
        framed (cp_position k') @ framed (?m k') @ []" by blast+
    have l: "length (cp_position k) < 2 ^ 64" "length (cp_position k') < 2 ^ 64" "length (?m k) < 2 ^ 64" "length (?m k') < 2 ^ 64"
      using assms(2) by (simp_all add: signature_values_def Some k')
    from framed_cancel [OF rest l(1,2)] have "cp_position k = cp_position k'" and m: "framed (?m k) @ [] = framed (?m k') @ []" by blast+
    with framed_cancel [OF m l(3,4)] r c p
    have eq: "encode r = encode r'" "encode c = encode c'" "p = p'" "cp_position k = cp_position k'" "?m k = ?m k'" by blast+
    have "cp_last_message_id k = cp_last_message_id k'"
      using eq(5) assms(3) [of k] assms(3) [of k'] Some k' by (auto simp: encode_inject split: option.splits)
    then show ?thesis using eq Some k' by (simp add: encode_inject)
  qed
qed

text \<open>At concrete commits: exactly one commit has the signed bytes of the first one, and two commits whose
  plain concatenation coincides are told apart by their framing.\<close>

theorem signature_domain_injective_witness:
  "{(r, c, p, cp). signature_domain r c p cp =
        signature_domain ''run'' ''json'' [1, 2] (Some \<lparr>cp_position = [7], cp_last_message_id = Some ''m''\<rparr>) \<and>
      list_all (\<lambda>v. length v < 2 ^ 64) (signature_values r c p cp) \<and> map_option cp_last_message_id cp \<noteq> Some (Some [])} =
     {(''run'', ''json'', [1, 2], Some \<lparr>cp_position = [7], cp_last_message_id = Some ''m''\<rparr>)} \<and>
   signature_domain ''a'' ''bc'' [] None \<noteq> signature_domain ''ab'' ''c'' [] None"
proof (intro conjI set_eqI iffI)
  let ?k = "Some \<lparr>cp_position = [7], cp_last_message_id = Some ''m''\<rparr>"
  have small: "length v < 2 ^ 64" if "v \<in> set (signature_values ''run'' ''json'' [1, 2] ?k)" for v
    using that by (auto simp: signature_values_def encode_def utf8_char_def)
  fix x assume "x \<in> {(r, c, p, cp). signature_domain r c p cp = signature_domain ''run'' ''json'' [1, 2] ?k \<and>
      list_all (\<lambda>v. length v < 2 ^ 64) (signature_values r c p cp) \<and> map_option cp_last_message_id cp \<noteq> Some (Some [])}"
  then obtain r c p cp where x: "x = (r, c, p, cp)" "signature_domain r c p cp = signature_domain ''run'' ''json'' [1, 2] ?k"
    "\<And>v. v \<in> set (signature_values r c p cp) \<Longrightarrow> length v < 2 ^ 64" "map_option cp_last_message_id cp \<noteq> Some (Some [])"
    by (auto simp: list_all_iff)
  have "r = ''run'' \<and> c = ''json'' \<and> p = [1, 2] \<and> cp = ?k"
    by (rule signature_domain_injective [OF x(2)]) (use x(3,4) small in auto)
  then show "x \<in> {(''run'', ''json'', [1, 2], ?k)}" using x(1) by simp
next
  let ?k = "Some \<lparr>cp_position = [7], cp_last_message_id = Some ''m''\<rparr>"
  fix x assume "x \<in> {(''run'', ''json'', [1, 2 :: 8 word], ?k)}"
  then show "x \<in> {(r, c, p, cp). signature_domain r c p cp = signature_domain ''run'' ''json'' [1, 2] ?k \<and>
      list_all (\<lambda>v. length v < 2 ^ 64) (signature_values r c p cp) \<and> map_option cp_last_message_id cp \<noteq> Some (Some [])}"
    by (auto simp: signature_values_def encode_def utf8_char_def)
next
  show "signature_domain ''a'' ''bc'' [] None \<noteq> signature_domain ''ab'' ''c'' [] None"
  proof
    assume "signature_domain ''a'' ''bc'' [] None = signature_domain ''ab'' ''c'' [] None"
    then have "''a'' = ''ab'' \<and> ''bc'' = ''c'' \<and> ([] :: bytes) = [] \<and> (None :: recovery_checkpoint option) = None"
      by (rule signature_domain_injective) (auto simp: signature_values_def encode_def utf8_char_def)
    then show False by simp
  qed
qed

end
