(* ===== verification/Messaging_Memory_Props.thy ===== *)
theory Messaging_Memory_Props
  imports Messaging_Memory_Steps Messaging_Signature
begin

text \<open>
  What the in-memory Messaging backend promises the ledger: exact and bounded capacity, one producer per
  generation, an append-only log that refines the thread specification, exactly-once commits and
  generations that never come back.
\<close>

section \<open>What a committed publication leaves behind\<close>

lemma transact_Inr:
  assumes "mb_transact sha thread_key now obs t mb = (Inr r, mb')"
  obtains s ef ch mb1 where
    "memory_state_snapshot sha obs mb (mb_channel (tr_channel t) mb) (tr_channel t) (tr_identity t) (thread_key (tr_identity t))
       (selected_generation t) (tr_message_id t) True = Inr s"
    "resolve_messaging_transition sha t s = Inr ef" "r = ef_result ef"
    "apply_memory_effect now (tr_identity t) (thread_key (tr_identity t)) ef (mb_channel (tr_channel t) mb, mb) = (Inr (), ch, mb1)"
    "mb' = write_back ch mb1"
proof -
  let ?ch = "mb_channel (tr_channel t) mb" and ?k = "thread_key (tr_identity t)"
  from assms obtain s ef where s: "memory_state_snapshot sha obs mb ?ch (tr_channel t) (tr_identity t) ?k
      (selected_generation t) (tr_message_id t) True = Inr s" "resolve_messaging_transition sha t s = Inr ef"
    by (auto simp: mb_transact_def Let_def check_Inr_iff)
  obtain r' ch' mb1 where a: "apply_memory_effect now (tr_identity t) ?k ef (?ch, mb) = (r', ch', mb1)"
    using prod_cases3 by blast
  then have "r' = Inr ()" "r = ef_result ef" "mb' = write_back ch' mb1"
    using assms s by (auto simp: mb_transact_def Let_def split: sum.splits)
  then show thesis using that s a by blast
qed

definition publishes :: "messaging_transition \<Rightarrow> bool" where
  "publishes t \<longleftrightarrow> tr_kind t \<in> {AppendMessage, PublishMessage}"

definition published :: "messaging_transition \<Rightarrow> stream_state \<Rightarrow> storage_effect \<Rightarrow> bool" where
  "published t st ef \<longleftrightarrow> (\<exists>mid. tr_message_id t = Some mid \<and> g_disposition st = DpActive \<and>
     map_option rr_generation (tr_run_reference t) = Some (g_generation st) \<and>
     ((\<exists>e. dget (g_by_message_id st) mid = Some e \<and> re_envelope (ef_result ef) = Some e \<and> idle_effect ef) \<or>
      (dget (g_by_message_id st) mid = None \<and>
       effect_disposition st ef = DpActive \<and>
       (\<exists>ev. ef_message ef = Some ev \<and> e_message_id (me_envelope ev) = mid \<and> re_envelope (ef_result ef) = Some (me_envelope ev)))))"

lemma publication_effect:
  assumes s: "describes s t st" "stream_inv st"
  shows "okE (published t st) (resolve_append_message sha t s)"
proof -
  have target: "g_disposition st = DpActive \<and> st_disposition (fst (snd x)) = DpActive \<and> map_option rr_generation (tr_run_reference t) = Some (g_generation st)"
    if "publication_target t s = Inr x" for x
  proof -
    obtain run stream reference where x: "x = (run, stream, reference)" by (cases x) auto
    with s that obtain r where r: "stream = stored_memory_stream (tr_channel t) (tr_identity t) st" "g_disposition st = DpActive"
      by (metis publication_target_Inr)
    then show ?thesis
      using that x
      by (auto simp: publication_target_def bindE_Inr_iff owned_run_Inr required_reference_def split: if_splits option.splits)
  qed
  have match: "map_option me_envelope (ss_matching_message s) = dget (g_by_message_id st) mid"
    if "required_text ''message_id'' (tr_message_id t) = Inr mid" for mid
    using s(1) required_text_Inr [OF that] by (simp add: describes_def)
  show ?thesis
    unfolding resolve_append_message_def
  proof (intro okE_intros)
    fix x run y stream reference codec mid payload existing and sig :: string
    assume a: "publication_target t s = Inr x" "required_text ''message_id'' (tr_message_id t) = Inr mid"
      "ss_matching_message s = Some existing"
    show "published t st (effect_of ((default_result (tr_kind t))\<lparr>re_envelope := Some (me_envelope existing),
          re_run_status := Some (sr_status run)\<rparr>))"
      using target [OF a(1)] match [OF a(2), symmetric] required_text_Inr [OF a(2)] a(3) by (auto simp: published_def)
  next
    fix x run y reference codec mid payload sig e and stream :: stored_stream
    assume a: "publication_target t s = Inr x" "required_text ''message_id'' (tr_message_id t) = Inr mid"
      "ss_matching_message s = None" and x: "x = (run, y)" "y = (stream, reference)"
      and e: "mk_message_envelope \<lparr>e_channel = tr_channel t, e_identity = tr_identity t, e_seq = st_latest_sequence stream + 1,
         e_message_id = mid, e_codec = codec, e_payload = payload, e_created_at = ss_observed_at s\<rparr> = Inr e"
    show "published t st (appended_effect t run stream reference e sig)"
      using target [OF a(1)] match [OF a(2)] required_text_Inr [OF a(2)] a(3) mk_message_envelope_Inr [OF e] x
      by (auto simp: published_def appended_effect_def effect_disposition_def)
  qed
qed

lemma idle_applied:
  assumes "idle_effect ef" "dget (c_streams ch) k = Some st" "c_codec ch \<noteq> None" "dget (mb_channels mb) (c_channel ch) = Some ch"
    and "ef_channel ef = None" "mb_total_bytes mb \<le> max_total_bytes (mb_limits mb)" "mb_total_records mb \<le> max_total_records (mb_limits mb)"
  shows "apply_memory_effect now i k ef (ch, mb) = (Inr (), ch, mb)"
proof -
  have cap: "effect_capacity ch k ef = (0, 0, 0)"
    using assms by (simp add: effect_capacity_def Let_def message_capacity_def idle_effect_def)
  have st: "applied_state now pol i ef 0 0 st = st" for pol
    using assms(1) by (simp add: applied_state_def idle_effect_def retention_deadline_def)
  show ?thesis
    using assms st by (simp add: apply_memory_effect_def cap target_state_def idle_effect_def dput_same Let_def)
qed

lemma distinct_map_of_messages:
  "distinct (map e_message_id es) \<Longrightarrow> dget (map (\<lambda>e. (e_message_id e, e)) es) m = Some e \<longleftrightarrow> e \<in> set es \<and> e_message_id e = m"
proof -
  assume d: "distinct (map e_message_id es)"
  let ?d = "map (\<lambda>e. (e_message_id e, e)) es"
  have "dwf ?d" using d by (simp add: comp_def)
  then have "dget ?d m = Some e \<longleftrightarrow> (m, e) \<in> set ?d" by (rule map_of_eq_Some_iff)
  then show ?thesis by auto
qed

lemma publication_needs_run: "ss_target_run s = None \<Longrightarrow> resolve_append_message sha t s \<noteq> Inr ef"
  by (auto simp: resolve_append_message_def publication_target_def owned_run_def required_target_run_def bindE_Inr_iff
      split: if_splits prod.splits)

text \<open>After a successful publication the message is in the log, and a repeated one has changed nothing.\<close>

lemma publication_leaves:
  assumes mb: "backend_inv mb" and t: "publishes t" and run: "mb_transact sha thread_key now obs t mb = (Inr r, mb')"
  obtains ch st ch' st' e where
    "dget (mb_channels mb) (tr_channel t) = Some ch" "dget (c_streams ch) (thread_key (tr_identity t)) = Some st"
    "dget (mb_channels mb') (tr_channel t) = Some ch'" "dget (c_streams ch') (thread_key (tr_identity t)) = Some st'"
    "g_disposition st = DpActive" "g_disposition st' = DpActive" "g_generation st' = g_generation st"
    "map_option rr_generation (tr_run_reference t) = Some (g_generation st)"
    "re_envelope r = Some e" "e \<in> set (g_messages st')" "tr_message_id t = Some (e_message_id e)"
    "\<forall>x \<in> set (g_messages st). e_message_id x = e_message_id e \<longrightarrow> x = e \<and> mb' = mb"
proof -
  let ?c = "tr_channel t" and ?k = "thread_key (tr_identity t)"
  let ?ch = "mb_channel ?c mb"
  from run obtain s ef ch mb1 where s: "memory_state_snapshot sha obs mb ?ch ?c (tr_identity t) ?k
       (selected_generation t) (tr_message_id t) True = Inr s"
    and ef: "resolve_messaging_transition sha t s = Inr ef" "r = ef_result ef"
    and app: "apply_memory_effect now (tr_identity t) ?k ef (?ch, mb) = (Inr (), ch, mb1)" "mb' = write_back ch mb1"
    by (rule transact_Inr)
  have res: "resolve_append_message sha t s = Inr ef"
    using ef(1) t by (auto simp: resolve_messaging_transition_def publishes_def bindE_Inr_iff)
  obtain st where sel: "selected_state ?ch ?k (selected_generation t) = Some st"
    using snapshot_absent(2) [OF s] publication_needs_run res by (cases "selected_state ?ch ?k (selected_generation t)") blast+
  then have st: "dget (c_streams ?ch) ?k = Some st" by (auto simp: selected_state_def split: option.splits if_splits)
  then have ch: "dget (mb_channels mb) ?c = Some ?ch"
    by (auto simp: mb_channel_def new_channel_state_def split: option.splits)
  note ci = backend_channel [OF mb ch]
  have inv: "stream_inv st" and log: "log_ok st" using channel_stream [OF ci st] by (auto simp: stream_inv_def)
  note d = snapshot_describes(1) [OF s sel log]
  from okE_D [OF publication_effect [OF d inv] res] obtain mid where mid: "tr_message_id t = Some mid" "g_disposition st = DpActive"
    "map_option rr_generation (tr_run_reference t) = Some (g_generation st)" and
    cases: "(\<exists>e. dget (g_by_message_id st) mid = Some e \<and> re_envelope (ef_result ef) = Some e \<and> idle_effect ef) \<or>
      (dget (g_by_message_id st) mid = None \<and> effect_disposition st ef = DpActive \<and>
       (\<exists>ev. ef_message ef = Some ev \<and> e_message_id (me_envelope ev) = mid \<and> re_envelope (ef_result ef) = Some (me_envelope ev)))"
    unfolding published_def by blast
  have fit: "effect_fits st ef" "ef_tombstone_reason ef = None" "ef_channel ef = None"
    using okE_D [OF append_fits [OF d inv] res] by auto
  have by_id: "dget (g_by_message_id st) m = Some e \<longleftrightarrow> e \<in> set (g_messages st) \<and> e_message_id e = m" for m e
    using log unfolding log_ok_def by (auto simp: distinct_map_of_messages)
  show thesis
    using cases
  proof (elim disjE exE conjE)
    fix e assume e: "dget (g_by_message_id st) mid = Some e" "re_envelope (ef_result ef) = Some e" and idle: "idle_effect ef"
    have "c_codec ?ch \<noteq> None" "c_channel ?ch = ?c" using ci by (auto simp: channel_inv_def)
    then have "(ch, mb1) = (?ch, mb)"
      using idle_applied [OF idle st _ _ fit(3), of mb now "tr_identity t"] app(1) ch mb by (simp add: backend_inv_def)
    then have same: "mb' = mb" using app(2) view_write_back [OF mb mb_channel_view] by simp
    have e': "e \<in> set (g_messages st)" "e_message_id e = mid" using e(1) by_id [of mid e] by auto
    have only: "x = e" if "x \<in> set (g_messages st)" "e_message_id x = e_message_id e" for x
      using that e(1) e'(2) by_id [of mid x] by simp
    show thesis
    proof (rule that [OF ch st _ st])
      show "\<forall>x \<in> set (g_messages st). e_message_id x = e_message_id e \<longrightarrow> x = e \<and> mb' = mb" using only same by blast
    qed (use ch mid e(2) e' ef(2) same in simp_all)
  next
    fix ev assume new: "dget (g_by_message_id st) mid = None" "effect_disposition st ef = DpActive" and ev: "ef_message ef = Some ev"
      "e_message_id (me_envelope ev) = mid" "re_envelope (ef_result ef) = Some (me_envelope ev)"
    have target: "effect_target ?ch ?k ef st" "target_state ?ch ?k ef = Some st" 
      using st fit(1) by (auto simp: effect_target_def target_state_def effect_fits_def split: option.split)
    obtain codec where codec: "c_codec ?ch = Some codec" using ci by (auto simp: channel_inv_def)
    have c: "c_channel ?ch = ?c" using ci by (simp add: channel_inv_def)
    let ?st = "applied now (mb_retention_policy mb) (tr_identity t) ef st"
    have "mb' = committed now (tr_identity t) ?k ef st codec ?ch mb"
      using apply_cases [OF target fit(2) _ _ app(1)] codec ch c app(2) by (simp add: effect_codec_def)
    then have "dget (mb_channels mb') ?c = Some (with_stream ?k ?st (?ch\<lparr>c_codec := Some codec\<rparr>))"
      by (simp add: committed_def Let_def dict_simps c)
    moreover have "me_envelope ev \<in> set (g_messages ?st)" using applied_log(2) [OF log fit(1)] ev by simp
    moreover have "False" if "x \<in> set (g_messages st)" "e_message_id x = mid" for x using new(1) that by_id [of mid x] by simp
    ultimately show thesis
      using mid ev ef(2) new(2)
      by (intro that [OF ch st, of "with_stream ?k ?st (?ch\<lparr>c_codec := Some codec\<rparr>)" ?st "me_envelope ev"])
         (simp_all add: dict_simps applied_fields, blast+)
  qed
qed

section \<open>Stored bytes and records\<close>

lemma dsum_cong: "(\<And>v. v \<in> set (dvalues d) \<Longrightarrow> f v = g v) \<Longrightarrow> dsum f d = dsum g d"
  by (induction d) auto

definition stream_bytes :: "stream_state \<Rightarrow> int" where
  "stream_bytes st = dsum entry_bytes (g_signatures st) + dsum (\<lambda>r. checkpoint_bytes (m_checkpoint r)) (g_runs st)"

definition stored_bytes :: "memory_backend \<Rightarrow> int" where
  "stored_bytes mb = dsum (\<lambda>ch. dsum stream_bytes (c_streams ch)) (mb_channels mb)"

text \<open>One record per channel, known thread, live generation, message, run and tombstone.\<close>

definition stored_records :: "memory_backend \<Rightarrow> int" where
  "stored_records mb =
     dsum (\<lambda>ch. 1 + int (card (known_threads ch)) +
       dsum (\<lambda>st. 1 + int (length (g_messages st)) + int (length (g_runs st))) (c_streams ch) +
       dsum (\<lambda>d. int (length d)) (c_tombstones ch)) (mb_channels mb)"

lemma stored_totals:
  assumes mb: "backend_inv mb"
  shows "mb_total_bytes mb = stored_bytes mb" "mb_total_records mb = stored_records mb"
proof -
  have st: "g_retained_bytes st = stream_bytes st \<and> g_retained_records st = 1 + int (length (g_messages st)) + int (length (g_runs st))"
    if a: "ch \<in> set (dvalues (mb_channels mb))" "st \<in> set (dvalues (c_streams ch))" for ch st
  proof -
    have wf: "dwf (mb_channels mb)" using mb by (simp add: backend_inv_def)
    obtain c where ch: "dget (mb_channels mb) c = Some ch" using a(1) unfolding dvalues_dget [OF wf] by blast
    note ci = backend_channel [OF mb ch]
    have wf': "dwf (c_streams ch)" using ci by (simp add: channel_inv_def)
    obtain k where "dget (c_streams ch) k = Some st" using a(2) unfolding dvalues_dget [OF wf'] by blast
    then have "count_ok st" using channel_stream [OF ci] by (simp add: stream_inv_def)
    then show ?thesis by (simp add: count_ok_def stream_bytes_def)
  qed
  have bytes: "channel_bytes ch = dsum stream_bytes (c_streams ch)" if "ch \<in> set (dvalues (mb_channels mb))" for ch
    unfolding channel_bytes_def by (rule dsum_cong) (simp add: st [OF that])
  have records: "dsum g_retained_records (c_streams ch) =
      dsum (\<lambda>st. 1 + int (length (g_messages st)) + int (length (g_runs st))) (c_streams ch)"
    if "ch \<in> set (dvalues (mb_channels mb))" for ch
    by (rule dsum_cong) (simp add: st [OF that])
  have "dsum channel_bytes (mb_channels mb) = stored_bytes mb"
    unfolding stored_bytes_def by (rule dsum_cong) (rule bytes)
  moreover have "dsum channel_records (mb_channels mb) = stored_records mb"
    unfolding stored_records_def channel_records_def by (rule dsum_cong) (simp add: records)
  ultimately show "mb_total_bytes mb = stored_bytes mb" "mb_total_records mb = stored_records mb"
    using mb by (simp_all add: backend_inv_def)
qed

section \<open>A concrete thread\<close>

text \<open>One run is prepared, publishes a message and completes; its generation is deleted and a new one opened.\<close>

definition md_sha :: "bytes \<Rightarrow> string" where
  "md_sha b = map (\<lambda>w. if w = 0 then CHR ''0'' else CHR ''1'') b"

definition md0 :: memory_backend where
  "md0 = new_memory_backend \<lparr>max_message_payload_bytes = 10, max_checkpoint_bytes = 10, max_thread_messages = 10,
     max_thread_payload_bytes = 100, max_total_bytes = 100, max_total_records = 20\<rparr> \<lparr>terminal_ttl = Some 5\<rparr>"

definition md_identity :: run_identity where
  "md_identity = \<lparr>i_namespace = ''n'', i_thread_id = ''t'', i_run_id = ''r''\<rparr>"

definition md_transition :: "transition_kind \<Rightarrow> messaging_transition" where
  "md_transition kind = default_transition kind ''id'' ''c'' md_identity (messaging_settings md0)"

definition md_owner :: "int \<Rightarrow> transition_kind \<Rightarrow> messaging_transition" where
  "md_owner fence kind = (md_transition kind)\<lparr>tr_run_reference := Some \<lparr>rr_channel = ''c'', rr_identity = md_identity,
     rr_generation = 1, rr_producer_token = Some ''id'', rr_producer_fence = Some fence\<rparr>\<rparr>"

definition md_append :: "int \<Rightarrow> messaging_transition" where
  "md_append fence = (md_owner fence AppendMessage)\<lparr>tr_codec_id := Some ''json'', tr_message_id := Some ''m'',
     tr_payload := Some [1, 2]\<rparr>"

definition md_prepare :: messaging_transition where
  "md_prepare = (md_transition PrepareRun)\<lparr>tr_codec_id := Some ''json''\<rparr>"

abbreviation md_after :: "messaging_transition \<Rightarrow> memory_backend \<Rightarrow> memory_backend" where
  "md_after t mb \<equiv> snd (mb_transact md_sha i_thread_id 3 3 t mb)"

definition md1 :: memory_backend where
  "md1 = md_after md_prepare md0"

definition md2 :: memory_backend where
  "md2 = md_after (md_append 1) md1"

definition md3 :: memory_backend where
  "md3 = md_after ((md_owner 1 FinishRun)\<lparr>tr_final_status := Some RsCompleted\<rparr>) md2"

definition md4 :: memory_backend where
  "md4 = md_after ((md_transition BeginGenerationCleanup)\<lparr>tr_cleanup_reason := Some CrDeleted\<rparr>) md3"

definition md5 :: memory_backend where
  "md5 = snd (mb_purge_stream_generation i_thread_id ''c'' md_identity 1 64 md4)"

definition md6 :: memory_backend where
  "md6 = md_after ((md_transition FinishGenerationCleanup)\<lparr>tr_cleanup_reason := Some CrDeleted, tr_cleanup_generation := Some 1\<rparr>) md5"

definition md7 :: memory_backend where
  "md7 = md_after md_prepare md6"

abbreviation md_stream :: "memory_backend \<Rightarrow> stream_state" where
  "md_stream mb \<equiv> the (dget (c_streams (mb_channel ''c'' mb)) ''t'')"

definition md_envelope :: message_envelope where
  "md_envelope = \<lparr>e_channel = ''c'', e_identity = md_identity, e_seq = 1, e_message_id = ''m'', e_codec = ''json'',
     e_payload = [1, 2], e_created_at = 3\<rparr>"

definition md_run :: run_record where
  "md_run = \<lparr>m_identity = md_identity, m_start_seq = 0, m_end_seq = 1, m_owner_token = Some ''id'', m_fence = 1,
     m_cancellable = False, m_recoverable = False, m_status = RsRunning, m_settling = False,
     m_publication_closed = False, m_publication_ready = True, m_error = None, m_checkpoint = None\<rparr>"

lemma md2_eq [code]:
  "md2 = md0\<lparr>mb_channels := [(''c'', \<lparr>c_channel = ''c'', c_codec = Some ''json'', c_streams =
       [(''t'', \<lparr>g_generation = 1, g_disposition = DpActive, g_deleted = False, g_messages = [md_envelope],
          g_by_message_id = [(''m'', md_envelope)], g_signatures = [(''m'', ''r'', ''json'', [1, 2], None)],
          g_runs = [(''r'', md_run)], g_active_identity = Some md_identity, g_payload_bytes = 2, g_retained_bytes = 2,
          g_retained_records = 3, g_expires_at = None, g_control_sequence = 0\<rparr>)],
       c_next_generations = [], c_tombstones = []\<rparr>)], mb_total_bytes := 2, mb_total_records := 5\<rparr>"
  by code_simp

lemma md_init: "mb_init md0"
  unfolding mb_init_def md0_def by (intro exI conjI, rule refl) simp_all

lemma md_step:
  "framework_transition t \<Longrightarrow> mb_step md_sha i_thread_id mb (md_after t mb)"
  "mb_step md_sha i_thread_id mb (snd (mb_purge_stream_generation i_thread_id c i g n mb))"
  by (rule mb_step.transact, assumption, rule prod.collapse [symmetric]) (rule mb_step.purge, rule prod.collapse [symmetric])

lemmas md_defs = framework_transition_def md_prepare_def md_append_def md_owner_def md_transition_def default_transition_def

lemma md_steps:
  "mb_step md_sha i_thread_id md0 md1" "mb_step md_sha i_thread_id md1 md2" "mb_step md_sha i_thread_id md2 md3"
  "mb_step md_sha i_thread_id md3 md4" "mb_step md_sha i_thread_id md4 md5" "mb_step md_sha i_thread_id md5 md6"
  "mb_step md_sha i_thread_id md6 md7"
  unfolding md1_def md2_def md3_def md4_def md5_def md6_def md7_def by (rule md_step; simp add: md_defs)+

lemma md_runs:
  "(mb_step md_sha i_thread_id)\<^sup>*\<^sup>* md0 md1" "(mb_step md_sha i_thread_id)\<^sup>*\<^sup>* md0 md2" "(mb_step md_sha i_thread_id)\<^sup>*\<^sup>* md0 md3"
  "(mb_step md_sha i_thread_id)\<^sup>*\<^sup>* md0 md6" "(mb_step md_sha i_thread_id)\<^sup>*\<^sup>* md2 md3" "(mb_step md_sha i_thread_id)\<^sup>*\<^sup>* md6 md7"
  using md_steps by (meson converse_rtranclp_into_rtranclp rtranclp.rtrancl_refl)+

lemma md_values:
  "dget (mb_channels md2) ''c'' = Some (mb_channel ''c'' md2)" "dget (c_streams (mb_channel ''c'' md2)) ''t'' = Some (md_stream md2)"
  "dget (mb_channels md3) ''c'' = Some (mb_channel ''c'' md3)" "dget (c_streams (mb_channel ''c'' md3)) ''t'' = Some (md_stream md3)"
  "map e_seq (g_messages (md_stream md2)) = [1]" "mb_total_records md3 = 5" "mb_total_records md6 = 3"
  "mb_log md7 (''c'', ''t'') = (2, Open [])"
  by code_simp+

section \<open>The backend\<close>

text \<open>C19: in every state the in-memory backend can reach, its running totals are exactly what it stores and never
  exceed the configured limits: the bytes of all payloads and checkpoints, and the number of channels,
  threads, generations, messages, runs and tombstones.\<close>

theorem capacity_exact_and_bounded:
  assumes "mb_init mb0" "(mb_step sha thread_key)\<^sup>*\<^sup>* mb0 mb"
  shows "mb_total_bytes mb = stored_bytes mb \<and> stored_bytes mb \<le> max_total_bytes (mb_limits mb) \<and>
    mb_total_records mb = stored_records mb \<and> stored_records mb \<le> max_total_records (mb_limits mb)"
  using stored_totals [OF memory.reachable_inv [OF assms]] memory.reachable_inv [OF assms] by (simp add: backend_inv_def)

theorem capacity_exact_and_bounded_witness:
  "mb_total_bytes md3 = stored_bytes md3 \<and> stored_bytes md3 \<le> max_total_bytes (mb_limits md3) \<and>
   mb_total_records md3 = stored_records md3 \<and> stored_records md3 \<le> max_total_records (mb_limits md3)"
  by (rule capacity_exact_and_bounded [OF md_init md_runs(3)])

text \<open>C20: a generation has at most one producer: in every reachable state two runs of one generation that are not
  final are the same run, and it is the one the generation records as active, with a producer token.\<close>

theorem single_producer:
  assumes "mb_init mb0" "(mb_step sha thread_key)\<^sup>*\<^sup>* mb0 mb"
    and "dget (mb_channels mb) c = Some ch" "dget (c_streams ch) k = Some st"
    and "dget (g_runs st) a = Some r" "dget (g_runs st) b = Some r'"
    and "\<not> is_final_run_status (m_status r)" "\<not> is_final_run_status (m_status r')"
  shows "a = b \<and> map_option i_run_id (g_active_identity st) = Some a \<and> m_owner_token r \<noteq> None"
proof -
  have st: "stream_inv st"
    using channel_stream [OF backend_channel [OF memory.reachable_inv [OF assms(1,2)] assms(3)] assms(4)] by blast
  show ?thesis
    using live_run_facts(1,4) [OF st assms(5,7)] live_run_facts(4) [OF st assms(6,8)] by simp
qed

theorem single_producer_witness:
  "''r'' = ''r'' \<and> map_option i_run_id (g_active_identity (md_stream md2)) = Some ''r'' \<and> m_owner_token md_run \<noteq> None"
  by (rule single_producer [OF md_init md_runs(2) md_values(1,2), where r = md_run and r' = md_run]) code_simp+

text \<open>C21: the backend refines the thread specification: whatever operations run, each thread is seen to move only by
  opening an empty generation, appending the message with the next sequence number and a new identifier,
  sealing the generation, and retiring it for the next number.\<close>

theorem threads_refine_log:
  assumes "mb_init mb0" "(mb_step sha thread_key)\<^sup>*\<^sup>* mb0 mb" "(mb_step sha thread_key)\<^sup>*\<^sup>* mb mb'"
  shows "log_step\<^sup>*\<^sup>* (mb_log mb (c, k)) (mb_log mb' (c, k))"
  by (rule threads.run_sim [OF assms(3) memory.reachable_inv [OF assms(1,2)]])

theorem threads_refine_log_witness: "log_step\<^sup>*\<^sup>* (mb_log md6 (''c'', ''t'')) (2, Open [])"
  using threads_refine_log [OF md_init md_runs(4,6), of "''c''" "''t''"] unfolding md_values(8) .

lemma run_stream:
  assumes mb: "backend_inv mb" and run: "(mb_step sha thread_key)\<^sup>*\<^sup>* mb mb'"
    and st: "dget (mb_channels mb) c = Some ch" "dget (c_streams ch) k = Some st"
    and st': "dget (mb_channels mb') c = Some ch'" "dget (c_streams ch') k = Some st'" "g_generation st' = g_generation st"
  shows "stream_evolves st st'"
proof -
  have keeps: "mb_keeps mb mb'" by (rule run_keeps [OF run mb])
  then have "channel_evolves ch ch'" using st(1) st'(1)
    unfolding mb_keeps_def backend_evolves_def dict_grows_def by (metis option.inject)
  moreover have "g_generation st' = next_gen ch' k"
    using keeps channel_stream [OF backend_channel [OF _ st'(1)] st'(2)] by (simp add: mb_keeps_def)
  ultimately show ?thesis using st(2) st'(2,3) unfolding channel_evolves_def by fastforce
qed

text \<open>history is never rewritten. While a generation stays active, its message log only grows at the end and a
  run that has become final keeps every field, its status and boundary included.\<close>

theorem history_is_immutable:
  assumes "mb_init mb0" "(mb_step sha thread_key)\<^sup>*\<^sup>* mb0 mb" "(mb_step sha thread_key)\<^sup>*\<^sup>* mb mb'"
    and "dget (mb_channels mb) c = Some ch" "dget (c_streams ch) k = Some st"
    and "dget (mb_channels mb') c = Some ch'" "dget (c_streams ch') k = Some st'"
    and "g_generation st' = g_generation st" "g_disposition st' = DpActive"
  shows "(\<exists>new. g_messages st' = g_messages st @ new) \<and>
    (\<forall>rid r. dget (g_runs st) rid = Some r \<and> is_final_run_status (m_status r) \<longrightarrow> dget (g_runs st') rid = Some r)"
  using run_stream [OF memory.reachable_inv [OF assms(1,2)] assms(3,4,5,6,7,8)] assms(9)
  by (fastforce simp: stream_evolves_def dict_grows_def run_kept_def)

theorem history_is_immutable_witness: "\<exists>new. g_messages (md_stream md3) = g_messages (md_stream md2) @ new"
proof -
  have "g_generation (md_stream md3) = g_generation (md_stream md2)" "g_disposition (md_stream md3) = DpActive" by code_simp+
  then show ?thesis using history_is_immutable [OF md_init md_runs(2,5) md_values(1-4)] by blast
qed

text \<open>a transition that is rejected, for whatever reason, quota included, leaves the backend exactly as it
  was.\<close>

theorem rejected_transition_changes_nothing:
  assumes "mb_init mb0" "(mb_step sha thread_key)\<^sup>*\<^sup>* mb0 mb" "framework_transition t"
    and "mb_transact sha thread_key now obs t mb = (Inl e, mb')"
  shows "mb' = mb"
  using transact_keeps [OF memory.reachable_inv [OF assms(1,2)] assms(3,4)] by simp

theorem rejected_transition_changes_nothing_witness: "md_after (md_append 2) md2 = md2"
proof (rule rejected_transition_changes_nothing [OF md_init md_runs(2)])
  show "framework_transition (md_append 2)" by (simp add: md_defs)
  have "fst (mb_transact md_sha i_thread_id 3 3 (md_append 2) md2) = Inl (BackendOwnershipLost ''Producer lost its ownership fence'')"
    by code_simp
  then show "mb_transact md_sha i_thread_id 3 3 (md_append 2) md2 =
      (Inl (BackendOwnershipLost ''Producer lost its ownership fence''), md_after (md_append 2) md2)"
    by (metis prod.collapse)
qed

text \<open>a retired generation is gone for good: once a thread has a tombstone, the same tombstone is there in every
  later state and no generation with that number is ever live again.\<close>

theorem retired_generation_never_returns:
  assumes "mb_init mb0" "(mb_step sha thread_key)\<^sup>*\<^sup>* mb0 mb" "(mb_step sha thread_key)\<^sup>*\<^sup>* mb mb'"
    and "dget (mb_channels mb) c = Some ch" "dget (tombs ch k) g = Some reason"
  shows "\<not> mb_live mb' (c, k) g \<and> (\<exists>ch'. dget (mb_channels mb') c = Some ch' \<and> dget (tombs ch' k) g = Some reason)"
proof -
  note mb = memory.reachable_inv [OF assms(1,2)]
  have "tombs_ok ch" using backend_channel [OF mb assms(4)] by (simp add: channel_inv_def)
  then have "g < next_gen ch k" using assms(5) unfolding tombs_ok_def by (metis option.distinct(1))
  then have "g < mb_generation mb (c, k)" using assms(4) by (simp add: mb_generation_def)
  then have "\<not> mb_live mb' (c, k) g" by (rule memory.overtaken_forever [OF assms(3) mb])
  moreover have "dict_grows channel_evolves (mb_channels mb) (mb_channels mb')"
    using run_keeps [OF assms(3) mb] by (simp add: mb_keeps_def backend_evolves_def)
  ultimately show ?thesis using assms(4,5) unfolding dict_grows_def channel_evolves_def by blast
qed

theorem retired_generation_never_returns_witness:
  "\<not> mb_live md7 (''c'', ''t'') 1 \<and> (\<exists>ch'. dget (mb_channels md7) ''c'' = Some ch' \<and> dget (tombs ch' ''t'') 1 = Some CrDeleted)"
  by (rule retired_generation_never_returns [OF md_init md_runs(4,6), of "''c''" "mb_channel ''c'' md6"]) code_simp+

text \<open>C22: a message is committed exactly once. After an append or publication succeeded, any later append or
  publication of the same message identifier to the same generation that succeeds returns the very same
  envelope and changes nothing.\<close>

theorem message_committed_exactly_once:
  assumes "mb_init mb0" "(mb_step sha thread_key)\<^sup>*\<^sup>* mb0 mb"
    and "publishes t" "mb_transact sha thread_key now obs t mb = (Inr r, mb1)"
    and "(mb_step sha thread_key)\<^sup>*\<^sup>* mb1 mb2"
    and "publishes t'" "mb_transact sha thread_key now' obs' t' mb2 = (Inr r', mb3)"
    and "tr_channel t' = tr_channel t" "thread_key (tr_identity t') = thread_key (tr_identity t)"
    and "tr_message_id t' = tr_message_id t"
    and "map_option rr_generation (tr_run_reference t') = map_option rr_generation (tr_run_reference t)"
  shows "re_envelope r' = re_envelope r \<and> mb3 = mb2"
proof -
  note mb = memory.reachable_inv [OF assms(1,2)]
  have "framework_transition t" using assms(3) by (auto simp: publishes_def framework_transition_def)
  then have mb1: "backend_inv mb1" using transact_keeps [OF mb _ assms(4)] by (simp add: mb_keeps_def)
  then have mb2: "backend_inv mb2" using run_keeps [OF assms(5)] by (simp add: mb_keeps_def)
  obtain ch st ch1 st1 e where one:
    "dget (mb_channels mb) (tr_channel t) = Some ch" "dget (c_streams ch) (thread_key (tr_identity t)) = Some st"
    "dget (mb_channels mb1) (tr_channel t) = Some ch1" "dget (c_streams ch1) (thread_key (tr_identity t)) = Some st1"
    "g_disposition st = DpActive" "g_disposition st1 = DpActive" "g_generation st1 = g_generation st"
    "map_option rr_generation (tr_run_reference t) = Some (g_generation st)"
    "re_envelope r = Some e" "e \<in> set (g_messages st1)" "tr_message_id t = Some (e_message_id e)"
    "\<forall>x \<in> set (g_messages st). e_message_id x = e_message_id e \<longrightarrow> x = e \<and> mb1 = mb"
    by (rule publication_leaves [OF mb assms(3,4)]) (rule that; assumption)
  obtain ch2 st2 ch3 st3 e' where two:
    "dget (mb_channels mb2) (tr_channel t') = Some ch2" "dget (c_streams ch2) (thread_key (tr_identity t')) = Some st2"
    "dget (mb_channels mb3) (tr_channel t') = Some ch3" "dget (c_streams ch3) (thread_key (tr_identity t')) = Some st3"
    "g_disposition st2 = DpActive" "g_disposition st3 = DpActive" "g_generation st3 = g_generation st2"
    "map_option rr_generation (tr_run_reference t') = Some (g_generation st2)"
    "re_envelope r' = Some e'" "e' \<in> set (g_messages st3)" "tr_message_id t' = Some (e_message_id e')"
    "\<forall>x \<in> set (g_messages st2). e_message_id x = e_message_id e' \<longrightarrow> x = e' \<and> mb3 = mb2"
    by (rule publication_leaves [OF mb2 assms(6,7)]) (rule that; assumption)
  have "stream_evolves st1 st2"
    using two(1,2,8) one(7,8) assms(8,9,11) by (intro run_stream [OF mb1 assms(5) one(3,4)]) auto
  then have "e \<in> set (g_messages st2)" using one(10) two(5) by (auto simp: stream_evolves_def)
  then show ?thesis using two(12) one(9,11) two(9,11) assms(10) by fastforce
qed

theorem message_committed_exactly_once_witness:
  "re_envelope (projr (fst (mb_transact md_sha i_thread_id 9 9 (md_append 1) md2))) =
     re_envelope (projr (fst (mb_transact md_sha i_thread_id 3 3 (md_append 1) md1))) \<and>
   snd (mb_transact md_sha i_thread_id 9 9 (md_append 1) md2) = md2"
proof (rule message_committed_exactly_once [OF md_init md_runs(1)])
  have ok: "x = (Inr (projr (fst x)), snd x)" if "\<not> isl (fst x)" for x :: "(messaging_error + transition_result) \<times> memory_backend"
    using that by (cases x; cases "fst x") auto
  have "\<not> isl (fst (mb_transact md_sha i_thread_id 3 3 (md_append 1) md1))" by code_simp
  from ok [OF this] show "mb_transact md_sha i_thread_id 3 3 (md_append 1) md1 =
      (Inr (projr (fst (mb_transact md_sha i_thread_id 3 3 (md_append 1) md1))), md2)" by (simp add: md2_def)
  have "\<not> isl (fst (mb_transact md_sha i_thread_id 9 9 (md_append 1) md2))" by code_simp
  from ok [OF this] show "mb_transact md_sha i_thread_id 9 9 (md_append 1) md2 =
      (Inr (projr (fst (mb_transact md_sha i_thread_id 9 9 (md_append 1) md2))), snd (mb_transact md_sha i_thread_id 9 9 (md_append 1) md2))" .
qed (simp_all add: publishes_def md_defs)

end
