(* ===== verification/Messaging_Ledger_Correct.thy ===== *)
theory Messaging_Ledger_Correct
  imports Messaging_Ledger Messaging_Memory_Props
begin

text \<open>
  The ledger as a client of the backend contract. What holds for every backend is proved in locales:
  a ledger operation does nothing to the backend beyond its operations, and its cleanup loop ends when
  purging makes progress. The in-memory backend meets both contracts.
\<close>

section \<open>Only the backend's own operations\<close>

text \<open>Whatever a computation returns, the state it leaves is related to the one it started in.\<close>

named_theorems tracks_intros \<open>how each way of sequencing calls keeps the relation\<close>

definition tracks :: "('s \<Rightarrow> 's \<Rightarrow> bool) \<Rightarrow> 's \<Rightarrow> ('e, 's, 'a) outcome option \<Rightarrow> bool" where
  "tracks R s r \<longleftrightarrow> (\<forall>x s'. r = Some (x, s') \<longrightarrow> R s s')"

lemma tracks_Some [tracks_intros]: "R s s' \<Longrightarrow> tracks R s (Some (x, s'))"
  by (simp add: tracks_def)

lemma tracks_None: "tracks R s None"
  by (simp add: tracks_def)

lemma tracks_and_thenO [tracks_intros]:
  "tracks R s r \<Longrightarrow> (\<And>a s'. R s s' \<Longrightarrow> tracks R s (k a s')) \<Longrightarrow> tracks R s (and_thenO r k)"
  by (auto simp: tracks_def and_thenO_def split: option.splits sum.splits)

lemma tracks_checkO [tracks_intros]: "R s s' \<Longrightarrow> (\<And>a. tracks R s (k a)) \<Longrightarrow> tracks R s (checkO r s' k)"
  by (cases r) (auto simp: tracks_def)

lemma tracks_check [tracks_intros]: "R s s' \<Longrightarrow> (\<And>a. tracks R s (Some (k a))) \<Longrightarrow> tracks R s (Some (check r s' k))"
  by (cases r) (auto simp: tracks_def)

lemma tracks_and_then [tracks_intros]:
  "tracks R s (Some r) \<Longrightarrow> (\<And>a s'. R s s' \<Longrightarrow> tracks R s (Some (k a s'))) \<Longrightarrow> tracks R s (Some (and_then r k))"
  by (cases r; cases "fst r") (auto simp: tracks_def)

lemma tracks_if [tracks_intros]: "tracks R s a \<Longrightarrow> tracks R s b \<Longrightarrow> tracks R s (if c then a else b)"
  by simp

lemma tracks_option [tracks_intros]: "tracks R s a \<Longrightarrow> (\<And>y. tracks R s (f y)) \<Longrightarrow> tracks R s (case x of None \<Rightarrow> a | Some y \<Rightarrow> f y)"
  by (cases x) auto

lemma tracks_prod [tracks_intros]: "(\<And>a b. tracks R s (f a b)) \<Longrightarrow> tracks R s (case x of (a, b) \<Rightarrow> f a b)"
  by (cases x) auto

lemma tracks_Some_option [tracks_intros]:
  "tracks R s (Some a) \<Longrightarrow> (\<And>y. tracks R s (Some (f y))) \<Longrightarrow> tracks R s (Some (case x of None \<Rightarrow> a | Some y \<Rightarrow> f y))"
  by (cases x) auto

lemma tracks_start: "transp R \<Longrightarrow> R s s' \<Longrightarrow> tracks R s' r \<Longrightarrow> tracks R s r"
  by (auto simp: tracks_def dest: transpD)

locale borrowed_backend =
  fixes B :: "'s backend_ops" and R :: "'s \<Rightarrow> 's \<Rightarrow> bool"
  assumes R_refl: "R s s" and R_trans: "transp R"
    and commit_R: "framework_transition t \<Longrightarrow> R s (snd (bk_commit B t s))"
    and load_R: "R s (snd (bk_load B q s))"
    and read_R: "R s (snd (bk_read B m s))"
    and wait_R: "R s (snd (bk_wait B w s))"
    and purge_R: "R s (snd (bk_purge B p s))"
begin

lemma tracks_op: "R s s' \<Longrightarrow> R s' (snd x) \<Longrightarrow> tracks R s (Some x)"
  using transpD [OF R_trans] by (cases x) (auto simp: tracks_def)

lemma op_tracks:
  "framework_transition t \<Longrightarrow> R s s' \<Longrightarrow> tracks R s (Some (bk_commit B t s'))"
  "R s s' \<Longrightarrow> tracks R s (Some (bk_load B q s'))"
  "R s s' \<Longrightarrow> tracks R s (Some (bk_read B m s'))"
  by (erule tracks_op, erule commit_R) (erule tracks_op, rule load_R read_R)+

lemma purge_loop_R:
  assumes "purge_loop B p s = Some y" shows "R s (snd y)"
proof -
  have "B0 = B \<longrightarrow> R s (snd y)" if "purge_loop B0 p s = Some y" for B0
  proof (rule purge_loop.raw_induct [where P = "\<lambda>B0 p s y. B0 = B \<longrightarrow> R s (snd y)", OF _ that])
    fix f :: "'s backend_ops \<Rightarrow> generation_purge \<Rightarrow> 's \<Rightarrow> (messaging_error, 's, unit) outcome option" and B0 p s y
    assume ih: "\<And>B0 p s y. f B0 p s = Some y \<Longrightarrow> B0 = B \<longrightarrow> R s (snd y)"
      and body: "(case bk_purge B0 p s of (Inl e, s1) \<Rightarrow> Some (Inl e, s1)
        | (Inr progress, s1) \<Rightarrow> if pp_complete progress then Some (Inr (), s1) else f B0 p s1) = Some y"
    obtain x s1 where x: "bk_purge B p s = (x, s1)" by fastforce
    have one: "R s s1" using purge_R [of s p] x by simp
    have "R s1 (snd y) \<or> snd y = s1" if "B0 = B"
      using ih [of B p s1 y] body x unfolding that by (auto split: sum.splits if_splits)
    then show "B0 = B \<longrightarrow> R s (snd y)" using one transpD [OF R_trans] by blast
  qed
  then show ?thesis using assms by blast
qed

lemma purge_loop_tracks: "R s s' \<Longrightarrow> tracks R s (purge_loop B p s')"
  using purge_loop_R transpD [OF R_trans] by (fastforce simp: tracks_def)

lemma cleanup_tracks: "R s s' \<Longrightarrow> tracks R s (cleanup_generation B uid c i reason s')"
  unfolding cleanup_generation_def
  by (intro tracks_intros op_tracks purge_loop_tracks)
     (simp_all add: framework_transition_def cleanup_begin_def cleanup_finish_def default_transition_def)

lemma load_current_tracks: "R s s' \<Longrightarrow> tracks R s (load_current_state B uid c i inc s')"
  unfolding load_current_state_def Let_def by (intro tracks_intros op_tracks cleanup_tracks)

lemma delete_stream_tracks: "R s s' \<Longrightarrow> tracks R s (ledger_delete_stream B uid c i s')"
  unfolding ledger_delete_stream_def by (intro tracks_intros cleanup_tracks load_current_tracks)

lemma prepare_tracks: "R s s' \<Longrightarrow> tracks R s (ledger_prepare B uid c i codec after cancellable recoverable s')"
  unfolding ledger_prepare_def
  by (intro tracks_intros op_tracks load_current_tracks) (simp_all add: framework_transition_def default_transition_def)

lemma framework_default: "kind \<noteq> PrepareRun \<Longrightarrow> framework_transition ((default_transition kind uid c i st)\<lparr>tr_run_reference := r\<rparr>)"
  by (simp add: framework_transition_def default_transition_def)

lemma producer_tracks:
  "R s s' \<Longrightarrow> tracks R s (Some (ledger_append B h mid codec payload cp closes opens s'))"
  "R s s' \<Longrightarrow> tracks R s (Some (ledger_begin_settlement B u h s'))"
  "R s s' \<Longrightarrow> tracks R s (Some (ledger_finish B u h status err s'))"
  "R s s' \<Longrightarrow> tracks R s (Some (ledger_request_cancel B u h s'))"
  "R s s' \<Longrightarrow> tracks R s (Some (ledger_renew B u h s'))"
  "R s s' \<Longrightarrow> tracks R s (Some (reconcile_bound_ownership B u h s'))"
  unfolding ledger_append_def ledger_begin_settlement_def ledger_finish_def ledger_request_cancel_def ledger_renew_def
    reconcile_bound_ownership_def
  by (intro tracks_intros op_tracks; simp add: framework_transition_def default_transition_def)+

lemma publish_tracks: "R s s' \<Longrightarrow> tracks R s (ledger_publish B uid c i mid codec payload s')"
  unfolding ledger_publish_def Let_def
  by (intro tracks_intros op_tracks load_current_tracks) (simp_all add: framework_transition_def default_transition_def)

lemma bound_state_tracks: "R s s' \<Longrightarrow> tracks R s (Some (load_bound_state B h s'))"
  unfolding load_bound_state_def by (intro tracks_intros op_tracks)

lemma reader_tracks:
  "R s s' \<Longrightarrow> tracks R s (ledger_latest_seq B uid c i s')"
  "R s s' \<Longrightarrow> tracks R s (ledger_get_run_status B uid c i s')"
  "R s s' \<Longrightarrow> tracks R s (ledger_read B uid c i after limit s')"
  "R s s' \<Longrightarrow> tracks R s (ledger_bind_follow B uid c i after s')"
  "R s s' \<Longrightarrow> tracks R s (resolve_handle_generation B uid h s')"
  unfolding ledger_latest_seq_def ledger_get_run_status_def ledger_read_def ledger_bind_follow_def resolve_handle_generation_def
  by (intro tracks_intros op_tracks load_current_tracks; simp add: framework_transition_def default_transition_def)+

lemma failure_tracks: "R s s' \<Longrightarrow> tracks R s (ledger_failure B uid h s')"
  unfolding ledger_failure_def by (intro tracks_intros bound_state_tracks reader_tracks)

text \<open>The loops: a turn relates the state it ends or goes on with.\<close>

lemma tracks_R: "tracks R s (Some (x, s')) \<Longrightarrow> R s s'"
  by (simp add: tracks_def)

lemma wait_step: "R s s1 \<Longrightarrow> bk_wait B w s1 = (x, s2) \<Longrightarrow> R s s2"
  using wait_R [of s1 w] transpD [OF R_trans] by force

lemma reconcile_step: "R s s1 \<Longrightarrow> reconcile_bound_ownership B u h s1 = (x, s2) \<Longrightarrow> R s s2"
  using producer_tracks(6) [of s s1 u h] by (simp add: tracks_R)

lemma follow_turn_R:
  "R s (case snd (follow_turn B u h g cursor s) of Inl y \<Rightarrow> snd y | Inr y \<Rightarrow> snd y)"
proof -
  obtain x s1 where x: "bk_read B (follow_query h g cursor) s = (x, s1)" by fastforce
  have one: "R s s1" using read_R [of s "follow_query h g cursor"] x by simp
  then show ?thesis
    unfolding follow_turn_def x
    by (auto simp: Let_def intro: wait_step [OF one] reconcile_step [OF one] split: sum.split option.split prod.split)
qed

lemma wait_turn_R: "R s (case wait_turn B u verdict h g s of Inl y \<Rightarrow> snd y | Inr s' \<Rightarrow> s')"
proof -
  obtain x s1 where x: "load_bound_state B h s = (x, s1)" by fastforce
  have one: "R s s1" using bound_state_tracks [OF R_refl, of s h] x by (simp add: tracks_R)
  then show ?thesis
    unfolding wait_turn_def x
    by (auto simp: Let_def intro: wait_step [OF one] reconcile_step [OF one] split: sum.split option.split prod.split)
qed

lemma follow_loop_R:
  assumes "follow_loop B uid h g n cursor seen s = Some y" shows "R s (snd (snd y))"
proof -
  have "B0 = B \<longrightarrow> R s (snd (snd y))" if "follow_loop B0 uid h g n cursor seen s = Some y" for B0
  proof (rule follow_loop.raw_induct [where P = "\<lambda>B0 uid h g n cursor seen s y. B0 = B \<longrightarrow> R s (snd (snd y))", OF _ that])
    fix f :: "'s backend_ops \<Rightarrow> (nat \<Rightarrow> string) \<Rightarrow> run_handle \<Rightarrow> int \<Rightarrow> nat \<Rightarrow> int \<Rightarrow> message_envelope list \<Rightarrow> 's \<Rightarrow>
      (message_envelope list \<times> (messaging_error, 's, unit waited) outcome) option" and B0 uid h g n cursor seen s y
    assume ih: "\<And>B0 uid h g n cursor seen s y. f B0 uid h g n cursor seen s = Some y \<Longrightarrow> B0 = B \<longrightarrow> R s (snd (snd y))"
      and body: "(case follow_turn B0 (uid n) h g cursor s of (new, Inl ending) \<Rightarrow> Some (seen @ new, ending)
        | (new, Inr (cursor1, s1)) \<Rightarrow> f B0 uid h g (Suc n) cursor1 (seen @ new) s1) = Some y"
    show "B0 = B \<longrightarrow> R s (snd (snd y))"
    proof
      assume B: "B0 = B"
      obtain new r where turn: "follow_turn B (uid n) h g cursor s = (new, r)" by fastforce
      show "R s (snd (snd y))"
      proof (cases r)
        case (Inl ending)
        then show ?thesis using body turn follow_turn_R [of s "uid n" h g cursor] unfolding B by auto
      next
        case (Inr cs)
        obtain cursor1 s1 where cs: "cs = (cursor1, s1)" by fastforce
        have "R s s1" using turn Inr cs follow_turn_R [of s "uid n" h g cursor] by simp
        moreover have "R s1 (snd (snd y))" using ih body turn Inr cs unfolding B by fastforce
        ultimately show ?thesis using transpD [OF R_trans] by blast
      qed
    qed
  qed
  then show ?thesis using assms by blast
qed

lemma wait_loop_R:
  assumes "wait_loop B uid verdict h g n s = Some y" shows "R s (snd y)"
proof -
  have "B0 = B \<longrightarrow> R s (snd y)" if "wait_loop B0 uid verdict h g n s = Some y" for B0
  proof (rule wait_loop.raw_induct [where P = "\<lambda>B0 uid verdict h g n s y. B0 = B \<longrightarrow> R s (snd y)", OF _ that])
    fix f :: "'s backend_ops \<Rightarrow> (nat \<Rightarrow> string) \<Rightarrow> (run_status \<Rightarrow> 'a option) \<Rightarrow> run_handle \<Rightarrow> int \<Rightarrow> nat \<Rightarrow> 's \<Rightarrow>
      (messaging_error, 's, 'a waited) outcome option" and B0 uid verdict h g n s y
    assume ih: "\<And>B0 uid verdict h g n s y. f B0 uid verdict h g n s = Some y \<Longrightarrow> B0 = B \<longrightarrow> R s (snd y)"
      and body: "(case wait_turn B0 (uid n) verdict h g s of Inl ending \<Rightarrow> Some ending
        | Inr s1 \<Rightarrow> f B0 uid verdict h g (Suc n) s1) = Some y"
    show "B0 = B \<longrightarrow> R s (snd y)"
      using ih [of B uid verdict h g "Suc n" _ y] body wait_turn_R [of s "uid n" verdict h g] transpD [OF R_trans]
      by (cases "wait_turn B (uid n) verdict h g s") auto
  qed
  then show ?thesis using assms by blast
qed

lemma wait_tracks:
  "R s s' \<Longrightarrow> tracks R s (ledger_wait_for_cancel B uid h s')"
  "R s s' \<Longrightarrow> tracks R s (ledger_wait_finished B uid h s')"
proof -
  have loop: "R s s' \<Longrightarrow> tracks R s (wait_loop B uid verdict h g n s')" for s s' uid h g n and verdict :: "run_status \<Rightarrow> 'b option"
    using wait_loop_R transpD [OF R_trans] by (fastforce simp: tracks_def)
  show "R s s' \<Longrightarrow> tracks R s (ledger_wait_for_cancel B uid h s')" "R s s' \<Longrightarrow> tracks R s (ledger_wait_finished B uid h s')"
    unfolding ledger_wait_for_cancel_def ledger_wait_finished_def by (intro tracks_intros reader_tracks loop; assumption)+
qed

lemma follow_R:
  assumes "ledger_follow B uid h after s = Some (seen, r, s')" shows "R s s'"
proof (cases "resolve_handle_generation B uid h s")
  case (Some y)
  obtain x s1 where y: "y = (x, s1)" by fastforce
  have "R s s1" using reader_tracks(5) [OF R_refl, of s uid h] Some y by (simp add: tracks_R)
  then show ?thesis
    using assms Some y follow_loop_R transpD [OF R_trans] by (fastforce simp: ledger_follow_def split: sum.splits)
qed (use assms in \<open>simp add: ledger_follow_def\<close>)

end

section \<open>Operations that return\<close>

text \<open>A computation that ends, in a state that satisfies \<open>P\<close>.\<close>

named_theorems returns_intros \<open>how each way of sequencing calls keeps returning\<close>

definition returns :: "('s \<Rightarrow> bool) \<Rightarrow> ('e, 's, 'a) outcome option \<Rightarrow> bool" where
  "returns P r \<longleftrightarrow> (\<exists>x s'. r = Some (x, s') \<and> P s')"

lemma returns_Some [returns_intros]: "P s \<Longrightarrow> returns P (Some (x, s))"
  by (simp add: returns_def)

lemma returns_and_thenO [returns_intros]:
  "returns P r \<Longrightarrow> (\<And>a s. P s \<Longrightarrow> returns P (k a s)) \<Longrightarrow> returns P (and_thenO r k)"
  by (auto simp: returns_def and_thenO_def split: option.split sum.split)

lemma returns_checkO [returns_intros]: "P s \<Longrightarrow> (\<And>a. returns P (k a)) \<Longrightarrow> returns P (checkO r s k)"
  by (cases r) (auto simp: returns_def)

lemma returns_check [returns_intros]: "P s \<Longrightarrow> (\<And>a. returns P (Some (k a))) \<Longrightarrow> returns P (Some (check r s k))"
  by (cases r) (auto simp: returns_def)

lemma returns_and_then [returns_intros]:
  "returns P (Some r) \<Longrightarrow> (\<And>a s. P s \<Longrightarrow> returns P (Some (k a s))) \<Longrightarrow> returns P (Some (and_then r k))"
  by (cases r; cases "fst r") (auto simp: returns_def)

lemma returns_if [returns_intros]: "returns P a \<Longrightarrow> returns P b \<Longrightarrow> returns P (if c then a else b)"
  by simp

lemma returns_option [returns_intros]:
  "returns P a \<Longrightarrow> (\<And>y. returns P (f y)) \<Longrightarrow> returns P (case x of None \<Rightarrow> a | Some y \<Rightarrow> f y)"
  by (cases x) auto

lemma returns_prod [returns_intros]: "(\<And>a b. returns P (f a b)) \<Longrightarrow> returns P (case x of (a, b) \<Rightarrow> f a b)"
  by (cases x) auto

text \<open>A backend whose purge calls make progress: every incomplete batch leaves fewer records to remove.\<close>

locale purging_backend = borrowed_backend B R
  for B :: "'s backend_ops" and R :: "'s \<Rightarrow> 's \<Rightarrow> bool" +
  fixes inv :: "'s \<Rightarrow> bool" and pending :: "generation_purge \<Rightarrow> 's \<Rightarrow> nat"
  assumes R_inv: "inv s \<Longrightarrow> R s s' \<Longrightarrow> inv s'"
    and purge_progress: "inv s \<Longrightarrow> 1 \<le> gp_maximum_records p \<Longrightarrow> bk_purge B p s = (Inr progress, s') \<Longrightarrow>
      \<not> pp_complete progress \<Longrightarrow> pending p s' < pending p s"
begin

lemma purge_loop_returns: "inv s \<Longrightarrow> 1 \<le> gp_maximum_records p \<Longrightarrow> returns inv (purge_loop B p s)"
proof (induction s rule: measure_induct_rule [where f = "pending p"])
  case (less s)
  obtain x s1 where x: "bk_purge B p s = (x, s1)" by fastforce
  have "inv s1" using R_inv [OF less.prems(1)] purge_R [of s p] x by simp
  then show ?case
    using less.IH [of s1] less.prems(2) purge_progress [OF less.prems] x
    by (subst purge_loop.simps) (auto split: sum.split intro: returns_Some)
qed

lemma op_returns:
  "inv s \<Longrightarrow> framework_transition t \<Longrightarrow> returns inv (Some (bk_commit B t s))"
  "inv s \<Longrightarrow> returns inv (Some (bk_load B q s))"
  "inv s \<Longrightarrow> returns inv (Some (bk_read B m s))"
  using R_inv [OF _ commit_R [of t s]] R_inv [OF _ load_R [of s q]] R_inv [OF _ read_R [of s m]]
  by (simp_all add: returns_def) (metis prod.collapse)+

lemma cleanup_returns: "inv s \<Longrightarrow> returns inv (cleanup_generation B uid c i reason s)"
  unfolding cleanup_generation_def
  by (intro returns_intros op_returns purge_loop_returns)
     (simp_all add: framework_transition_def cleanup_begin_def cleanup_finish_def default_transition_def)

lemma load_current_returns: "inv s \<Longrightarrow> returns inv (load_current_state B uid c i inc s)"
  unfolding load_current_state_def Let_def by (intro returns_intros op_returns cleanup_returns)

lemma delete_stream_returns: "inv s \<Longrightarrow> returns inv (ledger_delete_stream B uid c i s)"
  unfolding ledger_delete_stream_def by (intro returns_intros cleanup_returns load_current_returns)

lemma prepare_returns: "inv s \<Longrightarrow> returns inv (ledger_prepare B uid c i codec after cancellable recoverable s)"
  unfolding ledger_prepare_def
  by (intro returns_intros op_returns load_current_returns) (simp_all add: framework_transition_def default_transition_def)

lemma publish_returns: "inv s \<Longrightarrow> returns inv (ledger_publish B uid c i mid codec payload s)"
  unfolding ledger_publish_def Let_def
  by (intro returns_intros op_returns load_current_returns) (simp_all add: framework_transition_def default_transition_def)

lemma reader_returns:
  "inv s \<Longrightarrow> returns inv (ledger_latest_seq B uid c i s)"
  "inv s \<Longrightarrow> returns inv (ledger_get_run_status B uid c i s)"
  "inv s \<Longrightarrow> returns inv (ledger_read B uid c i after limit s)"
  "inv s \<Longrightarrow> returns inv (ledger_bind_follow B uid c i after s)"
  unfolding ledger_latest_seq_def ledger_get_run_status_def ledger_read_def ledger_bind_follow_def
  by (intro returns_intros op_returns load_current_returns; simp add: framework_transition_def default_transition_def)+

end

section \<open>The in-memory backend meets the contracts\<close>

lemma readable_state_step:
  assumes mb: "readable_state thread_key now c i g mb = (r, mb')"
  shows "mb' = mb \<or> mb' = mb_expire now c (thread_key i) mb"
  using mb by (auto simp: readable_state_def mb_expire_def mb_channel_def Let_def split: option.splits prod.splits if_splits)

lemma expire_run: "mb' = mb \<or> mb' = mb_expire now c k mb \<Longrightarrow> (mb_step sha thread_key)\<^sup>*\<^sup>* mb mb'"
  using mb_step.expire by (metis r_into_rtranclp rtranclp.rtrancl_refl)

lemma read_step:
  assumes "mb_read_committed_messages thread_key now q mb = (r, mb')"
  shows "mb' = mb \<or> mb' = mb_expire now (mq_channel q) (thread_key (mq_identity q)) mb"
proof -
  obtain x mb1 where x: "readable_state thread_key now (mq_channel q) (mq_identity q) (mq_generation q) mb = (x, mb1)" by fastforce
  show ?thesis
    using assms readable_state_step [OF x] x
    by (cases x) (auto simp: mb_read_committed_messages_def check_def require_def Let_def split: if_splits sum.splits)
qed

lemma wait_change_step:
  assumes "mb_wait_for_messaging_change thread_key now w mb = (r, mb')"
  shows "mb' = mb \<or> mb' = mb_expire now (w_channel w) (thread_key (w_identity w)) mb"
proof -
  obtain x mb1 where x: "readable_state thread_key now (w_channel w) (w_identity w) (w_generation w) mb = (x, mb1)" by fastforce
  show ?thesis
    using assms readable_state_step [OF x] x by (cases x) (auto simp: mb_wait_for_messaging_change_def)
qed

lemma load_step:
  assumes "mb_load_messaging_state sha thread_key now obs q mb = (r, mb')"
  shows "mb' = mb \<or> mb' = mb_expire now (q_channel q) (thread_key (q_identity q)) mb"
  using assms by (auto simp: mb_load_messaging_state_def check_def Let_def split: option.splits sum.splits)

definition clocked_step :: "(bytes \<Rightarrow> string) \<Rightarrow> (run_identity \<Rightarrow> string) \<Rightarrow> clocked \<Rightarrow> clocked \<Rightarrow> bool" where
  "clocked_step sha thread_key s s' \<longleftrightarrow> (mb_step sha thread_key)\<^sup>*\<^sup>* (snd s) (snd s')"

definition pending_records :: "(run_identity \<Rightarrow> string) \<Rightarrow> generation_purge \<Rightarrow> clocked \<Rightarrow> nat" where
  "pending_records thread_key p = (\<lambda>(clock, mb).
     case dget (c_streams (mb_channel (gp_channel p) mb)) (thread_key (gp_identity p)) of
       None \<Rightarrow> 0 | Some st \<Rightarrow> length (g_messages st) + length (g_runs st))"

interpretation ledger: borrowed_backend "memory_ops sha thread_key" "clocked_step sha thread_key"
proof
  show "clocked_step sha thread_key s s" for s by (simp add: clocked_step_def)
  show "transp (clocked_step sha thread_key)" by (rule transpI) (auto simp: clocked_step_def)
  show "clocked_step sha thread_key s (snd (bk_commit (memory_ops sha thread_key) t s))" if "framework_transition t" for t s
    using commit_run [OF that] by (auto simp: clocked_step_def memory_ops_def split: prod.split)
  show "clocked_step sha thread_key s (snd (bk_load (memory_ops sha thread_key) q s))" for q s
    using expire_run [OF load_step] by (auto simp: clocked_step_def memory_ops_def split: prod.split)
  show "clocked_step sha thread_key s (snd (bk_read (memory_ops sha thread_key) q s))" for q s
    using expire_run [OF read_step] by (auto simp: clocked_step_def memory_ops_def split: prod.split)
  show "clocked_step sha thread_key s (snd (bk_wait (memory_ops sha thread_key) q s))" for q s
    using expire_run [OF wait_change_step] by (auto simp: clocked_step_def memory_ops_def split: prod.split)
  show "clocked_step sha thread_key s (snd (bk_purge (memory_ops sha thread_key) p s))" for p s
    using mb_step.purge by (auto simp: clocked_step_def memory_ops_def split: prod.split sum.split)
qed

text \<open>A purge batch removes records of the sealed generation it names, and nothing else.\<close>

definition sealed_at :: "memory_backend \<Rightarrow> string \<Rightarrow> string \<Rightarrow> int \<Rightarrow> stream_state \<Rightarrow> bool" where
  "sealed_at mb c k g st \<longleftrightarrow> dget (mb_channels mb) c = Some (mb_channel c mb) \<and> dget (c_streams (mb_channel c mb)) k = Some st \<and>
     g_generation st = g \<and> g_disposition st \<noteq> DpActive"

lemma purge_batch:
  assumes mb: "backend_inv mb" and st: "sealed_at mb c (thread_key i) g st" and n: "1 \<le> n"
  obtains st' mb' m where "mb_purge_stream_generation thread_key c i g n mb =
      (Inr (m, g_messages st' = [] \<and> g_runs st' = []), mb')"
    "sealed_at mb' c (thread_key i) g st'" "g_disposition st' = g_disposition st"
    "length (g_messages st') + length (g_runs st') = length (g_messages st) + length (g_runs st) - nat n"
proof -
  let ?ch = "mb_channel c mb" and ?k = "thread_key i"
  have ch: "dget (mb_channels mb) c = Some ?ch" "dget (c_streams ?ch) ?k = Some st" "g_generation st = g" "g_disposition st \<noteq> DpActive"
    using st by (auto simp: sealed_at_def)
  note ci = backend_channel [OF mb ch(1)]
  have inv: "stream_inv st" using channel_stream [OF ci ch(2)] by blast
  have sealed: "g_disposition st \<in> {DpDeleting, DpExpiring}" using inv ch(4) by (auto simp: stream_inv_def phase_ok_def)
  obtain left1 st1 mb1 where p1: "purge_messages (nat n) (st, mb) = (left1, st1, mb1)" using prod_cases3 by blast
  obtain left2 st2 mb2 where p2: "purge_runs left1 (st1, mb1) = (left2, st2, mb2)" using prod_cases3 by blast
  note a = purge_messages_shrinks [OF inv ch(4) p1]
  have "stream_inv st1" "g_disposition st1 \<noteq> DpActive" using a(1) ch(4) by (simp_all add: shrinks_def)
  note b = purge_runs_shrinks [OF this p2]
  have s: "shrinks (st, mb) (st2, mb2)" using a(1) b(1) by (rule shrinks_trans)
  have c: "c_channel ?ch = c" using ci by (simp add: channel_inv_def)
  let ?mb' = "write_back (with_stream ?k st2 ?ch) mb2"
  have ch': "dget (mb_channels ?mb') c = Some (with_stream ?k st2 ?ch)" using s ch(1) c by (simp add: shrinks_def write_back_def dict_simps)
  have "mb_purge_stream_generation thread_key c i g n mb = (Inr (n - int left2, g_messages st2 = [] \<and> g_runs st2 = []), ?mb')"
    using n ch sealed p1 p2 by (auto simp: mb_purge_stream_generation_def)
  moreover have "sealed_at ?mb' c ?k g st2"
  proof -
    have "mb_channel c ?mb' = with_stream ?k st2 ?ch" using ch' by (subst mb_channel_def) simp
    then show ?thesis using ch' s ch(3,4) by (simp add: sealed_at_def shrinks_def dict_simps)
  qed
  moreover have "length (g_messages st2) + length (g_runs st2) = length (g_messages st) + length (g_runs st) - nat n"
    using a(2,3,4) b(3,4) by simp arith
  ultimately show thesis using that s by (simp add: shrinks_def)
qed

lemma purge_elsewhere:
  assumes "mb_purge_stream_generation thread_key c i g n mb = (Inr (m, complete), mb')" "\<And>st. \<not> sealed_at mb c (thread_key i) g st"
  shows "complete \<and> mb' = mb"
  using assms
  by (fastforce simp: mb_purge_stream_generation_def check_def require_def sealed_at_def mb_channel_def split: if_splits option.splits)

lemma memory_purge_progress:
  assumes mb: "backend_inv (snd s)" and n: "1 \<le> gp_maximum_records p"
    and run: "bk_purge (memory_ops sha thread_key) p s = (Inr progress, s')" and more: "\<not> pp_complete progress"
  shows "pending_records thread_key p s' < pending_records thread_key p s"
proof -
  obtain clock mb where s: "s = (clock, mb)" by fastforce
  let ?purge = "mb_purge_stream_generation thread_key (gp_channel p) (gp_identity p) (gp_generation p) (gp_maximum_records p) mb"
  from run s more obtain m mb' where p: "?purge = (Inr (m, False), mb')" "s' = (clock, mb')"
    by (auto simp: memory_ops_def split: prod.splits sum.splits)
  obtain st where st: "sealed_at mb (gp_channel p) (thread_key (gp_identity p)) (gp_generation p) st"
    using purge_elsewhere [OF p(1)] by blast
  have inv: "backend_inv mb" using mb s by simp
  obtain st' where st': "sealed_at mb' (gp_channel p) (thread_key (gp_identity p)) (gp_generation p) st'"
    "length (g_messages st') + length (g_runs st') = length (g_messages st) + length (g_runs st) - nat (gp_maximum_records p)"
    "\<not> (g_messages st' = [] \<and> g_runs st' = [])"
    by (rule purge_batch [where thread_key = thread_key and i = "gp_identity p", OF inv st n]) (use p(1) in auto)
  have "0 < length (g_messages st') + length (g_runs st')" using st'(3) by auto
  then show ?thesis using st st' n s p(2) by (simp add: pending_records_def sealed_at_def)
qed

interpretation cleanup: purging_backend "memory_ops sha thread_key" "clocked_step sha thread_key" "\<lambda>s. backend_inv (snd s)"
  "pending_records thread_key"
  by unfold_locales (auto simp: clocked_step_def dest: memory.run_inv intro: memory_purge_progress)

end
