(* ===== verification/Messaging_Ledger_Props.thy ===== *)
theory Messaging_Ledger_Props
  imports Messaging_Ledger_Correct
begin

text \<open>
  What the ledger promises its callers over the in-memory backend: deleting a stream ends and leaves nothing
  of the generation, and following a finished run yields its whole remaining history and then ends.
\<close>

section \<open>What an effect leaves at its key\<close>

abbreviation stream_at :: "memory_backend \<Rightarrow> string \<Rightarrow> string \<Rightarrow> stream_state option" where
  "stream_at mb c k \<equiv> dget (c_streams (mb_channel c mb)) k"

lemma stream_at_channel: "stream_at mb c k = Some st \<Longrightarrow> dget (mb_channels mb) c = Some (mb_channel c mb)"
  by (auto simp: mb_channel_def new_channel_state_def dict_simps split: option.splits)

lemma not_live: "stream_at mb c k = None \<Longrightarrow> \<not> mb_live mb (c, k) g"
  by (auto simp: mb_live_def mb_channel_def)

lemma apply_at_key:
  assumes "apply_memory_effect now i k ef (ch, mb) = (Inr (), ch', mb')"
  shows "c_channel ch' = c_channel ch \<and>
    (dget (mb_channels mb) (c_channel ch) \<noteq> None \<longrightarrow> dget (mb_channels mb') (c_channel ch) \<noteq> None) \<and>
    dget (c_streams ch') k =
      (case target_state ch k ef of
         None \<Rightarrow> None
       | Some st \<Rightarrow>
           (case effect_capacity ch k ef of (total_bytes, total_records, generation_records) \<Rightarrow>
              if ef_tombstone_reason ef = None
              then Some (applied_state now (mb_retention_policy mb) i ef total_bytes generation_records st) else None))"
proof -
  obtain b n m where cap: "effect_capacity ch k ef = (b, n, m)" using prod_cases3 by blast
  have none: "target_state ch k ef = None \<Longrightarrow> dget (c_streams ch) k = None"
    by (auto simp: target_state_def split: option.splits if_splits)
  show ?thesis
    using assms none unfolding apply_memory_effect_def prod.case cap
    by (cases "target_state ch k ef"; cases "ef_tombstone_reason ef")
       (auto simp: check_Inr_iff Let_def dict_simps retire_memory_generation_def record_tombstone_def split: if_splits option.splits)
qed

lemma transact_at_key:
  assumes mb: "backend_inv mb" and run: "mb_transact sha thread_key now obs t mb = (Inr r, mb')"
  obtains s ef where
    "memory_state_snapshot sha obs mb (mb_channel (tr_channel t) mb) (tr_channel t) (tr_identity t) (thread_key (tr_identity t))
       (selected_generation t) (tr_message_id t) True = Inr s"
    "resolve_messaging_transition sha t s = Inr ef" "r = ef_result ef"
    "target_state (mb_channel (tr_channel t) mb) (thread_key (tr_identity t)) ef = None \<or> ef_tombstone_reason ef \<noteq> None \<Longrightarrow>
       stream_at mb' (tr_channel t) (thread_key (tr_identity t)) = None"
    "\<And>st. target_state (mb_channel (tr_channel t) mb) (thread_key (tr_identity t)) ef = Some st \<Longrightarrow> ef_tombstone_reason ef = None \<Longrightarrow>
       dget (mb_channels mb) (tr_channel t) \<noteq> None \<Longrightarrow>
       \<exists>b m. stream_at mb' (tr_channel t) (thread_key (tr_identity t)) =
         Some (applied_state now (mb_retention_policy mb) (tr_identity t) ef b m st)"
proof -
  let ?c = "tr_channel t" and ?k = "thread_key (tr_identity t)"
  obtain s ef ch mb1 where p: "memory_state_snapshot sha obs mb (mb_channel ?c mb) ?c (tr_identity t) ?k
       (selected_generation t) (tr_message_id t) True = Inr s"
    "resolve_messaging_transition sha t s = Inr ef" "r = ef_result ef"
    "apply_memory_effect now (tr_identity t) ?k ef (mb_channel ?c mb, mb) = (Inr (), ch, mb1)" "mb' = write_back ch mb1"
    using transact_Inr [OF run] by metis
  have c: "c_channel (mb_channel ?c mb) = ?c" using channel_view_inv(1) [OF mb mb_channel_view] .
  note a = apply_at_key [OF p(4), unfolded c]
  have here: "mb_channel ?c mb' = (if dget (mb_channels mb1) ?c = None then new_channel_state ?c else ch)"
    using a p(5) by (auto simp: mb_channel_def write_back_def dict_simps split: option.splits)
  show thesis
    by (rule that [OF p(1-3)]) (use a here in \<open>auto simp: new_channel_state_def dict_simps split: option.splits prod.splits\<close>)
qed

section \<open>Deleting a stream\<close>

lemma expire_at_key: "stream_at (mb_expire now c k mb) c k = None \<or> mb_expire now c k mb = mb" if mb: "backend_inv mb"
proof (cases "stream_at mb c k")
  case None
  then have "mb_expire now c k mb = write_back (mb_channel c mb) mb" by (simp add: mb_expire_def expire_if_due_def)
  then show ?thesis using view_write_back [OF mb mb_channel_view] by simp
next
  case (Some st)
  note ch = stream_at_channel [OF Some]
  have c: "c_channel (mb_channel c mb) = c" by (rule channel_view_inv(1) [OF mb mb_channel_view])
  obtain ch' mb1 where r: "retire_memory_generation k st CrExpired (mb_channel c mb, mb) = (ch', mb1)" by fastforce
  have "c_channel ch' = c" "mb_channels mb1 = mb_channels mb" "dget (c_streams ch') k = None"
    using r c by (auto simp: retire_memory_generation_def record_tombstone_def dict_simps)
  then have "stream_at (write_back ch' mb1) c k = None"
    using ch by (auto simp: write_back_def mb_channel_def new_channel_state_def dict_simps split: option.split)
  moreover have "mb_expire now c k mb = mb \<or> mb_expire now c k mb = write_back ch' mb1"
    using Some r view_write_back [OF mb mb_channel_view [of c]] by (auto simp: mb_expire_def expire_if_due_def split: option.split)
  ultimately show ?thesis by auto
qed

abbreviation expired :: "clocked \<Rightarrow> string \<Rightarrow> string \<Rightarrow> memory_backend" where
  "expired s c k \<equiv> mb_expire (fst s 65) c k (snd s)"

lemma cleanup_commit:
  assumes "tr_kind t \<in> {BeginGenerationCleanup, FinishGenerationCleanup}"
  shows "bk_commit (memory_ops sha thread_key) t s =
    (let (r, mb') = mb_transact sha thread_key (fst s 67) (fst s 66) t (expired s (tr_channel t) (thread_key (tr_identity t)))
     in (r, later 68 (fst s), mb'))"
  using assms by (cases s) (auto simp: memory_ops_def mb_commit_messaging_transition_def and_then_def)

definition sealed_for :: "cleanup_reason \<Rightarrow> disposition" where
  "sealed_for reason = (if reason = CrDeleted then DpDeleting else DpExpiring)"

lemma applied_disposition:
  "g_generation (applied_state now pol i ef b m st) = g_generation st"
  "g_disposition (applied_state now pol i ef b m st) = (case ef_stream ef of None \<Rightarrow> g_disposition st | Some s \<Rightarrow> st_disposition s)"
  by (auto simp: applied_state_def apply_stream_def apply_message_def Let_def split: option.split)

lemma begin_cleanup:
  assumes inv: "backend_inv (snd s)"
    and run: "bk_commit (memory_ops sha thread_key) (cleanup_begin B u c i CrDeleted s0) s = (Inr r, s')"
  shows "(\<not> re_cleanup_required r \<and> stream_at (snd s') c (thread_key i) = None) \<or>
    (\<exists>g reason st. re_cleanup_required r \<and> re_cleanup_generation r = Some g \<and> re_cleanup_reason r = Some reason \<and>
       sealed_at (snd s') c (thread_key i) g st \<and> g_disposition st = sealed_for reason)"
proof -
  let ?t = "cleanup_begin B u c i CrDeleted s0" and ?k = "thread_key i"
  let ?mb = "expired s c ?k"
  have t: "tr_kind ?t = BeginGenerationCleanup" "tr_channel ?t = c" "tr_identity ?t = i" "selected_generation ?t = None"
    "tr_message_id ?t = None" "tr_cleanup_reason ?t = Some CrDeleted"
    by (simp_all add: cleanup_begin_def default_transition_def selected_generation_def)
  have mb: "backend_inv ?mb" using expire_keeps [OF inv] by (simp add: mb_keeps_def)
  obtain mb' where tr: "mb_transact sha thread_key (fst s 67) (fst s 66) ?t ?mb = (Inr r, mb')" "snd s' = mb'"
    using run by (auto simp: cleanup_commit t Let_def split: prod.splits)
  obtain x ef where x: "memory_state_snapshot sha (fst s 66) ?mb (mb_channel c ?mb) c i ?k None None True = Inr x"
    "resolve_messaging_transition sha ?t x = Inr ef" "r = ef_result ef"
    "target_state (mb_channel c ?mb) ?k ef = None \<or> ef_tombstone_reason ef \<noteq> None \<Longrightarrow> stream_at mb' c ?k = None"
    "\<And>st. target_state (mb_channel c ?mb) ?k ef = Some st \<Longrightarrow> ef_tombstone_reason ef = None \<Longrightarrow> dget (mb_channels ?mb) c \<noteq> None \<Longrightarrow>
       \<exists>b m. stream_at mb' c ?k = Some (applied_state (fst s 67) (mb_retention_policy ?mb) i ef b m st)"
    using transact_at_key [OF mb tr(1)] unfolding t by metis
  have res: "resolve_begin_generation_cleanup ?t x = Inr ef" using x(2) by (simp add: resolve_messaging_transition_def bindE_Inr_iff t)
  show ?thesis
  proof (cases "stream_at ?mb c ?k")
    case None
    then have none: "ss_stream x = None" using snapshot_absent(1) [OF x(1)] by (simp add: selected_state_def)
    then have "ef_stream ef = None" "\<not> re_cleanup_required r"
      using res x(3) by (auto simp: resolve_begin_generation_cleanup_def t cleanup_result_def split: if_splits)
    then show ?thesis using None x(4) tr(2) by (simp add: target_state_def)
  next
    case (Some st)
    have st: "stream_inv st" using channel_stream [OF backend_channel [OF mb stream_at_channel [OF Some]] Some] by blast
    have ss: "ss_stream x = Some (stored_memory_stream c i st)"
      using x(1) Some by (auto simp: memory_state_snapshot_def selected_state_def Let_def matching_evidence_def)
    have d: "g_disposition st \<in> {DpActive, DpDeleting, DpExpiring}" using st by (simp add: stream_inv_def phase_ok_def)
    let ?sealed = "\<lambda>reason. re_cleanup_reason r = Some reason \<and>
      (if g_disposition st = DpActive then \<exists>s. ef_stream ef = Some s \<and> st_generation s = g_generation st \<and> st_disposition s = sealed_for reason
       else ef_stream ef = None \<and> g_disposition st = sealed_for reason)"
    have e: "ef_tombstone_reason ef = None \<and> re_cleanup_required r \<and> re_cleanup_generation r = Some (g_generation st) \<and> (\<exists>reason. ?sealed reason)"
    proof (cases "g_disposition st = DpActive")
      case True
      then have "\<exists>lost. ef = sealed_effect ?t (stored_memory_stream c i st) CrDeleted lost"
        using res by (auto simp: resolve_begin_generation_cleanup_def t ss bindE_Inr_iff)
      then show ?thesis using True x(3) by (auto simp: sealed_effect_def cleanup_result_def sealed_for_def)
    next
      case False
      then have "ef = effect_of (cleanup_result ?t (Some (g_generation st)) (Some (if g_disposition st = DpDeleting then CrDeleted else CrExpired)) True)"
        using res d by (auto simp: resolve_begin_generation_cleanup_def t ss)
      then show ?thesis using False d x(3) by (auto simp: cleanup_result_def sealed_for_def)
    qed
    then have target: "target_state (mb_channel c ?mb) ?k ef = Some st"
      using Some by (auto simp: target_state_def split: if_splits)
    obtain b m where at: "stream_at mb' c ?k = Some (applied_state (fst s 67) (mb_retention_policy ?mb) i ef b m st)"
      using x(5) [OF target] e stream_at_channel [OF Some] by auto
    obtain reason where reason: "re_cleanup_reason r = Some reason"
      "(case ef_stream ef of None \<Rightarrow> g_disposition st | Some s \<Rightarrow> st_disposition s) = sealed_for reason"
      using e by (auto split: if_splits)
    let ?st' = "applied_state (fst s 67) (mb_retention_policy ?mb) i ef b m st"
    have "g_generation ?st' = g_generation st" "g_disposition ?st' = sealed_for reason"
      using reason(2) by (simp_all add: applied_disposition)
    moreover have "sealed_for reason \<noteq> DpActive" by (simp add: sealed_for_def)
    ultimately have "sealed_at mb' c ?k (g_generation st) ?st'" "g_disposition ?st' = sealed_for reason"
      using at stream_at_channel [OF at] by (simp_all add: sealed_at_def)
    then show ?thesis using e tr(2) reason(1) by blast
  qed
qed

lemma finish_cleanup:
  assumes inv: "backend_inv (snd s)" and st: "sealed_at (snd s) c (thread_key i) g st" "g_disposition st = sealed_for reason"
    and run: "bk_commit (memory_ops sha thread_key) (cleanup_finish B u c i g reason token s0) s = (Inr r, s')"
  shows "stream_at (snd s') c (thread_key i) = None"
proof -
  let ?t = "cleanup_finish B u c i g reason token s0" and ?k = "thread_key i"
  let ?mb = "expired s c ?k"
  have t: "tr_kind ?t = FinishGenerationCleanup" "tr_channel ?t = c" "tr_identity ?t = i" "selected_generation ?t = Some g"
    "tr_message_id ?t = None" "tr_cleanup_reason ?t = Some reason" "tr_cleanup_generation ?t = Some g"
    by (simp_all add: cleanup_finish_def default_transition_def selected_generation_def)
  have mb: "backend_inv ?mb" using expire_keeps [OF inv] by (simp add: mb_keeps_def)
  obtain mb' where tr: "mb_transact sha thread_key (fst s 67) (fst s 66) ?t ?mb = (Inr r, mb')" "snd s' = mb'"
    using run by (auto simp: cleanup_commit t Let_def split: prod.splits)
  obtain x ef where x: "memory_state_snapshot sha (fst s 66) ?mb (mb_channel c ?mb) c i ?k (Some g) None True = Inr x"
    "resolve_messaging_transition sha ?t x = Inr ef"
    "target_state (mb_channel c ?mb) ?k ef = None \<or> ef_tombstone_reason ef \<noteq> None \<Longrightarrow> stream_at mb' c ?k = None"
    using transact_at_key [OF mb tr(1)] unfolding t by metis
  have res: "resolve_finish_generation_cleanup ?t x = Inr ef" using x(2) by (simp add: resolve_messaging_transition_def bindE_Inr_iff t)
  consider "stream_at ?mb c ?k = None" | "?mb = snd s" using expire_at_key [OF inv, where now = "fst s 65" and c = c and k = ?k] by (rule disjE)
  then have "target_state (mb_channel c ?mb) ?k ef = None \<or> ef_tombstone_reason ef \<noteq> None"
  proof cases
    case 1
    then have "ss_stream x = None" using snapshot_absent(1) [OF x(1)] by (simp add: selected_state_def)
    then have "ef_stream ef = None" using res by (auto simp: resolve_finish_generation_cleanup_def t split: if_splits)
    then show ?thesis using 1 by (simp add: target_state_def)
  next
    case 2
    have "stream_at ?mb c ?k = Some st" "g_generation st = g" using st(1) by (simp_all add: 2 sealed_at_def)
    then have "ss_stream x = Some (stored_memory_stream c i st)"
      using x(1) by (auto simp: memory_state_snapshot_def selected_state_def Let_def matching_evidence_def)
    then show ?thesis
      using res st(2) \<open>g_generation st = g\<close>
      by (auto simp: resolve_finish_generation_cleanup_def t sealed_for_def reason_disposition_def split: if_splits cleanup_reason.splits)
  qed
  then show ?thesis using x(3) tr(2) by simp
qed

lemma purge_loop_sealed:
  assumes "backend_inv mb" "sealed_at mb c (thread_key i) g st" "1 \<le> n"
  shows "\<exists>mb' st'. purge_loop (memory_ops sha thread_key) \<lparr>gp_channel = c, gp_identity = i, gp_generation = g, gp_maximum_records = n,
      gp_cleanup_token = token\<rparr> (clock, mb) = Some (Inr (), clock, mb') \<and> backend_inv mb' \<and>
    sealed_at mb' c (thread_key i) g st' \<and> g_disposition st' = g_disposition st"
  using assms
proof (induction "length (g_messages st) + length (g_runs st)" arbitrary: mb st rule: less_induct)
  case less
  obtain st' mb' m where p: "mb_purge_stream_generation thread_key c i g n mb = (Inr (m, g_messages st' = [] \<and> g_runs st' = []), mb')"
    "sealed_at mb' c (thread_key i) g st'" "g_disposition st' = g_disposition st"
    "length (g_messages st') + length (g_runs st') = length (g_messages st) + length (g_runs st) - nat n"
    by (rule purge_batch [where thread_key = thread_key and i = i, OF less.prems])
  have inv: "backend_inv mb'" using purge_keeps [OF less.prems(1) p(1)] by (simp add: mb_keeps_def)
  show ?case
  proof (cases "g_messages st' = [] \<and> g_runs st' = []")
    case True
    then show ?thesis using p inv by (subst purge_loop.simps) (auto simp: memory_ops_def)
  next
    case False
    then have "0 < length (g_messages st') + length (g_runs st')" by auto
    then have "length (g_messages st') + length (g_runs st') < length (g_messages st) + length (g_runs st)"
      using p(4) less.prems(3) by linarith
    note ih = less.hyps [OF this inv p(2) less.prems(3)]
    show ?thesis using ih False p(1,3) by (subst purge_loop.simps) (auto simp: memory_ops_def)
  qed
qed

lemma cleanup_removes:
  assumes inv: "backend_inv (snd s)" and run: "cleanup_generation (memory_ops sha thread_key) uid c i CrDeleted s = Some (Inr (), s')"
  shows "stream_at (snd s') c (thread_key i) = None"
proof -
  let ?B = "memory_ops sha thread_key"
  obtain x s1 where x: "bk_commit ?B (cleanup_begin ?B (uid 0) c i CrDeleted s) s = (x, s1)" by fastforce
  have R: "clocked_step sha thread_key s s1"
    using ledger.commit_R [of "cleanup_begin ?B (uid 0) c i CrDeleted s" sha thread_key s] x
    by (simp add: framework_transition_def cleanup_begin_def default_transition_def)
  obtain begun where b: "x = Inr begun" using run x by (cases x) (auto simp: cleanup_generation_def)
  have inv1: "backend_inv (snd s1)" using R inv memory.run_inv by (auto simp: clocked_step_def)
  from begin_cleanup [OF inv x [unfolded b]] show ?thesis
  proof (elim disjE exE conjE)
    assume "\<not> re_cleanup_required begun" "stream_at (snd s1) c (thread_key i) = None"
    then show ?thesis using run x b by (simp add: cleanup_generation_def)
  next
    fix g reason st
    assume r: "re_cleanup_required begun" "re_cleanup_generation begun = Some g" "re_cleanup_reason begun = Some reason"
      and st: "sealed_at (snd s1) c (thread_key i) g st" "g_disposition st = sealed_for reason"
    obtain mb2 st2 where p: "purge_loop ?B \<lparr>gp_channel = c, gp_identity = i, gp_generation = g, gp_maximum_records = 64,
        gp_cleanup_token = re_cleanup_token begun\<rparr> (fst s1, snd s1) = Some (Inr (), fst s1, mb2)" "backend_inv mb2"
      "sealed_at mb2 c (thread_key i) g st2" "g_disposition st2 = g_disposition st"
      using purge_loop_sealed [where thread_key = thread_key and i = i and n = 64 and sha = sha and token = "re_cleanup_token begun" and clock = "fst s1", OF inv1 st(1)]
      by auto
    obtain y s3 where y: "bk_commit ?B (cleanup_finish ?B (uid 1) c i g reason (re_cleanup_token begun) (fst s1, mb2)) (fst s1, mb2) = (y, s3)"
      by fastforce
    then obtain r' where "y = Inr r'" "s' = s3"
      using run x b r p(1) by (cases y) (auto simp: cleanup_generation_def)
    then show ?thesis using finish_cleanup [of "(fst s1, mb2)" c thread_key i g st2 reason] p(2-4) st(2) y by (cases s3) auto
  qed
qed

lemma load_current_none:
  assumes inv: "backend_inv (snd s)" and run: "load_current_state (memory_ops sha thread_key) uid c i inc s = Some (Inr state, s')"
    and none: "ss_stream state = None"
  shows "stream_at (snd s') c (thread_key i) = None"
proof -
  let ?q = "\<lparr>q_channel = c, q_identity = i, q_generation = None, q_message_id = None, q_include_active_run = inc\<rparr>"
  obtain s0 where s0: "bk_load (memory_ops sha thread_key) ?q s0 = (Inr state, s')"
    using run by (auto simp: load_current_state_def and_thenO_def Let_def split: option.splits sum.splits if_splits prod.splits)
  have "mb_load_messaging_state sha thread_key (fst s0 0) (fst s0 1) ?q (snd s0) = (Inr state, snd s')"
    using s0 by (cases s0) (auto simp: memory_ops_def split: prod.split_asm)
  then show ?thesis
    using none
    by (auto simp: mb_load_messaging_state_def check_Inr_iff Let_def memory_state_snapshot_def selected_state_def bindE_Inr_iff
      matching_evidence_def mb_channel_def new_channel_state_def dict_simps split: option.splits)
qed

section \<open>The ledger\<close>

text \<open>C24: deleting a stream always returns, from every state of the backend and whatever its clock reads: the purge
  of the sealed generation cannot go on for ever. When it returns without an error, no generation of the
  thread is live, and all it did to the backend is a run of the backend's own steps.\<close>

theorem delete_stream_terminates:
  assumes "mb_init mb0" "(mb_step sha thread_key)\<^sup>*\<^sup>* mb0 mb"
  shows "\<exists>r clock' mb'. ledger_delete_stream (memory_ops sha thread_key) uid c i (clock, mb) = Some (r, clock', mb') \<and>
    (mb_step sha thread_key)\<^sup>*\<^sup>* mb mb' \<and> (r = Inr () \<longrightarrow> (\<forall>g. \<not> mb_live mb' (c, thread_key i) g))"
proof -
  let ?B = "memory_ops sha thread_key"
  have inv: "backend_inv (snd (clock, mb))" using memory.reachable_inv [OF assms] by simp
  obtain r clock' mb' where run: "ledger_delete_stream ?B uid c i (clock, mb) = Some (r, clock', mb')"
    using cleanup.delete_stream_returns [OF inv] by (fastforce simp: returns_def)
  have "clocked_step sha thread_key (clock, mb) (clock', mb')"
    using ledger.delete_stream_tracks [OF ledger.R_refl, of sha thread_key "(clock, mb)" uid c i] run by (simp add: tracks_def)
  moreover have "stream_at mb' c (thread_key i) = None" if r: "r = Inr ()"
  proof -
    obtain state s1 where s1: "load_current_state ?B uid c i True (clock, mb) = Some (Inr state, s1)"
      "(if ss_stream state = None then Some (Inr (), s1)
        else cleanup_generation ?B (\<lambda>n. uid (n + 2)) c i CrDeleted s1) = Some (Inr (), clock', mb')"
      using run r by (auto simp: ledger_delete_stream_def checkO_def and_thenO_def split: sum.splits option.splits)
    have "backend_inv (snd s1)"
      using cleanup.load_current_returns [OF inv, of sha thread_key uid c i True] s1(1) by (simp add: returns_def)
    then show ?thesis
      using load_current_none [OF inv s1(1)] cleanup_removes [of s1 sha thread_key _ c i "(clock', mb')"] s1(2) by (auto split: if_splits)
  qed
  ultimately show ?thesis using run not_live by (auto simp: clocked_step_def)
qed

lemmas loop_code [code] = purge_loop.simps follow_loop.simps wait_loop.simps

theorem delete_stream_terminates_witness:
  "\<exists>clock' mb'. ledger_delete_stream (memory_ops md_sha i_thread_id) (\<lambda>_. ''id'') ''c'' md_identity (\<lambda>_. 3, md3) = Some (Inr (), clock', mb') \<and>
     mb_live md3 (''c'', ''t'') 1 \<and> \<not> mb_live mb' (''c'', ''t'') 1"
proof -
  have "map_option fst (ledger_delete_stream (memory_ops md_sha i_thread_id) (\<lambda>_. ''id'') ''c'' md_identity (\<lambda>_. 3, md3)) = Some (Inr ())"
    by code_simp
  moreover have "g_generation (md_stream md3) = 1" by code_simp
  then have "mb_live md3 (''c'', ''t'') 1" using md_values(3,4) unfolding mb_live_def by blast
  moreover have "i_thread_id md_identity = ''t''" by code_simp
  ultimately show ?thesis
    using delete_stream_terminates [OF md_init md_runs(3), of "\<lambda>_. ''id''" "''c''" md_identity "\<lambda>_. 3"] by auto
qed

section \<open>Following a finished run\<close>

text \<open>What a page of at most 1000 messages between two cursors holds, and the cursor it ends at.\<close>

definition follow_page :: "stream_state \<Rightarrow> int \<Rightarrow> int \<Rightarrow> message_envelope list" where
  "follow_page st a b = drop (nat a) (take (nat b) (g_messages st))"

lemma follow_page_split:
  assumes "0 \<le> a" "a \<le> b" "b \<le> c" shows "follow_page st a b @ follow_page st b c = follow_page st a c"
proof -
  have "drop (nat a) (take (nat c) xs) = drop (nat a) (take (nat b) xs) @ drop (nat b) (take (nat c) xs)" if "nat b \<le> length xs"
    for xs :: "message_envelope list"
  proof -
    have "take (nat c) xs = take (nat b) xs @ drop (nat b) (take (nat c) xs)"
      using assms by (metis append_take_drop_id min.absorb1 nat_mono take_take)
    then show ?thesis using assms that by (metis append_take_drop_id drop_append drop_eq_Nil diff_is_0_eq' drop0 length_take min.absorb2 nat_mono)
  qed
  moreover have "drop (nat b) (take (nat c) xs) = []" "take (nat c) xs = take (nat b) xs" if "\<not> nat b \<le> length xs"
    for xs :: "message_envelope list"
    using that assms by auto
  ultimately show ?thesis unfolding follow_page_def by (cases "nat b \<le> length (g_messages st)") auto
qed

lemma follow_page_last:
  assumes "stream_inv st" "0 \<le> a" "a < b" "b \<le> int (length (g_messages st))"
  shows "follow_page st a b \<noteq> []" "e_seq (last (follow_page st a b)) = b"
proof -
  have len: "nat a < nat b" "nat b \<le> length (g_messages st)" using assms by auto
  then show ne: "follow_page st a b \<noteq> []" by (simp add: follow_page_def) arith
  have "last (follow_page st a b) = g_messages st ! (nat b - 1)"
    using len ne by (simp add: follow_page_def last_conv_nth)
  moreover have "nat b - 1 < length (g_messages st)" using len by linarith
  then have "e_seq (g_messages st ! (nat b - 1)) = int (nat b - 1) + 1"
    using assms(1) unfolding stream_inv_def log_ok_def by blast
  ultimately show "e_seq (last (follow_page st a b)) = b" using len by simp
qed

text \<open>The state a reader sees: the live generation of the handle, not yet past its deadline at any reading.\<close>

definition readable_for :: "(run_identity \<Rightarrow> string) \<Rightarrow> (nat \<Rightarrow> time) \<Rightarrow> memory_backend \<Rightarrow> run_handle \<Rightarrow> stream_state \<Rightarrow> bool" where
  "readable_for thread_key clock mb h st \<longleftrightarrow>
     dget (mb_channels mb) (bh_channel h) = Some (mb_channel (bh_channel h) mb) \<and>
     stream_at mb (bh_channel h) (thread_key (bh_identity h)) = Some st \<and>
     g_disposition st = DpActive \<and> bh_generation h = Some (g_generation st) \<and>
     (\<forall>n deadline. g_expires_at st = Some deadline \<longrightarrow> clock n < deadline)"

lemma readable_later: "readable_for thread_key clock mb h st \<Longrightarrow> readable_for thread_key (later n clock) mb h st"
  by (auto simp: readable_for_def later_def)

lemma readable_read:
  assumes mb: "backend_inv mb" and h: "readable_for thread_key clock mb h st"
  shows "readable_state thread_key (clock 0) (bh_channel h) (bh_identity h) (g_generation st) mb = (Inr st, mb)"
proof -
  have "expire_if_due (clock 0) (thread_key (bh_identity h)) (mb_channel (bh_channel h) mb, mb) = (Some st, mb_channel (bh_channel h) mb, mb)"
    using h by (auto simp: readable_for_def expire_if_due_def split: option.split)
  then show ?thesis
    using h view_write_back [OF mb mb_channel_view] by (simp add: readable_state_def Let_def readable_for_def)
qed

lemma follow_turn_final:
  assumes mb: "backend_inv mb" and h: "readable_for thread_key clock mb h st"
    and r: "dget (g_runs st) (i_run_id (bh_identity h)) = Some r" "is_final_run_status (m_status r)"
    and cursor: "0 \<le> cursor" "cursor \<le> int (length (g_messages st))"
  defines "stop \<equiv> max cursor (min (m_end_seq r) (cursor + 1000))"
  shows "follow_turn (memory_ops sha thread_key) u h (g_generation st) cursor (clock, mb) =
    (follow_page st cursor stop,
     if m_end_seq r \<le> stop
     then Inl (if is_failed_run_status (m_status r)
               then Inl (RunProducerFailed (bh_identity h) (run_failure (stored_memory_run r (g_generation st)))) else Inr (Ready ()),
               later 1 clock, mb)
     else Inr (stop, later 1 clock, mb))"
proof -
  have at: "stream_at mb (bh_channel h) (thread_key (bh_identity h)) = Some st" "g_disposition st = DpActive"
    "dget (mb_channels mb) (bh_channel h) = Some (mb_channel (bh_channel h) mb)" using h by (auto simp: readable_for_def)
  have inv: "stream_inv st" using channel_stream [OF backend_channel [OF mb at(3)] at(1)] by blast
  have fin: "0 \<le> m_end_seq r" "m_end_seq r \<le> int (length (g_messages st))"
    using inv r(1) at(2) by (auto simp: stream_inv_def runs_ok_def)
  let ?q = "follow_query h (g_generation st) cursor"
  have page: "py_slice (g_messages st) cursor (page_end ?q st) = follow_page st cursor stop"
  proof -
    have "page_end ?q st = min (m_end_seq r) (cursor + 1000)"
      using fin r by (simp add: page_end_def follow_query_def)
    moreover have "nat (min (m_end_seq r) (cursor + 1000) - cursor) + nat cursor = nat stop" using cursor by (simp add: stop_def)
    ultimately show ?thesis using fin cursor by (simp add: py_slice_def follow_page_def take_drop)
  qed
  have read: "bk_read (memory_ops sha thread_key) ?q (clock, mb) =
      (Inr \<lparr>pg_generation = g_generation st, pg_latest_sequence = int (length (g_messages st)), pg_messages = follow_page st cursor stop,
        pg_change_cursor = \<lparr>cu_message_sequence = int (length (g_messages st)), cu_control_sequence = g_control_sequence st\<rparr>,
        pg_run_state = Some (stored_memory_run r (g_generation st))\<rparr>, later 1 clock, mb)"
    using cursor r(1) readable_read [OF mb h] page
    by (simp add: memory_ops_def mb_read_committed_messages_def follow_query_def Let_def and_then_def)
  have last: "(if follow_page st cursor stop = [] then cursor else e_seq (last (follow_page st cursor stop))) = stop"
  proof (cases "cursor < stop")
    case True
    then show ?thesis using follow_page_last [OF inv cursor(1), of stop] fin by (simp add: stop_def)
  next
    case False
    then show ?thesis by (auto simp: follow_page_def stop_def max_def)
  qed
  show ?thesis
    unfolding follow_turn_def read prod.case sum.case message_page.select_convs option.case Let_def last
    using r(2) fin by (auto simp: stored_memory_run_def)
qed

lemma follow_loop_final:
  assumes mb: "backend_inv mb" and h: "readable_for thread_key clock mb h st"
    and r: "dget (g_runs st) (i_run_id (bh_identity h)) = Some r" "is_final_run_status (m_status r)"
    and cursor: "0 \<le> cursor" "cursor \<le> int (length (g_messages st))"
  shows "\<exists>clock'. follow_loop (memory_ops sha thread_key) uid h (g_generation st) n cursor seen (clock, mb) =
    Some (seen @ follow_page st cursor (m_end_seq r),
      if is_failed_run_status (m_status r)
      then Inl (RunProducerFailed (bh_identity h) (run_failure (stored_memory_run r (g_generation st)))) else Inr (Ready ()),
      clock', mb)"
  using h cursor
proof (induction "nat (m_end_seq r - cursor)" arbitrary: cursor seen n clock rule: less_induct)
  case less
  have at: "stream_at mb (bh_channel h) (thread_key (bh_identity h)) = Some st" "g_disposition st = DpActive"
    "dget (mb_channels mb) (bh_channel h) = Some (mb_channel (bh_channel h) mb)" using h by (auto simp: readable_for_def)
  have "stream_inv st" using channel_stream [OF backend_channel [OF mb at(3)] at(1)] by blast
  then have fin: "m_end_seq r \<le> int (length (g_messages st))" using r(1) at(2) by (auto simp: stream_inv_def runs_ok_def)
  define stop where "stop = max cursor (min (m_end_seq r) (cursor + 1000))"
  note turn = follow_turn_final [OF mb less.prems(1) r less.prems(2,3), of sha "uid n", folded stop_def]
  show ?case
  proof (cases "m_end_seq r \<le> stop")
    case True
    then have "follow_page st cursor stop = follow_page st cursor (m_end_seq r)"
      using less.prems(2) by (auto simp: follow_page_def stop_def max_def min_def)
    then show ?thesis using turn True by (subst follow_loop.simps) simp
  next
    case False
    then have stop: "cursor < stop" "stop < m_end_seq r" by (auto simp: stop_def)
    have "\<exists>clock'. follow_loop (memory_ops sha thread_key) uid h (g_generation st) (Suc n) stop (seen @ follow_page st cursor stop) (later 1 clock, mb) =
      Some ((seen @ follow_page st cursor stop) @ follow_page st stop (m_end_seq r),
        if is_failed_run_status (m_status r)
        then Inl (RunProducerFailed (bh_identity h) (run_failure (stored_memory_run r (g_generation st)))) else Inr (Ready ()),
        clock', mb)"
      by (rule less.hyps) (use stop less.prems fin readable_later [OF less.prems(1)] in auto)
    moreover have "follow_page st cursor stop @ follow_page st stop (m_end_seq r) = follow_page st cursor (m_end_seq r)"
      by (rule follow_page_split) (use stop less.prems in auto)
    ultimately show ?thesis using turn False by (subst follow_loop.simps) simp
  qed
qed

text \<open>C25: following a finished run ends. From any committed cursor, and as long as the generation is not past its
  deadline, the generator yields exactly the messages after the cursor up to the end of the run, in order
  and each once, and then stops; if the run failed it stops with the failure of the run. The backend is
  left as it was.\<close>

theorem follow_finished_run:
  assumes "mb_init mb0" "(mb_step sha thread_key)\<^sup>*\<^sup>* mb0 mb" "readable_for thread_key clock mb h st"
    and "dget (g_runs st) (i_run_id (bh_identity h)) = Some r" "is_final_run_status (m_status r)"
    and "0 \<le> after" "after \<le> int (length (g_messages st))"
  shows "\<exists>clock'. ledger_follow (memory_ops sha thread_key) uid h after (clock, mb) =
    Some (drop (nat after) (take (nat (m_end_seq r)) (g_messages st)),
      if is_failed_run_status (m_status r)
      then Inl (RunProducerFailed (bh_identity h) (run_failure (stored_memory_run r (g_generation st)))) else Inr (Ready ()),
      clock', mb)"
proof -
  have "resolve_handle_generation (memory_ops sha thread_key) uid h (clock, mb) = Some (Inr (g_generation st), clock, mb)"
    using assms(3) by (simp add: resolve_handle_generation_def readable_for_def)
  then show ?thesis
    using follow_loop_final [OF memory.reachable_inv [OF assms(1,2)] assms(3-7), of sha "\<lambda>n. uid (n + 2)" 0 "[]"]
    by (simp add: ledger_follow_def follow_page_def)
qed

definition md_handle :: run_handle where
  "md_handle = \<lparr>bh_channel = ''c'', bh_identity = md_identity, bh_owner_token = None, bh_fence = None, bh_generation = Some 1\<rparr>"

theorem follow_finished_run_witness:
  "\<exists>clock'. ledger_follow (memory_ops md_sha i_thread_id) (\<lambda>_. ''id'') md_handle 0 (\<lambda>_. 3, md3) = Some ([md_envelope], Inr (Ready ()), clock', md3)"
proof -
  have r: "dget (g_runs (md_stream md3)) (i_run_id (bh_identity md_handle)) = Some (md_run\<lparr>m_owner_token := None, m_status := RsCompleted, m_settling := True\<rparr>)"
    by code_simp
  have h: "readable_for i_thread_id (\<lambda>_. 3) md3 md_handle (md_stream md3)"
  proof -
    have "g_disposition (md_stream md3) = DpActive" "g_generation (md_stream md3) = 1" "g_expires_at (md_stream md3) = Some 8"
      "i_thread_id md_identity = ''t''"
      by code_simp+
    then show ?thesis using md_values(3,4) unfolding readable_for_def md_handle_def by simp
  qed
  have "g_messages (md_stream md3) = [md_envelope]" by code_simp
  then show ?thesis
    using follow_finished_run [OF md_init md_runs(3) h r, of 0 "\<lambda>_. ''id''"]
    by (simp add: md_run_def is_final_run_status_def is_failed_run_status_def)
qed

end
