(* ===== verification/Trace_Base.thy ===== *)
theory Trace_Base
  imports Messaging_Base
begin

text \<open>
  The vocabulary of the Tracing package: failures (\<open>errors.py\<close>), limits (\<open>limits.py\<close>), canonical JSON and
  captured values (\<open>capture.py\<close>, \<open>codec.py\<close>), the semantic facts and events of the ledger (\<open>facts.py\<close>), and the
  keys, checkpoints and scope identifiers shared by the stores (\<open>store.py\<close>, \<open>_ids.py\<close>). A pydantic model is a record
  with a checking constructor. The digest SHA-256 is a parameter.
\<close>

section \<open>Failures and limits\<close>

datatype tracing_error =
    TraceThreadNotFound string
  | TraceRunConflict string
  | TraceStoreProtocolError string
  | TraceQuotaExceeded string string
  | TraceProjectionCheckpointConflict string "int option"
  | TraceCaptureRejected string
  | TraceValueError string
  | TraceTypeError string

abbreviation demand :: "bool \<Rightarrow> string \<Rightarrow> tracing_error + unit" where
  "demand b message \<equiv> require b (TraceValueError message)"

record trace_limits =
  max_event_bytes :: int
  max_thread_events :: int
  max_thread_bytes :: int
  max_tracer_threads :: int
  max_tracer_bytes :: int
  terminal_reserve_events_per_run :: int
  terminal_reserve_bytes_per_run :: int
  follow_batch_size :: int

definition trace_limits_in_range :: "trace_limits \<Rightarrow> bool" where
  "trace_limits_in_range l \<longleftrightarrow>
     1024 \<le> max_event_bytes l \<and> 16 \<le> max_thread_events l \<and> 64 * 1024 \<le> max_thread_bytes l \<and> 1 \<le> max_tracer_threads l \<and>
     64 * 1024 \<le> max_tracer_bytes l \<and> 2 \<le> terminal_reserve_events_per_run l \<and> 1024 \<le> terminal_reserve_bytes_per_run l \<and>
     1 \<le> follow_batch_size l \<and> follow_batch_size l \<le> 10000"

definition mk_trace_limits :: "trace_limits \<Rightarrow> tracing_error + trace_limits" where
  "mk_trace_limits l =
     bindE (demand (trace_limits_in_range l) ''limit out of range'') (\<lambda>_.
     bindE (demand (max_thread_bytes l \<le> max_tracer_bytes l) ''max_thread_bytes must not exceed max_tracer_bytes'') (\<lambda>_.
     bindE (demand (terminal_reserve_bytes_per_run l < max_thread_bytes l)
       ''terminal reserve must be smaller than a thread budget'') (\<lambda>_.
     bindE (demand (terminal_reserve_events_per_run l < max_thread_events l)
       ''terminal event reserve must be smaller than a thread budget'') (\<lambda>_.
     bindE (demand (terminal_reserve_events_per_run l * max_event_bytes l \<le> terminal_reserve_bytes_per_run l)
       ''terminal byte reserve must cover every reserved max-size event'') (\<lambda>_.
     Inr l)))))"

definition default_trace_limits :: trace_limits where
  "default_trace_limits =
     \<lparr>max_event_bytes = 1024 * 1024, max_thread_events = 100000, max_thread_bytes = 256 * 1024 * 1024,
      max_tracer_threads = 10000, max_tracer_bytes = 1024 * 1024 * 1024, terminal_reserve_events_per_run = 4,
      terminal_reserve_bytes_per_run = 4 * 1024 * 1024, follow_batch_size = 256\<rparr>"

section \<open>Canonical JSON\<close>

text \<open>A finite JSON value. A float is held as the text Python prints for it.\<close>

datatype json_value =
    JNull
  | JBool bool
  | JInt int
  | JFloat string
  | JText string
  | JArray "json_value list"
  | JObject "(string \<times> json_value) list"

definition hex_digit :: "nat \<Rightarrow> char" where
  "hex_digit n = (''0123456789abcdef'' ! n)"

definition json_char :: "char \<Rightarrow> string" where
  "json_char c =
     (let n = (of_char c :: nat)
      in if c = CHR 0x22 then [CHR 0x5C, CHR 0x22]
         else if c = CHR 0x5C then [CHR 0x5C, CHR 0x5C]
         else if n = 10 then [CHR 0x5C, CHR ''n'']
         else if n = 13 then [CHR 0x5C, CHR ''r'']
         else if n = 9 then [CHR 0x5C, CHR ''t'']
         else if n = 12 then [CHR 0x5C, CHR ''f'']
         else if n = 8 then [CHR 0x5C, CHR ''b'']
         else if n < 32 then [CHR 0x5C, CHR ''u'', CHR ''0'', CHR ''0'', hex_digit (n div 16), hex_digit (n mod 16)]
         else [c])"

definition json_string :: "string \<Rightarrow> string" where
  "json_string s = [CHR 0x22] @ concat (map json_char s) @ [CHR 0x22]"

fun nat_text :: "nat \<Rightarrow> string" where
  "nat_text n = (if n < 10 then [hex_digit n] else nat_text (n div 10) @ [hex_digit (n mod 10)])"

declare nat_text.simps [simp del]

definition int_text :: "int \<Rightarrow> string" where
  "int_text n = (if n < 0 then ''-'' @ nat_text (nat (- n)) else nat_text (nat n))"

fun joined :: "string \<Rightarrow> string list \<Rightarrow> string" where
  "joined sep [] = []"
| "joined sep [x] = x"
| "joined sep (x # xs) = x @ sep @ joined sep xs"

text \<open>\<open>json.dumps\<close> with sorted keys and no whitespace.\<close>

fun json_text :: "json_value \<Rightarrow> string" where
  "json_text JNull = ''null''"
| "json_text (JBool b) = (if b then ''true'' else ''false'')"
| "json_text (JInt n) = int_text n"
| "json_text (JFloat s) = s"
| "json_text (JText s) = json_string s"
| "json_text (JArray xs) = ''['' @ joined '','' (map json_text xs) @ '']''"
| "json_text (JObject kvs) =
     ''{'' @ joined '','' (map snd (sort_key fst (map (\<lambda>(k, v). (k, json_string k @ '':'' @ json_text v)) kvs))) @ ''}''"

definition json_encode :: "json_value \<Rightarrow> bytes" where
  "json_encode value = encode (json_text value)"

record encoded_payload =
  ep_data :: bytes
  ep_digest :: string

definition codec_encode_json :: "(bytes \<Rightarrow> string) \<Rightarrow> json_value \<Rightarrow> encoded_payload" where
  "codec_encode_json sha256 value = \<lparr>ep_data = json_encode value, ep_digest = sha256 (json_encode value)\<rparr>"

definition codec_digest :: "(bytes \<Rightarrow> string) \<Rightarrow> bytes \<Rightarrow> tracing_error + string" where
  "codec_digest sha256 payload =
     (if payload = [] then Inl (TraceValueError ''payload must not be empty'') else Inr (sha256 payload))"

datatype capture_disposition = Inline | Omitted

record captured_value =
  cv_disposition :: capture_disposition
  cv_safe_size :: int
  cv_value :: json_value
  cv_reason :: "string option"

definition mk_captured_value :: "captured_value \<Rightarrow> tracing_error + captured_value" where
  "mk_captured_value c =
     bindE (demand (0 \<le> cv_safe_size c \<and> (\<forall>r \<in> set_option (cv_reason c). 1 \<le> length r \<and> length r \<le> 1024))
       ''captured value out of range'') (\<lambda>_.
     bindE (demand (cv_disposition c = Omitted \<longrightarrow> cv_value c = JNull) ''omitted capture cannot retain a value'') (\<lambda>_.
     bindE (demand (cv_disposition c = Omitted \<longrightarrow> cv_reason c \<noteq> None) ''omitted capture requires a reason'') (\<lambda>_.
     bindE (demand (cv_disposition c = Inline \<longrightarrow> cv_reason c = None) ''inline capture cannot have an omission reason'') (\<lambda>_.
     bindE (demand (cv_disposition c = Inline \<longrightarrow> cv_safe_size c = int (length (json_encode (cv_value c))))
       ''inline safe_size_bytes must match canonical JSON bytes'') (\<lambda>_.
     Inr c)))))"

section \<open>Identifiers\<close>

record thread_key =
  tk_namespace :: string
  tk_thread_id :: string
  tk_generation :: string

definition canonical :: "string \<Rightarrow> bool" where
  "canonical s \<longleftrightarrow> s = py_strip s"

definition text_within :: "nat \<Rightarrow> string \<Rightarrow> bool" where
  "text_within n s \<longleftrightarrow> s \<noteq> [] \<and> length s \<le> n"

definition mk_thread_key :: "thread_key \<Rightarrow> tracing_error + thread_key" where
  "mk_thread_key k =
     bindE (demand (text_within 128 (tk_namespace k) \<and> text_within 1024 (tk_thread_id k) \<and> text_within 2048 (tk_generation k))
       ''thread key component out of range'') (\<lambda>_.
     bindE (demand (canonical (tk_namespace k) \<and> canonical (tk_thread_id k))
       ''identity values must not contain surrounding whitespace'') (\<lambda>_.
     bindE (demand (canonical (tk_generation k)) ''Trace thread key components must be canonical'') (\<lambda>_.
     Inr k)))"

text \<open>\<open>scope_id\<close>: the kind, 24 digits of the digest of the graph namespace, and the source identifier.\<close>

definition scope_id :: "(bytes \<Rightarrow> string) \<Rightarrow> string \<Rightarrow> string list \<Rightarrow> string \<Rightarrow> string" where
  "scope_id sha256 kind namespace source_id =
     (let scope = take 24 (sha256 (encode (''['' @ joined '','' (map json_string namespace) @ '']'')))
      in kind @ '':'' @ scope @ '':'' @ source_id)"

end
