(* ===== verification/Trace_Facts.thy ===== *)
theory Trace_Facts
  imports Trace_Base
begin

text \<open>
  \<open>facts.py\<close>: the semantic facts of the Trace Ledger, each a record that extends the common base, with the
  checks of its model validator, and the event that wraps a committed x.
\<close>

record fact_base =
  fb_occurred_at :: time
  fb_monotonic_ns :: int
  fb_observation_id :: string
  fb_identity :: run_identity
  fb_graph_namespace :: "string list"
  fb_in_subagent_scope :: bool

section \<open>The facts\<close>

record turn_fact = fact_base +
  tf_turn_id :: string
  tf_user_message_id :: "string option"
  tf_parent_run_id :: "string option"

datatype run_phase = RpStarted | RpInput | RpResumed | RpResumeCheckpointed | RpObserverFailed | RpTerminal | RpClosed

datatype run_input_kind = Ordinary | Branch | Resume | Abandon

datatype run_outcome = RoSucceeded | RoInterrupted | RoFailed | RoCancelled | RoAbandoned

record run_fact = fact_base +
  rf_phase :: run_phase
  rf_input_kind :: "run_input_kind option"
  rf_parent_run_id :: "string option"
  rf_outcome :: "run_outcome option"
  rf_code :: "string option"
  rf_error_type :: "string option"
  rf_observer_name :: "string option"
  rf_interrupt_ids :: "string list"
  rf_input :: "captured_value option"
  rf_config :: "captured_value option"
  rf_failure_origin :: bool

datatype message_phase =
  MpStarted | MpContent | MpCompleted | MpReconciled | MpRemoved | MpCancelled | MpInterrupted | MpAbandoned

datatype message_role = MrUser | MrAssistant | MrTool | MrSystem | MrOther

record message_fact = fact_base +
  mf_phase :: message_phase
  mf_message_id :: string
  mf_source_message_id :: "string option"
  mf_role :: message_role
  mf_content :: "captured_value option"
  mf_fingerprint :: "string option"
  mf_from_state_snapshot :: bool
  mf_name :: "string option"
  mf_tool_call_id :: "string option"

datatype reasoning_phase = SpContent | SpReconciled | SpCompleted

record reasoning_fact = fact_base +
  sf_phase :: reasoning_phase
  sf_reasoning_id :: string
  sf_message_id :: string
  sf_source_message_id :: string
  sf_extractor :: string
  sf_content :: "captured_value option"

datatype tool_phase = TpStarted | TpArguments | TpCompleted | TpResult | TpCancelled | TpAbandoned

datatype result_status = ResultSuccess | ResultError

record tool_fact = fact_base +
  lf_phase :: tool_phase
  lf_tool_call_id :: string
  lf_source_tool_call_id :: string
  lf_parent_call_id :: "string option"
  lf_tool_name :: string
  lf_content :: "captured_value option"
  lf_result_status :: "result_status option"
  lf_failure_origin :: bool

record state_revision_fact = fact_base +
  vf_revision_id :: string
  vf_changes :: captured_value
  vf_removed_keys :: "string list"

datatype interaction_phase = IpOpened | IpResolved

datatype interaction_status = IsPending | IsResolved | IsCancelled

record interaction_fact = fact_base +
  if_phase :: interaction_phase
  if_interaction_id :: string
  if_source_interaction_id :: string
  if_interaction_kind :: string
  if_tool_call_ids :: "string list"
  if_status :: interaction_status
  if_payload :: "captured_value option"

datatype subagent_phase = BpStarted | BpUpdated | BpCompleted

datatype subagent_status = BsRunning | BsWaiting | BsSucceeded | BsFailed | BsCancelled | BsAbandoned

record subagent_fact = fact_base +
  bf_phase :: subagent_phase
  bf_subagent_id :: string
  bf_agent_name :: "string option"
  bf_parent_tool_call_id :: "string option"
  bf_parent_execution_id :: "string option"
  bf_model_call_id :: "string option"
  bf_input :: "captured_value option"
  bf_status :: subagent_status

record plan_revision_fact = fact_base +
  pf_revision_id :: string
  pf_revision :: "int option"
  pf_status :: "string option"
  pf_plan :: captured_value

datatype native_mode = NmUpdates | NmCheckpoints | NmDebug | NmCustom

record native_extra_fact = fact_base +
  nf_mode :: native_mode
  nf_data_type :: string
  nf_top_level_keys :: "string list"

datatype call_phase = CpStarted | CpFirstOutput | CpCompleted | CpFailed | CpCancelled | CpInterrupted | CpAbandoned

record model_call_fact = fact_base +
  cf_phase :: call_phase
  cf_call_id :: string
  cf_parent_call_id :: "string option"
  cf_agent_name :: "string option"
  cf_provider :: "string option"
  cf_model :: "string option"
  cf_context_started_at :: "time option"
  cf_request :: "captured_value option"
  cf_usage :: "captured_value option"
  cf_response_metadata :: "captured_value option"
  cf_system_message_positions :: "int list"
  cf_output_message_ids :: "string list"
  cf_tool_call_ids :: "string list"
  cf_error_type :: "string option"
  cf_error_message :: "captured_value option"
  cf_failure_origin :: bool

datatype work_phase = WpStarted | WpCompleted | WpFailed | WpCancelled | WpInterrupted | WpAbandoned

record tool_execution_fact = fact_base +
  xf_phase :: work_phase
  xf_execution_id :: string
  xf_parent_call_id :: "string option"
  xf_agent_name :: "string option"
  xf_source_tool_call_id :: "string option"
  xf_tool_name :: string
  xf_input :: "captured_value option"
  xf_output :: "captured_value option"
  xf_error_type :: "string option"
  xf_error_message :: "captured_value option"
  xf_failure_origin :: bool

datatype context_kind = CkMemory | CkGuardrail | CkRetrieval | CkCustom

record contribution_fact = fact_base +
  kf_phase :: work_phase
  kf_contribution_id :: string
  kf_parent_call_id :: "string option"
  kf_context_kind :: context_kind
  kf_name :: string
  kf_input :: "captured_value option"
  kf_output :: "captured_value option"
  kf_error_type :: "string option"
  kf_failure_origin :: bool

datatype trace_fact =
    TurnFact turn_fact
  | RunFact run_fact
  | MessageFact message_fact
  | ReasoningFact reasoning_fact
  | ToolFact tool_fact
  | StateRevisionFact state_revision_fact
  | InteractionFact interaction_fact
  | SubagentFact subagent_fact
  | PlanRevisionFact plan_revision_fact
  | NativeExtraFact native_extra_fact
  | CallTrackingFact fact_base
  | ModelCallFact model_call_fact
  | ToolExecutionFact tool_execution_fact
  | ContextContributionFact contribution_fact

definition base_of :: "trace_fact \<Rightarrow> fact_base" where
  "base_of x =
     (case x of
        TurnFact f \<Rightarrow> fact_base.truncate f | RunFact f \<Rightarrow> fact_base.truncate f | MessageFact f \<Rightarrow> fact_base.truncate f
      | ReasoningFact f \<Rightarrow> fact_base.truncate f | ToolFact f \<Rightarrow> fact_base.truncate f
      | StateRevisionFact f \<Rightarrow> fact_base.truncate f | InteractionFact f \<Rightarrow> fact_base.truncate f
      | SubagentFact f \<Rightarrow> fact_base.truncate f | PlanRevisionFact f \<Rightarrow> fact_base.truncate f
      | NativeExtraFact f \<Rightarrow> fact_base.truncate f | CallTrackingFact f \<Rightarrow> f
      | ModelCallFact f \<Rightarrow> fact_base.truncate f | ToolExecutionFact f \<Rightarrow> fact_base.truncate f
      | ContextContributionFact f \<Rightarrow> fact_base.truncate f)"

abbreviation fact_identity :: "trace_fact \<Rightarrow> run_identity" where
  "fact_identity x \<equiv> fb_identity (base_of x)"

abbreviation fact_run :: "trace_fact \<Rightarrow> string" where
  "fact_run x \<equiv> i_run_id (fact_identity x)"

definition fact_kind :: "trace_fact \<Rightarrow> string" where
  "fact_kind x =
     (case x of
        TurnFact f \<Rightarrow> ''turn.started'' | RunFact f \<Rightarrow> ''run'' | MessageFact f \<Rightarrow> ''message'' | ReasoningFact f \<Rightarrow> ''reasoning''
      | ToolFact f \<Rightarrow> ''tool'' | StateRevisionFact f \<Rightarrow> ''state.revision'' | InteractionFact f \<Rightarrow> ''interaction''
      | SubagentFact f \<Rightarrow> ''subagent'' | PlanRevisionFact f \<Rightarrow> ''plan.revision'' | NativeExtraFact f \<Rightarrow> ''native.extra''
      | CallTrackingFact f \<Rightarrow> ''call.tracking'' | ModelCallFact f \<Rightarrow> ''model.call''
      | ToolExecutionFact f \<Rightarrow> ''tool.execution'' | ContextContributionFact f \<Rightarrow> ''context.contribution'')"

section \<open>Their validation\<close>

fun all_demanded :: "(bool \<times> string) list \<Rightarrow> tracing_error + unit" where
  "all_demanded [] = Inr ()"
| "all_demanded ((b, message) # checks) = bindE (demand b message) (\<lambda>_. all_demanded checks)"

definition identifier_ok :: "nat \<Rightarrow> string option \<Rightarrow> bool" where
  "identifier_ok n value \<longleftrightarrow> (\<forall>v \<in> set_option value. text_within n v)"

definition check_base :: "'a fact_base_scheme \<Rightarrow> tracing_error + unit" where
  "check_base f =
     all_demanded
       [(0 \<le> fb_monotonic_ns f, ''monotonic_ns must be non-negative''),
        (text_within 1024 (fb_observation_id f), ''source_observation_id out of range'')]"

definition check_run_fact :: "run_fact \<Rightarrow> tracing_error + unit" where
  "check_run_fact f =
     all_demanded
       [(\<forall>v \<in> {rf_parent_run_id f, rf_code f, rf_error_type f, rf_observer_name f}. identifier_ok 1024 v, ''Run fact text out of range''),
        (fb_graph_namespace f = [] \<and> \<not> fb_in_subagent_scope f, ''Run lifecycle facts require the root scope''),
        (rf_phase f = RpStarted \<longrightarrow> rf_input_kind f \<noteq> None, ''started Run facts require input_kind''),
        (rf_phase f = RpInput \<longrightarrow> rf_input_kind f \<in> {Some Ordinary, Some Branch}, ''input Run facts require ordinary or branch input_kind''),
        (rf_phase f = RpResumed \<longrightarrow> rf_input_kind f \<in> {Some Resume, Some Abandon}, ''resumed Run facts require resume or abandon input_kind''),
        (rf_phase f \<in> {RpInput, RpResumed} \<longrightarrow> rf_input f \<noteq> None \<and> rf_config f \<noteq> None, ''Run input facts require input and config capture''),
        (rf_input_kind f = Some Branch \<longrightarrow> rf_parent_run_id f \<noteq> None, ''branch Run facts require parent_run_id''),
        (rf_phase f = RpResumeCheckpointed \<longrightarrow> rf_interrupt_ids f \<noteq> [], ''resume checkpoint facts require interrupt_ids''),
        (rf_interrupt_ids f \<noteq> [] \<longrightarrow> rf_phase f \<in> {RpResumed, RpResumeCheckpointed}, ''interrupt_ids belong only to resumed and resume checkpoint facts''),
        (rf_phase f = RpObserverFailed \<longrightarrow> rf_observer_name f \<noteq> None \<and> rf_error_type f \<noteq> None, ''observer failure facts require observer_name and error_type''),
        (rf_phase f \<in> {RpTerminal, RpClosed} \<longrightarrow> rf_outcome f \<noteq> None, ''terminal and closed Run facts require outcome''),
        (rf_failure_origin f \<longrightarrow> rf_phase f = RpTerminal \<and> rf_outcome f = Some RoFailed \<and> rf_error_type f \<noteq> None, ''only failed terminal Run facts can own a failure'')]"

definition check_message_fact :: "message_fact \<Rightarrow> tracing_error + unit" where
  "check_message_fact f =
     all_demanded
       [(text_within 2048 (mf_message_id f) \<and> identifier_ok 1024 (mf_source_message_id f) \<and> identifier_ok 1024 (mf_name f) \<and>
           identifier_ok 1024 (mf_tool_call_id f) \<and> (\<forall>v \<in> set_option (mf_fingerprint f). length v = 64), ''message fact text out of range''),
        (mf_phase f \<in> {MpCancelled, MpInterrupted, MpAbandoned} \<longrightarrow> mf_role f = MrAssistant \<and> \<not> mf_from_state_snapshot f, ''settled message phases require an Assistant delivery''),
        (mf_phase f \<in> {MpContent, MpReconciled} \<longrightarrow> mf_content f \<noteq> None \<or> (mf_phase f = MpReconciled \<and> mf_role f = MrTool \<and> mf_tool_call_id f \<noteq> None), ''message content facts require a capture envelope'')]"

definition check_reasoning_fact :: "reasoning_fact \<Rightarrow> tracing_error + unit" where
  "check_reasoning_fact f =
     all_demanded
       [(text_within 2048 (sf_reasoning_id f) \<and> text_within 2048 (sf_message_id f) \<and> text_within 1024 (sf_source_message_id f) \<and>
           text_within 1024 (sf_extractor f), ''reasoning fact text out of range''),
        (sf_phase f \<in> {SpContent, SpReconciled} \<longrightarrow> sf_content f \<noteq> None, ''reasoning content phases require a capture envelope''),
        (sf_phase f = SpCompleted \<longrightarrow> sf_content f = None, ''completed reasoning facts cannot repeat content'')]"

definition check_tool_fact :: "tool_fact \<Rightarrow> tracing_error + unit" where
  "check_tool_fact f =
     all_demanded
       [(text_within 2048 (lf_tool_call_id f) \<and> text_within 1024 (lf_source_tool_call_id f) \<and> identifier_ok 2048 (lf_parent_call_id f) \<and>
           text_within 1024 (lf_tool_name f), ''Tool fact text out of range''),
        (lf_phase f = TpResult \<longrightarrow> lf_content f \<noteq> None \<and> lf_result_status f \<noteq> None, ''Tool result facts require content and result_status''),
        (lf_phase f \<noteq> TpResult \<longrightarrow> lf_result_status f = None, ''Only Tool result facts can set result_status''),
        (lf_failure_origin f \<longrightarrow> lf_phase f = TpResult \<and> lf_result_status f = Some ResultError, ''only failed Tool results can own a failure'')]"

definition check_interaction_fact :: "interaction_fact \<Rightarrow> tracing_error + unit" where
  "check_interaction_fact f =
     all_demanded
       [(text_within 2048 (if_interaction_id f) \<and> text_within 1024 (if_source_interaction_id f) \<and> text_within 1024 (if_interaction_kind f), ''interaction fact text out of range''),
        (if_phase f = IpOpened \<longrightarrow> if_status f = IsPending, ''opened interactions must be pending''),
        (if_phase f = IpResolved \<longrightarrow> if_status f \<noteq> IsPending, ''resolved interactions cannot remain pending''),
        (\<forall>v \<in> set (if_tool_call_ids f). v \<noteq> [] \<and> canonical v, ''interaction Tool call IDs must be canonical strings''),
        (distinct (if_tool_call_ids f), ''interaction Tool call IDs must be unique'')]"

definition check_subagent_fact :: "subagent_fact \<Rightarrow> tracing_error + unit" where
  "check_subagent_fact f =
     all_demanded
       [(text_within 2048 (bf_subagent_id f) \<and> identifier_ok 1024 (bf_agent_name f) \<and> identifier_ok 1024 (bf_parent_tool_call_id f) \<and>
           identifier_ok 2048 (bf_parent_execution_id f) \<and> identifier_ok 2048 (bf_model_call_id f), ''Subagent fact text out of range''),
        (bf_status f \<in> (case bf_phase f of BpStarted \<Rightarrow> {BsRunning} | BpUpdated \<Rightarrow> {BsWaiting}
           | BpCompleted \<Rightarrow> {BsSucceeded, BsFailed, BsCancelled, BsAbandoned}), ''Subagent status does not match its lifecycle phase''),
        (bf_phase f \<noteq> BpStarted \<longrightarrow> bf_parent_tool_call_id f = None \<and> bf_parent_execution_id f = None \<and> bf_model_call_id f = None \<and>
           bf_input f = None, ''Subagent opening evidence belongs only to started facts'')]"

fun strictly_sorted :: "int list \<Rightarrow> bool" where
  "strictly_sorted (x # y # xs) \<longleftrightarrow> x < y \<and> strictly_sorted (y # xs)"
| "strictly_sorted _ \<longleftrightarrow> True"

definition check_model_call_fact :: "model_call_fact \<Rightarrow> tracing_error + unit" where
  "check_model_call_fact f =
     all_demanded
       [(text_within 2048 (cf_call_id f) \<and>
           (\<forall>v \<in> {cf_parent_call_id f, cf_agent_name f, cf_provider f, cf_model f, cf_error_type f}. identifier_ok 1024 v), ''model call text out of range''),
        (cf_phase f = CpStarted \<longrightarrow> cf_request f \<noteq> None, ''started model call facts require a request''),
        (cf_phase f \<noteq> CpStarted \<longrightarrow> cf_request f = None, ''only started model call facts may carry a request''),
        (cf_phase f = CpStarted \<longrightarrow> cf_context_started_at f \<noteq> None, ''started model call facts require context_started_at''),
        (cf_phase f \<noteq> CpStarted \<longrightarrow> cf_context_started_at f = None, ''only started model call facts may carry context_started_at''),
        (\<forall>t \<in> set_option (cf_context_started_at f). t \<le> fb_occurred_at f, ''context preparation cannot start after the model call''),
        (cf_phase f \<noteq> CpStarted \<longrightarrow> cf_system_message_positions f = [], ''only started model call facts may carry SystemMessage positions''),
        (strictly_sorted (cf_system_message_positions f), ''SystemMessage positions must be unique and ordered''),
        (\<forall>n \<in> set (cf_system_message_positions f). 0 \<le> n, ''SystemMessage positions must be non-negative''),
        (cf_phase f \<notin> {CpFirstOutput, CpCompleted} \<longrightarrow> cf_output_message_ids f = [], ''only first output or completed model calls may carry output message IDs''),
        (\<forall>v \<in> set (cf_output_message_ids f). v \<noteq> [] \<and> canonical v, ''model output message IDs must be canonical text''),
        (distinct (cf_output_message_ids f), ''model output message IDs must be unique''),
        (cf_phase f \<noteq> CpCompleted \<longrightarrow> cf_usage f = None \<and> cf_response_metadata f = None, ''only completed model calls may carry response metadata''),
        (cf_phase f = CpFailed \<longrightarrow> cf_error_type f \<noteq> None, ''failed model calls require an error type''),
        (cf_phase f \<noteq> CpFailed \<longrightarrow> cf_error_type f = None \<and> cf_error_message f = None, ''non-failure model call facts cannot carry an error''),
        (cf_phase f \<noteq> CpCompleted \<longrightarrow> cf_tool_call_ids f = [], ''only completed model call facts may carry Tool call IDs''),
        (distinct (cf_tool_call_ids f), ''model call Tool IDs must be unique''),
        (cf_failure_origin f \<longrightarrow> cf_phase f = CpFailed, ''only failed model calls can own a failure'')]"

definition check_tool_execution_fact :: "tool_execution_fact \<Rightarrow> tracing_error + unit" where
  "check_tool_execution_fact f =
     all_demanded
       [(text_within 2048 (xf_execution_id f) \<and> text_within 1024 (xf_tool_name f) \<and>
           (\<forall>v \<in> {xf_parent_call_id f, xf_agent_name f, xf_source_tool_call_id f, xf_error_type f}. identifier_ok 1024 v), ''Tool execution text out of range''),
        (xf_phase f = WpStarted \<longrightarrow> xf_input f \<noteq> None, ''started Tool execution facts require input''),
        (xf_phase f \<noteq> WpStarted \<longrightarrow> xf_input f = None, ''only started Tool execution facts may carry input''),
        (xf_phase f \<notin> {WpCompleted, WpFailed} \<longrightarrow> xf_output f = None, ''only completed or handled-failure Tools may carry output''),
        (xf_phase f = WpCompleted \<longrightarrow> xf_output f \<noteq> None, ''completed Tool execution facts require output''),
        (xf_phase f = WpFailed \<longrightarrow> xf_error_type f \<noteq> None \<or> xf_output f \<noteq> None, ''failed Tool executions require error or output evidence''),
        (xf_phase f \<noteq> WpFailed \<longrightarrow> xf_error_type f = None \<and> xf_error_message f = None, ''non-failure Tool execution facts cannot carry an error''),
        (xf_failure_origin f \<longrightarrow> xf_phase f = WpFailed, ''only failed Tool executions can own a failure'')]"

definition check_contribution_fact :: "contribution_fact \<Rightarrow> tracing_error + unit" where
  "check_contribution_fact f =
     all_demanded
       [(text_within 2048 (kf_contribution_id f) \<and> text_within 1024 (kf_name f) \<and> identifier_ok 1024 (kf_parent_call_id f) \<and>
           identifier_ok 1024 (kf_error_type f), ''contribution text out of range''),
        (kf_phase f \<noteq> WpStarted \<longrightarrow> kf_input f = None, ''only started contribution facts may carry input''),
        (kf_phase f \<noteq> WpCompleted \<longrightarrow> kf_output f = None, ''only completed contribution facts may carry output''),
        (kf_phase f = WpFailed \<longrightarrow> kf_error_type f \<noteq> None, ''failed contribution facts require an error type''),
        (kf_phase f \<noteq> WpFailed \<longrightarrow> kf_error_type f = None, ''non-failure contribution facts cannot carry an error type''),
        (kf_failure_origin f \<longrightarrow> kf_phase f = WpFailed, ''only failed contributions can own a failure'')]"

definition check_fields :: "trace_fact \<Rightarrow> tracing_error + unit" where
  "check_fields x =
     (case x of
        TurnFact f \<Rightarrow> demand (text_within 2048 (tf_turn_id f) \<and> identifier_ok 1024 (tf_user_message_id f) \<and> identifier_ok 1024 (tf_parent_run_id f)) ''turn fact text out of range''
      | RunFact f \<Rightarrow> check_run_fact f | MessageFact f \<Rightarrow> check_message_fact f | ReasoningFact f \<Rightarrow> check_reasoning_fact f
      | ToolFact f \<Rightarrow> check_tool_fact f
      | StateRevisionFact f \<Rightarrow> demand (text_within 2048 (vf_revision_id f)) ''state revision text out of range''
      | InteractionFact f \<Rightarrow> check_interaction_fact f | SubagentFact f \<Rightarrow> check_subagent_fact f
      | PlanRevisionFact f \<Rightarrow> demand (text_within 2048 (pf_revision_id f) \<and> (\<forall>n \<in> set_option (pf_revision f). 0 \<le> n) \<and> identifier_ok 1024 (pf_status f)) ''plan revision out of range''
      | NativeExtraFact f \<Rightarrow> demand (text_within 1024 (nf_data_type f)) ''native extra text out of range''
      | CallTrackingFact f \<Rightarrow> Inr () | ModelCallFact f \<Rightarrow> check_model_call_fact f
      | ToolExecutionFact f \<Rightarrow> check_tool_execution_fact f | ContextContributionFact f \<Rightarrow> check_contribution_fact f)"

definition mk_trace_fact :: "trace_fact \<Rightarrow> tracing_error + trace_fact" where
  "mk_trace_fact x = bindE (check_base (base_of x)) (\<lambda>_. bindE (check_fields x) (\<lambda>_. Inr x))"

section \<open>Events\<close>

record trace_event =
  te_event_id :: string
  te_trace_seq :: int
  te_generation :: string
  te_fact :: trace_fact
  te_persisted_bytes :: int

text \<open>
  \<open>_event\<close>: the recorded size is the size of the serialised event, which contains it; at most four attempts.
  \<open>json_size\<close> is the length of the serialisation by pydantic.
\<close>

fun settle_event :: "nat \<Rightarrow> (trace_event \<Rightarrow> int) \<Rightarrow> trace_event \<Rightarrow> tracing_error + trace_event" where
  "settle_event 0 json_size event = Inl (TraceStoreProtocolError ''Trace event size did not converge'')"
| "settle_event (Suc n) json_size event =
     (if json_size event = te_persisted_bytes event then Inr event else settle_event n json_size (event\<lparr>te_persisted_bytes := json_size event\<rparr>))"

definition mk_event :: "(trace_event \<Rightarrow> int) \<Rightarrow> string \<Rightarrow> int \<Rightarrow> string \<Rightarrow> trace_fact \<Rightarrow> tracing_error + trace_event" where
  "mk_event json_size event_id trace_seq generation x =
     settle_event 4 json_size \<lparr>te_event_id = event_id, te_trace_seq = trace_seq, te_generation = generation, te_fact = x, te_persisted_bytes = 1\<rparr>"

lemma settle_event_Inr:
  "settle_event n json_size e = Inr e' \<Longrightarrow> e' = e\<lparr>te_persisted_bytes := te_persisted_bytes e'\<rparr> \<and> te_persisted_bytes e' = json_size e'"
  by (induction n json_size e rule: settle_event.induct) (force split: if_splits)+

end
