(* ===== verification/Trace_Graph.thy ===== *)
theory Trace_Graph
  imports Trace_Facts
begin

text \<open>
  \<open>_graph_reducer.py\<close>: how the facts of the ledger become the rows of the timeline index. A fact yields partial
  mutations, a mutation updates the revision of its event in its Run, and the revisions of a Run lineage merge
  into one effective row per event. An update works in place, so a raise keeps the fields already written.
\<close>

section \<open>Rows and mutations\<close>

datatype node_kind =
    HumanMessage | AssistantMessage | Context | Model | Tool | Subagent | Memory | Guardrail | Retrieval | Custom | Plan | Interaction

datatype node_status = Running | Waiting | Succeeded | Failed | Cancelled | Abandoned | Unknown

datatype link_issue = MissingSubagent | MissingModelCall | MissingToolProposal

record node_mutation =
  nm_node_id :: string
  nm_updated_seq :: int
  nm_run_id :: string
  nm_remove :: bool
  nm_kind :: "node_kind option"
  nm_status :: "node_status option"
  nm_name :: "string option"
  nm_parent_subagent_id :: "string option"
  nm_model_call_id :: "string option"
  nm_model_call_seq :: "int option"
  nm_graph_namespace :: "string list option"
  nm_agent_name :: "string option"
  nm_provider :: "string option"
  nm_model :: "string option"
  nm_started_at :: "time option"
  nm_first_output_at :: "time option"
  nm_completed_at :: "time option"
  nm_started_seq :: "int option"
  nm_request_seq :: "int option"
  nm_result_seq :: "int option"
  nm_failure_seq :: "int option"
  nm_link_issue :: "link_issue option"

definition blank_mutation :: "string \<Rightarrow> int \<Rightarrow> string \<Rightarrow> node_mutation" where
  "blank_mutation node_id updated_seq run_id =
     \<lparr>nm_node_id = node_id, nm_updated_seq = updated_seq, nm_run_id = run_id, nm_remove = False, nm_kind = None, nm_status = None,
      nm_name = None, nm_parent_subagent_id = None, nm_model_call_id = None, nm_model_call_seq = None, nm_graph_namespace = None,
      nm_agent_name = None, nm_provider = None, nm_model = None, nm_started_at = None, nm_first_output_at = None,
      nm_completed_at = None, nm_started_seq = None, nm_request_seq = None, nm_result_seq = None, nm_failure_seq = None,
      nm_link_issue = None\<rparr>"

definition mk_mutation :: "node_mutation \<Rightarrow> tracing_error + node_mutation" where
  "mk_mutation m =
     bindE (demand (nm_model_call_id m = None \<longleftrightarrow> nm_model_call_seq m = None)
       ''model_call_id and model_call_seq must be supplied together'') (\<lambda>_.
     bindE (demand (\<forall>n \<in> set_option (nm_model_call_seq m). 1 \<le> n \<and> n \<le> nm_updated_seq m)
       ''model_call_seq must identify a fact at or before updated_seq'') (\<lambda>_.
     Inr m))"

record graph_node =
  gn_node_id :: string
  gn_parent_subagent_id :: "string option"
  gn_model_call_id :: "string option"
  gn_model_call_seq :: "int option"
  gn_kind :: node_kind
  gn_status :: node_status
  gn_name :: string
  gn_run_id :: string
  gn_graph_namespace :: "string list"
  gn_agent_name :: "string option"
  gn_provider :: "string option"
  gn_model :: "string option"
  gn_started_at :: time
  gn_first_output_at :: "time option"
  gn_completed_at :: "time option"
  gn_started_seq :: int
  gn_updated_seq :: int
  gn_request_seq :: "int option"
  gn_result_seq :: "int option"
  gn_failure_seq :: "int option"
  gn_link_issue :: "link_issue option"

datatype graph_revision = Node graph_node | Tombstone string string int

type_synonym revisions = "(string \<times> string, graph_revision) dict"

fun revision_node_id :: "graph_revision \<Rightarrow> string" where
  "revision_node_id (Node n) = gn_node_id n"
| "revision_node_id (Tombstone node_id run_id updated_seq) = node_id"

fun revision_run_id :: "graph_revision \<Rightarrow> string" where
  "revision_run_id (Node n) = gn_run_id n"
| "revision_run_id (Tombstone node_id run_id updated_seq) = run_id"

fun revision_seq :: "graph_revision \<Rightarrow> int" where
  "revision_seq (Node n) = gn_updated_seq n"
| "revision_seq (Tombstone node_id run_id updated_seq) = updated_seq"

text \<open>Python's \<open>or\<close>: an empty text or a zero counts as absent.\<close>

definition or_text :: "string option \<Rightarrow> string option \<Rightarrow> string option" where
  "or_text a b = (case a of Some (c # cs) \<Rightarrow> a | _ \<Rightarrow> b)"

definition or_seq :: "int option \<Rightarrow> int option \<Rightarrow> int option" where
  "or_seq a b = (case a of Some n \<Rightarrow> if n = 0 then b else a | None \<Rightarrow> b)"

definition or_else :: "'a option \<Rightarrow> 'a option \<Rightarrow> 'a option" where
  "or_else a b = (case a of Some x \<Rightarrow> a | None \<Rightarrow> b)"

section \<open>Small decisions\<close>

definition tool_node :: "(bytes \<Rightarrow> string) \<Rightarrow> string list \<Rightarrow> string \<Rightarrow> string" where
  "tool_node sha256 namespace source_tool_call_id = scope_id sha256 ''tool'' namespace source_tool_call_id"

definition subagent_owner :: "(bytes \<Rightarrow> string) \<Rightarrow> string list \<Rightarrow> string option" where
  "subagent_owner sha256 namespace =
     (if namespace = [] then None else Some (scope_id sha256 ''subagent'' namespace (last namespace)))"

definition outer_subagent_owner :: "(bytes \<Rightarrow> string) \<Rightarrow> string list \<Rightarrow> string option" where
  "outer_subagent_owner sha256 namespace = subagent_owner sha256 (butlast namespace)"

definition fact_subagent_owner :: "(bytes \<Rightarrow> string) \<Rightarrow> 'a fact_base_scheme \<Rightarrow> string option" where
  "fact_subagent_owner sha256 f = (if fb_in_subagent_scope f then subagent_owner sha256 (fb_graph_namespace f) else None)"

definition subagent_input_node :: "(bytes \<Rightarrow> string) \<Rightarrow> subagent_fact \<Rightarrow> string" where
  "subagent_input_node sha256 f = scope_id sha256 ''subagent-input'' (fb_graph_namespace f) (bf_subagent_id f)"

definition resolve_link_issue :: "string option \<Rightarrow> string option \<Rightarrow> link_issue option \<Rightarrow> link_issue option" where
  "resolve_link_issue parent_subagent_id model_call_id issue =
     (if parent_subagent_id \<noteq> None \<and> issue = Some MissingSubagent then None
      else if model_call_id \<noteq> None \<and> issue = Some MissingModelCall then None
      else issue)"

definition resolve_node_kind :: "node_kind option \<Rightarrow> node_kind option \<Rightarrow> tracing_error + node_kind option" where
  "resolve_node_kind current incoming =
     (if current = None then Inr incoming
      else if incoming = None \<or> incoming = current then Inr current
      else Inl (TraceStoreProtocolError ''Trace Graph node kind changed''))"

definition subagent_node_status :: "subagent_status \<Rightarrow> tracing_error + node_status" where
  "subagent_node_status s =
     (case s of BsSucceeded \<Rightarrow> Inr Succeeded | BsFailed \<Rightarrow> Inr Failed | BsCancelled \<Rightarrow> Inr Cancelled
      | BsAbandoned \<Rightarrow> Inr Abandoned | BsWaiting \<Rightarrow> Inr Waiting
      | BsRunning \<Rightarrow> Inl (TraceStoreProtocolError ''Subagent status is not projectable''))"

text \<open>\<open>_phase_status\<close> at the phases of messages, calls and work; other phases are unknown.\<close>

definition message_phase_status :: "message_phase \<Rightarrow> node_status" where
  "message_phase_status p =
     (case p of MpCompleted \<Rightarrow> Succeeded | MpCancelled \<Rightarrow> Cancelled | MpInterrupted \<Rightarrow> Waiting | MpAbandoned \<Rightarrow> Abandoned | _ \<Rightarrow> Unknown)"

definition call_phase_status :: "call_phase \<Rightarrow> node_status" where
  "call_phase_status p =
     (case p of CpCompleted \<Rightarrow> Succeeded | CpFailed \<Rightarrow> Failed | CpCancelled \<Rightarrow> Cancelled | CpInterrupted \<Rightarrow> Waiting
      | CpAbandoned \<Rightarrow> Abandoned | _ \<Rightarrow> Unknown)"

definition work_phase_status :: "work_phase \<Rightarrow> node_status" where
  "work_phase_status p =
     (case p of WpCompleted \<Rightarrow> Succeeded | WpFailed \<Rightarrow> Failed | WpCancelled \<Rightarrow> Cancelled | WpInterrupted \<Rightarrow> Waiting
      | WpAbandoned \<Rightarrow> Abandoned | WpStarted \<Rightarrow> Unknown)"

definition tool_phase_status :: "tool_phase \<Rightarrow> node_status" where
  "tool_phase_status p =
     (case p of TpCompleted \<Rightarrow> Succeeded | TpCancelled \<Rightarrow> Cancelled | TpAbandoned \<Rightarrow> Abandoned | _ \<Rightarrow> Unknown)"

definition terminal_time :: "node_status \<Rightarrow> time \<Rightarrow> time option" where
  "terminal_time status occurred_at = (if status \<in> {Running, Waiting} then None else Some occurred_at)"

section \<open>The mutations of a fact\<close>

text \<open>A complete revision as every constructor call of the reducer that opens a row writes it.\<close>

definition open_row ::
  "string \<Rightarrow> int \<Rightarrow> string \<Rightarrow> node_kind \<Rightarrow> node_status \<Rightarrow> string \<Rightarrow> string option \<Rightarrow> string list \<Rightarrow> time \<Rightarrow> node_mutation" where
  "open_row node_id seq run_id kind status name owner namespace started_at =
     (blank_mutation node_id seq run_id)
       \<lparr>nm_kind := Some kind, nm_status := Some status, nm_name := Some name, nm_parent_subagent_id := owner,
        nm_graph_namespace := Some namespace, nm_started_at := Some started_at, nm_started_seq := Some seq\<rparr>"

definition model_link :: "string option \<Rightarrow> int \<Rightarrow> node_mutation \<Rightarrow> node_mutation" where
  "model_link call seq m = m\<lparr>nm_model_call_id := call, nm_model_call_seq := (if call = None then None else Some seq)\<rparr>"

definition when_seq :: "bool \<Rightarrow> int \<Rightarrow> int option" where
  "when_seq b seq = (if b then Some seq else None)"

definition turn_mutations :: "(bytes \<Rightarrow> string) \<Rightarrow> int \<Rightarrow> turn_fact \<Rightarrow> node_mutation list" where
  "turn_mutations sha256 seq f =
     [(open_row (scope_id sha256 ''message'' [] (case or_text (tf_user_message_id f) (Some (tf_turn_id f)) of Some s \<Rightarrow> s | None \<Rightarrow> []))
        seq (i_run_id (fb_identity f)) HumanMessage Succeeded ''HumanMessage'' None [] (fb_occurred_at f))
      \<lparr>nm_completed_at := Some (fb_occurred_at f)\<rparr>]"

definition message_mutations :: "(bytes \<Rightarrow> string) \<Rightarrow> int \<Rightarrow> message_fact \<Rightarrow> node_mutation list" where
  "message_mutations sha256 seq f =
     (let blank = blank_mutation (mf_message_id f) seq (i_run_id (fb_identity f))
      in if mf_phase f = MpRemoved then [blank\<lparr>nm_remove := True\<rparr>]
         else if mf_role f \<in> {MrTool, MrOther, MrSystem} then []
         else if mf_role f = MrUser then
           (if fb_graph_namespace f \<noteq> [] \<or> mf_phase f = MpContent then []
            else [blank\<lparr>nm_result_seq := when_seq (mf_content f \<noteq> None) seq\<rparr>])
         else if mf_phase f = MpContent then []
         else
           let status = (if mf_phase f = MpStarted then Running
                         else if mf_phase f \<in> {MpCancelled, MpInterrupted, MpAbandoned} then message_phase_status (mf_phase f)
                         else Succeeded)
           in [(open_row (mf_message_id f) seq (i_run_id (fb_identity f)) AssistantMessage status ''AssistantMessage''
                  (fact_subagent_owner sha256 f) (fb_graph_namespace f) (fb_occurred_at f))
               \<lparr>nm_completed_at := terminal_time status (fb_occurred_at f), nm_result_seq := when_seq (mf_content f \<noteq> None) seq,
                nm_link_issue := Some MissingModelCall\<rparr>])"

definition output_message :: "(bytes \<Rightarrow> string) \<Rightarrow> int \<Rightarrow> model_call_fact \<Rightarrow> node_status \<Rightarrow> string \<Rightarrow> node_mutation" where
  "output_message sha256 seq f status source_message_id =
     model_link (Some (cf_call_id f)) seq
       ((open_row (scope_id sha256 ''message'' (fb_graph_namespace f) source_message_id) seq (i_run_id (fb_identity f)) AssistantMessage
           status ''AssistantMessage'' (fact_subagent_owner sha256 f) (fb_graph_namespace f) (fb_occurred_at f))
        \<lparr>nm_agent_name := cf_agent_name f\<rparr>)"

definition call_mutations :: "(bytes \<Rightarrow> string) \<Rightarrow> int \<Rightarrow> model_call_fact \<Rightarrow> tracing_error + node_mutation list" where
  "call_mutations sha256 seq f =
     (let run_id = i_run_id (fb_identity f); namespace = fb_graph_namespace f; now = fb_occurred_at f;
          owner = fact_subagent_owner sha256 f; blank = blank_mutation (cf_call_id f) seq run_id
      in if cf_phase f = CpStarted then
           (case cf_context_started_at f of
              None \<Rightarrow> Inl (TraceStoreProtocolError ''Model call context start is unavailable'')
            | Some context_started_at \<Rightarrow> Inr
                [(open_row (scope_id sha256 ''context'' namespace (cf_call_id f)) seq run_id Context Succeeded ''Context'' owner namespace
                    context_started_at)
                 \<lparr>nm_agent_name := cf_agent_name f, nm_provider := cf_provider f, nm_model := cf_model f, nm_completed_at := Some now,
                  nm_request_seq := Some seq\<rparr>,
                 (open_row (cf_call_id f) seq run_id Model Running
                    (case or_text (cf_model f) (Some ''Model'') of Some s \<Rightarrow> s | None \<Rightarrow> []) owner namespace now)
                 \<lparr>nm_agent_name := cf_agent_name f, nm_provider := cf_provider f, nm_model := cf_model f, nm_request_seq := Some seq\<rparr>])
         else if cf_phase f = CpFirstOutput then
           Inr (blank\<lparr>nm_first_output_at := Some now\<rparr> # map (output_message sha256 seq f Running) (cf_output_message_ids f))
         else
           let status = call_phase_status (cf_phase f)
           in Inr (blank\<lparr>nm_status := Some status, nm_completed_at := terminal_time status now, nm_result_seq := Some seq,
                     nm_failure_seq := when_seq (cf_phase f = CpFailed \<and> cf_failure_origin f) seq\<rparr> #
                (if cf_phase f = CpCompleted then
                   map (\<lambda>s. (output_message sha256 seq f Succeeded s)\<lparr>nm_completed_at := Some now, nm_request_seq := Some seq\<rparr>)
                     (cf_output_message_ids f) @
                   map (\<lambda>s. model_link (Some (cf_call_id f)) seq (blank_mutation (tool_node sha256 namespace s) seq run_id))
                     (cf_tool_call_ids f)
                 else [])))"

definition tool_mutations :: "(bytes \<Rightarrow> string) \<Rightarrow> int \<Rightarrow> tool_fact \<Rightarrow> node_mutation list" where
  "tool_mutations sha256 seq f =
     (let now = fb_occurred_at f; namespace = fb_graph_namespace f;
          row = (\<lambda>status. model_link (lf_parent_call_id f) seq
            (open_row (tool_node sha256 namespace (lf_source_tool_call_id f)) seq (i_run_id (fb_identity f)) Tool status (lf_tool_name f)
              (fact_subagent_owner sha256 f) namespace now))
      in if lf_tool_name f = ''task'' then []
         else case lf_phase f of
             TpResult \<Rightarrow>
               [(row (if lf_result_status f = Some ResultSuccess then Succeeded else Failed))
                  \<lparr>nm_completed_at := Some now, nm_result_seq := Some seq,
                   nm_failure_seq := when_seq (lf_result_status f = Some ResultError \<and> lf_failure_origin f) seq\<rparr>]
           | TpCompleted \<Rightarrow> []
           | p \<Rightarrow>
               if p \<in> {TpStarted, TpArguments} then
                 [(row Waiting)\<lparr>nm_request_seq := when_seq (p = TpArguments \<and> lf_content f \<noteq> None) seq,
                    nm_link_issue := (if lf_parent_call_id f \<noteq> None then None else Some MissingModelCall)\<rparr>]
               else [(row (tool_phase_status p))\<lparr>nm_completed_at := Some now\<rparr>])"

definition execution_mutations :: "(bytes \<Rightarrow> string) \<Rightarrow> int \<Rightarrow> tool_execution_fact \<Rightarrow> node_mutation list" where
  "execution_mutations sha256 seq f =
     (let now = fb_occurred_at f; namespace = fb_graph_namespace f; run_id = i_run_id (fb_identity f);
          node_id = (case xf_source_tool_call_id f of Some s \<Rightarrow> tool_node sha256 namespace s | None \<Rightarrow> xf_execution_id f)
      in if xf_tool_name f = ''task'' then []
         else if xf_phase f = WpStarted then
           [model_link (xf_parent_call_id f) seq
              ((open_row node_id seq run_id Tool Running (xf_tool_name f) (fact_subagent_owner sha256 f) namespace now)
               \<lparr>nm_agent_name := xf_agent_name f, nm_request_seq := Some seq,
                nm_link_issue := (if xf_source_tool_call_id f = None then Some MissingToolProposal
                                  else if xf_parent_call_id f = None then Some MissingModelCall else None)\<rparr>)]
         else
           let status = work_phase_status (xf_phase f)
           in [(blank_mutation node_id seq run_id)\<lparr>nm_status := Some status, nm_completed_at := terminal_time status now,
                 nm_result_seq := Some seq, nm_failure_seq := when_seq (xf_phase f = WpFailed \<and> xf_failure_origin f) seq\<rparr>])"

definition subagent_mutations :: "(bytes \<Rightarrow> string) \<Rightarrow> int \<Rightarrow> subagent_fact \<Rightarrow> tracing_error + node_mutation list" where
  "subagent_mutations sha256 seq f =
     (let now = fb_occurred_at f; namespace = fb_graph_namespace f; run_id = i_run_id (fb_identity f);
          owner = outer_subagent_owner sha256 namespace;
          name = (case or_text (bf_agent_name f) (Some ''Subagent'') of Some s \<Rightarrow> s | None \<Rightarrow> [])
      in if bf_phase f = BpStarted then
           Inr (model_link (bf_model_call_id f) seq
               ((open_row (bf_subagent_id f) seq run_id Subagent Running name owner namespace now)
                \<lparr>nm_agent_name := bf_agent_name f, nm_request_seq := Some seq,
                 nm_link_issue := (if bf_parent_tool_call_id f = None then Some MissingToolProposal
                                   else if bf_model_call_id f = None then Some MissingModelCall else None)\<rparr>) #
             (if bf_input f = None then []
              else [(open_row (subagent_input_node sha256 f) seq run_id HumanMessage Succeeded ''HumanMessage'' (Some (bf_subagent_id f))
                       namespace now)
                    \<lparr>nm_agent_name := bf_agent_name f, nm_completed_at := Some now, nm_result_seq := Some seq\<rparr>]))
         else
           bindE (subagent_node_status (bf_status f)) (\<lambda>status.
           Inr [(open_row (bf_subagent_id f) seq run_id Subagent status name owner namespace now)
                  \<lparr>nm_agent_name := bf_agent_name f, nm_completed_at := terminal_time status now, nm_result_seq := Some seq\<rparr>]))"

definition contribution_mutations :: "(bytes \<Rightarrow> string) \<Rightarrow> int \<Rightarrow> contribution_fact \<Rightarrow> node_mutation list" where
  "contribution_mutations sha256 seq f =
     (let now = fb_occurred_at f; run_id = i_run_id (fb_identity f);
          kind = (case kf_context_kind f of CkMemory \<Rightarrow> Memory | CkGuardrail \<Rightarrow> Guardrail | CkRetrieval \<Rightarrow> Retrieval | CkCustom \<Rightarrow> Custom)
      in if kf_phase f = WpStarted then
           [(open_row (kf_contribution_id f) seq run_id kind Running (kf_name f) (fact_subagent_owner sha256 f) (fb_graph_namespace f) now)
              \<lparr>nm_request_seq := Some seq\<rparr>]
         else
           let status = work_phase_status (kf_phase f)
           in [(blank_mutation (kf_contribution_id f) seq run_id)
                 \<lparr>nm_status := Some status, nm_completed_at := terminal_time status now, nm_result_seq := Some seq,
                  nm_failure_seq := when_seq (kf_phase f = WpFailed \<and> kf_failure_origin f) seq\<rparr>])"

definition plan_mutations :: "(bytes \<Rightarrow> string) \<Rightarrow> int \<Rightarrow> plan_revision_fact \<Rightarrow> node_mutation list" where
  "plan_mutations sha256 seq f =
     (let status = (if pf_status f \<in> {Some ''awaiting_input'', Some ''awaiting_review'', Some ''draft''} then Waiting else Succeeded);
          run_id = i_run_id (fb_identity f)
      in [(open_row (scope_id sha256 ''plan'' (fb_graph_namespace f) run_id) seq run_id Plan status ''Plan''
             (fact_subagent_owner sha256 f) (fb_graph_namespace f) (fb_occurred_at f))
          \<lparr>nm_completed_at := terminal_time status (fb_occurred_at f), nm_result_seq := Some seq\<rparr>])"

definition interaction_mutations :: "(bytes \<Rightarrow> string) \<Rightarrow> int \<Rightarrow> interaction_fact \<Rightarrow> node_mutation list" where
  "interaction_mutations sha256 seq f =
     (let status = (case if_status f of IsPending \<Rightarrow> Waiting | IsCancelled \<Rightarrow> Cancelled | IsResolved \<Rightarrow> Succeeded)
      in [(open_row (if_interaction_id f) seq (i_run_id (fb_identity f)) Interaction status (if_interaction_kind f)
             (fact_subagent_owner sha256 f) (fb_graph_namespace f) (fb_occurred_at f))
          \<lparr>nm_completed_at := terminal_time status (fb_occurred_at f), nm_result_seq := Some seq\<rparr>])"

text \<open>The branches of the loop body of \<open>graph_node_mutations\<close>, in their order.\<close>

definition fact_mutations :: "(bytes \<Rightarrow> string) \<Rightarrow> int \<Rightarrow> trace_fact \<Rightarrow> tracing_error + node_mutation list" where
  "fact_mutations sha256 seq x =
     (case x of
        TurnFact f \<Rightarrow> Inr (turn_mutations sha256 seq f)
      | MessageFact f \<Rightarrow> Inr (message_mutations sha256 seq f)
      | ModelCallFact f \<Rightarrow> call_mutations sha256 seq f
      | ToolFact f \<Rightarrow> Inr (tool_mutations sha256 seq f)
      | ToolExecutionFact f \<Rightarrow> Inr (execution_mutations sha256 seq f)
      | SubagentFact f \<Rightarrow> subagent_mutations sha256 seq f
      | ContextContributionFact f \<Rightarrow> Inr (contribution_mutations sha256 seq f)
      | PlanRevisionFact f \<Rightarrow> Inr (plan_mutations sha256 seq f)
      | InteractionFact f \<Rightarrow> Inr (interaction_mutations sha256 seq f)
      | _ \<Rightarrow> Inr [])"

fun built :: "node_mutation list \<Rightarrow> tracing_error + node_mutation list" where
  "built [] = Inr []"
| "built (m # ms) = bindE (mk_mutation m) (\<lambda>m'. bindE (built ms) (\<lambda>ms'. Inr (m' # ms')))"

fun batch_mutations :: "(bytes \<Rightarrow> string) \<Rightarrow> trace_event list \<Rightarrow> tracing_error + node_mutation list" where
  "batch_mutations sha256 [] = Inr []"
| "batch_mutations sha256 (e # es) =
     bindE (fact_mutations sha256 (te_trace_seq e) (te_fact e)) (\<lambda>ms.
     bindE (built ms) (\<lambda>ms'. bindE (batch_mutations sha256 es) (\<lambda>rest. Inr (ms' @ rest))))"

section \<open>One write per row and batch\<close>

definition mutation_key :: "node_mutation \<Rightarrow> string \<times> string" where
  "mutation_key m = (nm_node_id m, nm_run_id m)"

definition merged :: "node_mutation \<Rightarrow> node_mutation \<Rightarrow> tracing_error + node_mutation" where
  "merged current m =
     bindE (resolve_node_kind (nm_kind current) (nm_kind m)) (\<lambda>kind.
     let replace_tool_start = (kind = Some Tool \<and> nm_status current = Some Waiting \<and> nm_status m = Some Running \<and>
           nm_started_at m \<noteq> None \<and> nm_started_seq m \<noteq> None);
         status = or_else (nm_status m) (nm_status current);
         completed_at = (if status \<in> {Some Running, Some Waiting} then None else or_else (nm_completed_at m) (nm_completed_at current));
         parent_subagent_id = or_text (nm_parent_subagent_id m) (nm_parent_subagent_id current);
         model_call_id = or_text (nm_model_call_id m) (nm_model_call_id current)
     in mk_mutation
       \<lparr>nm_node_id = nm_node_id m, nm_updated_seq = nm_updated_seq m, nm_run_id = nm_run_id m, nm_remove = False, nm_kind = kind,
        nm_status = status, nm_name = or_text (nm_name current) (nm_name m), nm_parent_subagent_id = parent_subagent_id,
        nm_model_call_id = model_call_id, nm_model_call_seq = or_seq (nm_model_call_seq m) (nm_model_call_seq current),
        nm_graph_namespace = or_else (nm_graph_namespace current) (nm_graph_namespace m),
        nm_agent_name = or_text (nm_agent_name m) (nm_agent_name current), nm_provider = or_text (nm_provider m) (nm_provider current),
        nm_model = or_text (nm_model m) (nm_model current),
        nm_started_at = (if replace_tool_start then nm_started_at m else or_else (nm_started_at current) (nm_started_at m)),
        nm_first_output_at = or_else (nm_first_output_at m) (nm_first_output_at current), nm_completed_at = completed_at,
        nm_started_seq = (if replace_tool_start then nm_started_seq m else or_seq (nm_started_seq current) (nm_started_seq m)),
        nm_request_seq = or_seq (nm_request_seq m) (nm_request_seq current), nm_result_seq = or_seq (nm_result_seq m) (nm_result_seq current),
        nm_failure_seq = or_seq (nm_failure_seq m) (nm_failure_seq current),
        nm_link_issue = resolve_link_issue parent_subagent_id model_call_id (or_else (nm_link_issue current) (nm_link_issue m))\<rparr>)"

fun coalesce :: "(string \<times> string, node_mutation) dict \<Rightarrow> node_mutation list \<Rightarrow> tracing_error + (string \<times> string, node_mutation) dict" where
  "coalesce values [] = Inr values"
| "coalesce values (m # ms) =
     (case dget values (mutation_key m) of
        None \<Rightarrow> coalesce (dput (mutation_key m) m values) ms
      | Some current \<Rightarrow>
          if nm_remove m \<or> nm_remove current then coalesce (dput (mutation_key m) m values) ms
          else bindE (merged current m) (\<lambda>m'. coalesce (dput (mutation_key m) m' values) ms))"

definition coalesce_graph_mutations :: "node_mutation list \<Rightarrow> tracing_error + node_mutation list" where
  "coalesce_graph_mutations ms = bindE (coalesce [] ms) (\<lambda>values. Inr (dvalues values))"

definition graph_node_mutations :: "(bytes \<Rightarrow> string) \<Rightarrow> trace_event list \<Rightarrow> tracing_error + node_mutation list" where
  "graph_node_mutations sha256 events = bindE (batch_mutations sha256 events) coalesce_graph_mutations"

section \<open>Applying a mutation\<close>

definition new_node :: "node_mutation \<Rightarrow> graph_node option" where
  "new_node m =
     (case (nm_kind m, nm_status m, nm_name m, nm_graph_namespace m, nm_started_at m, nm_started_seq m) of
        (Some kind, Some status, Some name, Some namespace, Some started_at, Some started_seq) \<Rightarrow>
          Some \<lparr>gn_node_id = nm_node_id m, gn_parent_subagent_id = nm_parent_subagent_id m, gn_model_call_id = nm_model_call_id m,
            gn_model_call_seq = nm_model_call_seq m, gn_kind = kind, gn_status = status, gn_name = name, gn_run_id = nm_run_id m,
            gn_graph_namespace = namespace, gn_agent_name = nm_agent_name m, gn_provider = nm_provider m, gn_model = nm_model m,
            gn_started_at = started_at, gn_first_output_at = nm_first_output_at m, gn_completed_at = nm_completed_at m,
            gn_started_seq = started_seq, gn_updated_seq = nm_updated_seq m, gn_request_seq = nm_request_seq m,
            gn_result_seq = nm_result_seq m, gn_failure_seq = nm_failure_seq m,
            gn_link_issue = resolve_link_issue (nm_parent_subagent_id m) (nm_model_call_id m) (nm_link_issue m)\<rparr>
      | _ \<Rightarrow> None)"

abbreviation protocol :: "bool \<Rightarrow> string \<Rightarrow> tracing_error + unit" where
  "protocol b message \<equiv> require b (TraceStoreProtocolError message)"

text \<open>The fields after the last check, in the order of the code.\<close>

definition written_row :: "node_mutation \<Rightarrow> graph_node \<Rightarrow> graph_node" where
  "written_row m row =
     (let start = (gn_kind row = Tool \<and> gn_status row = Waiting \<and> nm_status m = Some Running \<and>
            nm_started_at m \<noteq> None \<and> nm_started_seq m \<noteq> None);
          row1 = (case nm_model_call_id m of None \<Rightarrow> row
                  | Some call \<Rightarrow> row\<lparr>gn_model_call_id := Some call, gn_model_call_seq := nm_model_call_seq m\<rparr>);
          row2 = (case (nm_started_at m, nm_started_seq m) of
                    (Some t, Some n) \<Rightarrow> if start then row1\<lparr>gn_started_at := t, gn_started_seq := n\<rparr> else row1
                  | _ \<Rightarrow> row1);
          row3 = (case nm_status m of None \<Rightarrow> row2
                  | Some s \<Rightarrow> row2\<lparr>gn_status := s, gn_completed_at := (if s \<in> {Running, Waiting} then None else gn_completed_at row2)\<rparr>);
          row4 = row3\<lparr>gn_agent_name := or_else (nm_agent_name m) (gn_agent_name row3), gn_provider := or_else (nm_provider m) (gn_provider row3),
                    gn_model := or_else (nm_model m) (gn_model row3), gn_first_output_at := or_else (nm_first_output_at m) (gn_first_output_at row3),
                    gn_completed_at := or_else (nm_completed_at m) (gn_completed_at row3), gn_request_seq := or_else (nm_request_seq m) (gn_request_seq row3),
                    gn_result_seq := or_else (nm_result_seq m) (gn_result_seq row3), gn_failure_seq := or_else (nm_failure_seq m) (gn_failure_seq row3)\<rparr>;
          issue = resolve_link_issue (gn_parent_subagent_id row4) (gn_model_call_id row4) (gn_link_issue row4);
          resolved = resolve_link_issue (gn_parent_subagent_id row4) (gn_model_call_id row4) (nm_link_issue m)
      in row4\<lparr>gn_link_issue := or_else issue resolved, gn_updated_seq := nm_updated_seq m\<rparr>)"

definition update_row :: "node_mutation \<Rightarrow> graph_node \<Rightarrow> (tracing_error, graph_node, unit) outcome" where
  "update_row m row =
     check (protocol (gn_updated_seq row \<le> nm_updated_seq m) ''Trace Graph node sequence moved backwards'') row (\<lambda>_.
     check (resolve_node_kind (Some (gn_kind row)) (nm_kind m)) row (\<lambda>_.
     check (protocol (nm_name m \<in> {None, Some (gn_name row)}) ''Trace Graph node name changed'') row (\<lambda>_.
     check (protocol (nm_graph_namespace m \<in> {None, Some (gn_graph_namespace row)}) ''Trace Graph node namespace changed'') row (\<lambda>_.
     check (protocol (nm_parent_subagent_id m = None \<or> gn_parent_subagent_id row = None \<or> nm_parent_subagent_id m = gn_parent_subagent_id row)
       ''Trace Graph Subagent owner changed'') row (\<lambda>_.
     let row1 = row\<lparr>gn_parent_subagent_id := or_else (nm_parent_subagent_id m) (gn_parent_subagent_id row)\<rparr>
     in check (protocol (nm_model_call_id m = None \<or> gn_model_call_id row = None \<or> nm_model_call_id m = gn_model_call_id row)
       ''Trace Graph model call changed'') row1 (\<lambda>_.
     (Inr (), written_row m row1)))))))"

definition apply_mutation :: "node_mutation \<Rightarrow> revisions \<Rightarrow> (tracing_error, revisions, unit) outcome" where
  "apply_mutation m revs =
     (let key = mutation_key m
      in if nm_remove m then (Inr (), dput key (Tombstone (nm_node_id m) (nm_run_id m) (nm_updated_seq m)) revs)
         else case dget revs key of
             Some (Node row) \<Rightarrow> (case update_row m row of (r, row') \<Rightarrow> (r, dput key (Node row') revs))
           | found \<Rightarrow>
               (case new_node m of
                  Some node \<Rightarrow> (Inr (), dput key (Node node) revs)
                | None \<Rightarrow>
                    if found = None then (Inr (), revs)
                    else (Inl (TraceStoreProtocolError ''Trace Graph removal revision cannot accept a partial update''), revs)))"

fun apply_mutations :: "node_mutation list \<Rightarrow> revisions \<Rightarrow> (tracing_error, revisions, unit) outcome" where
  "apply_mutations [] revs = (Inr (), revs)"
| "apply_mutations (m # ms) revs = and_then (apply_mutation m revs) (\<lambda>_. apply_mutations ms)"

section \<open>Replaying events\<close>

definition run_terminal_status :: "run_fact \<Rightarrow> node_status option" where
  "run_terminal_status f =
     (if rf_phase f \<noteq> RpTerminal then None
      else if rf_outcome f = Some RoCancelled then Some Cancelled
      else if rf_outcome f = Some RoInterrupted then Some Waiting
      else Some Abandoned)"

fun open_assistant :: "string \<Rightarrow> int \<Rightarrow> graph_revision \<Rightarrow> bool" where
  "open_assistant run_id seq (Node n) \<longleftrightarrow>
     gn_run_id n = run_id \<and> gn_kind n = AssistantMessage \<and> gn_status n = Running \<and> gn_updated_seq n < seq"
| "open_assistant run_id seq (Tombstone a b c) \<longleftrightarrow> False"

definition run_terminal_mutations :: "trace_event \<Rightarrow> graph_revision list \<Rightarrow> node_mutation list" where
  "run_terminal_mutations e revs =
     (case te_fact e of
        RunFact f \<Rightarrow>
          (case run_terminal_status f of
             None \<Rightarrow> []
           | Some status \<Rightarrow>
               map (\<lambda>r. (blank_mutation (revision_node_id r) (te_trace_seq e) (revision_run_id r))
                   \<lparr>nm_status := Some status, nm_completed_at := terminal_time status (fb_occurred_at f)\<rparr>)
                 (filter (open_assistant (i_run_id (fb_identity f)) (te_trace_seq e)) revs))
      | _ \<Rightarrow> [])"

definition apply_graph_event :: "(bytes \<Rightarrow> string) \<Rightarrow> trace_event \<Rightarrow> revisions \<Rightarrow> (tracing_error, revisions, unit) outcome" where
  "apply_graph_event sha256 e revs =
     check (graph_node_mutations sha256 [e]) revs (\<lambda>ms.
     and_then (apply_mutations ms revs) (\<lambda>_ revs1.
     apply_mutations (run_terminal_mutations e (dvalues revs1)) revs1))"

fun apply_graph_events :: "(bytes \<Rightarrow> string) \<Rightarrow> trace_event list \<Rightarrow> revisions \<Rightarrow> (tracing_error, revisions, unit) outcome" where
  "apply_graph_events sha256 [] revs = (Inr (), revs)"
| "apply_graph_events sha256 (e # es) revs =
     and_then (apply_graph_event sha256 e revs) (\<lambda>_. apply_graph_events sha256 es)"

section \<open>Rebuilding and reading\<close>

fun revision_mutation :: "graph_revision \<Rightarrow> node_mutation" where
  "revision_mutation (Tombstone node_id run_id seq) = (blank_mutation node_id seq run_id)\<lparr>nm_remove := True\<rparr>"
| "revision_mutation (Node n) =
     \<lparr>nm_node_id = gn_node_id n, nm_updated_seq = gn_updated_seq n, nm_run_id = gn_run_id n, nm_remove = False, nm_kind = Some (gn_kind n),
      nm_status = Some (gn_status n), nm_name = Some (gn_name n), nm_parent_subagent_id = gn_parent_subagent_id n,
      nm_model_call_id = gn_model_call_id n, nm_model_call_seq = gn_model_call_seq n, nm_graph_namespace = Some (gn_graph_namespace n),
      nm_agent_name = gn_agent_name n, nm_provider = gn_provider n, nm_model = gn_model n, nm_started_at = Some (gn_started_at n),
      nm_first_output_at = gn_first_output_at n, nm_completed_at = gn_completed_at n, nm_started_seq = Some (gn_started_seq n),
      nm_request_seq = gn_request_seq n, nm_result_seq = gn_result_seq n, nm_failure_seq = gn_failure_seq n,
      nm_link_issue = gn_link_issue n\<rparr>"

definition graph_revision_mutations :: "graph_revision list \<Rightarrow> tracing_error + node_mutation list" where
  "graph_revision_mutations revs = built (map revision_mutation revs)"

definition reduce_graph_mutations :: "node_mutation list \<Rightarrow> tracing_error + node_mutation list" where
  "reduce_graph_mutations ms =
     (case apply_mutations ms [] of (Inl e, revs) \<Rightarrow> Inl e | (Inr u, revs) \<Rightarrow> graph_revision_mutations (dvalues revs))"

definition latest_value :: "(graph_node \<Rightarrow> 'a option) \<Rightarrow> graph_node list \<Rightarrow> 'a option" where
  "latest_value field nodes = (case List.map_filter field (rev nodes) of [] \<Rightarrow> None | v # vs \<Rightarrow> Some v)"

text \<open>Python's \<open>min\<close> and \<open>max\<close> keep the first of equal elements.\<close>

fun first_by :: "('a \<Rightarrow> 'a \<Rightarrow> bool) \<Rightarrow> 'a \<Rightarrow> 'a list \<Rightarrow> 'a" where
  "first_by better x [] = x"
| "first_by better x (y # ys) = first_by better (if better y x then y else x) ys"

definition extreme :: "('a \<Rightarrow> 'a \<Rightarrow> bool) \<Rightarrow> 'a list \<Rightarrow> 'a option" where
  "extreme better xs = (case xs of [] \<Rightarrow> None | x # ys \<Rightarrow> Some (first_by better x ys))"

fun node_of :: "graph_revision \<Rightarrow> graph_node option" where
  "node_of (Node n) = Some n"
| "node_of (Tombstone a b c) = None"

definition merge_revisions :: "graph_node list \<Rightarrow> graph_node \<Rightarrow> graph_node option" where
  "merge_revisions nodes latest =
     (let starts = filter (\<lambda>n. gn_request_seq n = Some (gn_started_seq n)) nodes
      in case (if starts \<noteq> [] \<and> gn_kind latest \<in> {Tool, Subagent}
               then extreme (\<lambda>y x. gn_updated_seq x < gn_updated_seq y) starts
               else extreme (\<lambda>y x. gn_started_seq y < gn_started_seq x) nodes) of
           None \<Rightarrow> None
         | Some timing \<Rightarrow>
             Some \<lparr>gn_node_id = gn_node_id latest, gn_parent_subagent_id = latest_value gn_parent_subagent_id nodes,
               gn_model_call_id = latest_value gn_model_call_id nodes, gn_model_call_seq = latest_value gn_model_call_seq nodes,
               gn_kind = gn_kind latest, gn_status = gn_status latest, gn_name = gn_name latest, gn_run_id = gn_run_id latest,
               gn_graph_namespace = gn_graph_namespace latest, gn_agent_name = latest_value gn_agent_name nodes,
               gn_provider = latest_value gn_provider nodes, gn_model = latest_value gn_model nodes, gn_started_at = gn_started_at timing,
               gn_first_output_at = extreme (<) (List.map_filter gn_first_output_at nodes),
               gn_completed_at = (if gn_status latest \<in> {Running, Waiting} then None else latest_value gn_completed_at nodes),
               gn_started_seq = gn_started_seq timing, gn_updated_seq = gn_updated_seq latest,
               gn_request_seq = extreme (>) (List.map_filter gn_request_seq nodes),
               gn_result_seq = extreme (>) (List.map_filter gn_result_seq nodes),
               gn_failure_seq = extreme (>) (List.map_filter gn_failure_seq nodes),
               gn_link_issue = resolve_link_issue (latest_value gn_parent_subagent_id nodes) (latest_value gn_model_call_id nodes)
                 (latest_value gn_link_issue nodes)\<rparr>)"

definition effective_node :: "graph_revision list \<Rightarrow> graph_node option" where
  "effective_node values =
     (let ordered = sort_key revision_seq values
      in if ordered = [] then None
         else case last ordered of
           Tombstone a b c \<Rightarrow> None
         | Node latest \<Rightarrow> merge_revisions (List.map_filter node_of ordered) latest)"

definition effective_graph_nodes :: "string set \<Rightarrow> graph_revision list \<Rightarrow> graph_node list" where
  "effective_graph_nodes run_ids revs =
     (let selected = filter (\<lambda>r. revision_run_id r \<in> run_ids) revs
      in List.map_filter (\<lambda>node_id. effective_node (filter (\<lambda>r. revision_node_id r = node_id) selected))
           (fromkeys (map revision_node_id selected)))"

end
