(* ===== verification/Trace_Ledger.thy ===== *)
theory Trace_Ledger
  imports Trace_Graph
begin

text \<open>
  \<open>backend.py\<close>: the records of the ledger contract; \<open>_ledger.py\<close>: the reducer that turns a change and the locked
  current state into the storage effect every backend applies. The fresh generation of a new thread and the
  serialised size of an event are arguments.
\<close>

section \<open>The contract\<close>

record trace_options =
  writer_lease :: duration
  writer_heartbeat_interval :: duration
  follow_poll :: duration
  commit_retry_attempts :: int
  commit_retry_delay :: duration

definition mk_trace_options :: "trace_options \<Rightarrow> tracing_error + trace_options" where
  "mk_trace_options o0 =
     bindE (demand (0 < writer_lease o0) ''writer_lease_seconds must be finite and positive'') (\<lambda>_.
     bindE (demand (0 < writer_heartbeat_interval o0) ''writer_heartbeat_interval_seconds must be finite and positive'') (\<lambda>_.
     bindE (demand (0 < follow_poll o0) ''follow_poll_seconds must be finite and positive'') (\<lambda>_.
     bindE (demand (0 < commit_retry_delay o0) ''commit_retry_delay_seconds must be finite and positive'') (\<lambda>_.
     bindE (demand (writer_heartbeat_interval o0 < writer_lease o0) ''writer heartbeat interval must be shorter than lease'') (\<lambda>_.
     bindE (demand (1 \<le> commit_retry_attempts o0) ''commit_retry_attempts must be a positive integer'') (\<lambda>_.
     Inr o0))))))"

record stored_fact =
  dr_event_id :: string
  dr_fact :: trace_fact
  dr_canonical_payload :: bytes
  dr_payload_digest :: string
  dr_exact_byte_count :: int

record stored_event =
  se_event_id :: string
  se_trace_seq :: int
  se_run_id :: string
  se_fact_kind :: string
  se_occurred_at :: time
  se_canonical_payload :: bytes
  se_payload_digest :: string
  se_persisted_bytes :: int

record projection_checkpoint =
  pc_key :: thread_key
  pc_projection_name :: string
  pc_run_id :: "string option"
  pc_as_of_seq :: int
  pc_state :: json_value

definition mk_projection_checkpoint :: "projection_checkpoint \<Rightarrow> tracing_error + projection_checkpoint" where
  "mk_projection_checkpoint c =
     bindE (demand (text_within 2048 (pc_projection_name c) \<and> identifier_ok 1024 (pc_run_id c) \<and> 0 \<le> pc_as_of_seq c)
       ''Projection checkpoint field out of range'') (\<lambda>_.
     bindE (demand (canonical (pc_projection_name c) \<and> (\<forall>r \<in> set_option (pc_run_id c). canonical r))
       ''Projection checkpoint identifiers must be canonical'') (\<lambda>_.
     bindE (demand (pc_run_id c = None \<or> pc_as_of_seq c \<noteq> 0) ''Run-scoped Projection checkpoints require an event'') (\<lambda>_.
     Inr c)))"

record stored_checkpoint =
  sc_key :: thread_key
  sc_projection_name :: string
  sc_run_id :: "string option"
  sc_as_of_seq :: int
  sc_canonical_state :: bytes
  sc_state_digest :: string

record writer_state =
  ws_run_id :: string
  ws_owner_token :: string
  ws_fence :: int
  ws_lease_expires_at :: time
  ws_active :: bool
  ws_terminal_committed :: bool
  ws_closed_committed :: bool
  ws_committed_events :: int
  ws_remaining_event_reserve :: int
  ws_remaining_byte_reserve :: int

record thread_state =
  th_key :: thread_key
  th_next_seq :: int
  th_persisted_bytes :: int

record writer_snapshot =
  sn_run_id :: string
  sn_committed_events :: int

record ledger_state =
  ls_observed_at :: time
  ls_namespace_thread_count :: int
  ls_namespace_persisted_bytes :: int
  ls_namespace_reserved_bytes :: int
  ls_thread :: "thread_state option"
  ls_target_writer :: "writer_state option"
  ls_writer_count :: int
  ls_thread_reserved_events :: int
  ls_thread_reserved_bytes :: int
  ls_active_writers :: "writer_snapshot list"
  ls_current_checkpoint :: "stored_checkpoint option"

datatype change_kind = OpenWriter | AppendEvents | RenewWriter | CloseWriter | SaveProjectionCheckpoint | DeleteGeneration

record ledger_change =
  lc_kind :: change_kind
  lc_namespace :: string
  lc_limits :: trace_limits
  lc_options :: trace_options
  lc_identity :: "run_identity option"
  lc_key :: "thread_key option"
  lc_run_id :: "string option"
  lc_owner_token :: "string option"
  lc_fence :: "int option"
  lc_facts :: "stored_fact list"
  lc_mandatory :: bool
  lc_checkpoint :: "projection_checkpoint option"
  lc_canonical_checkpoint_state :: "bytes option"
  lc_checkpoint_state_digest :: "string option"
  lc_expected_as_of_seq :: "int option"
  lc_proven_events :: "trace_event list"
  lc_proven_renewal :: bool
  lc_enforce_writer_lease :: bool
  lc_persist_records :: bool

record commit_result =
  lr_kind :: change_kind
  lr_key :: "thread_key option"
  lr_run_id :: "string option"
  lr_owner_token :: "string option"
  lr_fence :: "int option"
  lr_events :: "trace_event list"
  lr_checkpoint :: "projection_checkpoint option"

definition plain_result :: "change_kind \<Rightarrow> thread_key \<Rightarrow> string option \<Rightarrow> commit_result" where
  "plain_result kind key run_id =
     \<lparr>lr_kind = kind, lr_key = Some key, lr_run_id = run_id, lr_owner_token = None, lr_fence = None, lr_events = [], lr_checkpoint = None\<rparr>"

record ledger_effect =
  le_result :: commit_result
  le_thread :: "thread_state option"
  le_remove_thread :: bool
  le_writer :: "writer_state option"
  le_remove_writer_run_id :: "string option"
  le_events :: "stored_event list"
  le_validated_events :: "trace_event list"
  le_graph_mutations :: "node_mutation list"
  le_checkpoint :: "stored_checkpoint option"
  le_delete_generation :: bool
  le_thread_delta :: int
  le_persisted_bytes_delta :: int
  le_reserved_bytes_delta :: int

definition ledger_effect_of :: "commit_result \<Rightarrow> ledger_effect" where
  "ledger_effect_of r =
     \<lparr>le_result = r, le_thread = None, le_remove_thread = False, le_writer = None, le_remove_writer_run_id = None, le_events = [],
      le_validated_events = [], le_graph_mutations = [], le_checkpoint = None, le_delete_generation = False, le_thread_delta = 0,
      le_persisted_bytes_delta = 0, le_reserved_bytes_delta = 0\<rparr>"

section \<open>Scope and ownership\<close>

text \<open>\<open>datetime.max\<close> in microseconds since 1970.\<close>

definition datetime_max :: time where
  "datetime_max = 253402300799999999"

definition writer_lease_expiration :: "ledger_change \<Rightarrow> ledger_state \<Rightarrow> time" where
  "writer_lease_expiration change state =
     (if \<not> lc_enforce_writer_lease change then datetime_max else ls_observed_at state + writer_lease (lc_options change))"

definition require_exact_thread :: "thread_key \<Rightarrow> ledger_state \<Rightarrow> tracing_error + thread_state" where
  "require_exact_thread key state =
     (case ls_thread state of
        Some thread \<Rightarrow> if th_key thread = key then Inr thread else Inl (TraceThreadNotFound (tk_thread_id key))
      | None \<Rightarrow> Inl (TraceThreadNotFound (tk_thread_id key)))"

definition owned_writer :: "bool \<Rightarrow> ledger_change \<Rightarrow> ledger_state \<Rightarrow> tracing_error + thread_state \<times> writer_state" where
  "owned_writer require_unexpired change state =
     (case (lc_key change, lc_run_id change) of
        (Some key, Some run_id) \<Rightarrow>
          bindE (require_exact_thread key state) (\<lambda>thread.
          case ls_target_writer state of
            None \<Rightarrow> Inl (TraceStoreProtocolError ''Trace writer no longer owns its Run'')
          | Some writer \<Rightarrow>
              bindE (protocol (ws_run_id writer = run_id) ''Trace writer no longer owns its Run'') (\<lambda>_.
              bindE (protocol (ws_active writer \<and> lc_owner_token change = Some (ws_owner_token writer) \<and>
                  lc_fence change = Some (ws_fence writer) \<and> (require_unexpired \<longrightarrow> ls_observed_at state < ws_lease_expires_at writer))
                ''Trace writer lease ownership was lost'') (\<lambda>_.
              Inr (thread, writer))))
      | _ \<Rightarrow> Inl (TraceStoreProtocolError ''Owned writer change is incomplete''))"

definition thread_scopes :: "ledger_change \<Rightarrow> ledger_state \<Rightarrow> (string \<times> string) list" where
  "thread_scopes change state =
     List.map_filter id
       [map_option (\<lambda>i. (i_namespace i, i_thread_id i)) (lc_identity change),
        map_option (\<lambda>k. (tk_namespace k, tk_thread_id k)) (lc_key change),
        map_option (\<lambda>c. (tk_namespace (pc_key c), tk_thread_id (pc_key c))) (lc_checkpoint change),
        map_option (\<lambda>t. (tk_namespace (th_key t), tk_thread_id (th_key t))) (ls_thread state)]"

definition run_scopes :: "ledger_change \<Rightarrow> ledger_state \<Rightarrow> string list" where
  "run_scopes change state =
     List.map_filter id
       [lc_run_id change, map_option i_run_id (lc_identity change), Option.bind (lc_checkpoint change) pc_run_id,
        map_option ws_run_id (ls_target_writer state)]"

definition validate_change_scope :: "ledger_change \<Rightarrow> ledger_state \<Rightarrow> tracing_error + unit" where
  "validate_change_scope change state =
     (let keys = thread_scopes change state;
          runs = run_scopes change state;
          facts = map dr_fact (lc_facts change) @ map te_fact (lc_proven_events change)
      in
      bindE (protocol ((\<forall>k \<in> set keys. fst k = lc_namespace change) \<and> length (fromkeys (map snd keys)) \<le> 1)
        ''Trace Ledger thread identities conflict'') (\<lambda>_.
      bindE (protocol (\<forall>c \<in> set_option (lc_checkpoint change). \<forall>k \<in> set_option (lc_key change). pc_key c = k)
        ''Trace checkpoint generation identities conflict'') (\<lambda>_.
      bindE (protocol (length (fromkeys runs) \<le> 1) ''Trace Ledger Run identities conflict'') (\<lambda>_.
      bindE (protocol (\<forall>x \<in> set facts. keys \<noteq> [] \<and> i_namespace (fact_identity x) = lc_namespace change \<and>
          i_thread_id (fact_identity x) = snd (hd keys) \<and> fact_run x \<in> set runs)
        ''Trace writer can append facts only for its bound Run'') (\<lambda>_.
      protocol (\<forall>k \<in> set_option (lc_key change). \<forall>e \<in> set (lc_proven_events change). te_generation e = tk_generation k)
        ''Proven Trace events belong to another generation'')))))"

section \<open>Opening a writer\<close>

definition open_result :: "thread_key \<Rightarrow> string \<Rightarrow> string \<Rightarrow> int \<Rightarrow> commit_result" where
  "open_result key run_id owner_token fence =
     (plain_result OpenWriter key (Some run_id))\<lparr>lr_owner_token := Some owner_token, lr_fence := Some fence\<rparr>"

definition reopened_writer ::
  "ledger_change \<Rightarrow> ledger_state \<Rightarrow> thread_key \<Rightarrow> string \<Rightarrow> string \<Rightarrow> writer_state \<Rightarrow> tracing_error + ledger_effect" where
  "reopened_writer change state key run_id owner_token existing =
     (let renewed = existing\<lparr>ws_lease_expires_at := writer_lease_expiration change state, ws_active := True\<rparr>
      in if ws_owner_token existing = owner_token \<and> ws_active existing \<and> \<not> ws_closed_committed existing
         then Inr ((ledger_effect_of (open_result key run_id owner_token (ws_fence existing)))\<lparr>le_writer := Some renewed\<rparr>)
         else if \<not> ws_active existing \<or> ws_closed_committed existing then Inl (TraceRunConflict ''Trace Run identity already exists'')
         else if \<not> lc_enforce_writer_lease change \<or> ls_observed_at state < ws_lease_expires_at existing
         then Inl (TraceRunConflict ''Trace Run writer is still active'')
         else Inr ((ledger_effect_of (open_result key run_id owner_token (ws_fence existing + 1)))
                \<lparr>le_writer := Some (renewed\<lparr>ws_owner_token := owner_token, ws_fence := ws_fence existing + 1\<rparr>)\<rparr>))"

definition new_writer :: "ledger_change \<Rightarrow> ledger_state \<Rightarrow> string \<Rightarrow> string \<Rightarrow> writer_state" where
  "new_writer change state run_id owner_token =
     \<lparr>ws_run_id = run_id, ws_owner_token = owner_token, ws_fence = 1, ws_lease_expires_at = writer_lease_expiration change state,
      ws_active = True, ws_terminal_committed = False, ws_closed_committed = False, ws_committed_events = 0,
      ws_remaining_event_reserve = terminal_reserve_events_per_run (lc_limits change),
      ws_remaining_byte_reserve = terminal_reserve_bytes_per_run (lc_limits change)\<rparr>"

definition resolve_open_writer :: "string \<Rightarrow> ledger_change \<Rightarrow> ledger_state \<Rightarrow> tracing_error + ledger_effect" where
  "resolve_open_writer generation change state =
     (case (lc_identity change, lc_owner_token change) of
        (Some identity, Some owner_token) \<Rightarrow>
          let limits = lc_limits change; created = (ls_thread state = None); run_id = i_run_id identity
          in bindE (case ls_thread state of
                 None \<Rightarrow>
                   bindE (require (ls_namespace_thread_count state < max_tracer_threads limits)
                     (TraceQuotaExceeded ''Tracer thread quota is exhausted'' ''tracer_threads'')) (\<lambda>_.
                   Inr \<lparr>th_key = \<lparr>tk_namespace = lc_namespace change, tk_thread_id = i_thread_id identity, tk_generation = generation\<rparr>,
                        th_next_seq = 1, th_persisted_bytes = 0\<rparr>)
               | Some thread \<Rightarrow>
                   bindE (protocol (tk_namespace (th_key thread) = lc_namespace change) ''Trace namespace state is inconsistent'') (\<lambda>_.
                   Inr thread)) (\<lambda>thread.
             case ls_target_writer state of
               Some existing \<Rightarrow> reopened_writer change state (th_key thread) run_id owner_token existing
             | None \<Rightarrow>
                 bindE (require (th_next_seq thread - 1 + ls_thread_reserved_events state + terminal_reserve_events_per_run limits
                     \<le> max_thread_events limits) (TraceQuotaExceeded ''Thread cannot reserve terminal events'' ''thread_events'')) (\<lambda>_.
                 bindE (require (th_persisted_bytes thread + ls_thread_reserved_bytes state + terminal_reserve_bytes_per_run limits
                     \<le> max_thread_bytes limits) (TraceQuotaExceeded ''Thread cannot reserve terminal bytes'' ''thread_bytes'')) (\<lambda>_.
                 bindE (require (ls_namespace_persisted_bytes state + ls_namespace_reserved_bytes state +
                       terminal_reserve_bytes_per_run limits \<le> max_tracer_bytes limits)
                   (TraceQuotaExceeded ''Tracer cannot reserve terminal bytes'' ''tracer_bytes'')) (\<lambda>_.
                 Inr ((ledger_effect_of (open_result (th_key thread) run_id owner_token 1))
                   \<lparr>le_thread := (if created then Some thread else None), le_writer := Some (new_writer change state run_id owner_token),
                    le_thread_delta := (if created then 1 else 0),
                    le_reserved_bytes_delta := terminal_reserve_bytes_per_run limits\<rparr>)))))
      | _ \<Rightarrow> Inl (TraceStoreProtocolError ''Writer open change is incomplete''))"

section \<open>Appending\<close>

definition append_proven :: "ledger_change \<Rightarrow> ledger_state \<Rightarrow> tracing_error + ledger_effect" where
  "append_proven change state =
     (case lc_key change of
        None \<Rightarrow> Inl (TraceStoreProtocolError ''Proven append has no generation'')
      | Some key \<Rightarrow>
          bindE (require_exact_thread key state) (\<lambda>thread.
          let renewed = (case ls_target_writer state of
                None \<Rightarrow> None
              | Some writer \<Rightarrow>
                  if ws_active writer \<and> Some (ws_owner_token writer) = lc_owner_token change \<and> Some (ws_fence writer) = lc_fence change
                  then Some (writer\<lparr>ws_lease_expires_at := writer_lease_expiration change state, ws_active := True\<rparr>) else None)
          in Inr ((ledger_effect_of ((plain_result AppendEvents (th_key thread) (lc_run_id change))\<lparr>lr_events := lc_proven_events change\<rparr>))
                 \<lparr>le_writer := renewed\<rparr>)))"

fun lifecycle_phase :: "trace_fact \<Rightarrow> run_phase option" where
  "lifecycle_phase (RunFact f) = (if rf_phase f \<in> {RpTerminal, RpClosed} then Some (rf_phase f) else None)"
| "lifecycle_phase _ = None"

fun root_scoped :: "trace_fact \<Rightarrow> bool" where
  "root_scoped (RunFact f) \<longleftrightarrow> fb_graph_namespace f = [] \<and> \<not> fb_in_subagent_scope f"
| "root_scoped _ \<longleftrightarrow> True"

definition index_of :: "'a \<Rightarrow> 'a list \<Rightarrow> nat" where
  "index_of x xs = length (takeWhile (\<lambda>y. y \<noteq> x) xs)"

text \<open>The terminal and closed flags after the batch, or why the batch is out of order.\<close>

definition lifecycle_after :: "bool \<Rightarrow> writer_state \<Rightarrow> trace_fact list \<Rightarrow> tracing_error + bool \<times> bool" where
  "lifecycle_after mandatory writer facts =
     (let terminal = ws_terminal_committed writer; closed = ws_closed_committed writer
      in if \<not> mandatory
         then bindE (protocol (\<not> terminal \<and> \<not> closed) ''Ordinary Trace facts cannot follow the Run terminal'') (\<lambda>_.
              Inr (terminal, closed))
         else
           let phases = List.map_filter lifecycle_phase facts
           in bindE (protocol (count_list phases RpTerminal \<le> 1 \<and> count_list phases RpClosed \<le> 1)
                ''Run terminal and closed facts must be exactly-once'') (\<lambda>_.
              bindE (protocol (\<not> (terminal \<and> RpTerminal \<in> set phases)) ''Run terminal fact is already committed'') (\<lambda>_.
              bindE (protocol (\<not> closed) ''Run closed fact is already committed'') (\<lambda>_.
              bindE (protocol (RpClosed \<in> set phases \<longrightarrow> terminal \<or>
                  (RpTerminal \<in> set phases \<and> index_of RpTerminal phases < index_of RpClosed phases))
                ''Run closed fact requires a committed terminal fact'') (\<lambda>_.
              Inr (terminal \<or> RpTerminal \<in> set phases, RpClosed \<in> set phases))))))"

definition check_batch_kind :: "bool \<Rightarrow> trace_fact list \<Rightarrow> tracing_error + unit" where
  "check_batch_kind mandatory facts =
     (let terminal_batch = (\<forall>x \<in> set facts. lifecycle_phase x \<noteq> None);
          contains_terminal = (\<exists>x \<in> set facts. lifecycle_phase x \<noteq> None)
      in bindE (protocol (mandatory \<or> \<not> contains_terminal) ''Terminal and closed Run facts require a mandatory append'') (\<lambda>_.
         bindE (protocol (mandatory = terminal_batch) ''mandatory append is reserved for terminal and closed Run facts'') (\<lambda>_.
         protocol (\<forall>x \<in> set facts. root_scoped x) ''Run lifecycle facts require the root scope'')))"

fun built_events ::
  "(trace_event \<Rightarrow> int) \<Rightarrow> trace_limits \<Rightarrow> thread_key \<Rightarrow> string \<Rightarrow> int \<Rightarrow> stored_fact list \<Rightarrow> tracing_error + trace_event list" where
  "built_events json_size limits key run_id seq [] = Inr []"
| "built_events json_size limits key run_id seq (d # ds) =
     bindE (protocol (i_namespace (fact_identity (dr_fact d)) = tk_namespace key \<and> i_thread_id (fact_identity (dr_fact d)) = tk_thread_id key \<and>
         fact_run (dr_fact d) = run_id) ''Trace writer can append facts only for its bound Run'') (\<lambda>_.
     bindE (mk_event json_size (dr_event_id d) seq (tk_generation key) (dr_fact d)) (\<lambda>e.
     bindE (require (te_persisted_bytes e \<le> max_event_bytes limits)
       (TraceQuotaExceeded ''Trace event exceeds max_event_bytes'' ''event_bytes'')) (\<lambda>_.
     bindE (built_events json_size limits key run_id (seq + 1) ds) (\<lambda>es. Inr (e # es)))))"

definition stored_event_of :: "string \<Rightarrow> trace_event \<Rightarrow> stored_fact \<Rightarrow> stored_event" where
  "stored_event_of run_id e d =
     \<lparr>se_event_id = te_event_id e, se_trace_seq = te_trace_seq e, se_run_id = run_id, se_fact_kind = fact_kind (te_fact e),
      se_occurred_at = fb_occurred_at (base_of (te_fact e)), se_canonical_payload = dr_canonical_payload d,
      se_payload_digest = dr_payload_digest d, se_persisted_bytes = te_persisted_bytes e\<rparr>"

definition check_append_quota ::
  "ledger_change \<Rightarrow> ledger_state \<Rightarrow> thread_state \<Rightarrow> writer_state \<Rightarrow> int \<Rightarrow> int \<Rightarrow> tracing_error + unit" where
  "check_append_quota change state thread writer event_count added_bytes =
     (let limits = lc_limits change
      in if lc_mandatory change
         then require (event_count \<le> ws_remaining_event_reserve writer \<and> added_bytes \<le> ws_remaining_byte_reserve writer)
                (TraceQuotaExceeded ''Run terminal reserve is exhausted'' ''terminal_reserve'')
         else
           bindE (require (th_next_seq thread + event_count - 1 + ls_thread_reserved_events state \<le> max_thread_events limits)
             (TraceQuotaExceeded ''Thread event quota is exhausted'' ''thread_events'')) (\<lambda>_.
           bindE (require (th_persisted_bytes thread + added_bytes + ls_thread_reserved_bytes state \<le> max_thread_bytes limits)
             (TraceQuotaExceeded ''Thread byte quota is exhausted'' ''thread_bytes'')) (\<lambda>_.
           require (ls_namespace_persisted_bytes state + added_bytes + ls_namespace_reserved_bytes state \<le> max_tracer_bytes limits)
             (TraceQuotaExceeded ''Tracer byte quota is exhausted'' ''tracer_bytes''))))"

definition appended_writer ::
  "ledger_change \<Rightarrow> ledger_state \<Rightarrow> writer_state \<Rightarrow> bool \<times> bool \<Rightarrow> int \<Rightarrow> int \<Rightarrow> writer_state" where
  "appended_writer change state writer = (\<lambda>(terminal, closed) event_count added_bytes.
     writer\<lparr>ws_lease_expires_at := writer_lease_expiration change state, ws_active := True, ws_terminal_committed := terminal,
       ws_closed_committed := closed, ws_committed_events := ws_committed_events writer + event_count,
       ws_remaining_event_reserve := (if \<not> lc_mandatory change then ws_remaining_event_reserve writer
          else if closed then 0 else ws_remaining_event_reserve writer - event_count),
       ws_remaining_byte_reserve := (if \<not> lc_mandatory change then ws_remaining_byte_reserve writer
          else if closed then 0 else ws_remaining_byte_reserve writer - added_bytes)\<rparr>)"

definition append_facts ::
  "(bytes \<Rightarrow> string) \<Rightarrow> (trace_event \<Rightarrow> int) \<Rightarrow> ledger_change \<Rightarrow> ledger_state \<Rightarrow> tracing_error + ledger_effect" where
  "append_facts sha256 json_size change state =
     bindE (owned_writer (lc_enforce_writer_lease change) change state) (\<lambda>(thread, writer).
     let facts = map dr_fact (lc_facts change)
     in bindE (check_batch_kind (lc_mandatory change) facts) (\<lambda>_.
        bindE (lifecycle_after (lc_mandatory change) writer facts) (\<lambda>flags.
        bindE (built_events json_size (lc_limits change) (th_key thread) (ws_run_id writer) (th_next_seq thread) (lc_facts change)) (\<lambda>events.
        let count = int (length events); added = (\<Sum>e \<leftarrow> events. te_persisted_bytes e);
            updated = appended_writer change state writer flags count added
        in bindE (check_append_quota change state thread writer count added) (\<lambda>_.
           bindE (graph_node_mutations sha256 events) (\<lambda>mutations.
           Inr ((ledger_effect_of ((plain_result AppendEvents (th_key thread) (Some (ws_run_id writer)))\<lparr>lr_events := events\<rparr>))
             \<lparr>le_thread := Some (thread\<lparr>th_next_seq := th_next_seq thread + count,
                th_persisted_bytes := th_persisted_bytes thread + added\<rparr>),
              le_writer := Some updated,
              le_events := (if lc_persist_records change then map2 (stored_event_of (ws_run_id writer)) events (lc_facts change) else []),
              le_validated_events := events, le_graph_mutations := mutations, le_persisted_bytes_delta := added,
              le_reserved_bytes_delta := ws_remaining_byte_reserve updated - ws_remaining_byte_reserve writer\<rparr>)))))))"

definition resolve_append_events ::
  "(bytes \<Rightarrow> string) \<Rightarrow> (trace_event \<Rightarrow> int) \<Rightarrow> ledger_change \<Rightarrow> ledger_state \<Rightarrow> tracing_error + ledger_effect" where
  "resolve_append_events sha256 json_size change state =
     (if lc_proven_events change \<noteq> [] then append_proven change state
      else if lc_facts change = [] then Inl (TraceStoreProtocolError ''Trace append requires at least one fact'')
      else append_facts sha256 json_size change state)"

section \<open>Renewing and closing\<close>

definition resolve_renew_writer :: "ledger_change \<Rightarrow> ledger_state \<Rightarrow> tracing_error + ledger_effect" where
  "resolve_renew_writer change state =
     bindE (owned_writer (lc_enforce_writer_lease change \<and> \<not> lc_proven_renewal change) change state) (\<lambda>(thread, writer).
     Inr ((ledger_effect_of (plain_result RenewWriter (th_key thread) (Some (ws_run_id writer))))
       \<lparr>le_writer := Some (writer\<lparr>ws_lease_expires_at := writer_lease_expiration change state\<rparr>)\<rparr>))"

definition resolve_close_writer :: "ledger_change \<Rightarrow> ledger_state \<Rightarrow> tracing_error + ledger_effect" where
  "resolve_close_writer change state =
     (case (lc_key change, lc_run_id change) of
        (Some key, Some run_id) \<Rightarrow>
          let idle = ledger_effect_of (plain_result CloseWriter key (Some run_id))
          in (case (ls_thread state, ls_target_writer state) of
                (Some thread, Some writer) \<Rightarrow>
                  if th_key thread \<noteq> key then Inr idle
                  else if Some (ws_owner_token writer) \<noteq> lc_owner_token change \<or> Some (ws_fence writer) \<noteq> lc_fence change \<or> \<not> ws_active writer
                  then Inr idle
                  else if ws_committed_events writer = 0 then
                    let remove_thread = (th_next_seq thread = 1 \<and> ls_writer_count state = 1)
                    in Inr (idle\<lparr>le_remove_thread := remove_thread, le_remove_writer_run_id := Some run_id,
                          le_thread_delta := (if remove_thread then - 1 else 0),
                          le_reserved_bytes_delta := - ws_remaining_byte_reserve writer\<rparr>)
                  else Inr (idle\<lparr>le_writer := Some (writer\<lparr>ws_active := False, ws_remaining_event_reserve := 0, ws_remaining_byte_reserve := 0\<rparr>),
                         le_reserved_bytes_delta := - ws_remaining_byte_reserve writer\<rparr>)
              | _ \<Rightarrow> Inr idle)
      | _ \<Rightarrow> Inl (TraceStoreProtocolError ''Writer close change is incomplete''))"

section \<open>Checkpoints and deletion\<close>

definition checkpoint_result :: "projection_checkpoint \<Rightarrow> commit_result" where
  "checkpoint_result c = (plain_result SaveProjectionCheckpoint (pc_key c) None)\<lparr>lr_checkpoint := Some c\<rparr>"

definition resolve_save_checkpoint :: "ledger_change \<Rightarrow> ledger_state \<Rightarrow> tracing_error + ledger_effect" where
  "resolve_save_checkpoint change state =
     (case (lc_checkpoint change, lc_canonical_checkpoint_state change, lc_checkpoint_state_digest change) of
        (Some c, Some payload, Some digest) \<Rightarrow>
          bindE (require_exact_thread (pc_key c) state) (\<lambda>thread.
          bindE (protocol (pc_as_of_seq c \<le> th_next_seq thread - 1) ''Projection checkpoint exceeds the committed Trace prefix'') (\<lambda>_.
          let current = ls_current_checkpoint state; current_seq = map_option sc_as_of_seq current
          in if current_seq = Some (pc_as_of_seq c) then
               bindE (protocol (\<forall>old \<in> set_option current. sc_state_digest old = digest \<and> sc_canonical_state old = payload)
                 ''Projection checkpoint idempotency evidence conflicts'') (\<lambda>_. Inr (ledger_effect_of (checkpoint_result c)))
             else
               bindE (require (current_seq = lc_expected_as_of_seq change)
                 (TraceProjectionCheckpointConflict ''Projection checkpoint compare-and-swap failed'' current_seq)) (\<lambda>_.
               bindE (require (\<forall>n \<in> set_option current_seq. n < pc_as_of_seq c)
                 (TraceProjectionCheckpointConflict ''Projection checkpoint must advance its fixed prefix'' current_seq)) (\<lambda>_.
               Inr ((ledger_effect_of (checkpoint_result c))
                 \<lparr>le_checkpoint := Some \<lparr>sc_key = pc_key c, sc_projection_name = pc_projection_name c, sc_run_id = pc_run_id c,
                    sc_as_of_seq = pc_as_of_seq c, sc_canonical_state = payload, sc_state_digest = digest\<rparr>\<rparr>)))))
      | _ \<Rightarrow> Inl (TraceStoreProtocolError ''Projection checkpoint change is incomplete''))"

definition resolve_delete_generation :: "ledger_change \<Rightarrow> ledger_state \<Rightarrow> tracing_error + ledger_effect" where
  "resolve_delete_generation change state =
     (case lc_key change of
        None \<Rightarrow> Inl (TraceStoreProtocolError ''Generation delete change is incomplete'')
      | Some key \<Rightarrow>
          bindE (require_exact_thread key state) (\<lambda>thread.
          bindE (require (ls_active_writers state = []) (TraceRunConflict ''Active Trace writers prevent deletion'')) (\<lambda>_.
          Inr ((ledger_effect_of (plain_result DeleteGeneration key None))
            \<lparr>le_delete_generation := True, le_thread_delta := - 1, le_persisted_bytes_delta := - th_persisted_bytes thread,
             le_reserved_bytes_delta := - ls_thread_reserved_bytes state\<rparr>))))"

definition resolve_ledger_change ::
  "(bytes \<Rightarrow> string) \<Rightarrow> (trace_event \<Rightarrow> int) \<Rightarrow> string \<Rightarrow> ledger_change \<Rightarrow> ledger_state \<Rightarrow> tracing_error + ledger_effect" where
  "resolve_ledger_change sha256 json_size generation change state =
     bindE (validate_change_scope change state) (\<lambda>_.
     case lc_kind change of
       OpenWriter \<Rightarrow> resolve_open_writer generation change state
     | AppendEvents \<Rightarrow> resolve_append_events sha256 json_size change state
     | RenewWriter \<Rightarrow> resolve_renew_writer change state
     | CloseWriter \<Rightarrow> resolve_close_writer change state
     | SaveProjectionCheckpoint \<Rightarrow> resolve_save_checkpoint change state
     | DeleteGeneration \<Rightarrow> resolve_delete_generation change state)"

end
