(* ===== verification/Trace_Memory.thy ===== *)
theory Trace_Memory
  imports Trace_Ledger
begin

text \<open>
  \<open>_InMemoryTraceLedgerBackend\<close> of \<open>durable_store.py\<close>: the threads of the process, each with its writers, its events, its
  graph index and its checkpoints. Every method holds the condition for its whole body, so it is one step. The
  clock reading and the generation of a new thread are arguments.
\<close>

section \<open>State\<close>

record memory_event = stored_event +
  me_validated_event :: trace_event

record memory_thread =
  mt_state :: thread_state
  mt_writers :: "(string, writer_state) dict"
  mt_events :: "memory_event list"
  mt_graph_nodes :: revisions
  mt_checkpoints :: "(string \<times> string option, stored_checkpoint list) dict"

type_synonym trace_memory = "(string \<times> string, memory_thread) dict"

definition fresh_memory_thread :: "thread_state \<Rightarrow> memory_thread" where
  "fresh_memory_thread st = \<lparr>mt_state = st, mt_writers = [], mt_events = [], mt_graph_nodes = [], mt_checkpoints = []\<rparr>"

definition memory_slot :: "thread_key \<Rightarrow> string \<times> string" where
  "memory_slot key = (tk_namespace key, tk_thread_id key)"

definition memory_event_of :: "trace_event \<Rightarrow> bytes \<Rightarrow> string \<Rightarrow> memory_event" where
  "memory_event_of e payload digest =
     \<lparr>se_event_id = te_event_id e, se_trace_seq = te_trace_seq e, se_run_id = fact_run (te_fact e), se_fact_kind = fact_kind (te_fact e),
      se_occurred_at = fb_occurred_at (base_of (te_fact e)), se_canonical_payload = payload, se_payload_digest = digest,
      se_persisted_bytes = te_persisted_bytes e, me_validated_event = e\<rparr>"

text \<open>The lookup every read starts with.\<close>

definition exact_thread :: "thread_key \<Rightarrow> trace_memory \<Rightarrow> tracing_error + memory_thread" where
  "exact_thread key tm =
     (case dget tm (memory_slot key) of
        Some t \<Rightarrow> if th_key (mt_state t) = key then Inr t else Inl (TraceThreadNotFound (tk_thread_id key))
      | None \<Rightarrow> Inl (TraceThreadNotFound (tk_thread_id key)))"

section \<open>Requests and pages\<close>

record event_page_request =
  er_key :: thread_key
  er_forward :: bool
  er_limit :: int
  er_after_seq :: "int option"
  er_as_of_seq :: "int option"
  er_before_seq :: "int option"

record event_page =
  vp_key :: thread_key
  vp_tail_seq :: int
  vp_events :: "memory_event list"
  vp_active_run_ids :: "string list"
  vp_observed_at :: time

record checkpoint_request =
  cr_key :: thread_key
  cr_projection_name :: string
  cr_run_id :: "string option"
  cr_as_of_seq :: int

record rebuild_request =
  rr_key :: thread_key
  rr_as_of_seq :: int
  rr_mutations :: "node_mutation list"

section \<open>Reading the state\<close>

definition active_writers :: "time \<Rightarrow> memory_thread \<Rightarrow> writer_state list" where
  "active_writers now t = filter (\<lambda>w. ws_active w \<and> now < ws_lease_expires_at w) (dvalues (mt_writers t))"

definition reserved_events :: "memory_thread \<Rightarrow> int" where
  "reserved_events t = (\<Sum>w \<leftarrow> filter ws_active (dvalues (mt_writers t)). ws_remaining_event_reserve w)"

definition reserved_bytes :: "memory_thread \<Rightarrow> int" where
  "reserved_bytes t = (\<Sum>w \<leftarrow> filter ws_active (dvalues (mt_writers t)). ws_remaining_byte_reserve w)"

definition namespace_threads :: "string \<Rightarrow> trace_memory \<Rightarrow> memory_thread list" where
  "namespace_threads namespace tm = map snd (filter (\<lambda>((ns, i), t). ns = namespace) tm)"

definition memory_state ::
  "time \<Rightarrow> string \<Rightarrow> string \<Rightarrow> string option \<Rightarrow> checkpoint_request option \<Rightarrow> bool \<Rightarrow> trace_memory \<Rightarrow> ledger_state" where
  "memory_state now namespace thread_id run_id request include_active tm =
     (let ts = namespace_threads namespace tm; thread = dget tm (namespace, thread_id)
      in \<lparr>ls_observed_at = now, ls_namespace_thread_count = int (length ts),
          ls_namespace_persisted_bytes = (\<Sum>t \<leftarrow> ts. th_persisted_bytes (mt_state t)),
          ls_namespace_reserved_bytes = (\<Sum>t \<leftarrow> ts. reserved_bytes t), ls_thread = map_option mt_state thread,
          ls_target_writer = (case (run_id, thread) of (Some r, Some t) \<Rightarrow> dget (mt_writers t) r | _ \<Rightarrow> None),
          ls_writer_count = (case thread of None \<Rightarrow> 0 | Some t \<Rightarrow> int (length (mt_writers t))),
          ls_thread_reserved_events = (case thread of None \<Rightarrow> 0 | Some t \<Rightarrow> reserved_events t),
          ls_thread_reserved_bytes = (case thread of None \<Rightarrow> 0 | Some t \<Rightarrow> reserved_bytes t),
          ls_active_writers = (case thread of
             Some t \<Rightarrow> if include_active then map (\<lambda>w. \<lparr>sn_run_id = ws_run_id w, sn_committed_events = ws_committed_events w\<rparr>)
                        (sort_key ws_run_id (active_writers now t)) else []
           | None \<Rightarrow> []),
          ls_current_checkpoint = (case (thread, request) of
             (Some t, Some r) \<Rightarrow>
               (case dget (mt_checkpoints t) (cr_projection_name r, cr_run_id r) of
                  Some (c # cs) \<Rightarrow> Some (last (c # cs)) | _ \<Rightarrow> None)
           | _ \<Rightarrow> None)\<rparr>)"

definition checkpoint_request_of :: "projection_checkpoint \<Rightarrow> checkpoint_request" where
  "checkpoint_request_of c =
     \<lparr>cr_key = pc_key c, cr_projection_name = pc_projection_name c, cr_run_id = pc_run_id c, cr_as_of_seq = pc_as_of_seq c\<rparr>"

definition state_for_change :: "time \<Rightarrow> ledger_change \<Rightarrow> trace_memory \<Rightarrow> tracing_error + ledger_state" where
  "state_for_change now change tm =
     (let read = (\<lambda>thread_id run_id. memory_state now (lc_namespace change) thread_id run_id
            (map_option checkpoint_request_of (lc_checkpoint change)) (lc_kind change = DeleteGeneration) tm)
      in case (lc_identity change, lc_key change) of
           (Some i, _) \<Rightarrow> Inr (read (i_thread_id i) (Some (i_run_id i)))
         | (None, Some key) \<Rightarrow> Inr (read (tk_thread_id key) (lc_run_id change))
         | (None, None) \<Rightarrow> Inl (TraceStoreProtocolError ''Trace Ledger change has no thread identity''))"

text \<open>A slice \<open>xs[i:j]\<close>: negative bounds count from the end, both are clamped.\<close>

definition py_bound :: "int \<Rightarrow> nat \<Rightarrow> nat" where
  "py_bound i n = (if i < 0 then nat (i + int n) else min (nat i) n)"

definition py_slice :: "'a list \<Rightarrow> int \<Rightarrow> int \<Rightarrow> 'a list" where
  "py_slice xs i j = (let a = py_bound i (length xs) in take (py_bound j (length xs) - a) (drop a xs))"

definition page_records :: "event_page_request \<Rightarrow> int \<Rightarrow> memory_event list \<Rightarrow> memory_event list" where
  "page_records request tail events =
     (if er_forward request then
        let start = min (case er_after_seq request of None \<Rightarrow> 0 | Some n \<Rightarrow> n) tail;
            as_of = (case er_as_of_seq request of None \<Rightarrow> tail | Some n \<Rightarrow> n)
        in py_slice events start (min as_of (min tail (start + er_limit request)))
      else
        let before = (case er_before_seq request of None \<Rightarrow> tail + 1 | Some n \<Rightarrow> n)
        in if tail + 1 < before then [] else rev (py_slice events (max 0 (before - 1 - er_limit request)) (before - 1)))"

definition tm_read_event_page :: "time \<Rightarrow> event_page_request \<Rightarrow> trace_memory \<Rightarrow> tracing_error + event_page" where
  "tm_read_event_page now request tm =
     bindE (exact_thread (er_key request) tm) (\<lambda>t.
     let tail = th_next_seq (mt_state t) - 1
     in Inr \<lparr>vp_key = er_key request, vp_tail_seq = tail, vp_events = page_records request tail (mt_events t),
          vp_active_run_ids = sort (map ws_run_id (active_writers now t)), vp_observed_at = now\<rparr>)"

definition tm_load_checkpoint :: "checkpoint_request \<Rightarrow> trace_memory \<Rightarrow> tracing_error + stored_checkpoint option" where
  "tm_load_checkpoint request tm =
     bindE (exact_thread (cr_key request) tm) (\<lambda>t.
     Inr (find (\<lambda>c. sc_as_of_seq c \<le> cr_as_of_seq request)
       (rev (case dget (mt_checkpoints t) (cr_projection_name request, cr_run_id request) of None \<Rightarrow> [] | Some cs \<Rightarrow> cs))))"

section \<open>Committing\<close>

definition extended_events :: "ledger_change \<Rightarrow> ledger_effect \<Rightarrow> memory_event list" where
  "extended_events change effect =
     map (\<lambda>(e, d). memory_event_of e (dr_canonical_payload d) (dr_payload_digest d)) (zip (le_validated_events effect) (lc_facts change))"

text \<open>Within the thread: writer, events, graph, checkpoint. Whatever raises leaves the writes before it.\<close>

definition apply_thread_effect ::
  "(bytes \<Rightarrow> string) \<Rightarrow> ledger_change \<Rightarrow> ledger_effect \<Rightarrow> memory_thread \<Rightarrow> (tracing_error, memory_thread, unit) outcome" where
  "apply_thread_effect sha256 change effect t =
     (let removed = (case le_remove_writer_run_id effect of None \<Rightarrow> mt_writers t | Some r \<Rightarrow> ddel r (mt_writers t));
          writers = (case le_writer effect of None \<Rightarrow> removed | Some w \<Rightarrow> dput (ws_run_id w) w removed);
          t1 = t\<lparr>mt_writers := writers, mt_events := mt_events t @ extended_events change effect\<rparr>
      in check (require (le_validated_events effect = [] \<or> length (le_validated_events effect) = length (lc_facts change))
             (TraceValueError ''zip() arguments have different lengths'')) t1 (\<lambda>_.
         case apply_graph_events sha256 (le_validated_events effect) (mt_graph_nodes t1) of
           (Inl e, graph) \<Rightarrow> (Inl e, t1\<lparr>mt_graph_nodes := graph\<rparr>)
         | (Inr _, graph) \<Rightarrow>
             (Inr (), t1\<lparr>mt_graph_nodes := graph,
                mt_checkpoints := (case le_checkpoint effect of
                   None \<Rightarrow> mt_checkpoints t1
                 | Some c \<Rightarrow>
                     let slot = (sc_projection_name c, sc_run_id c)
                     in dput slot ((case dget (mt_checkpoints t1) slot of None \<Rightarrow> [] | Some cs \<Rightarrow> cs) @ [c]) (mt_checkpoints t1))\<rparr>)))"

definition with_thread_state :: "ledger_effect \<Rightarrow> trace_memory \<Rightarrow> trace_memory" where
  "with_thread_state effect tm =
     (case le_thread effect of
        None \<Rightarrow> tm
      | Some st \<Rightarrow>
          (case dget tm (memory_slot (th_key st)) of
             None \<Rightarrow> dput (memory_slot (th_key st)) (fresh_memory_thread st) tm
           | Some t \<Rightarrow> dput (memory_slot (th_key st)) (t\<lparr>mt_state := st\<rparr>) tm))"

definition apply_effect ::
  "(bytes \<Rightarrow> string) \<Rightarrow> ledger_change \<Rightarrow> ledger_effect \<Rightarrow> trace_memory \<Rightarrow> (tracing_error, trace_memory, unit) outcome" where
  "apply_effect sha256 change effect tm =
     (let key = or_else (lr_key (le_result effect)) (lc_key change)
      in if le_delete_generation effect \<or> le_remove_thread effect
         then (Inr (), case key of None \<Rightarrow> tm | Some k \<Rightarrow> ddel (memory_slot k) tm)
         else
           let tm1 = with_thread_state effect tm
           in case key of
                None \<Rightarrow> (Inr (), tm1)
              | Some k \<Rightarrow>
                  (case dget tm1 (memory_slot k) of
                     None \<Rightarrow> (Inr (), tm1)
                   | Some t \<Rightarrow> (case apply_thread_effect sha256 change effect t of (r, t') \<Rightarrow> (r, dput (memory_slot k) t' tm1))))"

definition tm_commit_ledger_change ::
  "(bytes \<Rightarrow> string) \<Rightarrow> (trace_event \<Rightarrow> int) \<Rightarrow> string \<Rightarrow> time \<Rightarrow> ledger_change \<Rightarrow> trace_memory \<Rightarrow>
   (tracing_error, trace_memory, commit_result) outcome" where
  "tm_commit_ledger_change sha256 json_size generation now change tm =
     check (state_for_change now change tm) tm (\<lambda>state.
     check (resolve_ledger_change sha256 json_size generation change state) tm (\<lambda>effect.
     and_then (apply_effect sha256 change effect tm) (\<lambda>_ tm'. (Inr (le_result effect), tm'))))"

section \<open>Rebuilding the graph\<close>

definition tm_rebuild_trace_graph :: "rebuild_request \<Rightarrow> trace_memory \<Rightarrow> (tracing_error, trace_memory, int) outcome" where
  "tm_rebuild_trace_graph request tm =
     check (exact_thread (rr_key request) tm) tm (\<lambda>t.
     check (protocol (th_next_seq (mt_state t) - 1 = rr_as_of_seq request) ''Trace Ledger changed while rebuilding the Graph'') tm (\<lambda>_.
     case apply_mutations (rr_mutations request) [] of
       (Inl e, rebuilt) \<Rightarrow> (Inl e, tm)
     | (Inr _, rebuilt) \<Rightarrow>
         (Inr (int (length (fromkeys (map gn_node_id (List.map_filter node_of (dvalues rebuilt)))))),
          dput (memory_slot (rr_key request)) (t\<lparr>mt_graph_nodes := rebuilt\<rparr>) tm)))"

end
