(* ===== verification/Trace_Store.thy ===== *)
theory Trace_Store
  imports Trace_Memory
begin

text \<open>
  \<open>DurableTraceStore\<close> and its writers (\<open>durable_store.py\<close>, \<open>_prepared.py\<close>) over the in-memory backend, whose preparation does
  nothing: changes built for the backend, the checks of what it returns, verified reads, the rebuild of the graph index.
  The canonical bytes of a fact, fresh identifiers and clock readings are arguments.
\<close>

section \<open>State\<close>

record store_config =
  ds_limits :: trace_limits
  ds_options :: trace_options
  ds_enforce_writer_leases :: bool

record follow_change =
  fc_revision :: int
  fc_followers :: int

record store_state =
  sx_memory :: trace_memory
  sx_follow_changes :: "(thread_key, follow_change) dict"

record trace_writer =
  wr_key :: thread_key
  wr_run_id :: string
  wr_owner_token :: string
  wr_fence :: int
  wr_closed :: bool
  wr_failure :: "tracing_error option"
  wr_close_task :: "(tracing_error + unit) option"

record store_snapshot =
  ss_key :: thread_key
  ss_as_of_seq :: int
  ss_persisted_bytes :: int
  ss_active_writers :: "writer_snapshot list"
  ss_observed_at :: time

record store_update =
  su_as_of_seq :: int
  su_events :: "trace_event list"
  su_active_run_ids :: "string list"
  su_observed_at :: time

section \<open>Checking a commit\<close>

fun consecutive :: "int list \<Rightarrow> bool" where
  "consecutive (x # y # xs) \<longleftrightarrow> y = x + 1 \<and> consecutive (y # xs)"
| "consecutive _ \<longleftrightarrow> True"

definition expected_events :: "(trace_event \<Rightarrow> int) \<Rightarrow> thread_key \<Rightarrow> (trace_event \<times> stored_fact) list \<Rightarrow> tracing_error + unit" where
  "expected_events json_size key pairs =
     foldr (\<lambda>(e, d) rest.
         bindE (mk_event json_size (dr_event_id d) (te_trace_seq e) (tk_generation key) (dr_fact d)) (\<lambda>expected.
         bindE (protocol (e = expected) ''Trace Ledger append result conflicts with its committed event'') (\<lambda>_. rest)))
       pairs (Inr ())"

definition validate_commit_result :: "(trace_event \<Rightarrow> int) \<Rightarrow> ledger_change \<Rightarrow> commit_result \<Rightarrow> tracing_error + unit" where
  "validate_commit_result json_size change result =
     (if lc_kind change = OpenWriter then
        protocol (case (lc_identity change, lr_key result) of
            (Some i, Some key) \<Rightarrow> tk_namespace key = lc_namespace change \<and> tk_thread_id key = i_thread_id i \<and>
              lr_run_id result = Some (i_run_id i) \<and> lr_owner_token result = lc_owner_token change \<and>
              (\<exists>n \<in> set_option (lr_fence result). 1 \<le> n)
          | _ \<Rightarrow> False) ''Trace Ledger writer result conflicts with its request''
      else
        bindE (protocol (lr_key result = lc_key change) ''Trace Ledger commit result conflicts with its generation'') (\<lambda>_.
        bindE (protocol (lc_kind change \<in> {AppendEvents, RenewWriter, CloseWriter} \<longrightarrow> lr_run_id result = lc_run_id change)
          ''Trace Ledger commit result conflicts with its Run'') (\<lambda>_.
        bindE (if lc_kind change \<noteq> AppendEvents then Inr ()
               else
                 bindE (protocol (map te_event_id (lr_events result) =
                     (if lc_proven_events change \<noteq> [] then map te_event_id (lc_proven_events change) else map dr_event_id (lc_facts change)))
                   ''Trace Ledger append result conflicts with its event evidence'') (\<lambda>_.
                 case lc_key change of
                   None \<Rightarrow> Inl (TraceStoreProtocolError ''Trace Ledger append result has incomplete event evidence'')
                 | Some key \<Rightarrow>
                     bindE (protocol (length (lr_events result) = length (lc_facts change))
                       ''Trace Ledger append result has incomplete event evidence'') (\<lambda>_.
                     bindE (expected_events json_size key (zip (lr_events result) (lc_facts change))) (\<lambda>_.
                     protocol (consecutive (map te_trace_seq (lr_events result))) ''Trace Ledger append result sequence is discontinuous'')))) (\<lambda>_.
        protocol (lc_kind change = SaveProjectionCheckpoint \<longrightarrow> lr_checkpoint result = lc_checkpoint change)
          ''Trace Ledger checkpoint result conflicts with its request''))))"

text \<open>A commit of the store wakes the local followers of the generation, renewals and checkpoints aside.\<close>

definition woken :: "change_kind \<Rightarrow> thread_key option \<Rightarrow> (thread_key, follow_change) dict \<Rightarrow> (thread_key, follow_change) dict" where
  "woken kind key changes =
     (case key of
        None \<Rightarrow> changes
      | Some k \<Rightarrow>
          if kind \<in> {RenewWriter, SaveProjectionCheckpoint} then changes
          else (case dget changes k of
              None \<Rightarrow> changes
            | Some c \<Rightarrow> dput k (c\<lparr>fc_revision := fc_revision c + 1\<rparr>) changes))"

definition store_commit ::
  "(bytes \<Rightarrow> string) \<Rightarrow> (trace_event \<Rightarrow> int) \<Rightarrow> string \<Rightarrow> time \<Rightarrow> ledger_change \<Rightarrow> store_state \<Rightarrow>
   (tracing_error, store_state, commit_result) outcome" where
  "store_commit sha256 json_size generation now change st =
     (case tm_commit_ledger_change sha256 json_size generation now change (sx_memory st) of (r, tm) \<Rightarrow>
        check r (st\<lparr>sx_memory := tm\<rparr>) (\<lambda>result.
        check (protocol (lr_kind result = lc_kind change) ''Trace Ledger backend returned an invalid commit result'') (st\<lparr>sx_memory := tm\<rparr>) (\<lambda>_.
        check (validate_commit_result json_size change result) (st\<lparr>sx_memory := tm\<rparr>) (\<lambda>_.
        (Inr result, st\<lparr>sx_memory := tm, sx_follow_changes := woken (lc_kind change) (lr_key result) (sx_follow_changes st)\<rparr>)))))"

section \<open>Writers\<close>

definition plain_change :: "store_config \<Rightarrow> change_kind \<Rightarrow> string \<Rightarrow> ledger_change" where
  "plain_change ds kind namespace =
     \<lparr>lc_kind = kind, lc_namespace = namespace, lc_limits = ds_limits ds, lc_options = ds_options ds, lc_identity = None, lc_key = None,
      lc_run_id = None, lc_owner_token = None, lc_fence = None, lc_facts = [], lc_mandatory = False, lc_checkpoint = None,
      lc_canonical_checkpoint_state = None, lc_checkpoint_state_digest = None, lc_expected_as_of_seq = None, lc_proven_events = [],
      lc_proven_renewal = False, lc_enforce_writer_lease = True, lc_persist_records = True\<rparr>"

definition writer_change :: "store_config \<Rightarrow> change_kind \<Rightarrow> trace_writer \<Rightarrow> ledger_change" where
  "writer_change ds kind w =
     (plain_change ds kind (tk_namespace (wr_key w)))
       \<lparr>lc_key := Some (wr_key w), lc_run_id := Some (wr_run_id w), lc_owner_token := Some (wr_owner_token w), lc_fence := Some (wr_fence w)\<rparr>"

definition store_open_writer ::
  "(bytes \<Rightarrow> string) \<Rightarrow> (trace_event \<Rightarrow> int) \<Rightarrow> store_config \<Rightarrow> string \<Rightarrow> string \<Rightarrow> time \<Rightarrow> run_identity \<Rightarrow> store_state \<Rightarrow>
   (tracing_error, store_state, trace_writer) outcome" where
  "store_open_writer sha256 json_size ds owner_token generation now identity st =
     and_then (store_commit sha256 json_size generation now
         ((plain_change ds OpenWriter (i_namespace identity))
            \<lparr>lc_identity := Some identity, lc_owner_token := Some owner_token, lc_enforce_writer_lease := ds_enforce_writer_leases ds\<rparr>) st)
       (\<lambda>result st'.
       case (lr_key result, lr_fence result) of
         (Some key, Some fence) \<Rightarrow>
           (Inr \<lparr>wr_key = key, wr_run_id = i_run_id identity, wr_owner_token = owner_token, wr_fence = fence, wr_closed = False,
              wr_failure = None, wr_close_task = None\<rparr>, st')
       | _ \<Rightarrow> (Inl (TraceStoreProtocolError ''Trace Ledger backend returned an invalid writer result''), st'))"

text \<open>\<open>prepare_trace_facts\<close>: every fact is encoded once, under a fresh event identifier.\<close>

definition prepare_trace_facts :: "(trace_fact \<Rightarrow> encoded_payload) \<Rightarrow> (nat \<Rightarrow> string) \<Rightarrow> trace_fact list \<Rightarrow> stored_fact list" where
  "prepare_trace_facts encode_fact uid facts =
     map2 (\<lambda>i x. \<lparr>dr_event_id = uid i, dr_fact = x, dr_canonical_payload = ep_data (encode_fact x), dr_payload_digest = ep_digest (encode_fact x),
         dr_exact_byte_count = int (length (ep_data (encode_fact x)))\<rparr>) [0..<length facts] facts"

definition append_change :: "store_config \<Rightarrow> trace_writer \<Rightarrow> stored_fact list \<Rightarrow> bool \<Rightarrow> ledger_change" where
  "append_change ds w prepared mandatory =
     (writer_change ds AppendEvents w)
       \<lparr>lc_facts := prepared, lc_mandatory := mandatory, lc_enforce_writer_lease := ds_enforce_writer_leases ds,
        lc_persist_records := ds_enforce_writer_leases ds\<rparr>"

definition writer_append ::
  "(bytes \<Rightarrow> string) \<Rightarrow> (trace_event \<Rightarrow> int) \<Rightarrow> (trace_fact \<Rightarrow> encoded_payload) \<Rightarrow> store_config \<Rightarrow> (nat \<Rightarrow> string) \<Rightarrow> string \<Rightarrow> time \<Rightarrow>
   trace_writer \<Rightarrow> trace_fact list \<Rightarrow> bool \<Rightarrow> store_state \<Rightarrow> (tracing_error, store_state, trace_event list) outcome" where
  "writer_append sha256 json_size encode_fact ds uid generation now w facts mandatory st =
     check (require (facts \<noteq> []) (TraceValueError ''facts must not be empty'')) st (\<lambda>_.
     check (protocol (\<not> wr_closed w) ''Trace writer is closed'') st (\<lambda>_.
     check (protocol (wr_failure w = None) ''Trace writer heartbeat failed'') st (\<lambda>_.
     and_then (store_commit sha256 json_size generation now (append_change ds w (prepare_trace_facts encode_fact uid facts) mandatory) st)
       (\<lambda>result st'. (Inr (lr_events result), st')))))"

text \<open>One turn of the heartbeat: a failed renewal stays with the writer.\<close>

definition heartbeat_turn ::
  "(bytes \<Rightarrow> string) \<Rightarrow> (trace_event \<Rightarrow> int) \<Rightarrow> store_config \<Rightarrow> string \<Rightarrow> time \<Rightarrow> trace_writer \<Rightarrow> store_state \<Rightarrow> trace_writer \<times> store_state" where
  "heartbeat_turn sha256 json_size ds generation now w st =
     (case store_commit sha256 json_size generation now (writer_change ds RenewWriter w) st of
        (Inl e, st') \<Rightarrow> (w\<lparr>wr_failure := Some e\<rparr>, st')
      | (Inr _, st') \<Rightarrow> (w, st'))"

text \<open>A failed heartbeat is raised in place of a failed close; the writer counts as closed either way.\<close>

definition close_once ::
  "(bytes \<Rightarrow> string) \<Rightarrow> (trace_event \<Rightarrow> int) \<Rightarrow> store_config \<Rightarrow> string \<Rightarrow> time \<Rightarrow> trace_writer \<Rightarrow> store_state \<Rightarrow>
   (tracing_error, trace_writer \<times> store_state, unit) outcome" where
  "close_once sha256 json_size ds generation now w st =
     (case store_commit sha256 json_size generation now
         ((writer_change ds CloseWriter w)\<lparr>lc_enforce_writer_lease := ds_enforce_writer_leases ds\<rparr>) st of
        (Inl e, st') \<Rightarrow> (Inl (case wr_failure w of Some failure \<Rightarrow> failure | None \<Rightarrow> e), w\<lparr>wr_closed := True\<rparr>, st')
      | (Inr _, st') \<Rightarrow> (Inr (), w\<lparr>wr_closed := True\<rparr>, st'))"

text \<open>Every later close returns the outcome of the first.\<close>

definition writer_aclose ::
  "(bytes \<Rightarrow> string) \<Rightarrow> (trace_event \<Rightarrow> int) \<Rightarrow> store_config \<Rightarrow> string \<Rightarrow> time \<Rightarrow> trace_writer \<Rightarrow> store_state \<Rightarrow>
   (tracing_error, trace_writer \<times> store_state, unit) outcome" where
  "writer_aclose sha256 json_size ds generation now w st =
     (case wr_close_task w of
        Some r \<Rightarrow> (r, w, st)
      | None \<Rightarrow> (case close_once sha256 json_size ds generation now w st of
          (r, w', st') \<Rightarrow> (r, w'\<lparr>wr_close_task := Some r\<rparr>, st')))"

section \<open>Reads\<close>

definition snapshot_from_state :: "ledger_state \<Rightarrow> string \<Rightarrow> string \<Rightarrow> thread_key option \<Rightarrow> tracing_error + store_snapshot" where
  "snapshot_from_state state namespace thread_id key =
     (case ls_thread state of
        None \<Rightarrow> Inl (TraceThreadNotFound thread_id)
      | Some thread \<Rightarrow>
          if tk_namespace (th_key thread) \<noteq> namespace \<or> tk_thread_id (th_key thread) \<noteq> thread_id \<or> (\<exists>k \<in> set_option key. th_key thread \<noteq> k)
          then Inl (TraceThreadNotFound thread_id)
          else Inr \<lparr>ss_key = th_key thread, ss_as_of_seq = th_next_seq thread - 1, ss_persisted_bytes = th_persisted_bytes thread,
                 ss_active_writers = ls_active_writers state, ss_observed_at = ls_observed_at state\<rparr>)"

definition store_snapshot_of :: "time \<Rightarrow> string \<Rightarrow> string \<Rightarrow> store_state \<Rightarrow> tracing_error + store_snapshot" where
  "store_snapshot_of now namespace thread_id st =
     snapshot_from_state (memory_state now namespace thread_id None None True (sx_memory st)) namespace thread_id None"

definition store_snapshot_key :: "time \<Rightarrow> thread_key \<Rightarrow> store_state \<Rightarrow> tracing_error + store_snapshot" where
  "store_snapshot_key now key st =
     snapshot_from_state (memory_state now (tk_namespace key) (tk_thread_id key) None None True (sx_memory st))
       (tk_namespace key) (tk_thread_id key) (Some key)"

text \<open>\<open>_decode_event\<close> for a record of the in-memory backend.\<close>

definition decode_event :: "(bytes \<Rightarrow> string) \<Rightarrow> thread_key \<Rightarrow> memory_event \<Rightarrow> tracing_error + trace_event" where
  "decode_event sha256 key m =
     bindE (codec_digest sha256 (se_canonical_payload m)) (\<lambda>digest.
     bindE (protocol (digest = se_payload_digest m) ''Trace event payload digest mismatch'') (\<lambda>_.
     let e = me_validated_event m; x = te_fact e
     in bindE (protocol (te_event_id e = se_event_id m \<and> te_trace_seq e = se_trace_seq m \<and> te_generation e = tk_generation key \<and>
            te_persisted_bytes e = se_persisted_bytes m \<and> i_thread_id (fact_identity x) = tk_thread_id key \<and>
            i_namespace (fact_identity x) = tk_namespace key \<and> fact_run x = se_run_id m \<and> fact_kind x = se_fact_kind m \<and>
            fb_occurred_at (base_of x) = se_occurred_at m) ''In-memory Trace event evidence conflicts'') (\<lambda>_.
        Inr e)))"

fun decode_events :: "(bytes \<Rightarrow> string) \<Rightarrow> thread_key \<Rightarrow> memory_event list \<Rightarrow> tracing_error + trace_event list" where
  "decode_events sha256 key [] = Inr []"
| "decode_events sha256 key (m # ms) =
     bindE (decode_event sha256 key m) (\<lambda>e. bindE (decode_events sha256 key ms) (\<lambda>es. Inr (e # es)))"

fun descending :: "int list \<Rightarrow> bool" where
  "descending (x # y # xs) \<longleftrightarrow> y = x - 1 \<and> descending (y # xs)"
| "descending _ \<longleftrightarrow> True"

definition page_order_ok :: "event_page_request \<Rightarrow> int \<Rightarrow> int list \<Rightarrow> bool" where
  "page_order_ok request tail sequences \<longleftrightarrow>
     (if er_forward request then
        let after = (case er_after_seq request of None \<Rightarrow> 0 | Some n \<Rightarrow> n);
            as_of = (case er_as_of_seq request of None \<Rightarrow> tail | Some n \<Rightarrow> n)
        in (\<forall>n \<in> set sequences. after < n \<and> n \<le> as_of \<and> n \<le> tail) \<and> consecutive sequences \<and>
           (after < min as_of tail \<longrightarrow> sequences \<noteq> [] \<and> hd sequences = after + 1)
      else
        let before = (case er_before_seq request of None \<Rightarrow> tail + 1 | Some n \<Rightarrow> n)
        in (\<forall>n \<in> set sequences. 1 \<le> n \<and> n < before \<and> n \<le> tail) \<and> descending sequences \<and>
           (before \<le> tail + 1 \<and> 1 \<le> min (before - 1) tail \<longrightarrow> sequences \<noteq> [] \<and> hd sequences = min (before - 1) tail))"

definition decode_event_page :: "(bytes \<Rightarrow> string) \<Rightarrow> event_page_request \<Rightarrow> event_page \<Rightarrow> tracing_error + trace_event list" where
  "decode_event_page sha256 request page =
     bindE (protocol (vp_key page = er_key request) ''Trace event page does not match the requested generation'') (\<lambda>_.
     bindE (protocol ((\<forall>r \<in> set (vp_active_run_ids page). r \<noteq> [] \<and> canonical r) \<and> distinct (vp_active_run_ids page))
       ''Trace event page has invalid active Runs'') (\<lambda>_.
     bindE (protocol (int (length (vp_events page)) \<le> er_limit request) ''Trace event page exceeds its requested limit'') (\<lambda>_.
     bindE (protocol (page_order_ok request (vp_tail_seq page) (map se_trace_seq (vp_events page)))
       ''Trace event page violates requested ordering'') (\<lambda>_.
     decode_events sha256 (er_key request) (vp_events page)))))"

definition forward_request :: "thread_key \<Rightarrow> int \<Rightarrow> int option \<Rightarrow> int \<Rightarrow> event_page_request" where
  "forward_request key after as_of limit =
     \<lparr>er_key = key, er_forward = True, er_limit = limit, er_after_seq = Some after, er_as_of_seq = as_of, er_before_seq = None\<rparr>"

definition store_read_events :: "(bytes \<Rightarrow> string) \<Rightarrow> time \<Rightarrow> thread_key \<Rightarrow> int \<Rightarrow> int \<Rightarrow> int \<Rightarrow> store_state \<Rightarrow> tracing_error + trace_event list" where
  "store_read_events sha256 now key after as_of limit st =
     bindE (require (0 \<le> after \<and> 0 \<le> as_of \<and> 1 \<le> limit) (TraceValueError ''event cursor values must be non-negative and bounded'')) (\<lambda>_.
     let request = forward_request key after (Some as_of) limit
     in bindE (tm_read_event_page now request (sx_memory st)) (decode_event_page sha256 request))"

definition store_read_events_reverse :: "(bytes \<Rightarrow> string) \<Rightarrow> time \<Rightarrow> thread_key \<Rightarrow> int \<Rightarrow> int \<Rightarrow> store_state \<Rightarrow> tracing_error + trace_event list" where
  "store_read_events_reverse sha256 now key before limit st =
     bindE (require (1 \<le> before \<and> 1 \<le> limit) (TraceValueError ''reverse event cursor values must be positive'')) (\<lambda>_.
     let request = \<lparr>er_key = key, er_forward = False, er_limit = limit, er_after_seq = None, er_as_of_seq = None, er_before_seq = Some before\<rparr>
     in bindE (tm_read_event_page now request (sx_memory st)) (\<lambda>page.
        bindE (decode_event_page sha256 request page) (\<lambda>events.
        bindE (require (before \<le> vp_tail_seq page + 1) (TraceValueError ''before_seq exceeds the current Trace tail'')) (\<lambda>_.
        Inr events))))"

section \<open>Rebuilding the graph\<close>

partial_function (option) rebuild_loop ::
  "(bytes \<Rightarrow> string) \<Rightarrow> (nat \<Rightarrow> time) \<Rightarrow> int \<Rightarrow> thread_key \<Rightarrow> int \<Rightarrow> store_state \<Rightarrow> nat \<Rightarrow> int \<Rightarrow> revisions \<Rightarrow> (tracing_error + revisions) option"
  where
  "rebuild_loop sha256 clock batch key as_of st n after revs =
     (if as_of \<le> after then Some (Inr revs)
      else case store_read_events sha256 (clock n) key after as_of batch st of
          Inl e \<Rightarrow> Some (Inl e)
        | Inr page \<Rightarrow>
            if page = [] then Some (Inl (TraceStoreProtocolError ''Trace Ledger ended before the Graph rebuild prefix''))
            else case apply_graph_events sha256 page revs of
                (Inl e, revs') \<Rightarrow> Some (Inl e)
              | (Inr _, revs') \<Rightarrow> rebuild_loop sha256 clock batch key as_of st (n + 1) (te_trace_seq (last page)) revs')"

definition store_rebuild_trace_graph ::
  "(bytes \<Rightarrow> string) \<Rightarrow> store_config \<Rightarrow> (nat \<Rightarrow> time) \<Rightarrow> thread_key \<Rightarrow> store_state \<Rightarrow> (tracing_error, store_state, int) outcome option" where
  "store_rebuild_trace_graph sha256 ds clock key st =
     (case store_snapshot_key (clock 0) key st of
        Inl e \<Rightarrow> Some (Inl e, st)
      | Inr snapshot \<Rightarrow>
          (case rebuild_loop sha256 clock (follow_batch_size (ds_limits ds)) key (ss_as_of_seq snapshot) st 1 0 [] of
             None \<Rightarrow> None
           | Some (Inl e) \<Rightarrow> Some (Inl e, st)
           | Some (Inr revs) \<Rightarrow>
               Some (check (graph_revision_mutations (dvalues revs)) st (\<lambda>ms.
                 case tm_rebuild_trace_graph \<lparr>rr_key = key, rr_as_of_seq = ss_as_of_seq snapshot, rr_mutations = ms\<rparr> (sx_memory st) of
                   (r, tm) \<Rightarrow> (r, st\<lparr>sx_memory := tm\<rparr>)))))"

section \<open>Checkpoints and deletion\<close>

definition checkpoint_lookup :: "string \<Rightarrow> string option \<Rightarrow> int \<Rightarrow> tracing_error + unit" where
  "checkpoint_lookup projection_name run_id as_of =
     bindE (demand (projection_name \<noteq> [] \<and> canonical projection_name) ''projection_name must be canonical text'') (\<lambda>_.
     bindE (demand (\<forall>r \<in> set_option run_id. r \<noteq> [] \<and> canonical r) ''run_id must be canonical text'') (\<lambda>_.
     demand (0 \<le> as_of) ''as_of_seq must be non-negative''))"

text \<open>\<open>decode_json\<close> stands for the decoder of the codec.\<close>

definition decode_checkpoint ::
  "(bytes \<Rightarrow> string) \<Rightarrow> (bytes \<Rightarrow> tracing_error + json_value) \<Rightarrow> checkpoint_request \<Rightarrow> stored_checkpoint \<Rightarrow>
   tracing_error + projection_checkpoint" where
  "decode_checkpoint sha256 decode_json request c =
     bindE (protocol (sc_key c = cr_key request \<and> sc_projection_name c = cr_projection_name request \<and> sc_run_id c = cr_run_id request \<and>
         sc_as_of_seq c \<le> cr_as_of_seq request) ''Projection checkpoint does not match the requested scope'') (\<lambda>_.
     bindE (codec_digest sha256 (sc_canonical_state c)) (\<lambda>digest.
     bindE (protocol (digest = sc_state_digest c) ''Projection checkpoint digest mismatch'') (\<lambda>_.
     bindE (decode_json (sc_canonical_state c)) (\<lambda>value.
     mk_projection_checkpoint \<lparr>pc_key = sc_key c, pc_projection_name = sc_projection_name c, pc_run_id = sc_run_id c,
       pc_as_of_seq = sc_as_of_seq c, pc_state = value\<rparr>))))"

definition store_load_checkpoint ::
  "(bytes \<Rightarrow> string) \<Rightarrow> (bytes \<Rightarrow> tracing_error + json_value) \<Rightarrow> thread_key \<Rightarrow> string \<Rightarrow> string option \<Rightarrow> int \<Rightarrow> store_state \<Rightarrow>
   tracing_error + projection_checkpoint option" where
  "store_load_checkpoint sha256 decode_json key projection_name run_id as_of st =
     bindE (checkpoint_lookup projection_name run_id as_of) (\<lambda>_.
     let request = \<lparr>cr_key = key, cr_projection_name = projection_name, cr_run_id = run_id, cr_as_of_seq = as_of\<rparr>
     in bindE (tm_load_checkpoint request (sx_memory st)) (\<lambda>stored.
        case stored of
          None \<Rightarrow> Inr None
        | Some c \<Rightarrow> bindE (decode_checkpoint sha256 decode_json request c) (\<lambda>checkpoint. Inr (Some checkpoint))))"

definition save_change :: "(bytes \<Rightarrow> string) \<Rightarrow> store_config \<Rightarrow> projection_checkpoint \<Rightarrow> int option \<Rightarrow> ledger_change" where
  "save_change sha256 ds c expected =
     (plain_change ds SaveProjectionCheckpoint (tk_namespace (pc_key c)))
       \<lparr>lc_key := Some (pc_key c), lc_checkpoint := Some c,
        lc_canonical_checkpoint_state := Some (ep_data (codec_encode_json sha256 (pc_state c))),
        lc_checkpoint_state_digest := Some (ep_digest (codec_encode_json sha256 (pc_state c))), lc_expected_as_of_seq := expected\<rparr>"

definition store_save_checkpoint ::
  "(bytes \<Rightarrow> string) \<Rightarrow> (trace_event \<Rightarrow> int) \<Rightarrow> store_config \<Rightarrow> string \<Rightarrow> time \<Rightarrow> projection_checkpoint \<Rightarrow> int option \<Rightarrow> store_state \<Rightarrow>
   (tracing_error, store_state, projection_checkpoint) outcome" where
  "store_save_checkpoint sha256 json_size ds generation now c expected st =
     check (demand (\<forall>n \<in> set_option expected. 0 \<le> n) ''expected_as_of_seq must be non-negative or None'') st (\<lambda>_.
     and_then (store_commit sha256 json_size generation now (save_change sha256 ds c expected) st) (\<lambda>result st'.
     case lr_checkpoint result of
       None \<Rightarrow> (Inl (TraceStoreProtocolError ''Trace Ledger backend returned an invalid checkpoint result''), st')
     | Some saved \<Rightarrow> (Inr saved, st')))"

definition store_delete ::
  "(bytes \<Rightarrow> string) \<Rightarrow> (trace_event \<Rightarrow> int) \<Rightarrow> store_config \<Rightarrow> string \<Rightarrow> time \<Rightarrow> thread_key \<Rightarrow> store_state \<Rightarrow> (tracing_error, store_state, unit) outcome" where
  "store_delete sha256 json_size ds generation now key st =
     and_then (store_commit sha256 json_size generation now
         ((plain_change ds DeleteGeneration (tk_namespace key))\<lparr>lc_key := Some key\<rparr>) st) (\<lambda>_ st'. (Inr (), st'))"

section \<open>Following\<close>

definition follow_join :: "thread_key \<Rightarrow> (thread_key, follow_change) dict \<Rightarrow> (thread_key, follow_change) dict" where
  "follow_join key changes =
     (let c = (case dget changes key of None \<Rightarrow> \<lparr>fc_revision = 0, fc_followers = 0\<rparr> | Some c \<Rightarrow> c)
      in dput key (c\<lparr>fc_followers := fc_followers c + 1\<rparr>) changes)"

definition follow_leave :: "thread_key \<Rightarrow> (thread_key, follow_change) dict \<Rightarrow> (thread_key, follow_change) dict" where
  "follow_leave key changes =
     (case dget changes key of
        None \<Rightarrow> changes
      | Some c \<Rightarrow> if fc_followers c - 1 = 0 then ddel key changes else dput key (c\<lparr>fc_followers := fc_followers c - 1\<rparr>) changes)"

text \<open>
  One read of a follower: the page, the update it yields if any, and its cursor. Without new events the follower then
  waits for a change of its generation or for the poll interval.
\<close>

definition trace_follow_turn ::
  "(bytes \<Rightarrow> string) \<Rightarrow> store_config \<Rightarrow> time \<Rightarrow> thread_key \<Rightarrow> int \<times> string list option \<Rightarrow> store_state \<Rightarrow>
   tracing_error + (store_update option \<times> int \<times> string list option \<times> bool)" where
  "trace_follow_turn sha256 ds now key = (\<lambda>(cursor, active) st.
     let request = forward_request key cursor None (follow_batch_size (ds_limits ds))
     in bindE (tm_read_event_page now request (sx_memory st)) (\<lambda>page.
        bindE (decode_event_page sha256 request page) (\<lambda>batch.
        let cursor' = (if batch = [] then cursor else te_trace_seq (last batch));
            update = (if batch \<noteq> [] \<or> active \<noteq> Some (vp_active_run_ids page)
              then Some \<lparr>su_as_of_seq = cursor', su_events = batch, su_active_run_ids = vp_active_run_ids page,
                su_observed_at = vp_observed_at page\<rparr> else None)
        in Inr (update, cursor', if update = None then active else Some (vp_active_run_ids page), batch \<noteq> []))))"

text \<open>The updates a follower yields before it waits.\<close>

partial_function (option) follow_until_idle ::
  "(bytes \<Rightarrow> string) \<Rightarrow> store_config \<Rightarrow> (nat \<Rightarrow> time) \<Rightarrow> thread_key \<Rightarrow> store_state \<Rightarrow> nat \<Rightarrow> int \<times> string list option \<Rightarrow> store_update list \<Rightarrow>
   (tracing_error + store_update list) option" where
  "follow_until_idle sha256 ds clock key st n position updates =
     (case trace_follow_turn sha256 ds (clock n) key position st of
        Inl e \<Rightarrow> Some (Inl e)
      | Inr (update, cursor, active, again) \<Rightarrow>
          let updates' = updates @ (case update of None \<Rightarrow> [] | Some u \<Rightarrow> [u])
          in if again then follow_until_idle sha256 ds clock key st (n + 1) (cursor, active) updates' else Some (Inr updates'))"

end
