(* ===== verification/Trace_Memory_Inv.thy ===== *)
theory Trace_Memory_Inv
  imports Trace_Memory
begin

text \<open>
  What a commit can do to a thread: the moves of the ledger, and the proof that every commit of the in-memory backend
  is one of them at the slot of its change. The invariants of the backend are then facts about moves.
\<close>

section \<open>Shapes of accepted changes\<close>

definition fresh_writer :: "trace_limits \<Rightarrow> writer_state \<Rightarrow> bool" where
  "fresh_writer L w \<longleftrightarrow>
     ws_active w \<and> ws_fence w = 1 \<and> \<not> ws_terminal_committed w \<and> \<not> ws_closed_committed w \<and> ws_committed_events w = 0 \<and>
     ws_remaining_event_reserve w = terminal_reserve_events_per_run L \<and> ws_remaining_byte_reserve w = terminal_reserve_bytes_per_run L"

definition event_usage :: "memory_thread \<Rightarrow> int" where
  "event_usage t = th_next_seq (mt_state t) - 1 + reserved_events t"

definition byte_usage :: "memory_thread \<Rightarrow> int" where
  "byte_usage t = th_persisted_bytes (mt_state t) + reserved_bytes t"

definition namespace_bytes :: "string \<Rightarrow> trace_memory \<Rightarrow> int" where
  "namespace_bytes namespace tm = (\<Sum>t \<leftarrow> namespace_threads namespace tm. byte_usage t)"

text \<open>The same Run under a possibly newer lease, owner and fence.\<close>

definition held_writer :: "writer_state \<Rightarrow> writer_state \<Rightarrow> bool" where
  "held_writer w w' \<longleftrightarrow>
     (\<exists>token fence lease. ws_fence w \<le> fence \<and>
        w' = w\<lparr>ws_owner_token := token, ws_fence := fence, ws_lease_expires_at := lease, ws_active := True\<rparr>)"

definition append_after :: "bool \<Rightarrow> writer_state \<Rightarrow> trace_event list \<Rightarrow> writer_state \<Rightarrow> bool" where
  "append_after mandatory w es w' \<longleftrightarrow>
     (\<exists>flags lease.
        check_batch_kind mandatory (map te_fact es) = Inr () \<and> lifecycle_after mandatory w (map te_fact es) = Inr flags \<and>
        w' = w\<lparr>ws_lease_expires_at := lease, ws_active := True, ws_terminal_committed := fst flags,
          ws_closed_committed := snd flags, ws_committed_events := ws_committed_events w + int (length es),
          ws_remaining_event_reserve := (if \<not> mandatory then ws_remaining_event_reserve w
             else if snd flags then 0 else ws_remaining_event_reserve w - int (length es)),
          ws_remaining_byte_reserve := (if \<not> mandatory then ws_remaining_byte_reserve w
             else if snd flags then 0 else ws_remaining_byte_reserve w - (\<Sum>e \<leftarrow> es. te_persisted_bytes e))\<rparr> \<and>
        (mandatory \<longrightarrow> int (length es) \<le> ws_remaining_event_reserve w \<and>
           (\<Sum>e \<leftarrow> es. te_persisted_bytes e) \<le> ws_remaining_byte_reserve w))"

definition numbered_events ::
  "(trace_event \<Rightarrow> int) \<Rightarrow> trace_limits \<Rightarrow> thread_key \<Rightarrow> string \<Rightarrow> int \<Rightarrow> trace_event list \<Rightarrow> bool" where
  "numbered_events json_size L key run_id seq es \<longleftrightarrow>
     map te_trace_seq es = map (\<lambda>i. seq + int i) [0..<length es] \<and>
     (\<forall>e \<in> set es. te_generation e = tk_generation key \<and> i_namespace (fact_identity (te_fact e)) = tk_namespace key \<and>
        i_thread_id (fact_identity (te_fact e)) = tk_thread_id key \<and> fact_run (te_fact e) = run_id \<and>
        te_persisted_bytes e = json_size e \<and> json_size e \<le> max_event_bytes L)"

definition holds_events :: "memory_event list \<Rightarrow> trace_event list \<Rightarrow> bool" where
  "holds_events ms es \<longleftrightarrow> (\<exists>payloads. length payloads = length es \<and>
     ms = map (\<lambda>(e, payload, digest). memory_event_of e payload digest) (zip es payloads))"

section \<open>Moves\<close>

text \<open>\<open>threads\<close> and \<open>bytes\<close> are the threads and the bytes in use in the namespace before the move, at \<open>slot\<close>; \<open>run\<close> the Run a change may open.\<close>

inductive thread_move ::
  "(bytes \<Rightarrow> string) \<Rightarrow> (trace_event \<Rightarrow> int) \<Rightarrow> trace_limits \<Rightarrow> string \<Rightarrow> string option \<Rightarrow> int \<Rightarrow> int \<Rightarrow>
   string \<times> string \<Rightarrow> memory_thread option \<Rightarrow> memory_thread option \<Rightarrow> bool"
  for sha256 json_size L generation run threads bytes slot where
  created: "fresh_writer L w \<Longrightarrow> run = Some (ws_run_id w) \<Longrightarrow> tk_generation key = generation \<Longrightarrow> memory_slot key = slot \<Longrightarrow> threads < max_tracer_threads L \<Longrightarrow>
     terminal_reserve_events_per_run L \<le> max_thread_events L \<Longrightarrow> terminal_reserve_bytes_per_run L \<le> max_thread_bytes L \<Longrightarrow>
     bytes + terminal_reserve_bytes_per_run L \<le> max_tracer_bytes L \<Longrightarrow>
     t = (fresh_memory_thread \<lparr>th_key = key, th_next_seq = 1, th_persisted_bytes = 0\<rparr>)\<lparr>mt_writers := [(ws_run_id w, w)]\<rparr> \<Longrightarrow>
     thread_move sha256 json_size L generation run threads bytes slot None (Some t)"
| opened: "fresh_writer L w \<Longrightarrow> run = Some (ws_run_id w) \<Longrightarrow> dget (mt_writers t) (ws_run_id w) = None \<Longrightarrow>
     event_usage t + terminal_reserve_events_per_run L \<le> max_thread_events L \<Longrightarrow>
     byte_usage t + terminal_reserve_bytes_per_run L \<le> max_thread_bytes L \<Longrightarrow>
     bytes + terminal_reserve_bytes_per_run L \<le> max_tracer_bytes L \<Longrightarrow>
     thread_move sha256 json_size L generation run threads bytes slot (Some t) (Some (t\<lparr>mt_writers := dput (ws_run_id w) w (mt_writers t)\<rparr>))"
| held: "dget (mt_writers t) (ws_run_id w) = Some w \<Longrightarrow> ws_active w \<Longrightarrow> held_writer w w' \<Longrightarrow>
     thread_move sha256 json_size L generation run threads bytes slot (Some t) (Some (t\<lparr>mt_writers := dput (ws_run_id w) w' (mt_writers t)\<rparr>))"
| appended: "dget (mt_writers t) (ws_run_id w) = Some w \<Longrightarrow> ws_active w \<Longrightarrow> es \<noteq> [] \<Longrightarrow>
     numbered_events json_size L (th_key (mt_state t)) (ws_run_id w) (th_next_seq (mt_state t)) es \<Longrightarrow>
     (\<not> mandatory \<Longrightarrow> event_usage t + int (length es) \<le> max_thread_events L \<and>
        byte_usage t + (\<Sum>e \<leftarrow> es. te_persisted_bytes e) \<le> max_thread_bytes L \<and>
        bytes + (\<Sum>e \<leftarrow> es. te_persisted_bytes e) \<le> max_tracer_bytes L) \<Longrightarrow>
     append_after mandatory w es w' \<Longrightarrow> holds_events ms es \<Longrightarrow> graph = snd (apply_graph_events sha256 es (mt_graph_nodes t)) \<Longrightarrow>
     t' = t\<lparr>mt_state := (mt_state t)\<lparr>th_next_seq := th_next_seq (mt_state t) + int (length es),
         th_persisted_bytes := th_persisted_bytes (mt_state t) + (\<Sum>e \<leftarrow> es. te_persisted_bytes e)\<rparr>,
       mt_writers := dput (ws_run_id w) w' (mt_writers t), mt_events := mt_events t @ ms, mt_graph_nodes := graph\<rparr> \<Longrightarrow>
     thread_move sha256 json_size L generation run threads bytes slot (Some t) (Some t')"
| closed: "dget (mt_writers t) (ws_run_id w) = Some w \<Longrightarrow> ws_active w \<Longrightarrow> ws_committed_events w \<noteq> 0 \<Longrightarrow>
     w' = w\<lparr>ws_active := False, ws_remaining_event_reserve := 0, ws_remaining_byte_reserve := 0\<rparr> \<Longrightarrow>
     thread_move sha256 json_size L generation run threads bytes slot (Some t) (Some (t\<lparr>mt_writers := dput (ws_run_id w) w' (mt_writers t)\<rparr>))"
| dropped: "dget (mt_writers t) (ws_run_id w) = Some w \<Longrightarrow> ws_active w \<Longrightarrow> ws_committed_events w = 0 \<Longrightarrow>
     thread_move sha256 json_size L generation run threads bytes slot (Some t) (Some (t\<lparr>mt_writers := ddel (ws_run_id w) (mt_writers t)\<rparr>))"
| removed: "thread_move sha256 json_size L generation run threads bytes slot (Some t) None"
| saved: "sc_key c = th_key (mt_state t) \<Longrightarrow> sc_as_of_seq c < th_next_seq (mt_state t) \<Longrightarrow> name = (sc_projection_name c, sc_run_id c) \<Longrightarrow>
     old = (case dget (mt_checkpoints t) name of None \<Rightarrow> [] | Some cs \<Rightarrow> cs) \<Longrightarrow>
     (old \<noteq> [] \<longrightarrow> sc_as_of_seq (last old) < sc_as_of_seq c) \<Longrightarrow>
     thread_move sha256 json_size L generation run threads bytes slot (Some t) (Some (t\<lparr>mt_checkpoints := dput name (old @ [c]) (mt_checkpoints t)\<rparr>))"

section \<open>Well-formed memories\<close>

text \<open>What the lookups rely on: every thread sits at the slot of its key, every writer at its Run.\<close>

definition slots_ok :: "trace_memory \<Rightarrow> bool" where
  "slots_ok tm \<longleftrightarrow> dwf tm \<and>
     (\<forall>k t. dget tm k = Some t \<longrightarrow> memory_slot (th_key (mt_state t)) = k \<and> dwf (mt_writers t) \<and>
        (\<forall>r w. dget (mt_writers t) r = Some w \<longrightarrow> ws_run_id w = r))"

lemma slots_okD:
  assumes "slots_ok tm" "dget tm k = Some t"
  shows "memory_slot (th_key (mt_state t)) = k" "dwf (mt_writers t)" "dget (mt_writers t) r = Some w \<Longrightarrow> ws_run_id w = r"
  using assms by (auto simp: slots_ok_def)

lemma slots_ok_dwf: "slots_ok tm \<Longrightarrow> dwf tm"
  by (simp add: slots_ok_def)

section \<open>Events of a batch\<close>

lemma mk_event_Inr:
  "mk_event json_size i seq g x = Inr e \<Longrightarrow>
     te_event_id e = i \<and> te_trace_seq e = seq \<and> te_generation e = g \<and> te_fact e = x \<and> te_persisted_bytes e = json_size e"
  unfolding mk_event_def by (drule settle_event_Inr) (metis trace_event.simps(1-4,6-9) trace_event.surjective trace_event.update_convs(5))

lemma built_events_facts:
  "built_events json_size L key run_id seq ds = Inr es \<Longrightarrow> map te_fact es = map dr_fact ds \<and> length es = length ds"
  by (induction ds arbitrary: seq es) (auto simp: bindE_Inr_iff dest!: mk_event_Inr)

lemma built_events_numbered:
  "built_events json_size L key run_id seq ds = Inr es \<Longrightarrow> numbered_events json_size L key run_id seq es"
proof (induction ds arbitrary: seq es)
  case Nil
  then show ?case by (simp add: numbered_events_def)
next
  case (Cons d ds)
  from Cons.prems obtain e es' where e: "mk_event json_size (dr_event_id d) seq (tk_generation key) (dr_fact d) = Inr e"
    "te_persisted_bytes e \<le> max_event_bytes L" "built_events json_size L key run_id (seq + 1) ds = Inr es'" "es = e # es'"
    "i_namespace (fact_identity (dr_fact d)) = tk_namespace key" "i_thread_id (fact_identity (dr_fact d)) = tk_thread_id key"
    "fact_run (dr_fact d) = run_id"
    by (auto simp: bindE_Inr_iff)
  note m = mk_event_Inr [OF e(1)]
  have n: "numbered_events json_size L key run_id (seq + 1) es'" by (rule Cons.IH [OF e(3)])
  have "map (\<lambda>i. seq + int i) [0..<Suc (length es')] = seq # map (\<lambda>i. seq + 1 + int i) [0..<length es']"
    by (simp add: upt_conv_Cons map_Suc_upt [symmetric] del: upt_Suc)
  then show ?case using n m e by (simp add: numbered_events_def del: upt_Suc)
qed

lemma holds_extended:
  assumes "length es = length (lc_facts change)" "le_validated_events effect = es"
  shows "holds_events (extended_events change effect) es"
  unfolding holds_events_def
  by (rule exI [of _ "map (\<lambda>d. (dr_canonical_payload d, dr_payload_digest d)) (lc_facts change)"])
    (use assms in \<open>simp add: extended_events_def zip_map2 split_beta comp_def\<close>)

section \<open>The slot of a change\<close>

definition change_slot :: "ledger_change \<Rightarrow> string \<times> string" where
  "change_slot change =
     (lc_namespace change, case lc_identity change of Some i \<Rightarrow> i_thread_id i
        | None \<Rightarrow> (case lc_key change of Some key \<Rightarrow> tk_thread_id key | None \<Rightarrow> []))"

lemma fromkeys_single: "length (fromkeys xs) \<le> 1 \<Longrightarrow> x \<in> set xs \<Longrightarrow> y \<in> set xs \<Longrightarrow> x = y"
  by (metis One_nat_def le_Suc_eq le_zero_eq length_0_conv length_Suc_conv set_fromkeys singletonD list.simps(15) empty_set empty_iff)

lemma state_for_change_Inr:
  assumes "state_for_change now change tm = Inr state"
  obtains run_id where
    "state = memory_state now (lc_namespace change) (snd (change_slot change)) run_id
       (map_option checkpoint_request_of (lc_checkpoint change)) (lc_kind change = DeleteGeneration) tm"
    "run_id = (case lc_identity change of Some i \<Rightarrow> Some (i_run_id i) | None \<Rightarrow> lc_run_id change)"
    "lc_identity change \<noteq> None \<or> lc_key change \<noteq> None"
  using assms by (auto simp: state_for_change_def change_slot_def Let_def split: option.splits)

lemma memory_state_sel:
  fixes now ns i r q b tm
  defines "st \<equiv> memory_state now ns i r q b tm"
  shows "ls_thread st = map_option mt_state (dget tm (ns, i))"
    "ls_target_writer st = (case (r, dget tm (ns, i)) of (Some r', Some t) \<Rightarrow> dget (mt_writers t) r' | _ \<Rightarrow> None)"
    "ls_writer_count st = (case dget tm (ns, i) of None \<Rightarrow> 0 | Some t \<Rightarrow> int (length (mt_writers t)))"
    "ls_thread_reserved_events st = (case dget tm (ns, i) of None \<Rightarrow> 0 | Some t \<Rightarrow> reserved_events t)"
    "ls_thread_reserved_bytes st = (case dget tm (ns, i) of None \<Rightarrow> 0 | Some t \<Rightarrow> reserved_bytes t)"
    "ls_current_checkpoint st = (case (dget tm (ns, i), q) of
       (Some t, Some r) \<Rightarrow> (case dget (mt_checkpoints t) (cr_projection_name r, cr_run_id r) of
          Some (c # cs) \<Rightarrow> Some (last (c # cs)) | _ \<Rightarrow> None) | _ \<Rightarrow> None)"
    "ls_observed_at st = now"
    "ls_namespace_thread_count st = int (length (namespace_threads ns tm))"
    "ls_namespace_persisted_bytes st = (\<Sum>t \<leftarrow> namespace_threads ns tm. th_persisted_bytes (mt_state t))"
    "ls_namespace_reserved_bytes st = (\<Sum>t \<leftarrow> namespace_threads ns tm. reserved_bytes t)"
  by (simp_all add: st_def memory_state_def Let_def cong: option.case_cong)

lemma change_slot_pair: "(lc_namespace change, snd (change_slot change)) = change_slot change"
  by (simp add: change_slot_def)

text \<open>What the reducer sees of the memory, once the scope of the change is accepted.\<close>

definition sees :: "time \<Rightarrow> ledger_change \<Rightarrow> trace_memory \<Rightarrow> ledger_state \<Rightarrow> bool" where
  "sees now change tm state \<longleftrightarrow>
     state_for_change now change tm = Inr state \<and> validate_change_scope change state = Inr () \<and> slots_ok tm"

lemma sees_state:
  assumes "sees now change tm state"
  obtains run_id where
    "state = memory_state now (lc_namespace change) (snd (change_slot change)) run_id
       (map_option checkpoint_request_of (lc_checkpoint change)) (lc_kind change = DeleteGeneration) tm"
    "run_id = (case lc_identity change of Some i \<Rightarrow> Some (i_run_id i) | None \<Rightarrow> lc_run_id change)"
  using assms unfolding sees_def by (elim conjE state_for_change_Inr)

lemma sees_thread: "sees now change tm state \<Longrightarrow> ls_thread state = map_option mt_state (dget tm (change_slot change))"
  by (erule sees_state) (simp add: memory_state_sel change_slot_pair)

lemma sees_scope:
  assumes "sees now change tm state"
  shows sees_key: "lc_key change = Some key \<Longrightarrow> memory_slot key = change_slot change"
    and sees_identity: "lc_identity change = Some i \<Longrightarrow> change_slot change = (lc_namespace change, i_thread_id i)"
    and sees_checkpoint: "lc_checkpoint change = Some c \<Longrightarrow> memory_slot (pc_key c) = change_slot change"
proof -
  have v: "\<forall>k \<in> set (thread_scopes change state). fst k = lc_namespace change" "length (fromkeys (map snd (thread_scopes change state))) \<le> 1"
    using assms by (auto simp: sees_def validate_change_scope_def Let_def bindE_Inr_iff)
  have same: "snd k = snd k'" if "k \<in> set (thread_scopes change state)" "k' \<in> set (thread_scopes change state)" for k k'
    using fromkeys_single [OF v(2)] that by simp
  have some: "lc_identity change \<noteq> None \<or> lc_key change \<noteq> None" using assms by (auto simp: sees_def elim: state_for_change_Inr)
  have slot: "snd k = snd (change_slot change)" if "k \<in> set (thread_scopes change state)" for k
  proof (cases "lc_identity change")
    case None
    then obtain key where "lc_key change = Some key" using some by auto
    then show ?thesis using None same [OF that, of "(tk_namespace key, tk_thread_id key)"]
      by (simp add: change_slot_def thread_scopes_def List.map_filter_def)
  next
    case (Some i)
    then show ?thesis using same [OF that, of "(i_namespace i, i_thread_id i)"]
      by (simp add: change_slot_def thread_scopes_def List.map_filter_def)
  qed
  have "fst (change_slot change) = lc_namespace change" by (simp add: change_slot_def)
  then have all: "k = change_slot change" if "k \<in> set (thread_scopes change state)" for k
    using slot [OF that] v(1) that by (simp add: prod_eq_iff)
  show "lc_key change = Some key \<Longrightarrow> memory_slot key = change_slot change"
    using all by (simp add: memory_slot_def thread_scopes_def List.map_filter_def)
  show "lc_identity change = Some i \<Longrightarrow> change_slot change = (lc_namespace change, i_thread_id i)" by (simp add: change_slot_def)
  show "lc_checkpoint change = Some c \<Longrightarrow> memory_slot (pc_key c) = change_slot change"
    using all by (simp add: memory_slot_def thread_scopes_def List.map_filter_def)
qed

lemma sees_writer:
  assumes s: "sees now change tm state" and w: "ls_target_writer state = Some w"
  obtains t where "dget tm (change_slot change) = Some t" "dget (mt_writers t) (ws_run_id w) = Some w"
    "\<And>r. lc_run_id change = Some r \<Longrightarrow> ws_run_id w = r" "\<And>i. lc_identity change = Some i \<Longrightarrow> ws_run_id w = i_run_id i"
proof -
  have v: "length (fromkeys (run_scopes change state)) \<le> 1"
    using s by (auto simp: sees_def validate_change_scope_def Let_def bindE_Inr_iff)
  obtain run_id where "ls_target_writer state = (case (run_id, dget tm (change_slot change)) of
      (Some r, Some t) \<Rightarrow> dget (mt_writers t) r | _ \<Rightarrow> None)"
    by (rule sees_state [OF s]) (simp add: memory_state_sel change_slot_pair)
  then obtain t r where t: "dget tm (change_slot change) = Some t" "dget (mt_writers t) r = Some w"
    using w by (cases run_id; cases "dget tm (change_slot change)") auto
  have r: "ws_run_id w = r" using s t by (auto simp: sees_def dest: slots_okD)
  have w0: "ws_run_id w \<in> set (run_scopes change state)" using w by (simp add: run_scopes_def List.map_filter_def)
  have run: "ws_run_id w = x" if "x \<in> set (run_scopes change state)" for x by (rule fromkeys_single [OF v w0 that])
  show thesis
  proof (rule that [OF t(1)])
    show "dget (mt_writers t) (ws_run_id w) = Some w" using t(2) r by simp
    show "ws_run_id w = x" if "lc_run_id change = Some x" for x
      by (rule run) (use that in \<open>simp add: run_scopes_def List.map_filter_def\<close>)
    show "ws_run_id w = i_run_id i" if "lc_identity change = Some i" for i
      by (rule run) (use that in \<open>simp add: run_scopes_def List.map_filter_def split: option.split\<close>)
  qed
qed

lemma sees_no_writer:
  assumes s: "sees now change tm state" and n: "ls_target_writer state = None" and i: "lc_identity change = Some i"
    and t: "dget tm (change_slot change) = Some t"
  shows "dget (mt_writers t) (i_run_id i) = None"
  by (rule sees_state [OF s]) (use n i t in \<open>simp add: memory_state_sel change_slot_pair\<close>)

lemma sees_reserves:
  assumes s: "sees now change tm state" and t: "dget tm (change_slot change) = Some t"
  shows "ls_thread_reserved_events state = reserved_events t" "ls_thread_reserved_bytes state = reserved_bytes t"
    "ls_writer_count state = int (length (mt_writers t))"
  by (rule sees_state [OF s], use t in \<open>simp add: memory_state_sel change_slot_pair\<close>)+

lemma sees_no_thread:
  assumes s: "sees now change tm state" and t: "dget tm (change_slot change) = None"
  shows "ls_thread_reserved_events state = 0" "ls_thread_reserved_bytes state = 0"
  by (rule sees_state [OF s], use t in \<open>simp add: memory_state_sel change_slot_pair\<close>)+

lemma sees_usage:
  assumes s: "sees now change tm state"
  shows "ls_namespace_thread_count state = int (length (namespace_threads (fst (change_slot change)) tm))"
    "ls_namespace_persisted_bytes state + ls_namespace_reserved_bytes state = namespace_bytes (fst (change_slot change)) tm"
  by (rule sees_state [OF s],
      simp add: memory_state_sel change_slot_def namespace_bytes_def byte_usage_def [abs_def] sum_list_addf)+

lemma sees_current_checkpoint:
  assumes s: "sees now change tm state" and c: "lc_checkpoint change = Some c" and t: "dget tm (change_slot change) = Some t"
  shows "ls_current_checkpoint state =
    (case dget (mt_checkpoints t) (pc_projection_name c, pc_run_id c) of Some (x # xs) \<Rightarrow> Some (last (x # xs)) | _ \<Rightarrow> None)"
  by (rule sees_state [OF s]) (use c t in \<open>simp add: memory_state_sel change_slot_pair checkpoint_request_of_def\<close>)

end
