(* ===== verification/Trace_Memory_Moves.thy ===== *)
theory Trace_Memory_Moves
  imports Trace_Memory_Inv
begin

text \<open>Every commit of the in-memory backend is a move of the thread at the slot of its change.\<close>

section \<open>Writing an effect\<close>

definition placed :: "'k \<Rightarrow> 'v option \<Rightarrow> ('k, 'v) dict \<Rightarrow> ('k, 'v) dict" where
  "placed k v d = (case v of None \<Rightarrow> ddel k d | Some x \<Rightarrow> dput k x d)"

lemma dput_dput [dict_simps]: "dput k v (dput k v' d) = dput k v d"
  by (induction d) auto

lemma ddel_absent: "dget d k = None \<Longrightarrow> ddel k d = d"
  by (simp add: map_of_eq_None_iff delete_idem)

lemma ledger_effect_of_sel [simp]:
  "le_result (ledger_effect_of r) = r" "le_thread (ledger_effect_of r) = None" "le_remove_thread (ledger_effect_of r) = False"
  "le_writer (ledger_effect_of r) = None" "le_remove_writer_run_id (ledger_effect_of r) = None"
  "le_validated_events (ledger_effect_of r) = []" "le_checkpoint (ledger_effect_of r) = None"
  "le_delete_generation (ledger_effect_of r) = False"
  by (simp_all add: ledger_effect_of_def)

lemma plain_result_key [simp]: "lr_key (plain_result kind key run_id) = Some key"
  by (simp add: plain_result_def)

lemma or_else_simps [simp]: "or_else None b = b" "or_else (Some x) b = Some x"
  by (simp_all add: or_else_def)

lemma extended_events_none [simp]: "le_validated_events effect = [] \<Longrightarrow> extended_events change effect = []"
  by (simp add: extended_events_def)

lemma apply_effect_at:
  assumes "\<not> le_delete_generation effect" "\<not> le_remove_thread effect" "or_else (lr_key (le_result effect)) (lc_key change) = Some key"
    "dget (with_thread_state effect tm) (memory_slot key) = Some t"
  shows "apply_effect sha256 change effect tm =
    (case apply_thread_effect sha256 change effect t of (r, t') \<Rightarrow> (r, dput (memory_slot key) t' (with_thread_state effect tm)))"
  using assms by (simp add: apply_effect_def Let_def)

text \<open>A change of one writer, without events and checkpoint.\<close>

lemma apply_writer:
  assumes "\<not> le_delete_generation effect" "\<not> le_remove_thread effect" "lr_key (le_result effect) = Some key"
    "le_thread effect = None" "le_validated_events effect = []" "le_checkpoint effect = None"
    "dget tm (memory_slot key) = Some t"
  shows "apply_effect sha256 change effect tm =
    (Inr (), dput (memory_slot key)
       (t\<lparr>mt_writers := (let removed = (case le_remove_writer_run_id effect of None \<Rightarrow> mt_writers t | Some r \<Rightarrow> ddel r (mt_writers t))
           in case le_writer effect of None \<Rightarrow> removed | Some w \<Rightarrow> dput (ws_run_id w) w removed)\<rparr>) tm)"
proof -
  have "with_thread_state effect tm = tm" using assms by (simp add: with_thread_state_def)
  then show ?thesis using assms
    by (subst apply_effect_at [where key = key and t = t]) (simp_all add: apply_thread_effect_def Let_def)
qed

section \<open>Opening\<close>

lemma reopened_writer_Inr:
  assumes "reopened_writer change state key run_id owner_token w = Inr effect"
  obtains w' where "effect = (ledger_effect_of (open_result key run_id owner_token (ws_fence w')))\<lparr>le_writer := Some w'\<rparr>"
    "ws_active w" "held_writer w w'"
proof -
  have h: "held_writer w (w\<lparr>ws_lease_expires_at := a, ws_active := True\<rparr>)" for a
    unfolding held_writer_def by (rule exI [of _ "ws_owner_token w"], rule exI [of _ "ws_fence w"], rule exI [of _ a]) simp
  have h': "held_writer w (w\<lparr>ws_lease_expires_at := a, ws_active := True, ws_owner_token := owner_token, ws_fence := ws_fence w + 1\<rparr>)" for a
    unfolding held_writer_def by (rule exI [of _ owner_token], rule exI [of _ "ws_fence w + 1"], rule exI [of _ a]) simp
  show thesis
  proof (cases "ws_owner_token w = owner_token \<and> ws_active w \<and> \<not> ws_closed_committed w")
    case True
    then show thesis using assms by (intro that [OF _ _ h]) (auto simp: reopened_writer_def Let_def)
  next
    case False
    then show thesis using assms by (intro that [OF _ _ h']) (auto simp: reopened_writer_def Let_def split: if_splits)
  qed
qed

lemma open_result_key [simp]: "lr_key (open_result key r a b) = Some key"
  by (simp add: open_result_def)

lemma new_writer_fresh: "fresh_writer (lc_limits change) (new_writer change state run_id owner_token)"
  "ws_run_id (new_writer change state run_id owner_token) = run_id"
  by (simp_all add: fresh_writer_def new_writer_def)

lemma held_writer_run: "held_writer w w' \<Longrightarrow> ws_run_id w' = ws_run_id w"
  by (auto simp: held_writer_def)

abbreviation slot_move ::
  "(bytes \<Rightarrow> string) \<Rightarrow> (trace_event \<Rightarrow> int) \<Rightarrow> trace_limits \<Rightarrow> string \<Rightarrow> string option \<Rightarrow> string \<times> string \<Rightarrow> trace_memory \<Rightarrow>
   memory_thread option \<Rightarrow> bool" where
  "slot_move sha256 json_size L generation run k tm \<equiv>
     thread_move sha256 json_size L generation run (int (length (namespace_threads (fst k) tm))) (namespace_bytes (fst k) tm) k (dget tm k)"

text \<open>An outcome that leaves the memory as it was, or moved at one slot.\<close>

definition move_outcome ::
  "(bytes \<Rightarrow> string) \<Rightarrow> (trace_event \<Rightarrow> int) \<Rightarrow> trace_limits \<Rightarrow> string \<Rightarrow> string option \<Rightarrow> string \<times> string \<Rightarrow> trace_memory \<Rightarrow> 'a \<times> trace_memory \<Rightarrow> bool" where
  "move_outcome sha256 json_size L generation run k tm r \<longleftrightarrow>
     snd r = tm \<or> (\<exists>t'. slot_move sha256 json_size L generation run k tm t' \<and>
     snd r = placed k t' tm)"

lemma move_outcome_same [intro]: "snd r = tm \<Longrightarrow> move_outcome sha256 json_size L generation run k tm r"
  by (simp add: move_outcome_def)

lemma move_outcomeI:
  "slot_move sha256 json_size L generation run k tm t' \<Longrightarrow> snd r = placed k t' tm \<Longrightarrow>
   move_outcome sha256 json_size L generation run k tm r"
  by (auto simp: move_outcome_def)

lemma open_existing_moves:
  assumes s: "sees now change tm state" and i: "lc_identity change = Some identity" and st: "ls_thread state = Some thread"
    and w: "ls_target_writer state = Some w" and run: "reopened_writer change state (th_key thread) run_id owner_token w = Inr effect"
  shows "move_outcome sha256 json_size L generation run (change_slot change) tm (apply_effect sha256 change effect tm)"
proof -
  obtain t where t: "dget tm (change_slot change) = Some t" "dget (mt_writers t) (ws_run_id w) = Some w"
    using sees_writer [OF s w] by metis
  have key: "mt_state t = thread" "memory_slot (th_key thread) = change_slot change"
    using sees_thread [OF s] st t(1) s by (auto simp: sees_def dest: slots_okD)
  obtain w' where e: "effect = (ledger_effect_of (open_result (th_key thread) run_id owner_token (ws_fence w')))\<lparr>le_writer := Some w'\<rparr>"
    "ws_active w" "held_writer w w'"
    by (rule reopened_writer_Inr [OF run])
  show ?thesis
  proof (rule move_outcomeI)
    show "slot_move sha256 json_size L generation run (change_slot change) tm
        (Some (t\<lparr>mt_writers := dput (ws_run_id w) w' (mt_writers t)\<rparr>))"
      unfolding t(1) by (rule thread_move.held [OF t(2) e(2,3)])
    show "snd (apply_effect sha256 change effect tm) =
        placed (change_slot change) (Some (t\<lparr>mt_writers := dput (ws_run_id w) w' (mt_writers t)\<rparr>)) tm"
      by (subst apply_writer [where key = "th_key thread" and t = t])
        (simp_all add: e(1) t key held_writer_run [OF e(3)] placed_def Let_def)
  qed
qed

lemma open_new_moves:
  assumes s: "sees now change tm state" and i: "lc_identity change = Some identity" and st: "ls_thread state = Some thread"
    and w: "ls_target_writer state = None" and L: "lc_limits change = L" and run: "run_id = i_run_id identity"
    and quota: "th_next_seq thread - 1 + ls_thread_reserved_events state + terminal_reserve_events_per_run L \<le> max_thread_events L"
      "th_persisted_bytes thread + ls_thread_reserved_bytes state + terminal_reserve_bytes_per_run L \<le> max_thread_bytes L"
      "ls_namespace_persisted_bytes state + ls_namespace_reserved_bytes state + terminal_reserve_bytes_per_run L \<le> max_tracer_bytes L"
    and effect: "le_result effect = open_result (th_key thread) run_id owner_token 1" "le_thread effect = None"
      "le_writer effect = Some (new_writer change state run_id owner_token)" "le_remove_writer_run_id effect = None"
      "\<not> le_delete_generation effect" "\<not> le_remove_thread effect" "le_validated_events effect = []" "le_checkpoint effect = None"
  shows "move_outcome sha256 json_size L generation (Some run_id) (change_slot change) tm (apply_effect sha256 change effect tm)"
proof -
  obtain t where t: "dget tm (change_slot change) = Some t" "mt_state t = thread"
    using sees_thread [OF s] st by (cases "dget tm (change_slot change)") auto
  have key: "memory_slot (th_key thread) = change_slot change" using t s by (auto simp: sees_def dest: slots_okD)
  let ?w = "new_writer change state run_id owner_token"
  show ?thesis
  proof (rule move_outcomeI)
    show "slot_move sha256 json_size L generation (Some run_id) (change_slot change) tm
        (Some (t\<lparr>mt_writers := dput (ws_run_id ?w) ?w (mt_writers t)\<rparr>))"
      unfolding t(1)
      by (rule thread_move.opened)
        (use new_writer_fresh L run sees_no_writer [OF s w i t(1)] quota sees_reserves [OF s t(1)] sees_usage [OF s] t(2)
          in \<open>auto simp: event_usage_def byte_usage_def\<close>)
    show "snd (apply_effect sha256 change effect tm) =
        placed (change_slot change) (Some (t\<lparr>mt_writers := dput (ws_run_id ?w) ?w (mt_writers t)\<rparr>)) tm"
      by (subst apply_writer [where key = "th_key thread" and t = t]) (simp_all add: effect t key placed_def Let_def)
  qed
qed

lemma open_created_moves:
  assumes st: "dget tm k = None" and L: "lc_limits change = L"
    and quota: "int (length (namespace_threads (fst k) tm)) < max_tracer_threads L"
      "terminal_reserve_events_per_run L \<le> max_thread_events L" "terminal_reserve_bytes_per_run L \<le> max_thread_bytes L"
      "namespace_bytes (fst k) tm + terminal_reserve_bytes_per_run L \<le> max_tracer_bytes L"
    and key: "memory_slot key = k" "tk_generation key = generation"
    and effect: "le_result effect = open_result key run_id owner_token 1"
      "le_thread effect = Some \<lparr>th_key = key, th_next_seq = 1, th_persisted_bytes = 0\<rparr>"
      "le_writer effect = Some (new_writer change state run_id owner_token)" "le_remove_writer_run_id effect = None"
      "\<not> le_delete_generation effect" "\<not> le_remove_thread effect" "le_validated_events effect = []" "le_checkpoint effect = None"
  shows "move_outcome sha256 json_size L generation (Some run_id) k tm (apply_effect sha256 change effect tm)"
proof -
  let ?w = "new_writer change state run_id owner_token"
  let ?t0 = "fresh_memory_thread \<lparr>th_key = key, th_next_seq = 1, th_persisted_bytes = 0\<rparr>"
  have with_thread: "with_thread_state effect tm = dput k ?t0 tm" using effect st key by (simp add: with_thread_state_def)
  show ?thesis
  proof (rule move_outcomeI)
    show "slot_move sha256 json_size L generation (Some run_id) k tm (Some (?t0\<lparr>mt_writers := [(ws_run_id ?w, ?w)]\<rparr>))"
      unfolding st by (rule thread_move.created [where key = key]) (use new_writer_fresh L key quota in auto)
    show "snd (apply_effect sha256 change effect tm) = placed k (Some (?t0\<lparr>mt_writers := [(ws_run_id ?w, ?w)]\<rparr>)) tm"
      by (subst apply_effect_at [where key = key and t = ?t0])
        (simp_all add: effect with_thread key dict_simps placed_def apply_thread_effect_def Let_def fresh_memory_thread_def)
  qed
qed

lemma open_moves:
  assumes s: "sees now change tm state" and L: "lc_limits change = L"
    and run: "resolve_open_writer generation change state = Inr effect"
  shows "move_outcome sha256 json_size L generation (map_option i_run_id (lc_identity change)) (change_slot change) tm (apply_effect sha256 change effect tm)"
proof -
  obtain identity owner_token where i: "lc_identity change = Some identity" "lc_owner_token change = Some owner_token"
    using run by (auto simp: resolve_open_writer_def split: option.splits)
  let ?run = "i_run_id identity"
  have opens: "map_option i_run_id (lc_identity change) = Some ?run" using i by simp
  show ?thesis
  proof (cases "ls_thread state")
    case None
    let ?key = "\<lparr>tk_namespace = lc_namespace change, tk_thread_id = i_thread_id identity, tk_generation = generation\<rparr>"
    have free: "dget tm (change_slot change) = None" using sees_thread [OF s] None by simp
    have target: "ls_target_writer state = None"
    proof (rule ccontr)
      assume "\<not> ?thesis"
      then obtain w where "ls_target_writer state = Some w" by blast
      from sees_writer [OF s this] show False using free by (metis option.distinct(1))
    qed
    have slot: "memory_slot ?key = change_slot change" using sees_identity [OF s i(1)] by (simp add: memory_slot_def)
    show ?thesis unfolding opens
      by (rule open_created_moves [OF free L _ _ _ _ slot, where run_id = ?run and owner_token = owner_token and state = state])
        (use run i None target L sees_usage [OF s] sees_no_thread [OF s free]
          in \<open>auto simp: resolve_open_writer_def Let_def bindE_Inr_iff\<close>)
  next
    case (Some thread)
    show ?thesis
    proof (cases "ls_target_writer state")
      case None
      show ?thesis unfolding opens
        by (rule open_new_moves [OF s i(1) Some None L, where run_id = ?run and owner_token = owner_token])
          (use run i Some None L in \<open>auto simp: resolve_open_writer_def Let_def bindE_Inr_iff\<close>)
    next
      case target: (Some w)
      show ?thesis unfolding opens
        by (rule open_existing_moves [OF s i(1) Some target, where run_id = ?run and owner_token = owner_token])
          (use run i Some target in \<open>auto simp: resolve_open_writer_def Let_def bindE_Inr_iff\<close>)
    qed
  qed
qed

section \<open>Appending\<close>

lemma owned_writer_Inr:
  assumes s: "sees now change tm state" and owned: "owned_writer b change state = Inr (thread, w)"
  obtains t where "dget tm (change_slot change) = Some t" "mt_state t = thread" "memory_slot (th_key thread) = change_slot change"
    "dget (mt_writers t) (ws_run_id w) = Some w" "ws_active w" "lc_key change = Some (th_key thread)" "lc_run_id change = Some (ws_run_id w)"
proof -
  obtain key where k: "lc_key change = Some key" "lc_run_id change = Some (ws_run_id w)" "require_exact_thread key state = Inr thread"
    "ls_target_writer state = Some w" "ws_active w"
    using owned unfolding owned_writer_def bindE_Inr_iff
    by (cases "lc_key change"; cases "lc_run_id change"; cases "ls_target_writer state") (auto simp: bindE_Inr_iff)
  obtain t where t: "dget tm (change_slot change) = Some t" "dget (mt_writers t) (ws_run_id w) = Some w"
    using sees_writer [OF s k(4)] by metis
  have "ls_thread state = Some thread" "th_key thread = key"
    using k(3) by (auto simp: require_exact_thread_def split: option.splits if_splits)
  then show thesis using that [OF t(1) _ _ t(2) k(5)] sees_thread [OF s] t(1) k(1,2) sees_key [OF s k(1)] by simp
qed

lemma held_moves:
  assumes t: "dget tm (memory_slot key) = Some t" and w: "dget (mt_writers t) (ws_run_id w) = Some w" "ws_active w" "held_writer w w'"
    and effect: "lr_key (le_result effect) = Some key" "le_thread effect = None" "le_writer effect = Some w'"
      "le_remove_writer_run_id effect = None" "\<not> le_delete_generation effect" "\<not> le_remove_thread effect"
      "le_validated_events effect = []" "le_checkpoint effect = None"
  shows "move_outcome sha256 json_size L generation run (memory_slot key) tm (apply_effect sha256 change effect tm)"
proof (rule move_outcomeI)
  show "slot_move sha256 json_size L generation run (memory_slot key) tm
      (Some (t\<lparr>mt_writers := dput (ws_run_id w) w' (mt_writers t)\<rparr>))"
    unfolding t by (rule thread_move.held [OF w])
  show "snd (apply_effect sha256 change effect tm) =
      placed (memory_slot key) (Some (t\<lparr>mt_writers := dput (ws_run_id w) w' (mt_writers t)\<rparr>)) tm"
    by (subst apply_writer [where key = key and t = t]) (simp_all add: effect t held_writer_run [OF w(3)] placed_def Let_def)
qed

lemma idle_effect:
  assumes "lr_key (le_result effect) = Some key" "le_thread effect = None" "le_writer effect = None" "le_remove_writer_run_id effect = None"
    "\<not> le_delete_generation effect" "\<not> le_remove_thread effect" "le_validated_events effect = []" "le_checkpoint effect = None"
  shows "snd (apply_effect sha256 change effect tm) = tm"
proof (cases "dget tm (memory_slot key)")
  case None
  then show ?thesis using assms by (simp add: apply_effect_def with_thread_state_def)
next
  case (Some t)
  then show ?thesis using assms
    by (subst apply_writer [where key = key and t = t]) (simp_all add: dput_same)
qed

lemma renewed_held: "ws_active w \<Longrightarrow> held_writer w (w\<lparr>ws_lease_expires_at := a\<rparr>)"
  unfolding held_writer_def by (rule exI [of _ "ws_owner_token w"], rule exI [of _ "ws_fence w"], rule exI [of _ a]) simp

lemma renewed_active_held: "held_writer w (w\<lparr>ws_lease_expires_at := a, ws_active := True\<rparr>)"
  unfolding held_writer_def by (rule exI [of _ "ws_owner_token w"], rule exI [of _ "ws_fence w"], rule exI [of _ a]) simp

lemma proven_moves:
  assumes s: "sees now change tm state" and run: "append_proven change state = Inr effect"
  shows "move_outcome sha256 json_size L generation run (change_slot change) tm (apply_effect sha256 change effect tm)"
proof -
  obtain key thread where k: "lc_key change = Some key" "require_exact_thread key state = Inr thread"
    using run by (auto simp: append_proven_def bindE_Inr_iff split: option.splits)
  have th: "th_key thread = key" using k(2) by (auto simp: require_exact_thread_def split: option.splits if_splits)
  have slot: "change_slot change = memory_slot key" using sees_key [OF s k(1)] by simp
  show ?thesis
  proof (cases "le_writer effect")
    case None
    show ?thesis
      by (rule move_outcome_same, rule idle_effect [where key = key])
        (use run k th None in \<open>auto simp: append_proven_def Let_def split: option.splits if_splits\<close>)
  next
    case (Some w')
    then obtain w where w: "ls_target_writer state = Some w" "ws_active w"
      "w' = w\<lparr>ws_lease_expires_at := writer_lease_expiration change state, ws_active := True\<rparr>"
      using run k by (auto simp: append_proven_def Let_def split: option.splits if_splits)
    obtain t where t: "dget tm (memory_slot key) = Some t" "dget (mt_writers t) (ws_run_id w) = Some w"
      using sees_writer [OF s w(1)] slot by metis
    show ?thesis unfolding slot
      by (rule held_moves [OF t w(2), where w' = w'])
        (use run k th Some w(3) renewed_active_held in \<open>auto simp: append_proven_def Let_def split: option.splits if_splits\<close>)
  qed
qed

lemma appended_writer_run [simp]: "ws_run_id (appended_writer change state w flags a b) = ws_run_id w"
  by (simp add: appended_writer_def split: prod.split)

lemma append_moves:
  assumes s: "sees now change tm state" and L: "lc_limits change = L" and some: "lc_facts change \<noteq> []"
    and run: "append_facts sha256 json_size change state = Inr effect"
  shows "move_outcome sha256 json_size L generation run (change_slot change) tm (apply_effect sha256 change effect tm)"
proof -
  obtain thread w flags es where a: "owned_writer (lc_enforce_writer_lease change) change state = Inr (thread, w)"
    "check_batch_kind (lc_mandatory change) (map dr_fact (lc_facts change)) = Inr ()"
    "lifecycle_after (lc_mandatory change) w (map dr_fact (lc_facts change)) = Inr flags"
    "built_events json_size L (th_key thread) (ws_run_id w) (th_next_seq thread) (lc_facts change) = Inr es"
    "check_append_quota change state thread w (int (length es)) (\<Sum>e \<leftarrow> es. te_persisted_bytes e) = Inr ()"
    and effect: "lr_key (le_result effect) = Some (th_key thread)"
      "le_thread effect = Some (thread\<lparr>th_next_seq := th_next_seq thread + int (length es),
         th_persisted_bytes := th_persisted_bytes thread + (\<Sum>e \<leftarrow> es. te_persisted_bytes e)\<rparr>)"
      "le_writer effect = Some (appended_writer change state w flags (int (length es)) (\<Sum>e \<leftarrow> es. te_persisted_bytes e))"
      "le_remove_writer_run_id effect = None" "\<not> le_delete_generation effect" "\<not> le_remove_thread effect"
      "le_validated_events effect = es" "le_checkpoint effect = None"
    using run L by (auto simp: append_facts_def bindE_Inr_iff Let_def split: prod.splits)
  obtain t where t: "dget tm (change_slot change) = Some t" "mt_state t = thread" "memory_slot (th_key thread) = change_slot change"
    "dget (mt_writers t) (ws_run_id w) = Some w" "ws_active w"
    by (rule owned_writer_Inr [OF s a(1)])
  note f = built_events_facts [OF a(4)]
  let ?w = "appended_writer change state w flags (int (length es)) (\<Sum>e \<leftarrow> es. te_persisted_bytes e)"
  have ne: "es \<noteq> []" using f some by auto
  have quota: "event_usage t + int (length es) \<le> max_thread_events L \<and> byte_usage t + (\<Sum>e \<leftarrow> es. te_persisted_bytes e) \<le> max_thread_bytes L \<and>
      namespace_bytes (fst (change_slot change)) tm + (\<Sum>e \<leftarrow> es. te_persisted_bytes e) \<le> max_tracer_bytes L" if "\<not> lc_mandatory change"
    using that a(5) L t(2) sees_reserves [OF s t(1)] sees_usage [OF s]
    by (auto simp: check_append_quota_def Let_def bindE_Inr_iff event_usage_def byte_usage_def)
  have after: "append_after (lc_mandatory change) w es ?w"
    unfolding append_after_def
    by (rule exI [of _ flags], rule exI [of _ "writer_lease_expiration change state"])
      (use a f in \<open>auto simp: appended_writer_def check_append_quota_def Let_def split: prod.split\<close>)
  have ms: "holds_events (extended_events change effect) es" by (rule holds_extended) (use f effect in auto)
  let ?st = "thread\<lparr>th_next_seq := th_next_seq thread + int (length es),
         th_persisted_bytes := th_persisted_bytes thread + (\<Sum>e \<leftarrow> es. te_persisted_bytes e)\<rparr>"
  let ?t' = "t\<lparr>mt_state := ?st, mt_writers := dput (ws_run_id w) ?w (mt_writers t), mt_events := mt_events t @ extended_events change effect,
    mt_graph_nodes := snd (apply_graph_events sha256 es (mt_graph_nodes t))\<rparr>"
  have with_thread: "with_thread_state effect tm = dput (change_slot change) (t\<lparr>mt_state := ?st\<rparr>) tm"
    using effect t by (simp add: with_thread_state_def)
  have thread: "snd (apply_thread_effect sha256 change effect (t\<lparr>mt_state := ?st\<rparr>)) = ?t'"
    by (simp add: apply_thread_effect_def Let_def effect f check_def split: prod.split sum.split)
  show ?thesis
  proof (rule move_outcomeI)
    show "slot_move sha256 json_size L generation run (change_slot change) tm (Some ?t')"
      unfolding t(1)
      by (rule thread_move.appended [OF t(4,5) ne _ quota after ms refl]) (use t built_events_numbered [OF a(4)] in auto)
    show "snd (apply_effect sha256 change effect tm) = placed (change_slot change) (Some ?t') tm"
      by (subst apply_effect_at [where key = "th_key thread" and t = "t\<lparr>mt_state := ?st\<rparr>"])
        (simp_all add: thread effect with_thread t dict_simps placed_def case_prod_beta)
  qed
qed

section \<open>Closing, checkpoints and deletion\<close>

lemma renew_moves:
  assumes s: "sees now change tm state" and run: "resolve_renew_writer change state = Inr effect"
  shows "move_outcome sha256 json_size L generation run (change_slot change) tm (apply_effect sha256 change effect tm)"
proof -
  obtain b thread w where a: "owned_writer b change state = Inr (thread, w)"
    "effect = (ledger_effect_of (plain_result RenewWriter (th_key thread) (Some (ws_run_id w))))
       \<lparr>le_writer := Some (w\<lparr>ws_lease_expires_at := writer_lease_expiration change state\<rparr>)\<rparr>"
    using run by (auto simp: resolve_renew_writer_def bindE_Inr_iff)
  obtain t where t: "dget tm (change_slot change) = Some t" "memory_slot (th_key thread) = change_slot change"
    "dget (mt_writers t) (ws_run_id w) = Some w" "ws_active w"
    by (rule owned_writer_Inr [OF s a(1)])
  show ?thesis unfolding t(2) [symmetric]
    by (rule held_moves [OF t(1) [folded t(2)] t(3,4) renewed_held [OF t(4)]]) (simp_all add: a(2))
qed

lemma close_moves:
  assumes s: "sees now change tm state" and run: "resolve_close_writer change state = Inr effect"
  shows "move_outcome sha256 json_size L generation run (change_slot change) tm (apply_effect sha256 change effect tm)"
proof -
  obtain key run_id where k: "lc_key change = Some key" "lc_run_id change = Some run_id"
    using run by (auto simp: resolve_close_writer_def split: option.splits)
  have slot: "change_slot change = memory_slot key" using sees_key [OF s k(1)] by simp
  let ?idle = "ledger_effect_of (plain_result CloseWriter key (Some run_id))"
  show ?thesis
  proof (cases "effect = ?idle")
    case True
    show ?thesis by (rule move_outcome_same, rule idle_effect [where key = key]) (simp_all add: True)
  next
    case False
    then obtain thread w where w: "ls_thread state = Some thread" "ls_target_writer state = Some w" "th_key thread = key" "ws_active w"
      using run k by (auto simp: resolve_close_writer_def Let_def split: option.splits if_splits)
    obtain t where t: "dget tm (memory_slot key) = Some t" "dget (mt_writers t) (ws_run_id w) = Some w" "ws_run_id w = run_id"
      using sees_writer [OF s w(2)] slot k(2) by metis
    consider (removed) "le_remove_thread effect" "lr_key (le_result effect) = Some key"
      | (dropped) "ws_committed_events w = 0" "lr_key (le_result effect) = Some key" "le_thread effect = None" "le_writer effect = None"
        "le_remove_writer_run_id effect = Some run_id" "\<not> le_delete_generation effect" "\<not> le_remove_thread effect"
        "le_validated_events effect = []" "le_checkpoint effect = None"
      | (closed) "ws_committed_events w \<noteq> 0" "lr_key (le_result effect) = Some key" "le_thread effect = None"
        "le_writer effect = Some (w\<lparr>ws_active := False, ws_remaining_event_reserve := 0, ws_remaining_byte_reserve := 0\<rparr>)"
        "le_remove_writer_run_id effect = None" "\<not> le_delete_generation effect" "\<not> le_remove_thread effect"
        "le_validated_events effect = []" "le_checkpoint effect = None"
      using run k w False by (auto simp: resolve_close_writer_def Let_def split: option.splits if_splits)
    then show ?thesis
    proof cases
      case removed
      show ?thesis unfolding slot
        by (rule move_outcomeI [where t' = None])
          (simp_all add: t(1) thread_move.removed removed apply_effect_def Let_def placed_def)
    next
      case dropped
      show ?thesis unfolding slot
      proof (rule move_outcomeI)
        show "slot_move sha256 json_size L generation run (memory_slot key) tm
            (Some (t\<lparr>mt_writers := ddel (ws_run_id w) (mt_writers t)\<rparr>))"
          unfolding t(1) by (rule thread_move.dropped [OF t(2) w(4) dropped(1)])
        show "snd (apply_effect sha256 change effect tm) =
            placed (memory_slot key) (Some (t\<lparr>mt_writers := ddel (ws_run_id w) (mt_writers t)\<rparr>)) tm"
          by (subst apply_writer [where key = key and t = t]) (simp_all add: dropped t placed_def Let_def)
      qed
    next
      case closed
      let ?w = "w\<lparr>ws_active := False, ws_remaining_event_reserve := 0, ws_remaining_byte_reserve := 0\<rparr>"
      show ?thesis unfolding slot
      proof (rule move_outcomeI)
        show "slot_move sha256 json_size L generation run (memory_slot key) tm
            (Some (t\<lparr>mt_writers := dput (ws_run_id w) ?w (mt_writers t)\<rparr>))"
          unfolding t(1) by (rule thread_move.closed [OF t(2) w(4) closed(1) refl])
        show "snd (apply_effect sha256 change effect tm) =
            placed (memory_slot key) (Some (t\<lparr>mt_writers := dput (ws_run_id w) ?w (mt_writers t)\<rparr>)) tm"
          by (subst apply_writer [where key = key and t = t]) (simp_all add: closed t placed_def Let_def)
      qed
    qed
  qed
qed

lemma save_moves:
  assumes s: "sees now change tm state" and run: "resolve_save_checkpoint change state = Inr effect"
  shows "move_outcome sha256 json_size L generation run (change_slot change) tm (apply_effect sha256 change effect tm)"
proof -
  obtain c payload digest thread where c: "lc_checkpoint change = Some c" "require_exact_thread (pc_key c) state = Inr thread"
    "pc_as_of_seq c \<le> th_next_seq thread - 1"
    using run by (auto simp: resolve_save_checkpoint_def bindE_Inr_iff split: option.splits)
  have slot: "change_slot change = memory_slot (pc_key c)" using sees_checkpoint [OF s c(1)] by simp
  have th: "th_key thread = pc_key c" "ls_thread state = Some thread"
    using c(2) by (auto simp: require_exact_thread_def split: option.splits if_splits)
  then obtain t where t: "dget tm (memory_slot (pc_key c)) = Some t" "mt_state t = thread"
    using sees_thread [OF s] slot by (cases "dget tm (change_slot change)") auto
  note current = sees_current_checkpoint [OF s c(1) t(1) [folded slot]]
  show ?thesis
  proof (cases "le_checkpoint effect")
    case None
    show ?thesis
      by (rule move_outcome_same, rule idle_effect [where key = "pc_key c"])
        (use run c None in \<open>auto simp: resolve_save_checkpoint_def checkpoint_result_def bindE_Inr_iff Let_def
          split: option.splits if_splits\<close>)
  next
    case (Some sc)
    let ?slot = "(pc_projection_name c, pc_run_id c)"
    let ?old = "case dget (mt_checkpoints t) ?slot of None \<Rightarrow> [] | Some cs \<Rightarrow> cs"
    have sc: "sc_key sc = pc_key c" "sc_projection_name sc = pc_projection_name c" "sc_run_id sc = pc_run_id c" "sc_as_of_seq sc = pc_as_of_seq c"
      "\<forall>n \<in> set_option (map_option sc_as_of_seq (ls_current_checkpoint state)). n < pc_as_of_seq c"
      and effect: "lr_key (le_result effect) = Some (pc_key c)" "le_thread effect = None" "le_writer effect = None"
        "le_remove_writer_run_id effect = None" "\<not> le_delete_generation effect" "\<not> le_remove_thread effect" "le_validated_events effect = []"
      using run c Some by (auto simp: resolve_save_checkpoint_def checkpoint_result_def bindE_Inr_iff Let_def split: option.splits if_splits)
    have newer: "sc_as_of_seq (last ?old) < sc_as_of_seq sc" if "?old \<noteq> []"
      using that current sc(4,5) by (auto split: option.splits list.splits)
    show ?thesis unfolding slot
    proof (rule move_outcomeI)
      show "slot_move sha256 json_size L generation run (memory_slot (pc_key c)) tm
          (Some (t\<lparr>mt_checkpoints := dput ?slot (?old @ [sc]) (mt_checkpoints t)\<rparr>))"
        unfolding t(1) by (rule thread_move.saved [OF _ _ _ refl]) (use sc t th c(3) newer in auto)
      have "with_thread_state effect tm = tm" using effect by (simp add: with_thread_state_def)
      then show "snd (apply_effect sha256 change effect tm) =
          placed (memory_slot (pc_key c)) (Some (t\<lparr>mt_checkpoints := dput ?slot (?old @ [sc]) (mt_checkpoints t)\<rparr>)) tm"
        by (subst apply_effect_at [where key = "pc_key c" and t = t])
          (simp_all add: effect t sc Some placed_def apply_thread_effect_def Let_def)
    qed
  qed
qed

lemma delete_moves:
  assumes s: "sees now change tm state" and run: "resolve_delete_generation change state = Inr effect"
  shows "move_outcome sha256 json_size L generation run (change_slot change) tm (apply_effect sha256 change effect tm)"
proof -
  obtain key thread where k: "lc_key change = Some key" "require_exact_thread key state = Inr thread" "le_delete_generation effect"
    "lr_key (le_result effect) = Some key"
    using run by (auto simp: resolve_delete_generation_def bindE_Inr_iff split: option.splits)
  have slot: "change_slot change = memory_slot key" using sees_key [OF s k(1)] by simp
  have "ls_thread state = Some thread" using k(2) by (auto simp: require_exact_thread_def split: option.splits if_splits)
  then obtain t where t: "dget tm (memory_slot key) = Some t"
    using sees_thread [OF s] slot by (cases "dget tm (change_slot change)") auto
  show ?thesis unfolding slot
    by (rule move_outcomeI [where t' = None]) (simp_all add: t thread_move.removed k apply_effect_def Let_def placed_def)
qed

theorem commit_moves:
  assumes ok: "slots_ok tm" and L: "lc_limits change = L"
  shows "move_outcome sha256 json_size L generation (map_option i_run_id (lc_identity change)) (change_slot change) tm (tm_commit_ledger_change sha256 json_size generation now change tm)"
proof (cases "\<exists>state effect. state_for_change now change tm = Inr state \<and> resolve_ledger_change sha256 json_size generation change state = Inr effect")
  case False
  then show ?thesis
    by (intro move_outcome_same) (auto simp: tm_commit_ledger_change_def check_def split: sum.splits)
next
  case True
  then obtain state effect where state: "state_for_change now change tm = Inr state"
    and run: "resolve_ledger_change sha256 json_size generation change state = Inr effect" by blast
  have s: "sees now change tm state" using state run ok by (auto simp: sees_def resolve_ledger_change_def bindE_Inr_iff)
  have "move_outcome sha256 json_size L generation (map_option i_run_id (lc_identity change)) (change_slot change) tm (apply_effect sha256 change effect tm)"
  proof (cases "lc_kind change")
    case OpenWriter
    show ?thesis by (rule open_moves [OF s L]) (use run OpenWriter in \<open>auto simp: resolve_ledger_change_def bindE_Inr_iff\<close>)
  next
    case AppendEvents
    then have "resolve_append_events sha256 json_size change state = Inr effect" using run by (auto simp: resolve_ledger_change_def bindE_Inr_iff)
    then show ?thesis by (auto simp: resolve_append_events_def split: if_splits intro: proven_moves [OF s] append_moves [OF s L])
  next
    case RenewWriter
    show ?thesis by (rule renew_moves [OF s]) (use run RenewWriter in \<open>auto simp: resolve_ledger_change_def bindE_Inr_iff\<close>)
  next
    case CloseWriter
    show ?thesis by (rule close_moves [OF s]) (use run CloseWriter in \<open>auto simp: resolve_ledger_change_def bindE_Inr_iff\<close>)
  next
    case SaveProjectionCheckpoint
    show ?thesis by (rule save_moves [OF s]) (use run SaveProjectionCheckpoint in \<open>auto simp: resolve_ledger_change_def bindE_Inr_iff\<close>)
  next
    case DeleteGeneration
    show ?thesis by (rule delete_moves [OF s]) (use run DeleteGeneration in \<open>auto simp: resolve_ledger_change_def bindE_Inr_iff\<close>)
  qed
  moreover have "snd (tm_commit_ledger_change sha256 json_size generation now change tm) = snd (apply_effect sha256 change effect tm)"
    by (auto simp: tm_commit_ledger_change_def state run and_then_def split: prod.split sum.split)
  ultimately show ?thesis by (simp add: move_outcome_def)
qed

end
