(* ===== verification/Trace_Graph_Correct.thy ===== *)
theory Trace_Graph_Correct
  imports Trace_Graph
begin

text \<open>
  The timeline index: what every row satisfies, that the serialised revisions rebuild the same index, that a row
  never changes its identity, and that a batch writes every row at most once.
\<close>

section \<open>Rows\<close>

definition node_ok :: "graph_node \<Rightarrow> bool" where
  "node_ok n \<longleftrightarrow>
     (gn_model_call_id n = None \<longleftrightarrow> gn_model_call_seq n = None) \<and>
     (\<forall>s \<in> set_option (gn_model_call_seq n). 1 \<le> s \<and> s \<le> gn_updated_seq n) \<and>
     resolve_link_issue (gn_parent_subagent_id n) (gn_model_call_id n) (gn_link_issue n) = gn_link_issue n"

definition revision_key :: "graph_revision \<Rightarrow> string \<times> string" where
  "revision_key r = (revision_node_id r, revision_run_id r)"

definition revision_ok :: "graph_revision \<Rightarrow> bool" where
  "revision_ok r \<longleftrightarrow> (\<forall>n \<in> set_option (node_of r). node_ok n)"

definition revs_ok :: "revisions \<Rightarrow> bool" where
  "revs_ok revs \<longleftrightarrow> dwf revs \<and> (\<forall>k r. dget revs k = Some r \<longrightarrow> revision_key r = k \<and> revision_ok r)"

abbreviation mutation_ok :: "node_mutation \<Rightarrow> bool" where
  "mutation_ok m \<equiv> mk_mutation m = Inr m"

lemma mk_mutation_Inr: "mk_mutation m = Inr m' \<Longrightarrow> m' = m \<and> mutation_ok m"
  by (auto simp: mk_mutation_def bindE_Inr_iff)

lemma mutation_ok_iff:
  "mutation_ok m \<longleftrightarrow> (nm_model_call_id m = None \<longleftrightarrow> nm_model_call_seq m = None) \<and>
     (\<forall>n \<in> set_option (nm_model_call_seq m). 1 \<le> n \<and> n \<le> nm_updated_seq m)"
  by (auto simp: mk_mutation_def bindE_Inr_iff)

lemma built_ok: "built ms = Inr ms' \<Longrightarrow> ms' = ms \<and> (\<forall>m \<in> set ms. mutation_ok m)"
  by (induction ms arbitrary: ms') (auto simp: bindE_Inr_iff dest: mk_mutation_Inr)

lemma built_Inr: "\<forall>m \<in> set ms. mutation_ok m \<Longrightarrow> built ms = Inr ms"
  by (induction ms) auto

lemma batch_mutations_ok: "batch_mutations sha256 es = Inr ms \<Longrightarrow> m \<in> set ms \<Longrightarrow> mutation_ok m"
  by (induction es arbitrary: ms) (force simp: bindE_Inr_iff dest: built_ok)+

lemma merged_ok: "merged current m = Inr m' \<Longrightarrow> mutation_ok m' \<and> mutation_key m' = mutation_key m"
  unfolding merged_def Let_def bindE_Inr_iff
  by (elim exE conjE, drule mk_mutation_Inr) (simp add: mutation_key_def)

definition collected :: "(string \<times> string, node_mutation) dict \<Rightarrow> bool" where
  "collected vals \<longleftrightarrow> dwf vals \<and> (\<forall>k m. dget vals k = Some m \<longrightarrow> mutation_ok m \<and> mutation_key m = k)"

lemma collected_put: "collected vals \<Longrightarrow> mutation_ok m \<Longrightarrow> mutation_key m = k \<Longrightarrow> collected (dput k m vals)"
  by (simp add: collected_def dict_simps)

lemma coalesce_collected:
  "coalesce vals ms = Inr vals' \<Longrightarrow> collected vals \<Longrightarrow> \<forall>m \<in> set ms. mutation_ok m \<Longrightarrow> collected vals'"
proof (induction ms arbitrary: vals)
  case Nil
  then show ?case by simp
next
  case (Cons m ms)
  have step: "collected vals'" if "coalesce (dput (mutation_key m) m' vals) ms = Inr vals'" "mutation_ok m'" "mutation_key m' = mutation_key m" for m'
    using Cons.IH [OF that(1) collected_put [OF Cons.prems(2) that(2,3)]] Cons.prems(3) by simp
  show ?case
  proof (cases "dget vals (mutation_key m)")
    case None
    then show ?thesis using step [of m] Cons.prems by simp
  next
    case (Some current)
    show ?thesis
    proof (cases "nm_remove m \<or> nm_remove current")
      case True
      then show ?thesis using Some step [of m] Cons.prems by simp
    next
      case False
      then obtain m' where m': "merged current m = Inr m'" "coalesce (dput (mutation_key m) m' vals) ms = Inr vals'"
        using Cons.prems(1) Some by (auto simp: bindE_Inr_iff)
      show ?thesis by (rule step [OF m'(2)]) (use merged_ok [OF m'(1)] in auto)
    qed
  qed
qed

theorem batch_writes_once:
  assumes "graph_node_mutations sha256 es = Inr ms"
  shows "distinct (map mutation_key ms) \<and> (\<forall>m \<in> set ms. mutation_ok m)"
proof -
  obtain bs vals where b: "batch_mutations sha256 es = Inr bs" "coalesce [] bs = Inr vals" "ms = dvalues vals"
    using assms by (auto simp: graph_node_mutations_def coalesce_graph_mutations_def bindE_Inr_iff)
  have "collected vals" by (rule coalesce_collected [OF b(2)]) (use batch_mutations_ok [OF b(1)] in \<open>auto simp: collected_def\<close>)
  then have c: "dwf vals" "\<forall>k m. dget vals k = Some m \<longrightarrow> mutation_ok m \<and> mutation_key m = k" by (auto simp: collected_def)
  have keys: "map mutation_key ms = dkeys vals"
    using c by (auto simp: b(3) intro!: map_cong)
  have "mutation_ok m" if "m \<in> set ms" for m using that c dvalues_dget [OF c(1)] by (auto simp: b(3))
  then show ?thesis using c(1) by (simp only: keys) simp
qed

section \<open>Applying\<close>

lemma resolve_link_issue_idem: "resolve_link_issue p c (resolve_link_issue p c i) = resolve_link_issue p c i"
  by (simp add: resolve_link_issue_def)

lemma new_node_ok:
  "mutation_ok m \<Longrightarrow> new_node m = Some n \<Longrightarrow> node_ok n \<and> gn_node_id n = nm_node_id m \<and> gn_run_id n = nm_run_id m"
  by (auto simp: new_node_def node_ok_def mutation_ok_iff resolve_link_issue_idem split: option.splits)

text \<open>What no update changes.\<close>

definition same_identity :: "graph_node \<Rightarrow> graph_node \<Rightarrow> bool" where
  "same_identity n n' \<longleftrightarrow>
     gn_node_id n' = gn_node_id n \<and> gn_run_id n' = gn_run_id n \<and> gn_kind n' = gn_kind n \<and> gn_name n' = gn_name n \<and>
     gn_graph_namespace n' = gn_graph_namespace n \<and> gn_updated_seq n \<le> gn_updated_seq n' \<and>
     (\<forall>p \<in> set_option (gn_parent_subagent_id n). gn_parent_subagent_id n' = Some p) \<and>
     (\<forall>c \<in> set_option (gn_model_call_id n). gn_model_call_id n' = Some c)"

lemma same_identity_refl: "same_identity n n"
  by (simp add: same_identity_def)

lemma same_identity_trans: "same_identity a b \<Longrightarrow> same_identity b c \<Longrightarrow> same_identity a c"
  by (auto simp: same_identity_def)

definition written_link :: "node_mutation \<Rightarrow> graph_node \<Rightarrow> link_issue option" where
  "written_link m row =
     (let call = or_else (nm_model_call_id m) (gn_model_call_id row);
          issue = resolve_link_issue (gn_parent_subagent_id row) call (gn_link_issue row)
      in or_else issue (resolve_link_issue (gn_parent_subagent_id row) call (nm_link_issue m)))"

lemma written_row_sel [simp]:
  "gn_node_id (written_row m row) = gn_node_id row" "gn_run_id (written_row m row) = gn_run_id row"
  "gn_kind (written_row m row) = gn_kind row" "gn_name (written_row m row) = gn_name row"
  "gn_graph_namespace (written_row m row) = gn_graph_namespace row" "gn_updated_seq (written_row m row) = nm_updated_seq m"
  "gn_parent_subagent_id (written_row m row) = gn_parent_subagent_id row"
  "gn_model_call_id (written_row m row) = or_else (nm_model_call_id m) (gn_model_call_id row)"
  "gn_model_call_seq (written_row m row) = (if nm_model_call_id m = None then gn_model_call_seq row else nm_model_call_seq m)"
  "gn_link_issue (written_row m row) = written_link m row"
  by (simp_all add: written_row_def Let_def or_else_def written_link_def split: option.split)

lemma written_link_ok: "resolve_link_issue (gn_parent_subagent_id row) (or_else (nm_model_call_id m) (gn_model_call_id row)) (written_link m row)
    = written_link m row"
  by (auto simp: written_link_def or_else_def Let_def resolve_link_issue_def split: option.split)

lemma update_row_cases:
  assumes "update_row m row = (r, row')"
  obtains (kept) "row' = row" | (owner) "row' = row\<lparr>gn_parent_subagent_id := or_else (nm_parent_subagent_id m) (gn_parent_subagent_id row)\<rparr>"
      "nm_parent_subagent_id m = None \<or> gn_parent_subagent_id row = None \<or> nm_parent_subagent_id m = gn_parent_subagent_id row" "r \<noteq> Inr ()"
    | (written) "row' = written_row m (row\<lparr>gn_parent_subagent_id := or_else (nm_parent_subagent_id m) (gn_parent_subagent_id row)\<rparr>)"
      "r = Inr ()" "gn_updated_seq row \<le> nm_updated_seq m"
      "nm_parent_subagent_id m = None \<or> gn_parent_subagent_id row = None \<or> nm_parent_subagent_id m = gn_parent_subagent_id row"
      "nm_model_call_id m = None \<or> gn_model_call_id row = None \<or> nm_model_call_id m = gn_model_call_id row"
  using assms
  by (auto simp: update_row_def check_def require_def Let_def split: if_splits sum.splits)

lemma update_row_identity: "update_row m row = (r, row') \<Longrightarrow> same_identity row row'"
  by (erule update_row_cases) (auto simp: same_identity_def or_else_def split: option.splits)

lemma written_row_ok:
  assumes "mutation_ok m" "node_ok row" "gn_updated_seq row \<le> nm_updated_seq m"
  shows "node_ok (written_row m (row\<lparr>gn_parent_subagent_id := p\<rparr>))"
proof -
  let ?row = "row\<lparr>gn_parent_subagent_id := p\<rparr>"
  show ?thesis
    unfolding node_ok_def
  proof (intro conjI)
    show "resolve_link_issue (gn_parent_subagent_id (written_row m ?row)) (gn_model_call_id (written_row m ?row))
        (gn_link_issue (written_row m ?row)) = gn_link_issue (written_row m ?row)"
      using written_link_ok [of ?row m] by (simp only: written_row_sel)
    show "gn_model_call_id (written_row m ?row) = None \<longleftrightarrow> gn_model_call_seq (written_row m ?row) = None"
      using assms(1,2) unfolding mutation_ok_iff node_ok_def written_row_sel or_else_def by (auto split: option.split)
    show "\<forall>s \<in> set_option (gn_model_call_seq (written_row m ?row)). 1 \<le> s \<and> s \<le> gn_updated_seq (written_row m ?row)"
      using assms unfolding mutation_ok_iff node_ok_def written_row_sel by force
  qed
qed

lemma update_row_ok:
  assumes "mutation_ok m" "node_ok row" "update_row m row = (Inr (), row')"
  shows "node_ok row'"
  using assms(3) by (cases rule: update_row_cases) (use assms(1,2) written_row_ok in auto)

lemma apply_mutation_ok:
  assumes m: "mutation_ok m" and ok: "revs_ok revs" and run: "apply_mutation m revs = (Inr (), revs')"
  shows "revs_ok revs'"
proof -
  have put: "revs_ok (dput (mutation_key m) r revs)" if "revision_key r = mutation_key m" "revision_ok r" for r
    using ok that by (auto simp: revs_ok_def dict_simps)
  show ?thesis
  proof (cases "nm_remove m")
    case True
    then show ?thesis using run put by (auto simp: apply_mutation_def revision_key_def mutation_key_def revision_ok_def)
  next
    case False
    consider (row) row where "dget revs (mutation_key m) = Some (Node row)"
      | (new) n where "new_node m = Some n" "revs' = dput (mutation_key m) (Node n) revs"
      | (same) "revs' = revs"
      using run False by (auto simp: apply_mutation_def Let_def split: option.splits graph_revision.splits if_splits)
    then show ?thesis
    proof cases
      case row
      then obtain row' where u: "update_row m row = (Inr (), row')" "revs' = dput (mutation_key m) (Node row') revs"
        using run False by (auto simp: apply_mutation_def Let_def split: prod.splits)
      have "node_ok row" "revision_key (Node row) = mutation_key m" using ok row by (auto simp: revs_ok_def revision_ok_def)
      then show ?thesis using update_row_ok [OF m _ u(1)] update_row_identity [OF u(1)] put [of "Node row'"] u(2)
        by (simp add: revision_key_def revision_ok_def same_identity_def)
    next
      case new
      then show ?thesis using new_node_ok [OF m new(1)] put [of "Node n"] by (simp add: revision_key_def revision_ok_def mutation_key_def)
    next
      case same
      then show ?thesis using ok by simp
    qed
  qed
qed

lemma apply_mutations_ok:
  "\<forall>m \<in> set ms. mutation_ok m \<Longrightarrow> revs_ok revs \<Longrightarrow> apply_mutations ms revs = (Inr (), revs') \<Longrightarrow> revs_ok revs'"
  by (induction ms arbitrary: revs) (auto simp: and_then_Inr_iff dest: apply_mutation_ok)

lemma run_terminal_mutations_ok: "m \<in> set (run_terminal_mutations e revs) \<Longrightarrow> mutation_ok m"
  by (auto simp: run_terminal_mutations_def mutation_ok_iff blank_mutation_def split: trace_fact.splits option.splits)

lemma apply_graph_event_ok:
  assumes "revs_ok revs" "apply_graph_event sha256 e revs = (Inr (), revs')"
  shows "revs_ok revs'"
proof -
  obtain ms revs1 where a: "graph_node_mutations sha256 [e] = Inr ms" "apply_mutations ms revs = (Inr (), revs1)"
    "apply_mutations (run_terminal_mutations e (dvalues revs1)) revs1 = (Inr (), revs')"
    using assms(2) by (auto simp: apply_graph_event_def check_Inr_iff and_then_Inr_iff)
  have "revs_ok revs1" by (rule apply_mutations_ok [OF _ assms(1) a(2)]) (use batch_writes_once [OF a(1)] in simp)
  then show ?thesis by (rule apply_mutations_ok [OF _ _ a(3), rotated]) (simp add: run_terminal_mutations_ok)
qed

lemma apply_graph_events_ok:
  "revs_ok revs \<Longrightarrow> apply_graph_events sha256 es revs = (Inr (), revs') \<Longrightarrow> revs_ok revs'"
  by (induction es arbitrary: revs) (auto simp: and_then_Inr_iff dest: apply_graph_event_ok)

lemma apply_graph_events_append:
  "apply_graph_events sha256 (es @ es') revs = and_then (apply_graph_events sha256 es revs) (\<lambda>_. apply_graph_events sha256 es')"
  by (induction es arbitrary: revs) (auto simp: and_then_def split: prod.split sum.split)

section \<open>Keys\<close>

text \<open>Every revision sits under its own key, even after an update that raised.\<close>

definition revs_keyed :: "revisions \<Rightarrow> bool" where
  "revs_keyed revs \<longleftrightarrow> dwf revs \<and> (\<forall>k r. dget revs k = Some r \<longrightarrow> revision_key r = k)"

lemma revs_keyed_put: "revs_keyed revs \<Longrightarrow> revision_key r = k \<Longrightarrow> revs_keyed (dput k r revs)"
  by (auto simp: revs_keyed_def dict_simps)

lemma apply_mutation_keyed:
  assumes "revs_keyed revs"
  shows "revs_keyed (snd (apply_mutation m revs))"
proof (cases "nm_remove m")
  case True
  then show ?thesis using assms revs_keyed_put by (simp add: apply_mutation_def revision_key_def mutation_key_def)
next
  case False
  show ?thesis
  proof (cases "dget revs (mutation_key m)")
    case None
    then show ?thesis using False assms revs_keyed_put
      by (auto simp: apply_mutation_def revision_key_def mutation_key_def new_node_def Let_def split: option.split)
  next
    case (Some r)
    then show ?thesis
    proof (cases r)
      case (Node row)
      have "same_identity row (snd (update_row m row))" by (rule update_row_identity) (rule surjective_pairing)
      moreover have "revision_key r = mutation_key m" using assms Some by (simp add: revs_keyed_def)
      ultimately have "revision_key (Node (snd (update_row m row))) = mutation_key m"
        using Node by (simp add: revision_key_def same_identity_def)
      from revs_keyed_put [OF assms this] show ?thesis using Some Node False by (simp add: apply_mutation_def case_prod_beta)
    next
      case (Tombstone a b c)
      then show ?thesis using Some False assms revs_keyed_put
        by (auto simp: apply_mutation_def revision_key_def mutation_key_def new_node_def Let_def split: option.split)
    qed
  qed
qed

lemma and_then_snd:
  "P (snd r) \<Longrightarrow> (\<And>a s. P s \<Longrightarrow> P (snd (k a s))) \<Longrightarrow> P (snd (and_then r k))"
  by (cases r; cases "fst r") auto

lemma apply_mutations_keyed: "revs_keyed revs \<Longrightarrow> revs_keyed (snd (apply_mutations ms revs))"
  by (induction ms arbitrary: revs) (auto intro!: and_then_snd [of revs_keyed] apply_mutation_keyed)

lemma apply_graph_events_keyed: "revs_keyed revs \<Longrightarrow> revs_keyed (snd (apply_graph_events sha256 es revs))"
proof (induction es arbitrary: revs)
  case (Cons e es)
  have "revs_keyed (snd (apply_graph_event sha256 e revs'))" if "revs_keyed revs'" for revs'
    using that by (auto simp: apply_graph_event_def check_def split: sum.split intro!: and_then_snd [of revs_keyed] apply_mutations_keyed)
  then show ?case using Cons by (auto intro!: and_then_snd [of revs_keyed])
qed simp

section \<open>The end of a Run\<close>

text \<open>Closing the open assistant messages of a Run cannot fail.\<close>

definition accepted :: "revisions \<Rightarrow> node_mutation \<Rightarrow> bool" where
  "accepted revs m \<longleftrightarrow> \<not> nm_remove m \<and> (\<exists>row row'. dget revs (mutation_key m) = Some (Node row) \<and> update_row m row = (Inr (), row'))"

lemma apply_accepted:
  "distinct (map mutation_key ms) \<Longrightarrow> \<forall>m \<in> set ms. accepted revs m \<Longrightarrow> fst (apply_mutations ms revs) = Inr ()"
proof (induction ms arbitrary: revs)
  case (Cons m ms)
  then obtain row row' where m: "\<not> nm_remove m" "dget revs (mutation_key m) = Some (Node row)" "update_row m row = (Inr (), row')"
    by (auto simp: accepted_def)
  then have a: "apply_mutation m revs = (Inr (), dput (mutation_key m) (Node row') revs)" by (simp add: apply_mutation_def)
  have "accepted (dput (mutation_key m) (Node row') revs) m'" if "m' \<in> set ms" for m'
  proof -
    have "mutation_key m' \<noteq> mutation_key m" using Cons.prems(1) imageI [OF that, of mutation_key] by auto
    then show ?thesis using Cons.prems(2) that by (simp add: accepted_def dict_simps)
  qed
  then show ?case using Cons.IH Cons.prems(1) by (simp add: a)
qed simp

lemma run_terminal_applies:
  assumes keyed: "revs_keyed revs"
  shows "fst (apply_mutations (run_terminal_mutations e (dvalues revs)) revs) = Inr ()"
proof (rule apply_accepted)
  have d: "dwf revs" using keyed by (simp add: revs_keyed_def)
  have key: "map revision_key (dvalues revs) = dkeys revs"
  proof -
    have "revision_key r = k" if "(k, r) \<in> set revs" for k r
      using keyed map_of_is_SomeI [OF d that] by (simp add: revs_keyed_def)
    then show ?thesis by (auto intro!: map_cong)
  qed
  obtain status now run where ms: "run_terminal_mutations e (dvalues revs) = [] \<or> run_terminal_mutations e (dvalues revs) =
      map (\<lambda>r. (blank_mutation (revision_node_id r) (te_trace_seq e) (revision_run_id r))
        \<lparr>nm_status := Some status, nm_completed_at := terminal_time status now\<rparr>)
        (filter (open_assistant run (te_trace_seq e)) (dvalues revs))"
  proof (cases "run_terminal_mutations e (dvalues revs) = []")
    case False
    then obtain f status where "te_fact e = RunFact f" "run_terminal_status f = Some status"
      by (auto simp: run_terminal_mutations_def split: trace_fact.splits option.splits)
    then show ?thesis by (intro that) (auto simp: run_terminal_mutations_def)
  qed (use that in blast)
  have "distinct (map revision_key (dvalues revs))" unfolding key by (rule d)
  then have "distinct (map revision_key (filter (open_assistant run (te_trace_seq e)) (dvalues revs)))" by (rule distinct_map_filter)
  then show "distinct (map mutation_key (run_terminal_mutations e (dvalues revs)))"
    using ms by (auto simp: comp_def mutation_key_def blank_mutation_def revision_key_def [abs_def])
  show "\<forall>m \<in> set (run_terminal_mutations e (dvalues revs)). accepted revs m"
  proof
    define vs where "vs = dvalues revs"
    fix m assume "m \<in> set (run_terminal_mutations e (dvalues revs))"
    then obtain r where r: "r \<in> set (dvalues revs)" "open_assistant run (te_trace_seq e) r"
      "m = (blank_mutation (revision_node_id r) (te_trace_seq e) (revision_run_id r))
        \<lparr>nm_status := Some status, nm_completed_at := terminal_time status now\<rparr>"
      using ms unfolding vs_def [symmetric] by auto
    obtain row where row: "r = Node row" "gn_updated_seq row < te_trace_seq e" using r(2) by (cases r) auto
    obtain k where k: "dget revs k = Some r" using r(1) dvalues_dget [OF d] by blast
    then have "mutation_key m = k" using keyed r(3) by (auto simp: revs_keyed_def revision_key_def mutation_key_def blank_mutation_def)
    then show "accepted revs m"
      using k row r(3) by (simp add: accepted_def update_row_def blank_mutation_def resolve_node_kind_def Let_def)
  qed
qed

lemma run_fact_event_applies:
  assumes "te_fact e = RunFact f" "revs_keyed revs"
  shows "fst (apply_graph_event sha256 e revs) = Inr ()"
proof -
  have "graph_node_mutations sha256 [e] = Inr []"
    by (simp add: graph_node_mutations_def coalesce_graph_mutations_def fact_mutations_def assms(1))
  then show ?thesis using run_terminal_applies [OF assms(2)] by (simp add: apply_graph_event_def)
qed

lemma run_fact_events_apply:
  "\<forall>e \<in> set es. \<exists>f. te_fact e = RunFact f \<Longrightarrow> revs_keyed revs \<Longrightarrow> fst (apply_graph_events sha256 es revs) = Inr ()"
proof (induction es arbitrary: revs)
  case (Cons e es)
  obtain revs1 where e: "apply_graph_event sha256 e revs = (Inr (), revs1)"
    using run_fact_event_applies [of e _ revs] Cons.prems by (metis list.set_intros(1) prod.collapse)
  have "revs_keyed revs1" using apply_graph_events_keyed [OF Cons.prems(2), of sha256 "[e]"] e by simp
  then show ?case using Cons e by simp
qed simp

lemma run_fact_batch: "\<forall>e \<in> set es. \<exists>f. te_fact e = RunFact f \<Longrightarrow> graph_node_mutations sha256 es = Inr []"
proof -
  assume "\<forall>e \<in> set es. \<exists>f. te_fact e = RunFact f"
  then have "batch_mutations sha256 es = Inr []" by (induction es) (auto simp: fact_mutations_def)
  then show ?thesis by (simp add: graph_node_mutations_def coalesce_graph_mutations_def)
qed

section \<open>Rebuilding\<close>

lemma revision_mutation_ok: "revision_ok r \<Longrightarrow> mutation_ok (revision_mutation r)"
  by (cases r) (auto simp: revision_ok_def node_ok_def mutation_ok_iff blank_mutation_def)

lemma revision_mutation_key: "mutation_key (revision_mutation r) = revision_key r"
  by (cases r) (simp_all add: mutation_key_def revision_key_def blank_mutation_def)

lemma new_node_revision: "node_ok n \<Longrightarrow> new_node (revision_mutation (Node n)) = Some n"
  by (simp add: new_node_def node_ok_def)

lemma apply_revision:
  assumes "revision_ok r" "dget revs (revision_key r) = None"
  shows "apply_mutation (revision_mutation r) revs = (Inr (), revs @ [(revision_key r, r)])"
proof (cases r)
  case (Node n)
  then show ?thesis using assms new_node_revision [of n] revision_mutation_key [of r]
    by (simp add: apply_mutation_def revision_ok_def dput_new)
next
  case (Tombstone a b c)
  then show ?thesis using assms revision_mutation_key [of r]
    by (simp add: apply_mutation_def dput_new blank_mutation_def)
qed

lemma apply_revisions:
  "\<forall>r \<in> set rs. revision_ok r \<Longrightarrow> distinct (dkeys revs @ map revision_key rs) \<Longrightarrow>
   apply_mutations (map revision_mutation rs) revs = (Inr (), revs @ map (\<lambda>r. (revision_key r, r)) rs)"
proof (induction rs arbitrary: revs)
  case (Cons r rs)
  have "dget revs (revision_key r) = None" using Cons.prems(2) by (auto simp: dget_None_iff)
  then show ?case using Cons by (simp add: apply_revision)
qed simp

lemma rebuild_roundtrip:
  assumes "revs_ok revs"
  shows "\<exists>ms. graph_revision_mutations (dvalues revs) = Inr ms \<and> apply_mutations ms [] = (Inr (), revs)"
proof -
  have v: "revision_key r = k \<and> revision_ok r" if "(k, r) \<in> set revs" for k r
  proof -
    have "dget revs k = Some r" using assms that unfolding revs_ok_def by (blast intro: map_of_is_SomeI)
    then show ?thesis using assms by (simp add: revs_ok_def)
  qed
  have keys: "map (\<lambda>r. (revision_key r, r)) (dvalues revs) = revs" "map revision_key (dvalues revs) = dkeys revs"
    using v by (auto intro!: map_idI)
  have "graph_revision_mutations (dvalues revs) = Inr (map revision_mutation (dvalues revs))"
    unfolding graph_revision_mutations_def by (rule built_Inr) (use v revision_mutation_ok in auto)
  moreover have "apply_mutations (map revision_mutation (dvalues revs)) [] = (Inr (), revs)"
    by (subst apply_revisions) (use v keys assms in \<open>auto simp: revs_ok_def simp del: map_map\<close>)
  ultimately show ?thesis by blast
qed

end
