(* ===== verification/Trace_Memory_Correct.thy ===== *)
theory Trace_Memory_Correct
  imports Trace_Memory_Moves Trace_Graph_Correct
begin

text \<open>
  The invariant of a thread of the ledger: numbered events whose sizes add up, writers that agree with the events of
  their Run, reserves that still hold the terminal facts, checkpoints that advance. Every move keeps it.
\<close>

section \<open>The end of a Run\<close>

text \<open>The lifecycle facts of a Run after its ordinary facts, given the two flags of its writer.\<close>

definition tail_phases :: "bool \<Rightarrow> bool \<Rightarrow> run_phase list" where
  "tail_phases terminal closed = (if closed then [RpTerminal, RpClosed] else if terminal then [RpTerminal] else [])"

lemma lifecycle_phase_cases: "lifecycle_phase x = Some p \<Longrightarrow> p \<in> {RpTerminal, RpClosed}"
  by (cases x) (auto split: if_splits)

lemma two_phases:
  assumes "set ps \<subseteq> {RpTerminal, RpClosed}" "count_list ps RpTerminal \<le> 1" "count_list ps RpClosed \<le> 1"
  shows "ps \<in> {[], [RpTerminal], [RpClosed], [RpTerminal, RpClosed], [RpClosed, RpTerminal]}"
proof (cases ps)
  case (Cons a qs)
  then show ?thesis using assms
  proof (cases qs)
    case (Cons b rs)
    then have "rs = []" using assms \<open>ps = a # qs\<close> by (cases rs) (auto split: if_splits)
    then show ?thesis using assms Cons \<open>ps = a # qs\<close> by (auto split: if_splits)
  qed auto
qed simp

lemma all_lifecycle: "\<forall>x \<in> set xs. lifecycle_phase x \<noteq> None \<Longrightarrow> map lifecycle_phase xs = map Some (List.map_filter lifecycle_phase xs)"
  by (induction xs) (auto simp: List.map_filter_def)

lemma set_map_filter_lifecycle: "set (List.map_filter lifecycle_phase xs) \<subseteq> {RpTerminal, RpClosed}"
  by (auto simp: List.map_filter_def dest: lifecycle_phase_cases)

lemma mandatory_phases:
  assumes batch: "check_batch_kind True facts = Inr ()" and after: "lifecycle_after True w facts = Inr flags" and some: "facts \<noteq> []"
    and w: "ws_closed_committed w \<longrightarrow> ws_terminal_committed w"
  shows "\<not> ws_closed_committed w \<and> (snd flags \<longrightarrow> fst flags) \<and> (ws_terminal_committed w \<longrightarrow> fst flags) \<and> fst flags \<and>
    (\<exists>ps. map lifecycle_phase facts = map Some ps \<and>
       tail_phases (ws_terminal_committed w) False @ ps = tail_phases (fst flags) (snd flags))"
proof -
  let ?ps = "List.map_filter lifecycle_phase facts"
  have all: "\<forall>x \<in> set facts. lifecycle_phase x \<noteq> None"
    using batch by (auto simp: check_batch_kind_def Let_def bindE_Inr_iff)
  note ps = all_lifecycle [OF all]
  have ne: "?ps \<noteq> []" using ps some by (metis list.map_disc_iff)
  have a: "count_list ?ps RpTerminal \<le> 1" "count_list ?ps RpClosed \<le> 1" "\<not> (ws_terminal_committed w \<and> RpTerminal \<in> set ?ps)"
    "\<not> ws_closed_committed w" "RpClosed \<in> set ?ps \<longrightarrow> ws_terminal_committed w \<or>
       (RpTerminal \<in> set ?ps \<and> index_of RpTerminal ?ps < index_of RpClosed ?ps)"
    "flags = (ws_terminal_committed w \<or> RpTerminal \<in> set ?ps, RpClosed \<in> set ?ps)"
    using after by (auto simp: lifecycle_after_def Let_def bindE_Inr_iff)
  have "?ps \<in> {[], [RpTerminal], [RpClosed], [RpTerminal, RpClosed], [RpClosed, RpTerminal]}"
    by (rule two_phases [OF set_map_filter_lifecycle a(1,2)])
  then have "tail_phases (ws_terminal_committed w) False @ ?ps = tail_phases (fst flags) (snd flags) \<and> fst flags"
    using a(3,5,6) ne by (auto simp: tail_phases_def index_of_def)
  then show ?thesis using a(4,6) ps by auto
qed

lemma ordinary_phases:
  assumes batch: "check_batch_kind False facts = Inr ()" and after: "lifecycle_after False w facts = Inr flags"
  shows "\<not> ws_terminal_committed w \<and> \<not> ws_closed_committed w \<and> flags = (False, False) \<and>
    map lifecycle_phase facts = replicate (length facts) None"
  using assms
  by (auto simp: check_batch_kind_def lifecycle_after_def Let_def bindE_Inr_iff map_replicate_const [symmetric] intro!: map_cong)

section \<open>Writers\<close>

definition writer_ok :: "trace_limits \<Rightarrow> trace_fact list \<Rightarrow> writer_state \<Rightarrow> bool" where
  "writer_ok L log w \<longleftrightarrow>
     ws_committed_events w = int (length log) \<and> 1 \<le> ws_fence w \<and>
     (\<exists>n. map lifecycle_phase log = replicate n None @ map Some (tail_phases (ws_terminal_committed w) (ws_closed_committed w))) \<and>
     (ws_closed_committed w \<longrightarrow> ws_terminal_committed w) \<and>
     (if ws_active w \<and> \<not> ws_closed_committed w
      then ws_remaining_event_reserve w = terminal_reserve_events_per_run L - of_bool (ws_terminal_committed w) \<and>
        ws_remaining_event_reserve w * max_event_bytes L \<le> ws_remaining_byte_reserve w
      else ws_remaining_event_reserve w = 0 \<and> ws_remaining_byte_reserve w = 0)"

lemma fresh_writer_ok:
  "mk_trace_limits L = Inr L \<Longrightarrow> fresh_writer L w \<Longrightarrow> writer_ok L [] w"
  by (auto simp: writer_ok_def fresh_writer_def tail_phases_def mk_trace_limits_def bindE_Inr_iff)

lemma held_writer_ok: "writer_ok L log w \<Longrightarrow> ws_active w \<Longrightarrow> held_writer w w' \<Longrightarrow> writer_ok L log w'"
  by (auto simp: writer_ok_def held_writer_def)

lemma closed_writer_ok:
  "writer_ok L log w \<Longrightarrow> writer_ok L log (w\<lparr>ws_active := False, ws_remaining_event_reserve := 0, ws_remaining_byte_reserve := 0\<rparr>)"
  by (simp add: writer_ok_def)

lemma numbered_bytes:
  "numbered_events json_size L key r seq es \<Longrightarrow> (\<Sum>e \<leftarrow> es. te_persisted_bytes e) \<le> int (length es) * max_event_bytes L"
proof -
  assume "numbered_events json_size L key r seq es"
  then have "\<forall>e \<in> set es. te_persisted_bytes e \<le> max_event_bytes L" by (auto simp: numbered_events_def)
  then show ?thesis by (induction es) (auto simp: algebra_simps)
qed

lemma append_after_ok:
  assumes L: "mk_trace_limits L = Inr L" and w: "writer_ok L log w" "ws_active w" and es: "es \<noteq> []"
    and n: "numbered_events json_size L key r seq es" and a: "append_after mandatory w es w'"
  shows "writer_ok L (log @ map te_fact es) w'"
proof -
  obtain flags lease where f: "check_batch_kind mandatory (map te_fact es) = Inr ()" "lifecycle_after mandatory w (map te_fact es) = Inr flags"
    and w': "w' = w\<lparr>ws_lease_expires_at := lease, ws_active := True, ws_terminal_committed := fst flags,
          ws_closed_committed := snd flags, ws_committed_events := ws_committed_events w + int (length es),
          ws_remaining_event_reserve := (if \<not> mandatory then ws_remaining_event_reserve w
             else if snd flags then 0 else ws_remaining_event_reserve w - int (length es)),
          ws_remaining_byte_reserve := (if \<not> mandatory then ws_remaining_byte_reserve w
             else if snd flags then 0 else ws_remaining_byte_reserve w - (\<Sum>e \<leftarrow> es. te_persisted_bytes e))\<rparr>"
    using a by (auto simp: append_after_def)
  obtain m where log: "map lifecycle_phase log = replicate m None @ map Some (tail_phases (ws_terminal_committed w) (ws_closed_committed w))"
    using w(1) by (auto simp: writer_ok_def)
  show ?thesis
  proof (cases mandatory)
    case False
    with f have o: "\<not> ws_terminal_committed w \<and> \<not> ws_closed_committed w \<and> flags = (False, False) \<and>
        map lifecycle_phase (map te_fact es) = replicate (length es) None"
      using ordinary_phases [of "map te_fact es" w flags] by simp
    then have "map lifecycle_phase (log @ map te_fact es) = replicate (m + length es) None"
      using log by (simp add: tail_phases_def replicate_add)
    then show ?thesis using w o False by (auto simp: writer_ok_def w' tail_phases_def intro!: exI [of _ "m + length es"])
  next
    case True
    then have b: "check_batch_kind True (map te_fact es) = Inr ()" "lifecycle_after True w (map te_fact es) = Inr flags" using f by auto
    obtain ps where o: "\<not> ws_closed_committed w" "snd flags \<longrightarrow> fst flags" "fst flags"
      "map lifecycle_phase (map te_fact es) = map Some ps" "tail_phases (ws_terminal_committed w) False @ ps = tail_phases (fst flags) (snd flags)"
      using mandatory_phases [OF b] es w(1) by (auto simp: writer_ok_def)
    have len: "length es = length ps" using arg_cong [OF o(4), of length] by simp
    have some: "map Some (tail_phases (ws_terminal_committed w) False) @ map Some ps = map Some (tail_phases (fst flags) (snd flags))"
      using arg_cong [OF o(5), of "map Some"] by simp
    have phases: "map lifecycle_phase (log @ map te_fact es) = replicate m None @ map Some (tail_phases (fst flags) (snd flags))"
      using log o(1,4) some by (simp del: map_map)
    have one: "int (length es) = 1 - of_bool (ws_terminal_committed w)" if "\<not> snd flags"
      using arg_cong [OF o(5), of length] that o(3) len by (simp add: tail_phases_def split: if_splits)
    have bytes: "(ws_remaining_event_reserve w - int (length es)) * max_event_bytes L
        \<le> ws_remaining_byte_reserve w - (\<Sum>e \<leftarrow> es. te_persisted_bytes e)"
      using numbered_bytes [OF n] w o(1) by (auto simp: writer_ok_def algebra_simps)
    show ?thesis
      using w o(1-3) True phases one bytes by (auto simp: writer_ok_def w' intro!: exI [of _ m] simp del: map_map)
  qed
qed

section \<open>Threads\<close>

definition run_log :: "string \<Rightarrow> memory_event list \<Rightarrow> trace_fact list" where
  "run_log r ms = map te_fact (filter (\<lambda>e. fact_run (te_fact e) = r) (map me_validated_event ms))"

text \<open>One retained event: its columns repeat the validated event, which is of this generation and within the size limit.\<close>

definition stored_ok :: "(trace_event \<Rightarrow> int) \<Rightarrow> trace_limits \<Rightarrow> thread_key \<Rightarrow> memory_event \<Rightarrow> bool" where
  "stored_ok json_size L key m \<longleftrightarrow>
     (let e = me_validated_event m
      in m = memory_event_of e (se_canonical_payload m) (se_payload_digest m) \<and> te_generation e = tk_generation key \<and>
         i_namespace (fact_identity (te_fact e)) = tk_namespace key \<and> i_thread_id (fact_identity (te_fact e)) = tk_thread_id key \<and>
         te_persisted_bytes e = json_size e \<and> json_size e \<le> max_event_bytes L)"

definition checkpoints_ok :: "memory_thread \<Rightarrow> bool" where
  "checkpoints_ok t \<longleftrightarrow>
     (\<forall>slot cs. dget (mt_checkpoints t) slot = Some cs \<longrightarrow> sorted_wrt (<) (map sc_as_of_seq cs) \<and>
        (\<forall>c \<in> set cs. sc_key c = th_key (mt_state t) \<and> (sc_projection_name c, sc_run_id c) = slot \<and>
           sc_as_of_seq c < th_next_seq (mt_state t)))"

definition log_ok :: "(trace_event \<Rightarrow> int) \<Rightarrow> trace_limits \<Rightarrow> memory_thread \<Rightarrow> bool" where
  "log_ok json_size L t \<longleftrightarrow>
     map se_trace_seq (mt_events t) = map (\<lambda>i. 1 + int i) [0..<length (mt_events t)] \<and>
     th_next_seq (mt_state t) = 1 + int (length (mt_events t)) \<and>
     th_persisted_bytes (mt_state t) = (\<Sum>m \<leftarrow> mt_events t. se_persisted_bytes m) \<and>
     (\<forall>m \<in> set (mt_events t). stored_ok json_size L (th_key (mt_state t)) m)"

definition writers_ok :: "trace_limits \<Rightarrow> memory_thread \<Rightarrow> bool" where
  "writers_ok L t \<longleftrightarrow>
     dwf (mt_writers t) \<and>
     (\<forall>r. case dget (mt_writers t) r of None \<Rightarrow> run_log r (mt_events t) = []
        | Some w \<Rightarrow> ws_run_id w = r \<and> writer_ok L (run_log r (mt_events t)) w)"

definition graph_ok :: "(bytes \<Rightarrow> string) \<Rightarrow> memory_thread \<Rightarrow> bool" where
  "graph_ok sha256 t \<longleftrightarrow>
     revs_keyed (mt_graph_nodes t) \<and>
     (\<forall>revs. apply_graph_events sha256 (map me_validated_event (mt_events t)) [] = (Inr (), revs) \<longrightarrow> mt_graph_nodes t = revs)"

definition thread_ok :: "(bytes \<Rightarrow> string) \<Rightarrow> (trace_event \<Rightarrow> int) \<Rightarrow> trace_limits \<Rightarrow> memory_thread \<Rightarrow> bool" where
  "thread_ok sha256 json_size L t \<longleftrightarrow> log_ok json_size L t \<and> writers_ok L t \<and> checkpoints_ok t \<and> graph_ok sha256 t"

lemma writers_ok_put:
  assumes "writers_ok L t" "writer_ok L (run_log (ws_run_id w) (mt_events t)) w"
  shows "writers_ok L (t\<lparr>mt_writers := dput (ws_run_id w) w (mt_writers t)\<rparr>)"
  using assms by (auto simp: writers_ok_def dict_simps cong: option.case_cong)

lemma writers_okD:
  assumes "writers_ok L t" "dget (mt_writers t) r = Some w"
  shows "ws_run_id w = r" "writer_ok L (run_log r (mt_events t)) w"
  using assms by (auto simp: writers_ok_def dest: spec [of _ r])

lemma writers_ok_None: "writers_ok L t \<Longrightarrow> dget (mt_writers t) r = None \<Longrightarrow> run_log r (mt_events t) = []"
  by (auto simp: writers_ok_def dest: spec [of _ r])

lemma other_fields_ok:
  "log_ok json_size L (t\<lparr>mt_writers := ws\<rparr>) = log_ok json_size L t" "checkpoints_ok (t\<lparr>mt_writers := ws\<rparr>) = checkpoints_ok t"
  "graph_ok sha256 (t\<lparr>mt_writers := ws\<rparr>) = graph_ok sha256 t"
  "log_ok json_size L (t\<lparr>mt_checkpoints := cs\<rparr>) = log_ok json_size L t" "writers_ok L (t\<lparr>mt_checkpoints := cs\<rparr>) = writers_ok L t"
  "graph_ok sha256 (t\<lparr>mt_checkpoints := cs\<rparr>) = graph_ok sha256 t"
  by (simp_all add: log_ok_def checkpoints_ok_def graph_ok_def writers_ok_def cong: option.case_cong)

lemma holds_eventsE:
  assumes "holds_events ms es"
  shows "map me_validated_event ms = es" "map se_trace_seq ms = map te_trace_seq es" "map se_persisted_bytes ms = map te_persisted_bytes es"
    "length ms = length es"
    "m \<in> set ms \<Longrightarrow> m = memory_event_of (me_validated_event m) (se_canonical_payload m) (se_payload_digest m) \<and> me_validated_event m \<in> set es"
proof -
  obtain payloads where p: "length payloads = length es" "ms = map (\<lambda>(e, payload, digest). memory_event_of e payload digest) (zip es payloads)"
    using assms by (auto simp: holds_events_def)
  have e: "map f ms = map g es" if "\<And>e a b. f (memory_event_of e a b) = g e" for f :: "memory_event \<Rightarrow> 'a" and g
  proof -
    have "map f ms = map g (map fst (zip es payloads))" using that by (simp add: p(2) split_beta comp_def)
    then show ?thesis using p(1) by simp
  qed
  show "map me_validated_event ms = es" using e [of me_validated_event id] by (simp add: memory_event_of_def)
  show "map se_trace_seq ms = map te_trace_seq es" by (rule e) (simp add: memory_event_of_def)
  show "map se_persisted_bytes ms = map te_persisted_bytes es" by (rule e) (simp add: memory_event_of_def)
  show "length ms = length es" using p by simp
  show "m = memory_event_of (me_validated_event m) (se_canonical_payload m) (se_payload_digest m) \<and> me_validated_event m \<in> set es" if "m \<in> set ms"
    using that p by (auto simp: memory_event_of_def dest: set_zip_leftD)
qed

section \<open>Every move keeps the invariant\<close>

lemma fresh_thread_ok:
  assumes L: "mk_trace_limits L = Inr L" and w: "fresh_writer L w"
  shows "thread_ok sha256 json_size L
    ((fresh_memory_thread \<lparr>th_key = key, th_next_seq = 1, th_persisted_bytes = 0\<rparr>)\<lparr>mt_writers := [(ws_run_id w, w)]\<rparr>)"
  using fresh_writer_ok [OF L w]
  by (simp add: thread_ok_def fresh_memory_thread_def log_ok_def writers_ok_def checkpoints_ok_def graph_ok_def run_log_def revs_keyed_def)

lemma put_writer_ok:
  assumes "thread_ok sha256 json_size L t" "writer_ok L (run_log (ws_run_id w) (mt_events t)) w"
  shows "thread_ok sha256 json_size L (t\<lparr>mt_writers := dput (ws_run_id w) w (mt_writers t)\<rparr>)"
  using assms writers_ok_put [of L t w] by (simp add: thread_ok_def other_fields_ok)

lemma dropped_writer_ok:
  assumes t: "thread_ok sha256 json_size L t" and w: "dget (mt_writers t) r = Some w" "ws_committed_events w = 0"
  shows "thread_ok sha256 json_size L (t\<lparr>mt_writers := ddel r (mt_writers t)\<rparr>)"
proof -
  have "writers_ok L t" using t by (simp add: thread_ok_def)
  moreover have "run_log r (mt_events t) = []" using writers_okD [OF \<open>writers_ok L t\<close> w(1)] w(2) by (simp add: writer_ok_def)
  ultimately have "writers_ok L (t\<lparr>mt_writers := ddel r (mt_writers t)\<rparr>)"
    by (auto simp: writers_ok_def dict_simps cong: option.case_cong)
  then show ?thesis using t by (simp add: thread_ok_def other_fields_ok)
qed

lemma run_log_append:
  assumes "holds_events ms es" "numbered_events json_size L key r seq es"
  shows "run_log r' (ns @ ms) = run_log r' ns @ (if r' = r then map te_fact es else [])"
proof -
  have "\<forall>e \<in> set es. fact_run (te_fact e) = r" using assms(2) by (auto simp: numbered_events_def)
  then have "filter (\<lambda>e. fact_run (te_fact e) = r') es = (if r' = r then es else [])" by (auto simp: filter_empty_conv)
  then show ?thesis using holds_eventsE(1) [OF assms(1)] by (simp add: run_log_def)
qed

lemma appended_log_ok:
  assumes t: "log_ok json_size L t" and n: "numbered_events json_size L (th_key (mt_state t)) r (th_next_seq (mt_state t)) es"
    and ms: "holds_events ms es"
    and t': "mt_state t' = (mt_state t)\<lparr>th_next_seq := th_next_seq (mt_state t) + int (length es),
         th_persisted_bytes := th_persisted_bytes (mt_state t) + (\<Sum>e \<leftarrow> es. te_persisted_bytes e)\<rparr>" "mt_events t' = mt_events t @ ms"
  shows "log_ok json_size L t'"
proof -
  note h = holds_eventsE [OF ms]
  let ?n = "length (mt_events t)"
  have len: "length ms = length es" by (rule h(4))
  have seqs: "map se_trace_seq ms = map (\<lambda>i. 1 + int i) [?n..<?n + length ms]"
  proof -
    have "map se_trace_seq ms = map (\<lambda>i. th_next_seq (mt_state t) + int i) [0..<length es]"
      using n h(2) by (simp add: numbered_events_def)
    also have "\<dots> = map (\<lambda>i. 1 + int (i + ?n)) [0..<length es]" using t by (simp add: log_ok_def algebra_simps)
    also have "\<dots> = map (\<lambda>i. 1 + int i) [?n..<?n + length ms]"
      by (rule nth_equalityI) (simp_all add: len)
    finally show ?thesis .
  qed
  have "stored_ok json_size L (th_key (mt_state t)) m" if "m \<in> set ms" for m
    using h(5) [OF that] n by (auto simp: stored_ok_def numbered_events_def Let_def)
  then show ?thesis using t seqs len h(3)
    by (auto simp: log_ok_def t' upt_add_eq_append [of 0, simplified])
qed

lemma appended_graph_ok:
  assumes t: "graph_ok sha256 t" and ms: "holds_events ms es" and t': "mt_events t' = mt_events t @ ms"
    "mt_graph_nodes t' = snd (apply_graph_events sha256 es (mt_graph_nodes t))"
  shows "graph_ok sha256 t'"
proof -
  have "mt_graph_nodes t' = revs"
    if a: "apply_graph_events sha256 (map me_validated_event (mt_events t) @ es) [] = (Inr (), revs)" for revs
  proof -
    obtain revs1 where r: "apply_graph_events sha256 (map me_validated_event (mt_events t)) [] = (Inr (), revs1)"
      "apply_graph_events sha256 es revs1 = (Inr (), revs)"
      using a by (auto simp: apply_graph_events_append and_then_Inr_iff)
    then show ?thesis using t t'(2) by (simp add: graph_ok_def)
  qed
  moreover have "revs_keyed (mt_graph_nodes t')" using t t'(2) apply_graph_events_keyed by (simp add: graph_ok_def)
  ultimately show ?thesis using holds_eventsE(1) [OF ms] by (simp add: graph_ok_def t'(1))
qed

lemma appended_writers_ok:
  assumes L: "mk_trace_limits L = Inr L" and t: "writers_ok L t" and w: "dget (mt_writers t) (ws_run_id w) = Some w" "ws_active w"
    and es: "es \<noteq> []" and n: "numbered_events json_size L key (ws_run_id w) seq es" and a: "append_after mandatory w es w'"
    and ms: "holds_events ms es"
    and t': "mt_writers t' = dput (ws_run_id w) w' (mt_writers t)" "mt_events t' = mt_events t @ ms"
  shows "writers_ok L t'"
proof -
  have run: "ws_run_id w' = ws_run_id w" using a by (auto simp: append_after_def)
  have log: "run_log r (mt_events t @ ms) = run_log r (mt_events t) @ (if r = ws_run_id w then map te_fact es else [])" for r
    by (rule run_log_append [OF ms n])
  have w': "writer_ok L (run_log (ws_run_id w) (mt_events t) @ map te_fact es) w'"
    by (rule append_after_ok [OF L _ w(2) es n a]) (rule writers_okD(2) [OF t w(1)])
  show ?thesis
    unfolding writers_ok_def t' log
    using t w' run by (auto simp: writers_ok_def dict_simps cong: option.case_cong)
qed

lemma saved_ok:
  assumes t: "checkpoints_ok t" and c: "sc_key c = th_key (mt_state t)" "sc_as_of_seq c < th_next_seq (mt_state t)"
    "slot = (sc_projection_name c, sc_run_id c)" "old = (case dget (mt_checkpoints t) slot of None \<Rightarrow> [] | Some cs \<Rightarrow> cs)"
    "old \<noteq> [] \<longrightarrow> sc_as_of_seq (last old) < sc_as_of_seq c"
  shows "checkpoints_ok (t\<lparr>mt_checkpoints := dput slot (old @ [c]) (mt_checkpoints t)\<rparr>)"
proof -
  have old: "sorted_wrt (<) (map sc_as_of_seq old)"
    "\<forall>x \<in> set old. sc_key x = th_key (mt_state t) \<and> (sc_projection_name x, sc_run_id x) = slot \<and> sc_as_of_seq x < th_next_seq (mt_state t)"
    using spec [OF t [unfolded checkpoints_ok_def], of slot] by (cases "dget (mt_checkpoints t) slot"; simp add: c(4))+
  have "sc_as_of_seq x \<le> sc_as_of_seq (last old)" if "x \<in> set old" for x
  proof -
    have "old \<noteq> []" using that by auto
    then have "old = butlast old @ [last old]" by simp
    then have "sorted_wrt (<) (map sc_as_of_seq (butlast old) @ [sc_as_of_seq (last old)])"
      using old(1) by (metis list.simps(8,9) map_append)
    moreover have "x \<in> set (butlast old) \<or> x = last old" using that \<open>old = butlast old @ [last old]\<close>
      by (metis Un_iff empty_iff insert_iff list.set(1,2) set_append)
    ultimately show ?thesis by (auto simp: sorted_wrt_append)
  qed
  then have "sorted_wrt (<) (map sc_as_of_seq (old @ [c]))" using old(1) c(5) by (fastforce simp: sorted_wrt_append)
  then show ?thesis using t old c(1-3) by (auto simp: checkpoints_ok_def dict_simps)
qed

theorem move_keeps_thread:
  assumes L: "mk_trace_limits L = Inr L" and move: "thread_move sha256 json_size L generation run threads bytes slot v v'"
    and old: "\<And>t. v = Some t \<Longrightarrow> thread_ok sha256 json_size L t" and new: "v' = Some t'"
  shows "thread_ok sha256 json_size L t'"
  using move
proof cases
  case (created w key t)
  then show ?thesis using fresh_thread_ok [OF L] new by simp
next
  case (opened w t)
  then have t: "thread_ok sha256 json_size L t" using old by simp
  then have "run_log (ws_run_id w) (mt_events t) = []" using opened writers_ok_None by (auto simp: thread_ok_def)
  then show ?thesis using put_writer_ok [OF t, of w] fresh_writer_ok [OF L] opened new by simp
next
  case (held t w w')
  then have t: "thread_ok sha256 json_size L t" using old by simp
  have "writer_ok L (run_log (ws_run_id w) (mt_events t)) w" by (rule writers_okD [OF _ held(3)]) (use t in \<open>simp add: thread_ok_def\<close>)
  then show ?thesis using put_writer_ok [OF t, of w'] held_writer_ok [OF _ held(4,5)] held_writer_run [OF held(5)] held new by simp
next
  case (appended t w es mandatory w' ms graph)
  then have t: "thread_ok sha256 json_size L t" using old by simp
  have "log_ok json_size L t'" "writers_ok L t'" "graph_ok sha256 t'"
    using appended_log_ok [OF _ appended(6) _ , of ms t'] appended_writers_ok [OF L _ appended(3,4,5,6,8,9), of t']
      appended_graph_ok [OF _ appended(9), of sha256 t t'] t appended new by (auto simp: thread_ok_def)
  moreover have "checkpoints_ok t'"
    using t appended new by (fastforce simp: thread_ok_def checkpoints_ok_def)
  ultimately show ?thesis by (simp add: thread_ok_def)
next
  case (closed t w w')
  then have t: "thread_ok sha256 json_size L t" using old by simp
  have "writer_ok L (run_log (ws_run_id w) (mt_events t)) w" by (rule writers_okD [OF _ closed(3)]) (use t in \<open>simp add: thread_ok_def\<close>)
  then show ?thesis using put_writer_ok [OF t, of w'] closed_writer_ok closed new by simp
next
  case (dropped t w)
  then show ?thesis using dropped_writer_ok [of sha256 json_size L t "ws_run_id w" w] old new by simp
next
  case (removed t)
  then show ?thesis using new by simp
next
  case (saved c t name old)
  then have t: "thread_ok sha256 json_size L t" using assms(3) by simp
  then show ?thesis using saved_ok [of t c name old] saved new by (simp add: thread_ok_def other_fields_ok)
qed

end
