(* ===== verification/Trace_Memory_Steps.thy ===== *)
theory Trace_Memory_Steps
  imports Trace_Memory_Correct
begin

text \<open>
  The quotas, the invariant of the whole memory and its runs. A run is any sequence of commits under one set of limits, each
  with a generation not drawn before, and of graph rebuilds as the store requests them.
\<close>

section \<open>Quotas\<close>

abbreviation active_reserve :: "(writer_state \<Rightarrow> int) \<Rightarrow> writer_state \<Rightarrow> int" where
  "active_reserve f w \<equiv> if ws_active w then f w else 0"

lemma filtered_dsum: "(\<Sum>w \<leftarrow> filter P (dvalues d). f w) = dsum (\<lambda>w. if P w then f w else 0) d"
  by (induction d) auto

lemma reserved_dsum:
  "reserved_events t = dsum (active_reserve ws_remaining_event_reserve) (mt_writers t)"
  "reserved_bytes t = dsum (active_reserve ws_remaining_byte_reserve) (mt_writers t)"
  unfolding reserved_events_def reserved_bytes_def by (rule filtered_dsum)+

definition usage_of :: "memory_thread option \<Rightarrow> int" where
  "usage_of v = (case v of None \<Rightarrow> 0 | Some t \<Rightarrow> byte_usage t)"

definition within_quota :: "trace_limits \<Rightarrow> memory_thread \<Rightarrow> bool" where
  "within_quota L t \<longleftrightarrow> event_usage t \<le> max_thread_events L \<and> byte_usage t \<le> max_thread_bytes L"

lemma reserves_nonneg:
  assumes L: "mk_trace_limits L = Inr L" and w: "writer_ok L log w"
  shows "0 \<le> ws_remaining_event_reserve w" "0 \<le> ws_remaining_byte_reserve w"
proof -
  have l: "1024 \<le> max_event_bytes L" "2 \<le> terminal_reserve_events_per_run L"
    using L by (auto simp: mk_trace_limits_def trace_limits_in_range_def bindE_Inr_iff)
  show e: "0 \<le> ws_remaining_event_reserve w" using w l by (auto simp: writer_ok_def split: if_splits)
  then have "0 \<le> ws_remaining_event_reserve w * max_event_bytes L" using l by simp
  then show "0 \<le> ws_remaining_byte_reserve w" using w by (auto simp: writer_ok_def split: if_splits)
qed

lemma stored_ok_persisted: "stored_ok json_size L key m \<Longrightarrow> se_persisted_bytes m = json_size (me_validated_event m)"
proof -
  assume s: "stored_ok json_size L key m"
  let ?e = "me_validated_event m"
  have "m = memory_event_of ?e (se_canonical_payload m) (se_payload_digest m)" "te_persisted_bytes ?e = json_size ?e"
    using s by (simp_all add: stored_ok_def Let_def)
  moreover have "se_persisted_bytes (memory_event_of ?e a b) = te_persisted_bytes ?e" for a b by (simp add: memory_event_of_def)
  ultimately show ?thesis by metis
qed

lemma usage_nonneg:
  assumes L: "mk_trace_limits L = Inr L" and t: "thread_ok sha256 json_size L t" and size: "\<And>e. 0 \<le> json_size e"
  shows "0 \<le> byte_usage t" "0 \<le> reserved_bytes t"
proof -
  have w: "0 \<le> ws_remaining_byte_reserve w" if m: "w \<in> set (dvalues (mt_writers t))" for w
  proof -
    have d: "dwf (mt_writers t)" using t by (simp add: thread_ok_def writers_ok_def)
    obtain r where r: "dget (mt_writers t) r = Some w" using iffD1 [OF dvalues_dget [OF d] m] by blast
    have ok: "writers_ok L t" using t by (simp add: thread_ok_def)
    show ?thesis by (rule reserves_nonneg(2) [OF L writers_okD(2) [OF ok r]])
  qed
  show r: "0 \<le> reserved_bytes t" unfolding reserved_bytes_def by (rule sum_list_nonneg) (use w in auto)
  have "0 \<le> se_persisted_bytes m" if "m \<in> set (mt_events t)" for m
  proof -
    have "stored_ok json_size L (th_key (mt_state t)) m" using t that by (simp add: thread_ok_def log_ok_def)
    then have "se_persisted_bytes m = json_size (me_validated_event m)"
      by (simp add: stored_ok_persisted)
    then show ?thesis using size by simp
  qed
  then have "0 \<le> th_persisted_bytes (mt_state t)" using t by (auto simp: thread_ok_def log_ok_def intro!: sum_list_nonneg)
  then show "0 \<le> byte_usage t" using r by (simp add: byte_usage_def)
qed

lemma put_reserve:
  assumes "dget (mt_writers t) r = Some w"
  shows "event_usage (t\<lparr>mt_writers := dput r w' (mt_writers t)\<rparr>) =
      event_usage t + active_reserve ws_remaining_event_reserve w' - active_reserve ws_remaining_event_reserve w"
    "byte_usage (t\<lparr>mt_writers := dput r w' (mt_writers t)\<rparr>) =
      byte_usage t + active_reserve ws_remaining_byte_reserve w' - active_reserve ws_remaining_byte_reserve w"
  using assms by (simp_all add: event_usage_def byte_usage_def reserved_dsum dsum_dput)

text \<open>No move takes a quota beyond its limit, neither of the thread nor of the namespace.\<close>

lemma move_quota:
  assumes L: "mk_trace_limits L = Inr L" and move: "thread_move sha256 json_size L generation run threads bytes slot v v'"
    and old: "\<And>t. v = Some t \<Longrightarrow> thread_ok sha256 json_size L t \<and> within_quota L t" and size: "\<And>e. 0 \<le> json_size e"
    and bytes: "bytes \<le> max_tracer_bytes L"
  shows "(\<forall>t'. v' = Some t' \<longrightarrow> within_quota L t') \<and> bytes + usage_of v' - usage_of v \<le> max_tracer_bytes L"
  using move
proof cases
  case (created w key t)
  then show ?thesis
    by (simp add: within_quota_def event_usage_def byte_usage_def reserved_dsum usage_of_def fresh_memory_thread_def fresh_writer_def)
next
  case (opened w t)
  have "event_usage (t\<lparr>mt_writers := dput (ws_run_id w) w (mt_writers t)\<rparr>) = event_usage t + terminal_reserve_events_per_run L"
    "byte_usage (t\<lparr>mt_writers := dput (ws_run_id w) w (mt_writers t)\<rparr>) = byte_usage t + terminal_reserve_bytes_per_run L"
    using opened by (simp_all add: event_usage_def byte_usage_def reserved_dsum dsum_dput fresh_writer_def)
  then show ?thesis using opened by (simp add: within_quota_def usage_of_def)
next
  case (held t w w')
  have "ws_remaining_event_reserve w' = ws_remaining_event_reserve w" "ws_remaining_byte_reserve w' = ws_remaining_byte_reserve w" "ws_active w'"
    using held(5) by (auto simp: held_writer_def)
  then show ?thesis using put_reserve [OF held(3), of w'] held old bytes by (auto simp: within_quota_def usage_of_def)
next
  case (appended t w es mandatory w' ms graph)
  let ?t' = "t\<lparr>mt_writers := dput (ws_run_id w) w' (mt_writers t)\<rparr>"
  let ?n = "int (length es)" and ?b = "\<Sum>e \<leftarrow> es. te_persisted_bytes e"
  have u: "event_usage (the v') = event_usage ?t' + ?n" "byte_usage (the v') = byte_usage ?t' + ?b"
    using appended by (simp_all add: event_usage_def byte_usage_def reserved_events_def reserved_bytes_def)
  note p = put_reserve [OF appended(3), of w']
  have t: "thread_ok sha256 json_size L t" "within_quota L t" using old appended by auto
  have "writer_ok L (run_log (ws_run_id w) (mt_events t)) w"
    by (rule writers_okD(2) [OF _ appended(3)]) (use t in \<open>simp add: thread_ok_def\<close>)
  note r = reserves_nonneg [OF L this]
  have w': "ws_active w'" "mandatory \<Longrightarrow> ws_remaining_event_reserve w' + ?n \<le> ws_remaining_event_reserve w \<and>
       ws_remaining_byte_reserve w' + ?b \<le> ws_remaining_byte_reserve w"
    "\<not> mandatory \<Longrightarrow> ws_remaining_event_reserve w' = ws_remaining_event_reserve w \<and> ws_remaining_byte_reserve w' = ws_remaining_byte_reserve w"
    using appended(8) r by (auto simp: append_after_def)
  show ?thesis
  proof (cases mandatory)
    case True
    then show ?thesis using w'(1) w'(2) u p t(2) appended(1,2,4) bytes by (auto simp: within_quota_def usage_of_def)
  next
    case False
    then show ?thesis using w'(1) w'(3) u p appended(1,2,4) appended(7) by (auto simp: within_quota_def usage_of_def)
  qed
next
  case (closed t w w')
  have t: "thread_ok sha256 json_size L t" "within_quota L t" using old closed by auto
  have "writer_ok L (run_log (ws_run_id w) (mt_events t)) w"
    by (rule writers_okD(2) [OF _ closed(3)]) (use t in \<open>simp add: thread_ok_def\<close>)
  note r = reserves_nonneg [OF L this]
  show ?thesis using r put_reserve [OF closed(3), of w'] closed t bytes by (auto simp: within_quota_def usage_of_def)
next
  case (dropped t w)
  have t: "thread_ok sha256 json_size L t" "within_quota L t" using old dropped by auto
  have w: "writer_ok L (run_log (ws_run_id w) (mt_events t)) w" "dwf (mt_writers t)"
    using writers_okD(2) [OF _ dropped(3)] t by (auto simp: thread_ok_def writers_ok_def)
  have "event_usage (t\<lparr>mt_writers := ddel (ws_run_id w) (mt_writers t)\<rparr>) \<le> event_usage t"
    "byte_usage (t\<lparr>mt_writers := ddel (ws_run_id w) (mt_writers t)\<rparr>) \<le> byte_usage t"
    using reserves_nonneg [OF L w(1)] dropped(3) w(2) by (simp_all add: event_usage_def byte_usage_def reserved_dsum dsum_ddel)
  then show ?thesis using dropped t bytes by (auto simp: within_quota_def usage_of_def)
next
  case (removed t)
  then show ?thesis using usage_nonneg [OF L _ size] old bytes by (fastforce simp: usage_of_def)
next
  case (saved c t name old')
  then have "within_quota L t" using old by simp
  then show ?thesis using saved bytes
    by (simp add: within_quota_def usage_of_def event_usage_def byte_usage_def reserved_events_def reserved_bytes_def)
qed

section \<open>Sums over a namespace\<close>

definition nsum :: "('v \<Rightarrow> int) \<Rightarrow> string \<Rightarrow> (string \<times> string, 'v) dict \<Rightarrow> int" where
  "nsum f ns d = (\<Sum>kv \<leftarrow> d. if fst (fst kv) = ns then f (snd kv) else 0)"

abbreviation opt_value :: "('v \<Rightarrow> int) \<Rightarrow> 'v option \<Rightarrow> int" where
  "opt_value f v \<equiv> (case v of None \<Rightarrow> 0 | Some x \<Rightarrow> f x)"

lemma nsum_dput: "nsum f ns (dput k v d) = nsum f ns d + (if fst k = ns then f v - opt_value f (dget d k) else 0)"
  by (induction d) (auto simp: nsum_def)

lemma nsum_ddel: "dwf d \<Longrightarrow> nsum f ns (ddel k d) = nsum f ns d - (if fst k = ns then opt_value f (dget d k) else 0)"
proof (induction d)
  case (Cons kv d)
  then show ?case by (cases kv) (auto simp: nsum_def delete_notin_dom dget_None_iff [symmetric] split: option.split)
qed (simp add: nsum_def)

lemma nsum_placed: "dwf d \<Longrightarrow> nsum f ns (placed k v d) = nsum f ns d + (if fst k = ns then opt_value f v - opt_value f (dget d k) else 0)"
  by (simp add: placed_def nsum_dput nsum_ddel split: option.split)

lemma namespace_nsum:
  "namespace_bytes ns tm = nsum byte_usage ns tm" "int (length (namespace_threads ns tm)) = nsum (\<lambda>_. 1) ns tm"
  by (induction tm) (auto simp: namespace_bytes_def namespace_threads_def nsum_def)

section \<open>The invariant of the memory\<close>

definition memory_ok :: "(bytes \<Rightarrow> string) \<Rightarrow> (trace_event \<Rightarrow> int) \<Rightarrow> trace_limits \<Rightarrow> trace_memory \<times> string set \<Rightarrow> bool" where
  "memory_ok sha256 json_size L = (\<lambda>(tm, used).
     slots_ok tm \<and>
     (\<forall>k t. dget tm k = Some t \<longrightarrow> thread_ok sha256 json_size L t \<and> within_quota L t \<and> tk_generation (th_key (mt_state t)) \<in> used) \<and>
     (\<forall>ns. namespace_bytes ns tm \<le> max_tracer_bytes L \<and> int (length (namespace_threads ns tm)) \<le> max_tracer_threads L))"

inductive trace_step ::
  "(bytes \<Rightarrow> string) \<Rightarrow> (trace_event \<Rightarrow> int) \<Rightarrow> trace_limits \<Rightarrow> trace_memory \<times> string set \<Rightarrow> trace_memory \<times> string set \<Rightarrow> bool"
  for sha256 json_size L where
  commit: "lc_limits change = L \<Longrightarrow> generation \<notin> used \<Longrightarrow>
     tm' = snd (tm_commit_ledger_change sha256 json_size generation now change tm) \<Longrightarrow>
     trace_step sha256 json_size L (tm, used) (tm', insert generation used)"
| rebuild: "dget tm (memory_slot (rr_key request)) = Some t \<Longrightarrow>
     apply_graph_events sha256 (map me_validated_event (take (nat (rr_as_of_seq request)) (mt_events t))) [] = (Inr (), revs) \<Longrightarrow>
     graph_revision_mutations (dvalues revs) = Inr (rr_mutations request) \<Longrightarrow>
     tm' = snd (tm_rebuild_trace_graph request tm) \<Longrightarrow>
     trace_step sha256 json_size L (tm, used) (tm', used)"

lemma move_keeps_key:
  assumes "thread_move sha256 json_size L generation run threads bytes slot v v'" "v' = Some t'"
  shows "(case v of None \<Rightarrow> tk_generation (th_key (mt_state t')) = generation
    | Some t \<Rightarrow> th_key (mt_state t') = th_key (mt_state t) \<and> (\<exists>ms. mt_events t' = mt_events t @ ms))"
  using assms by cases (auto simp: fresh_memory_thread_def)

lemma move_keeps_slot:
  assumes "thread_move sha256 json_size L generation run threads bytes slot v v'" "v' = Some t'"
    "\<And>t. v = Some t \<Longrightarrow> memory_slot (th_key (mt_state t)) = slot"
  shows "memory_slot (th_key (mt_state t')) = slot"
  using assms by cases (auto simp: fresh_memory_thread_def)

lemma writers_ok_keyed: "writers_ok L t \<Longrightarrow> dwf (mt_writers t) \<and> (\<forall>r w. dget (mt_writers t) r = Some w \<longrightarrow> ws_run_id w = r)"
  by (metis writers_okD(1) writers_ok_def)

lemma slots_ok_placed:
  assumes ok: "slots_ok tm" and v: "\<And>t. v = Some t \<Longrightarrow> memory_slot (th_key (mt_state t)) = k \<and>
    dwf (mt_writers t) \<and> (\<forall>r w. dget (mt_writers t) r = Some w \<longrightarrow> ws_run_id w = r)"
  shows "slots_ok (placed k v tm)"
proof -
  have "dget (placed k v tm) k' = (if k' = k then v else dget tm k')" for k' by (simp add: placed_def dict_simps split: option.split)
  moreover have "dwf (placed k v tm)" using ok by (simp add: placed_def slots_ok_def dict_simps split: option.split)
  ultimately show ?thesis using ok v unfolding slots_ok_def by auto
qed

lemma dget_placed: "dget (placed k v d) k' = (if k' = k then v else dget d k')"
  by (simp add: placed_def dict_simps split: option.split)

lemma memory_ok_placed:
  assumes L: "mk_trace_limits L = Inr L" and size: "\<And>e. 0 \<le> json_size e" and ok: "memory_ok sha256 json_size L (tm, used)"
    and move: "slot_move sha256 json_size L generation run k tm v"
  shows "memory_ok sha256 json_size L (placed k v tm, insert generation used)"
proof -
  have old: "slots_ok tm" "thread_ok sha256 json_size L t" "within_quota L t" "tk_generation (th_key (mt_state t)) \<in> used"
    if "dget tm k' = Some t" for k' t using ok that by (auto simp: memory_ok_def)
  have ns: "namespace_bytes ns tm \<le> max_tracer_bytes L" "int (length (namespace_threads ns tm)) \<le> max_tracer_threads L" for ns
    using ok by (auto simp: memory_ok_def)
  have slots: "slots_ok tm" using ok by (simp add: memory_ok_def)
  have quota: "\<And>t'. v = Some t' \<Longrightarrow> within_quota L t'" "namespace_bytes (fst k) tm + usage_of v - usage_of (dget tm k) \<le> max_tracer_bytes L"
    using move_quota [OF L move _ size ns(1)] old by auto
  have threads: "v \<noteq> None \<and> dget tm k = None \<longrightarrow> int (length (namespace_threads (fst k) tm)) < max_tracer_threads L"
    using move by cases auto
  have thread: "thread_ok sha256 json_size L t'" if "v = Some t'" for t'
    by (rule move_keeps_thread [OF L move _ that]) (use old in auto)
  have slot: "memory_slot (th_key (mt_state t')) = k" if "v = Some t'" for t'
    by (rule move_keeps_slot [OF move that]) (use slots slots_okD(1) in blast)
  have gen: "tk_generation (th_key (mt_state t')) \<in> insert generation used" if "v = Some t'" for t'
    using move_keeps_key [OF move that] old by (auto split: option.splits)
  have "slots_ok (placed k v tm)" by (rule slots_ok_placed [OF slots]) (use slot thread writers_ok_keyed in \<open>auto simp: thread_ok_def\<close>)
  moreover have "namespace_bytes ns (placed k v tm) \<le> max_tracer_bytes L" for ns
    using quota(2) ns [of ns] slots_ok_dwf [OF slots]
    by (auto simp: namespace_nsum nsum_placed usage_of_def split: option.splits)
  moreover have "int (length (namespace_threads ns (placed k v tm))) \<le> max_tracer_threads L" for ns
    using threads ns [of ns] slots_ok_dwf [OF slots]
    by (auto simp: namespace_nsum nsum_placed split: option.splits)
  ultimately show ?thesis using quota(1) thread gen old by (auto simp: memory_ok_def dget_placed)
qed

lemma memory_ok_insert: "memory_ok sha256 json_size L (tm, used) \<Longrightarrow> memory_ok sha256 json_size L (tm, insert g used)"
  by (auto simp: memory_ok_def)

lemma commit_memory_ok:
  assumes L: "mk_trace_limits L = Inr L" and size: "\<And>e. 0 \<le> json_size e" and ok: "memory_ok sha256 json_size L (tm, used)"
    and change: "lc_limits change = L"
  shows "memory_ok sha256 json_size L (snd (tm_commit_ledger_change sha256 json_size generation now change tm), insert generation used)"
proof -
  have "slots_ok tm" using ok by (simp add: memory_ok_def)
  from commit_moves [OF this change, of sha256 json_size generation now]
  consider "snd (tm_commit_ledger_change sha256 json_size generation now change tm) = tm"
    | t' where "slot_move sha256 json_size L generation (map_option i_run_id (lc_identity change)) (change_slot change) tm t'"
      "snd (tm_commit_ledger_change sha256 json_size generation now change tm) = placed (change_slot change) t' tm"
    unfolding move_outcome_def by blast
  then show ?thesis
  proof cases
    case 1
    then show ?thesis using memory_ok_insert [OF ok] by simp
  next
    case (2 t')
    show ?thesis unfolding 2(2) by (rule memory_ok_placed [OF L size ok 2(1)])
  qed
qed

end
