(* ===== verification/Trace_Memory_Runs.thy ===== *)
theory Trace_Memory_Runs
  imports Trace_Memory_Steps
begin

text \<open>
  Runs of the in-memory ledger: the system of commits and rebuilds with its invariant, the growth of a log, and the
  replay of a log by the store's rebuild.
\<close>

section \<open>Rebuilds\<close>

text \<open>The request of the store repeats the replay of the events up to its sequence; the backend accepts it only at the tail.\<close>

lemma replay_rebuilds:
  assumes replay: "apply_graph_events sha256 es [] = (Inr (), revs)" and ms: "graph_revision_mutations (dvalues revs) = Inr ms"
  shows "apply_mutations ms [] = (Inr (), revs)"
proof -
  have "revs_ok revs" by (rule apply_graph_events_ok [OF _ replay]) (simp add: revs_ok_def)
  from rebuild_roundtrip [OF this] ms show ?thesis by auto
qed

lemma rebuild_same:
  assumes ok: "memory_ok sha256 json_size L (tm, used)" and t: "dget tm (memory_slot (rr_key request)) = Some t"
    and replay: "apply_graph_events sha256 (map me_validated_event (take (nat (rr_as_of_seq request)) (mt_events t))) [] = (Inr (), revs)"
    and ms: "graph_revision_mutations (dvalues revs) = Inr (rr_mutations request)"
  shows "snd (tm_rebuild_trace_graph request tm) = tm"
proof (cases "th_key (mt_state t) = rr_key request \<and> th_next_seq (mt_state t) - 1 = rr_as_of_seq request")
  case False
  then show ?thesis using t by (auto simp: tm_rebuild_trace_graph_def exact_thread_def check_def require_def)
next
  case True
  have th: "thread_ok sha256 json_size L t" using ok t by (auto simp: memory_ok_def)
  then have "int (length (mt_events t)) = rr_as_of_seq request" using True by (simp add: thread_ok_def log_ok_def)
  then have "nat (rr_as_of_seq request) = length (mt_events t)" by linarith
  then have "mt_graph_nodes t = revs" using th replay by (simp add: thread_ok_def graph_ok_def)
  then have "t\<lparr>mt_graph_nodes := revs\<rparr> = t" by simp
  then show ?thesis using True t replay_rebuilds [OF replay ms]
    by (simp add: tm_rebuild_trace_graph_def exact_thread_def dput_same)
qed

section \<open>The system\<close>

definition trace_inv :: "(bytes \<Rightarrow> string) \<Rightarrow> (trace_event \<Rightarrow> int) \<Rightarrow> trace_limits \<Rightarrow> trace_memory \<times> string set \<Rightarrow> bool" where
  "trace_inv sha256 json_size L s \<longleftrightarrow>
     mk_trace_limits L = Inr L \<and> (\<forall>e. 0 \<le> json_size e) \<and> memory_ok sha256 json_size L s"

definition trace_init :: "(trace_event \<Rightarrow> int) \<Rightarrow> trace_limits \<Rightarrow> trace_memory \<times> string set \<Rightarrow> bool" where
  "trace_init json_size L s \<longleftrightarrow> mk_trace_limits L = Inr L \<and> (\<forall>e. 0 \<le> json_size e) \<and> s = ([], {})"

lemma trace_step_inv:
  assumes inv: "trace_inv sha256 json_size L s" and step: "trace_step sha256 json_size L s s'"
  shows "trace_inv sha256 json_size L s'"
  using step
proof cases
  case (commit change generation used tm' now tm)
  then show ?thesis using commit_memory_ok [of L json_size sha256 tm used change generation now] inv by (simp add: trace_inv_def)
next
  case (rebuild tm request t revs tm' used)
  then show ?thesis using rebuild_same [of sha256 json_size L tm used request t revs] inv by (simp add: trace_inv_def)
qed

interpretation trace: invariant_system "trace_init json_size L" "trace_step sha256 json_size L" "trace_inv sha256 json_size L"
  for sha256 json_size L
proof
  show "trace_inv sha256 json_size L s" if "trace_init json_size L s" for s
  proof -
    have "0 \<le> max_tracer_bytes L" "0 \<le> max_tracer_threads L"
      using that by (auto simp: trace_init_def mk_trace_limits_def trace_limits_in_range_def bindE_Inr_iff)
    then show ?thesis using that
      by (simp add: trace_init_def trace_inv_def memory_ok_def slots_ok_def namespace_bytes_def namespace_threads_def)
  qed
  show "trace_inv sha256 json_size L s'" if "trace_inv sha256 json_size L s" "trace_step sha256 json_size L s s'" for s s'
    using trace_step_inv that .
qed

section \<open>The log only grows\<close>

definition same_history :: "memory_thread \<Rightarrow> memory_thread \<Rightarrow> bool" where
  "same_history t t' \<longleftrightarrow> th_key (mt_state t') = th_key (mt_state t) \<and> (\<exists>ms. mt_events t' = mt_events t @ ms)"

text \<open>Between two states, a generation is either gone for good or has only gained events.\<close>

definition history_kept :: "trace_memory \<times> string set \<Rightarrow> trace_memory \<times> string set \<Rightarrow> bool" where
  "history_kept = (\<lambda>(tm, used) (tm', used').
     used \<subseteq> used' \<and>
     (\<forall>k t'. dget tm' k = Some t' \<and> tk_generation (th_key (mt_state t')) \<in> used \<longrightarrow>
        (\<exists>t. dget tm k = Some t \<and> same_history t t')))"

lemma history_keptD:
  assumes "history_kept (tm, used) (tm', used')" "dget tm' k = Some t'" "tk_generation (th_key (mt_state t')) \<in> used"
  shows "\<exists>t. dget tm k = Some t \<and> same_history t t'"
  using assms unfolding history_kept_def case_prod_conv by blast

lemma same_history_refl: "same_history t t"
  by (simp add: same_history_def)

lemma same_history_trans: "same_history a b \<Longrightarrow> same_history b c \<Longrightarrow> same_history a c"
  by (auto simp: same_history_def)

lemma history_kept_refl: "history_kept s s"
  using same_history_refl by (auto simp: history_kept_def split: prod.split)

lemma history_kept_trans:
  assumes a: "history_kept s s1" and b: "history_kept s1 s2"
  shows "history_kept s s2"
proof -
  obtain tm used tm1 used1 tm2 used2 where s: "s = (tm, used)" "s1 = (tm1, used1)" "s2 = (tm2, used2)" by (metis prod.exhaust)
  have "\<exists>t. dget tm k = Some t \<and> same_history t t'" if t': "dget tm2 k = Some t'" "tk_generation (th_key (mt_state t')) \<in> used" for k t'
  proof -
    have "tk_generation (th_key (mt_state t')) \<in> used1" using a t'(2) s unfolding history_kept_def by blast
    then obtain t1 where t1: "dget tm1 k = Some t1" "same_history t1 t'" using history_keptD [OF _ t'(1)] b s by blast
    then have "tk_generation (th_key (mt_state t1)) \<in> used" using t'(2) by (simp add: same_history_def)
    then obtain t where "dget tm k = Some t" "same_history t t1" using history_keptD [OF _ t1(1)] a s by blast
    then show ?thesis using same_history_trans t1(2) by blast
  qed
  moreover have "used \<subseteq> used2" using a b s unfolding history_kept_def by blast
  ultimately show ?thesis unfolding history_kept_def s by blast
qed

lemma move_history:
  assumes "slot_move sha256 json_size L generation run k tm v" "v = Some t'" "tk_generation (th_key (mt_state t')) \<noteq> generation"
  shows "\<exists>t. dget tm k = Some t \<and> same_history t t'"
  using move_keeps_key [OF assms(1,2)] assms(3) by (auto simp: same_history_def split: option.splits)

lemma step_history:
  assumes inv: "trace_inv sha256 json_size L s" and step: "trace_step sha256 json_size L s s'"
  shows "history_kept s s'"
  using step
proof cases
  case (commit change generation used tm' now tm)
  have "slots_ok tm" using inv commit by (simp add: trace_inv_def memory_ok_def)
  from commit_moves [OF this commit(3), of sha256 json_size generation now]
  consider "tm' = tm" | v where "slot_move sha256 json_size L generation (map_option i_run_id (lc_identity change)) (change_slot change) tm v" "tm' = placed (change_slot change) v tm"
    unfolding move_outcome_def using commit by auto
  then show ?thesis
  proof cases
    case 1
    then show ?thesis using commit same_history_refl by (auto simp: history_kept_def)
  next
    case (2 v)
    have "\<exists>t. dget tm k = Some t \<and> same_history t t'"
      if "dget tm' k = Some t'" "tk_generation (th_key (mt_state t')) \<in> used" for k t'
      using move_history [OF 2(1)] that commit(4) same_history_refl by (auto simp: 2(2) dget_placed split: if_splits)
    then show ?thesis by (auto simp: history_kept_def commit)
  qed
next
  case (rebuild tm request t revs tm' used)
  then have "s' = s" using rebuild_same [of sha256 json_size L tm used request t revs] inv by (simp add: trace_inv_def)
  then show ?thesis using history_kept_refl by simp
qed

lemma run_history:
  assumes "trace_inv sha256 json_size L s" "(trace_step sha256 json_size L)\<^sup>*\<^sup>* s s'"
  shows "history_kept s s'"
  by (rule trace.run_related [OF assms(2,1)]) (use history_kept_refl history_kept_trans step_history in blast)+

end
