(* ===== verification/Trace_Store_Steps.thy ===== *)
theory Trace_Store_Steps
  imports Trace_Store Trace_Memory_Runs
begin

text \<open>
  Runs of the store: every call of a writer or of the store is a run of the in-memory ledger underneath, and keeps the
  retained events readable.
\<close>

section \<open>Calls as steps of the ledger\<close>

inductive store_step ::
  "(bytes \<Rightarrow> string) \<Rightarrow> (trace_event \<Rightarrow> int) \<Rightarrow> (trace_fact \<Rightarrow> encoded_payload) \<Rightarrow> store_config \<Rightarrow>
   store_state \<times> string set \<Rightarrow> store_state \<times> string set \<Rightarrow> bool"
  for sha256 json_size encode_fact ds where
  opens: "generation \<notin> used \<Longrightarrow> i_run_id identity \<noteq> [] \<and> canonical (i_run_id identity) \<Longrightarrow>
     st' = snd (store_open_writer sha256 json_size ds token generation now identity st) \<Longrightarrow>
     store_step sha256 json_size encode_fact ds (st, used) (st', insert generation used)"
| appends: "generation \<notin> used \<Longrightarrow>
     st' = snd (writer_append sha256 json_size encode_fact ds uid generation now w facts mandatory st) \<Longrightarrow>
     store_step sha256 json_size encode_fact ds (st, used) (st', insert generation used)"
| renews: "generation \<notin> used \<Longrightarrow> st' = snd (heartbeat_turn sha256 json_size ds generation now w st) \<Longrightarrow>
     store_step sha256 json_size encode_fact ds (st, used) (st', insert generation used)"
| closes: "generation \<notin> used \<Longrightarrow> st' = snd (snd (writer_aclose sha256 json_size ds generation now w st)) \<Longrightarrow>
     store_step sha256 json_size encode_fact ds (st, used) (st', insert generation used)"
| saves: "generation \<notin> used \<Longrightarrow> st' = snd (store_save_checkpoint sha256 json_size ds generation now c expected st) \<Longrightarrow>
     store_step sha256 json_size encode_fact ds (st, used) (st', insert generation used)"
| deletes: "generation \<notin> used \<Longrightarrow> st' = snd (store_delete sha256 json_size ds generation now key st) \<Longrightarrow>
     store_step sha256 json_size encode_fact ds (st, used) (st', insert generation used)"
| rebuilds: "store_rebuild_trace_graph sha256 ds clock key st = Some (r, st') \<Longrightarrow>
     store_step sha256 json_size encode_fact ds (st, used) (st', used)"
| follows: "sx_memory st' = sx_memory st \<Longrightarrow> store_step sha256 json_size encode_fact ds (st, used) (st', used)"

lemma store_commit_memory:
  "sx_memory (snd (store_commit sha256 json_size generation now change st)) = snd (tm_commit_ledger_change sha256 json_size generation now change (sx_memory st))"
  by (auto simp: store_commit_def check_def split: prod.split sum.split)

lemma and_then_state:
  "(\<And>a s. f (snd (k a s)) = f s) \<Longrightarrow> f (snd (and_then r k)) = f (snd r)"
  by (cases r; cases "fst r") auto

lemma call_memory:
  "sx_memory (snd (store_open_writer sha256 json_size ds token generation now identity st)) =
     snd (tm_commit_ledger_change sha256 json_size generation now
       ((plain_change ds OpenWriter (i_namespace identity))
          \<lparr>lc_identity := Some identity, lc_owner_token := Some token, lc_enforce_writer_lease := ds_enforce_writer_leases ds\<rparr>) (sx_memory st))"
  "sx_memory (snd (heartbeat_turn sha256 json_size ds generation now w st)) =
     snd (tm_commit_ledger_change sha256 json_size generation now (writer_change ds RenewWriter w) (sx_memory st))"
  "sx_memory (snd (store_delete sha256 json_size ds generation now key st)) =
     snd (tm_commit_ledger_change sha256 json_size generation now
       ((plain_change ds DeleteGeneration (tk_namespace key))\<lparr>lc_key := Some key\<rparr>) (sx_memory st))"
  "sx_memory (snd (writer_append sha256 json_size encode_fact ds uid generation now w facts mandatory st)) =
     (if facts = [] \<or> wr_closed w \<or> wr_failure w \<noteq> None then sx_memory st
      else snd (tm_commit_ledger_change sha256 json_size generation now
        (append_change ds w (prepare_trace_facts encode_fact uid facts) mandatory) (sx_memory st)))"
  "sx_memory (snd (snd (writer_aclose sha256 json_size ds generation now w st))) =
     (if wr_close_task w \<noteq> None then sx_memory st
      else snd (tm_commit_ledger_change sha256 json_size generation now
        ((writer_change ds CloseWriter w)\<lparr>lc_enforce_writer_lease := ds_enforce_writer_leases ds\<rparr>) (sx_memory st)))"
  "sx_memory (snd (store_save_checkpoint sha256 json_size ds generation now c expected st)) =
     (if \<exists>n \<in> set_option expected. n < 0 then sx_memory st
      else snd (tm_commit_ledger_change sha256 json_size generation now (save_change sha256 ds c expected) (sx_memory st)))"
  by (auto simp: store_open_writer_def heartbeat_turn_def store_delete_def writer_append_def writer_aclose_def close_once_def
      store_save_checkpoint_def store_commit_memory [symmetric] check_def require_def and_then_def split: option.splits prod.splits sum.splits)

text \<open>
  The first premise of \<open>opens\<close> is the validation of a Run identity by its constructor. The change a call commits, if it reaches the backend: under the limits of the store, with well digested facts.
\<close>

definition honest_change :: "(bytes \<Rightarrow> string) \<Rightarrow> store_config \<Rightarrow> ledger_change \<Rightarrow> bool" where
  "honest_change sha256 ds change \<longleftrightarrow>
     lc_limits change = ds_limits ds \<and>
     (\<forall>i \<in> set_option (lc_identity change). i_run_id i \<noteq> [] \<and> canonical (i_run_id i)) \<and>
     (\<forall>d \<in> set (lc_facts change). dr_canonical_payload d \<noteq> [] \<and> dr_payload_digest d = sha256 (dr_canonical_payload d))"

definition honest_encoder :: "(bytes \<Rightarrow> string) \<Rightarrow> (trace_fact \<Rightarrow> encoded_payload) \<Rightarrow> bool" where
  "honest_encoder sha256 encode_fact \<longleftrightarrow> (\<forall>x. ep_data (encode_fact x) \<noteq> [] \<and> ep_digest (encode_fact x) = sha256 (ep_data (encode_fact x)))"

lemma prepared_honest: "honest_encoder sha256 encode_fact \<Longrightarrow> d \<in> set (prepare_trace_facts encode_fact uid facts) \<Longrightarrow>
  dr_canonical_payload d \<noteq> [] \<and> dr_payload_digest d = sha256 (dr_canonical_payload d)"
  by (auto simp: prepare_trace_facts_def honest_encoder_def)

lemma honest_changes:
  "i_run_id i \<noteq> [] \<and> canonical (i_run_id i) \<Longrightarrow> honest_change sha256 ds ((plain_change ds OpenWriter ns)\<lparr>lc_identity := Some i, lc_owner_token := Some token, lc_enforce_writer_lease := b\<rparr>)"
  "honest_change sha256 ds (writer_change ds RenewWriter w)"
  "honest_change sha256 ds ((plain_change ds DeleteGeneration ns)\<lparr>lc_key := Some key\<rparr>)"
  "honest_change sha256 ds ((writer_change ds CloseWriter w)\<lparr>lc_enforce_writer_lease := b\<rparr>)"
  "honest_change sha256 ds (save_change sha256 ds c expected)"
  "honest_encoder sha256 encode_fact \<Longrightarrow> honest_change sha256 ds (append_change ds w (prepare_trace_facts encode_fact uid facts) mandatory)"
  using prepared_honest by (auto simp: honest_change_def plain_change_def writer_change_def append_change_def save_change_def)

text \<open>What a step of the store does to the ledger: nothing, one commit, or a rebuild.\<close>

inductive call_effect ::
  "(bytes \<Rightarrow> string) \<Rightarrow> (trace_event \<Rightarrow> int) \<Rightarrow> store_config \<Rightarrow> store_state \<times> string set \<Rightarrow> store_state \<times> string set \<Rightarrow> bool"
  for sha256 json_size ds where
  idle: "sx_memory st' = sx_memory st \<Longrightarrow> used' = used \<or> used' = insert generation used \<Longrightarrow> generation \<notin> used \<Longrightarrow>
     call_effect sha256 json_size ds (st, used) (st', used')"
| committed: "honest_change sha256 ds change \<Longrightarrow> generation \<notin> used \<Longrightarrow>
     sx_memory st' = snd (tm_commit_ledger_change sha256 json_size generation now change (sx_memory st)) \<Longrightarrow>
     call_effect sha256 json_size ds (st, used) (st', insert generation used)"
| rebuilt: "store_rebuild_trace_graph sha256 ds clock key st = Some (r, st') \<Longrightarrow> call_effect sha256 json_size ds (st, used) (st', used)"
| kept: "sx_memory st' = sx_memory st \<Longrightarrow> call_effect sha256 json_size ds (st, used) (st', used)"

lemma step_effect:
  assumes step: "store_step sha256 json_size encode_fact ds s s'" and enc: "honest_encoder sha256 encode_fact"
  shows "call_effect sha256 json_size ds s s'"
  using step
proof cases
  case (opens generation used st' token now identity st)
  then show ?thesis using call_effect.committed [OF honest_changes(1) [OF opens(4)] opens(3)] by (simp add: call_memory)
next
  case (appends generation used st' uid now w facts mandatory st)
  then show ?thesis using call_effect.committed [OF honest_changes(6) [OF enc] appends(3)] call_effect.idle [of st' st _ used generation]
    by (cases "facts = [] \<or> wr_closed w \<or> wr_failure w \<noteq> None") (simp_all add: call_memory)
next
  case (renews generation used st' now w st)
  then show ?thesis using call_effect.committed [OF honest_changes(2) renews(3)] by (simp add: call_memory)
next
  case (closes generation used st' now w st)
  then show ?thesis using call_effect.committed [OF honest_changes(4) closes(3)] call_effect.idle [of st' st _ used generation]
    by (cases "wr_close_task w \<noteq> None") (simp_all add: call_memory)
next
  case (saves generation used st' now c expected st)
  then show ?thesis using call_effect.committed [OF honest_changes(5) saves(3)] call_effect.idle [of st' st _ used generation]
    by (cases "\<exists>n \<in> set_option expected. n < 0") (simp_all add: call_memory)
next
  case (deletes generation used st' now key st)
  then show ?thesis using call_effect.committed [OF honest_changes(3) deletes(3)] by (simp add: call_memory)
next
  case (rebuilds clock key st r st' used)
  then show ?thesis using call_effect.rebuilt by simp
next
  case (follows st' st used)
  then show ?thesis using call_effect.kept by simp
qed

section \<open>Readable threads\<close>

definition readable :: "(bytes \<Rightarrow> string) \<Rightarrow> memory_thread \<Rightarrow> bool" where
  "readable sha256 t \<longleftrightarrow>
     (\<forall>m \<in> set (mt_events t). se_canonical_payload m \<noteq> [] \<and> se_payload_digest m = sha256 (se_canonical_payload m)) \<and>
     (\<forall>r \<in> set (dkeys (mt_writers t)). r \<noteq> [] \<and> canonical r)"

lemma apply_effect_records:
  assumes "dget (snd (apply_effect sha256 change effect tm)) k = Some t'" "m \<in> set (mt_events t')"
  shows "(\<exists>t. dget tm k = Some t \<and> m \<in> set (mt_events t)) \<or>
    (\<exists>d \<in> set (lc_facts change). se_canonical_payload m = dr_canonical_payload d \<and> se_payload_digest m = dr_payload_digest d)"
proof -
  have new: "\<exists>d \<in> set (lc_facts change). se_canonical_payload x = dr_canonical_payload d \<and> se_payload_digest x = dr_payload_digest d"
    if "x \<in> set (extended_events change effect)" for x
    using that by (auto simp: extended_events_def memory_event_of_def dest: set_zip_rightD)
  have thread: "mt_events (snd (apply_thread_effect sha256 change effect t)) = mt_events t @ extended_events change effect" for t
    by (auto simp: apply_thread_effect_def Let_def check_def split: prod.split sum.split)
  have state: "(\<exists>t0. dget tm k = Some t0 \<and> mt_events t0 = mt_events t) \<or> mt_events t = []"
    if "dget (with_thread_state effect tm) k = Some t" for t
    using that by (auto simp: with_thread_state_def dict_simps fresh_memory_thread_def split: option.splits if_splits)
  have "(\<exists>t. dget (with_thread_state effect tm) k = Some t \<and> set (mt_events t') \<subseteq> set (mt_events t) \<union> set (extended_events change effect)) \<or>
      dget tm k = Some t'"
    using assms(1) thread
    by (auto simp: apply_effect_def Let_def dict_simps case_prod_beta split: option.splits if_splits)
  then show ?thesis using state new assms(2) by fastforce
qed

lemma commit_records:
  assumes "dget (snd (tm_commit_ledger_change sha256 json_size generation now change tm)) k = Some t'" "m \<in> set (mt_events t')"
  shows "(\<exists>t. dget tm k = Some t \<and> m \<in> set (mt_events t)) \<or>
    (\<exists>d \<in> set (lc_facts change). se_canonical_payload m = dr_canonical_payload d \<and> se_payload_digest m = dr_payload_digest d)"
proof -
  have "snd (tm_commit_ledger_change sha256 json_size generation now change tm) = tm \<or>
      (\<exists>effect. snd (tm_commit_ledger_change sha256 json_size generation now change tm) = snd (apply_effect sha256 change effect tm))"
    unfolding tm_commit_ledger_change_def check_def and_then_def
    by (cases "state_for_change now change tm"; simp split: sum.split prod.split; metis snd_conv)
  then show ?thesis using apply_effect_records [of sha256 change _ tm k t' m] assms by auto
qed

lemma dkeys_dput: "r \<in> set (dkeys (dput k v d)) \<longleftrightarrow> r = k \<or> r \<in> set (dkeys d)"
  by (induction d) auto

lemma dkeys_ddel: "r \<in> set (dkeys (ddel k d)) \<Longrightarrow> r \<in> set (dkeys d)"
  by (induction d) (auto split: if_splits)

lemma dkeys_known: "dget d k = Some w \<Longrightarrow> r \<in> set (dkeys (dput k v d)) \<Longrightarrow> r \<in> set (dkeys d)"
  using dget_in_dkeys dkeys_dput by metis

lemma move_runs:
  assumes "thread_move sha256 json_size L generation run threads bytes slot v v'" "v' = Some t'" "r \<in> set (dkeys (mt_writers t'))"
  shows "(\<exists>t. v = Some t \<and> r \<in> set (dkeys (mt_writers t))) \<or> run = Some r"
  using assms(1)
proof cases
  case (created w key t)
  then show ?thesis using assms(2,3) by (simp add: fresh_memory_thread_def)
next
  case (opened w t)
  then show ?thesis using assms(2,3) dkeys_dput [of r "ws_run_id w" w] by (simp del: set_map) blast
next
  case (held t w w')
  then show ?thesis using assms(2,3) dkeys_known [OF held(3), of r w'] by (simp del: set_map)
next
  case (appended t w es mandatory w' ms graph)
  then show ?thesis using assms(2,3) dkeys_known [OF appended(3), of r w'] by (simp del: set_map)
next
  case (closed t w w')
  then show ?thesis using assms(2,3) dkeys_known [OF closed(3), of r w'] by (simp del: set_map)
next
  case (dropped t w)
  then show ?thesis using assms(2,3) dkeys_ddel [of r "ws_run_id w" "mt_writers t"] by (simp del: set_map)
qed (use assms(2,3) in simp_all)

lemma commit_readable:
  assumes ok: "slots_ok tm" and L: "lc_limits change = L" and change: "honest_change sha256 ds change"
    and old: "\<And>k t. dget tm k = Some t \<Longrightarrow> readable sha256 t"
    and t': "dget (snd (tm_commit_ledger_change sha256 json_size generation now change tm)) k = Some t'"
  shows "readable sha256 t'"
proof -
  have "se_canonical_payload m \<noteq> [] \<and> se_payload_digest m = sha256 (se_canonical_payload m)" if "m \<in> set (mt_events t')" for m
    using commit_records [OF t' that] old change by (fastforce simp: readable_def honest_change_def)
  moreover have "r \<noteq> [] \<and> canonical r" if r: "r \<in> set (dkeys (mt_writers t'))" for r
  proof -
    from commit_moves [OF ok L, of sha256 json_size generation now]
    consider "snd (tm_commit_ledger_change sha256 json_size generation now change tm) = tm"
      | v where "slot_move sha256 json_size L generation (map_option i_run_id (lc_identity change)) (change_slot change) tm v"
        "snd (tm_commit_ledger_change sha256 json_size generation now change tm) = placed (change_slot change) v tm"
      unfolding move_outcome_def by blast
    then show ?thesis
    proof cases
      case 1
      then have "readable sha256 t'" using t' old by simp
      then show ?thesis using r unfolding readable_def by blast
    next
      case (2 v)
      then have "(k = change_slot change \<and> v = Some t') \<or> dget tm k = Some t'" using t' by (auto simp: dget_placed split: if_splits)
      then show ?thesis
      proof
        assume "k = change_slot change \<and> v = Some t'"
        then consider t where "dget tm (change_slot change) = Some t" "r \<in> set (dkeys (mt_writers t))"
          | "map_option i_run_id (lc_identity change) = Some r" using move_runs [OF 2(1) _ r] by blast
        then show ?thesis
        proof cases
          case 1
          then show ?thesis using old unfolding readable_def by blast
        next
          case 2
          then show ?thesis using change by (auto simp: honest_change_def)
        qed
      next
        assume "dget tm k = Some t'"
        then have "readable sha256 t'" using old by simp
        then show ?thesis using r unfolding readable_def by blast
      qed
    qed
  qed
  ultimately show ?thesis by (simp add: readable_def)
qed

end
