(* ===== verification/Trace_Store_Reads.thy ===== *)
theory Trace_Store_Reads
  imports Trace_Store_Steps
begin

text \<open>
  What the store reads of a well-formed memory: every page the backend returns decodes, pages are slices of the log, and
  the rebuild of the graph replays the whole log and changes nothing.
\<close>

section \<open>Well-formed stores\<close>

definition store_ok :: "(bytes \<Rightarrow> string) \<Rightarrow> (trace_event \<Rightarrow> int) \<Rightarrow> trace_limits \<Rightarrow> store_state \<times> string set \<Rightarrow> bool" where
  "store_ok sha256 json_size L = (\<lambda>(st, used).
     memory_ok sha256 json_size L (sx_memory st, used) \<and> (\<forall>k t. dget (sx_memory st) k = Some t \<longrightarrow> readable sha256 t))"

text \<open>The thread a read is about, and its log.\<close>

definition holds_thread :: "(bytes \<Rightarrow> string) \<Rightarrow> (trace_event \<Rightarrow> int) \<Rightarrow> trace_limits \<Rightarrow> thread_key \<Rightarrow> store_state \<Rightarrow> memory_thread \<Rightarrow> bool" where
  "holds_thread sha256 json_size L key st t \<longleftrightarrow>
     dget (sx_memory st) (memory_slot key) = Some t \<and> th_key (mt_state t) = key \<and> thread_ok sha256 json_size L t \<and> readable sha256 t"

abbreviation thread_log :: "memory_thread \<Rightarrow> trace_event list" where
  "thread_log t \<equiv> map me_validated_event (mt_events t)"

lemma exact_thread_Inr: "exact_thread key tm = Inr t \<longleftrightarrow> dget tm (memory_slot key) = Some t \<and> th_key (mt_state t) = key"
  by (auto simp: exact_thread_def split: option.split)

lemma store_ok_thread:
  assumes "store_ok sha256 json_size L (st, used)" "exact_thread key (sx_memory st) = Inr t"
  shows "holds_thread sha256 json_size L key st t"
  using assms by (auto simp: store_ok_def memory_ok_def holds_thread_def exact_thread_Inr)

lemma holds_exact: "holds_thread sha256 json_size L key st t \<Longrightarrow> exact_thread key (sx_memory st) = Inr t"
  by (simp add: holds_thread_def exact_thread_Inr)

section \<open>Decoding\<close>

lemma decode_stored:
  assumes "stored_ok json_size L key m" "se_canonical_payload m \<noteq> []" "se_payload_digest m = sha256 (se_canonical_payload m)"
  shows "decode_event sha256 key m = Inr (me_validated_event m)"
proof -
  define e where "e = me_validated_event m"
  have m: "m = memory_event_of e (se_canonical_payload m) (se_payload_digest m)" using assms(1) by (simp add: stored_ok_def Let_def e_def)
  have "te_event_id e = se_event_id m" "te_trace_seq e = se_trace_seq m" "te_persisted_bytes e = se_persisted_bytes m"
    "fact_run (te_fact e) = se_run_id m" "fact_kind (te_fact e) = se_fact_kind m" "fb_occurred_at (base_of (te_fact e)) = se_occurred_at m"
    by (subst m, simp add: memory_event_of_def)+
  then show ?thesis using assms
    by (simp add: decode_event_def codec_digest_def Let_def e_def [symmetric] require_def stored_ok_def)
qed

lemma decode_stored_list:
  "(\<And>m. m \<in> set ms \<Longrightarrow> decode_event sha256 key m = Inr (me_validated_event m)) \<Longrightarrow>
   decode_events sha256 key ms = Inr (map me_validated_event ms)"
  by (induction ms) auto

lemma decode_log:
  assumes "holds_thread sha256 json_size L key st t" "set ms \<subseteq> set (mt_events t)"
  shows "decode_events sha256 key ms = Inr (map me_validated_event ms)"
proof (rule decode_stored_list)
  fix m assume "m \<in> set ms"
  then have "m \<in> set (mt_events t)" using assms(2) by blast
  then show "decode_event sha256 key m = Inr (me_validated_event m)"
    using assms(1) by (intro decode_stored [of json_size L]) (auto simp: holds_thread_def thread_ok_def log_ok_def readable_def)
qed

lemma active_runs_ok:
  assumes "holds_thread sha256 json_size L key st t"
  shows "(\<forall>r \<in> set (sort (map ws_run_id (active_writers now t))). r \<noteq> [] \<and> canonical r) \<and>
    distinct (sort (map ws_run_id (active_writers now t)))"
proof -
  have ok: "writers_ok L t" using assms by (simp add: holds_thread_def thread_ok_def)
  then have w: "dwf (mt_writers t)" by (simp add: writers_ok_def)
  have "ws_run_id (snd kv) = fst kv" if "kv \<in> set (mt_writers t)" for kv
    using writers_okD(1) [OF ok, of "fst kv" "snd kv"] map_of_is_SomeI [OF w, of "fst kv" "snd kv"] that by simp
  then have ids: "map ws_run_id (dvalues (mt_writers t)) = dkeys (mt_writers t)" by simp
  have "distinct (map ws_run_id (active_writers now t))"
    unfolding active_writers_def by (rule distinct_map_filter) (simp only: ids w)
  moreover have "set (map ws_run_id (active_writers now t)) \<subseteq> set (dkeys (mt_writers t))"
    unfolding ids [symmetric] active_writers_def by auto
  ultimately show ?thesis using assms unfolding holds_thread_def readable_def set_sort distinct_sort by blast
qed

section \<open>Pages are slices\<close>

lemma take_upt_cut: "take n [a..<b] = [a..<min b (a + n)]"
  by (cases "a + n \<le> b") (simp_all add: min_def)

lemma log_sequences:
  assumes "log_ok json_size L t"
  shows "map se_trace_seq (take n (drop a (mt_events t))) = map (\<lambda>i. 1 + int i) [a..<min (length (mt_events t)) (a + n)]"
proof -
  have "map se_trace_seq (mt_events t) = map (\<lambda>i. 1 + int i) [0..<length (mt_events t)]" using assms by (simp add: log_ok_def)
  then have "map se_trace_seq (take n (drop a (mt_events t))) = take n (drop a (map (\<lambda>i. 1 + int i) [0..<length (mt_events t)]))"
    by (metis drop_map take_map)
  then show ?thesis by (simp add: drop_map take_map drop_upt take_upt_cut)
qed

lemma consecutive_upt: "consecutive (map (\<lambda>i. 1 + int i) [a..<b])"
proof (induction "b - a" arbitrary: a)
  case (Suc n)
  then have "a < b" by simp
  then have "[a..<b] = a # [Suc a..<b]" by (rule upt_conv_Cons)
  moreover have "consecutive (map (\<lambda>i. 1 + int i) [Suc a..<b])" by (rule Suc.hyps(1)) (use Suc.hyps(2) in simp)
  moreover have "Suc a < b \<Longrightarrow> [Suc a..<b] = Suc a # [Suc (Suc a)..<b]" by (rule upt_conv_Cons)
  ultimately show ?case by (cases "Suc a < b") simp_all
qed simp

lemma descending_rev_upt: "descending (rev (map (\<lambda>i. 1 + int i) [a..<b]))"
proof (induction b)
  case (Suc b)
  show ?case
  proof (cases "a < b")
    case True
    then obtain b' where b: "b = Suc b'" "a \<le> b'" by (cases b) auto
    then show ?thesis using Suc by simp
  next
    case False
    then show ?thesis by simp
  qed
qed simp

text \<open>A forward page holds the events after the cursor, up to the as-of sequence and the limit.\<close>

definition forward_slice :: "int \<Rightarrow> int option \<Rightarrow> int \<Rightarrow> 'a list \<Rightarrow> 'a list" where
  "forward_slice after as_of limit xs =
     take (nat limit) (drop (nat after) (case as_of of None \<Rightarrow> xs | Some n \<Rightarrow> take (nat n) xs))"

lemma forward_slice_map: "forward_slice after as_of limit (map f xs) = map f (forward_slice after as_of limit xs)"
  by (simp add: forward_slice_def take_map drop_map split: option.split)

lemma set_forward_slice: "set (forward_slice after as_of limit xs) \<subseteq> set xs"
  by (auto simp: forward_slice_def dest!: in_set_takeD in_set_dropD split: option.splits)

lemma take_cut: "min n (length xs) = min m (length xs) \<Longrightarrow> take n xs = take m xs"
  by (metis take_all_iff min.cobounded2 min_def take_take take_all)

lemma py_slice_nat: "py_slice xs (int i) (int j) = take (j - i) (drop i xs)"
  by (cases "i \<le> length xs") (auto simp: py_slice_def py_bound_def Let_def intro!: take_cut)

lemma forward_page:
  assumes "0 \<le> after" "1 \<le> limit" "\<And>n. as_of = Some n \<Longrightarrow> 0 \<le> n"
  shows "page_records (forward_request key after as_of limit) (int (length xs)) xs = forward_slice after as_of limit xs"
proof -
  define a where "a = nat after"
  define l where "l = nat limit"
  define n where "n = (case as_of of None \<Rightarrow> length xs | Some n \<Rightarrow> nat n)"
  have eq: "after = int a" "limit = int l" "(case as_of of None \<Rightarrow> int (length xs) | Some n \<Rightarrow> n) = int n"
    using assms by (auto simp: a_def l_def n_def split: option.split)
  have "page_records (forward_request key after as_of limit) (int (length xs)) xs =
      py_slice xs (int (min a (length xs))) (int (min n (min (length xs) (min a (length xs) + l))))"
    using eq by (simp add: page_records_def forward_request_def Let_def of_nat_min)
  also have "\<dots> = take l (drop a (take n xs))"
    unfolding py_slice_nat drop_take take_take
    by (cases "a \<le> length xs") (auto intro!: take_cut)
  also have "\<dots> = forward_slice after as_of limit xs" by (simp add: forward_slice_def a_def l_def n_def split: option.split)
  finally show ?thesis .
qed

lemma forward_sequences:
  assumes "log_ok json_size L t"
  shows "\<exists>b. b \<le> length (mt_events t) \<and> (\<forall>n \<in> set_option as_of. b \<le> nat n) \<and>
    (nat after < min (length (mt_events t)) (case as_of of None \<Rightarrow> length (mt_events t) | Some n \<Rightarrow> nat n) \<and> 1 \<le> limit \<longrightarrow> nat after < b) \<and>
    map se_trace_seq (forward_slice after as_of limit (mt_events t)) = map (\<lambda>i. 1 + int i) [nat after..<b]"
proof -
  define m where "m = (case as_of of None \<Rightarrow> length (mt_events t) | Some n \<Rightarrow> nat n)"
  have all: "map se_trace_seq (mt_events t) = map (\<lambda>i. 1 + int i) [0..<length (mt_events t)]" using assms by (simp add: log_ok_def)
  have "forward_slice after as_of limit (mt_events t) = take (nat limit) (drop (nat after) (take m (mt_events t)))"
    by (simp add: forward_slice_def m_def split: option.split)
  then have "map se_trace_seq (forward_slice after as_of limit (mt_events t)) =
      take (nat limit) (drop (nat after) (take m (map (\<lambda>i. 1 + int i) [0..<length (mt_events t)])))"
    by (metis all drop_map take_map)
  also have "\<dots> = map (\<lambda>i. 1 + int i) [nat after..<min (min (length (mt_events t)) m) (nat after + nat limit)]"
    by (simp add: drop_map take_map drop_upt take_upt_cut)
  finally show ?thesis
    by (intro exI [of _ "min (min (length (mt_events t)) m) (nat after + nat limit)"]) (auto simp: m_def split: option.split)
qed

lemma forward_page_decodes:
  assumes t: "holds_thread sha256 json_size L key st t" and a: "0 \<le> after" "1 \<le> limit" "\<And>n. as_of = Some n \<Longrightarrow> 0 \<le> n"
  shows "bindE (tm_read_event_page now (forward_request key after as_of limit) (sx_memory st)) (decode_event_page sha256 (forward_request key after as_of limit)) =
    Inr (forward_slice after as_of limit (thread_log t))"
proof -
  let ?req = "forward_request key after as_of limit" and ?xs = "mt_events t"
  have log: "log_ok json_size L t" using t by (simp add: holds_thread_def thread_ok_def)
  then have tail: "th_next_seq (mt_state t) - 1 = int (length ?xs)" by (simp add: log_ok_def)
  define page where "page = \<lparr>vp_key = key, vp_tail_seq = int (length ?xs), vp_events = forward_slice after as_of limit ?xs,
     vp_active_run_ids = sort (map ws_run_id (active_writers now t)), vp_observed_at = now\<rparr>"
  have read: "tm_read_event_page now ?req (sx_memory st) = Inr page"
    using holds_exact [OF t] forward_page [OF a, where key = key and xs = ?xs] tail by (simp add: tm_read_event_page_def page_def forward_request_def Let_def)
  obtain b where b: "b \<le> length ?xs" "\<forall>n \<in> set_option as_of. b \<le> nat n"
    "after < int (length ?xs) \<longrightarrow> (\<forall>n \<in> set_option as_of. after < n) \<longrightarrow> nat after < b"
    "map se_trace_seq (vp_events page) = map (\<lambda>i. 1 + int i) [nat after..<b]"
    using forward_sequences [OF log, of as_of after limit] a by (fastforce simp: page_def split: option.splits)
  have hd: "nat after < b \<Longrightarrow> hd (map (\<lambda>i. 1 + int i) [nat after..<b]) = after + 1" using a(1) by (simp add: upt_conv_Cons)
  have "page_order_ok ?req (vp_tail_seq page) (map se_trace_seq (vp_events page))"
    unfolding b(4) using a b hd consecutive_upt [of "nat after" b]
    by (cases "nat after < b") (auto simp: page_order_ok_def forward_request_def page_def Let_def split: option.splits)
  moreover have "int (length (vp_events page)) \<le> limit" using a(2) by (auto simp: page_def forward_slice_def split: option.split)
  moreover have "decode_events sha256 key (vp_events page) = Inr (map me_validated_event (vp_events page))"
    by (rule decode_log [OF t]) (simp add: page_def set_forward_slice)
  ultimately show ?thesis using active_runs_ok [OF t, of now] unfolding read
    by (simp add: decode_event_page_def page_def forward_request_def forward_slice_map)
qed

lemma read_events_slice:
  assumes "holds_thread sha256 json_size L key st t" "0 \<le> after" "0 \<le> as_of" "1 \<le> limit"
  shows "store_read_events sha256 now key after as_of limit st = Inr (forward_slice after (Some as_of) limit (thread_log t))"
  using forward_page_decodes [OF assms(1,2,4), of "Some as_of"] assms(2-4) by (simp add: store_read_events_def Let_def)

section \<open>The rebuild of the graph\<close>

text \<open>The result of replaying a log: the revisions, or the error of the first event that does not apply.\<close>

definition replayed :: "(bytes \<Rightarrow> string) \<Rightarrow> trace_event list \<Rightarrow> revisions \<Rightarrow> tracing_error + revisions" where
  "replayed sha256 es revs = (case apply_graph_events sha256 es revs of (Inl e, _) \<Rightarrow> Inl e | (Inr _, revs') \<Rightarrow> Inr revs')"

lemma replayed_append:
  "replayed sha256 (es @ es') revs =
     (case apply_graph_events sha256 es revs of (Inl e, _) \<Rightarrow> Inl e | (Inr _, revs') \<Rightarrow> replayed sha256 es' revs')"
  by (auto simp: replayed_def apply_graph_events_append and_then_def split: prod.split sum.split)

lemma last_sequence:
  assumes "log_ok json_size L t" "k < length (mt_events t)" "1 \<le> b"
  shows "te_trace_seq (last (take b (drop k (thread_log t)))) = int (min (length (mt_events t)) (k + b))"
proof -
  let ?xs = "mt_events t"
  have all: "map se_trace_seq ?xs = map (\<lambda>i. 1 + int i) [0..<length ?xs]" using assms(1) by (simp add: log_ok_def)
  have "te_trace_seq (me_validated_event m) = se_trace_seq m" if "m \<in> set ?xs" for m
  proof -
    have "m = memory_event_of (me_validated_event m) (se_canonical_payload m) (se_payload_digest m)"
      using assms(1) that by (auto simp: log_ok_def stored_ok_def Let_def)
    then show ?thesis by (metis memory_event_of_def stored_event.select_convs(2))
  qed
  then have "map (te_trace_seq \<circ> me_validated_event) ?xs = map se_trace_seq ?xs" by (intro map_cong) simp_all
  then have seq: "map te_trace_seq (thread_log t) = map (\<lambda>i. 1 + int i) [0..<length ?xs]" using all by simp
  have ne: "take b (drop k (thread_log t)) \<noteq> []" using assms(2,3) by simp
  have "te_trace_seq (last (take b (drop k (thread_log t)))) = last (map te_trace_seq (take b (drop k (thread_log t))))"
    using ne by (simp add: last_map)
  also have "\<dots> = last (map (\<lambda>i. 1 + int i) [k..<min (length ?xs) (k + b)])"
    by (simp only: take_map [symmetric] drop_map [symmetric] seq) (simp add: take_map drop_map drop_upt take_upt_cut)
  also have "\<dots> = int (min (length ?xs) (k + b))"
  proof -
    define m where "m = min (length ?xs) (k + b)"
    have "k < m" using assms(2,3) by (simp add: m_def)
    then have "last (map (\<lambda>i. 1 + int i) [k..<m]) = int m" by (simp add: last_map of_nat_diff)
    then show ?thesis by (simp add: m_def)
  qed
  finally show ?thesis .
qed

lemma rebuild_loop_replays:
  assumes t: "holds_thread sha256 json_size L key st t" and b: "1 \<le> batch" and k: "k \<le> length (mt_events t)"
  shows "rebuild_loop sha256 clock batch key (int (length (mt_events t))) st n (int k) revs =
    Some (replayed sha256 (drop k (thread_log t)) revs)"
  using k
proof (induction "length (mt_events t) - k" arbitrary: k n revs rule: less_induct)
  case less
  let ?N = "length (mt_events t)" and ?page = "take (nat batch) (drop k (thread_log t))"
  have log: "log_ok json_size L t" using t by (simp add: holds_thread_def thread_ok_def)
  show ?case
  proof (cases "k = ?N")
    case True
    then show ?thesis by (subst rebuild_loop.simps) (simp add: replayed_def)
  next
    case False
    then have k: "k < ?N" using less.prems by simp
    have page: "store_read_events sha256 (clock n) key (int k) (int ?N) batch st = Inr ?page"
      using read_events_slice [OF t, of "int k" "int ?N" batch] b by (simp add: forward_slice_def)
    have ne: "?page \<noteq> []" using k b by simp
    let ?k = "min ?N (k + nat batch)"
    have last: "te_trace_seq (last ?page) = int ?k" by (rule last_sequence [OF log k]) (use b in simp)
    have rest: "drop k (thread_log t) = ?page @ drop ?k (thread_log t)"
    proof -
      have "drop (nat batch) (drop k (thread_log t)) = drop ?k (thread_log t)" by (cases "k + nat batch \<le> ?N") (simp_all add: min_def add.commute)
      then show ?thesis by (metis append_take_drop_id)
    qed
    have "rebuild_loop sha256 clock batch key (int ?N) st (n + 1) (int ?k) revs' = Some (replayed sha256 (drop ?k (thread_log t)) revs')" for revs'
      by (rule less.hyps) (use k b in auto)
    then show ?thesis using k ne page last
      by (subst rebuild_loop.simps, subst rest) (simp add: replayed_append split: prod.split sum.split)
  qed
qed

lemma snapshot_key:
  assumes "store_snapshot_key now key st = Inr snapshot"
  shows "\<exists>t. exact_thread key (sx_memory st) = Inr t \<and> ss_as_of_seq snapshot = th_next_seq (mt_state t) - 1"
  using assms
  by (auto simp: store_snapshot_key_def snapshot_from_state_def memory_state_sel exact_thread_Inr memory_slot_def split: option.splits if_splits)

lemma snapshot_key_ok:
  assumes "exact_thread key (sx_memory st) = Inr t"
  shows "\<exists>snapshot. store_snapshot_key now key st = Inr snapshot \<and> ss_as_of_seq snapshot = th_next_seq (mt_state t) - 1"
  using assms
  by (auto simp: store_snapshot_key_def snapshot_from_state_def memory_state_sel exact_thread_Inr memory_slot_def Let_def split: option.splits)

lemma snapshot_key_missing:
  "exact_thread key (sx_memory st) = Inl e \<Longrightarrow> store_snapshot_key now key st = Inl (TraceThreadNotFound (tk_thread_id key))"
  by (auto simp: store_snapshot_key_def snapshot_from_state_def memory_state_sel exact_thread_def memory_slot_def Let_def split: option.splits if_splits)

text \<open>The rebuild returns: an unknown generation and a log that does not replay are refused, otherwise the index was right.\<close>

lemma rebuild_result:
  assumes t: "holds_thread sha256 json_size L key st t" and L: "mk_trace_limits L = Inr L" "ds_limits ds = L"
  shows "\<exists>n. store_rebuild_trace_graph sha256 ds clock key st =
    Some (case replayed sha256 (thread_log t) [] of Inl e \<Rightarrow> Inl e | Inr _ \<Rightarrow> Inr n, st)"
proof -
  have log: "log_ok json_size L t" "graph_ok sha256 t" using t by (simp_all add: holds_thread_def thread_ok_def)
  obtain snapshot where s: "store_snapshot_key (clock 0) key st = Inr snapshot" "ss_as_of_seq snapshot = int (length (mt_events t))"
    using snapshot_key_ok [OF holds_exact [OF t], of "clock 0"] log(1) by (auto simp: log_ok_def)
  have b: "1 \<le> follow_batch_size (ds_limits ds)" using L by (auto simp: mk_trace_limits_def trace_limits_in_range_def bindE_Inr_iff)
  note loop = rebuild_loop_replays [OF t b, of 0 clock 1 "[]"]
  show ?thesis
  proof (cases "replayed sha256 (thread_log t) []")
    case (Inl e)
    then show ?thesis using s loop by (simp add: store_rebuild_trace_graph_def)
  next
    case (Inr revs)
    then have replay: "apply_graph_events sha256 (thread_log t) [] = (Inr (), revs)"
      by (auto simp: replayed_def split: prod.splits sum.splits)
    then have ok: "revs_ok revs" by (rule apply_graph_events_ok [rotated]) (simp add: revs_ok_def)
    have same: "mt_graph_nodes t = revs" using log(2) replay by (simp add: graph_ok_def)
    obtain ms where ms: "graph_revision_mutations (dvalues revs) = Inr ms" "apply_mutations ms [] = (Inr (), revs)"
      using rebuild_roundtrip [OF ok] by blast
    have "tm_rebuild_trace_graph \<lparr>rr_key = key, rr_as_of_seq = ss_as_of_seq snapshot, rr_mutations = ms\<rparr> (sx_memory st) =
        (Inr (int (length (fromkeys (map gn_node_id (List.map_filter node_of (dvalues revs)))))), sx_memory st)"
    proof -
      have "t\<lparr>mt_graph_nodes := revs\<rparr> = t" using same by simp
      moreover have "dget (sx_memory st) (memory_slot key) = Some t" using t by (simp add: holds_thread_def)
      moreover have "th_next_seq (mt_state t) - 1 = ss_as_of_seq snapshot" using s(2) log(1) by (simp add: log_ok_def)
      ultimately show ?thesis using ms(2) by (simp add: tm_rebuild_trace_graph_def holds_exact [OF t] dput_same)
    qed
    then show ?thesis using s loop Inr ms(1) by (simp add: store_rebuild_trace_graph_def)
  qed
qed

lemma rebuild_missing:
  "exact_thread key (sx_memory st) = Inl e \<Longrightarrow>
   store_rebuild_trace_graph sha256 ds clock key st = Some (Inl (TraceThreadNotFound (tk_thread_id key)), st)"
  by (simp add: store_rebuild_trace_graph_def snapshot_key_missing)

section \<open>The store as a system\<close>

definition store_inv :: "(bytes \<Rightarrow> string) \<Rightarrow> (trace_event \<Rightarrow> int) \<Rightarrow> (trace_fact \<Rightarrow> encoded_payload) \<Rightarrow> store_config \<Rightarrow> store_state \<times> string set \<Rightarrow> bool" where
  "store_inv sha256 json_size encode_fact ds s \<longleftrightarrow>
     mk_trace_limits (ds_limits ds) = Inr (ds_limits ds) \<and> (\<forall>e. 0 \<le> json_size e) \<and> honest_encoder sha256 encode_fact \<and>
     store_ok sha256 json_size (ds_limits ds) s"

definition store_init :: "(bytes \<Rightarrow> string) \<Rightarrow> (trace_event \<Rightarrow> int) \<Rightarrow> (trace_fact \<Rightarrow> encoded_payload) \<Rightarrow> store_config \<Rightarrow> store_state \<times> string set \<Rightarrow> bool" where
  "store_init sha256 json_size encode_fact ds s \<longleftrightarrow>
     mk_trace_limits (ds_limits ds) = Inr (ds_limits ds) \<and> (\<forall>e. 0 \<le> json_size e) \<and> honest_encoder sha256 encode_fact \<and>
     s = (\<lparr>sx_memory = [], sx_follow_changes = []\<rparr>, {})"

lemma store_rebuild_idle:
  assumes inv: "store_inv sha256 json_size encode_fact ds (st, used)" and r: "store_rebuild_trace_graph sha256 ds clock key st = Some (r, st')"
  shows "st' = st"
proof (cases "exact_thread key (sx_memory st)")
  case (Inl e)
  then show ?thesis using rebuild_missing r by fastforce
next
  case (Inr t)
  then have "holds_thread sha256 json_size (ds_limits ds) key st t" using store_ok_thread inv by (auto simp: store_inv_def)
  from rebuild_result [OF this _ refl, of clock] r inv show ?thesis by (auto simp: store_inv_def)
qed

text \<open>So every step of the store is, in its ledger, nothing at all or one commit.\<close>

lemma step_commits:
  assumes inv: "store_inv sha256 json_size encode_fact ds (st, used)" and step: "store_step sha256 json_size encode_fact ds (st, used) (st', used')"
  shows "(sx_memory st' = sx_memory st \<and> (used' = used \<or> (\<exists>generation. generation \<notin> used \<and> used' = insert generation used))) \<or>
    (\<exists>change generation now. honest_change sha256 ds change \<and> generation \<notin> used \<and> used' = insert generation used \<and>
       sx_memory st' = snd (tm_commit_ledger_change sha256 json_size generation now change (sx_memory st)))"
proof -
  have "honest_encoder sha256 encode_fact" using inv by (simp add: store_inv_def)
  from step_effect [OF step this] show ?thesis
  proof cases
    case (rebuilt clock key r)
    then have "st' = st" using store_rebuild_idle [OF inv] by blast
    then show ?thesis using rebuilt by blast
  qed blast+
qed

lemma store_step_inv:
  assumes inv: "store_inv sha256 json_size encode_fact ds s" and step: "store_step sha256 json_size encode_fact ds s s'"
  shows "store_inv sha256 json_size encode_fact ds s'"
proof -
  obtain st used st' used' where s: "s = (st, used)" "s' = (st', used')" by (metis prod.exhaust)
  let ?L = "ds_limits ds"
  have ok: "memory_ok sha256 json_size ?L (sx_memory st, used)" "\<And>k t. dget (sx_memory st) k = Some t \<Longrightarrow> readable sha256 t"
    and L: "mk_trace_limits ?L = Inr ?L" "\<And>e. 0 \<le> json_size e" using inv s by (auto simp: store_inv_def store_ok_def)
  have slots: "slots_ok (sx_memory st)" using ok(1) by (simp add: memory_ok_def)
  from step_commits [OF inv [unfolded s] step [unfolded s]] have "store_ok sha256 json_size ?L (st', used')"
  proof
    assume "sx_memory st' = sx_memory st \<and> (used' = used \<or> (\<exists>generation. generation \<notin> used \<and> used' = insert generation used))"
    then show ?thesis using ok memory_ok_insert by (auto simp: store_ok_def)
  next
    assume "\<exists>change generation now. honest_change sha256 ds change \<and> generation \<notin> used \<and> used' = insert generation used \<and>
       sx_memory st' = snd (tm_commit_ledger_change sha256 json_size generation now change (sx_memory st))"
    then obtain change generation now where c: "honest_change sha256 ds change" "used' = insert generation used"
      "sx_memory st' = snd (tm_commit_ledger_change sha256 json_size generation now change (sx_memory st))" by blast
    have lim: "lc_limits change = ?L" using c(1) by (simp add: honest_change_def)
    have "memory_ok sha256 json_size ?L (sx_memory st', used')" unfolding c by (rule commit_memory_ok [OF L ok(1) lim])
    moreover have "readable sha256 t'" if "dget (sx_memory st') k = Some t'" for k t'
      by (rule commit_readable [OF slots lim c(1) ok(2) that [unfolded c(3)]])
    ultimately show ?thesis by (simp add: store_ok_def)
  qed
  then show ?thesis using inv by (simp add: store_inv_def s)
qed

interpretation trace_store: invariant_system "store_init sha256 json_size encode_fact ds" "store_step sha256 json_size encode_fact ds"
  "store_inv sha256 json_size encode_fact ds" for sha256 json_size encode_fact ds
proof
  show "store_inv sha256 json_size encode_fact ds s" if "store_init sha256 json_size encode_fact ds s" for s
  proof -
    have "trace_inv sha256 json_size (ds_limits ds) ([], {})"
      by (rule trace.init_inv) (use that in \<open>simp add: store_init_def trace_init_def\<close>)
    then show ?thesis using that by (simp add: store_init_def store_inv_def store_ok_def trace_inv_def)
  qed
  show "store_inv sha256 json_size encode_fact ds s'"
    if "store_inv sha256 json_size encode_fact ds s" "store_step sha256 json_size encode_fact ds s s'" for s s'
    using store_step_inv that .
qed

text \<open>Histories of the store are histories of its ledger.\<close>

abbreviation ledger_of :: "store_state \<times> string set \<Rightarrow> trace_memory \<times> string set" where
  "ledger_of s \<equiv> (sx_memory (fst s), snd s)"

lemma store_step_history:
  assumes inv: "store_inv sha256 json_size encode_fact ds s" and step: "store_step sha256 json_size encode_fact ds s s'"
  shows "history_kept (ledger_of s) (ledger_of s')"
proof -
  obtain st used st' used' where s: "s = (st, used)" "s' = (st', used')" by (metis prod.exhaust)
  have t: "trace_inv sha256 json_size (ds_limits ds) (sx_memory st, used)" using inv by (simp add: s store_inv_def store_ok_def trace_inv_def)
  from step_commits [OF inv [unfolded s] step [unfolded s]] show ?thesis
  proof
    assume "sx_memory st' = sx_memory st \<and> (used' = used \<or> (\<exists>generation. generation \<notin> used \<and> used' = insert generation used))"
    then show ?thesis using same_history_refl by (auto simp: s history_kept_def)
  next
    assume "\<exists>change generation now. honest_change sha256 ds change \<and> generation \<notin> used \<and> used' = insert generation used \<and>
       sx_memory st' = snd (tm_commit_ledger_change sha256 json_size generation now change (sx_memory st))"
    then have "trace_step sha256 json_size (ds_limits ds) (sx_memory st, used) (sx_memory st', used')"
      by (auto simp: honest_change_def intro: trace_step.commit)
    from step_history [OF t this] show ?thesis by (simp add: s)
  qed
qed

lemma store_run_history:
  assumes "store_inv sha256 json_size encode_fact ds s" "(store_step sha256 json_size encode_fact ds)\<^sup>*\<^sup>* s s'"
  shows "history_kept (ledger_of s) (ledger_of s')"
  by (rule trace_store.run_related [OF assms(2,1), where R = "\<lambda>a b. history_kept (ledger_of a) (ledger_of b)"])
    (use history_kept_refl history_kept_trans store_step_history in blast)+

end
