(* ===== verification/Trace_Store_Terminal.thy ===== *)
theory Trace_Store_Terminal
  imports Trace_Store_Reads
begin

text \<open>
  The terminal reserve keeps its promise: once a Run is open, its terminal and closed facts are never refused for a
  quota, whatever the other Runs of the thread have written.
\<close>

section \<open>What the store expects of an append\<close>

lemma built_events_expected:
  "built_events json_size L key run_id seq prepared = Inr es \<Longrightarrow>
     map te_event_id es = map dr_event_id prepared \<and> expected_events json_size key (zip es prepared) = Inr ()"
proof (induction prepared arbitrary: seq es)
  case (Cons d prepared)
  then obtain e es' where e: "mk_event json_size (dr_event_id d) seq (tk_generation key) (dr_fact d) = Inr e" "es = e # es'"
    "built_events json_size L key run_id (seq + 1) prepared = Inr es'"
    by (auto simp: bindE_Inr_iff)
  then show ?case using Cons.IH [OF e(3)] mk_event_Inr [OF e(1)] by (simp add: expected_events_def)
qed (simp add: expected_events_def)

lemma consecutive_shift: "consecutive (map (\<lambda>i. 1 + int i) xs) \<longleftrightarrow> consecutive (map (\<lambda>i. seq + int i) xs)"
  by (induction xs rule: induct_list012) auto

lemma built_events_consecutive:
  "built_events json_size L key run_id seq prepared = Inr es \<Longrightarrow> consecutive (map te_trace_seq es)"
  using built_events_numbered [of json_size L key run_id seq prepared es] consecutive_upt [of 0 "length es"] consecutive_shift [of "[0..<length es]" seq]
  by (simp add: numbered_events_def)

lemma built_events_scope:
  "built_events json_size L key run_id seq prepared = Inr es \<Longrightarrow> d \<in> set prepared \<Longrightarrow>
     i_namespace (fact_identity (dr_fact d)) = tk_namespace key \<and> i_thread_id (fact_identity (dr_fact d)) = tk_thread_id key \<and>
     fact_run (dr_fact d) = run_id"
  by (induction prepared arbitrary: seq es) (auto simp: bindE_Inr_iff)

lemma append_result_valid:
  assumes es: "built_events json_size L (wr_key w) (wr_run_id w) seq prepared = Inr es"
  shows "validate_commit_result json_size (append_change ds w prepared m)
    ((plain_result AppendEvents (wr_key w) (Some (wr_run_id w)))\<lparr>lr_events := es\<rparr>) = Inr ()"
  using built_events_expected [OF es] built_events_consecutive [OF es] built_events_facts [OF es]
  by (simp add: validate_commit_result_def append_change_def writer_change_def plain_change_def plain_result_def)

section \<open>Owning a writer\<close>

text \<open>The handle of a writer agrees with the row of its Run, and its lease still runs when leases are enforced.\<close>

definition owns_writer :: "store_config \<Rightarrow> time \<Rightarrow> trace_writer \<Rightarrow> memory_thread \<Rightarrow> writer_state \<Rightarrow> bool" where
  "owns_writer ds now w t ws \<longleftrightarrow>
     dget (mt_writers t) (wr_run_id w) = Some ws \<and> ws_active ws \<and> ws_owner_token ws = wr_owner_token w \<and> ws_fence ws = wr_fence w \<and>
     (ds_enforce_writer_leases ds \<longrightarrow> now < ws_lease_expires_at ws)"

lemma append_state:
  assumes t: "holds_thread sha256 json_size L (wr_key w) st t" and ws: "owns_writer ds now w t ws"
    and es: "built_events json_size L (wr_key w) (wr_run_id w) seq prepared = Inr es"
  obtains state where
    "state_for_change now (append_change ds w prepared m) (sx_memory st) = Inr state"
    "validate_change_scope (append_change ds w prepared m) state = Inr ()"
    "owned_writer (ds_enforce_writer_leases ds) (append_change ds w prepared m) state = Inr (mt_state t, ws)"
proof -
  let ?change = "append_change ds w prepared m"
  let ?state = "memory_state now (tk_namespace (wr_key w)) (tk_thread_id (wr_key w)) (Some (wr_run_id w)) None False (sx_memory st)"
  have run: "ws_run_id ws = wr_run_id w"
    using t ws writers_okD(1) [of L t "wr_run_id w" ws] by (simp add: holds_thread_def thread_ok_def owns_writer_def)
  have slot: "dget (sx_memory st) (tk_namespace (wr_key w), tk_thread_id (wr_key w)) = Some t" "th_key (mt_state t) = wr_key w"
    using t by (simp_all add: holds_thread_def memory_slot_def)
  have sel: "ls_thread ?state = Some (mt_state t)" "ls_target_writer ?state = Some ws" "ls_observed_at ?state = now"
    using slot ws by (simp_all add: memory_state_sel owns_writer_def)
  have "state_for_change now ?change (sx_memory st) = Inr ?state"
    by (simp add: state_for_change_def append_change_def writer_change_def plain_change_def Let_def)
  moreover have "validate_change_scope ?change ?state = Inr ()"
    using built_events_scope [OF es] run slot sel
    by (auto simp: validate_change_scope_def thread_scopes_def run_scopes_def append_change_def writer_change_def plain_change_def Let_def
        List.map_filter_def fromkeys_def require_def)
  moreover have "owned_writer (ds_enforce_writer_leases ds) ?change ?state = Inr (mt_state t, ws)"
    using ws run slot sel
    by (simp add: owned_writer_def require_exact_thread_def append_change_def writer_change_def plain_change_def owns_writer_def)
  ultimately show ?thesis by (rule that)
qed

section \<open>Lifecycle batches\<close>

text \<open>The batches a tracer commits at the end of a Run: the terminal fact, then or together with it the closed fact.\<close>

definition ending :: "writer_state \<Rightarrow> trace_fact list \<Rightarrow> bool" where
  "ending ws facts \<longleftrightarrow>
     (\<forall>x \<in> set facts. root_scoped x) \<and> \<not> ws_closed_committed ws \<and>
     (if ws_terminal_committed ws then map lifecycle_phase facts = [Some RpClosed]
      else map lifecycle_phase facts \<in> {[Some RpTerminal], [Some RpTerminal, Some RpClosed]})"

lemma ending_cases:
  assumes "ending ws facts"
  obtains ps where "map lifecycle_phase facts = map Some ps" "\<not> ws_closed_committed ws" "\<forall>x \<in> set facts. root_scoped x"
    "if ws_terminal_committed ws then ps = [RpClosed] else ps = [RpTerminal] \<or> ps = [RpTerminal, RpClosed]"
proof -
  have "\<exists>ps. map lifecycle_phase facts = map Some ps \<and>
      (if ws_terminal_committed ws then ps = [RpClosed] else ps = [RpTerminal] \<or> ps = [RpTerminal, RpClosed])"
  proof (cases "ws_terminal_committed ws")
    case True
    then show ?thesis using assms by (intro exI [of _ "[RpClosed]"]) (auto simp: ending_def)
  next
    case False
    then have "map lifecycle_phase facts = map Some [RpTerminal] \<or> map lifecycle_phase facts = map Some [RpTerminal, RpClosed]"
      using assms by (auto simp: ending_def)
    then show ?thesis using False by metis
  qed
  moreover have "\<not> ws_closed_committed ws" "\<forall>x \<in> set facts. root_scoped x" using assms by (simp_all add: ending_def)
  ultimately show ?thesis using that by blast
qed

lemma phases_some:
  assumes "map lifecycle_phase facts = map Some ps" "x \<in> set facts"
  shows "lifecycle_phase x \<noteq> None"
proof -
  have "lifecycle_phase x \<in> set (map Some ps)" unfolding assms(1) [symmetric] using assms(2) by simp
  then show ?thesis by auto
qed

lemma phases_of:
  assumes "map lifecycle_phase facts = map Some ps"
  shows "List.map_filter lifecycle_phase facts = ps"
proof -
  have "map Some (List.map_filter lifecycle_phase facts) = map Some ps"
    using all_lifecycle [of facts] phases_some [OF assms] assms by simp
  then show ?thesis by (simp add: inj_map_eq_map)
qed

lemma ending_accepted:
  assumes "ending ws facts"
  shows "facts \<noteq> []" "check_batch_kind True facts = Inr ()" "\<exists>closed. lifecycle_after True ws facts = Inr (True, closed)"
    "length facts = 1 \<or> length facts = 2 \<and> \<not> ws_terminal_committed ws" "\<forall>x \<in> set facts. \<exists>f. x = RunFact f"
proof -
  obtain ps where ps: "map lifecycle_phase facts = map Some ps" "\<not> ws_closed_committed ws" "\<forall>x \<in> set facts. root_scoped x"
    "if ws_terminal_committed ws then ps = [RpClosed] else ps = [RpTerminal] \<or> ps = [RpTerminal, RpClosed]"
    by (rule ending_cases [OF assms])
  have len: "length facts = length ps" using ps(1) by (metis length_map)
  show "facts \<noteq> []" using len ps(4) by (auto split: if_splits)
  show "check_batch_kind True facts = Inr ()" using phases_some [OF ps(1)] ps(3) by (simp add: check_batch_kind_def)
  show "\<exists>closed. lifecycle_after True ws facts = Inr (True, closed)"
    using ps(2,4) by (auto simp: lifecycle_after_def phases_of [OF ps(1)] Let_def index_of_def split: if_splits)
  show "length facts = 1 \<or> length facts = 2 \<and> \<not> ws_terminal_committed ws" using len ps(4) by (auto split: if_splits)
  show "\<forall>x \<in> set facts. \<exists>f. x = RunFact f"
  proof
    fix x assume "x \<in> set facts"
    then have "lifecycle_phase x \<noteq> None" by (rule phases_some [OF ps(1)])
    then show "\<exists>f. x = RunFact f" by (cases x) auto
  qed
qed

text \<open>The reserve of a writer still open covers its ending.\<close>

lemma reserve_covers:
  assumes L: "mk_trace_limits L = Inr L" and w: "writer_ok L log ws" "ws_active ws" and e: "ending ws facts"
    and es: "built_events json_size L key run_id seq prepared = Inr es" "map dr_fact prepared = facts"
  shows "int (length es) \<le> ws_remaining_event_reserve ws" "(\<Sum>e \<leftarrow> es. te_persisted_bytes e) \<le> ws_remaining_byte_reserve ws"
proof -
  have two: "2 \<le> terminal_reserve_events_per_run L" "0 < max_event_bytes L"
    using L by (auto simp: mk_trace_limits_def trace_limits_in_range_def bindE_Inr_iff)
  have open_writer: "\<not> ws_closed_committed ws" using e by (simp add: ending_def)
  have reserve: "ws_remaining_event_reserve ws = terminal_reserve_events_per_run L - of_bool (ws_terminal_committed ws)"
    "ws_remaining_event_reserve ws * max_event_bytes L \<le> ws_remaining_byte_reserve ws"
    using w open_writer by (auto simp: writer_ok_def)
  have len: "length es = length facts" using built_events_facts [OF es(1)] es(2) by auto
  show n: "int (length es) \<le> ws_remaining_event_reserve ws"
    using ending_accepted(4) [OF e] two(1) len by (auto simp: reserve(1))
  have "(\<Sum>e \<leftarrow> es. te_persisted_bytes e) \<le> int (length es) * max_event_bytes L"
    by (rule numbered_bytes [OF built_events_numbered [OF es(1)]])
  also have "\<dots> \<le> ws_remaining_event_reserve ws * max_event_bytes L" using n two(2) by (intro mult_right_mono) simp_all
  finally show "(\<Sum>e \<leftarrow> es. te_persisted_bytes e) \<le> ws_remaining_byte_reserve ws" using reserve(2) by simp
qed

section \<open>Committing the ending of a Run\<close>

lemma prepared_facts: "map dr_fact (prepare_trace_facts encode_fact uid facts) = facts"
proof -
  have "map dr_fact (prepare_trace_facts encode_fact uid facts) = map snd (zip [0..<length facts] facts)"
    by (simp add: prepare_trace_facts_def comp_def case_prod_beta)
  then show ?thesis by simp
qed

lemma append_change_sel [simp]:
  "lc_kind (append_change ds w prepared m) = AppendEvents" "lc_limits (append_change ds w prepared m) = ds_limits ds"
  "lc_facts (append_change ds w prepared m) = prepared" "lc_mandatory (append_change ds w prepared m) = m"
  "lc_key (append_change ds w prepared m) = Some (wr_key w)" "lc_proven_events (append_change ds w prepared m) = []"
  "lc_enforce_writer_lease (append_change ds w prepared m) = ds_enforce_writer_leases ds"
  by (simp_all add: append_change_def writer_change_def plain_change_def)

lemma ending_resolves:
  assumes t: "holds_thread sha256 json_size L (wr_key w) st t" and L: "mk_trace_limits L = Inr L" "ds_limits ds = L"
    and ws: "owns_writer ds now w t ws" and e: "ending ws (map dr_fact prepared)"
    and es: "built_events json_size L (wr_key w) (wr_run_id w) (th_next_seq (mt_state t)) prepared = Inr es"
  obtains state effect where
    "state_for_change now (append_change ds w prepared True) (sx_memory st) = Inr state"
    "resolve_ledger_change sha256 json_size generation (append_change ds w prepared True) state = Inr effect"
    "le_result effect = (plain_result AppendEvents (wr_key w) (Some (wr_run_id w)))\<lparr>lr_events := es\<rparr>"
    "\<not> le_delete_generation effect" "\<not> le_remove_thread effect" "le_validated_events effect = es"
    "\<exists>ts. le_thread effect = Some ts \<and> th_key ts = wr_key w" "le_remove_writer_run_id effect = None"
proof -
  obtain state where s: "state_for_change now (append_change ds w prepared True) (sx_memory st) = Inr state"
    "validate_change_scope (append_change ds w prepared True) state = Inr ()"
    "owned_writer (ds_enforce_writer_leases ds) (append_change ds w prepared True) state = Inr (mt_state t, ws)"
    by (rule append_state [OF t ws es])
  have key: "th_key (mt_state t) = wr_key w" and run: "ws_run_id ws = wr_run_id w" and ok: "writer_ok L (run_log (wr_run_id w) (mt_events t)) ws"
    using t ws writers_okD [of L t "wr_run_id w" ws] by (auto simp: holds_thread_def thread_ok_def owns_writer_def)
  have active: "ws_active ws" using ws by (simp add: owns_writer_def)
  note cover = reserve_covers [OF L(1) ok active e es refl]
  have facts: "\<forall>x \<in> set es. \<exists>f. te_fact x = RunFact f"
    using ending_accepted(5) [OF e] built_events_facts [OF es] by (metis imageI image_set list.set_map imageE)
  obtain closed where flags: "lifecycle_after True ws (map dr_fact prepared) = Inr (True, closed)"
    using ending_accepted(3) [OF e] by blast
  have some: "prepared \<noteq> []" using ending_accepted(1) [OF e] by simp
  have "\<exists>effect. append_facts sha256 json_size (append_change ds w prepared True) state = Inr effect \<and>
      le_result effect = (plain_result AppendEvents (wr_key w) (Some (wr_run_id w)))\<lparr>lr_events := es\<rparr> \<and>
      \<not> le_delete_generation effect \<and> \<not> le_remove_thread effect \<and> le_validated_events effect = es \<and>
      (\<exists>ts. le_thread effect = Some ts \<and> th_key ts = wr_key w) \<and> le_remove_writer_run_id effect = None"
    using s(3) key run es flags cover ending_accepted(2) [OF e] run_fact_batch [OF facts, of sha256] L(2)
    by (simp add: append_facts_def Let_def check_append_quota_def)
  then obtain effect where r: "append_facts sha256 json_size (append_change ds w prepared True) state = Inr effect \<and>
      le_result effect = (plain_result AppendEvents (wr_key w) (Some (wr_run_id w)))\<lparr>lr_events := es\<rparr> \<and>
      \<not> le_delete_generation effect \<and> \<not> le_remove_thread effect \<and> le_validated_events effect = es \<and>
      (\<exists>ts. le_thread effect = Some ts \<and> th_key ts = wr_key w) \<and> le_remove_writer_run_id effect = None" by blast
  then have "resolve_ledger_change sha256 json_size generation (append_change ds w prepared True) state = Inr effect"
    using s(2) some by (simp add: resolve_ledger_change_def resolve_append_events_def)
  then show ?thesis using that [OF s(1)] r by blast
qed

lemma run_events_apply_effect:
  assumes t: "dget tm (memory_slot key) = Some t" and ts: "le_thread effect = Some ts" "th_key ts = key"
    and keyed: "revs_keyed (mt_graph_nodes t)" and facts: "\<forall>x \<in> set es. \<exists>f. te_fact x = RunFact f"
    and effect: "lr_key (le_result effect) = Some key" "\<not> le_delete_generation effect" "\<not> le_remove_thread effect"
      "le_validated_events effect = es" "length es = length (lc_facts change)"
  shows "\<exists>tm' t'. apply_effect sha256 change effect tm = (Inr (), tm') \<and> dget tm' (memory_slot key) = Some t' \<and>
    th_key (mt_state t') = key \<and> thread_log t' = thread_log t @ es"
proof -
  have with_thread: "with_thread_state effect tm = dput (memory_slot key) (t\<lparr>mt_state := ts\<rparr>) tm"
    using t ts by (simp add: with_thread_state_def)
  obtain graph where g: "apply_graph_events sha256 es (mt_graph_nodes t) = (Inr (), graph)"
    using run_fact_events_apply [OF facts keyed, of sha256] by (metis prod.collapse)
  obtain t' where t': "apply_thread_effect sha256 change effect (t\<lparr>mt_state := ts\<rparr>) = (Inr (), t')" "mt_state t' = ts"
    "mt_events t' = mt_events t @ extended_events change effect"
    using g effect by (simp add: apply_thread_effect_def Let_def)
  have "map me_validated_event (extended_events change effect) = es"
    using effect holds_eventsE(1) [OF holds_extended [of es change effect]] by simp
  then show ?thesis using t' ts effect with_thread
    by (simp add: apply_effect_at [where key = key and t = "t\<lparr>mt_state := ts\<rparr>"] dict_simps)
qed

lemma ending_commits:
  assumes t: "holds_thread sha256 json_size L (wr_key w) st t" and L: "mk_trace_limits L = Inr L" "ds_limits ds = L"
    and ws: "owns_writer ds now w t ws" and e: "ending ws facts" and w: "\<not> wr_closed w" "wr_failure w = None"
    and es: "built_events json_size L (wr_key w) (wr_run_id w) (th_next_seq (mt_state t)) (prepare_trace_facts encode_fact uid facts) = Inr es"
  shows "\<exists>st' t'. writer_append sha256 json_size encode_fact ds uid generation now w facts True st = (Inr es, st') \<and>
    exact_thread (wr_key w) (sx_memory st') = Inr t' \<and> thread_log t' = thread_log t @ es"
proof -
  let ?prepared = "prepare_trace_facts encode_fact uid facts"
  let ?change = "append_change ds w ?prepared True"
  have e': "ending ws (map dr_fact ?prepared)" using e by (simp add: prepared_facts)
  obtain state effect ts where r: "state_for_change now ?change (sx_memory st) = Inr state"
    "resolve_ledger_change sha256 json_size generation ?change state = Inr effect"
    "le_result effect = (plain_result AppendEvents (wr_key w) (Some (wr_run_id w)))\<lparr>lr_events := es\<rparr>"
    "\<not> le_delete_generation effect" "\<not> le_remove_thread effect" "le_validated_events effect = es"
    "le_thread effect = Some ts" "th_key ts = wr_key w"
    by (rule ending_resolves [OF t L ws e' es, of generation]) blast
  have slot: "dget (sx_memory st) (memory_slot (wr_key w)) = Some t" and keyed: "revs_keyed (mt_graph_nodes t)"
    using t by (simp_all add: holds_thread_def thread_ok_def graph_ok_def)
  have facts: "\<forall>x \<in> set es. \<exists>f. te_fact x = RunFact f"
    using ending_accepted(5) [OF e'] built_events_facts [OF es] by (metis imageI image_set list.set_map imageE)
  have len: "length es = length (lc_facts ?change)" using built_events_facts [OF es] by simp
  have key: "lr_key (le_result effect) = Some (wr_key w)" using r(3) by simp
  obtain tm' t' where a: "apply_effect sha256 ?change effect (sx_memory st) = (Inr (), tm')" "dget tm' (memory_slot (wr_key w)) = Some t'"
    "th_key (mt_state t') = wr_key w" "thread_log t' = thread_log t @ es"
    using run_events_apply_effect [OF slot r(7,8) keyed facts key r(4-6) len] by blast
  have commit: "tm_commit_ledger_change sha256 json_size generation now ?change (sx_memory st) = (Inr (le_result effect), tm')"
    using r(1,2) a(1) by (simp add: tm_commit_ledger_change_def)
  have ne: "facts \<noteq> []" using ending_accepted(1) [OF e] .
  have valid: "validate_commit_result json_size ?change (le_result effect) = Inr ()" "lr_kind (le_result effect) = AppendEvents"
    "lr_events (le_result effect) = es"
    unfolding r(3) by (rule append_result_valid [OF es], simp_all add: plain_result_def)
  have "writer_append sha256 json_size encode_fact ds uid generation now w facts True st =
      (Inr es, st\<lparr>sx_memory := tm', sx_follow_changes := woken AppendEvents (lr_key (le_result effect)) (sx_follow_changes st)\<rparr>)"
    using ne w commit valid by (simp add: writer_append_def store_commit_def)
  then show ?thesis using a by (simp add: exact_thread_Inr)
qed

end
