(* ===== verification/Trace_Store_Clients.thy ===== *)
theory Trace_Store_Clients
  imports Trace_Store_Reads
begin

text \<open>
  What a reader of the store can rely on: a follower is given every event after its cursor once and in order, and a saved
  checkpoint is the one that is loaded.
\<close>

section \<open>Following\<close>

lemma forward_page_read:
  assumes t: "holds_thread sha256 json_size L key st t" and a: "0 \<le> after" "1 \<le> limit"
  obtains page where "tm_read_event_page now (forward_request key after None limit) (sx_memory st) = Inr page"
    "decode_event_page sha256 (forward_request key after None limit) page = Inr (take (nat limit) (drop (nat after) (thread_log t)))"
  using forward_page_decodes [OF t a, of None now] by (auto simp: bindE_Inr_iff forward_slice_def)

lemma follow_turn:
  assumes t: "holds_thread sha256 json_size L key st t" and b: "1 \<le> follow_batch_size (ds_limits ds)"
  defines "batch k \<equiv> take (nat (follow_batch_size (ds_limits ds))) (drop k (thread_log t))"
  shows "\<exists>update active'. trace_follow_turn sha256 ds now key (int k, active) st =
      Inr (update, (if batch k = [] then int k else te_trace_seq (last (batch k))), active', batch k \<noteq> []) \<and>
    (case update of None \<Rightarrow> batch k = [] | Some u \<Rightarrow> su_events u = batch k \<and>
       su_as_of_seq u = (if batch k = [] then int k else te_trace_seq (last (batch k))))"
proof -
  obtain page where "tm_read_event_page now (forward_request key (int k) None (follow_batch_size (ds_limits ds))) (sx_memory st) = Inr page"
    "decode_event_page sha256 (forward_request key (int k) None (follow_batch_size (ds_limits ds))) page = Inr (batch k)"
    by (rule forward_page_read [OF t _ b, of "int k" now]) (simp_all add: batch_def)
  then show ?thesis by (simp add: trace_follow_turn_def Let_def)
qed

text \<open>The updates of a follower carry the rest of the log, whatever the page size, each up to its own sequence.\<close>

lemma follow_drains:
  assumes t: "holds_thread sha256 json_size L key st t" and b: "1 \<le> follow_batch_size (ds_limits ds)"
    and k: "k \<le> length (mt_events t)"
  shows "\<exists>us. follow_until_idle sha256 ds clock key st n (int k, active) updates = Some (Inr (updates @ us)) \<and>
    concat (map su_events us) = drop k (thread_log t) \<and>
    (\<forall>u \<in> set us. su_events u \<noteq> [] \<longrightarrow> su_as_of_seq u = te_trace_seq (last (su_events u)))"
  using k
proof (induction "length (mt_events t) - k" arbitrary: k n active updates rule: less_induct)
  case less
  let ?N = "length (mt_events t)" and ?b = "nat (follow_batch_size (ds_limits ds))"
  define batch where "batch = take ?b (drop k (thread_log t))"
  have log: "log_ok json_size L t" using t by (simp add: holds_thread_def thread_ok_def)
  obtain update active' where turn: "trace_follow_turn sha256 ds (clock n) key (int k, active) st =
      Inr (update, (if batch = [] then int k else te_trace_seq (last batch)), active', batch \<noteq> [])"
    and u: "case update of None \<Rightarrow> batch = [] | Some u \<Rightarrow> su_events u = batch \<and>
      su_as_of_seq u = (if batch = [] then int k else te_trace_seq (last batch))"
    using follow_turn [OF t b, of "clock n" k active] unfolding batch_def by blast
  define new where "new = (case update of None \<Rightarrow> [] | Some u \<Rightarrow> [u])"
  have new: "concat (map su_events new) = batch"
    "\<forall>u \<in> set new. su_events u \<noteq> [] \<longrightarrow> su_as_of_seq u = te_trace_seq (last (su_events u))"
    using u by (auto simp: new_def split: option.splits)
  show ?case
  proof (cases "k = ?N")
    case True
    then have none: "batch = []" by (simp add: batch_def)
    have "follow_until_idle sha256 ds clock key st n (int k, active) updates = Some (Inr (updates @ new))"
      using turn none by (subst follow_until_idle.simps) (simp add: new_def [symmetric] Let_def)
    then show ?thesis using new none True by (intro exI [of _ new]) simp
  next
    case False
    then have k: "k < ?N" using less.prems by simp
    let ?k = "min ?N (k + ?b)"
    have ne: "batch \<noteq> []" using k b by (simp add: batch_def)
    have last: "te_trace_seq (last batch) = int ?k" unfolding batch_def by (rule last_sequence [OF log k]) (use b in simp)
    have rest: "drop k (thread_log t) = batch @ drop ?k (thread_log t)"
    proof -
      have "drop ?b (drop k (thread_log t)) = drop ?k (thread_log t)" by (cases "k + ?b \<le> ?N") (simp_all add: min_def add.commute)
      then show ?thesis unfolding batch_def by (metis append_take_drop_id)
    qed
    have "\<exists>us. follow_until_idle sha256 ds clock key st (n + 1) (int ?k, active') (updates @ new) = Some (Inr ((updates @ new) @ us)) \<and>
        concat (map su_events us) = drop ?k (thread_log t) \<and>
        (\<forall>u \<in> set us. su_events u \<noteq> [] \<longrightarrow> su_as_of_seq u = te_trace_seq (last (su_events u)))"
      by (rule less.hyps) (use k b in auto)
    then obtain us where us: "follow_until_idle sha256 ds clock key st (n + 1) (int ?k, active') (updates @ new) = Some (Inr ((updates @ new) @ us))"
      "concat (map su_events us) = drop ?k (thread_log t)" "\<forall>u \<in> set us. su_events u \<noteq> [] \<longrightarrow> su_as_of_seq u = te_trace_seq (last (su_events u))"
      by blast
    have "follow_until_idle sha256 ds clock key st n (int k, active) updates = Some (Inr (updates @ new @ us))"
      using turn ne last us(1) by (subst follow_until_idle.simps) (simp add: new_def [symmetric] Let_def)
    moreover have "concat (map su_events (new @ us)) = drop k (thread_log t)" using new(1) us(2) rest by simp
    ultimately show ?thesis using new(2) us(3) by (intro exI [of _ "new @ us"]) auto
  qed
qed

section \<open>Checkpoints\<close>

lemma save_resolves:
  assumes ok: "store_ok sha256 json_size L (st, used)"
    and saved: "store_save_checkpoint sha256 json_size ds generation now c expected st = (Inr c', st')"
  shows "\<exists>t' cs sc. exact_thread (pc_key c) (sx_memory st') = Inr t' \<and>
    dget (mt_checkpoints t') (pc_projection_name c, pc_run_id c) = Some (cs @ [sc]) \<and>
    sc = \<lparr>sc_key = pc_key c, sc_projection_name = pc_projection_name c, sc_run_id = pc_run_id c, sc_as_of_seq = pc_as_of_seq c,
      sc_canonical_state = json_encode (pc_state c), sc_state_digest = sha256 (json_encode (pc_state c))\<rparr> \<and> c' = c"
proof -
  let ?change = "save_change sha256 ds c expected"
  let ?slot = "(pc_projection_name c, pc_run_id c)"
  let ?sc = "\<lparr>sc_key = pc_key c, sc_projection_name = pc_projection_name c, sc_run_id = pc_run_id c, sc_as_of_seq = pc_as_of_seq c,
      sc_canonical_state = json_encode (pc_state c), sc_state_digest = sha256 (json_encode (pc_state c))\<rparr>"
  obtain result where commit: "store_commit sha256 json_size generation now ?change st = (Inr result, st')"
    using saved by (auto simp: store_save_checkpoint_def check_def and_then_def require_def split: prod.splits sum.splits if_splits option.splits)
  obtain state effect where r: "state_for_change now ?change (sx_memory st) = Inr state"
    "validate_change_scope ?change state = Inr ()" "resolve_save_checkpoint ?change state = Inr effect"
    "apply_effect sha256 ?change effect (sx_memory st) = (Inr (), sx_memory st')" "result = le_result effect"
    using commit
    by (auto simp: store_commit_def tm_commit_ledger_change_def check_def and_then_def resolve_ledger_change_def bindE_Inr_iff save_change_def plain_change_def
        split: prod.splits sum.splits)
  have lc: "lc_checkpoint ?change = Some c" by (simp add: save_change_def plain_change_def)
  have s: "sees now ?change (sx_memory st) state" using r(1,2) ok by (simp add: sees_def store_ok_def memory_ok_def)
  have slot: "change_slot ?change = memory_slot (pc_key c)" using sees_checkpoint [OF s lc] by simp
  obtain thread where th: "require_exact_thread (pc_key c) state = Inr thread"
    using r(3) by (auto simp: resolve_save_checkpoint_def save_change_def plain_change_def bindE_Inr_iff)
  then have "ls_thread state = Some thread" "th_key thread = pc_key c"
    by (auto simp: require_exact_thread_def split: option.splits if_splits)
  then obtain t where t: "dget (sx_memory st) (memory_slot (pc_key c)) = Some t" "mt_state t = thread" "th_key (mt_state t) = pc_key c"
    using sees_thread [OF s] slot by (cases "dget (sx_memory st) (change_slot ?change)") auto
  have cp: "checkpoints_ok t" using ok t(1) by (auto simp: store_ok_def memory_ok_def thread_ok_def)
  note current = sees_current_checkpoint [OF s lc t(1) [folded slot]]
  have key: "lr_key (le_result effect) = Some (pc_key c)" "lr_checkpoint (le_result effect) = Some c" "le_thread effect = None" "le_writer effect = None"
    "le_remove_writer_run_id effect = None" "\<not> le_delete_generation effect" "\<not> le_remove_thread effect" "le_validated_events effect = []"
    using r(3) by (auto simp: resolve_save_checkpoint_def save_change_def plain_change_def checkpoint_result_def bindE_Inr_iff Let_def
        codec_encode_json_def split: option.splits if_splits)
  have "c' = c" using saved commit r(5) key(2) by (auto simp: store_save_checkpoint_def require_def check_def split: if_splits)
  have with_thread: "with_thread_state effect (sx_memory st) = sx_memory st" using key by (simp add: with_thread_state_def)
  have memory: "sx_memory st' = dput (memory_slot (pc_key c)) (t\<lparr>mt_checkpoints := (case le_checkpoint effect of None \<Rightarrow> mt_checkpoints t
      | Some sc \<Rightarrow> dput (sc_projection_name sc, sc_run_id sc)
          ((case dget (mt_checkpoints t) (sc_projection_name sc, sc_run_id sc) of None \<Rightarrow> [] | Some cs \<Rightarrow> cs) @ [sc]) (mt_checkpoints t))\<rparr>) (sx_memory st)"
    using r(4) by (subst (asm) apply_effect_at [where key = "pc_key c" and t = t])
      (use key with_thread t in \<open>auto simp: apply_thread_effect_def Let_def split: option.splits\<close>)
  show ?thesis
  proof (cases "le_checkpoint effect")
    case (Some sc)
    then have "sc = ?sc"
      using r(3) th by (auto simp: resolve_save_checkpoint_def save_change_def plain_change_def bindE_Inr_iff Let_def codec_encode_json_def
          split: option.splits if_splits)
    then show ?thesis using Some memory t(3) \<open>c' = c\<close> by (simp add: exact_thread_Inr dict_simps)
  next
    case None
    then have "map_option sc_as_of_seq (ls_current_checkpoint state) = Some (pc_as_of_seq c)"
      "\<forall>old \<in> set_option (ls_current_checkpoint state). sc_state_digest old = sha256 (json_encode (pc_state c)) \<and> sc_canonical_state old = json_encode (pc_state c)"
      using r(3) th by (auto simp: resolve_save_checkpoint_def save_change_def plain_change_def bindE_Inr_iff Let_def codec_encode_json_def
          split: option.splits if_splits)
    then obtain old where old: "ls_current_checkpoint state = Some old" "sc_as_of_seq old = pc_as_of_seq c"
      "sc_state_digest old = sha256 (json_encode (pc_state c))" "sc_canonical_state old = json_encode (pc_state c)" by auto
    then obtain x xs where cs: "dget (mt_checkpoints t) ?slot = Some (x # xs)" "old = last (x # xs)"
      using current by (cases "dget (mt_checkpoints t) ?slot") (auto split: list.splits)
    have "old \<in> set (x # xs)" using cs(2) last_in_set by blast
    moreover have "\<forall>q \<in> set (x # xs). sc_key q = th_key (mt_state t) \<and> (sc_projection_name q, sc_run_id q) = ?slot"
      using cp cs(1) unfolding checkpoints_ok_def by blast
    ultimately have "sc_key old = th_key (mt_state t) \<and> (sc_projection_name old, sc_run_id old) = ?slot" by blast
    then have same: "old = ?sc" using old(2-4) t(3) by (cases old) (simp add: stored_checkpoint.defs)
    have "x # xs = butlast (x # xs) @ [old]" using cs(2) by (simp only: append_butlast_last_id list.distinct not_False_eq_True)
    then have "dget (mt_checkpoints t) ?slot = Some (butlast (x # xs) @ [?sc])" using cs(1) by (simp only: same)
    then show ?thesis using None memory t(3) \<open>c' = c\<close> by (intro exI) (auto simp: exact_thread_Inr dict_simps)
  qed
qed

text \<open>Loading at the sequence of the saved checkpoint or later returns it: it is the newest of its scope.\<close>

lemma saved_loads:
  assumes ok: "store_ok sha256 json_size L (st, used)"
    and saved: "store_save_checkpoint sha256 json_size ds generation now c expected st = (Inr c', st')"
    and c: "mk_projection_checkpoint c = Inr c" and codec: "decode_json (json_encode (pc_state c)) = Inr (pc_state c)" "json_encode (pc_state c) \<noteq> []"
    and as_of: "pc_as_of_seq c \<le> as_of"
  shows "store_load_checkpoint sha256 decode_json (pc_key c) (pc_projection_name c) (pc_run_id c) as_of st' = Inr (Some c)"
proof -
  obtain t' cs sc where s: "exact_thread (pc_key c) (sx_memory st') = Inr t'"
    "dget (mt_checkpoints t') (pc_projection_name c, pc_run_id c) = Some (cs @ [sc])"
    "sc = \<lparr>sc_key = pc_key c, sc_projection_name = pc_projection_name c, sc_run_id = pc_run_id c, sc_as_of_seq = pc_as_of_seq c,
      sc_canonical_state = json_encode (pc_state c), sc_state_digest = sha256 (json_encode (pc_state c))\<rparr>"
    using save_resolves [OF ok saved] by blast
  have names: "pc_projection_name c \<noteq> [] \<and> canonical (pc_projection_name c)" "\<forall>r \<in> set_option (pc_run_id c). r \<noteq> [] \<and> canonical r" "0 \<le> pc_as_of_seq c"
    using c by (auto simp: mk_projection_checkpoint_def bindE_Inr_iff text_within_def identifier_ok_def)
  have "\<lparr>pc_key = pc_key c, pc_projection_name = pc_projection_name c, pc_run_id = pc_run_id c, pc_as_of_seq = pc_as_of_seq c,
      pc_state = pc_state c\<rparr> = c" by simp
  then have "mk_projection_checkpoint \<lparr>pc_key = pc_key c, pc_projection_name = pc_projection_name c, pc_run_id = pc_run_id c,
      pc_as_of_seq = pc_as_of_seq c, pc_state = pc_state c\<rparr> = Inr c" by (simp only: c)
  then show ?thesis using s names as_of codec c
    by (simp add: store_load_checkpoint_def checkpoint_lookup_def tm_load_checkpoint_def decode_checkpoint_def codec_digest_def Let_def)
qed

end
