(* ===== verification/Trace_Store_Props.thy ===== *)
theory Trace_Store_Props
  imports Trace_Store_Terminal Trace_Store_Clients
begin

text \<open>
  What the store over the in-memory ledger promises its callers: quotas with the terminal reserve, the order of a Run's
  lifecycle, exact reads, a replayable graph index, checkpoints and followers.
\<close>

section \<open>A small history\<close>

text \<open>One Run: its writer is opened, its start is recorded, then its end.\<close>

definition w_sha :: "bytes \<Rightarrow> string" where
  "w_sha b = ''d''"

definition w_size :: "trace_event \<Rightarrow> int" where
  "w_size e = 100"

definition w_encode :: "trace_fact \<Rightarrow> encoded_payload" where
  "w_encode x = \<lparr>ep_data = encode ''x'', ep_digest = w_sha (encode ''x'')\<rparr>"

definition w_ds :: store_config where
  "w_ds = \<lparr>ds_limits = default_trace_limits,
     ds_options = \<lparr>writer_lease = 60, writer_heartbeat_interval = 20, follow_poll = 1, commit_retry_attempts = 3, commit_retry_delay = 1\<rparr>,
     ds_enforce_writer_leases = True\<rparr>"

definition w_identity :: run_identity where
  "w_identity = \<lparr>i_namespace = ''n'', i_thread_id = ''t'', i_run_id = ''r''\<rparr>"

definition w_key :: thread_key where
  "w_key = \<lparr>tk_namespace = ''n'', tk_thread_id = ''t'', tk_generation = ''g1''\<rparr>"

definition w_uid :: "nat \<Rightarrow> string" where
  "w_uid i = (if i = 0 then ''e0'' else ''e1'')"

definition w_fact :: "run_phase \<Rightarrow> run_outcome option \<Rightarrow> trace_fact" where
  "w_fact phase result =
     RunFact \<lparr>fb_occurred_at = 1, fb_monotonic_ns = 1, fb_observation_id = ''o'', fb_identity = w_identity, fb_graph_namespace = [],
       fb_in_subagent_scope = False, rf_phase = phase, rf_input_kind = Some Ordinary, rf_parent_run_id = None, rf_outcome = result,
       rf_code = None, rf_error_type = None, rf_observer_name = None, rf_interrupt_ids = [], rf_input = None, rf_config = None,
       rf_failure_origin = False\<rparr>"

definition w_writer :: trace_writer where
  "w_writer = \<lparr>wr_key = w_key, wr_run_id = ''r'', wr_owner_token = ''w'', wr_fence = 1, wr_closed = False, wr_failure = None, wr_close_task = None\<rparr>"

definition w_store0 :: store_state where
  "w_store0 = \<lparr>sx_memory = [], sx_follow_changes = []\<rparr>"

definition w_store1 :: store_state where
  "w_store1 = snd (store_open_writer w_sha w_size w_ds ''w'' ''g1'' 0 w_identity w_store0)"

definition w_store2 :: store_state where
  "w_store2 = snd (writer_append w_sha w_size w_encode w_ds w_uid ''g2'' 1 w_writer [w_fact RpStarted None] False w_store1)"

definition w_store3 :: store_state where
  "w_store3 = snd (writer_append w_sha w_size w_encode w_ds w_uid ''g3'' 2 w_writer
     [w_fact RpTerminal (Some RoSucceeded), w_fact RpClosed (Some RoSucceeded)] True w_store2)"

definition w_writer_row :: "time \<Rightarrow> bool \<Rightarrow> int \<Rightarrow> writer_state" where
  "w_writer_row lease done count =
     \<lparr>ws_run_id = ''r'', ws_owner_token = ''w'', ws_fence = 1, ws_lease_expires_at = lease, ws_active = True, ws_terminal_committed = done,
      ws_closed_committed = done, ws_committed_events = count, ws_remaining_event_reserve = (if done then 0 else 4),
      ws_remaining_byte_reserve = (if done then 0 else 4 * 1024 * 1024)\<rparr>"

definition w_event :: "string \<Rightarrow> int \<Rightarrow> trace_fact \<Rightarrow> trace_event" where
  "w_event i seq x = \<lparr>te_event_id = i, te_trace_seq = seq, te_generation = ''g1'', te_fact = x, te_persisted_bytes = 100\<rparr>"

definition w_thread :: "memory_event list \<Rightarrow> writer_state \<Rightarrow> memory_thread" where
  "w_thread ms w =
     \<lparr>mt_state = \<lparr>th_key = w_key, th_next_seq = 1 + int (length ms), th_persisted_bytes = 100 * int (length ms)\<rparr>,
      mt_writers = [(''r'', w)], mt_events = ms, mt_graph_nodes = [], mt_checkpoints = []\<rparr>"

definition w_stored :: "string \<Rightarrow> int \<Rightarrow> trace_fact \<Rightarrow> memory_event" where
  "w_stored i seq x = memory_event_of (w_event i seq x) (encode ''x'') ''d''"

lemma w_memory1: "sx_memory w_store1 = [((''n'', ''t''), w_thread [] (w_writer_row 60 False 0))]"
  by code_simp

lemma w_memory2: "sx_memory w_store2 = [((''n'', ''t''), w_thread [w_stored ''e0'' 1 (w_fact RpStarted None)] (w_writer_row 61 False 1))]"
  by code_simp

lemma w_memory3: "sx_memory w_store3 = [((''n'', ''t''), w_thread
    [w_stored ''e0'' 1 (w_fact RpStarted None), w_stored ''e0'' 2 (w_fact RpTerminal (Some RoSucceeded)),
     w_stored ''e1'' 3 (w_fact RpClosed (Some RoSucceeded))] (w_writer_row 62 True 3))]"
  by code_simp

lemma w_init: "store_init w_sha w_size w_encode w_ds (w_store0, {})"
proof -
  have "mk_trace_limits (ds_limits w_ds) = Inr (ds_limits w_ds)" by code_simp
  moreover have "encode ''x'' \<noteq> []" by code_simp
  then have "honest_encoder w_sha w_encode" by (simp add: honest_encoder_def w_encode_def)
  ultimately show ?thesis by (simp add: store_init_def w_store0_def w_size_def)
qed

lemma w_canonical: "i_run_id w_identity \<noteq> [] \<and> canonical (i_run_id w_identity)"
  by code_simp

lemma w_run1: "(store_step w_sha w_size w_encode w_ds)\<^sup>*\<^sup>* (w_store0, {}) (w_store1, {''g1''})"
  by (rule r_into_rtranclp, rule store_step.opens [where identity = w_identity and token = "''w''" and now = 0])
    (simp_all add: w_store1_def w_canonical)

lemma w_run2: "(store_step w_sha w_size w_encode w_ds)\<^sup>*\<^sup>* (w_store0, {}) (w_store2, {''g2'', ''g1''})"
  by (rule rtranclp.rtrancl_into_rtrancl [OF w_run1], rule store_step.appends) (simp_all add: w_store2_def)

lemma w_run3: "(store_step w_sha w_size w_encode w_ds)\<^sup>*\<^sup>* (w_store0, {}) (w_store3, {''g3'', ''g2'', ''g1''})"
  by (rule rtranclp.rtrancl_into_rtrancl [OF w_run2], rule store_step.appends) (simp_all add: w_store3_def)

section \<open>Quotas\<close>

text \<open>C28: The quotas of the trace store hold in every reachable state, with the reserves of all open Runs counted as used: no
  thread holds more events or bytes than its limits allow, and no namespace more bytes or threads. The counters are
  exact: a thread's next sequence is one more than the number of its events, its bytes are the bytes of its events.\<close>
theorem trace_quotas_hold:
  assumes "store_init sha256 json_size encode_fact ds s0" "(store_step sha256 json_size encode_fact ds)\<^sup>*\<^sup>* s0 (st, used)"
    "dget (sx_memory st) k = Some t"
  shows "int (length (mt_events t)) + reserved_events t \<le> max_thread_events (ds_limits ds) \<and>
    th_persisted_bytes (mt_state t) + reserved_bytes t \<le> max_thread_bytes (ds_limits ds) \<and>
    (\<Sum>u \<leftarrow> namespace_threads namespace (sx_memory st). th_persisted_bytes (mt_state u) + reserved_bytes u) \<le> max_tracer_bytes (ds_limits ds) \<and>
    int (length (namespace_threads namespace (sx_memory st))) \<le> max_tracer_threads (ds_limits ds) \<and>
    th_next_seq (mt_state t) = int (length (mt_events t)) + 1 \<and>
    th_persisted_bytes (mt_state t) = (\<Sum>m \<leftarrow> mt_events t. se_persisted_bytes m)"
proof -
  have ok: "memory_ok sha256 json_size (ds_limits ds) (sx_memory st, used)"
    using trace_store.reachable_inv [OF assms(1,2)] by (simp add: store_inv_def store_ok_def)
  then have t: "log_ok json_size (ds_limits ds) t" "within_quota (ds_limits ds) t"
    using assms(3) by (auto simp: memory_ok_def thread_ok_def)
  have "int (length (mt_events t)) + reserved_events t \<le> max_thread_events (ds_limits ds)"
    "th_persisted_bytes (mt_state t) + reserved_bytes t \<le> max_thread_bytes (ds_limits ds)"
    "th_next_seq (mt_state t) = int (length (mt_events t)) + 1"
    "th_persisted_bytes (mt_state t) = (\<Sum>m \<leftarrow> mt_events t. se_persisted_bytes m)"
    using t by (simp_all add: within_quota_def event_usage_def byte_usage_def log_ok_def)
  moreover have "(\<Sum>u \<leftarrow> namespace_threads namespace (sx_memory st). th_persisted_bytes (mt_state u) + reserved_bytes u) \<le> max_tracer_bytes (ds_limits ds)"
    "int (length (namespace_threads namespace (sx_memory st))) \<le> max_tracer_threads (ds_limits ds)"
    using ok by (auto simp: memory_ok_def namespace_bytes_def byte_usage_def [abs_def])
  ultimately show ?thesis by blast
qed

theorem trace_quotas_hold_witness: "int (1::nat) + reserved_events (w_thread [w_stored ''e0'' 1 (w_fact RpStarted None)] (w_writer_row 61 False 1)) \<le> 100000"
proof -
  have "dget (sx_memory w_store2) (''n'', ''t'') = Some (w_thread [w_stored ''e0'' 1 (w_fact RpStarted None)] (w_writer_row 61 False 1))"
    by (simp add: w_memory2)
  from trace_quotas_hold [OF w_init w_run2 this] show ?thesis by (simp add: w_thread_def w_ds_def default_trace_limits_def)
qed

section \<open>The lifecycle of a Run\<close>

text \<open>C27: In every reachable state the events of a Run are ordinary facts, then at most one terminal fact, then at most one
  closed fact after the terminal one. The writer row of the Run says exactly that: its flags tell which of the two are
  committed, its counter how many events the Run has. A Run without a writer row has no events.\<close>
theorem run_lifecycle_ordered:
  assumes "store_init sha256 json_size encode_fact ds s0" "(store_step sha256 json_size encode_fact ds)\<^sup>*\<^sup>* s0 (st, used)"
    "dget (sx_memory st) k = Some t"
  shows "case dget (mt_writers t) run of
      None \<Rightarrow> run_log run (mt_events t) = []
    | Some w \<Rightarrow> ws_committed_events w = int (length (run_log run (mt_events t))) \<and>
        (\<exists>n. map lifecycle_phase (run_log run (mt_events t)) = replicate n None @
           (if ws_closed_committed w then [Some RpTerminal, Some RpClosed] else if ws_terminal_committed w then [Some RpTerminal] else []))"
proof -
  have "thread_ok sha256 json_size (ds_limits ds) t"
    using trace_store.reachable_inv [OF assms(1,2)] assms(3) by (auto simp: store_inv_def store_ok_def memory_ok_def)
  then have t: "writers_ok (ds_limits ds) t" by (simp add: thread_ok_def)
  show ?thesis
  proof (cases "dget (mt_writers t) run")
    case None
    then show ?thesis using writers_ok_None [OF t] by simp
  next
    case (Some w)
    then show ?thesis using writers_okD(2) [OF t Some] by (auto simp: writer_ok_def tail_phases_def)
  qed
qed

theorem run_lifecycle_ordered_witness: "\<exists>n. map lifecycle_phase [w_fact RpStarted None, w_fact RpTerminal (Some RoSucceeded), w_fact RpClosed (Some RoSucceeded)] =
    replicate n None @ [Some RpTerminal, Some RpClosed]"
  using run_lifecycle_ordered [OF w_init w_run3, of "(''n'', ''t'')" _ "''r''"]
  by (simp add: w_memory3 w_thread_def w_writer_row_def run_log_def w_stored_def w_event_def memory_event_of_def w_fact_def base_of_def
      fact_base.truncate_def w_identity_def)

text \<open>C26: The end of a Run can always be recorded. For a writer that still owns its Run, a mandatory append of the terminal
  fact, of the terminal and the closed fact together, or of the closed fact after the terminal one, is never refused for
  a quota: whatever the other Runs of the thread and the namespace hold, the append succeeds and adds exactly these events. The
  facts must only be acceptable one by one, that is of this Run and within the size of one event.\<close>
theorem run_end_always_fits:
  assumes "store_init sha256 json_size encode_fact ds s0" "(store_step sha256 json_size encode_fact ds)\<^sup>*\<^sup>* s0 (st, used)"
    "exact_thread (wr_key w) (sx_memory st) = Inr t" "owns_writer ds now w t ws" "\<not> wr_closed w" "wr_failure w = None" "ending ws facts"
    "built_events json_size (ds_limits ds) (wr_key w) (wr_run_id w) (th_next_seq (mt_state t)) (prepare_trace_facts encode_fact uid facts) = Inr es"
  shows "\<exists>st' t'. writer_append sha256 json_size encode_fact ds uid generation now w facts True st = (Inr es, st') \<and>
    exact_thread (wr_key w) (sx_memory st') = Inr t' \<and> map me_validated_event (mt_events t') = map me_validated_event (mt_events t) @ es"
proof -
  have inv: "store_inv sha256 json_size encode_fact ds (st, used)" by (rule trace_store.reachable_inv [OF assms(1,2)])
  then have t: "holds_thread sha256 json_size (ds_limits ds) (wr_key w) st t" and L: "mk_trace_limits (ds_limits ds) = Inr (ds_limits ds)"
    using store_ok_thread assms(3) by (auto simp: store_inv_def)
  show ?thesis by (rule ending_commits [OF t L refl assms(4,7,5,6,8)])
qed

theorem run_end_always_fits_witness:
  "\<exists>st'. writer_append w_sha w_size w_encode w_ds w_uid ''g3'' 2 w_writer [w_fact RpTerminal (Some RoSucceeded)] True w_store2 =
     (Inr [w_event ''e0'' 2 (w_fact RpTerminal (Some RoSucceeded))], st')"
proof -
  let ?t = "w_thread [w_stored ''e0'' 1 (w_fact RpStarted None)] (w_writer_row 61 False 1)"
  have t: "exact_thread (wr_key w_writer) (sx_memory w_store2) = Inr ?t"
    by (simp add: w_memory2 exact_thread_def w_writer_def w_key_def w_thread_def memory_slot_def)
  have ws: "owns_writer w_ds 2 w_writer ?t (w_writer_row 61 False 1)"
    by (simp add: owns_writer_def w_thread_def w_writer_def w_writer_row_def)
  have e: "ending (w_writer_row 61 False 1) [w_fact RpTerminal (Some RoSucceeded)]"
    by (simp add: ending_def w_writer_row_def w_fact_def)
  have es: "built_events w_size (ds_limits w_ds) (wr_key w_writer) (wr_run_id w_writer) (th_next_seq (mt_state ?t))
      (prepare_trace_facts w_encode w_uid [w_fact RpTerminal (Some RoSucceeded)]) = Inr [w_event ''e0'' 2 (w_fact RpTerminal (Some RoSucceeded))]"
    by code_simp
  have "\<not> wr_closed w_writer" "wr_failure w_writer = None" by (simp_all add: w_writer_def)
  from run_end_always_fits [OF w_init w_run2 t ws this e es, of "''g3''"] show ?thesis by blast
qed

section \<open>Reads and the log\<close>

text \<open>C30: A read is exact: for valid arguments \<open>read_events\<close> never fails on a thread the store holds, and returns the committed
  events after the cursor, up to the as-of sequence, in order and at most as many as the limit: a slice of the log.\<close>
theorem reads_are_slices:
  assumes "store_init sha256 json_size encode_fact ds s0" "(store_step sha256 json_size encode_fact ds)\<^sup>*\<^sup>* s0 (st, used)"
    "exact_thread key (sx_memory st) = Inr t" "0 \<le> after" "0 \<le> as_of" "1 \<le> limit"
  shows "store_read_events sha256 now key after as_of limit st =
    Inr (take (nat limit) (drop (nat after) (take (nat as_of) (map me_validated_event (mt_events t)))))"
proof -
  have "holds_thread sha256 json_size (ds_limits ds) key st t"
    using trace_store.reachable_inv [OF assms(1,2)] store_ok_thread [OF _ assms(3)] by (auto simp: store_inv_def)
  from read_events_slice [OF this assms(4-6)] show ?thesis by (simp add: forward_slice_def)
qed

lemma w_exact3: "exact_thread w_key (sx_memory w_store3) = Inr (w_thread
    [w_stored ''e0'' 1 (w_fact RpStarted None), w_stored ''e0'' 2 (w_fact RpTerminal (Some RoSucceeded)),
     w_stored ''e1'' 3 (w_fact RpClosed (Some RoSucceeded))] (w_writer_row 62 True 3))"
  by (simp add: w_memory3 exact_thread_def w_key_def w_thread_def memory_slot_def)

theorem reads_are_slices_witness:
  "store_read_events w_sha 5 w_key 1 2 10 w_store3 = Inr [w_event ''e0'' 2 (w_fact RpTerminal (Some RoSucceeded))]"
  using reads_are_slices [OF w_init w_run3 w_exact3, of 1 2 10 5]
  by (simp add: w_thread_def w_stored_def memory_event_of_def numeral_2_eq_2)

text \<open>C29: A committed history is never rewritten. Between two states of a run of the store, a thread whose generation
  existed before was already there under the same key and has only gained events at its end: no event is changed or removed, and
  a deleted generation never comes back.\<close>
theorem trace_history_immutable:
  assumes "store_init sha256 json_size encode_fact ds s0" "(store_step sha256 json_size encode_fact ds)\<^sup>*\<^sup>* s0 (st, used)"
    "(store_step sha256 json_size encode_fact ds)\<^sup>*\<^sup>* (st, used) (st', used')"
    "dget (sx_memory st') k = Some t'" "tk_generation (th_key (mt_state t')) \<in> used"
  shows "\<exists>t later. dget (sx_memory st) k = Some t \<and> th_key (mt_state t) = th_key (mt_state t') \<and> mt_events t' = mt_events t @ later"
proof -
  have "history_kept (ledger_of (st, used)) (ledger_of (st', used'))"
    by (rule store_run_history [OF trace_store.reachable_inv [OF assms(1,2)] assms(3)])
  then have "\<exists>t. dget (sx_memory st) k = Some t \<and> same_history t t'" using history_keptD [OF _ assms(4,5)] by simp
  then show ?thesis by (auto simp: same_history_def)
qed

theorem trace_history_immutable_witness:
  "\<exists>t later. dget (sx_memory w_store2) (''n'', ''t'') = Some t \<and> th_key (mt_state t) = w_key \<and>
    [w_stored ''e0'' 1 (w_fact RpStarted None), w_stored ''e0'' 2 (w_fact RpTerminal (Some RoSucceeded)),
     w_stored ''e1'' 3 (w_fact RpClosed (Some RoSucceeded))] = mt_events t @ later"
proof -
  have run: "(store_step w_sha w_size w_encode w_ds)\<^sup>*\<^sup>* (w_store2, {''g2'', ''g1''}) (w_store3, {''g3'', ''g2'', ''g1''})"
    by (rule r_into_rtranclp, rule store_step.appends) (simp_all add: w_store3_def)
  from trace_history_immutable [OF w_init w_run2 run, of "(''n'', ''t'')"] show ?thesis
    by (simp add: w_memory3 w_thread_def w_key_def)
qed

section \<open>The graph index\<close>

text \<open>C31: The rebuild of the graph index ends whatever the page size, and it changes nothing in a reachable state: when the
  whole log replays, the call succeeds and the index the commits maintained was already the replayed one; otherwise the error of
  the replay is returned.\<close>
theorem rebuild_ends_and_reproduces:
  assumes "store_init sha256 json_size encode_fact ds s0" "(store_step sha256 json_size encode_fact ds)\<^sup>*\<^sup>* s0 (st, used)"
    "exact_thread key (sx_memory st) = Inr t"
  shows "\<exists>n. store_rebuild_trace_graph sha256 ds clock key st =
    Some (case apply_graph_events sha256 (map me_validated_event (mt_events t)) [] of (Inl e, revs) \<Rightarrow> Inl e | (Inr u, revs) \<Rightarrow> Inr n, st) \<and>
    (\<forall>revs. apply_graph_events sha256 (map me_validated_event (mt_events t)) [] = (Inr (), revs) \<longrightarrow> mt_graph_nodes t = revs)"
proof -
  have inv: "store_inv sha256 json_size encode_fact ds (st, used)" by (rule trace_store.reachable_inv [OF assms(1,2)])
  then have t: "holds_thread sha256 json_size (ds_limits ds) key st t" and L: "mk_trace_limits (ds_limits ds) = Inr (ds_limits ds)"
    using store_ok_thread [OF _ assms(3)] by (auto simp: store_inv_def)
  have "graph_ok sha256 t" using t by (simp add: holds_thread_def thread_ok_def)
  then show ?thesis using rebuild_result [OF t L refl, of clock]
    by (auto simp: replayed_def graph_ok_def split: prod.splits sum.splits)
qed

theorem rebuild_ends_and_reproduces_witness: "\<exists>n. store_rebuild_trace_graph w_sha w_ds int w_key w_store3 = Some (Inr n, w_store3)"
proof -
  have "apply_graph_events w_sha [w_event ''e0'' 1 (w_fact RpStarted None), w_event ''e0'' 2 (w_fact RpTerminal (Some RoSucceeded)),
      w_event ''e1'' 3 (w_fact RpClosed (Some RoSucceeded))] [] = (Inr (), [])" by code_simp
  then show ?thesis using rebuild_ends_and_reproduces [OF w_init w_run3 w_exact3, of int]
    by (simp add: w_thread_def w_stored_def memory_event_of_def)
qed

text \<open>A batch of facts writes every row of the graph index at most once: the mutations derived from one append have
  distinct keys, and each passes the validation of its constructor.\<close>
theorem graph_batch_writes_once:
  assumes "graph_node_mutations sha256 es = Inr ms"
  shows "distinct (map mutation_key ms) \<and> (\<forall>m \<in> set ms. mk_mutation m = Inr m)"
  using batch_writes_once [OF assms] by simp

definition w_turn :: trace_fact where
  "w_turn = TurnFact \<lparr>fb_occurred_at = 1, fb_monotonic_ns = 1, fb_observation_id = ''o'', fb_identity = w_identity, fb_graph_namespace = [],
     fb_in_subagent_scope = False, tf_turn_id = ''u'', tf_user_message_id = None, tf_parent_run_id = None\<rparr>"

definition w_batch :: "node_mutation list" where
  "w_batch = (case graph_node_mutations w_sha [w_event ''e0'' 1 w_turn, w_event ''e1'' 2 w_turn] of Inr ms \<Rightarrow> ms | Inl e \<Rightarrow> [])"

theorem graph_batch_writes_once_witness: "length w_batch = 1 \<and> distinct (map mutation_key w_batch) \<and> map mk_mutation w_batch = map Inr w_batch"
proof -
  have "length w_batch = 1" "graph_node_mutations w_sha [w_event ''e0'' 1 w_turn, w_event ''e1'' 2 w_turn] = Inr w_batch" by code_simp+
  then show ?thesis using graph_batch_writes_once [of w_sha _ w_batch] by auto
qed

section \<open>Checkpoints and followers\<close>

text \<open>C32: A saved projection checkpoint is the one that is loaded: after a successful save, loading its scope at its own
  sequence or any later one returns it unchanged, provided the codec decodes what it encoded.\<close>
theorem saved_checkpoint_loads:
  assumes "store_init sha256 json_size encode_fact ds s0" "(store_step sha256 json_size encode_fact ds)\<^sup>*\<^sup>* s0 (st, used)"
    "store_save_checkpoint sha256 json_size ds generation now c expected st = (Inr c', st')"
    "mk_projection_checkpoint c = Inr c" "decode_json (json_encode (pc_state c)) = Inr (pc_state c)" "json_encode (pc_state c) \<noteq> []"
    "pc_as_of_seq c \<le> as_of"
  shows "store_load_checkpoint sha256 decode_json (pc_key c) (pc_projection_name c) (pc_run_id c) as_of st' = Inr (Some c)"
proof -
  have "store_ok sha256 json_size (ds_limits ds) (st, used)" using trace_store.reachable_inv [OF assms(1,2)] by (simp add: store_inv_def)
  from saved_loads [where decode_json = decode_json, OF this assms(3-7)] show ?thesis .
qed

definition w_checkpoint :: projection_checkpoint where
  "w_checkpoint = \<lparr>pc_key = w_key, pc_projection_name = ''p'', pc_run_id = None, pc_as_of_seq = 2, pc_state = JInt 7\<rparr>"

theorem saved_checkpoint_loads_witness:
  "store_load_checkpoint w_sha (\<lambda>b. Inr (JInt 7)) w_key ''p'' None 3 (snd (store_save_checkpoint w_sha w_size w_ds ''g4'' 5 w_checkpoint None w_store3)) =
     Inr (Some w_checkpoint)"
proof -
  have saved: "store_save_checkpoint w_sha w_size w_ds ''g4'' 5 w_checkpoint None w_store3 =
      (Inr w_checkpoint, snd (store_save_checkpoint w_sha w_size w_ds ''g4'' 5 w_checkpoint None w_store3))" by code_simp
  have c: "mk_projection_checkpoint w_checkpoint = Inr w_checkpoint" "json_encode (pc_state w_checkpoint) \<noteq> []" by code_simp+
  from saved_checkpoint_loads [OF w_init w_run3 saved c(1) _ c(2), of "\<lambda>b. Inr (JInt 7)" 3] show ?thesis
    by (simp add: w_checkpoint_def)
qed

text \<open>C33: A follower misses nothing: from a cursor within the log its reads end, and the updates it yields until it waits carry
  every later event exactly once and in order, whatever the page size; every update with events names the sequence of its
  last one.\<close>
theorem follower_sees_every_event:
  assumes "store_init sha256 json_size encode_fact ds s0" "(store_step sha256 json_size encode_fact ds)\<^sup>*\<^sup>* s0 (st, used)"
    "exact_thread key (sx_memory st) = Inr t" "cursor \<le> length (mt_events t)"
  shows "\<exists>updates. follow_until_idle sha256 ds clock key st 0 (int cursor, None) [] = Some (Inr updates) \<and>
    concat (map su_events updates) = drop cursor (map me_validated_event (mt_events t)) \<and>
    (\<forall>u \<in> set updates. su_events u \<noteq> [] \<longrightarrow> su_as_of_seq u = te_trace_seq (last (su_events u)))"
proof -
  have inv: "store_inv sha256 json_size encode_fact ds (st, used)" by (rule trace_store.reachable_inv [OF assms(1,2)])
  then have t: "holds_thread sha256 json_size (ds_limits ds) key st t" using store_ok_thread [OF _ assms(3)] by (auto simp: store_inv_def)
  have "1 \<le> follow_batch_size (ds_limits ds)"
    using inv by (auto simp: store_inv_def mk_trace_limits_def trace_limits_in_range_def bindE_Inr_iff)
  from follow_drains [OF t this assms(4), of clock 0 None "[]"] show ?thesis by simp
qed

theorem follower_sees_every_event_witness:
  "\<exists>updates. follow_until_idle w_sha w_ds int w_key w_store3 0 (1, None) [] = Some (Inr updates) \<and>
    concat (map su_events updates) = [w_event ''e0'' 2 (w_fact RpTerminal (Some RoSucceeded)), w_event ''e1'' 3 (w_fact RpClosed (Some RoSucceeded))]"
  using follower_sees_every_event [OF w_init w_run3 w_exact3, of 1 int]
  by (auto simp: w_thread_def w_stored_def memory_event_of_def)

end
