(* ===== verification/Trace_Json.thy ===== *)
theory Trace_Json
  imports Trace_Base
begin

text \<open>
  Python's \<open>==\<close> on JSON values, by which the tracing package compares redacted shapes and the nodes of two timelines.
\<close>

text \<open>
  Python's equality: true and false are 1 and 0, a float equals the integer it stands for (\<open>integral\<close> reads its text), and the order of
  the entries of an object does not matter.
\<close>

fun py_normal :: "(string \<Rightarrow> int option) \<Rightarrow> json_value \<Rightarrow> json_value" where
  "py_normal integral (JBool b) = JInt (if b then 1 else 0)"
| "py_normal integral (JFloat s) = (case integral s of Some n \<Rightarrow> JInt n | None \<Rightarrow> JFloat s)"
| "py_normal integral (JArray xs) = JArray (map (py_normal integral) xs)"
| "py_normal integral (JObject kvs) = JObject (sort_key fst (map (\<lambda>(k, v). (k, py_normal integral v)) kvs))"
| "py_normal integral v = v"

definition py_equal :: "(string \<Rightarrow> int option) \<Rightarrow> json_value \<Rightarrow> json_value \<Rightarrow> bool" where
  "py_equal integral x y \<longleftrightarrow> py_normal integral x = py_normal integral y"

lemma py_equal_refl [simp]: "py_equal integral x x"
  by (simp add: py_equal_def)

end
