(* ===== verification/Trace_Timeline.thy ===== *)
theory Trace_Timeline
  imports Trace_Graph Trace_Json
begin

text \<open>
  \<open>graph.py\<close>: the public timeline of a thread with the checks of its models, the canonical order of nodes in nested
  Subagent scopes, the omission of details over the byte limit, and the delta between two timelines. The size of a serialised
  model (pydantic) is an argument. JSON null is \<^const>\<open>JNull\<close>.
\<close>

section \<open>Filters and limits\<close>

record graph_filter =
  gf_kinds :: "node_kind set"
  gf_statuses :: "node_status set"
  gf_model_call_id :: "string option"
  gf_agent_names :: "string set"
  gf_providers :: "string set"
  gf_models :: "string set"
  gf_graph_namespaces :: "string list set"
  gf_search :: "string option"
  gf_started_after :: "time option"
  gf_started_before :: "time option"

definition filter_names :: "string set \<Rightarrow> tracing_error + unit" where
  "filter_names values =
     all_demanded
       [(card values \<le> 64, ''Trace Graph filters accept at most 64 values per field''),
        (\<forall>v \<in> values. length v \<le> 1024, ''Trace Graph filter names accept at most 1024 characters''),
        (\<forall>v \<in> values. v \<noteq> [] \<and> canonical v, ''Trace Graph filter names must be canonical text'')]"

definition mk_graph_filter :: "graph_filter \<Rightarrow> tracing_error + graph_filter" where
  "mk_graph_filter f =
     bindE (all_demanded
       [(identifier_ok 2048 (gf_model_call_id f), ''model_call_id out of range''), (identifier_ok 255 (gf_search f), ''search out of range'')]) (\<lambda>_.
     bindE (filter_names (gf_agent_names f)) (\<lambda>_.
     bindE (filter_names (gf_providers f)) (\<lambda>_.
     bindE (filter_names (gf_models f)) (\<lambda>_.
     bindE (all_demanded
       [(card (gf_graph_namespaces f) \<le> 64, ''Trace Graph filters accept at most 64 graph namespaces''),
        (\<forall>ns \<in> gf_graph_namespaces f. length ns \<le> 64, ''Trace Graph namespaces accept at most 64 segments''),
        (\<forall>ns \<in> gf_graph_namespaces f. \<forall>s \<in> set ns. length s \<le> 1024, ''Trace Graph namespace segments are too long''),
        (\<forall>ns \<in> gf_graph_namespaces f. \<forall>s \<in> set ns. s \<noteq> [] \<and> canonical s, ''Trace Graph namespace segments must be canonical text''),
        (\<forall>s \<in> set_option (gf_search f). canonical s, ''search must be canonical text''),
        (\<forall>s \<in> set_option (gf_model_call_id f). canonical s, ''model_call_id must be canonical text''),
        (\<forall>a \<in> set_option (gf_started_after f). \<forall>b \<in> set_option (gf_started_before f). a < b, ''started_after must precede started_before'')]) (\<lambda>_.
     Inr f)))))"

record graph_query_limits =
  gl_max_direct_nodes :: int
  gl_max_total_nodes :: int
  gl_max_page_bytes :: int

definition mk_graph_query_limits :: "graph_query_limits \<Rightarrow> tracing_error + graph_query_limits" where
  "mk_graph_query_limits l =
     bindE (all_demanded
       [(1 \<le> gl_max_direct_nodes l \<and> gl_max_direct_nodes l \<le> 10000, ''max_direct_nodes out of range''),
        (1 \<le> gl_max_total_nodes l \<and> gl_max_total_nodes l \<le> 20000, ''max_total_nodes out of range''),
        (1024 \<le> gl_max_page_bytes l, ''max_page_bytes out of range''),
        (gl_max_direct_nodes l \<le> gl_max_total_nodes l, ''max_direct_nodes must not exceed max_total_nodes'')]) (\<lambda>_. Inr l)"

section \<open>Turns and nodes\<close>

record graph_failure =
  gx_error_type :: string
  gx_message :: "string option"

definition mk_graph_failure :: "graph_failure \<Rightarrow> tracing_error + graph_failure" where
  "mk_graph_failure x =
     bindE (all_demanded
       [(text_within 1024 (gx_error_type x), ''error_type out of range''), (identifier_ok 4096 (gx_message x), ''message out of range''),
        (canonical (gx_error_type x), ''Trace Graph failure identifiers must be canonical'')]) (\<lambda>_. Inr x)"

record graph_turn =
  gt_id :: string
  gt_ordinal :: int
  gt_started_at :: time

definition mk_graph_turn :: "graph_turn \<Rightarrow> tracing_error + graph_turn" where
  "mk_graph_turn t =
     bindE (all_demanded
       [(text_within 2048 (gt_id t), ''Turn ID out of range''), (1 \<le> gt_ordinal t, ''ordinal out of range''),
        (canonical (gt_id t), ''Trace Graph Turn IDs must be canonical'')]) (\<lambda>_. Inr t)"

record timeline_node =
  tn_id :: string
  tn_turn_id :: string
  tn_parent :: "string option"
  tn_model_call_id :: "string option"
  tn_kind :: node_kind
  tn_status :: node_status
  tn_name :: string
  tn_run_id :: string
  tn_graph_namespace :: "string list"
  tn_agent_name :: "string option"
  tn_provider :: "string option"
  tn_model :: "string option"
  tn_source_id :: "string option"
  tn_started_at :: time
  tn_first_output_at :: "time option"
  tn_completed_at :: "time option"
  tn_started_seq :: int
  tn_updated_seq :: int
  tn_content :: json_value
  tn_content_omitted :: bool
  tn_tool_call_only :: bool
  tn_request :: json_value
  tn_request_omitted :: bool
  tn_result :: json_value
  tn_result_omitted :: bool
  tn_usage :: json_value
  tn_response_metadata :: json_value
  tn_failure :: "graph_failure option"
  tn_link_issues :: "link_issue list"

definition mk_timeline_node :: "timeline_node \<Rightarrow> tracing_error + timeline_node" where
  "mk_timeline_node n =
     bindE (all_demanded
       [(text_within 2048 (tn_id n) \<and> text_within 2048 (tn_turn_id n) \<and> identifier_ok 2048 (tn_parent n) \<and> identifier_ok 2048 (tn_model_call_id n) \<and>
           text_within 1024 (tn_name n) \<and> text_within 1024 (tn_run_id n) \<and> identifier_ok 1024 (tn_agent_name n) \<and>
           identifier_ok 1024 (tn_provider n) \<and> identifier_ok 1024 (tn_model n) \<and> identifier_ok 2048 (tn_source_id n), ''text out of range''),
        (1 \<le> tn_started_seq n \<and> 1 \<le> tn_updated_seq n, ''sequence out of range''),
        (\<forall>s \<in> {tn_id n, tn_turn_id n, tn_name n, tn_run_id n} \<union> set_option (tn_parent n) \<union> set_option (tn_model_call_id n) \<union>
           set_option (tn_agent_name n) \<union> set_option (tn_provider n) \<union> set_option (tn_model n) \<union> set_option (tn_source_id n). canonical s,
           ''Trace Graph event identifiers must be canonical''),
        (length (tn_graph_namespace n) \<le> 64, ''Trace Graph namespaces accept at most 64 segments''),
        (\<forall>s \<in> set (tn_graph_namespace n). text_within 1024 s \<and> canonical s, ''Trace Graph namespace segments must be canonical''),
        (tn_started_seq n \<le> tn_updated_seq n, ''updated_seq cannot precede started_seq''),
        (\<forall>t \<in> set_option (tn_first_output_at n). tn_started_at n \<le> t, ''first output cannot precede event start''),
        (\<forall>t \<in> set_option (tn_completed_at n). tn_started_at n \<le> t, ''completion cannot precede event start''),
        (\<forall>a \<in> set_option (tn_first_output_at n). \<forall>b \<in> set_option (tn_completed_at n). a \<le> b, ''first output cannot follow event completion''),
        (tn_status n \<in> {Running, Waiting} \<longrightarrow> tn_completed_at n = None, ''non-terminal events cannot carry completion time''),
        (tn_status n \<in> {Succeeded, Failed, Cancelled, Abandoned} \<longrightarrow> tn_completed_at n \<noteq> None, ''terminal events require completion time''),
        (tn_failure n \<noteq> None \<longrightarrow> tn_status n = Failed, ''failure details require failed event status''),
        (tn_model_call_id n \<noteq> None \<longrightarrow> tn_kind n \<in> {AssistantMessage, Tool, Subagent}, ''model_call_id belongs only to emitted execution events''),
        (tn_tool_call_only n \<longrightarrow> tn_kind n = AssistantMessage, ''tool_call_only belongs only to AssistantMessage events''),
        (\<not> (tn_tool_call_only n \<and> tn_content_omitted n), ''tool_call_only requires observed AssistantMessage content''),
        (distinct (tn_link_issues n), ''Trace Graph link issues must be unique'')]) (\<lambda>_. Inr n)"

section \<open>Subagent scopes\<close>

definition max_subagent_scope_depth :: int where
  "max_subagent_scope_depth = 64"

text \<open>A node is a parent and a kind. The walk from a node up to a resolved one; then the depths on the way back.\<close>

type_synonym scope_nodes = "(string, string option \<times> node_kind) dict"

function scope_path :: "scope_nodes \<Rightarrow> (string, int) dict \<Rightarrow> string list \<Rightarrow> string \<Rightarrow> tracing_error + string list" where
  "scope_path nodes resolved path current =
     (if dget resolved current \<noteq> None then Inr path
      else if current \<in> set path then Inl (TraceValueError ''Trace Graph Subagent scopes cannot form a cycle'')
      else case dget nodes current of
          None \<Rightarrow> Inl (TraceValueError ''missing node'')
        | Some (None, kind) \<Rightarrow> Inr (path @ [current])
        | Some (Some parent, kind) \<Rightarrow>
            if (\<exists>node \<in> set_option (dget nodes parent). snd node = Subagent) then scope_path nodes resolved (path @ [current]) parent
            else Inl (TraceValueError ''Trace Graph scope parents must be returned Subagents''))"
  by pat_completeness auto

termination
proof (relation "measure (\<lambda>(nodes, resolved, path, current). card (set (dkeys nodes) - set path))", goal_cases)
  case (2 nodes resolved path current node parent kind)
  then have "current \<in> set (dkeys nodes) - set path" using dget_in_dkeys [of nodes current] by auto
  then have "card (set (dkeys nodes) - set path - {current}) < card (set (dkeys nodes) - set path)"
    by (intro card_Diff1_less) auto
  moreover have "set (dkeys nodes) - set (path @ [current]) = set (dkeys nodes) - set path - {current}" by auto
  ultimately show ?case by simp
qed simp

declare scope_path.simps [simp del]

fun scope_depths :: "scope_nodes \<Rightarrow> string list \<Rightarrow> (string, int) dict \<Rightarrow> tracing_error + (string, int) dict" where
  "scope_depths nodes [] resolved = Inr resolved"
| "scope_depths nodes (i # rest) resolved =
     (case dget nodes i of
        None \<Rightarrow> Inl (TraceValueError ''missing node'')
      | Some (parent, kind) \<Rightarrow>
          let above = (case parent of None \<Rightarrow> 0 | Some p \<Rightarrow> (case dget resolved p of None \<Rightarrow> 0 | Some d \<Rightarrow> d));
              depth = above + (if kind = Subagent then 1 else 0)
          in bindE (demand (depth \<le> max_subagent_scope_depth) ''Trace Graph Subagent scopes accept at most 64 levels'') (\<lambda>_.
             scope_depths nodes rest (dput i depth resolved)))"

fun resolve_scopes :: "scope_nodes \<Rightarrow> string list \<Rightarrow> (string, int) dict \<Rightarrow> tracing_error + (string, int) dict" where
  "resolve_scopes nodes [] resolved = Inr resolved"
| "resolve_scopes nodes (origin # origins) resolved =
     (if dget resolved origin \<noteq> None then resolve_scopes nodes origins resolved
      else bindE (scope_path nodes resolved [] origin) (\<lambda>path.
           bindE (scope_depths nodes (rev path) resolved) (\<lambda>resolved'.
           resolve_scopes nodes origins resolved')))"

definition validate_subagent_scopes :: "scope_nodes \<Rightarrow> tracing_error + unit" where
  "validate_subagent_scopes nodes = bindE (resolve_scopes nodes (dkeys nodes) []) (\<lambda>_. Inr ())"

section \<open>The canonical order\<close>

fun kind_rank :: "node_kind \<Rightarrow> int" where
  "kind_rank HumanMessage = 0"
| "kind_rank Context = 1"
| "kind_rank Model = 2"
| "kind_rank Tool = 3"
| "kind_rank Subagent = 4"
| "kind_rank AssistantMessage = 5"
| "kind_rank k = 1"

text \<open>The children of one turn by parent, after the check of every parent.\<close>

fun turn_children ::
  "(string, timeline_node) dict \<Rightarrow> timeline_node list \<Rightarrow> (string option, timeline_node list) dict \<Rightarrow>
   tracing_error + (string option, timeline_node list) dict" where
  "turn_children nodes [] children = Inr children"
| "turn_children nodes (n # ns) children =
     bindE (case tn_parent n of
         None \<Rightarrow> Inr ()
       | Some p \<Rightarrow>
           bindE (demand (\<exists>parent \<in> set_option (dget nodes p). tn_kind parent = Subagent) ''Trace Graph scope parents must be returned Subagents'') (\<lambda>_.
           demand (\<forall>parent \<in> set_option (dget nodes p). tn_turn_id parent = tn_turn_id n) ''Trace Graph scope parents must share the child Turn'')) (\<lambda>_.
     turn_children nodes ns (dput (tn_parent n) ((case dget children (tn_parent n) of None \<Rightarrow> [] | Some cs \<Rightarrow> cs) @ [n]) children))"

definition sibling_key :: "timeline_node \<Rightarrow> int \<times> int \<times> string" where
  "sibling_key n = (tn_started_seq n, kind_rank (tn_kind n), tn_id n)"

definition children_of :: "(string option, timeline_node list) dict \<Rightarrow> string option \<Rightarrow> timeline_node list" where
  "children_of children p = (case dget children p of None \<Rightarrow> [] | Some cs \<Rightarrow> cs)"

lemma set_children_of: "set (children_of children p) \<subseteq> set (concat (dvalues children))"
  by (cases "dget children p") (force simp: children_of_def dest: map_of_SomeD)+

text \<open>The depth-first walk; the top of the stack is the head. A node met twice is a cycle.\<close>

function walk_scopes ::
  "(string option, timeline_node list) dict \<Rightarrow> timeline_node list \<Rightarrow> string list \<Rightarrow> tracing_error + string list" where
  "walk_scopes children [] ordered = Inr ordered"
| "walk_scopes children (n # stack) ordered =
     (if tn_id n \<in> set ordered then Inl (TraceValueError ''Trace Graph Subagent scopes cannot form a cycle'')
      else walk_scopes children ((if tn_kind n = Subagent then children_of children (Some (tn_id n)) else []) @ stack) (ordered @ [tn_id n]))"
  by pat_completeness auto

termination
proof (relation "measure (\<lambda>(children, stack, ordered). card (tn_id ` set (stack @ concat (dvalues children)) - set ordered))", goal_cases)
  case (2 children n stack ordered)
  let ?ids = "tn_id ` set ((n # stack) @ concat (dvalues children))"
  let ?new = "tn_id ` set (((if tn_kind n = Subagent then children_of children (Some (tn_id n)) else []) @ stack) @ concat (dvalues children))"
  have "?new \<subseteq> ?ids" using set_children_of [of children] by auto
  then have "?new - set (ordered @ [tn_id n]) \<subseteq> ?ids - set ordered - {tn_id n}" by auto
  then have "card (?new - set (ordered @ [tn_id n])) \<le> card (?ids - set ordered - {tn_id n})" by (intro card_mono) auto
  also have "\<dots> < card (?ids - set ordered)" using 2 by (intro card_Diff1_less) auto
  finally show ?case by (simp only: in_measure prod.case)
qed simp

fun walk_turns :: "(string, timeline_node) dict \<Rightarrow> graph_turn list \<Rightarrow> string list \<Rightarrow> tracing_error + string list" where
  "walk_turns nodes [] ordered = Inr ordered"
| "walk_turns nodes (t # ts) ordered =
     bindE (turn_children nodes (filter (\<lambda>n. tn_turn_id n = gt_id t) (dvalues nodes)) []) (\<lambda>children.
     let sorted_children = map (\<lambda>(p, ns). (p, sort_key sibling_key ns)) children
     in bindE (walk_scopes sorted_children (children_of sorted_children None) ordered) (walk_turns nodes ts))"

definition canonical_node_order :: "graph_turn list \<Rightarrow> (string, timeline_node) dict \<Rightarrow> tracing_error + string list" where
  "canonical_node_order turns nodes =
     bindE (validate_subagent_scopes (map (\<lambda>(i, n). (i, tn_parent n, tn_kind n)) nodes)) (\<lambda>_.
     bindE (walk_turns nodes (sort_key (\<lambda>t. (gt_ordinal t, gt_id t)) turns) []) (\<lambda>ordered.
     bindE (demand (length ordered = length nodes) ''Trace Graph Subagent scopes cannot form a cycle'') (\<lambda>_. Inr ordered)))"

section \<open>Timelines and deltas\<close>

record completeness =
  co_call_tracking_missing :: bool
  co_relationship_evidence_missing :: bool
  co_details_omitted :: bool

record timeline =
  tl_turns :: "graph_turn list"
  tl_nodes :: "timeline_node list"
  tl_ordered_node_ids :: "string list"
  tl_matched_node_ids :: "string list"
  tl_as_of_seq :: int
  tl_completeness :: completeness

record timeline_page = timeline +
  tl_next_cursor :: "string option"

definition by_node_id :: "timeline_node list \<Rightarrow> (string, timeline_node) dict" where
  "by_node_id ns = foldl (\<lambda>d n. dput (tn_id n) n d) [] ns"

definition mk_timeline :: "'a timeline_scheme \<Rightarrow> tracing_error + 'a timeline_scheme" where
  "mk_timeline g =
     (let nodes = by_node_id (tl_nodes g); ids = dkeys nodes; ordered = tl_ordered_node_ids g; matched = tl_matched_node_ids g; turn_ids = map gt_id (tl_turns g)
      in bindE (all_demanded
           [(1 \<le> tl_as_of_seq g, ''as_of_seq out of range''),
            (length nodes = length (tl_nodes g), ''Trace Graph node IDs must be unique''),
            (distinct ordered, ''Trace Graph ordered node IDs must be unique''),
            (set ordered = set ids, ''Trace Graph ordering must contain every node exactly once''),
            (ordered = ids, ''Trace Graph nodes must follow authoritative order''),
            (\<forall>n \<in> set (tl_nodes g). tn_updated_seq n \<le> tl_as_of_seq g, ''Trace Graph nodes cannot reference a future Ledger sequence''),
            (distinct matched, ''Trace Graph matched node IDs must be unique''),
            (set matched \<subseteq> set ordered, ''Trace Graph matches must reference returned nodes''),
            (matched = filter (\<lambda>i. i \<in> set matched) ordered, ''Trace Graph matches must follow authoritative order''),
            (distinct turn_ids, ''Trace Graph Turn IDs must be unique''),
            (distinct (map gt_ordinal (tl_turns g)), ''Trace Graph Turn ordinals must be unique''),
            (tl_turns g = sort_key (\<lambda>t. (gt_ordinal t, gt_id t)) (tl_turns g), ''Trace Graph Turns must follow ordinal order''),
            (\<forall>n \<in> set (tl_nodes g). tn_turn_id n \<in> set turn_ids, ''Trace Graph nodes must reference returned Turns'')]) (\<lambda>_.
         bindE (canonical_node_order (tl_turns g) nodes) (\<lambda>expected.
         bindE (demand (ordered = expected) ''Trace Graph node order is not canonical'') (\<lambda>_. Inr g))))"

record timeline_delta =
  td_as_of_seq :: int
  td_next_cursor :: "string option"
  td_turn_upserts :: "graph_turn list"
  td_turn_removes :: "string list"
  td_node_upserts :: "timeline_node list"
  td_node_removes :: "string list"
  td_ordered_node_ids :: "string list"
  td_matched_node_ids :: "string list"
  td_completeness :: completeness

definition mk_timeline_delta :: "timeline_delta \<Rightarrow> tracing_error + timeline_delta" where
  "mk_timeline_delta d =
     (let ids_ok = (\<lambda>values n. int (length values) \<le> n \<and> (\<forall>v \<in> set values. text_within 2048 v \<and> canonical v));
          ordered = td_ordered_node_ids d; matched = td_matched_node_ids d; turns = map gt_id (td_turn_upserts d); nodes = map tn_id (td_node_upserts d)
      in bindE (all_demanded
           [(1 \<le> td_as_of_seq d, ''as_of_seq out of range''),
            (ids_ok ordered 20000, ''Trace Graph Delta ordered node IDs are invalid''),
            (ids_ok matched 10000, ''Trace Graph Delta matched node IDs are invalid''),
            (ids_ok (td_node_removes d) 20000, ''Trace Graph Delta removed node IDs are invalid''),
            (ids_ok (td_turn_removes d) 20000, ''Trace Graph Delta removed Turn IDs are invalid''),
            (distinct ordered, ''Trace Graph Delta ordered node IDs must be unique''),
            (distinct matched, ''Trace Graph Delta matched node IDs must be unique''),
            (set matched \<subseteq> set ordered, ''Trace Graph Delta matches must reference ordered nodes''),
            (matched = filter (\<lambda>i. i \<in> set matched) ordered, ''Trace Graph Delta matches must follow authoritative order''),
            (distinct turns, ''Trace Graph Delta Turn upserts must be unique''),
            (distinct (td_turn_removes d), ''Trace Graph Delta Turn removals must be unique''),
            (set turns \<inter> set (td_turn_removes d) = {}, ''Trace Graph Delta cannot upsert and remove one Turn''),
            (distinct nodes, ''Trace Graph Delta node upserts must be unique''),
            (distinct (td_node_removes d), ''Trace Graph Delta node removals must be unique''),
            (set nodes \<inter> set (td_node_removes d) = {}, ''Trace Graph Delta cannot upsert and remove one node''),
            (set nodes \<subseteq> set ordered, ''Trace Graph Delta upserts must remain in node order''),
            (\<forall>n \<in> set (td_node_upserts d). tn_updated_seq n \<le> td_as_of_seq d, ''Trace Graph Delta nodes cannot reference a future Ledger sequence'')])
         (\<lambda>_. Inr d))"

section \<open>Byte limits\<close>

definition omit_node_details :: "timeline_node \<Rightarrow> timeline_node" where
  "omit_node_details n =
     n\<lparr>tn_content := JNull, tn_content_omitted := tn_content_omitted n \<or> tn_content n \<noteq> JNull, tn_request := JNull,
       tn_request_omitted := tn_request_omitted n \<or> tn_request n \<noteq> JNull, tn_result := JNull,
       tn_result_omitted := tn_result_omitted n \<or> tn_result n \<noteq> JNull, tn_usage := JNull, tn_response_metadata := JNull\<rparr>"

definition bound_timeline :: "('a timeline_scheme \<Rightarrow> int) \<Rightarrow> int \<Rightarrow> 'a timeline_scheme \<Rightarrow> tracing_error + 'a timeline_scheme" where
  "bound_timeline json_size max_bytes g =
     (if json_size g \<le> max_bytes then Inr g
      else
        let bounded = g\<lparr>tl_nodes := map omit_node_details (tl_nodes g), tl_completeness := (tl_completeness g)\<lparr>co_details_omitted := True\<rparr>\<rparr>
        in bindE (require (json_size bounded \<le> max_bytes) (TraceQuotaExceeded ''Trace Graph exceeds max_page_bytes'' ''graph_page_bytes'')) (\<lambda>_. Inr bounded))"

definition bound_delta :: "(timeline_delta \<Rightarrow> int) \<Rightarrow> int \<Rightarrow> timeline_delta \<Rightarrow> tracing_error + timeline_delta" where
  "bound_delta json_size max_bytes d =
     (if json_size d \<le> max_bytes then Inr d
      else
        let bounded = d\<lparr>td_node_upserts := map omit_node_details (td_node_upserts d), td_completeness := (td_completeness d)\<lparr>co_details_omitted := True\<rparr>\<rparr>
        in bindE (require (json_size bounded \<le> max_bytes) (TraceQuotaExceeded ''Trace Graph update exceeds max_page_bytes'' ''graph_page_bytes'')) (\<lambda>_.
           Inr bounded))"

definition by_turn_id :: "graph_turn list \<Rightarrow> (string, graph_turn) dict" where
  "by_turn_id ts = foldl (\<lambda>d t. dput (gt_id t) t d) [] ts"

text \<open>
  The \<open>==\<close> of two nodes: the model class compares its fields, and the JSON values among them compare as Python values do (true is 1,
  a float equals the integer it stands for, the order of entries does not matter).
\<close>

definition node_normal :: "(string \<Rightarrow> int option) \<Rightarrow> timeline_node \<Rightarrow> timeline_node" where
  "node_normal integral n =
     n\<lparr>tn_content := py_normal integral (tn_content n), tn_request := py_normal integral (tn_request n),
       tn_result := py_normal integral (tn_result n), tn_usage := py_normal integral (tn_usage n),
       tn_response_metadata := py_normal integral (tn_response_metadata n)\<rparr>"

definition node_equal :: "(string \<Rightarrow> int option) \<Rightarrow> timeline_node option \<Rightarrow> timeline_node \<Rightarrow> bool" where
  "node_equal integral held n \<longleftrightarrow> (case held of None \<Rightarrow> False | Some m \<Rightarrow> node_normal integral m = node_normal integral n)"

text \<open>\<open>cursor\<close> is the cursor of a page, none for a whole graph.\<close>

definition graph_delta ::
  "(string \<Rightarrow> int option) \<Rightarrow> (timeline_delta \<Rightarrow> int) \<Rightarrow> int \<Rightarrow> string option \<Rightarrow> 'a timeline_scheme \<Rightarrow> 'b timeline_scheme \<Rightarrow>
   tracing_error + timeline_delta" where
  "graph_delta integral json_size max_bytes cursor previous current =
     (let previous_nodes = by_node_id (tl_nodes previous); current_nodes = by_node_id (tl_nodes current);
          previous_turns = by_turn_id (tl_turns previous); current_turns = by_turn_id (tl_turns current)
      in bindE (mk_timeline_delta
           \<lparr>td_as_of_seq = tl_as_of_seq current, td_next_cursor = cursor,
            td_turn_upserts = dvalues (filter (\<lambda>(i, t). dget previous_turns i \<noteq> Some t) current_turns),
            td_turn_removes = filter (\<lambda>i. dget current_turns i = None) (dkeys previous_turns),
            td_node_upserts = dvalues (filter (\<lambda>(i, n). \<not> node_equal integral (dget previous_nodes i) n) current_nodes),
            td_node_removes = filter (\<lambda>i. dget current_nodes i = None) (dkeys previous_nodes),
            td_ordered_node_ids = tl_ordered_node_ids current, td_matched_node_ids = tl_matched_node_ids current,
            td_completeness = tl_completeness current\<rparr>)
         (bound_delta json_size max_bytes))"

end
