(* ===== verification/Trace_Timeline_Correct.thy ===== *)
theory Trace_Timeline_Correct
  imports Trace_Timeline
begin

text \<open>
  What the checks of the timeline guarantee: accepted Subagent scopes are trees of bounded depth, the canonical order lists
  every node once with parents first, and a delta turns the previous timeline into the current one.
\<close>

section \<open>Depths\<close>

text \<open>A depth that counts the Subagents from the root to a node, with every parent a returned Subagent.\<close>

definition depth_at :: "scope_nodes \<Rightarrow> (string \<Rightarrow> int option) \<Rightarrow> string \<Rightarrow> int \<Rightarrow> bool" where
  "depth_at nodes depth i d \<longleftrightarrow>
     (\<exists>p k. dget nodes i = Some (p, k) \<and> d \<le> max_subagent_scope_depth \<and>
        (case p of
           None \<Rightarrow> d = (if k = Subagent then 1 else 0)
         | Some q \<Rightarrow> (\<exists>r e. dget nodes q = Some (r, Subagent) \<and> depth q = Some e \<and> d = e + (if k = Subagent then 1 else 0))))"

definition depths_ok :: "scope_nodes \<Rightarrow> (string, int) dict \<Rightarrow> bool" where
  "depths_ok nodes resolved \<longleftrightarrow> (\<forall>i d. dget resolved i = Some d \<longrightarrow> depth_at nodes (dget resolved) i d)"

lemma depth_at_mono:
  assumes "depth_at nodes f i d" and sub: "\<And>q e. f q = Some e \<Longrightarrow> g q = Some e"
  shows "depth_at nodes g i d"
proof -
  obtain p k where n: "dget nodes i = Some (p, k)" "d \<le> max_subagent_scope_depth"
    "case p of None \<Rightarrow> d = (if k = Subagent then 1 else 0)
     | Some q \<Rightarrow> (\<exists>r e. dget nodes q = Some (r, Subagent) \<and> f q = Some e \<and> d = e + (if k = Subagent then 1 else 0))"
    using assms(1) unfolding depth_at_def by blast
  show ?thesis
  proof (cases p)
    case None
    then show ?thesis using n by (simp add: depth_at_def)
  next
    case (Some q)
    then obtain r e where "dget nodes q = Some (r, Subagent)" "f q = Some e" "d = e + (if k = Subagent then 1 else 0)" using n(3) by auto
    then show ?thesis using n(1,2) Some sub by (simp add: depth_at_def)
  qed
qed

lemma depths_ok_put:
  assumes "depths_ok nodes resolved" "dget resolved i = None" "depth_at nodes (dget resolved) i d"
  shows "depths_ok nodes (dput i d resolved)"
proof -
  have sub: "dget resolved q = Some e \<Longrightarrow> dget (dput i d resolved) q = Some e" for q e using assms(2) by (auto simp: dict_simps)
  have "depth_at nodes (dget (dput i d resolved)) j e" if "dget (dput i d resolved) j = Some e" for j e
  proof -
    have "depth_at nodes (dget resolved) j e"
      using that assms(1,3) by (auto simp: dict_simps depths_ok_def split: if_splits)
    then show ?thesis by (rule depth_at_mono) (rule sub)
  qed
  then show ?thesis by (simp add: depths_ok_def)
qed

text \<open>The path a walk returns: each node leads to the next, the last to a root or to a resolved node.\<close>

fun linked :: "scope_nodes \<Rightarrow> (string, int) dict \<Rightarrow> string list \<Rightarrow> bool" where
  "linked nodes resolved [] \<longleftrightarrow> True"
| "linked nodes resolved (c # rest) \<longleftrightarrow> dget resolved c = None \<and>
     (case dget nodes c of
        None \<Rightarrow> False
      | Some (None, k) \<Rightarrow> rest = []
      | Some (Some p, k) \<Rightarrow> (\<exists>r. dget nodes p = Some (r, Subagent)) \<and>
          (case rest of [] \<Rightarrow> dget resolved p \<noteq> None | q # qs \<Rightarrow> q = p)) \<and> linked nodes resolved rest"

lemma scope_path_linked:
  assumes "scope_path nodes resolved path current = Inr path'" "distinct path"
  shows "\<exists>rest. path' = path @ rest \<and> distinct path' \<and> linked nodes resolved rest \<and>
    (case rest of [] \<Rightarrow> dget resolved current \<noteq> None | c # cs \<Rightarrow> c = current)"
  using assms
proof (induction nodes resolved path current rule: scope_path.induct)
  case (1 nodes resolved path current)
  show ?case
  proof (cases "dget resolved current \<noteq> None")
    case True
    then show ?thesis using 1(2,3) by (simp add: scope_path.simps)
  next
    case False
    then have new: "current \<notin> set path" using 1(2) by (subst (asm) scope_path.simps) (auto split: if_splits)
    obtain p k where n: "dget nodes current = Some (p, k)"
      using 1(2) False new by (subst (asm) scope_path.simps) (auto split: option.splits)
    show ?thesis
    proof (cases p)
      case None
      then have "path' = path @ [current]" using 1(2) False new n by (subst (asm) scope_path.simps) simp
      then show ?thesis using None n False new 1(3) by (intro exI [of _ "[current]"]) simp
    next
      case (Some q)
      then obtain r where r: "dget nodes q = Some (r, Subagent)" and next_walk: "scope_path nodes resolved (path @ [current]) q = Inr path'"
        using 1(2) False new n by (subst (asm) scope_path.simps) (auto split: if_splits)
      have "\<exists>rest. path' = (path @ [current]) @ rest \<and> distinct path' \<and> linked nodes resolved rest \<and>
          (case rest of [] \<Rightarrow> dget resolved q \<noteq> None | c # cs \<Rightarrow> c = q)"
        by (rule 1(1) [OF _ _ n refl Some]) (use False new r next_walk 1(3) in auto)
      then obtain rest where rest: "path' = path @ current # rest" "distinct path'" "linked nodes resolved rest"
        "case rest of [] \<Rightarrow> dget resolved q \<noteq> None | c # cs \<Rightarrow> c = q" by auto
      then show ?thesis using False n Some r by (intro exI [of _ "current # rest"]) (auto split: list.splits)
    qed
  qed
qed

lemma scope_depths_append:
  "scope_depths nodes (xs @ ys) resolved = bindE (scope_depths nodes xs resolved) (scope_depths nodes ys)"
proof (induction xs arbitrary: resolved)
  case (Cons x xs)
  then show ?case
  proof (cases "dget nodes x")
    case (Some pk)
    then show ?thesis using Cons by (cases pk) (auto simp: Let_def bindE_def require_def split: sum.splits)
  qed simp
qed simp

lemma scope_depths_ok:
  assumes "linked nodes resolved path" "distinct path" "depths_ok nodes resolved" "scope_depths nodes (rev path) resolved = Inr resolved'"
  shows "depths_ok nodes resolved' \<and> (\<forall>i. dget resolved' i \<noteq> None \<longleftrightarrow> dget resolved i \<noteq> None \<or> i \<in> set path)"
  using assms
proof (induction path arbitrary: resolved')
  case (Cons c rest)
  then obtain mid where mid: "scope_depths nodes (rev rest) resolved = Inr mid" "scope_depths nodes [c] mid = Inr resolved'"
    by (auto simp: scope_depths_append bindE_Inr_iff)
  have ih: "depths_ok nodes mid" "\<forall>i. dget mid i \<noteq> None \<longleftrightarrow> dget resolved i \<noteq> None \<or> i \<in> set rest"
    using Cons.IH [OF _ _ Cons.prems(3) mid(1)] Cons.prems(1,2) by auto
  have "\<not> (dget resolved c \<noteq> None \<or> c \<in> set rest)" using Cons.prems(1,2) by simp
  then have c: "dget mid c = None" using ih(2) by metis
  obtain p k where n: "dget nodes c = Some (p, k)" using Cons.prems(1) by (auto split: option.splits)
  obtain d where d: "resolved' = dput c d mid" "d \<le> max_subagent_scope_depth"
    "d = (case p of None \<Rightarrow> 0 | Some q \<Rightarrow> (case dget mid q of None \<Rightarrow> 0 | Some e \<Rightarrow> e)) + (if k = Subagent then 1 else 0)"
    using mid(2) n by (auto simp: Let_def bindE_Inr_iff)
  have "depth_at nodes (dget mid) c d"
  proof (cases p)
    case None
    then show ?thesis using n d by (simp add: depth_at_def)
  next
    case (Some q)
    then obtain r where r: "dget nodes q = Some (r, Subagent)" "case rest of [] \<Rightarrow> dget resolved q \<noteq> None | a # as \<Rightarrow> a = q"
      using Cons.prems(1) n by auto
    then have "dget mid q \<noteq> None" using ih(2) by (cases rest) auto
    then show ?thesis using n d r(1) Some by (auto simp: depth_at_def)
  qed
  then show ?case using depths_ok_put [OF ih(1) c] ih(2) by (auto simp: d(1) dict_simps)
qed simp

lemma resolve_scopes_ok:
  assumes "depths_ok nodes resolved" "resolve_scopes nodes origins resolved = Inr resolved'"
  shows "depths_ok nodes resolved' \<and> (\<forall>i. dget resolved i \<noteq> None \<or> i \<in> set origins \<longrightarrow> dget resolved' i \<noteq> None)"
  using assms
proof (induction origins arbitrary: resolved)
  case (Cons i origins)
  show ?case
  proof (cases "dget resolved i = None")
    case False
    then show ?thesis using Cons.IH [OF Cons.prems(1)] Cons.prems(2) by (auto split: if_splits)
  next
    case True
    then obtain path mid where p: "scope_path nodes resolved [] i = Inr path" "scope_depths nodes (rev path) resolved = Inr mid"
      "resolve_scopes nodes origins mid = Inr resolved'"
      using Cons.prems(2) by (auto simp: bindE_Inr_iff)
    have l: "distinct path" "linked nodes resolved path" "case path of [] \<Rightarrow> dget resolved i \<noteq> None | c # cs \<Rightarrow> c = i"
      using scope_path_linked [OF p(1)] by auto
    have m: "depths_ok nodes mid" "\<forall>j. dget mid j \<noteq> None \<longleftrightarrow> dget resolved j \<noteq> None \<or> j \<in> set path"
      using scope_depths_ok [OF l(2,1) Cons.prems(1) p(2)] by auto
    have "i \<in> set path" using l(3) True by (cases path) auto
    then show ?thesis using Cons.IH [OF m(1) p(3)] m(2) by auto
  qed
qed simp

lemma scopes_bounded:
  assumes "validate_subagent_scopes nodes = Inr ()"
  shows "\<exists>depth. \<forall>i \<in> set (dkeys nodes). \<exists>d. depth i = Some d \<and> depth_at nodes depth i d"
proof -
  obtain resolved where r: "resolve_scopes nodes (dkeys nodes) [] = Inr resolved"
    using assms by (auto simp: validate_subagent_scopes_def bindE_Inr_iff)
  have "depths_ok nodes resolved \<and> (\<forall>i. dget [] i \<noteq> (None :: int option) \<or> i \<in> set (dkeys nodes) \<longrightarrow> dget resolved i \<noteq> None)"
    by (rule resolve_scopes_ok [OF _ r]) (simp add: depths_ok_def)
  then show ?thesis by (intro exI [of _ "dget resolved"]) (auto simp: depths_ok_def simp del: set_map)
qed

section \<open>The canonical order\<close>

definition keyed_nodes :: "(string, timeline_node) dict \<Rightarrow> bool" where
  "keyed_nodes nodes \<longleftrightarrow> dwf nodes \<and> (\<forall>i n. dget nodes i = Some n \<longrightarrow> tn_id n = i)"

text \<open>Every node comes after its parent.\<close>

definition parents_first :: "(string, timeline_node) dict \<Rightarrow> string list \<Rightarrow> bool" where
  "parents_first nodes order \<longleftrightarrow>
     (\<forall>before i after n p. order = before @ i # after \<longrightarrow> dget nodes i = Some n \<longrightarrow> tn_parent n = Some p \<longrightarrow> p \<in> set before)"

lemma parents_first_snoc:
  assumes "parents_first nodes order" "\<And>n p. dget nodes i = Some n \<Longrightarrow> tn_parent n = Some p \<Longrightarrow> p \<in> set order"
  shows "parents_first nodes (order @ [i])"
  unfolding parents_first_def
proof (intro allI impI)
  fix before j after n p
  assume a: "order @ [i] = before @ j # after" "dget nodes j = Some n" "tn_parent n = Some p"
  show "p \<in> set before"
  proof (cases after rule: rev_cases)
    case Nil
    then show ?thesis using a assms(2) by auto
  next
    case (snoc rest x)
    then have "order = before @ j # rest" using a(1) by auto
    then show ?thesis using assms(1) a(2,3) unfolding parents_first_def by blast
  qed
qed

definition children_ok :: "(string, timeline_node) dict \<Rightarrow> (string option, timeline_node list) dict \<Rightarrow> bool" where
  "children_ok nodes children \<longleftrightarrow> (\<forall>p. \<forall>n \<in> set (children_of children p). tn_parent n = p \<and> n \<in> set (dvalues nodes))"

lemma turn_children_ok:
  "turn_children nodes ns children = Inr children' \<Longrightarrow> set ns \<subseteq> set (dvalues nodes) \<Longrightarrow> children_ok nodes children \<Longrightarrow> children_ok nodes children'"
proof (induction ns arbitrary: children)
  case (Cons n ns)
  have "children_ok nodes (dput (tn_parent n) ((case dget children (tn_parent n) of None \<Rightarrow> [] | Some cs \<Rightarrow> cs) @ [n]) children)"
    using Cons.prems(2,3) by (auto simp: children_ok_def children_of_def dict_simps simp del: set_map split: option.splits)
  then show ?case using Cons by (auto simp: bindE_Inr_iff simp del: set_map)
qed simp

lemma children_of_map: "children_of (map (\<lambda>(p, ns). (p, f ns)) children) p = (case dget children p of None \<Rightarrow> [] | Some cs \<Rightarrow> f cs)"
  by (cases "dget children p") (simp_all add: children_of_def map_of_map)

lemma sorted_children_ok:
  assumes "children_ok nodes children"
  shows "children_ok nodes (map (\<lambda>(p, ns). (p, sort_key sibling_key ns)) children)"
proof -
  have "set (children_of (map (\<lambda>(p, ns). (p, sort_key sibling_key ns)) children) p) = set (children_of children p)" for p
    unfolding children_of_map by (cases "dget children p") (simp_all add: children_of_def)
  then show ?thesis using assms unfolding children_ok_def by blast
qed

definition order_ok :: "(string, timeline_node) dict \<Rightarrow> string list \<Rightarrow> bool" where
  "order_ok nodes ordered \<longleftrightarrow> distinct ordered \<and> set ordered \<subseteq> set (dkeys nodes) \<and> parents_first nodes ordered"

lemma walk_scopes_ok:
  assumes "walk_scopes children stack ordered = Inr ordered'" "keyed_nodes nodes" "children_ok nodes children" "order_ok nodes ordered"
    "\<forall>n \<in> set stack. n \<in> set (dvalues nodes) \<and> (\<forall>p. tn_parent n = Some p \<longrightarrow> p \<in> set ordered)"
  shows "order_ok nodes ordered'"
  using assms
proof (induction children stack ordered rule: walk_scopes.induct)
  case (2 children n stack ordered)
  have new: "tn_id n \<notin> set ordered" using 2(2) by (auto split: if_splits)
  have n: "n \<in> set (dvalues nodes)" "\<And>p. tn_parent n = Some p \<Longrightarrow> p \<in> set ordered" using 2(6) by auto
  obtain i where i: "dget nodes i = Some n" using n(1) dvalues_dget [of nodes n] 2(3) by (auto simp: keyed_nodes_def simp del: set_map)
  then have id: "dget nodes (tn_id n) = Some n" using 2(3) by (simp add: keyed_nodes_def)
  have ok: "order_ok nodes (ordered @ [tn_id n])"
    using 2(5) new n(2) id dget_in_dkeys [OF id] parents_first_snoc [of nodes ordered "tn_id n"]
    by (auto simp: order_ok_def simp del: set_map)
  let ?stack = "(if tn_kind n = Subagent then children_of children (Some (tn_id n)) else []) @ stack"
  have stack: "\<forall>m \<in> set ?stack. m \<in> set (dvalues nodes) \<and> (\<forall>p. tn_parent m = Some p \<longrightarrow> p \<in> set (ordered @ [tn_id n]))"
    using 2(4,6) by (auto simp: children_ok_def simp del: set_map split: if_splits)
  show ?case by (rule 2(1) [OF new _ 2(3,4) ok stack]) (use 2(2) new in simp)
qed simp

lemma walk_turns_ok:
  "walk_turns nodes turns ordered = Inr ordered' \<Longrightarrow> keyed_nodes nodes \<Longrightarrow> order_ok nodes ordered \<Longrightarrow> order_ok nodes ordered'"
proof (induction turns arbitrary: ordered)
  case (Cons t ts)
  let ?ns = "filter (\<lambda>n. tn_turn_id n = gt_id t) (dvalues nodes)"
  obtain children mid where c: "turn_children nodes ?ns [] = Inr children"
    "walk_scopes (map (\<lambda>(p, ns). (p, sort_key sibling_key ns)) children)
       (children_of (map (\<lambda>(p, ns). (p, sort_key sibling_key ns)) children) None) ordered = Inr mid"
    "walk_turns nodes ts mid = Inr ordered'"
    using Cons.prems(1) by (auto simp: bindE_Inr_iff Let_def)
  have "children_ok nodes children" by (rule turn_children_ok [OF c(1)]) (auto simp: children_ok_def children_of_def simp del: set_map)
  then have ch: "children_ok nodes (map (\<lambda>(p, ns). (p, sort_key sibling_key ns)) children)" by (rule sorted_children_ok)
  have "order_ok nodes mid" by (rule walk_scopes_ok [OF c(2) Cons.prems(2) ch Cons.prems(3)]) (use ch in \<open>auto simp: children_ok_def simp del: set_map\<close>)
  then show ?case by (rule Cons.IH [OF c(3) Cons.prems(2)])
qed simp

lemma canonical_order_ok:
  assumes "canonical_node_order turns nodes = Inr order" "keyed_nodes nodes"
  shows "distinct order \<and> set order = set (dkeys nodes) \<and> parents_first nodes order"
proof -
  have w: "walk_turns nodes (sort_key (\<lambda>t. (gt_ordinal t, gt_id t)) turns) [] = Inr order" "length order = length nodes"
    using assms(1) by (auto simp: canonical_node_order_def bindE_Inr_iff)
  have ok: "order_ok nodes order" by (rule walk_turns_ok [OF w(1) assms(2)]) (simp add: order_ok_def parents_first_def)
  have d: "distinct (dkeys nodes)" using assms(2) by (simp add: keyed_nodes_def)
  have "set order = set (dkeys nodes)"
  proof (rule card_subset_eq)
    show "set order \<subseteq> set (dkeys nodes)" using ok by (simp add: order_ok_def)
    have "card (set order) = length order" using ok by (simp add: order_ok_def distinct_card)
    moreover have "card (set (dkeys nodes)) = length nodes" using distinct_card [OF d] by simp
    ultimately show "card (set order) = card (set (dkeys nodes))" using w(2) by simp
  qed simp
  then show ?thesis using ok by (simp add: order_ok_def)
qed

section \<open>Deltas\<close>

lemma by_node_id_append: "by_node_id (ns @ [n]) = dput (tn_id n) n (by_node_id ns)"
  by (simp add: by_node_id_def)

lemma keyed_nodes_put: "keyed_nodes d \<Longrightarrow> keyed_nodes (dput (tn_id n) n d)"
  by (simp add: keyed_nodes_def dict_simps)

lemma by_node_id_keyed: "keyed_nodes (by_node_id ns)"
proof (induction ns rule: rev_induct)
  case (snoc n ns)
  then show ?case by (simp only: by_node_id_append keyed_nodes_put)
qed (simp add: by_node_id_def keyed_nodes_def)

lemma by_node_id_values: "distinct (map tn_id ns) \<Longrightarrow> by_node_id ns = map (\<lambda>n. (tn_id n, n)) ns"
proof (induction ns rule: rev_induct)
  case (snoc n ns)
  then have "dget (by_node_id ns) (tn_id n) = None" by (auto simp: dget_None_iff)
  then show ?case using snoc by (simp add: by_node_id_append dput_new)
qed (simp add: by_node_id_def)

lemma by_node_id_length: "length (by_node_id ns) \<le> length ns \<and> (length (by_node_id ns) = length ns \<longrightarrow> distinct (map tn_id ns))"
proof (induction ns rule: rev_induct)
  case (snoc n ns)
  show ?case
  proof (cases "dget (by_node_id ns) (tn_id n)")
    case None
    then have d: "distinct (map tn_id ns) \<Longrightarrow> tn_id n \<notin> tn_id ` set ns" by (auto simp: by_node_id_values dget_None_iff)
    show ?thesis using snoc d None by (auto simp: by_node_id_append dput_length)
  next
    case (Some m)
    then show ?thesis using snoc by (auto simp: by_node_id_append dput_length)
  qed
qed (simp add: by_node_id_def)

lemma mk_timeline_order: "mk_timeline g = Inr g' \<Longrightarrow> distinct (map tn_id (tl_nodes g)) \<and> tl_ordered_node_ids g = map tn_id (tl_nodes g)"
  using by_node_id_length [of "tl_nodes g"] by (auto simp: mk_timeline_def Let_def bindE_Inr_iff by_node_id_values comp_def)

text \<open>What a client that holds the previous nodes shows after the delta: the listed nodes, replaced where the delta has one.\<close>

definition shown_after :: "timeline_node list \<Rightarrow> timeline_delta \<Rightarrow> timeline_node option list" where
  "shown_after held d = map (\<lambda>i. case dget (by_node_id (td_node_upserts d)) i of Some n \<Rightarrow> Some n | None \<Rightarrow> dget (by_node_id held) i) (td_ordered_node_ids d)"

lemma mk_timeline_delta_same: "mk_timeline_delta x = Inr y \<Longrightarrow> y = x"
  unfolding mk_timeline_delta_def Let_def bindE_Inr_iff by blast

lemma bound_delta_small: "bound_delta json_size max_bytes x = Inr y \<Longrightarrow> \<not> co_details_omitted (td_completeness y) \<Longrightarrow> y = x"
  by (auto simp: bound_delta_def Let_def bindE_Inr_iff split: if_splits)

lemma delta_reproduces:
  assumes p: "mk_timeline previous = Inr previous" and c: "mk_timeline current = Inr current"
    and d: "graph_delta integral json_size max_bytes cursor previous current = Inr d" and small: "\<not> co_details_omitted (td_completeness d)"
  shows "map (map_option (node_normal integral)) (shown_after (tl_nodes previous) d) = map (\<lambda>n. Some (node_normal integral n)) (tl_nodes current) \<and>
    td_matched_node_ids d = tl_matched_node_ids current"
proof -
  have ids: "distinct (map tn_id (tl_nodes previous))" "distinct (map tn_id (tl_nodes current))"
    "tl_ordered_node_ids current = map tn_id (tl_nodes current)"
    using mk_timeline_order [OF p] mk_timeline_order [OF c] by auto
  let ?held = "by_node_id (tl_nodes previous)"
  have d': "td_node_upserts d = dvalues (filter (\<lambda>(i, n). \<not> node_equal integral (dget ?held i) n) (by_node_id (tl_nodes current)))"
    "td_ordered_node_ids d = tl_ordered_node_ids current" "td_matched_node_ids d = tl_matched_node_ids current"
  proof -
    obtain x where "mk_timeline_delta \<lparr>td_as_of_seq = tl_as_of_seq current, td_next_cursor = cursor,
        td_turn_upserts = dvalues (filter (\<lambda>(i, t). dget (by_turn_id (tl_turns previous)) i \<noteq> Some t) (by_turn_id (tl_turns current))),
        td_turn_removes = filter (\<lambda>i. dget (by_turn_id (tl_turns current)) i = None) (dkeys (by_turn_id (tl_turns previous))),
        td_node_upserts = dvalues (filter (\<lambda>(i, n). \<not> node_equal integral (dget ?held i) n) (by_node_id (tl_nodes current))),
        td_node_removes = filter (\<lambda>i. dget (by_node_id (tl_nodes current)) i = None) (dkeys ?held),
        td_ordered_node_ids = tl_ordered_node_ids current, td_matched_node_ids = tl_matched_node_ids current,
        td_completeness = tl_completeness current\<rparr> = Inr x" "bound_delta json_size max_bytes x = Inr d"
      using d by (auto simp: graph_delta_def Let_def bindE_Inr_iff)
    then have "d = \<lparr>td_as_of_seq = tl_as_of_seq current, td_next_cursor = cursor,
        td_turn_upserts = dvalues (filter (\<lambda>(i, t). dget (by_turn_id (tl_turns previous)) i \<noteq> Some t) (by_turn_id (tl_turns current))),
        td_turn_removes = filter (\<lambda>i. dget (by_turn_id (tl_turns current)) i = None) (dkeys (by_turn_id (tl_turns previous))),
        td_node_upserts = dvalues (filter (\<lambda>(i, n). \<not> node_equal integral (dget ?held i) n) (by_node_id (tl_nodes current))),
        td_node_removes = filter (\<lambda>i. dget (by_node_id (tl_nodes current)) i = None) (dkeys ?held),
        td_ordered_node_ids = tl_ordered_node_ids current, td_matched_node_ids = tl_matched_node_ids current,
        td_completeness = tl_completeness current\<rparr>"
      using mk_timeline_delta_same bound_delta_small small by metis
    then show "td_node_upserts d = dvalues (filter (\<lambda>(i, n). \<not> node_equal integral (dget ?held i) n) (by_node_id (tl_nodes current)))"
      "td_ordered_node_ids d = tl_ordered_node_ids current" "td_matched_node_ids d = tl_matched_node_ids current" by simp_all
  qed
  have ups: "td_node_upserts d = filter (\<lambda>n. \<not> node_equal integral (dget ?held (tn_id n)) n) (tl_nodes current)"
    using ids(2) by (simp add: d'(1) by_node_id_values filter_map comp_def)
  have dist: "distinct (map tn_id (td_node_upserts d))" unfolding ups by (rule distinct_map_filter) (rule ids(2))
  have "map_option (node_normal integral)
      (case dget (by_node_id (td_node_upserts d)) (tn_id n) of Some m \<Rightarrow> Some m | None \<Rightarrow> dget ?held (tn_id n)) = Some (node_normal integral n)"
    if n: "n \<in> set (tl_nodes current)" for n
  proof (cases "node_equal integral (dget ?held (tn_id n)) n")
    case True
    have "dget (by_node_id (td_node_upserts d)) (tn_id n) = None"
    proof (rule ccontr)
      assume "dget (by_node_id (td_node_upserts d)) (tn_id n) \<noteq> None"
      then obtain m where m: "m \<in> set (td_node_upserts d)" "tn_id m = tn_id n"
        using dist by (auto simp: by_node_id_values dget_None_iff)
      then have "m = n" using ids(2) n unfolding ups by (auto simp: distinct_map inj_on_def)
      then show False using m(1) True unfolding ups by simp
    qed
    then show ?thesis using True by (auto simp: node_equal_def split: option.splits)
  next
    case False
    then have "n \<in> set (td_node_upserts d)" using n by (simp add: ups)
    then have "dget (by_node_id (td_node_upserts d)) (tn_id n) = Some n"
      unfolding by_node_id_values [OF dist] by (intro map_of_is_SomeI) (use dist in \<open>auto simp: comp_def\<close>)
    then show ?thesis by simp
  qed
  then show ?thesis by (simp add: shown_after_def d'(2,3) ids(3) cong: option.case_cong)
qed

end
