(* ===== verification/Trace_Timeline_Props.thy ===== *)
theory Trace_Timeline_Props
  imports Trace_Timeline_Correct
begin

text \<open>
  What a consumer of timelines relies on: an accepted timeline lists scopes before their contents within the depth limit, and
  the delta between two timelines is enough to show the second one.
\<close>

section \<open>Accepted timelines\<close>

lemma accepted_order:
  assumes "mk_timeline g = Inr g"
  shows "canonical_node_order (tl_turns g) (map (\<lambda>n. (tn_id n, n)) (tl_nodes g)) = Inr (map tn_id (tl_nodes g))"
proof -
  have o: "distinct (map tn_id (tl_nodes g))" "tl_ordered_node_ids g = map tn_id (tl_nodes g)" using mk_timeline_order [OF assms] by simp_all
  have "\<exists>expected. canonical_node_order (tl_turns g) (by_node_id (tl_nodes g)) = Inr expected \<and> tl_ordered_node_ids g = expected"
    using assms unfolding mk_timeline_def Let_def bindE_Inr_iff require_Inr_iff by blast
  then show ?thesis using o by (simp add: by_node_id_values)
qed

lemma listed_keyed: "distinct (map tn_id ns) \<Longrightarrow> keyed_nodes (map (\<lambda>n. (tn_id n, n)) ns)"
  using by_node_id_keyed [of ns] by (simp add: by_node_id_values)

lemma listed_node: "distinct (map tn_id ns) \<Longrightarrow> n \<in> set ns \<Longrightarrow> dget (map (\<lambda>n. (tn_id n, n)) ns) (tn_id n) = Some n"
  by (intro map_of_is_SomeI) (auto simp: comp_def)

lemma listed_scope: "dget (map (\<lambda>n. (tn_id n, tn_parent n, tn_kind n)) ns) q = Some (r, k) \<Longrightarrow> \<exists>m \<in> set ns. tn_id m = q \<and> tn_kind m = k"
  by (induction ns) (auto split: if_splits)

text \<open>C34: An accepted timeline lists every scope before its contents: its nodes have distinct identifiers, and the parent of
  a node is a Subagent listed earlier. Following parents, the Subagents from the root to a node number at most 64.\<close>
theorem accepted_timeline_nested:
  assumes "mk_timeline g = Inr g"
  shows "distinct (map tn_id (tl_nodes g)) \<and>
    (\<forall>i p. i < length (tl_nodes g) \<and> tn_parent (tl_nodes g ! i) = Some p \<longrightarrow>
       (\<exists>j < i. tn_id (tl_nodes g ! j) = p \<and> tn_kind (tl_nodes g ! j) = Subagent)) \<and>
    (\<exists>depth. \<forall>n \<in> set (tl_nodes g). depth (tn_id n) \<le> (64 :: int) \<and>
       depth (tn_id n) = (case tn_parent n of None \<Rightarrow> 0 | Some p \<Rightarrow> depth p) + (if tn_kind n = Subagent then 1 else 0))"
proof -
  let ?ns = "tl_nodes g" and ?scopes = "map (\<lambda>n. (tn_id n, tn_parent n, tn_kind n)) (tl_nodes g)"
  have d: "distinct (map tn_id ?ns)" using mk_timeline_order [OF assms] by simp
  note canon = accepted_order [OF assms]
  have first: "parents_first (map (\<lambda>n. (tn_id n, n)) ?ns) (map tn_id ?ns)" using canonical_order_ok [OF canon listed_keyed [OF d]] by simp
  have "validate_subagent_scopes ?scopes = Inr ()" using canon by (auto simp: canonical_node_order_def bindE_Inr_iff comp_def)
  then obtain depth where depth: "\<And>i. i \<in> set (dkeys ?scopes) \<Longrightarrow> \<exists>e. depth i = Some e \<and> depth_at ?scopes depth i e"
    using scopes_bounded by blast
  have scope: "dget ?scopes (tn_id n) = Some (tn_parent n, tn_kind n)" if "n \<in> set ?ns" for n
    by (rule map_of_is_SomeI) (use d that in \<open>auto simp: comp_def\<close>)
  have node: "\<exists>e. depth (tn_id n) = Some e \<and> e \<le> 64 \<and>
      (case tn_parent n of None \<Rightarrow> e = (if tn_kind n = Subagent then 1 else 0)
       | Some q \<Rightarrow> (\<exists>r e'. dget ?scopes q = Some (r, Subagent) \<and> depth q = Some e' \<and> e = e' + (if tn_kind n = Subagent then 1 else 0)))"
    if n: "n \<in> set ?ns" for n
  proof -
    have "tn_id n \<in> set (dkeys ?scopes)" using scope [OF n] dget_in_dkeys by fast
    then obtain e where e: "depth (tn_id n) = Some e" "depth_at ?scopes depth (tn_id n) e" using depth by blast
    then obtain p k where pk: "dget ?scopes (tn_id n) = Some (p, k)" "e \<le> 64"
      "case p of None \<Rightarrow> e = (if k = Subagent then 1 else 0)
       | Some q \<Rightarrow> (\<exists>r e'. dget ?scopes q = Some (r, Subagent) \<and> depth q = Some e' \<and> e = e' + (if k = Subagent then 1 else 0))"
      unfolding depth_at_def max_subagent_scope_depth_def by blast
    have "p = tn_parent n" "k = tn_kind n" using pk(1) scope [OF n] by simp_all
    then show ?thesis using e(1) pk(2,3) by blast
  qed
  have earlier: "\<exists>j < i. tn_id (?ns ! j) = p \<and> tn_kind (?ns ! j) = Subagent" if i: "i < length ?ns" "tn_parent (?ns ! i) = Some p" for i p
  proof -
    have mem: "?ns ! i \<in> set ?ns" using i(1) by simp
    have "map tn_id ?ns = take i (map tn_id ?ns) @ tn_id (?ns ! i) # drop (Suc i) (map tn_id ?ns)"
      using id_take_nth_drop [of i "map tn_id ?ns"] i(1) by simp
    then have "p \<in> set (take i (map tn_id ?ns))" using first listed_node [OF d mem] i(2) unfolding parents_first_def by blast
    then obtain j where j: "j < i" "tn_id (?ns ! j) = p" using i(1) by (auto simp: in_set_conv_nth)
    obtain r where "dget ?scopes p = Some (r, Subagent)" using node [OF mem] i(2) by auto
    then obtain m where m: "m \<in> set ?ns" "tn_id m = p" "tn_kind m = Subagent" using listed_scope by blast
    have "?ns ! j \<in> set ?ns" using j(1) i(1) by simp
    then have "m = ?ns ! j" using m(1,2) j(2) d by (auto simp: distinct_map inj_on_def)
    then show ?thesis using j m(3) by blast
  qed
  have "\<forall>n \<in> set ?ns. the (depth (tn_id n)) \<le> 64 \<and> the (depth (tn_id n)) =
      (case tn_parent n of None \<Rightarrow> 0 | Some p \<Rightarrow> the (depth p)) + (if tn_kind n = Subagent then 1 else 0)"
    using node by (fastforce split: option.splits)
  then have "\<exists>f. \<forall>n \<in> set ?ns. f (tn_id n) \<le> (64 :: int) \<and>
      f (tn_id n) = (case tn_parent n of None \<Rightarrow> 0 | Some p \<Rightarrow> f p) + (if tn_kind n = Subagent then 1 else 0)"
    by (rule exI [of _ "\<lambda>i. the (depth i)"])
  then show ?thesis using d earlier by blast
qed

definition w_node :: "string \<Rightarrow> string option \<Rightarrow> node_kind \<Rightarrow> int \<Rightarrow> timeline_node" where
  "w_node i parent kind seq =
     \<lparr>tn_id = i, tn_turn_id = ''u'', tn_parent = parent, tn_model_call_id = None, tn_kind = kind, tn_status = Running, tn_name = ''n'',
      tn_run_id = ''r'', tn_graph_namespace = [], tn_agent_name = None, tn_provider = None, tn_model = None, tn_source_id = None,
      tn_started_at = 1, tn_first_output_at = None, tn_completed_at = None, tn_started_seq = seq, tn_updated_seq = seq, tn_content = JNull,
      tn_content_omitted = False, tn_tool_call_only = False, tn_request = JInt 1, tn_request_omitted = False, tn_result = JNull,
      tn_result_omitted = False, tn_usage = JNull, tn_response_metadata = JNull, tn_failure = None, tn_link_issues = []\<rparr>"

definition w_graph :: "timeline_node list \<Rightarrow> int \<Rightarrow> timeline" where
  "w_graph ns seq =
     \<lparr>tl_turns = [\<lparr>gt_id = ''u'', gt_ordinal = 1, gt_started_at = 1\<rparr>], tl_nodes = ns, tl_ordered_node_ids = map tn_id ns,
      tl_matched_node_ids = [''b''], tl_as_of_seq = seq,
      tl_completeness = \<lparr>co_call_tracking_missing = False, co_relationship_evidence_missing = False, co_details_omitted = False\<rparr>\<rparr>"

definition w_before :: timeline where
  "w_before = w_graph [w_node ''a'' None Subagent 1, w_node ''b'' (Some ''a'') Tool 2] 2"

definition w_after :: timeline where
  "w_after = w_graph [(w_node ''a'' None Subagent 1)\<lparr>tn_request := JBool True\<rparr>, (w_node ''b'' (Some ''a'') Tool 2)\<lparr>tn_updated_seq := 3\<rparr>, w_node ''c'' None Model 3] 3"

lemma w_graphs: "mk_timeline w_before = Inr w_before" "mk_timeline w_after = Inr w_after"
  by code_simp+

theorem accepted_timeline_nested_witness: "\<exists>j < (1 :: nat). tn_id (tl_nodes w_before ! j) = ''a'' \<and> tn_kind (tl_nodes w_before ! j) = Subagent"
proof -
  have "length (tl_nodes w_before) = 2" "tn_parent (tl_nodes w_before ! 1) = Some ''a''" by (simp_all add: w_before_def w_graph_def w_node_def)
  moreover have "(1 :: nat) < 2" by simp
  moreover note accepted_timeline_nested [OF w_graphs(1), THEN conjunct2, THEN conjunct1, rule_format, of 1 "''a''"]
  ultimately show ?thesis by (simp only:)
qed

text \<open>C35: A delta is enough up to Python's equality: a client that shows the listed nodes of a delta, taking each from the delta if it
  is there and from the previous timeline otherwise, shows the nodes of the current timeline in their order, each equal to the
  current one in the sense of \<open>==\<close> (all fields are the same; JSON content may differ as true differs from 1, or an object from the
  same one with its entries in another order), and the direct matches are those of the current timeline; unless the delta had to
  omit details for its size, which it says.\<close>
theorem delta_shows_current:
  assumes "mk_timeline previous = Inr previous" "mk_timeline current = Inr current"
    "graph_delta integral json_size max_bytes cursor previous current = Inr d" "\<not> co_details_omitted (td_completeness d)"
  shows "map (\<lambda>i. map_option (node_normal integral)
      (case dget (by_node_id (td_node_upserts d)) i of Some n \<Rightarrow> Some n | None \<Rightarrow> dget (by_node_id (tl_nodes previous)) i))
      (td_ordered_node_ids d) = map (\<lambda>n. Some (node_normal integral n)) (tl_nodes current) \<and>
    td_matched_node_ids d = tl_matched_node_ids current"
  using delta_reproduces [OF assms] by (simp add: shown_after_def comp_def)

definition w_delta :: timeline_delta where
  "w_delta = (case graph_delta (\<lambda>s. None) (\<lambda>d. 10) 10 None w_before w_after of Inr d \<Rightarrow> d)"

text \<open>In the example the request of the first node changes from 1 to true, which the delta does not list.\<close>

theorem delta_shows_current_witness:
  "map tn_id (td_node_upserts w_delta) = [''b'', ''c''] \<and> td_matched_node_ids w_delta = tl_matched_node_ids w_after \<and>
   map tn_request (tl_nodes w_before) = [JInt 1, JInt 1] \<and> map tn_request (tl_nodes w_after) = [JBool True, JInt 1, JInt 1]"
proof -
  have d: "graph_delta (\<lambda>s. None) (\<lambda>d. 10) 10 None w_before w_after = Inr w_delta" by code_simp
  have "\<not> co_details_omitted (td_completeness w_delta)" "map tn_id (td_node_upserts w_delta) = [''b'', ''c'']"
    "map tn_request (tl_nodes w_before) = [JInt 1, JInt 1]" "map tn_request (tl_nodes w_after) = [JBool True, JInt 1, JInt 1]" by code_simp+
  with delta_shows_current [OF w_graphs d] show ?thesis by (simp only: conj_commute simp_thms)
qed

end
