(* ===== verification/Trace_Query.thy ===== *)
theory Trace_Query
  imports Trace_Store Trace_Timeline
begin

text \<open>
  Indexed graph queries: the request and page of \<open>backend.py\<close>, \<open>query_trace_graph\<close> of the in-memory backend with its filters,
  cursor and Subagent paths, and the decoding and content search of \<open>DurableTraceStore\<close> in \<open>durable_store.py\<close>. The texts of a record that a
  content search looks into (\<open>trace_graph_record_search_values\<close>, a part of the projection) are an argument.
\<close>

section \<open>Requests and pages\<close>

record graph_query_request =
  gq_key :: thread_key
  gq_run_ids :: "string list"
  gq_where :: graph_filter
  gq_limit :: int
  gq_total_limit :: int
  gq_before_started_at :: "time option"
  gq_before_node_id :: "string option"

definition max_graph_lineage_runs :: int where
  "max_graph_lineage_runs = 10000"

definition mk_graph_query_request :: "graph_query_request \<Rightarrow> tracing_error + graph_query_request" where
  "mk_graph_query_request q =
     bindE (all_demanded
       [(gq_run_ids q \<noteq> [] \<and> int (length (gq_run_ids q)) \<le> max_graph_lineage_runs \<and> distinct (gq_run_ids q) \<and>
           (\<forall>r \<in> set (gq_run_ids q). text_within 1024 r \<and> canonical r), ''Graph run lineage is invalid or exceeds 10000 Runs''),
        (1 \<le> gq_limit q, ''Graph page limit must be positive''),
        (gq_limit q \<le> gq_total_limit q, ''Graph total limit must include every direct match''),
        (gf_search (gq_where q) = None, ''Graph content search must be resolved by the Trace Store''),
        ((gq_before_started_at q = None) = (gq_before_node_id q = None), ''Graph cursor time and node ID must be supplied together'')])
       (\<lambda>_. Inr q)"

text \<open>An indexed row with the events its locators name.\<close>

record stored_graph_node = graph_node +
  sg_started_event :: memory_event
  sg_updated_event :: memory_event
  sg_request_event :: "memory_event option"
  sg_result_event :: "memory_event option"
  sg_failure_event :: "memory_event option"
  sg_model_call_event :: "memory_event option"

record 'n graph_page =
  gp_key :: thread_key
  gp_as_of_seq :: int
  gp_nodes :: "'n list"
  gp_matched_node_ids :: "string list"
  gp_has_more :: bool
  gp_next_started_at :: "time option"
  gp_next_node_id :: "string option"
  gp_relationship_evidence_missing :: bool

section \<open>The in-memory backend\<close>

definition node_order_key :: "(bytes \<Rightarrow> string) \<Rightarrow> string \<Rightarrow> string" where
  "node_order_key sha256 node_id = sha256 (encode node_id)"

definition row_order :: "(bytes \<Rightarrow> string) \<Rightarrow> 'a graph_node_scheme \<Rightarrow> time \<times> string" where
  "row_order sha256 row = (gn_started_at row, node_order_key sha256 (gn_node_id row))"

text \<open>\<open>sort(reverse=True)\<close> keeps the order of equal elements.\<close>

definition sort_descending :: "('a \<Rightarrow> 'k :: linorder) \<Rightarrow> 'a list \<Rightarrow> 'a list" where
  "sort_descending k xs = rev (sort_key k (rev xs))"

definition graph_node_matches :: "graph_filter \<Rightarrow> 'a graph_node_scheme \<Rightarrow> bool" where
  "graph_node_matches f row \<longleftrightarrow>
     \<not> ((gf_kinds f \<noteq> {} \<and> gn_kind row \<notin> gf_kinds f) \<or>
        (gf_statuses f \<noteq> {} \<and> gn_status row \<notin> gf_statuses f) \<or>
        (gf_model_call_id f \<noteq> None \<and> gn_model_call_id row \<noteq> gf_model_call_id f) \<or>
        (gf_agent_names f \<noteq> {} \<and> (\<forall>v \<in> set_option (gn_agent_name row). v \<notin> gf_agent_names f)) \<or>
        (gf_providers f \<noteq> {} \<and> (\<forall>v \<in> set_option (gn_provider row). v \<notin> gf_providers f)) \<or>
        (gf_models f \<noteq> {} \<and> (\<forall>v \<in> set_option (gn_model row). v \<notin> gf_models f)) \<or>
        (gf_graph_namespaces f \<noteq> {} \<and> gn_graph_namespace row \<notin> gf_graph_namespaces f) \<or>
        (\<exists>t \<in> set_option (gf_started_after f). gn_started_at row \<le> t) \<or>
        (\<exists>t \<in> set_option (gf_started_before f). t \<le> gn_started_at row))"

definition matching_rows :: "graph_filter \<Rightarrow> 'a graph_node_scheme list \<Rightarrow> tracing_error + 'a graph_node_scheme list" where
  "matching_rows f rows =
     (if rows \<noteq> [] \<and> gf_search f \<noteq> None then Inl (TraceValueError ''Graph content search must be resolved before metadata filters'')
      else Inr (filter (graph_node_matches f) rows))"

definition before_cursor ::
  "(bytes \<Rightarrow> string) \<Rightarrow> time option \<Rightarrow> string option \<Rightarrow> 'a graph_node_scheme list \<Rightarrow> tracing_error + 'a graph_node_scheme list" where
  "before_cursor sha256 started_at node_id rows =
     (case started_at of
        None \<Rightarrow> Inr rows
      | Some t \<Rightarrow> (case node_id of
            None \<Rightarrow> Inl (TraceValueError ''Graph cursor requires a node ID'')
          | Some i \<Rightarrow> Inr (filter (\<lambda>row. row_order sha256 row < (t, node_order_key sha256 i)) rows)))"

definition rows_by_id :: "'a graph_node_scheme list \<Rightarrow> (string, 'a graph_node_scheme) dict" where
  "rows_by_id rows = foldl (\<lambda>d row. dput (gn_node_id row) row d) [] rows"

text \<open>One level of the Subagent path: parents not yet there are added, their own parents are next.\<close>

fun admit_parents ::
  "int \<Rightarrow> graph_node list \<Rightarrow> (string, graph_node) dict \<Rightarrow> string list \<Rightarrow> tracing_error + (string, graph_node) dict \<times> string list" where
  "admit_parents total_limit [] rows next_ids = Inr (rows, next_ids)"
| "admit_parents total_limit (p # ps) rows next_ids =
     (if dget rows (gn_node_id p) \<noteq> None then admit_parents total_limit ps rows next_ids
      else if total_limit \<le> int (length rows) then
        Inl (TraceQuotaExceeded ''Trace Graph Subagent path exceeds max_total_nodes'' ''graph_total_nodes'')
      else
        let rows' = dput (gn_node_id p) p rows
        in admit_parents total_limit ps rows'
             (case gn_parent_subagent_id p of
                None \<Rightarrow> next_ids
              | Some q \<Rightarrow> if dget rows' q = None then next_ids @ [q] else next_ids))"

definition pending_parents :: "(string, graph_node) dict \<Rightarrow> string set \<Rightarrow> string list \<Rightarrow> graph_node list" where
  "pending_parents candidates run_ids pending =
     filter (\<lambda>row. gn_run_id row \<in> run_ids) (List.map_filter (dget candidates) (sort (fromkeys pending)))"

text \<open>The levels left, the current depth, the pending parents and the rows found so far.\<close>

fun scope_levels ::
  "nat \<Rightarrow> int \<Rightarrow> int \<Rightarrow> (string, graph_node) dict \<Rightarrow> string set \<Rightarrow> string list \<Rightarrow> (string, graph_node) dict \<Rightarrow>
   tracing_error + (string, graph_node) dict" where
  "scope_levels 0 depth total_limit candidates run_ids pending rows = Inr rows"
| "scope_levels (Suc n) depth total_limit candidates run_ids pending rows =
     (if pending = [] then Inr rows
      else
        let parents = pending_parents candidates run_ids pending
        in if max_subagent_scope_depth < depth \<and> parents \<noteq> [] then
             Inl (TraceStoreProtocolError ''Trace Graph Subagent scope exceeds 64 levels'')
           else bindE (admit_parents total_limit parents rows []) (\<lambda>(rows', next_ids).
             scope_levels n (depth + 1) total_limit candidates run_ids next_ids rows'))"

text \<open>A list index of Python: negative positions count from the end.\<close>

definition py_index :: "'a list \<Rightarrow> int \<Rightarrow> 'a option" where
  "py_index xs i =
     (let j = (if i < 0 then i + int (length xs) else i)
      in if 0 \<le> j \<and> j < int (length xs) then Some (xs ! nat j) else None)"

definition located_event :: "memory_event list \<Rightarrow> int option \<Rightarrow> tracing_error + memory_event option" where
  "located_event events seq =
     (case seq of
        None \<Rightarrow> Inr None
      | Some n \<Rightarrow> (case py_index events (n - 1) of
            None \<Rightarrow> Inl (TraceStoreProtocolError ''Trace Graph locator is outside the Ledger'')
          | Some m \<Rightarrow> Inr (Some m)))"

definition stored_memory_graph_node :: "memory_event list \<Rightarrow> graph_node \<Rightarrow> tracing_error + stored_graph_node" where
  "stored_memory_graph_node events row =
     bindE (located_event events (Some (gn_started_seq row))) (\<lambda>started.
     bindE (located_event events (Some (gn_updated_seq row))) (\<lambda>updated.
     case (started, updated) of
       (Some s, Some u) \<Rightarrow>
         bindE (located_event events (gn_request_seq row)) (\<lambda>request.
         bindE (located_event events (gn_result_seq row)) (\<lambda>result.
         bindE (located_event events (gn_failure_seq row)) (\<lambda>failure.
         bindE (located_event events (gn_model_call_seq row)) (\<lambda>model_call.
         Inr (graph_node.extend row
           \<lparr>sg_started_event = s, sg_updated_event = u, sg_request_event = request, sg_result_event = result,
            sg_failure_event = failure, sg_model_call_event = model_call\<rparr>)))))
     | _ \<Rightarrow> Inl (TraceStoreProtocolError ''Trace Graph node lacks lifecycle facts'')))"

fun stored_graph_nodes :: "memory_event list \<Rightarrow> graph_node list \<Rightarrow> tracing_error + stored_graph_node list" where
  "stored_graph_nodes events [] = Inr []"
| "stored_graph_nodes events (row # rows) =
     bindE (stored_memory_graph_node events row) (\<lambda>n. bindE (stored_graph_nodes events rows) (\<lambda>ns. Inr (n # ns)))"

definition visible_rows :: "string list \<Rightarrow> memory_thread \<Rightarrow> graph_node list" where
  "visible_rows run_ids t =
     effective_graph_nodes (set run_ids) (filter (\<lambda>r. revision_run_id r \<in> set run_ids) (dvalues (mt_graph_nodes t)))"

definition tm_query_trace_graph ::
  "(bytes \<Rightarrow> string) \<Rightarrow> graph_query_request \<Rightarrow> trace_memory \<Rightarrow> tracing_error + stored_graph_node graph_page" where
  "tm_query_trace_graph sha256 q tm =
     bindE (exact_thread (gq_key q) tm) (\<lambda>t.
     let run_ids = set (gq_run_ids q);
         candidates = visible_rows (gq_run_ids q) t
     in bindE (matching_rows (gq_where q) candidates) (\<lambda>matching.
        bindE (before_cursor sha256 (gq_before_started_at q) (gq_before_node_id q) (sort_descending (row_order sha256) matching)) (\<lambda>rest.
        let selected = take (nat (gq_limit q)) rest;
            has_more = gq_limit q < int (length rest);
            cursor_row = (if has_more \<and> selected \<noteq> [] then Some (last selected) else None);
            pending = fromkeys (filter (\<lambda>p. dget (rows_by_id selected) p = None) (List.map_filter gn_parent_subagent_id selected))
        in bindE (scope_levels 65 1 (gq_total_limit q) (rows_by_id candidates) run_ids pending (rows_by_id selected)) (\<lambda>rows.
           bindE (stored_graph_nodes (mt_events t) (sort_descending (row_order sha256) (dvalues rows))) (\<lambda>nodes.
           Inr \<lparr>gp_key = gq_key q, gp_as_of_seq = th_next_seq (mt_state t) - 1, gp_nodes = nodes,
                gp_matched_node_ids = map gn_node_id selected, gp_has_more = has_more,
                gp_next_started_at = map_option gn_started_at cursor_row, gp_next_node_id = map_option gn_node_id cursor_row,
                gp_relationship_evidence_missing = (\<exists>row \<in> set candidates. gn_link_issue row \<noteq> None)\<rparr>)))))"

section \<open>Decoding a page\<close>

record node_record = graph_node +
  nr_started_event :: trace_event
  nr_updated_event :: trace_event
  nr_request_event :: "trace_event option"
  nr_result_event :: "trace_event option"
  nr_failure_event :: "trace_event option"
  nr_model_call_event :: "trace_event option"

type_synonym seen_events = "(int, memory_event) dict"

text \<open>All locators of a page must agree on an event; \<open>seen\<close> holds those already met.\<close>

definition decode_required ::
  "(bytes \<Rightarrow> string) \<Rightarrow> thread_key \<Rightarrow> string set \<Rightarrow> memory_event \<Rightarrow> int \<Rightarrow> seen_events \<Rightarrow> tracing_error + trace_event \<times> seen_events" where
  "decode_required sha256 key run_ids m seq seen =
     bindE (protocol (\<forall>old \<in> set_option (dget seen seq). old = m) ''Trace Graph locators disagree on one Ledger event'') (\<lambda>_.
     bindE (if dget seen seq \<noteq> None then decode_event sha256 key m
            else bindE (protocol (se_trace_seq m = seq) ''Trace Graph node references a different Ledger sequence'') (\<lambda>_. decode_event sha256 key m)) (\<lambda>e.
     bindE (protocol (fact_run (te_fact e) \<in> run_ids) ''Trace Graph locator belongs to another Run lineage'') (\<lambda>_.
     Inr (e, dput seq m seen))))"

definition decode_optional ::
  "(bytes \<Rightarrow> string) \<Rightarrow> thread_key \<Rightarrow> string set \<Rightarrow> memory_event option \<Rightarrow> int option \<Rightarrow> seen_events \<Rightarrow>
   tracing_error + trace_event option \<times> seen_events" where
  "decode_optional sha256 key run_ids event seq seen =
     (case (event, seq) of
        (Some m, Some n) \<Rightarrow> bindE (decode_required sha256 key run_ids m n seen) (\<lambda>(e, seen'). Inr (Some e, seen'))
      | (None, None) \<Rightarrow> Inr (None, seen)
      | _ \<Rightarrow> Inl (TraceStoreProtocolError ''Trace Graph optional fact locator is incomplete''))"

definition decode_node ::
  "(bytes \<Rightarrow> string) \<Rightarrow> thread_key \<Rightarrow> string set \<Rightarrow> stored_graph_node \<Rightarrow> seen_events \<Rightarrow> tracing_error + node_record \<times> seen_events" where
  "decode_node sha256 key run_ids n s0 =
     bindE (decode_required sha256 key run_ids (sg_started_event n) (gn_started_seq n) s0) (\<lambda>(started, s1).
     bindE (decode_required sha256 key run_ids (sg_updated_event n) (gn_updated_seq n) s1) (\<lambda>(updated, s2).
     bindE (decode_optional sha256 key run_ids (sg_request_event n) (gn_request_seq n) s2) (\<lambda>(request, s3).
     bindE (decode_optional sha256 key run_ids (sg_result_event n) (gn_result_seq n) s3) (\<lambda>(result, s4).
     bindE (decode_optional sha256 key run_ids (sg_failure_event n) (gn_failure_seq n) s4) (\<lambda>(failure, s5).
     bindE (decode_optional sha256 key run_ids (sg_model_call_event n) (gn_model_call_seq n) s5) (\<lambda>(model_call, s6).
     Inr (graph_node.extend (graph_node.truncate n)
       \<lparr>nr_started_event = started, nr_updated_event = updated, nr_request_event = request, nr_result_event = result,
        nr_failure_event = failure, nr_model_call_event = model_call\<rparr>, s6)))))))"

fun decode_nodes ::
  "(bytes \<Rightarrow> string) \<Rightarrow> thread_key \<Rightarrow> string set \<Rightarrow> stored_graph_node list \<Rightarrow> seen_events \<Rightarrow> tracing_error + node_record list" where
  "decode_nodes sha256 key run_ids [] seen = Inr []"
| "decode_nodes sha256 key run_ids (n # ns) seen =
     bindE (decode_node sha256 key run_ids n seen) (\<lambda>(r, seen').
     bindE (decode_nodes sha256 key run_ids ns seen') (\<lambda>rs. Inr (r # rs)))"

definition check_matches :: "string list \<Rightarrow> string list \<Rightarrow> tracing_error + unit" where
  "check_matches ids matched =
     protocol (distinct ids \<and> distinct matched \<and> set matched \<subseteq> set ids \<and> filter (\<lambda>i. i \<in> set matched) ids = matched)
       ''Trace Graph direct matches conflict with returned rows''"

text \<open>A scope error is a protocol error with the same text.\<close>

definition as_protocol :: "tracing_error + 'a \<Rightarrow> tracing_error + 'a" where
  "as_protocol r = (case r of Inl (TraceValueError m) \<Rightarrow> Inl (TraceStoreProtocolError m) | _ \<Rightarrow> r)"

definition query_records ::
  "(bytes \<Rightarrow> string) \<Rightarrow> thread_key \<Rightarrow> string list \<Rightarrow> graph_filter \<Rightarrow> int \<Rightarrow> int \<Rightarrow> time option \<Rightarrow> string option \<Rightarrow> store_state \<Rightarrow>
   tracing_error + node_record graph_page" where
  "query_records sha256 key run_ids f limit max_nodes started_at node_id st =
     bindE (require (int (length run_ids) \<le> max_graph_lineage_runs)
       (TraceQuotaExceeded ''Trace Graph lineage exceeds the supported Run count'' ''graph_lineage_runs'')) (\<lambda>_.
     bindE (mk_graph_query_request \<lparr>gq_key = key, gq_run_ids = run_ids, gq_where = f, gq_limit = limit, gq_total_limit = max_nodes,
         gq_before_started_at = started_at, gq_before_node_id = node_id\<rparr>) (\<lambda>q.
     bindE (tm_query_trace_graph sha256 q (sx_memory st)) (\<lambda>page.
     bindE (protocol (gp_key page = key) ''Trace Graph page belongs to another generation'') (\<lambda>_.
     bindE (check_matches (map gn_node_id (gp_nodes page)) (gp_matched_node_ids page)) (\<lambda>_.
     bindE (protocol (\<forall>n \<in> set (gp_nodes page). gn_run_id n \<in> set run_ids) ''Trace Graph node belongs to another Run lineage'') (\<lambda>_.
     bindE (decode_nodes sha256 key (set run_ids) (gp_nodes page) []) (\<lambda>records.
     bindE (as_protocol (validate_subagent_scopes (map (\<lambda>r. (gn_node_id r, gn_parent_subagent_id r, gn_kind r)) records))) (\<lambda>_.
     Inr \<lparr>gp_key = gp_key page, gp_as_of_seq = gp_as_of_seq page, gp_nodes = records, gp_matched_node_ids = gp_matched_node_ids page,
          gp_has_more = gp_has_more page, gp_next_started_at = gp_next_started_at page, gp_next_node_id = gp_next_node_id page,
          gp_relationship_evidence_missing = gp_relationship_evidence_missing page\<rparr>))))))))"

section \<open>Content search\<close>

definition ascii_lower :: "string \<Rightarrow> string" where
  "ascii_lower s = map (\<lambda>c. let n = of_char c :: nat in if 65 \<le> n \<and> n \<le> 90 then char_of (n + 32) else c) s"

definition contains_text :: "string \<Rightarrow> string \<Rightarrow> bool" where
  "contains_text needle s \<longleftrightarrow> (\<exists>i \<in> {0..length s}. take (length needle) (drop i s) = needle)"

text \<open>Numbers are searched as Python prints them.\<close>

fun json_search_values :: "json_value \<Rightarrow> string list" where
  "json_search_values JNull = [''null'']"
| "json_search_values (JBool b) = [if b then ''true'' else ''false'']"
| "json_search_values (JInt n) = [int_text n]"
| "json_search_values (JFloat s) = [s]"
| "json_search_values (JText s) = [s]"
| "json_search_values (JArray xs) = concat (map json_search_values xs)"
| "json_search_values (JObject kvs) = concat (map (\<lambda>(k, v). k # json_search_values v) kvs)"

definition graph_record_contains :: "(node_record \<Rightarrow> json_value list) \<Rightarrow> node_record \<Rightarrow> string \<Rightarrow> bool" where
  "graph_record_contains details record search =
     (let ascii = (\<forall>c \<in> set search. (of_char c :: nat) < 128); fold_case = (if ascii then ascii_lower else (\<lambda>s. s));
          texts = gn_name record # List.map_filter id [gn_agent_name record, gn_provider record, gn_model record] @
            concat (map json_search_values (details record))
      in \<exists>s \<in> set texts. contains_text (fold_case search) (fold_case s))"

text \<open>The parents of the selected records; the top of the stack is the head.\<close>

function add_search_parents ::
  "int \<Rightarrow> (string, node_record) dict \<Rightarrow> string option list \<Rightarrow> (string, node_record) dict \<Rightarrow> tracing_error + (string, node_record) dict" where
  "add_search_parents max_nodes records [] selected = Inr selected"
| "add_search_parents max_nodes records (None # pending) selected = add_search_parents max_nodes records pending selected"
| "add_search_parents max_nodes records (Some p # pending) selected =
     (if dget selected p \<noteq> None then add_search_parents max_nodes records pending selected
      else case dget records p of
          None \<Rightarrow> add_search_parents max_nodes records pending selected
        | Some parent \<Rightarrow>
            if max_nodes \<le> int (length selected) then
              Inl (TraceQuotaExceeded ''Trace Graph Subagent path exceeds max_total_nodes'' ''graph_total_nodes'')
            else add_search_parents max_nodes records (gn_parent_subagent_id parent # pending) (dput p parent selected))"
  by pat_completeness auto

termination
proof (relation "measures [\<lambda>(m, records, pending, selected). card (set (dkeys records) - set (dkeys selected)), \<lambda>(m, records, pending, selected). length pending]",
    goal_cases)
  case (5 max_nodes records p pending selected parent)
  have "p \<in> set (dkeys records) - set (dkeys selected)" using 5 dget_in_dkeys [of records p] by (auto simp: dget_None_iff simp del: set_map)
  then have "card (set (dkeys records) - set (dkeys selected) - {p}) < card (set (dkeys records) - set (dkeys selected))"
    by (intro card_Diff1_less) auto
  moreover have "set (dkeys (dput p parent selected)) = insert p (set (dkeys selected))" by (induction selected) auto
  then have "set (dkeys records) - set (dkeys (dput p parent selected)) = set (dkeys records) - set (dkeys selected) - {p}" by blast
  ultimately show ?case by (simp only: in_measures prod.case simp_thms)
qed auto

definition searched_records ::
  "(bytes \<Rightarrow> string) \<Rightarrow> (node_record \<Rightarrow> json_value list) \<Rightarrow> thread_key \<Rightarrow> string list \<Rightarrow> graph_filter \<Rightarrow> string \<Rightarrow> int \<Rightarrow> int \<Rightarrow>
   time option \<Rightarrow> string option \<Rightarrow> store_state \<Rightarrow> tracing_error + node_record graph_page" where
  "searched_records sha256 details key run_ids f search limit max_nodes started_at node_id st =
     bindE (query_records sha256 key run_ids (f\<lparr>gf_search := None\<rparr>) (max_nodes + 1) (max_nodes + 1) None None st) (\<lambda>candidates.
     bindE (require (\<not> gp_has_more candidates \<and> int (length (gp_matched_node_ids candidates)) \<le> max_nodes)
       (TraceQuotaExceeded ''Trace Graph content search exceeds max_total_nodes'' ''graph_search_nodes'')) (\<lambda>_.
     let records = rows_by_id (gp_nodes candidates);
         direct = filter (\<lambda>r. graph_record_contains details r search) (List.map_filter (dget records) (gp_matched_node_ids candidates))
     in bindE (before_cursor sha256 started_at node_id direct) (\<lambda>rest.
        let has_more = limit < int (length rest);
            selected = py_slice rest 0 limit;
            cursor_record = (if has_more \<and> selected \<noteq> [] then Some (last selected) else None)
        in if selected = [] then
             Inr \<lparr>gp_key = key, gp_as_of_seq = gp_as_of_seq candidates, gp_nodes = [], gp_matched_node_ids = [], gp_has_more = False,
                  gp_next_started_at = None, gp_next_node_id = None, gp_relationship_evidence_missing = gp_relationship_evidence_missing candidates\<rparr>
           else
             bindE (add_search_parents max_nodes records (rev (map gn_parent_subagent_id selected)) (rows_by_id selected)) (\<lambda>rows.
             Inr \<lparr>gp_key = key, gp_as_of_seq = gp_as_of_seq candidates,
                  gp_nodes = filter (\<lambda>r. dget rows (gn_node_id r) \<noteq> None) (gp_nodes candidates),
                  gp_matched_node_ids = map gn_node_id selected, gp_has_more = has_more,
                  gp_next_started_at = map_option gn_started_at cursor_record, gp_next_node_id = map_option gn_node_id cursor_record,
                  gp_relationship_evidence_missing = gp_relationship_evidence_missing candidates\<rparr>))))"

definition store_query_trace_graph ::
  "(bytes \<Rightarrow> string) \<Rightarrow> (node_record \<Rightarrow> json_value list) \<Rightarrow> thread_key \<Rightarrow> string list \<Rightarrow> graph_filter \<Rightarrow> int \<Rightarrow> int \<Rightarrow>
   time option \<Rightarrow> string option \<Rightarrow> store_state \<Rightarrow> tracing_error + node_record graph_page" where
  "store_query_trace_graph sha256 details key run_ids f limit max_nodes started_at node_id st =
     (case gf_search f of
        Some search \<Rightarrow> searched_records sha256 details key run_ids f search limit max_nodes started_at node_id st
      | None \<Rightarrow> query_records sha256 key run_ids f limit max_nodes started_at node_id st)"

end
