(* ===== verification/Trace_Query_Correct.thy ===== *)
theory Trace_Query_Correct
  imports Trace_Query Trace_Timeline_Correct "HOL-Library.Multiset"
begin

text \<open>
  What the graph queries return: rows in a strict order, cursors that continue where a page stopped, decoding that keeps every
  row, and Subagent paths within the limits.
\<close>

section \<open>The order of rows\<close>

lemma mset_sort_descending [simp]: "mset (sort_descending k xs) = mset xs"
  by (simp add: sort_descending_def)

lemma set_sort_descending [simp]: "set (sort_descending k xs) = set xs"
  by (simp add: sort_descending_def)

lemma length_sort_descending [simp]: "length (sort_descending k xs) = length xs"
  by (simp add: sort_descending_def)

lemma distinct_map_sort_descending: "distinct (map f (sort_descending k xs)) = distinct (map f xs)"
  by (rule mset_eq_imp_distinct_iff) simp

lemma strict_sort_descending:
  fixes k :: "'a \<Rightarrow> 'k :: linorder"
  assumes "distinct (map k xs)"
  shows "sorted_wrt (\<lambda>x y. k y < k x) (sort_descending k xs)"
proof -
  have "sorted_wrt (<) (map k (sort_key k (rev xs)))"
    using assms mset_eq_imp_distinct_iff [of "map k (sort_key k (rev xs))" "map k xs"] by (simp add: strict_sorted_iff)
  then have "sorted_wrt (\<lambda>x y. k x < k y) (sort_key k (rev xs))" by (simp add: sorted_wrt_map)
  then show ?thesis by (simp add: sort_descending_def sorted_wrt_rev)
qed

lemma sorted_sort_descending:
  fixes k :: "'a \<Rightarrow> 'k :: linorder"
  shows "sorted_wrt (\<lambda>x y. k y \<le> k x) (sort_descending k xs)"
  using sorted_sort_key [of k "rev xs"] by (simp add: sort_descending_def sorted_wrt_rev sorted_map)

text \<open>The cursor of the last row of a prefix cuts exactly this prefix off.\<close>

lemma filter_below_prefix:
  fixes k :: "'a \<Rightarrow> 'k :: linorder"
  assumes "sorted_wrt (\<lambda>x y. k y < k x) (xs @ c # ys)"
  shows "filter (\<lambda>r. k r < k c) (xs @ c # ys) = ys"
proof -
  have above: "\<forall>x \<in> set xs. k c < k x" and below: "\<forall>y \<in> set ys. k y < k c" using assms by (simp_all add: sorted_wrt_append)
  have "filter (\<lambda>r. k r < k c) xs = []" using above by (auto simp: filter_empty_conv dest: order.strict_trans)
  moreover have "filter (\<lambda>r. k r < k c) ys = ys" using below by (simp add: filter_id_conv)
  ultimately show ?thesis by simp
qed

lemma filter_below_take:
  fixes k :: "'a \<Rightarrow> 'k :: linorder"
  assumes "sorted_wrt (\<lambda>x y. k y < k x) xs" "0 < n" "n \<le> length xs"
  shows "filter (\<lambda>r. k r < k (last (take n xs))) xs = drop n xs"
proof -
  have "xs = take (n - 1) xs @ xs ! (n - 1) # drop n xs" using assms id_take_nth_drop [of "n - 1" xs] by simp
  moreover have "take n xs \<noteq> []" "length (take n xs) = n" using assms by auto
  then have "last (take n xs) = xs ! (n - 1)" using assms(2) by (simp add: last_conv_nth)
  ultimately show ?thesis using filter_below_prefix [of k "take (n - 1) xs" "xs ! (n - 1)" "drop n xs"] assms(1) by metis
qed

section \<open>Visible rows\<close>

lemma effective_node_id:
  assumes "effective_node rs = Some n" "\<forall>r \<in> set rs. revision_node_id r = i"
  shows "gn_node_id n = i"
proof -
  obtain m where m: "sort_key revision_seq rs \<noteq> []" "last (sort_key revision_seq rs) = Node m"
    "merge_revisions (List.map_filter node_of (sort_key revision_seq rs)) m = Some n"
    using assms(1) by (auto simp: effective_node_def Let_def split: if_splits graph_revision.splits)
  have "Node m \<in> set rs" using last_in_set [OF m(1)] m(2) by simp
  then have "gn_node_id m = i" using assms(2) by force
  moreover have "gn_node_id n = gn_node_id m" using m(3) by (auto simp: merge_revisions_def Let_def split: option.splits)
  ultimately show ?thesis by simp
qed

lemma map_filter_ids:
  assumes "\<And>i n. g i = Some n \<Longrightarrow> f n = i" "distinct is"
  shows "distinct (map f (List.map_filter g is)) \<and> set (map f (List.map_filter g is)) \<subseteq> set is"
  using assms(2) by (induction "is") (auto simp: List.map_filter_simps assms(1) split: option.splits)

lemma visible_ids:
  "distinct (map gn_node_id (visible_rows run_ids t)) \<and> gn_node_id ` set (visible_rows run_ids t) \<subseteq> revision_node_id ` set (dvalues (mt_graph_nodes t))"
proof -
  let ?revs = "filter (\<lambda>r. revision_run_id r \<in> set run_ids) (dvalues (mt_graph_nodes t))"
  let ?g = "\<lambda>i. effective_node (filter (\<lambda>r. revision_node_id r = i) ?revs)"
  have eq: "visible_rows run_ids t = List.map_filter ?g (fromkeys (map revision_node_id ?revs))"
    by (simp add: visible_rows_def effective_graph_nodes_def)
  have "distinct (map gn_node_id (visible_rows run_ids t)) \<and>
      set (map gn_node_id (visible_rows run_ids t)) \<subseteq> set (fromkeys (map revision_node_id ?revs))"
    unfolding eq by (rule map_filter_ids) (auto dest: effective_node_id)
  then have "distinct (map gn_node_id (visible_rows run_ids t))" "gn_node_id ` set (visible_rows run_ids t) \<subseteq> revision_node_id ` set ?revs"
    by (simp_all only: set_map set_fromkeys simp_thms)
  moreover have "revision_node_id ` set ?revs \<subseteq> revision_node_id ` set (dvalues (mt_graph_nodes t))" by auto
  ultimately show ?thesis by (simp only: order.trans simp_thms)
qed

section \<open>A page of the backend\<close>

definition ranked_rows :: "(bytes \<Rightarrow> string) \<Rightarrow> string list \<Rightarrow> graph_filter \<Rightarrow> memory_thread \<Rightarrow> graph_node list" where
  "ranked_rows sha256 run_ids f t = sort_descending (row_order sha256) (filter (graph_node_matches f) (visible_rows run_ids t))"

text \<open>No two rows of the index share the key that breaks ties between equal times.\<close>

definition keys_differ :: "(bytes \<Rightarrow> string) \<Rightarrow> memory_thread \<Rightarrow> bool" where
  "keys_differ sha256 t \<longleftrightarrow> inj_on (node_order_key sha256) (revision_node_id ` set (dvalues (mt_graph_nodes t)))"

lemma ranked_strict:
  assumes "keys_differ sha256 t"
  shows "sorted_wrt (\<lambda>x y. row_order sha256 y < row_order sha256 x) (ranked_rows sha256 run_ids f t)"
proof -
  let ?rows = "filter (graph_node_matches f) (visible_rows run_ids t)"
  have d: "distinct (map gn_node_id ?rows)" using visible_ids by (simp add: distinct_map_filter)
  have "gn_node_id ` set ?rows \<subseteq> revision_node_id ` set (dvalues (mt_graph_nodes t))" using visible_ids [of run_ids t] by auto
  then have "inj_on (node_order_key sha256) (set (map gn_node_id ?rows))" using assms inj_on_subset by (simp add: keys_differ_def) blast
  then have "distinct (map (node_order_key sha256) (map gn_node_id ?rows))" using d by (simp only: distinct_map simp_thms)
  then have "distinct (map snd (map (row_order sha256) ?rows))" by (simp add: row_order_def comp_def)
  then have "distinct (map (row_order sha256) ?rows)" by (simp only: distinct_map)
  then show ?thesis unfolding ranked_rows_def by (rule strict_sort_descending)
qed

lemma ranked_distinct: "distinct (map gn_node_id (ranked_rows sha256 run_ids f t))"
  using visible_ids by (simp add: ranked_rows_def distinct_map_sort_descending distinct_map_filter)

lemma ranked_set: "set (ranked_rows sha256 run_ids f t) = {r \<in> set (visible_rows run_ids t). graph_node_matches f r}"
  by (simp add: ranked_rows_def)

lemma matching_rows_Inr: "gf_search f = None \<Longrightarrow> matching_rows f rows = Inr (filter (graph_node_matches f) rows)"
  by (simp add: matching_rows_def)

lemma tm_query_Inr:
  assumes "tm_query_trace_graph sha256 q tm = Inr p" "gf_search (gq_where q) = None"
  obtains t rest rows where "exact_thread (gq_key q) tm = Inr t"
    "before_cursor sha256 (gq_before_started_at q) (gq_before_node_id q) (ranked_rows sha256 (gq_run_ids q) (gq_where q) t) = Inr rest"
    "gp_matched_node_ids p = map gn_node_id (take (nat (gq_limit q)) rest)" "gp_has_more p = (gq_limit q < int (length rest))"
    "gp_has_more p \<Longrightarrow> 0 < gq_limit q \<Longrightarrow> gp_next_started_at p = Some (gn_started_at (last (take (nat (gq_limit q)) rest))) \<and>
       gp_next_node_id p = Some (gn_node_id (last (take (nat (gq_limit q)) rest)))"
    "\<exists>pending. scope_levels 65 1 (gq_total_limit q) (rows_by_id (visible_rows (gq_run_ids q) t)) (set (gq_run_ids q)) pending
       (rows_by_id (take (nat (gq_limit q)) rest)) = Inr rows"
    "stored_graph_nodes (mt_events t) (sort_descending (row_order sha256) (dvalues rows)) = Inr (gp_nodes p)"
proof -
  obtain t rest rows nodes where t: "exact_thread (gq_key q) tm = Inr t"
    and rest: "before_cursor sha256 (gq_before_started_at q) (gq_before_node_id q)
      (sort_descending (row_order sha256) (filter (graph_node_matches (gq_where q)) (visible_rows (gq_run_ids q) t))) = Inr rest"
    and rows: "\<exists>pending. scope_levels 65 1 (gq_total_limit q) (rows_by_id (visible_rows (gq_run_ids q) t)) (set (gq_run_ids q)) pending
       (rows_by_id (take (nat (gq_limit q)) rest)) = Inr rows"
    and nodes: "stored_graph_nodes (mt_events t) (sort_descending (row_order sha256) (dvalues rows)) = Inr nodes"
    and p: "p = \<lparr>gp_key = gq_key q, gp_as_of_seq = th_next_seq (mt_state t) - 1, gp_nodes = nodes,
        gp_matched_node_ids = map gn_node_id (take (nat (gq_limit q)) rest), gp_has_more = gq_limit q < int (length rest),
        gp_next_started_at = map_option gn_started_at (if gq_limit q < int (length rest) \<and> take (nat (gq_limit q)) rest \<noteq> []
          then Some (last (take (nat (gq_limit q)) rest)) else None),
        gp_next_node_id = map_option gn_node_id (if gq_limit q < int (length rest) \<and> take (nat (gq_limit q)) rest \<noteq> []
          then Some (last (take (nat (gq_limit q)) rest)) else None),
        gp_relationship_evidence_missing = (\<exists>row \<in> set (visible_rows (gq_run_ids q) t). gn_link_issue row \<noteq> None)\<rparr>"
    using assms(1) by (simp only: tm_query_trace_graph_def Let_def bindE_Inr_iff matching_rows_Inr [OF assms(2)] sum.inject) blast
  show ?thesis by (rule that [OF t _ _ _ _ rows]) (use rest nodes in \<open>auto simp: p ranked_rows_def\<close>)
qed

section \<open>The number of rows\<close>

lemma dput_length_le: "length (dput k v d) \<le> Suc (length d)"
  by (induction d) auto

lemma rows_by_id_length: "length (rows_by_id rows) \<le> length rows"
proof (induction rows rule: rev_induct)
  case (snoc r rows)
  then show ?case using dput_length_le [of "gn_node_id r" r "rows_by_id rows"] by (simp add: rows_by_id_def)
qed (simp add: rows_by_id_def)

lemma admit_parents_length:
  "admit_parents m ps rows next = Inr (rows', next') \<Longrightarrow> int (length rows) \<le> m \<Longrightarrow> int (length rows') \<le> m"
proof (induction m ps rows "next" rule: admit_parents.induct)
  case (2 m p ps rows next_ids)
  show ?case
  proof (cases "dget rows (gn_node_id p) = None")
    case True
    then have "\<not> m \<le> int (length rows)" using 2(3) by auto
    then show ?thesis using 2 True dput_length_le [of "gn_node_id p" p rows] by (auto simp: Let_def split: if_splits)
  qed (use 2 in auto)
qed simp

lemma scope_levels_length:
  "scope_levels n depth m candidates run_ids pending rows = Inr rows' \<Longrightarrow> int (length rows) \<le> m \<Longrightarrow> int (length rows') \<le> m"
proof (induction n depth m candidates run_ids pending rows rule: scope_levels.induct)
  case (2 n depth m candidates run_ids pending rows)
  show ?case
  proof (cases "pending = []")
    case False
    then obtain rows1 next_ids where admitted: "admit_parents m (pending_parents candidates run_ids pending) rows [] = Inr (rows1, next_ids)"
      "scope_levels n (depth + 1) m candidates run_ids next_ids rows1 = Inr rows'"
      using 2(2) by (auto simp: Let_def bindE_Inr_iff split: if_splits)
    moreover have "int (length rows1) \<le> m" by (rule admit_parents_length [OF admitted(1) 2(3)])
    moreover have "\<not> (max_subagent_scope_depth < depth \<and> pending_parents candidates run_ids pending \<noteq> [])"
      using 2(2) False by (simp add: Let_def split: if_splits)
    ultimately show ?thesis using 2(1) False by blast
  qed (use 2 in simp)
qed simp

section \<open>Decoding keeps the rows\<close>

lemma truncate_extend [simp]: "graph_node.truncate (graph_node.extend r m) = graph_node.truncate r"
  by (simp add: graph_node.defs)

lemma truncate_node [simp]: "graph_node.truncate r = (r :: graph_node)"
  by (simp add: graph_node.defs)

lemma stored_row: "stored_memory_graph_node events row = Inr n \<Longrightarrow> graph_node.truncate n = row"
  by (cases "located_event events (Some (gn_started_seq row))"; cases "located_event events (Some (gn_updated_seq row))")
    (auto simp: bindE_Inr_iff stored_memory_graph_node_def split: option.split_asm)

lemma stored_rows: "stored_graph_nodes events rows = Inr nodes \<Longrightarrow> map graph_node.truncate nodes = rows"
  by (induction rows arbitrary: nodes) (auto simp: bindE_Inr_iff stored_row)

lemma decoded_row: "decode_node sha256 key run_ids n seen = Inr (r, seen') \<Longrightarrow> graph_node.truncate r = graph_node.truncate n"
  by (auto simp: bindE_Inr_iff decode_node_def)

lemma decoded_rows: "decode_nodes sha256 key run_ids nodes seen = Inr records \<Longrightarrow> map graph_node.truncate records = map graph_node.truncate nodes"
  by (induction nodes arbitrary: seen records) (auto simp: bindE_Inr_iff decoded_row)

lemma truncated_fields:
  assumes "map graph_node.truncate xs = map graph_node.truncate ys"
  shows "map gn_node_id xs = map gn_node_id ys" "map gn_run_id xs = map gn_run_id ys"
proof -
  have "map gn_node_id (map graph_node.truncate xs) = map gn_node_id (map graph_node.truncate ys)"
    "map gn_run_id (map graph_node.truncate xs) = map gn_run_id (map graph_node.truncate ys)" by (simp_all only: assms)
  then show "map gn_node_id xs = map gn_node_id ys" "map gn_run_id xs = map gn_run_id ys" by (simp_all add: graph_node.defs comp_def)
qed

lemma row_order_truncate: "row_order sha256 (graph_node.truncate r) = row_order sha256 r"
  by (simp add: row_order_def graph_node.defs)

definition newest_first :: "(bytes \<Rightarrow> string) \<Rightarrow> 'a graph_node_scheme list \<Rightarrow> bool" where
  "newest_first sha256 rows \<longleftrightarrow> sorted_wrt (\<lambda>x y. row_order sha256 y \<le> row_order sha256 x) rows"

lemma newest_first_truncate: "newest_first sha256 (map graph_node.truncate rows) = newest_first sha256 rows"
  by (simp add: newest_first_def sorted_wrt_map row_order_truncate)

lemma newest_first_sorted: "newest_first sha256 (sort_descending (row_order sha256) rows)"
  unfolding newest_first_def by (rule sorted_sort_descending)

lemma newest_first_filter: "newest_first sha256 rows \<Longrightarrow> newest_first sha256 (filter P rows)"
  by (simp add: newest_first_def sorted_wrt_filter)

section \<open>A decoded page\<close>

lemma all_demanded_Inr: "all_demanded checks = Inr u \<longleftrightarrow> (\<forall>c \<in> set checks. fst c)"
  by (induction checks rule: all_demanded.induct) (auto simp: bindE_Inr_iff)

lemma as_protocol_Inr: "as_protocol r = Inr u \<longleftrightarrow> r = Inr u"
  by (auto simp: as_protocol_def split: sum.splits tracing_error.splits)

lemma query_records_Inr:
  assumes "query_records sha256 key run_ids f limit max_nodes started_at node_id st = Inr p"
  obtains q page where "gq_key q = key" "gq_run_ids q = run_ids" "gq_where q = f" "gq_limit q = limit" "gq_total_limit q = max_nodes"
    "gq_before_started_at q = started_at" "gq_before_node_id q = node_id" "1 \<le> limit" "limit \<le> max_nodes" "gf_search f = None"
    "tm_query_trace_graph sha256 q (sx_memory st) = Inr page" "gp_matched_node_ids p = gp_matched_node_ids page"
    "gp_has_more p = gp_has_more page" "gp_next_started_at p = gp_next_started_at page" "gp_next_node_id p = gp_next_node_id page"
    "map graph_node.truncate (gp_nodes p) = map graph_node.truncate (gp_nodes page)"
    "distinct (map gn_node_id (gp_nodes p))" "set (gp_matched_node_ids p) \<subseteq> gn_node_id ` set (gp_nodes p)"
    "filter (\<lambda>i. i \<in> set (gp_matched_node_ids p)) (map gn_node_id (gp_nodes p)) = gp_matched_node_ids p"
    "gn_run_id ` set (gp_nodes p) \<subseteq> set run_ids"
    "validate_subagent_scopes (map (\<lambda>r. (gn_node_id r, gn_parent_subagent_id r, gn_kind r)) (gp_nodes p)) = Inr ()"
proof -
  let ?q = "\<lparr>gq_key = key, gq_run_ids = run_ids, gq_where = f, gq_limit = limit, gq_total_limit = max_nodes,
         gq_before_started_at = started_at, gq_before_node_id = node_id\<rparr>"
  obtain q page records where q: "mk_graph_query_request ?q = Inr q" and page: "tm_query_trace_graph sha256 q (sx_memory st) = Inr page"
    and ok: "check_matches (map gn_node_id (gp_nodes page)) (gp_matched_node_ids page) = Inr ()" "\<forall>n \<in> set (gp_nodes page). gn_run_id n \<in> set run_ids"
      "validate_subagent_scopes (map (\<lambda>r. (gn_node_id r, gn_parent_subagent_id r, gn_kind r)) records) = Inr ()"
    and records: "decode_nodes sha256 key (set run_ids) (gp_nodes page) [] = Inr records"
    and p: "p = \<lparr>gp_key = gp_key page, gp_as_of_seq = gp_as_of_seq page, gp_nodes = records, gp_matched_node_ids = gp_matched_node_ids page,
          gp_has_more = gp_has_more page, gp_next_started_at = gp_next_started_at page, gp_next_node_id = gp_next_node_id page,
          gp_relationship_evidence_missing = gp_relationship_evidence_missing page\<rparr>"
    using assms unfolding query_records_def bindE_Inr_iff require_Inr_iff as_protocol_Inr by auto
  note same = decoded_rows [OF records]
  note ids = truncated_fields [OF same]
  have "q = ?q" "1 \<le> limit" "limit \<le> max_nodes" "gf_search f = None"
    using q by (auto simp: mk_graph_query_request_def bindE_Inr_iff all_demanded_Inr)
  moreover have "gn_run_id ` set records \<subseteq> set run_ids" using ok(2) ids(2) by (metis image_subset_iff set_map)
  moreover have "distinct (map gn_node_id records)" "set (gp_matched_node_ids page) \<subseteq> gn_node_id ` set records"
    "filter (\<lambda>i. i \<in> set (gp_matched_node_ids page)) (map gn_node_id records) = gp_matched_node_ids page"
    using ok(1) unfolding check_matches_def require_Inr_iff ids(1) [symmetric] by (simp_all only: set_map)
  ultimately show ?thesis using that [of ?q page] page same ok(3) by (simp only: p graph_query_request.simps graph_page.simps)
qed

section \<open>Content search\<close>

lemma rows_by_id_get: "distinct (map gn_node_id rows) \<Longrightarrow> dget (rows_by_id rows) k = Some r \<longleftrightarrow> r \<in> set rows \<and> gn_node_id r = k"
proof (induction rows rule: rev_induct)
  case (snoc x rows)
  have "dget (rows_by_id (rows @ [x])) k = (if k = gn_node_id x then Some x else dget (rows_by_id rows) k)"
    by (simp add: rows_by_id_def dget_dput)
  moreover have "gn_node_id x \<notin> gn_node_id ` set rows" "dget (rows_by_id rows) k = Some r \<longleftrightarrow> r \<in> set rows \<and> gn_node_id r = k" using snoc by auto
  ultimately show ?case by (auto simp: image_iff)
qed (simp add: rows_by_id_def)

lemma search_step:
  assumes "add_search_parents m records (Some p # pending) sel = Inr sel'"
  obtains "add_search_parents m records pending sel = Inr sel'" "dget sel p \<noteq> None \<or> dget records p = None"
  | parent where "dget records p = Some parent" "dget sel p = None" "int (length sel) < m"
      "add_search_parents m records (gn_parent_subagent_id parent # pending) (dput p parent sel) = Inr sel'"
  using assms by (simp split: if_splits option.splits)

text \<open>What holds of the pending identifiers and the rows found so far, to the end of the walk.\<close>

definition walk_invariant :: "int \<Rightarrow> (string, node_record) dict \<Rightarrow> (string option set \<Rightarrow> (string, node_record) dict \<Rightarrow> bool) \<Rightarrow> bool" where
  "walk_invariant m records I \<longleftrightarrow>
     (\<forall>p P s. I (insert p P) s \<longrightarrow> (\<forall>q. p = Some q \<longrightarrow> dget s q \<noteq> None \<or> dget records q = None) \<longrightarrow> I P s) \<and>
     (\<forall>p P s parent. I (insert (Some p) P) s \<longrightarrow> dget records p = Some parent \<longrightarrow> dget s p = None \<longrightarrow> int (length s) < m \<longrightarrow>
        I (insert (gn_parent_subagent_id parent) P) (dput p parent s))"

lemma search_parents_invariant:
  "add_search_parents m records pending sel = Inr sel' \<Longrightarrow> walk_invariant m records I \<Longrightarrow> I (set pending) sel \<Longrightarrow> I {} sel'"
proof (induction m records pending sel rule: add_search_parents.induct)
  case (2 m records pending sel)
  then have "I (set pending) sel" unfolding walk_invariant_def by (metis list.simps(15) option.distinct(1))
  then show ?case using 2 by simp
next
  case (3 m records p pending sel)
  from 3(4) show ?case
  proof (cases rule: search_step)
    case 1
    then have "I (set pending) sel" using 3(5,6) unfolding walk_invariant_def by (metis list.simps(15) option.inject)
    then show ?thesis using 1 3(1,2,5) by blast
  next
    case (2 parent)
    then have "I (set (gn_parent_subagent_id parent # pending)) (dput p parent sel)" using 3(5,6) by (simp add: walk_invariant_def)
    moreover have "\<not> m \<le> int (length sel)" using 2 by simp
    ultimately show ?thesis using 2 3(3) [of parent] 3(5) by simp
  qed
qed simp

lemma search_parents_sub:
  assumes "add_search_parents m records pending sel = Inr sel'" "\<And>k v. dget sel k = Some v \<Longrightarrow> dget records k = Some v"
    "dget sel' k = Some v"
  shows "dget records k = Some v"
proof -
  have "\<forall>k v. dget sel' k = Some v \<longrightarrow> dget records k = Some v"
    by (rule search_parents_invariant [OF assms(1), of "\<lambda>P s. \<forall>k v. dget s k = Some v \<longrightarrow> dget records k = Some v"])
      (use assms(2) in \<open>auto simp: walk_invariant_def dget_dput\<close>)
  then show ?thesis using assms(3) by blast
qed

lemma search_parents_length:
  assumes "add_search_parents m records pending sel = Inr sel'" "int (length sel) \<le> m"
  shows "int (length sel') \<le> m"
proof (rule search_parents_invariant [OF assms(1), of "\<lambda>P s. int (length s) \<le> m"])
  show "walk_invariant m records (\<lambda>P s. int (length s) \<le> m)"
    by (auto simp: walk_invariant_def) (metis dput_length_le int_ops(4) add.commute order.trans zle_add1_eq_le zless_imp_add1_zle of_nat_mono)
qed (rule assms(2))

lemma search_parents_keeps:
  assumes "add_search_parents m records pending sel = Inr sel'" "dget sel k \<noteq> None"
  shows "dget sel' k \<noteq> None"
  by (rule search_parents_invariant [OF assms(1), of "\<lambda>P s. dget s k \<noteq> None"]) (use assms(2) in \<open>auto simp: walk_invariant_def dget_dput\<close>)

text \<open>Every parent of a row found, if it is a candidate, is found or pending.\<close>

definition parents_in :: "(string, node_record) dict \<Rightarrow> string option set \<Rightarrow> (string, node_record) dict \<Rightarrow> bool" where
  "parents_in records pending sel \<longleftrightarrow>
     (\<forall>k r q. dget sel k = Some r \<and> gn_parent_subagent_id r = Some q \<and> dget records q \<noteq> None \<longrightarrow> dget sel q \<noteq> None \<or> Some q \<in> pending)"

lemma search_parents_closed:
  assumes "add_search_parents m records pending sel = Inr sel'" "parents_in records (set pending) sel"
  shows "parents_in records {} sel'"
proof (rule search_parents_invariant [OF assms(1), of "parents_in records"])
  show "walk_invariant m records (parents_in records)"
    unfolding walk_invariant_def
  proof (intro conjI allI impI)
    fix p :: "string option" and P s
    assume "parents_in records (insert p P) s" "\<forall>q. p = Some q \<longrightarrow> dget s q \<noteq> None \<or> dget records q = None"
    then show "parents_in records P s" unfolding parents_in_def by (metis insert_iff)
  next
    fix p P s parent
    assume "parents_in records (insert (Some p) P) s"
    then show "parents_in records (insert (gn_parent_subagent_id parent) P) (dput p parent s)" by (auto simp: parents_in_def dget_dput)
  qed
qed (rule assms(2))

end
