(* ===== verification/Trace_Query_Props.thy ===== *)
theory Trace_Query_Props
  imports Trace_Query_Correct Trace_Store_Props "HOL-Library.Sublist"
begin

text \<open>
  What a reader of the graph index relies on: every page is newest first, closed under Subagent parents and within its limits, and
  following the cursors ends and visits every matching row exactly once, newest first.
\<close>

section \<open>Closed pages\<close>

lemma scopes_closed:
  assumes "validate_subagent_scopes (map (\<lambda>r. (gn_node_id r, gn_parent_subagent_id r, gn_kind r)) rs) = Inr ()"
    "distinct (map gn_node_id rs)" "r \<in> set rs" "gn_parent_subagent_id r = Some q"
  shows "\<exists>s \<in> set rs. gn_node_id s = q \<and> gn_kind s = Subagent"
proof -
  let ?scopes = "map (\<lambda>r. (gn_node_id r, gn_parent_subagent_id r, gn_kind r)) rs"
  have here: "dget ?scopes (gn_node_id r) = Some (Some q, gn_kind r)"
    by (rule map_of_is_SomeI) (use assms(2-4) in \<open>auto simp: comp_def\<close>)
  then have "gn_node_id r \<in> set (dkeys ?scopes)" by (rule dget_in_dkeys)
  then obtain depth d where "depth_at ?scopes depth (gn_node_id r) d" using scopes_bounded [OF assms(1)] by blast
  then obtain p where "dget ?scopes q = Some (p, Subagent)" using here by (auto simp: depth_at_def)
  then show ?thesis by (force dest: map_of_SomeD)
qed

lemma records_limits:
  assumes "query_records sha256 key run_ids f limit max_nodes started_at node_id st = Inr p"
  shows "int (length (gp_nodes p)) \<le> max_nodes \<and> int (length (gp_matched_node_ids p)) \<le> limit \<and> newest_first sha256 (gp_nodes p)"
proof -
  from assms show ?thesis
  proof (rule query_records_Inr)
    fix q page
    assume q: "gq_limit q = limit" "gq_total_limit q = max_nodes" "gq_where q = f" "1 \<le> limit" "limit \<le> max_nodes" "gf_search f = None"
      "tm_query_trace_graph sha256 q (sx_memory st) = Inr page" "gp_matched_node_ids p = gp_matched_node_ids page"
      and same: "map graph_node.truncate (gp_nodes p) = map graph_node.truncate (gp_nodes page)"
    show ?thesis
    proof (rule tm_query_Inr [OF q(7)])
      fix t rest rows
      assume matched: "gp_matched_node_ids page = map gn_node_id (take (nat (gq_limit q)) (rest :: graph_node list))"
      assume levels: "\<exists>pending. scope_levels 65 1 (gq_total_limit q) (rows_by_id (visible_rows (gq_run_ids q) t)) (set (gq_run_ids q)) pending
          (rows_by_id (take (nat (gq_limit q)) rest)) = Inr rows"
        and nodes: "stored_graph_nodes (mt_events t) (sort_descending (row_order sha256) (dvalues rows)) = Inr (gp_nodes page)"
      have "int (length (rows_by_id (take (nat (gq_limit q)) rest))) \<le> max_nodes"
        using rows_by_id_length [of "take (nat (gq_limit q)) rest"] q(1,4,5) by (auto simp: le_nat_iff)
      then have "int (length rows) \<le> max_nodes" using levels scope_levels_length q(2) by blast
      moreover have "length (gp_nodes page) = length rows" using stored_rows [OF nodes, THEN arg_cong [of _ _ length]] by simp
      moreover have "length (gp_nodes p) = length (gp_nodes page)" using same by (rule map_eq_imp_length_eq)
      moreover have "newest_first sha256 (gp_nodes p)"
        using same stored_rows [OF nodes] newest_first_sorted [of sha256 "dvalues rows"]
          newest_first_truncate [of sha256 "gp_nodes p"] by simp
      moreover have "int (length (gp_matched_node_ids p)) \<le> limit" using matched q(1,4,8) by auto
      ultimately show ?thesis by simp
    qed (use q(3,6) in simp)
  qed
qed

definition closed_page :: "(bytes \<Rightarrow> string) \<Rightarrow> string list \<Rightarrow> int \<Rightarrow> int \<Rightarrow> node_record graph_page \<Rightarrow> bool" where
  "closed_page sha256 run_ids limit max_nodes p \<longleftrightarrow>
     distinct (map gn_node_id (gp_nodes p)) \<and> int (length (gp_nodes p)) \<le> max_nodes \<and>
     (0 \<le> limit \<longrightarrow> int (length (gp_matched_node_ids p)) \<le> limit) \<and> newest_first sha256 (gp_nodes p) \<and>
     filter (\<lambda>i. i \<in> set (gp_matched_node_ids p)) (map gn_node_id (gp_nodes p)) = gp_matched_node_ids p \<and>
     (\<forall>r \<in> set (gp_nodes p). gn_run_id r \<in> set run_ids \<and>
        (\<forall>q. gn_parent_subagent_id r = Some q \<longrightarrow> (\<exists>s \<in> set (gp_nodes p). gn_node_id s = q \<and> gn_kind s = Subagent)))"

lemma records_closed:
  assumes "query_records sha256 key run_ids f limit max_nodes started_at node_id st = Inr p"
  shows "closed_page sha256 run_ids limit max_nodes p"
  using assms
proof (rule query_records_Inr)
  assume "distinct (map gn_node_id (gp_nodes p))" "gn_run_id ` set (gp_nodes p) \<subseteq> set run_ids"
    "filter (\<lambda>i. i \<in> set (gp_matched_node_ids p)) (map gn_node_id (gp_nodes p)) = gp_matched_node_ids p"
    "validate_subagent_scopes (map (\<lambda>r. (gn_node_id r, gn_parent_subagent_id r, gn_kind r)) (gp_nodes p)) = Inr ()"
  then show ?thesis using records_limits [OF assms] scopes_closed [of "gp_nodes p"] by (auto simp: closed_page_def)
qed

lemma closed_nodes_number: "distinct (map gn_node_id ns) \<Longrightarrow> (\<And>n. n \<in> set ns \<Longrightarrow> dget rows (gn_node_id n) \<noteq> None) \<Longrightarrow> length ns \<le> length rows"
proof -
  assume d: "distinct (map gn_node_id ns)" and found: "\<And>n. n \<in> set ns \<Longrightarrow> dget rows (gn_node_id n) \<noteq> None"
  have "set (map gn_node_id ns) \<subseteq> set (dkeys rows)" using found dget_in_dkeys [of rows] by fastforce
  then have "card (set (map gn_node_id ns)) \<le> card (set (dkeys rows))" by (rule card_mono [OF finite_set])
  also have "\<dots> \<le> length rows" using card_length [of "dkeys rows"] by simp
  finally show ?thesis using distinct_card [OF d] by simp
qed

lemma subseq_kept: "subseq xs ys \<Longrightarrow> distinct ys \<Longrightarrow> filter (\<lambda>y. y \<in> set xs) ys = xs"
proof (induction rule: list_emb.induct)
  case (list_emb_Cons xs ys y)
  then have "set xs \<subseteq> set ys" by (auto dest: list_emb_set)
  then show ?case using list_emb_Cons by auto
next
  case (list_emb_Cons2 x y xs ys)
  then have "filter (\<lambda>z. z = y \<or> z \<in> set xs) ys = filter (\<lambda>z. z \<in> set xs) ys" by (intro filter_cong) auto
  then show ?case using list_emb_Cons2 by simp
qed simp

lemma before_cursor_subseq: "before_cursor sha256 started_at node_id rows = Inr rest \<Longrightarrow> subseq rest rows"
  by (auto simp: before_cursor_def split: option.splits)

lemma slice_subseq: "subseq (py_slice xs 0 n) xs"
  by (simp add: py_slice_def py_bound_def Let_def prefix_imp_subseq [OF take_is_prefix])

text \<open>The direct candidates in the order of the page.\<close>

lemma matched_records:
  assumes "distinct (map gn_node_id ns)" "filter (\<lambda>i. i \<in> set ids) (map gn_node_id ns) = ids"
  shows "List.map_filter (dget (rows_by_id ns)) ids = filter (\<lambda>n. gn_node_id n \<in> set ids) ns"
proof -
  have get: "dget (rows_by_id ns) (gn_node_id n) = Some n" if "n \<in> set ns" for n using rows_by_id_get [OF assms(1)] that by simp
  have ids: "ids = map gn_node_id (filter (\<lambda>n. gn_node_id n \<in> set ids) ns)" using assms(2) by (simp add: filter_map comp_def)
  have "List.map_filter (dget (rows_by_id ns)) (map gn_node_id ms) = ms" if "set ms \<subseteq> set ns" for ms
    using that by (induction ms) (simp_all add: List.map_filter_simps get)
  then show ?thesis by (subst ids) auto
qed

text \<open>What a search selects of a closed page of candidates, and the parents added to it.\<close>

lemma selection_closed:
  assumes c: "closed_page sha256 run_ids m n c" and sel: "subseq sel (gp_nodes c)" "int (length sel) \<le> max_nodes"
    "0 \<le> limit \<longrightarrow> int (length sel) \<le> limit"
    and walk: "add_search_parents max_nodes (rows_by_id (gp_nodes c)) (rev (map gn_parent_subagent_id sel)) (rows_by_id sel) = Inr rows"
    and p: "gp_nodes p = filter (\<lambda>r. dget rows (gn_node_id r) \<noteq> None) (gp_nodes c)" "gp_matched_node_ids p = map gn_node_id sel"
  shows "closed_page sha256 run_ids limit max_nodes p"
proof -
  let ?records = "rows_by_id (gp_nodes c)"
  have d: "distinct (map gn_node_id (gp_nodes c))" using c by (simp add: closed_page_def)
  have is_record: "dget ?records (gn_node_id r) = Some r" if "r \<in> set (gp_nodes c)" for r using rows_by_id_get [OF d] that by simp
  have ids: "subseq (map gn_node_id sel) (map gn_node_id (gp_nodes c))" using sel(1) by (rule subseq_map)
  have dsel: "distinct (map gn_node_id sel)" using subseq_kept [OF ids d] distinct_filter [OF d] by metis
  have sub: "set sel \<subseteq> set (gp_nodes c)" using sel(1) by (auto dest: list_emb_set)
  have "int (length (rows_by_id sel)) \<le> max_nodes" using rows_by_id_length [of sel] sel(2) by simp
  then have few: "int (length rows) \<le> max_nodes" by (rule search_parents_length [OF walk])
  have "dget ?records k = Some v" if "dget (rows_by_id sel) k = Some v" for k v
    using that sub is_record by (auto simp: rows_by_id_get [OF dsel])
  then have found: "dget ?records k = Some v" if "dget rows k = Some v" for k v using search_parents_sub [OF walk _ that] by blast
  have "parents_in ?records (set (rev (map gn_parent_subagent_id sel))) (rows_by_id sel)"
    by (force simp: parents_in_def rows_by_id_get [OF dsel])
  then have parents: "parents_in ?records {} rows" by (rule search_parents_closed [OF walk])
  have kept: "dget rows i \<noteq> None" if "i \<in> set (map gn_node_id sel)" for i
    using that rows_by_id_get [OF dsel] by (intro search_parents_keeps [OF walk]) auto
  have above: "\<exists>s \<in> set (gp_nodes p). gn_node_id s = q \<and> gn_kind s = Subagent" if r: "r \<in> set (gp_nodes p)" "gn_parent_subagent_id r = Some q" for r q
  proof -
    have r': "r \<in> set (gp_nodes c)" "dget rows (gn_node_id r) = Some r" using r(1) found is_record by (fastforce simp: p(1))+
    then obtain s where s: "s \<in> set (gp_nodes c)" "gn_node_id s = q" "gn_kind s = Subagent" using c r(2) by (auto simp: closed_page_def)
    then have "dget rows q \<noteq> None" using parents r' r(2) is_record [OF s(1)] unfolding parents_in_def by blast
    then show ?thesis using s by (auto simp: p(1))
  qed
  have "filter (\<lambda>i. i \<in> set (map gn_node_id sel)) (map gn_node_id (gp_nodes p)) =
      filter (\<lambda>i. i \<in> set (map gn_node_id sel)) (map gn_node_id (gp_nodes c))"
    using kept by (auto simp: p(1) filter_map comp_def intro!: arg_cong [of _ _ "map gn_node_id"] filter_cong)
  also have "\<dots> = map gn_node_id sel" by (rule subseq_kept [OF ids d])
  finally have order: "filter (\<lambda>i. i \<in> set (map gn_node_id sel)) (map gn_node_id (gp_nodes p)) = map gn_node_id sel" .
  have dp: "distinct (map gn_node_id (gp_nodes p))" using d by (simp add: p(1) distinct_map_filter)
  then have "length (gp_nodes p) \<le> length rows" by (rule closed_nodes_number) (simp add: p(1))
  then have size: "int (length (gp_nodes p)) \<le> max_nodes" using few by simp
  have order_kept: "newest_first sha256 (gp_nodes p)" using c by (simp add: closed_page_def p(1) newest_first_filter)
  have runs: "gn_run_id r \<in> set run_ids" if "r \<in> set (gp_nodes p)" for r using c that by (simp add: closed_page_def p(1))
  show ?thesis
    unfolding closed_page_def p(2) using dp size sel(3) order_kept order runs above by simp
qed

lemma searched_closed:
  assumes "searched_records sha256 details key run_ids f search limit max_nodes started_at node_id st = Inr p"
  shows "closed_page sha256 run_ids limit max_nodes p"
proof -
  obtain c where c: "query_records sha256 key run_ids (f\<lparr>gf_search := None\<rparr>) (max_nodes + 1) (max_nodes + 1) None None st = Inr c"
    and few: "int (length (gp_matched_node_ids c)) \<le> max_nodes"
    using assms unfolding searched_records_def bindE_Inr_iff require_Inr_iff by blast
  let ?ns = "gp_nodes c" and ?records = "rows_by_id (gp_nodes c)"
  let ?direct = "filter (\<lambda>r. graph_record_contains details r search) (List.map_filter (dget ?records) (gp_matched_node_ids c))"
  obtain rest where rest: "before_cursor sha256 started_at node_id ?direct = Inr rest"
    and page: "if py_slice rest 0 limit = [] then gp_nodes p = [] \<and> gp_matched_node_ids p = []
      else \<exists>rows. add_search_parents max_nodes ?records (rev (map gn_parent_subagent_id (py_slice rest 0 limit))) (rows_by_id (py_slice rest 0 limit)) = Inr rows \<and>
        gp_nodes p = filter (\<lambda>r. dget rows (gn_node_id r) \<noteq> None) ?ns \<and> gp_matched_node_ids p = map gn_node_id (py_slice rest 0 limit)"
    using assms c by (auto simp: searched_records_def Let_def bindE_Inr_iff split: if_splits)
  show ?thesis
  proof (cases "py_slice rest 0 limit = []")
    case True
    then show ?thesis using page few by (simp add: closed_page_def newest_first_def)
  next
    case False
    then obtain rows where rows: "add_search_parents max_nodes ?records (rev (map gn_parent_subagent_id (py_slice rest 0 limit)))
          (rows_by_id (py_slice rest 0 limit)) = Inr rows"
        "gp_nodes p = filter (\<lambda>r. dget rows (gn_node_id r) \<noteq> None) ?ns" "gp_matched_node_ids p = map gn_node_id (py_slice rest 0 limit)"
      using page by auto
    have "closed_page sha256 run_ids (max_nodes + 1) (max_nodes + 1) c" by (rule records_closed [OF c])
    then have direct: "?direct = filter (\<lambda>r. graph_record_contains details r search) (filter (\<lambda>n. gn_node_id n \<in> set (gp_matched_node_ids c)) ?ns)"
      and ids: "map gn_node_id (filter (\<lambda>n. gn_node_id n \<in> set (gp_matched_node_ids c)) ?ns) = gp_matched_node_ids c"
      by (simp_all add: closed_page_def matched_records filter_map comp_def)
    have slice: "subseq (py_slice rest 0 limit) ?direct" using slice_subseq before_cursor_subseq [OF rest] by (rule subseq_order.trans)
    moreover have "subseq ?direct ?ns" unfolding direct by (rule subseq_order.trans [OF subseq_filter_left subseq_filter_left])
    ultimately have "subseq (py_slice rest 0 limit) ?ns" by (rule subseq_order.trans)
    moreover have "length (py_slice rest 0 limit) \<le> length ?direct" using slice by (rule list_emb_length)
    then have "length (py_slice rest 0 limit) \<le> length (gp_matched_node_ids c)"
      using ids [THEN arg_cong [of _ _ length]] length_filter_le le_trans unfolding direct by (metis length_map)
    moreover have "0 \<le> limit \<longrightarrow> int (length (py_slice rest 0 limit)) \<le> limit"
      by (auto simp: py_slice_def py_bound_def Let_def)
    ultimately show ?thesis using few by (intro selection_closed [OF records_closed [OF c] _ _ _ rows]) auto
  qed
qed

text \<open>C37: Every page of a graph query, with or without a content search, is within both limits, ordered, and shows whole
  Subagent paths: its nodes are distinct, belong to the requested Runs, number at most the maximum and come newest first (by start
  time, ties by the hash of the node identifier); the direct matches are at most as many as the page limit (when that is not
  negative, which a query without a search refuses) and appear in the order of the nodes; and the parent of every node is a
  Subagent of the same page.\<close>
theorem graph_page_closed:
  assumes "store_query_trace_graph sha256 details key run_ids f limit max_nodes started_at node_id st = Inr p"
  shows "distinct (map gn_node_id (gp_nodes p)) \<and> int (length (gp_nodes p)) \<le> max_nodes \<and>
     (0 \<le> limit \<longrightarrow> int (length (gp_matched_node_ids p)) \<le> limit) \<and>
     sorted_wrt (\<lambda>x y. row_order sha256 y \<le> row_order sha256 x) (gp_nodes p) \<and>
     filter (\<lambda>i. i \<in> set (gp_matched_node_ids p)) (map gn_node_id (gp_nodes p)) = gp_matched_node_ids p \<and>
     (\<forall>r \<in> set (gp_nodes p). gn_run_id r \<in> set run_ids \<and>
        (\<forall>q. gn_parent_subagent_id r = Some q \<longrightarrow> (\<exists>s \<in> set (gp_nodes p). gn_node_id s = q \<and> gn_kind s = Subagent)))"
proof -
  have "closed_page sha256 run_ids limit max_nodes p"
    using assms records_closed searched_closed by (auto simp: store_query_trace_graph_def split: option.splits)
  then show ?thesis unfolding closed_page_def newest_first_def .
qed

section \<open>Following the cursors\<close>

text \<open>A client of the store, written for the statement below (the source leaves the loop to the caller of a query): it asks for
  page after page with the cursor of the page before until a page has no more. \<open>None\<close> means that it still was not done after
  \<open>fuel\<close> pages; an error of a page ends it.\<close>

fun read_graph_pages ::
  "nat \<Rightarrow> (bytes \<Rightarrow> string) \<Rightarrow> (node_record \<Rightarrow> json_value list) \<Rightarrow> thread_key \<Rightarrow> string list \<Rightarrow> graph_filter \<Rightarrow> int \<Rightarrow> int \<Rightarrow>
   time option \<Rightarrow> string option \<Rightarrow> store_state \<Rightarrow> (tracing_error + string list) option" where
  "read_graph_pages 0 sha256 details key run_ids f limit max_nodes started_at node_id st = None"
| "read_graph_pages (Suc n) sha256 details key run_ids f limit max_nodes started_at node_id st =
     (case store_query_trace_graph sha256 details key run_ids f limit max_nodes started_at node_id st of
        Inl e \<Rightarrow> Some (Inl e)
      | Inr p \<Rightarrow>
          if gp_has_more p then
            map_option (\<lambda>r. bindE r (\<lambda>ids. Inr (gp_matched_node_ids p @ ids)))
              (read_graph_pages n sha256 details key run_ids f limit max_nodes (gp_next_started_at p) (gp_next_node_id p) st)
          else Some (Inr (gp_matched_node_ids p)))"

lemma page_of_records:
  assumes "query_records sha256 key run_ids f limit max_nodes started_at node_id st = Inr p" "exact_thread key (sx_memory st) = Inr t"
    "before_cursor sha256 started_at node_id (ranked_rows sha256 run_ids f t) = Inr rest"
  shows "1 \<le> limit \<and> gp_matched_node_ids p = map gn_node_id (take (nat limit) rest) \<and> gp_has_more p = (limit < int (length rest)) \<and>
    (gp_has_more p \<longrightarrow> gp_next_started_at p = Some (gn_started_at (last (take (nat limit) rest))) \<and>
       gp_next_node_id p = Some (gn_node_id (last (take (nat limit) rest))))"
  using assms(1)
proof (rule query_records_Inr)
  fix q page
  assume q: "gq_key q = key" "gq_run_ids q = run_ids" "gq_where q = f" "gq_limit q = limit" "gq_before_started_at q = started_at"
    "gq_before_node_id q = node_id" "1 \<le> limit" "gf_search f = None" "tm_query_trace_graph sha256 q (sx_memory st) = Inr page"
    "gp_matched_node_ids p = gp_matched_node_ids page" "gp_has_more p = gp_has_more page" "gp_next_started_at p = gp_next_started_at page"
    "gp_next_node_id p = gp_next_node_id page"
  show ?thesis by (rule tm_query_Inr [OF q(9)]) (use q assms(2,3) in auto)
qed

lemma cursor_continues:
  assumes "keys_differ sha256 t" "0 < k" "k \<le> length (ranked_rows sha256 run_ids f t)"
  defines "c \<equiv> last (take k (ranked_rows sha256 run_ids f t))"
  shows "before_cursor sha256 (Some (gn_started_at c)) (Some (gn_node_id c)) (ranked_rows sha256 run_ids f t) = Inr (drop k (ranked_rows sha256 run_ids f t))"
  using filter_below_take [OF ranked_strict [OF assms(1)] assms(2,3)] by (simp add: before_cursor_def row_order_def c_def)

lemma pages_from:
  assumes "exact_thread key (sx_memory st) = Inr t" "keys_differ sha256 t" "gf_search f = None"
  shows "before_cursor sha256 started_at node_id (ranked_rows sha256 run_ids f t) = Inr (drop k (ranked_rows sha256 run_ids f t)) \<Longrightarrow>
    length (ranked_rows sha256 run_ids f t) - k < n \<Longrightarrow>
    read_graph_pages n sha256 details key run_ids f limit max_nodes started_at node_id st =
      Some (Inr (map gn_node_id (drop k (ranked_rows sha256 run_ids f t)))) \<or>
    (\<exists>s i e. store_query_trace_graph sha256 details key run_ids f limit max_nodes s i st = Inl e \<and>
      read_graph_pages n sha256 details key run_ids f limit max_nodes started_at node_id st = Some (Inl e))"
proof (induction n arbitrary: started_at node_id k)
  case (Suc n)
  let ?R = "ranked_rows sha256 run_ids f t" and ?l = "nat limit"
  show ?case
  proof (cases "store_query_trace_graph sha256 details key run_ids f limit max_nodes started_at node_id st")
    case (Inl e)
    then show ?thesis by auto
  next
    case (Inr p)
    then have p: "query_records sha256 key run_ids f limit max_nodes started_at node_id st = Inr p"
      using assms(3) by (simp add: store_query_trace_graph_def)
    note page = page_of_records [OF p assms(1) Suc.prems(1)]
    show ?thesis
    proof (cases "gp_has_more p")
      case False
      then show ?thesis using page Inr by simp
    next
      case True
      then have l: "0 < ?l" "k + ?l < length ?R" using page by (auto simp: less_diff_conv)
      have c: "last (take ?l (drop k ?R)) = last (take (k + ?l) ?R)" using l by (simp add: take_add)
      have "before_cursor sha256 (gp_next_started_at p) (gp_next_node_id p) ?R = Inr (drop (k + ?l) ?R)"
        using page True cursor_continues [OF assms(2), of "k + ?l" run_ids f] l c by simp
      moreover have "length ?R - (k + ?l) < n" using Suc.prems(2) l by linarith
      ultimately consider
        (ids) "read_graph_pages n sha256 details key run_ids f limit max_nodes (gp_next_started_at p) (gp_next_node_id p) st =
          Some (Inr (map gn_node_id (drop (k + ?l) ?R)))"
        | (error) s i e where "store_query_trace_graph sha256 details key run_ids f limit max_nodes s i st = Inl e"
          "read_graph_pages n sha256 details key run_ids f limit max_nodes (gp_next_started_at p) (gp_next_node_id p) st = Some (Inl e)"
        using Suc.IH by blast
      then show ?thesis
      proof cases
        case ids
        have "gp_matched_node_ids p @ map gn_node_id (drop (k + ?l) ?R) = map gn_node_id (take ?l (drop k ?R) @ drop ?l (drop k ?R))"
          using page by (simp add: add.commute)
        then show ?thesis using Inr True ids by (simp only: append_take_drop_id) simp
      next
        case error
        then show ?thesis using Inr True by auto
      qed
    qed
  qed
qed simp

text \<open>C36: A reader that follows the cursors of a metadata query from the first page on is done, whatever the page size, after at
  most one page more than there are visible nodes: either a page raised, and that error is what it ends with, or a last page had
  no more, and then it saw every matching node of the requested Runs exactly once, newest first. The hash that breaks ties
  between equal start times is assumed to tell the indexed nodes apart. The reader is a client written for this statement; the
  pages and cursors are those of the store.\<close>
theorem graph_pages_complete:
  assumes "exact_thread key (sx_memory st) = Inr t" "keys_differ sha256 t" "gf_search f = None" "length (visible_rows run_ids t) < n"
  shows "(\<exists>ids. read_graph_pages n sha256 details key run_ids f limit max_nodes None None st = Some (Inr ids) \<and>
      distinct ids \<and> set ids = gn_node_id ` {r \<in> set (visible_rows run_ids t). graph_node_matches f r} \<and>
      ids = map gn_node_id (sort_descending (row_order sha256) (filter (graph_node_matches f) (visible_rows run_ids t)))) \<or>
    (\<exists>started_at node_id e. store_query_trace_graph sha256 details key run_ids f limit max_nodes started_at node_id st = Inl e \<and>
      read_graph_pages n sha256 details key run_ids f limit max_nodes None None st = Some (Inl e))"
proof -
  have "length (ranked_rows sha256 run_ids f t) \<le> length (visible_rows run_ids t)" by (simp add: ranked_rows_def)
  then have "length (ranked_rows sha256 run_ids f t) - 0 < n" using assms(4) by simp
  from pages_from [OF assms(1-3) _ this, where started_at = None and node_id = None]
  show ?thesis using ranked_distinct [of sha256 run_ids f t] by (simp add: before_cursor_def ranked_rows_def)
qed

section \<open>An example\<close>

text \<open>A Subagent and a Tool inside it, indexed from the two events of a small Run.\<close>

definition q_sha :: "bytes \<Rightarrow> string" where
  "q_sha b = map (\<lambda>w. char_of (uint w)) b"

definition q_row :: "string \<Rightarrow> string option \<Rightarrow> node_kind \<Rightarrow> int \<Rightarrow> graph_node" where
  "q_row i parent kind seq =
     \<lparr>gn_node_id = i, gn_parent_subagent_id = parent, gn_model_call_id = None, gn_model_call_seq = None, gn_kind = kind, gn_status = Running,
      gn_name = ''x'', gn_run_id = ''r'', gn_graph_namespace = [], gn_agent_name = None, gn_provider = None, gn_model = None,
      gn_started_at = 1, gn_first_output_at = None, gn_completed_at = None, gn_started_seq = seq, gn_updated_seq = seq,
      gn_request_seq = None, gn_result_seq = None, gn_failure_seq = None, gn_link_issue = None\<rparr>"

definition q_event :: "string \<Rightarrow> int \<Rightarrow> memory_event" where
  "q_event i seq = memory_event_of (w_event i seq (w_fact RpStarted None)) (encode ''x'') (q_sha (encode ''x''))"

definition q_thread :: memory_thread where
  "q_thread = (w_thread [q_event ''e0'' 1, q_event ''e1'' 2] (w_writer_row 60 False 2))
     \<lparr>mt_graph_nodes := [((''a'', ''r''), Node (q_row ''a'' None Subagent 1)), ((''b'', ''r''), Node (q_row ''b'' (Some ''a'') Tool 2))]\<rparr>"

definition q_store :: store_state where
  "q_store = \<lparr>sx_memory = [((''n'', ''t''), q_thread)], sx_follow_changes = []\<rparr>"

definition q_filter :: "string option \<Rightarrow> graph_filter" where
  "q_filter search = \<lparr>gf_kinds = {}, gf_statuses = {}, gf_model_call_id = None, gf_agent_names = {}, gf_providers = {}, gf_models = {},
     gf_graph_namespaces = {}, gf_search = search, gf_started_after = None, gf_started_before = None\<rparr>"

definition q_query :: "string option \<Rightarrow> tracing_error + node_record graph_page" where
  "q_query search = store_query_trace_graph q_sha (\<lambda>r. []) w_key [''r''] (q_filter search) 1 5 None None q_store"

definition q_page :: "node_record graph_page" where
  "q_page = (case q_query (Some ''X'') of Inr p \<Rightarrow> p)"

lemma q_page: "q_query (Some ''X'') = Inr q_page"
proof -
  have "case q_query (Some ''X'') of Inr p \<Rightarrow> True | Inl e \<Rightarrow> False" by code_simp
  then show ?thesis by (simp add: q_page_def split: sum.splits)
qed

theorem graph_page_closed_witness:
  "map gn_node_id (gp_nodes q_page) = [''b'', ''a''] \<and> gp_matched_node_ids q_page = [''b''] \<and> distinct (map gn_node_id (gp_nodes q_page))"
proof -
  have "map gn_node_id (gp_nodes q_page) = [''b'', ''a'']" "gp_matched_node_ids q_page = [''b'']" by code_simp+
  then show ?thesis using graph_page_closed [OF q_page [unfolded q_query_def]] by blast
qed

lemma q_keys_differ: "keys_differ q_sha q_thread"
proof -
  have "revision_node_id ` set (dvalues (mt_graph_nodes q_thread)) = {''a'', ''b''}" by (simp add: q_thread_def w_thread_def q_row_def)
  moreover have "node_order_key q_sha ''a'' \<noteq> node_order_key q_sha ''b''" by code_simp
  ultimately show ?thesis by (auto simp: keys_differ_def)
qed

theorem graph_pages_complete_witness:
  "read_graph_pages 3 q_sha (\<lambda>r. []) w_key [''r''] (q_filter None) 1 5 None None q_store = Some (Inr [''b'', ''a'']) \<and>
   set [''b'', ''a''] = gn_node_id ` {r \<in> set (visible_rows [''r''] q_thread). graph_node_matches (q_filter None) r} \<and>
   read_graph_pages 1 q_sha (\<lambda>r. []) w_key [''r''] (q_filter None) 1 5 None None q_store = None"
proof -
  have t: "exact_thread w_key (sx_memory q_store) = Inr q_thread"
    by (simp add: exact_thread_def memory_slot_def q_store_def q_thread_def w_thread_def w_key_def)
  have few: "length (visible_rows [''r''] q_thread) < 3" by code_simp
  have ids: "read_graph_pages 3 q_sha (\<lambda>r. []) w_key [''r''] (q_filter None) 1 5 None None q_store = Some (Inr [''b'', ''a''])"
    "read_graph_pages 1 q_sha (\<lambda>r. []) w_key [''r''] (q_filter None) 1 5 None None q_store = None" by code_simp+
  have "gf_search (q_filter None) = None" by (simp add: q_filter_def)
  from graph_pages_complete [OF t q_keys_differ this few, of "\<lambda>r. []" 1 5] ids show ?thesis by simp
qed

end
