(* ===== verification/Trace_Redaction.thy ===== *)
theory Trace_Redaction
  imports Trace_Base
begin

text \<open>
  \<open>redaction.py\<close>: what is removed from a JSON value before the tracing package may keep it. Credentials and private reasoning are
  removed before and after the redactor of the application, which is an argument: it returns a value or raises. JSON values
  are finite and unshared, so that detaching a value is the identity, and a redactor cannot change its input or return anything
  but JSON. The attachment descriptor of \<open>tinkerfin_contracts/media.py\<close> is validated by pydantic; its lax conversion to an integer is
  an argument.
\<close>

section \<open>Traversals\<close>

fun traverse :: "('a \<Rightarrow> 'e + 'b) \<Rightarrow> 'a list \<Rightarrow> 'e + 'b list" where
  "traverse f [] = Inr []"
| "traverse f (x # xs) = bindE (f x) (\<lambda>y. bindE (traverse f xs) (\<lambda>ys. Inr (y # ys)))"

lemma traverse_cong [fundef_cong]: "xs = ys \<Longrightarrow> (\<And>x. x \<in> set ys \<Longrightarrow> f x = g x) \<Longrightarrow> traverse f xs = traverse g ys"
  by (induction ys arbitrary: xs) (auto cong: bindE_cong)

section \<open>Contexts\<close>

datatype content_kind = CkMessage | CkModelRequest | CkModelResponse | CkToolArguments | CkToolResult | CkState | CkInteraction | CkPlan | CkCustom

record redaction_context =
  rc_content_kind :: content_kind
  rc_component_name :: "string option"

definition mk_redaction_context :: "redaction_context \<Rightarrow> tracing_error + redaction_context" where
  "mk_redaction_context c =
     bindE (demand (\<forall>n \<in> set_option (rc_component_name c). n \<noteq> [] \<and> canonical n \<and> length n \<le> 1024)
       ''component_name must be canonical bounded text or None'') (\<lambda>_. Inr c)"

section \<open>Credential keys\<close>

definition credential_keys :: "string list" where
  "credential_keys =
     [''access_token'', ''auth_token'', ''api_key'', ''apikey'', ''authorization'', ''client_secret'', ''cookie'', ''id_token'', ''password'',
      ''private_key'', ''proxy_authorization'', ''refresh_token'', ''secret'', ''secret_key'', ''session_token'', ''set_cookie'', ''token'',
      ''x_api_key'']"

definition char_between :: "char \<Rightarrow> char \<Rightarrow> char \<Rightarrow> bool" where
  "char_between a b c \<longleftrightarrow> (of_char a :: nat) \<le> of_char c \<and> (of_char c :: nat) \<le> of_char b"

definition upper_char :: "char \<Rightarrow> bool" where
  "upper_char c \<longleftrightarrow> char_between CHR ''A'' CHR ''Z'' c"

definition word_char :: "char \<Rightarrow> bool" where
  "word_char c \<longleftrightarrow> char_between CHR ''a'' CHR ''z'' c \<or> char_between CHR ''0'' CHR ''9'' c"

text \<open>An underscore before an upper-case letter that follows a lower-case letter or a digit.\<close>

fun separated :: "string \<Rightarrow> string" where
  "separated (x # y # zs) = (if word_char x \<and> upper_char y then x # CHR ''_'' # separated (y # zs) else x # separated (y # zs))"
| "separated s = s"

text \<open>
  \<open>casefold\<close>, as far as the letters a to z are concerned: the sharp s becomes two letters, other letters with accents become letters
  outside of a to z, which are replaced below.
\<close>

definition fold_char :: "char \<Rightarrow> string" where
  "fold_char c = (if upper_char c then [char_of ((of_char c :: nat) + 32)] else if (of_char c :: nat) = 223 then ''ss'' else [c])"

text \<open>Runs of other characters become one underscore.\<close>

fun underscored :: "bool \<Rightarrow> string \<Rightarrow> string" where
  "underscored gap [] = []"
| "underscored gap (c # cs) =
     (if word_char c then c # underscored False cs
      else if gap then underscored True cs
      else CHR ''_'' # underscored True cs)"

definition strip_char :: "char \<Rightarrow> string \<Rightarrow> string" where
  "strip_char c s = rev (dropWhile (\<lambda>x. x = c) (rev (dropWhile (\<lambda>x. x = c) s)))"

definition credential_key :: "string \<Rightarrow> string" where
  "credential_key value = strip_char CHR ''_'' (underscored False (concat (map fold_char (separated value))))"

definition ends_with :: "string \<Rightarrow> string \<Rightarrow> bool" where
  "ends_with s t \<longleftrightarrow> length t \<le> length s \<and> drop (length s - length t) s = t"

definition is_credential_key :: "string \<Rightarrow> bool" where
  "is_credential_key value =
     (let normalized = credential_key value
      in list_ex (\<lambda>credential. normalized = credential \<or> ends_with normalized (CHR ''_'' # credential)) credential_keys)"

section \<open>The framework passes\<close>

definition redacted_marker :: json_value where
  "redacted_marker = JObject [(''$type'', JText ''redacted'')]"

definition credential_pair :: "json_value list \<Rightarrow> bool" where
  "credential_pair xs \<longleftrightarrow> length xs = 2 \<and> (case hd xs of JText k \<Rightarrow> is_credential_key k | _ \<Rightarrow> False)"

fun redact_credentials :: "json_value \<Rightarrow> json_value" where
  "redact_credentials (JArray xs) =
     (if credential_pair xs then JArray [hd xs, redacted_marker] else JArray (map redact_credentials xs))"
| "redact_credentials (JObject kvs) =
     JObject (map (\<lambda>(k, v). (k, if is_credential_key k then redacted_marker else redact_credentials v)) kvs)"
| "redact_credentials v = v"

lemma size_list_filter [termination_simp]: "size_list f (filter P xs) \<le> size_list f xs"
  by (induction xs) auto

fun is_object :: "json_value \<Rightarrow> bool" where
  "is_object (JObject kvs) = True"
| "is_object v = False"

fun entries :: "json_value \<Rightarrow> (string \<times> json_value) list" where
  "entries (JObject kvs) = kvs"
| "entries v = []"

definition without_key :: "string \<Rightarrow> json_value \<Rightarrow> json_value" where
  "without_key k v = (case v of JObject kvs \<Rightarrow> JObject (filter (\<lambda>(m, _). m \<noteq> k) kvs) | _ \<Rightarrow> v)"

lemma size_without_key [termination_simp]: "size (without_key k v) \<le> size v"
  by (cases v) (auto simp: without_key_def size_list_filter)

lemma size_entry: "(k, v) \<in> set kvs \<Longrightarrow> size v \<le> size_list (size_prod (\<lambda>_. 0) size) kvs"
  by (induction kvs) auto

function strip_private_reasoning :: "json_value \<Rightarrow> json_value" where
  "strip_private_reasoning (JArray xs) = JArray (map strip_private_reasoning xs)"
| "strip_private_reasoning (JObject kvs) =
     JObject (map (\<lambda>(k, v). (k, strip_private_reasoning
       (if k = ''additional_kwargs'' \<and> is_object v then without_key ''reasoning_content'' v else v))) kvs)"
| "strip_private_reasoning JNull = JNull"
| "strip_private_reasoning (JBool b) = JBool b"
| "strip_private_reasoning (JInt n) = JInt n"
| "strip_private_reasoning (JFloat t) = JFloat t"
| "strip_private_reasoning (JText t) = JText t"
  by pat_completeness auto

termination
  by (relation "measure size")
    (auto simp: size_list_estimation less_Suc_eq_le size_list_estimation' size_entry order.trans [OF size_without_key size_entry])

section \<open>Attachments\<close>

record attachment =
  at_id :: string
  at_name :: string
  at_mime_type :: string
  at_size_bytes :: int

definition text_field :: "string \<Rightarrow> nat \<Rightarrow> (string \<times> json_value) list \<Rightarrow> string option" where
  "text_field k n kvs = (case dget kvs k of Some (JText s) \<Rightarrow> if text_within n s then Some s else None | _ \<Rightarrow> None)"

text \<open>\<open>model_validate\<close>: exactly the four fields, each in its range.\<close>

definition validate_attachment :: "(json_value \<Rightarrow> int option) \<Rightarrow> json_value \<Rightarrow> attachment option" where
  "validate_attachment to_int v =
     (case v of
        JObject kvs \<Rightarrow>
          (case (text_field ''id'' 128 kvs, text_field ''name'' 255 kvs, text_field ''mime_type'' 128 kvs, Option.bind (dget kvs ''size_bytes'') to_int) of
             (Some i, Some n, Some mime, Some bytes_n) \<Rightarrow>
               if 0 \<le> bytes_n \<and> set (dkeys kvs) \<subseteq> {''id'', ''name'', ''mime_type'', ''size_bytes''}
               then Some \<lparr>at_id = i, at_name = n, at_mime_type = mime, at_size_bytes = bytes_n\<rparr> else None
           | _ \<Rightarrow> None)
      | _ \<Rightarrow> None)"

definition attachment_is_image :: "attachment \<Rightarrow> bool" where
  "attachment_is_image a \<longleftrightarrow> take 6 (at_mime_type a) = ''image/''"

definition content_block :: "attachment \<Rightarrow> json_value" where
  "content_block a =
     JObject [(''type'', JText (if attachment_is_image a then ''image'' else ''file'')), (''file_id'', JText (at_id a)),
       (''mime_type'', JText (at_mime_type a)),
       (''extras'', JObject [(''attachment'', JObject [(''id'', JText (at_id a)), (''name'', JText (at_name a)),
          (''mime_type'', JText (at_mime_type a)), (''size_bytes'', JInt (at_size_bytes a))])])]"

text \<open>The descriptor of an image block that carries one.\<close>

definition attached :: "(string \<times> json_value) list \<Rightarrow> json_value option" where
  "attached kvs =
     (if dget kvs ''type'' = Some (JText ''image_url'')
      then (case dget kvs ''extras'' of Some (JObject extras) \<Rightarrow> dget extras ''attachment'' | _ \<Rightarrow> None) else None)"

fun restore_attachments :: "(json_value \<Rightarrow> int option) \<Rightarrow> json_value \<Rightarrow> tracing_error + json_value" where
  "restore_attachments to_int (JArray xs) = bindE (traverse (restore_attachments to_int) xs) (\<lambda>ys. Inr (JArray ys))"
| "restore_attachments to_int (JObject kvs) =
     (case attached kvs of
        Some descriptor \<Rightarrow>
          (case validate_attachment to_int descriptor of
             Some a \<Rightarrow> Inr (content_block a)
           | None \<Rightarrow> Inl (TraceCaptureRejected ''Trace attachment metadata is invalid''))
      | None \<Rightarrow> bindE (traverse (\<lambda>(k, v). bindE (restore_attachments to_int v) (\<lambda>w. Inr (k, w))) kvs) (\<lambda>ws. Inr (JObject ws)))"
| "restore_attachments to_int v = Inr v"

section \<open>Redactors\<close>

type_synonym redactor = "redaction_context \<Rightarrow> json_value \<Rightarrow> tracing_error + json_value"

definition apply_redactor :: "redactor \<Rightarrow> redaction_context \<Rightarrow> json_value \<Rightarrow> tracing_error + json_value" where
  "apply_redactor redactor c v =
     (case redactor c v of
        Inr w \<Rightarrow> Inr w
      | Inl (TraceCaptureRejected m) \<Rightarrow> Inl (TraceCaptureRejected m)
      | Inl e \<Rightarrow> Inl (TraceCaptureRejected ''Trace business redaction failed''))"

definition mk_composite :: "redactor list \<Rightarrow> tracing_error + redactor list" where
  "mk_composite rs = bindE (demand (rs \<noteq> []) ''CompositeRedactor requires at least one Redactor'') (\<lambda>_. Inr rs)"

fun composite_redact :: "redactor list \<Rightarrow> redaction_context \<Rightarrow> json_value \<Rightarrow> tracing_error + json_value" where
  "composite_redact [] c current = Inr current"
| "composite_redact (r # rs) c current = bindE (apply_redactor r c current) (composite_redact rs c)"

definition framework_passes :: "(json_value \<Rightarrow> int option) \<Rightarrow> json_value \<Rightarrow> tracing_error + json_value" where
  "framework_passes to_int v =
     bindE (restore_attachments to_int v) (\<lambda>w. Inr (strip_private_reasoning (redact_credentials w)))"

definition secure_redact ::
  "(json_value \<Rightarrow> int option) \<Rightarrow> redactor option \<Rightarrow> redaction_context \<Rightarrow> json_value \<Rightarrow> tracing_error + json_value" where
  "secure_redact to_int redactor c v =
     bindE (framework_passes to_int v) (\<lambda>safe.
     case redactor of
       None \<Rightarrow> Inr safe
     | Some r \<Rightarrow> bindE (apply_redactor r c safe) (framework_passes to_int))"

section \<open>Pointers\<close>

fun escapes_ok :: "string \<Rightarrow> bool" where
  "escapes_ok [] = True"
| "escapes_ok (c # cs) =
     (if c \<noteq> CHR ''~'' then escapes_ok cs
      else case cs of [] \<Rightarrow> False | d # ds \<Rightarrow> d \<in> {CHR ''0'', CHR ''1''} \<and> escapes_ok ds)"

definition is_canonical_pointer :: "string \<Rightarrow> bool" where
  "is_canonical_pointer path \<longleftrightarrow> path = [] \<or> (hd path = CHR ''/'' \<and> escapes_ok path)"

fun split_slashes :: "string \<Rightarrow> string list" where
  "split_slashes [] = [[]]"
| "split_slashes (c # cs) =
     (if c = CHR ''/'' then [] # split_slashes cs
      else case split_slashes cs of [] \<Rightarrow> [[c]] | p # ps \<Rightarrow> (c # p) # ps)"

text \<open>\<open>replace\<close> of a tilde and the character \<open>d\<close> by \<open>r\<close>.\<close>

fun unescape :: "char \<Rightarrow> char \<Rightarrow> string \<Rightarrow> string" where
  "unescape d r (x # y # zs) = (if x = CHR ''~'' \<and> y = d then r # unescape d r zs else x # unescape d r (y # zs))"
| "unescape d r s = s"

definition pointer_components :: "string \<Rightarrow> string list" where
  "pointer_components path = map (\<lambda>c. unescape CHR ''0'' CHR ''~'' (unescape CHR ''1'' CHR ''/'' c)) (tl (split_slashes path))"

definition is_array_index :: "string \<Rightarrow> bool" where
  "is_array_index s \<longleftrightarrow> s = ''0'' \<or> (s \<noteq> [] \<and> char_between CHR ''1'' CHR ''9'' (hd s) \<and> list_all (char_between CHR ''0'' CHR ''9'') s)"

definition decimal :: "string \<Rightarrow> nat" where
  "decimal s = foldl (\<lambda>n c. 10 * n + ((of_char c :: nat) - 48)) 0 s"

text \<open>The item a component names: an entry of an object or a position of an array.\<close>

fun replace_pointer :: "string list \<Rightarrow> json_value \<Rightarrow> json_value" where
  "replace_pointer [] v = v"
| "replace_pointer (c # rest) (JObject kvs) =
     (case dget kvs c of
        None \<Rightarrow> JObject kvs
      | Some v \<Rightarrow> JObject (dput c (if rest = [] then redacted_marker else replace_pointer rest v) kvs))"
| "replace_pointer (c # rest) (JArray xs) =
     (if is_array_index c \<and> decimal c < length xs
      then JArray (xs[decimal c := (if rest = [] then redacted_marker else replace_pointer rest (xs ! decimal c))])
      else JArray xs)"
| "replace_pointer (c # rest) v = v"

definition path_depth :: "string \<Rightarrow> nat \<times> string" where
  "path_depth path = (length (filter (\<lambda>c. c = CHR ''/'') path), path)"

definition redact_json_paths :: "string list \<Rightarrow> json_value \<Rightarrow> tracing_error + json_value" where
  "redact_json_paths paths v =
     bindE (demand (list_all is_canonical_pointer paths) ''paths must contain canonical JSON Pointers'') (\<lambda>_.
     bindE (demand (distinct paths) ''paths must be unique'') (\<lambda>_.
     if [] \<in> set paths then
       bindE (demand (length paths = 1) ''the root path must be used alone'') (\<lambda>_. Inr redacted_marker)
     else Inr (foldl (\<lambda>current path. replace_pointer (pointer_components path) current) v (sort_key path_depth paths))))"

end
