(* ===== verification/Trace_Capture.thy ===== *)
theory Trace_Capture
  imports Trace_Redaction Trace_Json
begin

text \<open>
  \<open>capture.py\<close>: what the tracing package keeps of a payload: the capture settings of Tools, the policy that resolves them by name, and the
  pipeline that redacts a value, checks the shapes later stages rely on and retains it within a byte budget.
\<close>

section \<open>Settings of Tools\<close>

definition check_paths :: "string list \<Rightarrow> tracing_error + unit" where
  "check_paths paths =
     bindE (demand (list_all is_canonical_pointer paths) ''Tool capture paths must be canonical JSON Pointers'') (\<lambda>_.
     bindE (demand (distinct paths) ''Tool capture paths must be unique'') (\<lambda>_.
     demand ([] \<in> set paths \<longrightarrow> length paths = 1) ''The root Tool capture path must be used alone''))"

record tool_capture_rule =
  tr_tool_name :: string
  tr_argument_paths :: "string list"
  tr_result_paths :: "string list"
  tr_include_review_description :: bool

definition mk_tool_capture_rule :: "tool_capture_rule \<Rightarrow> tracing_error + tool_capture_rule" where
  "mk_tool_capture_rule r =
     bindE (demand (text_within 1024 (tr_tool_name r)) ''tool_name out of range'') (\<lambda>_.
     bindE (check_paths (tr_argument_paths r)) (\<lambda>_.
     bindE (check_paths (tr_result_paths r)) (\<lambda>_. Inr r)))"

datatype capture_mode = FullContent | MetadataOnly | SelectedContent | CaptureDisabled

record tool_trace_capture =
  tc_mode :: capture_mode
  tc_argument_paths :: "string list"
  tc_result_paths :: "string list"
  tc_include_review_description :: bool

definition mk_tool_trace_capture :: "tool_trace_capture \<Rightarrow> tracing_error + tool_trace_capture" where
  "mk_tool_trace_capture c =
     bindE (check_paths (tc_argument_paths c)) (\<lambda>_.
     bindE (check_paths (tc_result_paths c)) (\<lambda>_.
     bindE (demand (tc_mode c = SelectedContent \<or> (tc_argument_paths c = [] \<and> tc_result_paths c = []))
       ''only selected_content accepts Tool capture paths'') (\<lambda>_.
     bindE (demand (tc_mode c \<in> {MetadataOnly, CaptureDisabled} \<longrightarrow> \<not> tc_include_review_description c)
       ''metadata-only or disabled Tool capture cannot retain review text'') (\<lambda>_. Inr c))))"

definition plain_capture :: "capture_mode \<Rightarrow> tool_trace_capture" where
  "plain_capture mode =
     \<lparr>tc_mode = mode, tc_argument_paths = [], tc_result_paths = [], tc_include_review_description = (mode = FullContent)\<rparr>"

definition selected_content :: "string list \<Rightarrow> string list \<Rightarrow> bool \<Rightarrow> tracing_error + tool_trace_capture" where
  "selected_content argument_paths result_paths review =
     mk_tool_trace_capture
       \<lparr>tc_mode = SelectedContent, tc_argument_paths = argument_paths, tc_result_paths = result_paths, tc_include_review_description = review\<rparr>"

section \<open>The policy\<close>

record capture_policy =
  cp_include_error_messages :: bool
  cp_default_tool_capture :: tool_trace_capture
  cp_tool_overrides :: "(string \<times> tool_trace_capture) list"
  cp_tool_rules :: "tool_capture_rule list"

definition mk_capture_policy :: "capture_policy \<Rightarrow> tracing_error + capture_policy" where
  "mk_capture_policy p =
     (let names = map fst (cp_tool_overrides p); rule_names = map tr_tool_name (cp_tool_rules p)
      in bindE (demand (list_all (text_within 1024) names) ''Tool trace override names must be non-empty and bounded'') (\<lambda>_.
         bindE (demand (distinct names) ''Tool trace overrides must use unique Tool names'') (\<lambda>_.
         bindE (demand (distinct rule_names) ''Tool capture rules must use unique Tool names'') (\<lambda>_.
         bindE (demand (set rule_names \<inter> set names = {}) ''a Tool cannot use both a capture rule and a trace override'') (\<lambda>_. Inr p)))))"

definition public_safe :: "tool_capture_rule list \<Rightarrow> bool \<Rightarrow> tracing_error + capture_policy" where
  "public_safe rules error_messages =
     mk_capture_policy
       \<lparr>cp_include_error_messages = error_messages, cp_default_tool_capture = plain_capture MetadataOnly, cp_tool_overrides = [], cp_tool_rules = rules\<rparr>"

definition public_history :: "(string, tool_trace_capture) dict \<Rightarrow> bool \<Rightarrow> tracing_error + capture_policy" where
  "public_history overrides error_messages =
     mk_capture_policy
       \<lparr>cp_include_error_messages = error_messages, cp_default_tool_capture = plain_capture FullContent, cp_tool_overrides = overrides,
        cp_tool_rules = []\<rparr>"

definition tool_capture :: "capture_policy \<Rightarrow> string \<Rightarrow> tracing_error + tool_trace_capture" where
  "tool_capture p tool_name =
     (case dget (cp_tool_overrides p) tool_name of
        Some override \<Rightarrow> Inr override
      | None \<Rightarrow>
          (case find (\<lambda>r. tr_tool_name r = tool_name) (cp_tool_rules p) of
             Some rule \<Rightarrow> selected_content (tr_argument_paths rule) (tr_result_paths rule) (tr_include_review_description rule)
           | None \<Rightarrow> Inr (cp_default_tool_capture p)))"

definition traces_tool :: "capture_policy \<Rightarrow> string \<Rightarrow> tracing_error + bool" where
  "traces_tool p tool_name = bindE (tool_capture p tool_name) (\<lambda>c. Inr (tc_mode c \<noteq> CaptureDisabled))"

definition captures_review_description :: "capture_policy \<Rightarrow> string \<Rightarrow> tracing_error + bool" where
  "captures_review_description p tool_name = bindE (tool_capture p tool_name) (\<lambda>c. Inr (tc_include_review_description c))"

section \<open>Shapes that redaction must keep\<close>

abbreviation refuse :: "bool \<Rightarrow> string \<Rightarrow> tracing_error + unit" where
  "refuse b message \<equiv> require b (TraceCaptureRejected message)"

fun array_items :: "json_value option \<Rightarrow> json_value list option" where
  "array_items (Some (JArray xs)) = Some xs"
| "array_items v = None"

text \<open>\<open>get\<close> gives None for a missing key and for a null.\<close>

definition json_get :: "json_value \<Rightarrow> string \<Rightarrow> json_value" where
  "json_get v k = (case dget (entries v) k of None \<Rightarrow> JNull | Some w \<Rightarrow> w)"

fun check_messages :: "(string \<Rightarrow> int option) \<Rightarrow> json_value list \<Rightarrow> json_value list \<Rightarrow> tracing_error + unit" where
  "check_messages integral (x # xs) (y # ys) =
     bindE (refuse (is_object x \<and> is_object y) ''Model request redaction must preserve message objects'') (\<lambda>_.
     bindE (refuse (py_equal integral (json_get y ''messageType'') (json_get x ''messageType'')) ''Model request redaction changed a message type'') (\<lambda>_.
     check_messages integral xs ys))"
| "check_messages integral xs ys = Inr ()"

definition validate_model_request_shape :: "(string \<Rightarrow> int option) \<Rightarrow> json_value \<Rightarrow> json_value \<Rightarrow> tracing_error + unit" where
  "validate_model_request_shape integral source safe =
     bindE (refuse (is_object source \<and> is_object safe) ''Model request redaction must return an object'') (\<lambda>_.
     case (array_items (dget (entries source) ''messages''), array_items (dget (entries safe) ''messages'')) of
       (Some xs, Some ys) \<Rightarrow>
         bindE (refuse (length xs = length ys) ''Model request redaction changed message order'') (\<lambda>_. check_messages integral xs ys)
     | _ \<Rightarrow> Inl (TraceCaptureRejected ''Model request redaction must preserve messages''))"

fun check_reviews :: "(string \<Rightarrow> int option) \<Rightarrow> json_value list \<Rightarrow> json_value list \<Rightarrow> tracing_error + unit" where
  "check_reviews integral (x # xs) (y # ys) =
     bindE (refuse (is_object x \<and> is_object y) ''Interaction redaction must preserve review configurations'') (\<lambda>_.
     bindE (refuse (\<forall>k \<in> {''action_name'', ''allowed_decisions''}. py_equal integral (json_get y k) (json_get x k))
       ''Interaction redaction changed review configuration semantics'') (\<lambda>_.
     check_reviews integral xs ys))"
| "check_reviews integral xs ys = Inr ()"

definition validate_interaction_shape :: "(string \<Rightarrow> int option) \<Rightarrow> json_value \<Rightarrow> json_value \<Rightarrow> tracing_error + unit" where
  "validate_interaction_shape integral source safe =
     (if \<not> is_object source then Inr ()
      else
        bindE (refuse (is_object safe) ''Interaction redaction must return an object'') (\<lambda>_.
        case array_items (dget (entries source) ''review_configs'') of
          None \<Rightarrow> Inr ()
        | Some xs \<Rightarrow>
            (case array_items (dget (entries safe) ''review_configs'') of
               Some ys \<Rightarrow>
                 bindE (refuse (length xs = length ys) ''Interaction redaction changed review configuration order'') (\<lambda>_. check_reviews integral xs ys)
             | None \<Rightarrow> Inl (TraceCaptureRejected ''Interaction redaction changed review configuration order''))))"

definition validate_context_shape :: "(string \<Rightarrow> int option) \<Rightarrow> redaction_context \<Rightarrow> json_value \<Rightarrow> json_value \<Rightarrow> tracing_error + unit" where
  "validate_context_shape integral c source safe =
     bindE (refuse (rc_content_kind c = CkState \<longrightarrow> is_object safe) ''Trace state redaction must return an object'') (\<lambda>_.
     bindE (if rc_content_kind c = CkModelRequest then validate_model_request_shape integral source safe else Inr ()) (\<lambda>_.
     if rc_content_kind c = CkInteraction then validate_interaction_shape integral source safe else Inr ()))"

section \<open>The pipeline\<close>

text \<open>The two conversions of pydantic and Python are part of the environment.\<close>

record capture_pipeline =
  pl_policy :: capture_policy
  pl_reasoning_content :: bool
  pl_redactor :: "redactor option"
  pl_to_int :: "json_value \<Rightarrow> int option"
  pl_integral :: "string \<Rightarrow> int option"

definition pl_redact :: "capture_pipeline \<Rightarrow> redaction_context \<Rightarrow> json_value \<Rightarrow> tracing_error + json_value" where
  "pl_redact pl c v =
     bindE (secure_redact (pl_to_int pl) (pl_redactor pl) c v) (\<lambda>safe.
     bindE (validate_context_shape (pl_integral pl) c v safe) (\<lambda>_. Inr safe))"

definition encoded_size :: "json_value \<Rightarrow> int" where
  "encoded_size v = int (length (json_encode v))"

definition omitted :: "json_value \<Rightarrow> string \<Rightarrow> tracing_error + captured_value" where
  "omitted safe reason =
     mk_captured_value \<lparr>cv_disposition = Omitted, cv_safe_size = encoded_size safe, cv_value = JNull, cv_reason = Some reason\<rparr>"

definition validate_max_bytes :: "int \<Rightarrow> tracing_error + unit" where
  "validate_max_bytes n = demand (1 \<le> n) ''max_bytes must be positive''"

definition bound_value :: "json_value \<Rightarrow> int \<Rightarrow> tracing_error + captured_value" where
  "bound_value safe max_bytes =
     bindE (validate_max_bytes max_bytes) (\<lambda>_.
     if max_bytes < encoded_size safe then omitted safe ''payload_too_large''
     else mk_captured_value \<lparr>cv_disposition = Inline, cv_safe_size = encoded_size safe, cv_value = safe, cv_reason = None\<rparr>)"

definition pl_capture :: "capture_pipeline \<Rightarrow> redaction_context \<Rightarrow> int \<Rightarrow> json_value \<Rightarrow> tracing_error + captured_value" where
  "pl_capture pl c max_bytes v = bindE (pl_redact pl c v) (\<lambda>safe. bound_value safe max_bytes)"

definition pl_capture_reasoning :: "capture_pipeline \<Rightarrow> string option \<Rightarrow> int \<Rightarrow> json_value \<Rightarrow> tracing_error + captured_value" where
  "pl_capture_reasoning pl component max_bytes v =
     bindE (validate_max_bytes max_bytes) (\<lambda>_.
     bindE (mk_redaction_context \<lparr>rc_content_kind = CkModelResponse, rc_component_name = component\<rparr>) (\<lambda>c.
     bindE (pl_redact pl c v) (\<lambda>safe.
     if \<not> pl_reasoning_content pl then omitted safe ''reasoning_capture_disabled'' else bound_value safe max_bytes)))"

text \<open>\<open>_resolve_pointer\<close> on the components of a path.\<close>

fun resolve_pointer :: "json_value \<Rightarrow> string list \<Rightarrow> json_value option" where
  "resolve_pointer v [] = Some v"
| "resolve_pointer (JObject kvs) (c # rest) = (case dget kvs c of None \<Rightarrow> None | Some v \<Rightarrow> resolve_pointer v rest)"
| "resolve_pointer (JArray xs) (c # rest) =
     (if is_array_index c \<and> decimal c < length xs then resolve_pointer (xs ! decimal c) rest else None)"
| "resolve_pointer v (c # rest) = None"

datatype capture_target = ToolArguments | ToolResult

definition selected_values :: "json_value \<Rightarrow> string list \<Rightarrow> (string, json_value) dict" where
  "selected_values safe paths =
     foldl (\<lambda>selected path. case resolve_pointer safe (pointer_components path) of None \<Rightarrow> selected | Some v \<Rightarrow> dput path v selected) [] paths"

definition pl_capture_tool :: "capture_pipeline \<Rightarrow> string \<Rightarrow> capture_target \<Rightarrow> int \<Rightarrow> json_value \<Rightarrow> tracing_error + captured_value" where
  "pl_capture_tool pl tool_name target max_bytes v =
     bindE (validate_max_bytes max_bytes) (\<lambda>_.
     bindE (mk_redaction_context
       \<lparr>rc_content_kind = (if target = ToolArguments then CkToolArguments else CkToolResult), rc_component_name = Some tool_name\<rparr>) (\<lambda>c.
     bindE (pl_redact pl c v) (\<lambda>safe.
     bindE (tool_capture (pl_policy pl) tool_name) (\<lambda>setting.
     case tc_mode setting of
       FullContent \<Rightarrow> bound_value safe max_bytes
     | MetadataOnly \<Rightarrow> omitted safe ''tool_content_metadata_only''
     | CaptureDisabled \<Rightarrow> omitted safe ''tool_tracing_disabled''
     | SelectedContent \<Rightarrow>
         bound_value (JObject (selected_values safe (if target = ToolArguments then tc_argument_paths setting else tc_result_paths setting)))
           max_bytes))))"

definition pl_capture_metadata_only :: "capture_pipeline \<Rightarrow> redaction_context \<Rightarrow> string \<Rightarrow> json_value \<Rightarrow> tracing_error + captured_value" where
  "pl_capture_metadata_only pl c reason v =
     bindE (demand (text_within 1024 reason) ''metadata-only capture requires a bounded reason'') (\<lambda>_.
     bindE (pl_redact pl c v) (\<lambda>safe. omitted safe reason))"

fun json_type :: "json_value \<Rightarrow> string" where
  "json_type JNull = ''null''"
| "json_type (JBool b) = ''boolean''"
| "json_type (JInt n) = ''number''"
| "json_type (JFloat s) = ''number''"
| "json_type (JText s) = ''string''"
| "json_type (JArray xs) = ''array''"
| "json_type (JObject kvs) = ''object''"

definition structure_summary :: "json_value \<Rightarrow> json_value" where
  "structure_summary safe =
     JObject ([(''$type'', JText ''structural_metadata''), (''dataType'', JText (json_type safe)), (''sourceSafeSizeBytes'', JInt (encoded_size safe))] @
       (case safe of
          JObject kvs \<Rightarrow> [(''topLevelKeys'', JArray (map JText (sort (dkeys kvs))))]
        | JArray xs \<Rightarrow> [(''itemCount'', JInt (int (length xs)))]
        | _ \<Rightarrow> []))"

definition pl_capture_structure :: "capture_pipeline \<Rightarrow> redaction_context \<Rightarrow> int \<Rightarrow> json_value \<Rightarrow> tracing_error + captured_value" where
  "pl_capture_structure pl c max_bytes v =
     bindE (validate_max_bytes max_bytes) (\<lambda>_.
     bindE (pl_redact pl c v) (\<lambda>safe. bound_value (structure_summary safe) max_bytes))"

end
