(* ===== verification/Trace_Capture_Props.thy ===== *)
theory Trace_Capture_Props
  imports Trace_Capture "HOL-Library.Sublist"
begin

text \<open>
  What redaction guarantees whatever the redactor of the application does: no credential and no private reasoning is left in a
  captured value, the framework passes are idempotent, and a redacted path leads to nothing but the marker.
\<close>

section \<open>Clean values\<close>

fun no_credentials :: "json_value \<Rightarrow> bool" where
  "no_credentials (JArray xs) = ((credential_pair xs \<longrightarrow> xs ! 1 = redacted_marker) \<and> list_all no_credentials xs)"
| "no_credentials (JObject kvs) = list_all (\<lambda>(k, v). (is_credential_key k \<longrightarrow> v = redacted_marker) \<and> no_credentials v) kvs"
| "no_credentials v = True"

fun no_reasoning :: "json_value \<Rightarrow> bool" where
  "no_reasoning (JArray xs) = list_all no_reasoning xs"
| "no_reasoning (JObject kvs) =
     list_all (\<lambda>(k, v). (k = ''additional_kwargs'' \<longrightarrow> dget (entries v) ''reasoning_content'' = None) \<and> no_reasoning v) kvs"
| "no_reasoning v = True"

definition clean :: "json_value \<Rightarrow> bool" where
  "clean v \<longleftrightarrow> no_credentials v \<and> no_reasoning v"

lemma plain_keys [simp]:
  "\<not> is_credential_key ''$type''" "\<not> is_credential_key ''additional_kwargs''" "\<not> is_credential_key ''type''" "\<not> is_credential_key ''extras''"
  "\<not> is_credential_key ''attachment''" "\<not> is_credential_key ''file_id''" "\<not> is_credential_key ''mime_type''" "\<not> is_credential_key ''id''"
  "\<not> is_credential_key ''name''" "\<not> is_credential_key ''size_bytes''"
  by code_simp+

lemma marker_facts [simp]:
  "no_credentials redacted_marker" "no_reasoning redacted_marker" "redact_credentials redacted_marker = redacted_marker"
  "strip_private_reasoning redacted_marker = redacted_marker"
  by (simp_all add: redacted_marker_def)

lemma credential_pair_two: "credential_pair xs \<Longrightarrow> \<exists>k y. xs = [JText k, y] \<and> is_credential_key k"
  by (cases xs; cases "tl xs") (auto simp: credential_pair_def split: json_value.splits)

lemma credential_pair_iff: "credential_pair xs \<longleftrightarrow> (\<exists>k y. xs = [JText k, y] \<and> is_credential_key k)"
  using credential_pair_two by (auto simp: credential_pair_def)

lemma redact_text: "redact_credentials v = JText k \<longleftrightarrow> v = JText k"
  by (cases v) auto

lemma strip_text: "strip_private_reasoning v = JText k \<longleftrightarrow> v = JText k"
  by (cases v) auto

lemma pair_redacted: "credential_pair (map redact_credentials xs) = credential_pair xs"
  by (auto simp: credential_pair_iff redact_text map_eq_Cons_conv)

lemma pair_stripped: "credential_pair (map strip_private_reasoning xs) = credential_pair xs"
  by (auto simp: credential_pair_iff strip_text map_eq_Cons_conv)

lemma redacted_no_credentials: "no_credentials (redact_credentials v)"
proof (induction v rule: redact_credentials.induct)
  case (1 xs)
  then show ?case
    by (auto simp: pair_redacted list_all_iff dest!: credential_pair_two)
next
  case (2 kvs)
  then show ?case by (auto simp: list_all_iff)
qed auto

lemma entries_without: "(m, w) \<in> set (entries (without_key k v)) \<longleftrightarrow> (m, w) \<in> set (entries v) \<and> (is_object v \<longrightarrow> m \<noteq> k)"
  by (cases v) (auto simp: without_key_def)

lemma without_no_credentials: "no_credentials v \<Longrightarrow> no_credentials (without_key k v)"
  by (cases v) (auto simp: without_key_def list_all_iff)

lemma without_marker [simp]: "without_key ''reasoning_content'' redacted_marker = redacted_marker"
  by (simp add: without_key_def redacted_marker_def)

lemma strip_entry_marker: "strip_private_reasoning (if k = ''additional_kwargs'' \<and> is_object redacted_marker then without_key ''reasoning_content'' redacted_marker
    else redacted_marker) = redacted_marker"
  by simp

lemma stripped_no_credentials: "no_credentials v \<Longrightarrow> no_credentials (strip_private_reasoning v)"
proof (induction v rule: strip_private_reasoning.induct)
  case (1 xs)
  then show ?case by (auto simp: pair_stripped list_all_iff dest!: credential_pair_two)
next
  case (2 kvs)
  have "(is_credential_key k \<longrightarrow> strip_private_reasoning (if k = ''additional_kwargs'' \<and> is_object v then without_key ''reasoning_content'' v else v) = redacted_marker) \<and>
      no_credentials (strip_private_reasoning (if k = ''additional_kwargs'' \<and> is_object v then without_key ''reasoning_content'' v else v))"
    if kv: "(k, v) \<in> set kvs" for k v
  proof -
    have v: "no_credentials v" "is_credential_key k \<longrightarrow> v = redacted_marker" using 2(2) kv by (auto simp: list_all_iff)
    then have "no_credentials (if k = ''additional_kwargs'' \<and> is_object v then without_key ''reasoning_content'' v else v)"
      by (simp add: without_no_credentials)
    then show ?thesis using 2(1) [OF kv refl] v(2) strip_entry_marker by auto
  qed
  then show ?case by (auto simp: list_all_iff)
qed auto

lemma dget_map_values: "dget (map (\<lambda>(k, v). (k, f k v)) kvs) m = map_option (f m) (dget kvs m)"
  by (induction kvs) auto

lemma entries_strip: "\<not> is_object v \<Longrightarrow> entries (strip_private_reasoning v) = []"
  by (cases v) auto

lemma strip_without: "dget (entries (strip_private_reasoning (without_key k v))) k = None"
  by (cases v) (auto simp: without_key_def dget_None_iff)

lemma stripped_no_reasoning: "no_reasoning (strip_private_reasoning v)"
proof (induction v rule: strip_private_reasoning.induct)
  case (2 kvs)
  have "(k = ''additional_kwargs'' \<longrightarrow>
        dget (entries (strip_private_reasoning (if k = ''additional_kwargs'' \<and> is_object v then without_key ''reasoning_content'' v else v))) ''reasoning_content'' = None) \<and>
      no_reasoning (strip_private_reasoning (if k = ''additional_kwargs'' \<and> is_object v then without_key ''reasoning_content'' v else v))"
    if "(k, v) \<in> set kvs" for k v
    using 2(1) [OF that refl] by (auto simp: strip_without entries_strip)
  then show ?case by (auto simp: list_all_iff)
qed (auto simp: list_all_iff)

section \<open>Nothing more to remove\<close>

lemma redact_clean: "no_credentials v \<Longrightarrow> redact_credentials v = v"
proof (induction v rule: redact_credentials.induct)
  case (1 xs)
  then show ?case by (auto simp: list_all_iff map_idI dest!: credential_pair_two)
next
  case (2 kvs)
  then show ?case by (auto simp: list_all_iff intro!: map_idI)
qed auto

lemma without_absent: "dget (entries v) k = None \<Longrightarrow> without_key k v = v"
  by (cases v) (force simp: without_key_def dget_None_iff intro!: filter_True)+

lemma strip_clean: "no_reasoning v \<Longrightarrow> strip_private_reasoning v = v"
proof (induction v rule: strip_private_reasoning.induct)
  case (1 xs)
  then show ?case by (auto simp: list_all_iff intro!: map_idI)
next
  case (2 kvs)
  have "strip_private_reasoning (if k = ''additional_kwargs'' \<and> is_object v then without_key ''reasoning_content'' v else v) = v" if kv: "(k, v) \<in> set kvs" for k v
  proof -
    have v: "no_reasoning v" "k = ''additional_kwargs'' \<longrightarrow> dget (entries v) ''reasoning_content'' = None"
      using 2(2) kv by (auto simp: list_all_iff)
    have "(if k = ''additional_kwargs'' \<and> is_object v then without_key ''reasoning_content'' v else v) = v"
      using v(2) by (simp add: without_absent)
    then show ?thesis using 2(1) [OF kv refl] v(1) by (simp only:)
  qed
  then show ?case by (auto intro!: map_idI)
qed auto

text \<open>No image block still carries its descriptor.\<close>

fun no_blocks :: "json_value \<Rightarrow> bool" where
  "no_blocks (JArray xs) = list_all no_blocks xs"
| "no_blocks (JObject kvs) = (attached kvs = None \<and> list_all (\<lambda>(k, v). no_blocks v) kvs)"
| "no_blocks v = True"

lemma block_no_blocks [simp]: "no_blocks (content_block a)"
  by (simp add: content_block_def attached_def)

lemma redact_entries: "entries (redact_credentials v) = map (\<lambda>(k, w). (k, if is_credential_key k then redacted_marker else redact_credentials w)) (entries v)"
  by (cases v) auto

lemma attached_iff: "attached kvs = None \<longleftrightarrow>
    \<not> (dget kvs ''type'' = Some (JText ''image_url'') \<and> (\<exists>v. dget kvs ''extras'' = Some v \<and> dget (entries v) ''attachment'' \<noteq> None))"
  by (auto simp: attached_def split: option.splits json_value.splits elim: entries.elims)

lemma redacted_no_blocks: "no_blocks v \<Longrightarrow> no_blocks (redact_credentials v)"
proof (induction v rule: redact_credentials.induct)
  case (1 xs)
  then show ?case by (auto simp: list_all_iff redacted_marker_def attached_def dest!: credential_pair_two)
next
  case (2 kvs)
  let ?f = "\<lambda>k v. if is_credential_key k then redacted_marker else redact_credentials v"
  have "attached (map (\<lambda>(k, v). (k, ?f k v)) kvs) = None"
    using 2(2) by (auto simp: attached_iff dget_map_values redact_text redact_entries)
  then show ?case using 2 by (auto simp: list_all_iff redacted_marker_def attached_def)
qed auto

lemma attached_filter: "attached kvs = None \<Longrightarrow> attached (filter (\<lambda>(m, _). m \<noteq> ''reasoning_content'') kvs) = None"
proof -
  have same: "dget (filter (\<lambda>(m, _). m \<noteq> ''reasoning_content'') kvs) k = dget kvs k" if "k \<noteq> ''reasoning_content''" for k
    using that by (induction kvs) auto
  show "attached kvs = None \<Longrightarrow> ?thesis" by (simp add: attached_iff same)
qed

lemma without_no_blocks: "no_blocks v \<Longrightarrow> no_blocks (without_key ''reasoning_content'' v)"
  by (cases v) (auto simp: without_key_def attached_filter list_all_iff)

lemma strip_entries: "entries (strip_private_reasoning v) =
    map (\<lambda>(k, w). (k, strip_private_reasoning (if k = ''additional_kwargs'' \<and> is_object w then without_key ''reasoning_content'' w else w))) (entries v)"
  by (cases v) auto

lemma stripped_no_blocks: "no_blocks v \<Longrightarrow> no_blocks (strip_private_reasoning v)"
proof (induction v rule: strip_private_reasoning.induct)
  case (1 xs)
  then show ?case by (auto simp: list_all_iff)
next
  case (2 kvs)
  let ?f = "\<lambda>k v. strip_private_reasoning (if k = ''additional_kwargs'' \<and> is_object v then without_key ''reasoning_content'' v else v)"
  have "attached (map (\<lambda>(k, v). (k, ?f k v)) kvs) = None"
    using 2(2) by (auto simp: attached_iff dget_map_values strip_text strip_entries)
  moreover have "no_blocks (?f k v)" if kv: "(k, v) \<in> set kvs" for k v
    using 2(1) [OF kv refl] 2(2) kv without_no_blocks by (auto simp: list_all_iff)
  ultimately show ?case by (auto simp: list_all_iff)
qed auto

lemma traverse_set: "traverse f xs = Inr ys \<Longrightarrow> y \<in> set ys \<Longrightarrow> \<exists>x \<in> set xs. f x = Inr y"
  by (induction xs arbitrary: ys) (auto simp: bindE_Inr_iff)

lemma traverse_same: "(\<And>x. x \<in> set xs \<Longrightarrow> f x = Inr x) \<Longrightarrow> traverse f xs = Inr xs"
  by (induction xs) (auto simp: bindE_Inr_iff)

lemma restore_clean: "no_blocks v \<Longrightarrow> restore_attachments to_int v = Inr v"
proof (induction to_int v rule: restore_attachments.induct)
  case (1 to_int xs)
  then have "traverse (restore_attachments to_int) xs = Inr xs" by (intro traverse_same) (auto simp: list_all_iff)
  then show ?case by (simp add: bindE_Inr_iff)
next
  case (2 to_int kvs)
  then have "traverse (\<lambda>(k, v). bindE (restore_attachments to_int v) (\<lambda>w. Inr (k, w))) kvs = Inr kvs"
    by (intro traverse_same) (auto simp: list_all_iff bindE_Inr_iff)
  then show ?case using 2(2) by (simp add: bindE_Inr_iff)
qed auto

lemma traverse_dget:
  "traverse (\<lambda>(k, v). bindE (f v) (\<lambda>w. Inr (k, w))) kvs = Inr ws \<Longrightarrow>
     (case dget kvs k of None \<Rightarrow> dget ws k = None | Some v \<Rightarrow> \<exists>w. f v = Inr w \<and> dget ws k = Some w)"
  by (induction kvs arbitrary: ws) (auto simp: bindE_Inr_iff split: option.splits)

lemma restore_text: "restore_attachments to_int v = Inr (JText s) \<Longrightarrow> v = JText s"
  by (cases v) (auto simp: bindE_Inr_iff content_block_def split: option.splits)

lemma restore_attachment_key:
  assumes "restore_attachments to_int v = Inr w" "dget (entries w) ''attachment'' \<noteq> None"
  shows "dget (entries v) ''attachment'' \<noteq> None"
proof (cases v)
  case (JObject kvs)
  show ?thesis
  proof (cases "attached kvs")
    case None
    then obtain ws where "traverse (\<lambda>(k, v). bindE (restore_attachments to_int v) (\<lambda>w. Inr (k, w))) kvs = Inr ws" "w = JObject ws"
      using assms(1) JObject by (auto simp: bindE_Inr_iff)
    then show ?thesis using traverse_dget [of "restore_attachments to_int" kvs ws "''attachment''"] assms(2) JObject
      by (auto split: option.splits)
  next
    case (Some d)
    then have "\<exists>a. w = content_block a" using assms(1) JObject by (auto split: option.splits)
    then show ?thesis using assms(2) by (auto simp: content_block_def)
  qed
qed (use assms in \<open>auto simp: bindE_Inr_iff\<close>)

lemma restored_no_blocks: "restore_attachments to_int v = Inr w \<Longrightarrow> no_blocks w"
proof (induction to_int v arbitrary: w rule: restore_attachments.induct)
  case (1 to_int xs)
  then obtain ys where ys: "traverse (restore_attachments to_int) xs = Inr ys" "w = JArray ys" by (auto simp: bindE_Inr_iff)
  then have "no_blocks y" if "y \<in> set ys" for y using 1(1) traverse_set [OF ys(1) that] by blast
  then show ?case using ys(2) by (simp add: list_all_iff)
next
  case (2 to_int kvs)
  show ?case
  proof (cases "attached kvs")
    case None
    then obtain ws where ws: "traverse (\<lambda>(k, v). bindE (restore_attachments to_int v) (\<lambda>w. Inr (k, w))) kvs = Inr ws" "w = JObject ws"
      using 2(2) by (auto simp: bindE_Inr_iff)
    have "attached ws = None"
    proof (rule ccontr)
      assume "attached ws \<noteq> None"
      then obtain e where e: "dget ws ''type'' = Some (JText ''image_url'')" "dget ws ''extras'' = Some e" "dget (entries e) ''attachment'' \<noteq> None"
        by (auto simp: attached_iff)
      have "dget kvs ''type'' = Some (JText ''image_url'')"
        using traverse_dget [OF ws(1), of "''type''"] e(1) restore_text by (auto split: option.splits)
      moreover obtain v where v: "dget kvs ''extras'' = Some v" "restore_attachments to_int v = Inr e"
        using traverse_dget [OF ws(1), of "''extras''"] e(2) by (auto split: option.splits)
      ultimately show False using None restore_attachment_key [OF v(2) e(3)] v(1) by (auto simp: attached_iff)
    qed
    moreover have "no_blocks u" if "(k, u) \<in> set ws" for k u
      using traverse_set [OF ws(1) that] 2(1) [OF None] by (auto simp: bindE_Inr_iff)
    ultimately show ?thesis using ws(2) by (auto simp: list_all_iff)
  next
    case (Some d)
    then show ?thesis using 2(2) by (auto split: option.splits)
  qed
qed auto

section \<open>The guarantees\<close>

lemma passes_clean: "framework_passes to_int v = Inr w \<Longrightarrow> clean w \<and> no_blocks w"
  by (auto simp: framework_passes_def bindE_Inr_iff clean_def redacted_no_credentials stripped_no_credentials stripped_no_reasoning
      restored_no_blocks redacted_no_blocks stripped_no_blocks)

lemma secure_clean: "secure_redact to_int r c v = Inr w \<Longrightarrow> clean w"
  by (auto simp: secure_redact_def bindE_Inr_iff passes_clean split: option.splits)

lemma pl_redact_clean: "pl_redact pl c v = Inr safe \<Longrightarrow> clean safe"
  by (auto simp: pl_redact_def bindE_Inr_iff secure_clean)

text \<open>C40: The framework passes are idempotent: what they return has no credentials, no private reasoning and no image block with its
  descriptor left, and passing it through them again returns it unchanged.\<close>
theorem redaction_idempotent:
  assumes "secure_redact to_int None c v = Inr w"
  shows "secure_redact to_int None c' w = Inr w \<and> no_credentials w \<and> no_reasoning w \<and> no_blocks w"
proof -
  have w: "clean w" "no_blocks w" using assms passes_clean by (auto simp: secure_redact_def bindE_Inr_iff)
  then have "framework_passes to_int w = Inr w"
    by (simp add: framework_passes_def restore_clean clean_def redact_clean strip_clean bindE_Inr_iff)
  then show ?thesis using w by (simp add: secure_redact_def clean_def bindE_Inr_iff)
qed

definition c_value :: json_value where
  "c_value = JObject [(''user'', JText ''u''), (''apiKey'', JText ''k1''), (''args'', JArray [JText ''token'', JText ''t1'']),
     (''additional_kwargs'', JObject [(''reasoning_content'', JText ''r''), (''n'', JInt 1)])]"

definition c_safe :: json_value where
  "c_safe = JObject [(''user'', JText ''u''), (''apiKey'', redacted_marker), (''args'', JArray [JText ''token'', redacted_marker]),
     (''additional_kwargs'', JObject [(''n'', JInt 1)])]"

definition c_context :: redaction_context where
  "c_context = \<lparr>rc_content_kind = CkCustom, rc_component_name = None\<rparr>"

lemma keys_plain [simp]: "\<not> is_credential_key ''user''" "is_credential_key ''apiKey''" "\<not> is_credential_key ''args''" "is_credential_key ''token''"
  "\<not> is_credential_key ''n''"
  by code_simp+

lemma c_redacted: "secure_redact (\<lambda>v. None) None c_context c_value = Inr c_safe"
  by (simp add: secure_redact_def framework_passes_def c_value_def c_safe_def attached_def bindE_Inr_iff credential_pair_def without_key_def redacted_marker_def)

theorem redaction_idempotent_witness: "secure_redact (\<lambda>v. None) None c_context c_safe = Inr c_safe \<and> no_credentials c_safe"
proof -
  have "secure_redact (\<lambda>v. None) None c_context c_value = Inr c_safe" by (rule c_redacted)
  from redaction_idempotent [OF this, of c_context] show ?thesis by blast
qed

section \<open>Captured content\<close>

lemma resolve_clean: "clean v \<Longrightarrow> resolve_pointer v cs = Some w \<Longrightarrow> clean w"
proof (induction v cs rule: resolve_pointer.induct)
  case (2 kvs c rest)
  then obtain v where v: "dget kvs c = Some v" "resolve_pointer v rest = Some w" by (auto split: option.splits)
  have "(c, v) \<in> set kvs" using v(1) by (rule map_of_SomeD)
  then have "clean v" using 2(2) by (auto simp: clean_def list_all_iff)
  then show ?case using 2(1) v by blast
next
  case (3 xs c rest)
  then have "decimal c < length xs" "is_array_index c" "resolve_pointer (xs ! decimal c) rest = Some w" by (auto split: if_splits)
  moreover from this have "clean (xs ! decimal c)" using 3(2) by (auto simp: clean_def list_all_length)
  ultimately show ?case using 3(1) by blast
qed auto

lemma in_dput: "(p, w) \<in> set (dput k v d) \<Longrightarrow> w = v \<or> (p, w) \<in> set d"
  by (induction d) (auto split: if_splits)

lemma selected_clean: "clean safe \<Longrightarrow> (p, w) \<in> set (selected_values safe paths) \<Longrightarrow> clean w"
proof (induction paths arbitrary: p w rule: rev_induct)
  case (snoc path paths)
  let ?sel = "selected_values safe paths"
  have eq: "selected_values safe (paths @ [path]) =
      (case resolve_pointer safe (pointer_components path) of None \<Rightarrow> ?sel | Some v \<Rightarrow> dput path v ?sel)" by (simp add: selected_values_def split: option.split)
  show ?case
  proof (cases "resolve_pointer safe (pointer_components path)")
    case None
    then show ?thesis using snoc eq by simp
  next
    case (Some v)
    then have "(p, w) \<in> set (dput path v ?sel)" using snoc(3) eq by simp
    then have "w = v \<or> (p, w) \<in> set ?sel" by (rule in_dput)
    then show ?thesis using snoc(1,2) resolve_clean [OF snoc(2) Some] by blast
  qed
qed (simp add: selected_values_def)

definition clean_content :: "json_value \<Rightarrow> bool" where
  "clean_content v \<longleftrightarrow> clean v \<or> (\<exists>selected. v = JObject selected \<and> (\<forall>(p, w) \<in> set selected. clean w))"

lemma clean_null [simp]: "clean_content JNull"
  by (simp add: clean_content_def clean_def)

lemma redacted_content: "pl_redact pl c v = Inr safe \<Longrightarrow> clean_content safe"
  by (simp add: clean_content_def pl_redact_clean)

lemma omitted_content: "omitted safe reason = Inr cv \<Longrightarrow> cv_value cv = JNull \<and> cv_disposition cv = Omitted"
  by (auto simp: omitted_def mk_captured_value_def bindE_Inr_iff)

lemma bound_content: "bound_value safe n = Inr cv \<Longrightarrow> (cv_value cv = JNull \<and> cv_disposition cv = Omitted) \<or> (cv_value cv = safe \<and> encoded_size safe \<le> n)"
  by (auto simp: bound_value_def mk_captured_value_def bindE_Inr_iff dest: omitted_content split: if_splits)

definition captures :: "capture_pipeline \<Rightarrow> redaction_context \<Rightarrow> string \<Rightarrow> capture_target \<Rightarrow> int \<Rightarrow> json_value \<Rightarrow> (tracing_error + captured_value) set" where
  "captures pl c name target n v =
     {pl_capture pl c n v, pl_capture_reasoning pl (Some name) n v, pl_capture_tool pl name target n v, pl_capture_metadata_only pl c name v}"

lemma tool_content:
  assumes "pl_capture_tool pl name target n v = Inr cv"
  obtains x where "clean_content x" "bound_value x n = Inr cv \<or> (\<exists>reason. omitted x reason = Inr cv)"
proof -
  obtain safe and setting :: tool_trace_capture where s: "clean safe"
    and m: "(case tc_mode setting of
       FullContent \<Rightarrow> bound_value safe n
     | MetadataOnly \<Rightarrow> omitted safe ''tool_content_metadata_only''
     | CaptureDisabled \<Rightarrow> omitted safe ''tool_tracing_disabled''
     | SelectedContent \<Rightarrow>
         bound_value (JObject (selected_values safe (if target = ToolArguments then tc_argument_paths setting else tc_result_paths setting))) n) = Inr cv"
    using assms unfolding pl_capture_tool_def bindE_Inr_iff using pl_redact_clean by blast
  have "clean_content safe" "clean_content (JObject (selected_values safe ps))" for ps
    using s selected_clean [OF s] by (auto simp: clean_content_def)
  then show ?thesis using m that by (cases "tc_mode setting") auto
qed

text \<open>C38: Whatever the redactor of the application returns, captured content holds no credential and no private reasoning, except that
  a Tool setting may arrange clean parts under the paths that selected them; and content that is kept fits the byte budget of
  the call.\<close>
theorem captured_content_is_clean:
  assumes "Inr cv \<in> captures pl c name target n v"
  shows "(clean (cv_value cv) \<or> (\<exists>selected. cv_value cv = JObject selected \<and> (\<forall>(p, w) \<in> set selected. clean w))) \<and>
    (cv_disposition cv = Inline \<longrightarrow> int (length (json_encode (cv_value cv))) \<le> n)"
proof -
  have "\<exists>x. clean_content x \<and> (bound_value x n = Inr cv \<or> (\<exists>reason. omitted x reason = Inr cv))"
  proof -
    consider "pl_capture pl c n v = Inr cv" | "pl_capture_reasoning pl (Some name) n v = Inr cv" | "pl_capture_tool pl name target n v = Inr cv"
      | "pl_capture_metadata_only pl c name v = Inr cv" using assms by (auto simp: captures_def)
    then show ?thesis
    proof cases
      case 3
      then show ?thesis by (rule tool_content) blast
    next
      case 1
      then show ?thesis unfolding pl_capture_def bindE_Inr_iff using redacted_content by blast
    next
      case 2
      then obtain c' safe where safe: "pl_redact pl c' v = Inr safe"
        and "(if \<not> pl_reasoning_content pl then omitted safe ''reasoning_capture_disabled'' else bound_value safe n) = Inr cv"
        unfolding pl_capture_reasoning_def bindE_Inr_iff by blast
      then have "bound_value safe n = Inr cv \<or> (\<exists>reason. omitted safe reason = Inr cv)" by (auto split: if_splits)
      then show ?thesis using redacted_content [OF safe] by blast
    next
      case 4
      then show ?thesis unfolding pl_capture_metadata_only_def bindE_Inr_iff using redacted_content by blast
    qed
  qed
  then obtain x where x: "clean_content x" "bound_value x n = Inr cv \<or> (\<exists>reason. omitted x reason = Inr cv)" by blast
  then have "(cv_value cv = JNull \<and> cv_disposition cv = Omitted) \<or> (cv_value cv = x \<and> encoded_size x \<le> n)"
    using bound_content omitted_content by blast
  then have "clean_content (cv_value cv)" "cv_disposition cv = Inline \<longrightarrow> encoded_size (cv_value cv) \<le> n" using x(1) by auto
  then show ?thesis by (simp add: clean_content_def encoded_size_def)
qed

text \<open>A redactor that puts a secret back.\<close>

definition leaky :: capture_pipeline where
  "leaky = \<lparr>pl_policy = \<lparr>cp_include_error_messages = False, cp_default_tool_capture = plain_capture FullContent, cp_tool_overrides = [], cp_tool_rules = []\<rparr>,
     pl_reasoning_content = False, pl_redactor = Some (\<lambda>c v. Inr (JObject [(''token'', JText ''t1'')])), pl_to_int = (\<lambda>v. None),
     pl_integral = (\<lambda>s. None)\<rparr>"

definition c_kept :: captured_value where
  "c_kept = \<lparr>cv_disposition = Inline, cv_safe_size = 30, cv_value = JObject [(''token'', redacted_marker)], cv_reason = None\<rparr>"

lemma c_captured: "pl_capture leaky c_context 64 JNull = Inr c_kept"
proof -
  have "pl_redact leaky c_context JNull = Inr (JObject [(''token'', redacted_marker)])"
    by (simp add: pl_redact_def secure_redact_def framework_passes_def leaky_def apply_redactor_def attached_def bindE_Inr_iff
        validate_context_shape_def c_context_def)
  moreover have "bound_value (JObject [(''token'', redacted_marker)]) 64 = Inr c_kept" by code_simp
  ultimately show ?thesis by (simp add: pl_capture_def bindE_Inr_iff)
qed

theorem captured_content_is_clean_witness: "clean (cv_value c_kept) \<and> int (length (json_encode (cv_value c_kept))) \<le> 64"
proof -
  have "Inr c_kept \<in> captures leaky c_context ''t'' ToolArguments 64 JNull" unfolding captures_def c_captured by blast
  from captured_content_is_clean [OF this]
  have "int (length (json_encode (cv_value c_kept))) \<le> 64" by (simp add: c_kept_def)
  then show ?thesis by (simp add: c_kept_def clean_def)
qed

section \<open>Redacted paths\<close>

text \<open>The marker, inside a number of \<open>$type\<close> entries: what later paths below it can make of it.\<close>

fun nested_marker :: "nat \<Rightarrow> json_value" where
  "nested_marker 0 = redacted_marker"
| "nested_marker (Suc n) = JObject [(''$type'', nested_marker n)]"

lemma replace_text [simp]: "replace_pointer cs (JText s) = JText s"
  by (cases cs) auto

lemma replace_nested: "\<exists>m. replace_pointer ds (nested_marker n) = nested_marker m"
proof (induction ds arbitrary: n)
  case Nil
  then show ?case by auto
next
  case (Cons d ds)
  show ?case
  proof (cases n)
    case 0
    show ?thesis
      by (rule exI [of _ "if ds = [] \<and> d = ''$type'' then 1 else 0"]) (auto simp: 0 redacted_marker_def)
  next
    case (Suc k)
    obtain m where "replace_pointer ds (nested_marker k) = nested_marker m" using Cons.IH by blast
    then show ?thesis
      by (intro exI [of _ "if d \<noteq> ''$type'' then n else if ds = [] then 1 else Suc m"]) (simp add: Suc)
  qed
qed

lemma replace_marker: "(\<And>rest. ds \<noteq> ''$type'' # rest) \<Longrightarrow> replace_pointer ds redacted_marker = redacted_marker"
  by (cases ds) (auto simp: redacted_marker_def)

text \<open>Two components that are indices name the same position only when they are equal.\<close>

lemma decimal_snoc: "decimal (s @ [c]) = 10 * decimal s + ((of_char c :: nat) - 48)"
  by (simp add: decimal_def)

lemma digit_range: "char_between CHR ''0'' CHR ''9'' c \<Longrightarrow> 48 \<le> (of_char c :: nat) \<and> (of_char c :: nat) \<le> 57"
  by (simp add: char_between_def)

lemma decimal_positive: "s \<noteq> [] \<Longrightarrow> char_between CHR ''1'' CHR ''9'' (hd s) \<Longrightarrow> 0 < decimal s"
proof (induction s rule: rev_induct)
  case (snoc c s)
  then show ?case
    by (cases s) (simp_all add: decimal_def char_between_def)
qed simp

lemma decimal_inject_digits:
  "\<lbrakk>s \<noteq> []; t \<noteq> []; char_between CHR ''1'' CHR ''9'' (hd s); char_between CHR ''1'' CHR ''9'' (hd t);
    list_all (char_between CHR ''0'' CHR ''9'') s; list_all (char_between CHR ''0'' CHR ''9'') t; decimal s = decimal t\<rbrakk> \<Longrightarrow> s = t"
proof (induction s arbitrary: t rule: rev_induct)
  case (snoc c s)
  obtain u d where t: "t = u @ [d]" using snoc.prems(2) by (cases t rule: rev_cases) auto
  define m n where mn: "m = (of_char c :: nat) - 48" "n = (of_char d :: nat) - 48"
  have r: "48 \<le> (of_char c :: nat)" "m < 10" "48 \<le> (of_char d :: nat)" "n < 10"
    using digit_range [of c] digit_range [of d] snoc.prems(5,6) t unfolding mn by auto
  have "10 * decimal s + m = 10 * decimal u + n" using snoc.prems(7) by (simp add: t decimal_snoc mn)
  then have "decimal s = decimal u" "m = n" using r(2,4) by presburger+
  then have c: "c = d" using r(1,3) unfolding mn by (metis diff_add of_char_eq_iff)
  have "s = u"
  proof (cases "s = [] \<or> u = []")
    case True
    then show ?thesis
      using \<open>decimal s = decimal u\<close> decimal_positive [of s] decimal_positive [of u] snoc.prems(3,4) t
      by (cases s; cases u) (auto simp: decimal_def)
  next
    case False
    then show ?thesis using snoc.IH [of u] snoc.prems t \<open>decimal s = decimal u\<close> by auto
  qed
  then show ?case using t c by simp
qed simp

lemma decimal_inject:
  assumes "is_array_index s" "is_array_index t" "decimal s = decimal t" shows "s = t"
proof -
  have zero: "decimal ''0'' = 0" by (simp add: decimal_def)
  have pos: "x = ''0'' \<or> 0 < decimal x" if "is_array_index x" for x
    using that decimal_positive [of x] by (auto simp: is_array_index_def)
  show ?thesis
  proof (cases "s = ''0'' \<or> t = ''0''")
    case True
    then show ?thesis using pos [OF assms(1)] pos [OF assms(2)] assms(3) zero by auto
  next
    case False
    then show ?thesis using assms decimal_inject_digits [of s t] by (simp add: is_array_index_def)
  qed
qed

lemma replaced_here: "cs \<noteq> [] \<Longrightarrow> resolve_pointer (replace_pointer cs v) cs = Some w \<Longrightarrow> w = redacted_marker"
proof (induction cs v rule: replace_pointer.induct)
  case (2 c rest kvs)
  then show ?case by (auto simp: dget_dput split: option.splits if_splits)
next
  case (3 c rest xs)
  then show ?case by (auto split: if_splits)
qed auto

text \<open>A replacement at a path that is no proper part of the path looked at acts on what that path leads to
  or leaves it alone: with \<open>P\<close> a property of values that replacements below keep.\<close>

lemma replace_keeps:
  assumes "\<And>w. resolve_pointer v cs = Some w \<Longrightarrow> P w" "resolve_pointer (replace_pointer ds v) cs = Some w"
    "\<not> strict_prefix ds cs" "P redacted_marker" "\<And>rest u. ds = cs @ rest \<Longrightarrow> P u \<Longrightarrow> P (replace_pointer rest u)"
  shows "P w"
  using assms(1-3,5)
proof (induction cs arbitrary: v ds)
  case Nil
  have "P v" "w = replace_pointer ds v" using Nil.prems(1,2) by simp_all
  then show ?case using Nil.prems(4) [of ds v] by simp
next
  case (Cons c cs)
  obtain d es where ds: "ds = d # es" using Cons.prems(3) by (cases ds) auto
  let ?u' = "\<lambda>u. if es = [] then redacted_marker else replace_pointer es u"
  have below: "P w" if "resolve_pointer (?u' u) cs = Some w" "\<And>w. resolve_pointer u cs = Some w \<Longrightarrow> P w" "c = d" for u
  proof (cases "es = []")
    case True
    then have "cs = []" using Cons.prems(3) ds that(3) by (cases cs) auto
    then show ?thesis using that(1) True assms(4) by simp
  next
    case False
    show ?thesis
      by (rule Cons.IH [of u es]) (use that False Cons.prems(3,4) ds in auto)
  qed
  show ?case
  proof (cases v)
    case (JObject kvs)
    show ?thesis
    proof (cases "dget kvs d = None \<or> c \<noteq> d")
      case True
      then show ?thesis using Cons.prems(1,2) JObject ds by (auto simp: dget_dput split: option.splits)
    next
      case False
      then obtain u where u: "dget kvs d = Some u" "c = d" by auto
      then have "resolve_pointer (?u' u) cs = Some w" using Cons.prems(2) JObject ds by (simp add: dget_dput split: if_splits)
      then show ?thesis by (rule below) (use Cons.prems(1) JObject u in simp_all)
    qed
  next
    case (JArray xs)
    show ?thesis
    proof (cases "is_array_index d \<and> decimal d < length xs \<and> is_array_index c \<and> decimal c = decimal d")
      case False
      then show ?thesis using Cons.prems(1,2) JArray ds by (auto split: if_splits)
    next
      case True
      then have same: "c = d" using decimal_inject by blast
      have "resolve_pointer (?u' (xs ! decimal d)) cs = Some w" using True Cons.prems(2) JArray ds by (simp split: if_splits)
      then show ?thesis by (rule below) (use Cons.prems(1) JArray True same in simp_all)
    qed
  qed (use Cons.prems ds in auto)
qed

lemma length_components: "length (pointer_components path) = length (filter (\<lambda>c. c = CHR ''/'') path)"
proof -
  have "length (split_slashes s) = Suc (length (filter (\<lambda>c. c = CHR ''/'') s))" for s
    by (induction s) (auto split: list.split)
  then show ?thesis by (simp add: pointer_components_def)
qed

lemma depth_order: "path_depth p \<le> path_depth q \<Longrightarrow> \<not> strict_prefix (pointer_components q) (pointer_components p)"
  using prefix_length_less [of "pointer_components q" "pointer_components p"]
  by (auto simp: path_depth_def length_components less_eq_prod_def)

lemma replaced_all:
  assumes "path \<in> set paths" "pointer_components path \<noteq> []" "sorted (map path_depth paths)" "P redacted_marker"
    "\<And>other rest u. other \<in> set paths \<Longrightarrow> pointer_components other = pointer_components path @ rest \<Longrightarrow> P u \<Longrightarrow> P (replace_pointer rest u)"
    "resolve_pointer (foldl (\<lambda>current path. replace_pointer (pointer_components path) current) v paths) (pointer_components path) = Some w"
  shows "P w"
  using assms(1,3,5,6)
proof (induction paths arbitrary: w rule: rev_induct)
  case (snoc p paths)
  let ?before = "foldl (\<lambda>current path. replace_pointer (pointer_components path) current) v paths"
  have now: "resolve_pointer (replace_pointer (pointer_components p) ?before) (pointer_components path) = Some w" using snoc.prems(4) by simp
  show ?case
  proof (cases "p = path")
    case True
    then have "w = redacted_marker" using now replaced_here [OF assms(2)] by blast
    then show ?thesis using assms(4) by simp
  next
    case False
    then have path: "path \<in> set paths" "sorted (map path_depth paths)" "path_depth path \<le> path_depth p"
      using snoc.prems(1,2) by (auto simp: sorted_append)
    show ?thesis
    proof (rule replace_keeps [where P = P, OF _ now])
      show "P u" if "resolve_pointer ?before (pointer_components path) = Some u" for u
        by (rule snoc.IH [OF path(1,2) _ that]) (use snoc.prems(3) in auto)
      show "\<not> strict_prefix (pointer_components p) (pointer_components path)" by (rule depth_order [OF path(3)])
      show "P (replace_pointer rest u)" if "pointer_components p = pointer_components path @ rest" "P u" for rest u
        using snoc.prems(3) that by auto
    qed (rule assms(4))
  qed
qed simp

lemma split_slashes_some: "split_slashes s \<noteq> []"
  by (induction s) (auto split: list.splits)

lemma components_nonempty: "is_canonical_pointer path \<Longrightarrow> path \<noteq> [] \<Longrightarrow> pointer_components path \<noteq> []"
  using split_slashes_some by (cases path) (auto simp: is_canonical_pointer_def pointer_components_def)

text \<open>C39: A redacted path leads nowhere or to the redaction marker: whatever the value and the order of
  the paths, following any of the paths in the result gives nothing that was in the value. What it gives is
  exactly the marker, except where another path of the call goes on below it through \<open>$type\<close>, the key of the
  marker itself: the paths are applied from the root down, so \<open>/a\<close> and \<open>/a/$type\<close> together put a second
  marker inside the first, and then the path leads to the marker inside some \<open>$type\<close> entries.\<close>
theorem redacted_paths_masked:
  assumes "redact_json_paths paths v = Inr w" "path \<in> set paths" "resolve_pointer w (pointer_components path) = Some x"
  shows "x = redacted_marker \<or>
    (\<exists>other \<in> set paths. \<exists>rest. pointer_components other = pointer_components path @ ''$type'' # rest) \<and>
    (\<exists>n. x = nested_marker n)"
proof (cases "[] \<in> set paths")
  case True
  then have "w = redacted_marker" "length paths = 1" using assms(1) by (auto simp: redact_json_paths_def bindE_Inr_iff)
  moreover from this True assms(2) have "path = []" by (cases paths) auto
  ultimately show ?thesis using assms(3) by (simp add: pointer_components_def)
next
  case False
  let ?ps = "sort_key path_depth paths"
  have w: "resolve_pointer (foldl (\<lambda>current path. replace_pointer (pointer_components path) current) v ?ps) (pointer_components path) = Some x"
    and ok: "is_canonical_pointer path"
    using False assms by (auto simp: redact_json_paths_def bindE_Inr_iff list_all_iff)
  have "path \<noteq> []" using False assms(2) by metis
  then have ne: "pointer_components path \<noteq> []" by (rule components_nonempty [OF ok])
  have sorted: "path \<in> set ?ps" "sorted (map path_depth ?ps)" using assms(2) by simp_all
  have "\<exists>n. x = nested_marker n"
  proof (rule replaced_all [where P = "\<lambda>u. \<exists>n. u = nested_marker n", OF sorted(1) ne sorted(2) _ _ w])
    show "\<exists>n. redacted_marker = nested_marker n" by (rule exI [of _ 0]) simp
  qed (use replace_nested in auto)
  moreover have "x = redacted_marker"
    if "\<not> (\<exists>other \<in> set paths. \<exists>rest. pointer_components other = pointer_components path @ ''$type'' # rest)"
  proof (rule replaced_all [where P = "\<lambda>u. u = redacted_marker", OF sorted(1) ne sorted(2) refl _ w])
    fix other rest u
    assume "other \<in> set ?ps" "pointer_components other = pointer_components path @ rest" "u = redacted_marker"
    then show "replace_pointer rest u = redacted_marker" using that replace_marker [of rest] by fastforce
  qed
  ultimately show ?thesis by blast
qed

definition r_value :: json_value where
  "r_value = JObject [(''a'', JArray [JInt 1, JInt 2]), (''b'', JText ''s'')]"

definition r_result :: json_value where
  "r_result = JObject [(''a'', JArray [JInt 1, redacted_marker]), (''b'', redacted_marker)]"

theorem redacted_paths_masked_witness:
  "\<exists>x. resolve_pointer r_result (pointer_components ''/a/1'') = Some x \<and> x = redacted_marker"
proof -
  have r: "redact_json_paths [''/b'', ''/a/1'', ''/c''] r_value = Inr r_result" by code_simp
  have x: "resolve_pointer r_result (pointer_components ''/a/1'') = Some redacted_marker" by code_simp
  have c: "pointer_components ''/b'' = [''b'']" "pointer_components ''/a/1'' = [''a'', ''1'']" "pointer_components ''/c'' = [''c'']"
    by code_simp+
  obtain y where y: "resolve_pointer r_result (pointer_components ''/a/1'') = Some y" using x by blast
  have "y = redacted_marker" using redacted_paths_masked [OF r _ y] by (auto simp: c)
  then show ?thesis using y by blast
qed

end
