(* ===== verification/Spec2Isabelle.thy ===== *)
theory Spec2Isabelle
  imports Automation_Store_Pages Automation_Schedule_Props Sandbox_State_Props Messaging_Ledger_Props Trace_Store_Props Trace_Timeline_Props Trace_Query_Props Trace_Capture_Props
begin

text \<open>
  A verification library for the stateful core of tinkerfin: the in-process stores of its Python packages and the pure rules
  they share with the SQL and Redis backends. Paths below are relative to \<open>src/packages/\<close>; every definition carries the name of
  the function, class or constant it translates.

  The program and the theories.

  \<^item> \<open>tinkerfin-automation/src/tinkerfin_automation\<close> plans and executes tasks. \<open>Automation_Base\<close> (errors.py, policies.py, _json.py),
    \<open>Automation_Schedule\<close> (schedules.py: the Cron parser and search, interval and one-time schedules, previews, materialisation after
    downtime), \<open>Automation_Model\<close> (models.py, store.py), \<open>Automation_Rules\<close> (_rules.py: every decision on an execution) and
    \<open>Automation_Store\<close> (memory.py: every method of the in-memory store, as a function from arguments and state to a result or an
    error and a state). Workers claim work items under a lease and a fence; the rules return an \<open>ExecutionTransition\<close>, which the
    store applies.
  \<^item> \<open>tinkerfin-sandbox/src/tinkerfin_sandbox/lifecycle\<close>: \<open>Sandbox_State\<close> models availability.py (intents, holders, the phase table)
    and InMemoryOpenSandboxState of state.py (owner claims, bindings, the warm pool, replacement and cleanup).
  \<^item> \<open>tinkerfin-messaging/src/tinkerfin_messaging\<close>: \<open>Messaging_Base\<close> (errors.py, _identity.py, limits.py, retention.py, models.py,
    backend_contract.py), \<open>Messaging_Transition\<close> (_messaging_transition.py: the resolution of a transition against a snapshot),
    \<open>Messaging_Memory\<close> (backend.py, _capacity.py: MemoryBackend with its expiry index) and \<open>Messaging_Ledger\<close>
    (_messaging_ledger.py: the lifecycle every producer and reader goes through, over any backend).
  \<^item> \<open>tinkerfin-tracing/src/tinkerfin_tracing\<close>: \<open>Trace_Base\<close> (errors.py, limits.py, codec.py, _ids.py, the captured value of capture.py), \<open>Trace_Facts\<close>
    (facts.py), \<open>Trace_Graph\<close> (_graph_reducer.py: from facts to the rows of the timeline index), \<open>Trace_Ledger\<close> (_ledger.py, the
    records of backend.py: the reducer of ledger changes), \<open>Trace_Memory\<close> and \<open>Trace_Store\<close> (durable_store.py: the in-memory backend,
    DurableTraceStore, its writers and followers), \<open>Trace_Timeline\<close> (graph.py: the public timeline, its canonical order and deltas),
    \<open>Trace_Query\<close> (indexed graph queries of durable_store.py), \<open>Trace_Json\<close> (the equality of Python on JSON values), \<open>Trace_Redaction\<close> (redaction.py, and the attachment of
    \<open>tinkerfin-contracts/src/tinkerfin_contracts/media.py\<close>) and \<open>Trace_Capture\<close> (the Tool settings, policy and pipeline of capture.py).

  How the state corresponds. A Python dictionary is an insertion-ordered association list (\<open>dict\<close> of \<open>Prelude\<close>), a dataclass a
  record, an enumeration a datatype, an exception a value of the error datatype of the package. A method returns its result or
  its error together with the state; methods that run under the lock of their object are one step each. What the code draws from
  outside (clock readings, UUIDs, tokens, new generations) is an argument. Instants and durations are whole microseconds.

  The groups of lemmas.

  \<^item> \<open>Prelude\<close> holds dictionaries, computations that may raise, the collection of simplification rules and three interfaces as
    locales: \<open>invariant_system\<close> (an invariant kept by every step), \<open>keyed_simulation\<close> (steps seen at each key are steps of an
    abstract machine) and \<open>fenced_leases\<close> (a counter that never falls makes old claims dead for good). They are interpreted on the
    automation store, the Sandbox state (owners and warm slots), the Messaging backend and the trace ledger.
  \<^item> \<open>Automation_Store_Inv\<close>, \<open>_Steps\<close>, \<open>_Evolve\<close>, \<open>_Ops\<close>, \<open>_Run\<close>, \<open>_Correct\<close>: the lifecycle table and the links between tasks,
    executions, work items and occurrences, kept by every operation; the monotonicity of executions. The runs (\<open>store_step\<close>) ask that drawn
    identifiers are unused, that an enqueued execution is newly queued and that the executions \<open>materialize_task\<close> creates are new: the
    source does not check the last. \<open>Automation_Store_Atomic\<close>: an operation that raises leaves no trace, for any arguments.
    \<open>Automation_Store_Props\<close> and
    \<open>Automation_Store_Pages\<close> state what callers rely on: one start per execution, one active item, final results, concurrency
    limits, dead claims, pages that end. \<open>Automation_Schedule_Facts\<close> and \<open>_Props\<close>: the Cron search misses no selected local time, materialised
    runs are increasing and bounded, the closed form for intervals equals the scan.
  \<^item> \<open>Sandbox_State_Correct\<close>, \<open>_Drain\<close> and \<open>_Props\<close>: well-formedness, exclusive and fenced owners, and a pause only after every registered
    holder acknowledged its drain, along runs in which no step installs a binding that a registered holder names already.
  \<^item> \<open>Messaging_Memory_Inv\<close>, \<open>_Resolve\<close>, \<open>_Correct\<close>, \<open>_Steps\<close>, \<open>_Props\<close>: exact capacity accounting, one producer, refinement of an
    append-only log, exactly-once commits; \<open>Messaging_Signature\<close>: the hashed commit bytes are injective; \<open>Messaging_Ledger_Correct\<close>
    and \<open>_Props\<close>: the ledger as a client of any backend (locales \<open>borrowed_backend\<close>, \<open>purging_backend\<close>), deletion ends, followers of
    finished runs receive the whole rest.
  \<^item> \<open>Trace_Graph_Correct\<close>, \<open>Trace_Memory_Inv\<close> to \<open>Trace_Memory_Runs\<close>, \<open>Trace_Store_Steps\<close>, \<open>_Reads\<close>, \<open>_Terminal\<close>, \<open>_Clients\<close>, \<open>_Props\<close>: every commit is a
    move of one thread, quotas hold with the reserve for the endings of Runs, the log is append-only, the graph index equals the
    replay of the log, reads are slices, checkpoints load, followers miss nothing. \<open>Trace_Timeline_Correct\<close> and \<open>_Props\<close>: accepted
    timelines are nested and ordered, deltas are enough up to the equality of Python by which they compare nodes. \<open>Trace_Query_Correct\<close> and \<open>_Props\<close>: pages of the index are newest first, closed
    under Subagent parents and within their limits, and following the cursors ends and visits every matching row once. \<open>Trace_Capture_Props\<close>: captured content is free of
    credentials and private reasoning whatever the redactor of the application does, redaction is idempotent, redacted paths lead to
    the marker only (nested in itself where another path goes through its own key).

  Bounds and fuel. The misfire scan reads at most 100000 due times (MAX_MISFIRE_SCAN) and the Cron search looks eight years
  ahead, as the code does; expiry reclaims 64 threads per commit and cleanup purges 64 records per step; event pages hold at
  most 1000 events; the serialised size of an event settles within four attempts or the event is refused, as in \<open>_event\<close>; a Subagent
  path is followed for 65 levels, the range of the loop in the code. Fuel appears where the code itself counts, and in the reader that
  follows the cursors of a graph query, a client written for the statement: there running out is its own value, and one page more than there
  are visible nodes is enough. Recursion that is not
  structural carries a termination proof (the days of the Cron search, the scope walk, the canonical order, the content search). Loops driven by a
  backend (purging, the graph rebuild, following, waiting) are partial functions, whose value None is not returning; that the purge of a
  deletion, the rebuild and the followers return over the in-memory backends are theorems.

  Abstractions. Strings are lists of 8-bit characters. The quotient of durations is exact integer division, as the floats of the
  code are for spans below 2 to the 33 seconds. Instants beyond the year 9999 are not represented. The heap of the expiry index
  is kept sorted; only its minimum is read. Parameters stand for code outside the repository: the time zone database, SHA-256,
  JSON rendering and decoding by pydantic with the sizes it yields, the rendering of an identity as a thread key and the digest of
  an owner. Hypotheses on them state documented behaviour, such as the absence of collisions between the identifiers at hand. Waiting operations are
  modelled up to the point where they sleep. A ledger operation runs without interleaving, each of its backend calls one step; the
  runs of the backends interleave the calls of all clients. Task cancellation and process-control exceptions are not modelled.

  Not modelled. The SQL and Redis stores (their behaviour is that of servers outside the repository; the rules and
  reducers they share are modelled), the asyncio services around the stores (automation engine and scheduler, messaging channels
  and producers, Sandbox manager, trace observers: tasks, timers and callbacks of other frameworks), the Sandbox backends (remote I/O), the
  projections of facts into public pydantic models and their cursors, the core runtime, plans and adapters (drivers of LangGraph and AG-UI), the
  LangGraph store, native stream and SQLAlchemy helpers, and the Studio application.
\<close>

end
